(* ===== verification/HexPrelude.thy ===== *)
theory HexPrelude
  imports Main "HOL-Library.Word"
begin

text \<open>
  The prelude of the development: how the C values of HexChat are represented, and the
  facts every component shares.

  A \<open>char *\<close> that the code treats as a NUL-terminated string is a \<^typ>\<open>string\<close>, the bytes
  before the terminator. A pointer into such a string that only moves forward is the
  remaining suffix, so reading \<open>*p\<close> is \<open>cur p\<close> (the terminator when the suffix is empty)
  and \<open>p++\<close> is \<open>tl p\<close>. A \<open>char *\<close> that may be NULL is a \<open>string option\<close>.
  Bytes are the 256 values of \<^typ>\<open>char\<close>; \<open>uchar\<close> and \<open>schar\<close> read one as the
  unsigned and as the (x86) signed C integer.
\<close>

named_theorems cstr_simps \<open>facts about the C string primitives\<close>
named_theorems inv_intros \<open>invariant preservation, one rule per operation\<close>
named_theorems frame_simps \<open>fields an operation does not touch\<close>

subsection \<open>Bytes\<close>

abbreviation NUL :: char where "NUL \<equiv> CHR 0x00"

abbreviation BACKSLASH :: char where "BACKSLASH \<equiv> CHR 0x5C"

definition uchar :: "char \<Rightarrow> nat" where
  "uchar c = of_char c"

definition schar :: "char \<Rightarrow> int" where
  "schar c = (if uchar c < 128 then int (uchar c) else int (uchar c) - 256)"

definition ascii :: "char \<Rightarrow> bool" where
  "ascii c \<longleftrightarrow> uchar c < 128"

definition ascii_str :: "string \<Rightarrow> bool" where
  "ascii_str s \<longleftrightarrow> list_all ascii s"

definition no_nul :: "string \<Rightarrow> bool" where
  "no_nul s \<longleftrightarrow> NUL \<notin> set s"

lemma uchar_less: "uchar c < 256"
  by (simp add: uchar_def)

lemma uchar_NUL [simp]: "uchar NUL = 0"
  by (simp add: uchar_def)

lemma uchar_eq_iff: "uchar a = uchar b \<longleftrightarrow> a = b"
  by (simp add: uchar_def)

lemma uchar_0_iff [simp]: "uchar c = 0 \<longleftrightarrow> c = NUL"
  by (metis uchar_NUL uchar_eq_iff)

lemma schar_ascii: "ascii c \<Longrightarrow> schar c = int (uchar c)"
  by (simp add: schar_def ascii_def)

lemma ascii_str_Nil [simp]: "ascii_str []"
  and ascii_str_Cons [simp]: "ascii_str (c # s) \<longleftrightarrow> ascii c \<and> ascii_str s"
  and ascii_str_append [simp]: "ascii_str (s @ t) \<longleftrightarrow> ascii_str s \<and> ascii_str t"
  by (simp_all add: ascii_str_def)

lemma no_nul_Nil [simp]: "no_nul []"
  and no_nul_Cons [simp]: "no_nul (c # s) \<longleftrightarrow> c \<noteq> NUL \<and> no_nul s"
  and no_nul_append [simp]: "no_nul (s @ t) \<longleftrightarrow> no_nul s \<and> no_nul t"
  by (auto simp: no_nul_def)

subsection \<open>Reading a C string\<close>

definition cur :: "string \<Rightarrow> char" where
  "cur s = (case s of [] \<Rightarrow> NUL | c # _ \<Rightarrow> c)"

lemma cur_simps [simp]: "cur [] = NUL" "cur (c # s) = c"
  by (simp_all add: cur_def)

text \<open>
  \<open>strchr (s, c)\<close>: the suffix that starts at the first \<open>c\<close>, NULL if there is none. As in
  C, the terminator counts as a character of the string: \<open>strchr (s, 0)\<close> is the (empty)
  suffix at the end.
\<close>

fun strchr :: "string \<Rightarrow> char \<Rightarrow> string option" where
  "strchr [] c = (if c = NUL then Some [] else None)"
| "strchr (x # s) c = (if x = c then Some (x # s) else strchr s c)"

text \<open>The prefix of \<open>s\<close> before its first \<open>c\<close>: what is left when the code overwrites it by 0.\<close>

definition upto_chr :: "string \<Rightarrow> char \<Rightarrow> string" where
  "upto_chr s c = takeWhile (\<lambda>x. x \<noteq> c) s"

lemma strchr_None: "c \<noteq> NUL \<Longrightarrow> strchr s c = None \<longleftrightarrow> c \<notin> set s"
  by (induction s) auto

lemma strchr_Some_iff: "c \<noteq> NUL \<Longrightarrow> strchr s c \<noteq> None \<longleftrightarrow> c \<in> set s"
  by (simp add: strchr_None)

lemma strchr_Some_dropWhile:
  "c \<noteq> NUL \<Longrightarrow> strchr s c = Some t \<Longrightarrow> t = dropWhile (\<lambda>x. x \<noteq> c) s"
  by (induction s) (auto split: if_splits)

lemma strchr_Some_split:
  "c \<noteq> NUL \<Longrightarrow> strchr s c = Some t \<Longrightarrow> s = upto_chr s c @ t \<and> (\<exists>u. t = c # u)"
  by (induction s) (auto simp: upto_chr_def split: if_splits)

lemma length_strchr: "strchr s c = Some t \<Longrightarrow> length t \<le> length s"
  by (induction s) (auto split: if_splits)

text \<open>\<open>strncmp (s, p, strlen (p)) == 0\<close>, the code's prefix test.\<close>

fun has_prefix :: "string \<Rightarrow> string \<Rightarrow> bool" where
  "has_prefix s [] = True"
| "has_prefix [] (p # ps) = False"
| "has_prefix (c # s) (p # ps) = (c = p \<and> has_prefix s ps)"

lemma has_prefix_iff [cstr_simps]: "has_prefix s p \<longleftrightarrow> (\<exists>t. s = p @ t)"
  by (induction s p rule: has_prefix.induct) auto

text \<open>\<open>isdigit\<close> of the C locale.\<close>

definition is_digit :: "char \<Rightarrow> bool" where
  "is_digit c \<longleftrightarrow> 48 \<le> uchar c \<and> uchar c \<le> 57"

definition digit_val :: "char \<Rightarrow> nat" where
  "digit_val c = uchar c - 48"

text \<open>
  \<open>strtoul (s, NULL, 10)\<close> and \<open>atoi\<close> on their common part: skip blanks, read an optional
  sign, then digits up to the first other character. The value is the mathematical one;
  a caller that depends on the width narrows it.
\<close>

definition is_space :: "char \<Rightarrow> bool" where
  "is_space c \<longleftrightarrow> uchar c = 32 \<or> (9 \<le> uchar c \<and> uchar c \<le> 13)"

fun digits_acc :: "nat \<Rightarrow> string \<Rightarrow> nat" where
  "digits_acc acc [] = acc"
| "digits_acc acc (c # s) = (if is_digit c then digits_acc (10 * acc + digit_val c) s else acc)"

definition atoi :: "string \<Rightarrow> int" where
  "atoi s =
     (let t = dropWhile is_space s in
      case t of
        [] \<Rightarrow> 0
      | c # u \<Rightarrow> if c = CHR ''-'' then - int (digits_acc 0 u)
                 else if c = CHR ''+'' then int (digits_acc 0 u)
                 else int (digits_acc 0 t))"

lemma atoi_Nil [simp]: "atoi [] = 0"
  by (simp add: atoi_def)

text \<open>
  \<open>printf ("%u")\<close> / \<open>printf ("%d")\<close>: decimal digits, most significant first.
\<close>

fun show_nat :: "nat \<Rightarrow> string" where
  "show_nat n = (if n < 10 then [char_of (48 + n)]
                 else show_nat (n div 10) @ [char_of (48 + n mod 10)])"

declare show_nat.simps [simp del]

definition show_int :: "int \<Rightarrow> string" where
  "show_int i = (if i < 0 then CHR ''-'' # show_nat (nat (- i)) else show_nat (nat i))"

subsection \<open>Decimal numbers\<close>

lemma show_nat_digits: "\<forall>c \<in> set (show_nat n). is_digit c"
proof (induction n rule: show_nat.induct)
  case (1 n)
  show ?case
    using 1 by (subst show_nat.simps) (auto simp: is_digit_def uchar_def)
qed

lemma show_nat_nonempty [simp]: "show_nat n \<noteq> []"
  by (subst show_nat.simps) simp

lemma digits_acc_append:
  "\<forall>c \<in> set ds. is_digit c \<Longrightarrow> digits_acc acc (ds @ s) = digits_acc (digits_acc acc ds) s"
  by (induction ds arbitrary: acc) auto

lemma digits_acc_show_nat: "digits_acc 0 (show_nat n) = n"
proof (induction n rule: show_nat.induct)
  case (1 n)
  show ?case
  proof (cases "n < 10")
    case True
    then show ?thesis by (subst show_nat.simps) (simp add: is_digit_def digit_val_def uchar_def)
  next
    case False
    then have IH: "digits_acc 0 (show_nat (n div 10)) = n div 10" using 1 by simp
    from False have "show_nat n = show_nat (n div 10) @ [char_of (48 + n mod 10)]"
      by (subst show_nat.simps) simp
    with IH digits_acc_append [OF show_nat_digits, of 0 "n div 10" "[char_of (48 + n mod 10)]"]
    moreover have "n mod 10 \<le> 9" using mod_less_divisor [of 10 n] by linarith
    ultimately show ?thesis by (simp add: is_digit_def digit_val_def uchar_def)
  qed
qed

lemma is_digit_not_space: "is_digit c \<Longrightarrow> \<not> is_space c \<and> c \<noteq> CHR ''-'' \<and> c \<noteq> CHR ''+''"
  by (auto simp: is_digit_def is_space_def uchar_def)

lemma atoi_show_nat: "atoi (show_nat n) = int n"
proof -
  obtain d ds where d: "show_nat n = d # ds" by (cases "show_nat n") auto
  then have "is_digit d" using show_nat_digits [of n] by auto
  then show ?thesis
    using is_digit_not_space [of d] d digits_acc_show_nat [of n] by (simp add: atoi_def)
qed

lemma length_show_nat: "n < 10 ^ Suc k \<Longrightarrow> length (show_nat n) \<le> Suc k"
proof (induction k arbitrary: n)
  case 0
  then show ?case by (subst show_nat.simps) simp
next
  case (Suc k)
  show ?case
  proof (cases "n < 10")
    case True
    then show ?thesis by (subst show_nat.simps) simp
  next
    case False
    have "n div 10 < 10 ^ Suc k" using Suc.prems by simp
    from Suc.IH [OF this] False show ?thesis by (subst show_nat.simps) simp
  qed
qed

subsection \<open>Splitting\<close>

text \<open>
  GLib's \<open>g_strsplit (s, sep, 0)\<close> for a one-character separator: never empty for a
  non-empty string, and the empty vector for the empty string.
\<close>

fun split_at :: "char \<Rightarrow> string \<Rightarrow> string list" where
  "split_at c [] = [[]]"
| "split_at c (x # s) =
     (if x = c then [] # split_at c s
      else case split_at c s of [] \<Rightarrow> [[x]] | w # ws \<Rightarrow> (x # w) # ws)"

definition g_strsplit :: "string \<Rightarrow> char \<Rightarrow> string list" where
  "g_strsplit s c = (if s = [] then [] else split_at c s)"

lemma split_at_nonempty [simp]: "split_at c s \<noteq> []"
  by (induction s) (auto split: list.splits)

lemma split_at_free: "w \<in> set (split_at c s) \<Longrightarrow> c \<notin> set w"
  by (induction s arbitrary: w) (auto split: if_splits list.splits)

lemma split_at_no_sep: "c \<notin> set s \<Longrightarrow> split_at c s = [s]"
  by (induction s) auto

lemma split_at_append_sep:
  "split_at c (s @ c # t) = split_at c s @ split_at c t"
  by (induction s) (auto split: list.splits simp: neq_Nil_conv)

fun join_with :: "char \<Rightarrow> string list \<Rightarrow> string" where
  "join_with c [] = []"
| "join_with c [w] = w"
| "join_with c (w # v # ws) = w @ c # join_with c (v # ws)"

lemma split_at_join:
  "ws \<noteq> [] \<Longrightarrow> \<forall>w \<in> set ws. c \<notin> set w \<Longrightarrow> split_at c (join_with c ws) = ws"
proof (induction c ws rule: join_with.induct)
  case (2 c w)
  then show ?case by (simp add: split_at_no_sep)
next
  case (3 c w v ws)
  then show ?case by (simp add: split_at_append_sep split_at_no_sep)
qed simp

lemma join_with_Cons: "ws \<noteq> [] \<Longrightarrow> join_with c (w # ws) = w @ c # join_with c ws"
  by (cases ws) auto

lemma join_with_hd: "join_with c ((x # w) # ws) = x # join_with c (w # ws)"
  by (cases ws) auto

lemma join_split: "join_with c (split_at c s) = s"
  by (induction s) (auto simp: join_with_Cons join_with_hd split: list.splits)

subsection \<open>Lists\<close>

lemma sorted_wrt_insert_mid:
  "sorted_wrt P (xs @ ys) \<Longrightarrow> (\<forall>x \<in> set xs. P x a) \<Longrightarrow> (\<forall>y \<in> set ys. P a y) \<Longrightarrow>
   sorted_wrt P (xs @ a # ys)"
  by (auto simp: sorted_wrt_append)

lemma sorted_wrt_remove_mid:
  "sorted_wrt P (xs @ a # ys) \<Longrightarrow> sorted_wrt P (xs @ ys)"
  by (auto simp: sorted_wrt_append)

lemma take_nth_drop: "i < length xs \<Longrightarrow> xs = take i xs @ xs ! i # drop (Suc i) xs"
  by (simp add: id_take_nth_drop)

lemma length_filter_remove1:
  "x \<in> set xs \<Longrightarrow> length (filter P (remove1 x xs)) = length (filter P xs) - (if P x then 1 else 0)"
proof (induction xs)
  case (Cons y ys)
  show ?case
  proof (cases "x = y")
    case False
    with Cons.prems have "x \<in> set ys" by simp
    moreover from this have "P x \<Longrightarrow> length (filter P ys) > 0"
      by (metis filter_empty_conv length_greater_0_conv)
    ultimately show ?thesis using Cons.IH False by auto
  qed auto
qed simp

subsection \<open>Bit fields\<close>

text \<open>Bit \<open>b\<close> of an \<open>unsigned int\<close>; \<open>x | (1 << b)\<close> and \<open>x & ~(1 << b)\<close>.\<close>

type_synonym uint = "32 word"

unbundle bit_operations_syntax

lemma bit_or_mask: "b < 32 \<Longrightarrow> bit ((x :: uint) OR push_bit b 1) n \<longleftrightarrow> bit x n \<or> n = b"
  by (auto simp: bit_simps)

lemma bit_andnot_mask: "b < 32 \<Longrightarrow> bit ((x :: uint) AND NOT (push_bit b 1)) n \<longleftrightarrow> bit x n \<and> n \<noteq> b"
  by (auto simp: bit_simps dest: bit_imp_le_length)

lemma and_mask_nonzero: "b < 32 \<Longrightarrow> (x :: uint) AND push_bit b 1 \<noteq> 0 \<longleftrightarrow> bit x b"
  using and_exp_eq_0_iff_not_bit [of x b] by (simp add: push_bit_eq_mult)

end
