(* ===== verification/CaseFold.thy ===== *)
theory CaseFold
  imports HexPrelude
begin

text \<open>
  RFC 1459 case folding of \<open>src/common/util.c\<close>: the table \<open>rfc_tolowertab\<close>, the macro
  \<open>rfc_tolower\<close> of \<open>util.h\<close> and the comparisons built on it. \<open>rfc_casecmp\<close> is the default
  \<open>p_cmp\<close> of a server, the order the user lists are sorted by; \<open>g_ascii_strcasecmp\<close> replaces
  it when numeric 005 announces CASEMAPPING=ascii.
\<close>

subsection \<open>The table\<close>

definition rfc_tolowertab :: "nat list" where
  "rfc_tolowertab =
    [0, 1, 2, 3, 4, 5, 6, 7, 8, 9, 10, 11, 12, 13, 14, 15,
     16, 17, 18, 19, 20, 21, 22, 23, 24, 25, 26, 27, 28, 29, 30, 31,
     32, 33, 34, 35, 36, 37, 38, 39, 40, 41, 42, 43, 44, 45, 46, 47,
     48, 49, 50, 51, 52, 53, 54, 55, 56, 57, 58, 59, 60, 61, 62, 63,
     64, 97, 98, 99, 100, 101, 102, 103, 104, 105, 106, 107, 108, 109, 110, 111,
     112, 113, 114, 115, 116, 117, 118, 119, 120, 121, 122, 123, 124, 125, 126, 95,
     96, 97, 98, 99, 100, 101, 102, 103, 104, 105, 106, 107, 108, 109, 110, 111,
     112, 113, 114, 115, 116, 117, 118, 119, 120, 121, 122, 123, 124, 125, 126, 127,
     128, 129, 130, 131, 132, 133, 134, 135, 136, 137, 138, 139, 140, 141, 142, 143,
     144, 145, 146, 147, 148, 149, 150, 151, 152, 153, 154, 155, 156, 157, 158, 159,
     160, 161, 162, 163, 164, 165, 166, 167, 168, 169, 170, 171, 172, 173, 174, 175,
     176, 177, 178, 179, 180, 181, 182, 183, 184, 185, 186, 187, 188, 189, 190, 191,
     192, 193, 194, 195, 196, 197, 198, 199, 200, 201, 202, 203, 204, 205, 206, 207,
     208, 209, 210, 211, 212, 213, 214, 215, 216, 217, 218, 219, 220, 221, 222, 223,
     224, 225, 226, 227, 228, 229, 230, 231, 232, 233, 234, 235, 236, 237, 238, 239,
     240, 241, 242, 243, 244, 245, 246, 247, 248, 249, 250, 251, 252, 253, 254, 255]"

definition rfc_tolower :: "char \<Rightarrow> char" where
  "rfc_tolower c = char_of (rfc_tolowertab ! uchar c)"

text \<open>What the table says: the letters and the four national characters \<open>[ \ ] ^\<close> fold.\<close>

definition fold_nat :: "nat \<Rightarrow> nat" where
  "fold_nat n = (if 65 \<le> n \<and> n \<le> 94 then n + 32 else n)"

lemma rfc_tolowertab_eq: "rfc_tolowertab = map fold_nat [0..<256]"
  by (simp add: rfc_tolowertab_def upt_rec [of _ 256] fold_nat_def)

lemma rfc_tolowertab_nth: "n < 256 \<Longrightarrow> rfc_tolowertab ! n = fold_nat n"
  by (simp add: rfc_tolowertab_eq)

lemma uchar_rfc_tolower [cstr_simps]: "uchar (rfc_tolower c) = fold_nat (uchar c)"
proof -
  have "fold_nat (uchar c) < 256"
    using uchar_less [of c] by (auto simp: fold_nat_def)
  then show ?thesis
    by (simp add: rfc_tolower_def rfc_tolowertab_nth uchar_less) (simp add: uchar_def)
qed

lemma rfc_tolower_idem [simp]: "rfc_tolower (rfc_tolower c) = rfc_tolower c"
  by (rule uchar_eq_iff [THEN iffD1]) (simp add: uchar_rfc_tolower fold_nat_def)

lemma rfc_tolower_NUL_iff [simp]: "rfc_tolower c = NUL \<longleftrightarrow> c = NUL"
proof -
  have "uchar (rfc_tolower c) = 0 \<longleftrightarrow> uchar c = 0"
    unfolding uchar_rfc_tolower by (auto simp: fold_nat_def)
  then show ?thesis by simp
qed

lemma rfc_tolower_NUL [simp]: "rfc_tolower NUL = NUL"
  by simp

lemma ascii_rfc_tolower [simp]: "ascii (rfc_tolower c) \<longleftrightarrow> ascii c"
  by (auto simp: ascii_def uchar_rfc_tolower fold_nat_def)

subsection \<open>Comparisons\<close>

text \<open>
  \<open>rfc_casecmp\<close>: the loop compares folded characters as unsigned values; what is left when
  one string ends is compared as plain (signed) \<open>char\<close>.
\<close>

fun rfc_casecmp :: "string \<Rightarrow> string \<Rightarrow> int" where
  "rfc_casecmp (x # s1) (y # s2) =
     (let c1 = int (uchar (rfc_tolower x)); c2 = int (uchar (rfc_tolower y))
      in if c1 \<noteq> c2 then c1 - c2 else rfc_casecmp s1 s2)"
| "rfc_casecmp s1 s2 = schar (cur s1) - schar (cur s2)"

fun rfc_ncasecmp :: "string \<Rightarrow> string \<Rightarrow> int \<Rightarrow> int" where
  "rfc_ncasecmp s1 s2 n =
     (case (s1, s2) of
        (x # s1', y # s2') \<Rightarrow>
          if n > 0 then
            let c1 = int (uchar (rfc_tolower x)); c2 = int (uchar (rfc_tolower y))
            in if c1 \<noteq> c2 then c1 - c2 else rfc_ncasecmp s1' s2' (n - 1)
          else if n = 0 then 0
          else int (uchar (rfc_tolower x)) - int (uchar (rfc_tolower y))
      | _ \<Rightarrow> if n = 0 then 0
             else int (uchar (rfc_tolower (cur s1))) - int (uchar (rfc_tolower (cur s2))))"

declare rfc_ncasecmp.simps [simp del]

definition rfc_strlower :: "string \<Rightarrow> string" where
  "rfc_strlower s = map rfc_tolower s"

text \<open>GLib's \<open>g_ascii_tolower\<close> and \<open>g_ascii_strcasecmp\<close>: only A-Z fold, all bytes unsigned.\<close>

definition ascii_tolower :: "char \<Rightarrow> char" where
  "ascii_tolower c = (if 65 \<le> uchar c \<and> uchar c \<le> 90 then char_of (uchar c + 32) else c)"

fun g_ascii_strcasecmp :: "string \<Rightarrow> string \<Rightarrow> int" where
  "g_ascii_strcasecmp (x # s1) (y # s2) =
     (let c1 = int (uchar (ascii_tolower x)); c2 = int (uchar (ascii_tolower y))
      in if c1 \<noteq> c2 then c1 - c2 else g_ascii_strcasecmp s1 s2)"
| "g_ascii_strcasecmp s1 s2 = int (uchar (cur s1)) - int (uchar (cur s2))"

lemma rfc_casecmp_Nil [simp]: "rfc_casecmp [] s = - schar (cur s)" "rfc_casecmp s [] = schar (cur s)"
  by (cases s; simp add: schar_def)+

lemma schar_NUL [simp]: "schar NUL = 0"
  by (simp add: schar_def)

lemma schar_eq_0 [simp]: "schar c = 0 \<longleftrightarrow> c = NUL"
  using uchar_less [of c] by (auto simp: schar_def)

lemma ascii_schar_pos: "ascii c \<Longrightarrow> c \<noteq> NUL \<Longrightarrow> 0 < schar c"
  by (metis ascii_def bot_nat_0.not_eq_extremum int_ops(1) of_nat_less_iff schar_ascii uchar_0_iff)

lemma rfc_casecmp_eq_0:
  "no_nul s \<Longrightarrow> no_nul t \<Longrightarrow> rfc_casecmp s t = 0 \<longleftrightarrow> rfc_strlower s = rfc_strlower t"
proof (induction s arbitrary: t)
  case Nil
  then show ?case by (cases t) (auto simp: rfc_strlower_def)
next
  case (Cons x s)
  then show ?case
    by (cases t) (auto simp: rfc_strlower_def Let_def uchar_eq_iff split: if_splits)
qed

lemma rfc_casecmp_refl [simp]: "rfc_casecmp s s = 0"
  by (induction s) auto

lemma rfc_casecmp_swap: "rfc_casecmp t s = - rfc_casecmp s t"
  by (induction s t rule: rfc_casecmp.induct) (auto simp: Let_def)

text \<open>
  On ASCII strings the two halves of the comparison agree, and it is the lexicographic
  order of the folded strings.
\<close>

definition fold_key :: "string \<Rightarrow> nat list" where
  "fold_key s = map (\<lambda>c. uchar (rfc_tolower c)) s"

fun lex_less :: "nat list \<Rightarrow> nat list \<Rightarrow> bool" where
  "lex_less xs [] = False"
| "lex_less [] (y # ys) = True"
| "lex_less (x # xs) (y # ys) = (x < y \<or> (x = y \<and> lex_less xs ys))"

lemma lex_less_irrefl [simp]: "\<not> lex_less xs xs"
  by (induction xs) auto

lemma lex_less_trans: "lex_less xs ys \<Longrightarrow> lex_less ys zs \<Longrightarrow> lex_less xs zs"
proof (induction xs ys arbitrary: zs rule: lex_less.induct)
  case (2 y ys)
  then show ?case by (cases zs) auto
next
  case (3 x xs y ys)
  then show ?case by (cases zs) auto
qed simp

lemma lex_less_linear: "lex_less xs ys \<or> xs = ys \<or> lex_less ys xs"
  by (induction xs ys rule: lex_less.induct) (auto simp: neq_Nil_conv, metis lex_less.simps(2) neq_Nil_conv)

lemma rfc_casecmp_less:
  "ascii_str s \<Longrightarrow> ascii_str t \<Longrightarrow> no_nul s \<Longrightarrow> no_nul t \<Longrightarrow>
   rfc_casecmp s t < 0 \<longleftrightarrow> lex_less (fold_key s) (fold_key t)"
proof (induction s arbitrary: t)
  case Nil
  then show ?case by (cases t) (auto simp: fold_key_def ascii_schar_pos)
next
  case (Cons x s)
  then show ?case
    by (cases t) (auto simp: fold_key_def Let_def dest: ascii_schar_pos)
qed

lemma fold_key_eq_iff: "fold_key s = fold_key t \<longleftrightarrow> rfc_strlower s = rfc_strlower t"
proof (induction s arbitrary: t)
  case (Cons x s)
  then show ?case by (cases t) (auto simp: fold_key_def rfc_strlower_def uchar_eq_iff)
qed (auto simp: fold_key_def rfc_strlower_def)

end
