(* ===== verification/SortedTree.thy ===== *)
theory SortedTree
  imports HexPrelude
begin

text \<open>
  \<open>src/common/tree.c\<close>: the sorted pointer array behind the user lists and the unsorted one
  of the URL grabber. \<open>elems\<close> holds the \<open>elements\<close> used slots of \<open>array\<close>, \<open>array_size\<close>
  its capacity (0 as long as \<open>array\<close> is NULL). The comparison \<open>t->cmp (a, b, t->data)\<close> is
  an argument of the operations that call it, because it reads the objects the keys point
  to. A read or write outside the used slots (the allocated ones for a write) is \<open>None\<close>.

  The interface \<open>key_order\<close> is what the operations need of a comparison; inside it the
  array is proved to implement a sorted set.
\<close>

record 'k tree =
  elems :: "'k list"
  array_size :: nat

definition ARRAY_GROW :: nat where "ARRAY_GROW = 32"

definition tree_new :: "'k tree" where
  "tree_new = \<lparr>elems = [], array_size = 0\<rparr>"

definition tree_size :: "'k tree \<Rightarrow> nat" where
  "tree_size t = length (elems t)"

definition tree_grow :: "'k tree \<Rightarrow> 'k tree" where
  "tree_grow t =
     (if array_size t < length (elems t) + 1
      then t\<lparr>array_size := array_size t + ARRAY_GROW\<rparr> else t)"

text \<open>
  The \<open>while (1)\<close> of \<open>tree_find_insertion_pos\<close>: \<open>None\<close> when it reads outside the used
  slots or never returns.
\<close>

partial_function (option) insertion_loop ::
    "('k \<Rightarrow> 'k \<Rightarrow> int) \<Rightarrow> 'k list \<Rightarrow> 'k \<Rightarrow> nat \<Rightarrow> nat \<Rightarrow> int option" where
  "insertion_loop cmp xs key l u =
     (let idx = (l + u) div 2 in
      if idx \<ge> length xs then None
      else
        let c = cmp key (xs ! idx) in
        if 0 > c then insertion_loop cmp xs key l idx
        else if 0 < c then
          (if idx + 1 \<ge> length xs then None
           else if 0 > cmp key (xs ! (idx + 1)) then Some (int (idx + 1))
           else insertion_loop cmp xs key (idx + 1) u)
        else Some (-1))"

text \<open>\<open>tree_find_insertion_pos\<close>: the tree, the position and \<open>*done\<close>.\<close>

definition tree_find_insertion_pos ::
    "('k \<Rightarrow> 'k \<Rightarrow> int) \<Rightarrow> 'k tree \<Rightarrow> 'k \<Rightarrow> ('k tree \<times> int \<times> bool) option" where
  "tree_find_insertion_pos cmp t key =
     (let xs = elems t in
      if length xs < 1 then Some (t\<lparr>elems := [key]\<rparr>, 0, True)
      else if length xs < 2 then
        (let c = cmp key (xs ! 0) in
         if c = 0 then Some (t, -1, True)
         else if c > 0 then Some (t\<lparr>elems := [xs ! 0, key]\<rparr>, 1, True)
         else Some (t\<lparr>elems := [key, xs ! 0]\<rparr>, 0, True))
      else if cmp key (xs ! 0) < 0 then Some (t, 0, False)
      else if cmp key (xs ! (length xs - 1)) > 0 then Some (t, int (length xs), False)
      else case insertion_loop cmp xs key 0 (length xs - 1) of
             None \<Rightarrow> None
           | Some pos \<Rightarrow> Some (t, pos, False))"

text \<open>\<open>tree_insert_at_pos\<close>: the slots from \<open>pos\<close> move up by one; the array must have room.\<close>

definition tree_insert_at_pos :: "'k tree \<Rightarrow> 'k \<Rightarrow> nat \<Rightarrow> 'k tree option" where
  "tree_insert_at_pos t key pos =
     (if pos \<le> length (elems t) \<and> length (elems t) < array_size t
      then Some (t\<lparr>elems := take pos (elems t) @ key # drop pos (elems t)\<rparr>)
      else None)"

definition tree_insert :: "('k \<Rightarrow> 'k \<Rightarrow> int) \<Rightarrow> 'k tree \<Rightarrow> 'k \<Rightarrow> ('k tree \<times> int) option" where
  "tree_insert cmp t key =
     (case tree_find_insertion_pos cmp (tree_grow t) key of
        None \<Rightarrow> None
      | Some (t1, pos, done) \<Rightarrow>
          if \<not> done \<and> pos \<noteq> -1 then
            (case tree_insert_at_pos t1 key (nat pos) of
               None \<Rightarrow> None
             | Some t2 \<Rightarrow> Some (t2, pos))
          else Some (t1, pos))"

definition tree_append :: "'k tree \<Rightarrow> 'k \<Rightarrow> 'k tree option" where
  "tree_append t key =
     (let t1 = tree_grow t in tree_insert_at_pos t1 key (length (elems t1)))"

text \<open>\<open>mybsearch\<close> from \<open>l\<close> to \<open>u\<close>: the index of the match, if any.\<close>

function mybsearch :: "('q \<Rightarrow> 'k \<Rightarrow> int) \<Rightarrow> 'q \<Rightarrow> 'k list \<Rightarrow> nat \<Rightarrow> nat \<Rightarrow> nat option" where
  "mybsearch cmp key xs l u =
     (if l < u then
        let idx = (l + u) div 2; comparison = cmp key (xs ! idx) in
        if comparison < 0 then mybsearch cmp key xs l idx
        else if comparison > 0 then mybsearch cmp key xs (idx + 1) u
        else Some idx
      else None)"
  by pat_completeness auto
termination
  by (relation "measure (\<lambda>(cmp, key, xs, l, u). u - l)") auto

declare mybsearch.simps [simp del]

text \<open>\<open>tree_find\<close> on a tree that may be NULL: the position found.\<close>

definition tree_find :: "('q \<Rightarrow> 'k \<Rightarrow> int) \<Rightarrow> 'k tree option \<Rightarrow> 'q \<Rightarrow> nat option" where
  "tree_find cmp t key =
     (case t of
        None \<Rightarrow> None
      | Some t \<Rightarrow> if array_size t = 0 then None
                  else mybsearch cmp key (elems t) 0 (length (elems t)))"

definition tree_remove_at_pos :: "'k tree \<Rightarrow> nat \<Rightarrow> ('k tree \<times> 'k) option" where
  "tree_remove_at_pos t pos =
     (if pos < length (elems t)
      then Some (t\<lparr>elems := take pos (elems t) @ drop (Suc pos) (elems t)\<rparr>, elems t ! pos)
      else None)"

text \<open>\<open>tree_remove\<close>: the key is found by comparison, not by identity.\<close>

definition tree_remove :: "('k \<Rightarrow> 'k \<Rightarrow> int) \<Rightarrow> 'k tree \<Rightarrow> 'k \<Rightarrow> ('k tree \<times> bool) option" where
  "tree_remove cmp t key =
     (case tree_find cmp (Some t) key of
        None \<Rightarrow> Some (t, False)
      | Some pos \<Rightarrow> map_option (\<lambda>(t', _). (t', True)) (tree_remove_at_pos t pos))"

text \<open>\<open>tree_foreach\<close>: the callback threads its own state and returns 0 to stop.\<close>

fun foreach_elems :: "('k \<Rightarrow> 's \<Rightarrow> 's \<times> bool) \<Rightarrow> 'k list \<Rightarrow> 's \<Rightarrow> 's" where
  "foreach_elems f [] s = s"
| "foreach_elems f (x # xs) s =
     (let (s', go) = f x s in if go then foreach_elems f xs s' else s')"

definition tree_foreach :: "('k \<Rightarrow> 's \<Rightarrow> 's \<times> bool) \<Rightarrow> 'k tree option \<Rightarrow> 's \<Rightarrow> 's" where
  "tree_foreach f t s =
     (case t of None \<Rightarrow> s
      | Some t \<Rightarrow> if array_size t = 0 then s else foreach_elems f (elems t) s)"

subsection \<open>Memory safety and termination, for any comparison\<close>

text \<open>The used slots fit in the allocated ones.\<close>

definition tree_wf :: "'k tree \<Rightarrow> bool" where
  "tree_wf t \<longleftrightarrow> length (elems t) \<le> array_size t"

lemma tree_new_wf [inv_intros]: "tree_wf tree_new"
  by (simp add: tree_wf_def tree_new_def)

lemma tree_grow_elems [simp]: "elems (tree_grow t) = elems t"
  by (simp add: tree_grow_def)

lemma tree_grow_room: "tree_wf t \<Longrightarrow> length (elems t) < array_size (tree_grow t)"
  by (simp add: tree_wf_def tree_grow_def ARRAY_GROW_def)

lemma tree_append_elems:
  "tree_wf t \<Longrightarrow> \<exists>t'. tree_append t key = Some t' \<and> elems t' = elems t @ [key] \<and> tree_wf t'"
  using tree_grow_room [of t] by (auto simp: tree_append_def tree_insert_at_pos_def tree_wf_def)

lemma tree_remove_at_pos_elems:
  "tree_wf t \<Longrightarrow> pos < length (elems t) \<Longrightarrow>
   \<exists>t'. tree_remove_at_pos t pos = Some (t', elems t ! pos) \<and>
        elems t' = take pos (elems t) @ drop (Suc pos) (elems t) \<and> tree_wf t'"
  by (auto simp: tree_remove_at_pos_def tree_wf_def)

lemma mybsearch_found:
  "mybsearch cmp key xs l u = Some i \<Longrightarrow> l \<le> i \<and> i < u \<and> cmp key (xs ! i) = 0"
proof (induction cmp key xs l u rule: mybsearch.induct)
  case (1 cmp key xs l u)
  show ?case
    using "1.prems" "1.IH" by (subst (asm) mybsearch.simps) (force simp: Let_def split: if_splits)
qed

text \<open>
  The search for the insertion point keeps \<open>key \<ge> xs ! l\<close> and \<open>key \<le> xs ! u\<close> (in the
  sense of the answers already received), which is all it needs to stay inside the array
  and to return, even for a comparison that is no order.
\<close>

lemma insertion_loop_result:
  "l \<le> u \<Longrightarrow> u < length xs \<Longrightarrow> cmp key (xs ! l) \<ge> 0 \<Longrightarrow> cmp key (xs ! u) \<le> 0 \<Longrightarrow>
   (insertion_loop cmp xs key l u = Some (-1) \<and> (\<exists>i < length xs. cmp key (xs ! i) = 0)) \<or>
   (\<exists>q. insertion_loop cmp xs key l u = Some (int q) \<and> 0 < q \<and> q < length xs \<and>
        cmp key (xs ! (q - 1)) > 0 \<and> cmp key (xs ! q) < 0)"
proof (induction "u - l" arbitrary: l u rule: less_induct)
  case less
  let ?idx = "(l + u) div 2"
  have idx: "l \<le> ?idx" "?idx \<le> u" using less.prems(1) by auto
  consider (below) "cmp key (xs ! ?idx) < 0"
    | (above) "cmp key (xs ! ?idx) > 0"
    | (here) "cmp key (xs ! ?idx) = 0" by linarith
  then show ?case
  proof cases
    case below
    then have "?idx \<noteq> l" using less.prems(3) by auto
    with idx less.prems(1) have lt: "l < ?idx" "?idx < u" by auto
    have step: "insertion_loop cmp xs key l u = insertion_loop cmp xs key l ?idx"
      by (subst insertion_loop.simps) (use below lt less.prems(2) in \<open>simp add: Let_def\<close>)
    show ?thesis unfolding step
      by (rule less.hyps) (use below lt less.prems in auto)
  next
    case above
    then have "?idx \<noteq> u" using less.prems(4) by auto
    with idx have lt: "?idx < u" by simp
    show ?thesis
    proof (cases "cmp key (xs ! (?idx + 1)) < 0")
      case True
      then have "insertion_loop cmp xs key l u = Some (int (?idx + 1))"
        by (subst insertion_loop.simps) (use above lt less.prems(2) in \<open>simp add: Let_def\<close>)
      with True above lt less.prems(2) show ?thesis
        by (intro disjI2 exI [of _ "?idx + 1"]) auto
    next
      case False
      have step: "insertion_loop cmp xs key l u = insertion_loop cmp xs key (?idx + 1) u"
        by (subst insertion_loop.simps) (use False above lt less.prems(2) in \<open>simp add: Let_def\<close>)
      show ?thesis unfolding step
        by (rule less.hyps) (use False lt idx less.prems in auto)
    qed
  next
    case here
    have "insertion_loop cmp xs key l u = Some (-1)"
      by (subst insertion_loop.simps) (use here idx less.prems(2) in \<open>simp add: Let_def\<close>)
    moreover have "?idx < length xs" using idx less.prems(2) by simp
    ultimately show ?thesis using here by blast
  qed
qed

text \<open>What \<open>tree_insert\<close> does to the array: nothing for a duplicate, else one new slot.\<close>

definition insertion_point :: "('k \<Rightarrow> 'k \<Rightarrow> int) \<Rightarrow> 'k list \<Rightarrow> 'k \<Rightarrow> nat \<Rightarrow> bool" where
  "insertion_point cmp xs key q \<longleftrightarrow> q \<le> length xs \<and>
     (0 < q \<longrightarrow> cmp key (xs ! (q - 1)) > 0) \<and> (q < length xs \<longrightarrow> cmp key (xs ! q) < 0)"

lemma tree_insert_cases:
  assumes "tree_wf t"
  shows "\<exists>t'. tree_wf t' \<and>
    ((tree_insert cmp t key = Some (t', -1) \<and> elems t' = elems t \<and>
        (\<exists>x \<in> set (elems t). cmp key x = 0)) \<or>
     (\<exists>q. tree_insert cmp t key = Some (t', int q) \<and> insertion_point cmp (elems t) key q \<and>
        elems t' = take q (elems t) @ key # drop q (elems t)))"
proof -
  let ?xs = "elems t" and ?g = "tree_grow t"
  have room: "length ?xs < array_size ?g" using assms by (rule tree_grow_room)
  have at: "tree_insert_at_pos ?g key q =
      Some (?g\<lparr>elems := take q ?xs @ key # drop q ?xs\<rparr>)" if "q \<le> length ?xs" for q
    using that room by (simp add: tree_insert_at_pos_def)
  consider "length ?xs = 0" | a where "?xs = [a]" | "2 \<le> length ?xs"
    by (cases ?xs; cases "tl ?xs") auto
  then show ?thesis
  proof cases
    case 1
    then show ?thesis using room
      by (auto simp: tree_insert_def tree_find_insertion_pos_def tree_wf_def insertion_point_def)
  next
    case (2 a)
    then show ?thesis using room
      by (auto simp: tree_insert_def tree_find_insertion_pos_def tree_wf_def insertion_point_def
          Let_def intro: exI [of _ 0] exI [of _ 1])
  next
    case 3
    let ?n = "length ?xs"
    have n: "\<not> ?n < 1" "\<not> ?n < 2" using 3 by auto
    have wf: "tree_wf (?g\<lparr>elems := take q ?xs @ key # drop q ?xs\<rparr>)" if "q \<le> ?n" for q
      using that room by (simp add: tree_wf_def)
    have "(tree_insert cmp t key = Some (?g, -1) \<and> (\<exists>i < ?n. cmp key (?xs ! i) = 0)) \<or>
      (\<exists>q. tree_insert cmp t key = Some (?g\<lparr>elems := take q ?xs @ key # drop q ?xs\<rparr>, int q) \<and>
           insertion_point cmp ?xs key q)"
    proof (cases "cmp key (?xs ! 0) < 0")
      case True
      with n at [of 0] show ?thesis
        by (intro disjI2 exI [of _ 0])
          (simp add: tree_insert_def tree_find_insertion_pos_def insertion_point_def)
    next
      case first: False
      show ?thesis
      proof (cases "cmp key (?xs ! (?n - 1)) > 0")
        case True
        with n first at [of ?n] show ?thesis
          by (intro disjI2 exI [of _ ?n])
            (simp add: tree_insert_def tree_find_insertion_pos_def insertion_point_def)
      next
        case False
        with insertion_loop_result [of 0 "?n - 1" ?xs cmp key] first 3
        consider "insertion_loop cmp ?xs key 0 (?n - 1) = Some (-1)"
            "\<exists>i < ?n. cmp key (?xs ! i) = 0"
          | q where "insertion_loop cmp ?xs key 0 (?n - 1) = Some (int q)" "0 < q" "q < ?n"
            "cmp key (?xs ! (q - 1)) > 0" "cmp key (?xs ! q) < 0"
          by force
        then show ?thesis
        proof cases
          case 1
          with n first False show ?thesis
            by (simp add: tree_insert_def tree_find_insertion_pos_def)
        next
          case (2 q)
          with n first False at [of q] show ?thesis
            by (intro disjI2 exI [of _ q])
              (simp add: tree_insert_def tree_find_insertion_pos_def insertion_point_def)
        qed
      qed
    qed
    then show ?thesis
    proof (elim disjE exE conjE)
      fix i assume "tree_insert cmp t key = Some (?g, -1)" "i < ?n" "cmp key (?xs ! i) = 0"
      moreover have "tree_wf ?g" using room by (simp add: tree_wf_def)
      ultimately show ?thesis by (intro exI [of _ ?g]) auto
    next
      fix q
      assume ins: "tree_insert cmp t key = Some (?g\<lparr>elems := take q ?xs @ key # drop q ?xs\<rparr>, int q)"
        and pt: "insertion_point cmp ?xs key q"
      from pt have "q \<le> ?n" by (simp add: insertion_point_def)
      with ins pt wf show ?thesis by fastforce
    qed
  qed
qed

subsection \<open>The interface to the keys, and the array as a sorted set\<close>

text \<open>
  What the array needs of a comparison on the keys \<open>ok\<close> allows: a total preorder. The
  keys may be reached through a projection \<open>f\<close> (the nick of the user a pointer points to).
\<close>

locale key_order =
  fixes cmp :: "'a \<Rightarrow> 'a \<Rightarrow> int"
    and ok :: "'a \<Rightarrow> bool"
  assumes cmp_flip: "ok x \<Longrightarrow> ok y \<Longrightarrow> cmp y x < 0 \<longleftrightarrow> cmp x y > 0"
    and cmp_le_trans: "ok x \<Longrightarrow> ok y \<Longrightarrow> ok z \<Longrightarrow> cmp x y \<le> 0 \<Longrightarrow> cmp y z \<le> 0 \<Longrightarrow> cmp x z \<le> 0"

definition keys_asc :: "('a \<Rightarrow> 'a \<Rightarrow> int) \<Rightarrow> ('a \<Rightarrow> bool) \<Rightarrow> ('k \<Rightarrow> 'a) \<Rightarrow> 'k list \<Rightarrow> bool" where
  "keys_asc cmp ok f xs \<longleftrightarrow>
     sorted_wrt (\<lambda>a b. cmp (f a) (f b) < 0) xs \<and> (\<forall>x \<in> set xs. ok (f x))"

lemma keys_asc_Nil [simp]: "keys_asc cmp ok f []"
  by (simp add: keys_asc_def)

lemma keys_asc_append:
  "keys_asc cmp ok f (xs @ ys) \<longleftrightarrow>
     keys_asc cmp ok f xs \<and> keys_asc cmp ok f ys \<and>
     (\<forall>x \<in> set xs. \<forall>y \<in> set ys. cmp (f x) (f y) < 0)"
  by (auto simp: keys_asc_def sorted_wrt_append)

lemma keys_asc_Cons:
  "keys_asc cmp ok f (x # xs) \<longleftrightarrow>
     ok (f x) \<and> keys_asc cmp ok f xs \<and> (\<forall>y \<in> set xs. cmp (f x) (f y) < 0)"
  by (auto simp: keys_asc_def)

lemma keys_asc_remove: "keys_asc cmp ok f (xs @ a # ys) \<Longrightarrow> keys_asc cmp ok f (xs @ ys)"
  by (simp add: keys_asc_append keys_asc_Cons)

lemma keys_asc_cong:
  "(\<And>x. x \<in> set xs \<Longrightarrow> f x = g x) \<Longrightarrow> keys_asc cmp ok f xs = keys_asc cmp ok g xs"
  by (induction xs) (auto simp: keys_asc_Cons)

context key_order begin

lemma cmp_refl: "ok x \<Longrightarrow> cmp x x = 0"
  using cmp_flip [of x x] by linarith

lemma cmp_zero_flip: "ok x \<Longrightarrow> ok y \<Longrightarrow> cmp y x = 0 \<longleftrightarrow> cmp x y = 0"
  using cmp_flip [of x y] cmp_flip [of y x] by linarith

lemma cmp_less_le_trans:
  assumes "ok x" "ok y" "ok z" "cmp x y < 0" "cmp y z \<le> 0"
  shows "cmp x z < 0"
proof (rule ccontr)
  assume "\<not> cmp x z < 0"
  then have "cmp z x \<le> 0" using cmp_flip [of x z] cmp_zero_flip [of x z] assms by linarith
  with assms have "cmp y x \<le> 0" using cmp_le_trans [of y z x] by simp
  with assms show False using cmp_flip [of x y] cmp_flip [of y x] by linarith
qed

lemma cmp_le_less_trans:
  assumes "ok x" "ok y" "ok z" "cmp x y \<le> 0" "cmp y z < 0"
  shows "cmp x z < 0"
proof (rule ccontr)
  assume "\<not> cmp x z < 0"
  then have "cmp z x \<le> 0" using cmp_flip [of x z] cmp_zero_flip [of x z] assms by linarith
  with assms have "cmp z y \<le> 0" using cmp_le_trans [of z x y] by simp
  with assms show False using cmp_flip [of y z] cmp_flip [of z y] by linarith
qed

lemma asc_nth_less:
  "keys_asc cmp ok f xs \<Longrightarrow> i < j \<Longrightarrow> j < length xs \<Longrightarrow> cmp (f (xs ! i)) (f (xs ! j)) < 0"
  by (simp add: keys_asc_def sorted_wrt_iff_nth_less)

lemma asc_distinct: "keys_asc cmp ok f xs \<Longrightarrow> distinct xs"
  by (induction xs) (fastforce simp: keys_asc_Cons dest: cmp_refl)+

text \<open>An element is determined by its key.\<close>

lemma asc_unique:
  assumes "keys_asc cmp ok f xs" "x \<in> set xs" "y \<in> set xs" "cmp (f x) (f y) = 0"
  shows "x = y"
proof -
  obtain i j where ij: "i < length xs" "xs ! i = x" "j < length xs" "xs ! j = y"
    using assms(2,3) by (auto simp: in_set_conv_nth)
  have "\<not> i < j" using asc_nth_less [OF assms(1), of i j] ij assms(4) by auto
  moreover have "\<not> j < i"
    using asc_nth_less [OF assms(1), of j i] ij assms cmp_zero_flip [of "f x" "f y"]
    by (auto simp: keys_asc_def)
  ultimately have "i = j" by simp
  with ij show ?thesis by simp
qed

lemma insertion_point_asc:
  assumes asc: "keys_asc cmp ok f xs" and k: "ok (f key)"
    and pt: "insertion_point (\<lambda>a b. cmp (f a) (f b)) xs key q"
  shows "keys_asc cmp ok f (take q xs @ key # drop q xs)"
proof -
  have okx: "\<And>i. i < length xs \<Longrightarrow> ok (f (xs ! i))" using asc by (simp add: keys_asc_def)
  have before: "cmp (f x) (f key) < 0" if "x \<in> set (take q xs)" for x
  proof -
    from that obtain i where i: "i < q" "i < length xs" "x = xs ! i"
      by (auto simp: in_set_conv_nth)
    have q: "0 < q" "q - 1 < length xs" using i pt by (auto simp: insertion_point_def)
    have last: "cmp (f (xs ! (q - 1))) (f key) < 0"
      using pt q k okx cmp_flip [of "f key" "f (xs ! (q - 1))"] by (simp add: insertion_point_def)
    show ?thesis
    proof (cases "i = q - 1")
      case False
      with i have "cmp (f x) (f (xs ! (q - 1))) < 0" using asc_nth_less [OF asc, of i "q - 1"] q by simp
      with last i q okx k show ?thesis
        using cmp_less_le_trans [of "f x" "f (xs ! (q - 1))" "f key"] by simp
    qed (use last i in simp)
  qed
  have after: "cmp (f key) (f y) < 0" if "y \<in> set (drop q xs)" for y
  proof -
    from that obtain j where "j < length (drop q xs)" "y = drop q xs ! j"
      unfolding in_set_conv_nth by auto
    then have j: "q + j < length xs" "y = xs ! (q + j)"
      using pt by (auto simp: insertion_point_def)
    have first: "cmp (f key) (f (xs ! q)) < 0" using pt j by (simp add: insertion_point_def)
    show ?thesis
    proof (cases "j = 0")
      case False
      with j have "cmp (f (xs ! q)) (f y) < 0" using asc_nth_less [OF asc, of q "q + j"] by simp
      with first j okx k show ?thesis
        using cmp_less_le_trans [of "f key" "f (xs ! q)" "f y"] by simp
    qed (use first j in simp)
  qed
  have "keys_asc cmp ok f (take q xs) \<and> keys_asc cmp ok f (drop q xs) \<and>
      (\<forall>x \<in> set (take q xs). \<forall>y \<in> set (drop q xs). cmp (f x) (f y) < 0)"
    using keys_asc_append [of cmp ok f "take q xs" "drop q xs"] asc by simp
  then show ?thesis using before after k
    unfolding keys_asc_append keys_asc_Cons by auto
qed

lemma insertion_point_fresh:
  assumes "keys_asc cmp ok f xs" "ok (f key)"
    and "insertion_point (\<lambda>a b. cmp (f a) (f b)) xs key q" "x \<in> set xs"
  shows "cmp (f key) (f x) \<noteq> 0"
proof -
  have asc: "keys_asc cmp ok f (take q xs @ key # drop q xs)"
    using assms(1-3) by (rule insertion_point_asc)
  have okx: "ok (f x)" using assms(1,4) by (simp add: keys_asc_def)
  have "x \<in> set (take q xs) \<or> x \<in> set (drop q xs)"
    using assms(4) by (metis Un_iff append_take_drop_id set_append)
  then show ?thesis
    using asc okx assms(2) cmp_zero_flip [of "f x" "f key"]
    by (auto simp: keys_asc_append keys_asc_Cons)
qed

text \<open>\<open>tree_insert\<close> on a sorted array: refused for a key already there, else sorted again.\<close>

lemma tree_insert_sorted:
  assumes wf: "tree_wf t" and asc: "keys_asc cmp ok f (elems t)" and k: "ok (f key)"
  shows "\<exists>t' p. tree_insert (\<lambda>a b. cmp (f a) (f b)) t key = Some (t', p) \<and> tree_wf t' \<and>
    keys_asc cmp ok f (elems t') \<and>
    (if \<exists>x \<in> set (elems t). cmp (f key) (f x) = 0 then p = -1 \<and> elems t' = elems t
     else (\<exists>q \<le> length (elems t). p = int q \<and>
             elems t' = take q (elems t) @ key # drop q (elems t)))"
  using tree_insert_cases [OF wf, of "\<lambda>a b. cmp (f a) (f b)" key]
proof (elim exE conjE disjE)
  fix t' assume "tree_wf t'" "elems t' = elems t" "\<exists>x \<in> set (elems t). cmp (f key) (f x) = 0"
    "tree_insert (\<lambda>a b. cmp (f a) (f b)) t key = Some (t', - 1)"
  with asc show ?thesis by auto
next
  fix t' q assume "tree_wf t'"
    and ins: "tree_insert (\<lambda>a b. cmp (f a) (f b)) t key = Some (t', int q)"
      "elems t' = take q (elems t) @ key # drop q (elems t)"
    and pt: "insertion_point (\<lambda>a b. cmp (f a) (f b)) (elems t) key q"
  moreover have "keys_asc cmp ok f (elems t')"
    unfolding ins(2) by (rule insertion_point_asc [OF asc k pt])
  moreover have "\<not> (\<exists>x \<in> set (elems t). cmp (f key) (f x) = 0)"
    using insertion_point_fresh [OF asc k pt] by blast
  moreover have "q \<le> length (elems t)" using pt by (simp add: insertion_point_def)
  ultimately show ?thesis by auto
qed

lemma mybsearch_complete:
  "keys_asc cmp ok f xs \<Longrightarrow> ok key \<Longrightarrow> u \<le> length xs \<Longrightarrow> l \<le> i \<Longrightarrow> i < u \<Longrightarrow>
   cmp key (f (xs ! i)) = 0 \<Longrightarrow> mybsearch (\<lambda>k a. cmp k (f a)) key xs l u = Some i"
proof (induction "\<lambda>k a. cmp k (f a)" key xs l u rule: mybsearch.induct)
  case (1 key xs l u)
  let ?idx = "(l + u) div 2"
  have okx: "\<And>j. j < length xs \<Longrightarrow> ok (f (xs ! j))" using "1.prems"(1) by (simp add: keys_asc_def)
  have rel: "cmp key (f (xs ! j)) < 0 \<longleftrightarrow> i < j" "cmp key (f (xs ! j)) > 0 \<longleftrightarrow> j < i"
    if "j < length xs" for j
  proof -
    have i: "i < length xs" using "1.prems" by simp
    have eq: "cmp (f (xs ! i)) key = 0"
      using cmp_zero_flip [of key "f (xs ! i)"] "1.prems" okx i by simp
    consider "i < j" | "j < i" | "i = j" by linarith
    then have "(cmp key (f (xs ! j)) < 0 \<and> i < j) \<or> (cmp key (f (xs ! j)) > 0 \<and> j < i) \<or>
        (cmp key (f (xs ! j)) = 0 \<and> i = j)"
    proof cases
      case 1
      then have "cmp (f (xs ! i)) (f (xs ! j)) < 0" using asc_nth_less [OF "1.prems"(1)] that by simp
      then have "cmp key (f (xs ! j)) < 0"
        using cmp_le_less_trans [of key "f (xs ! i)" "f (xs ! j)"] "1.prems"(2,6) okx that i by simp
      with 1 show ?thesis by simp
    next
      case 2
      then have "cmp (f (xs ! j)) (f (xs ! i)) < 0" using asc_nth_less [OF "1.prems"(1)] i by simp
      then have "cmp (f (xs ! j)) key < 0"
        using cmp_less_le_trans [of "f (xs ! j)" "f (xs ! i)" key] eq "1.prems"(2) okx that i by simp
      then have "cmp key (f (xs ! j)) > 0"
        using cmp_flip [of key "f (xs ! j)"] "1.prems"(2) okx that by simp
      with 2 show ?thesis by simp
    next
      case 3
      with "1.prems"(6) show ?thesis by simp
    qed
    then show "cmp key (f (xs ! j)) < 0 \<longleftrightarrow> i < j" "cmp key (f (xs ! j)) > 0 \<longleftrightarrow> j < i"
      by auto
  qed
  have lu: "l < u" "?idx < length xs" using "1.prems" by auto
  consider "cmp key (f (xs ! ?idx)) < 0" | "cmp key (f (xs ! ?idx)) > 0" | "cmp key (f (xs ! ?idx)) = 0"
    by linarith
  then show ?case
  proof cases
    case 1
    with rel lu have "i < ?idx" by blast
    with 1 lu "1.hyps"(1) [OF lu(1) refl refl] "1.prems" show ?thesis
      by (subst mybsearch.simps) (simp add: Let_def)
  next
    case 2
    with rel lu have "?idx < i" by blast
    with 2 lu "1.hyps"(2) [OF lu(1) refl refl] "1.prems" show ?thesis
      by (subst mybsearch.simps) (simp add: Let_def)
  next
    case 3
    with rel lu have "?idx = i" by (metis less_irrefl linorder_neqE_nat)
    with 3 lu show ?thesis by (subst mybsearch.simps) (simp add: Let_def)
  qed
qed

lemma tree_find_iff:
  assumes "tree_wf t" "keys_asc cmp ok f (elems t)" "ok key"
  shows "tree_find (\<lambda>k a. cmp k (f a)) (Some t) key = Some i \<longleftrightarrow>
    i < length (elems t) \<and> cmp key (f (elems t ! i)) = 0"
proof
  assume "tree_find (\<lambda>k a. cmp k (f a)) (Some t) key = Some i"
  then show "i < length (elems t) \<and> cmp key (f (elems t ! i)) = 0"
    by (auto simp: tree_find_def split: if_splits dest: mybsearch_found)
next
  assume "i < length (elems t) \<and> cmp key (f (elems t ! i)) = 0"
  moreover from this have "array_size t \<noteq> 0" using assms(1) by (auto simp: tree_wf_def)
  ultimately show "tree_find (\<lambda>k a. cmp k (f a)) (Some t) key = Some i"
    using mybsearch_complete [OF assms(2,3), of "length (elems t)" 0 i] by (simp add: tree_find_def)
qed

lemma tree_find_None:
  assumes "tree_wf t" "keys_asc cmp ok f (elems t)" "ok key"
  shows "tree_find (\<lambda>k a. cmp k (f a)) (Some t) key = None \<longleftrightarrow>
    (\<forall>x \<in> set (elems t). cmp key (f x) \<noteq> 0)"
  using tree_find_iff [OF assms] by (metis in_set_conv_nth not_None_eq)

lemma tree_remove_sorted:
  assumes wf: "tree_wf t" and asc: "keys_asc cmp ok f (elems t)" and x: "x \<in> set (elems t)"
  shows "\<exists>t'. tree_remove (\<lambda>a b. cmp (f a) (f b)) t x = Some (t', True) \<and> tree_wf t' \<and>
    elems t' = remove1 x (elems t) \<and> keys_asc cmp ok f (elems t')"
proof -
  obtain i where i: "i < length (elems t)" "elems t ! i = x"
    using x by (auto simp: in_set_conv_nth)
  have okx: "ok (f x)" using asc x by (simp add: keys_asc_def)
  have "tree_find (\<lambda>k a. cmp k (f a)) (Some t) (f x) = Some i"
    using tree_find_iff [OF wf asc okx] i okx by (simp add: cmp_refl)
  moreover have "tree_find (\<lambda>a b. cmp (f a) (f b)) (Some t) x =
      tree_find (\<lambda>k a. cmp k (f a)) (Some t) (f x)"
  proof -
    have "mybsearch (\<lambda>a b. cmp (f a) (f b)) x ys l u = mybsearch (\<lambda>k a. cmp k (f a)) (f x) ys l u"
      for ys l u
      by (induction "\<lambda>a b. cmp (f a) (f b)" x ys l u rule: mybsearch.induct)
        (subst (1 2) mybsearch.simps, simp add: Let_def)
    then show ?thesis by (simp add: tree_find_def)
  qed
  ultimately obtain t' where t': "tree_remove (\<lambda>a b. cmp (f a) (f b)) t x = Some (t', True)"
      "elems t' = take i (elems t) @ drop (Suc i) (elems t)" "tree_wf t'"
    using tree_remove_at_pos_elems [OF wf i(1)] by (auto simp: tree_remove_def)
  have split: "elems t = take i (elems t) @ x # drop (Suc i) (elems t)"
    using id_take_nth_drop [OF i(1)] i(2) by simp
  have "x \<notin> set (take i (elems t))"
    using asc_distinct [OF asc] by (subst (asm) split) auto
  then have "remove1 x (elems t) = elems t'"
    by (subst split) (simp add: remove1_append t'(2))
  moreover have "keys_asc cmp ok f (elems t')"
    using asc unfolding t'(2) by (subst (asm) split) (rule keys_asc_remove)
  ultimately show ?thesis using t' by auto
qed

end

end
