(* ===== verification/NickOrder.thy ===== *)
theory NickOrder
  imports CaseFold SortedTree
begin

text \<open>
  The two string orders a server can install as \<open>p_cmp\<close>, as interpretations of the
  interface \<open>key_order\<close> of the sorted array. \<open>g_ascii_strcasecmp\<close> is an order on all
  strings; \<open>rfc_casecmp\<close> is one on ASCII strings only: the tail comparison treats \<open>char\<close>
  as signed and the loop as unsigned, so names with bytes from 0x80 up form cycles.
\<close>

definition ascii_name :: "string \<Rightarrow> bool" where
  "ascii_name s \<longleftrightarrow> ascii_str s \<and> no_nul s"

lemma key_order_lexI:
  assumes "\<And>x y. ok x \<Longrightarrow> ok y \<Longrightarrow> cmp x y < 0 \<longleftrightarrow> lex_less (k x) (k y)"
    and "\<And>x y. cmp y x = - cmp x y"
  shows "key_order cmp ok"
proof
  fix x y assume "ok x" "ok y"
  then show "cmp y x < 0 \<longleftrightarrow> cmp x y > 0" using assms(2) [of x y] by simp
next
  fix x y z assume ok: "ok x" "ok y" "ok z" and le: "cmp x y \<le> 0" "cmp y z \<le> 0"
  have "\<not> lex_less (k y) (k x)" "\<not> lex_less (k z) (k y)"
    using ok le assms(1) [of y x] assms(1) [of z y] assms(2) [of x y] assms(2) [of y z] by auto
  then have "\<not> lex_less (k z) (k x)"
    by (metis lex_less_linear lex_less_trans)
  then show "cmp x z \<le> 0"
    using ok assms(1) [of z x] assms(2) [of x z] by simp
qed

interpretation rfc: key_order rfc_casecmp ascii_name
  by (rule key_order_lexI [where k = fold_key])
    (auto simp: ascii_name_def rfc_casecmp_less intro: rfc_casecmp_swap)

definition ascii_key :: "string \<Rightarrow> nat list" where
  "ascii_key s = map (\<lambda>c. uchar (ascii_tolower c)) s"

lemma g_ascii_strcasecmp_swap: "g_ascii_strcasecmp t s = - g_ascii_strcasecmp s t"
  by (induction s t rule: g_ascii_strcasecmp.induct) (auto simp: Let_def)

lemma g_ascii_strcasecmp_less:
  "no_nul s \<Longrightarrow> no_nul t \<Longrightarrow> g_ascii_strcasecmp s t < 0 \<longleftrightarrow> lex_less (ascii_key s) (ascii_key t)"
proof (induction s arbitrary: t)
  case Nil
  then show ?case by (cases t) (auto simp: ascii_key_def zero_less_iff_neq_zero)
next
  case (Cons x s)
  then show ?case by (cases t) (auto simp: ascii_key_def Let_def)
qed

interpretation gascii: key_order g_ascii_strcasecmp no_nul
  by (rule key_order_lexI [where k = ascii_key])
    (auto simp: g_ascii_strcasecmp_less intro: g_ascii_strcasecmp_swap)

end
