(* ===== verification/StringUtil.thy ===== *)
theory StringUtil
  imports CaseFold
begin

text \<open>
  The string routines of \<open>src/common/util.c\<close> that the rest of the client is built on.
  Each loop over a C string is a recursion over the suffix still to be read. A routine that
  can read behind the terminator has an option result, \<open>None\<close> for that read.
\<close>

subsection \<open>Paths\<close>

text \<open>\<open>file_part\<close> (Unix): the suffix behind the last \<open>/\<close>.\<close>

fun file_part_loop :: "string \<Rightarrow> string \<Rightarrow> string" where
  "file_part_loop filepart [] = filepart"
| "file_part_loop filepart (c # file) =
     (if c = CHR ''/'' then file_part_loop file file else file_part_loop filepart file)"

definition file_part :: "string option \<Rightarrow> string" where
  "file_part file = (case file of None \<Rightarrow> [] | Some f \<Rightarrow> file_part_loop f f)"

lemma file_part_loop_eq:
  "file_part_loop p s =
     (if CHR ''/'' \<in> set s then rev (takeWhile (\<lambda>c. c \<noteq> CHR ''/'') (rev s)) else p)"
  by (induction p s rule: file_part_loop.induct) (auto simp: takeWhile_append takeWhile_eq_all_conv)

lemma file_part_eq: "file_part (Some f) = rev (takeWhile (\<lambda>c. c \<noteq> CHR ''/'') (rev f))"
proof (cases "CHR ''/'' \<in> set f")
  case False
  then have "takeWhile (\<lambda>c. c \<noteq> CHR ''/'') (rev f) = rev f"
    by (auto simp: takeWhile_eq_all_conv)
  then have "rev (takeWhile (\<lambda>c. c \<noteq> CHR ''/'') (rev f)) = f" by (metis rev_rev_ident)
  with False show ?thesis by (metis file_part_def file_part_loop_eq option.case(2))
qed (simp add: file_part_def file_part_loop_eq)

subsection \<open>Copying into a fixed buffer\<close>

text \<open>
  GLib's \<open>g_utf8_skip\<close>: the length of a UTF-8 sequence by its first byte (1 for a byte that
  starts none).
\<close>

definition g_utf8_skip :: "char \<Rightarrow> nat" where
  "g_utf8_skip c =
     (let n = uchar c in
      if n < 192 then 1 else if n < 224 then 2 else if n < 240 then 3
      else if n < 248 then 4 else if n < 252 then 5 else if n < 254 then 6 else 1)"

text \<open>
  \<open>safe_strcpy (dest, src, bytes_left)\<close>: the string left in \<open>dest\<close>. \<open>None\<close> when a
  truncated sequence at the end of \<open>src\<close> makes \<open>memcpy\<close> read behind its terminator.
\<close>

function safe_strcpy :: "string \<Rightarrow> nat \<Rightarrow> string option" where
  "safe_strcpy src bytes_left =
     (let mbl = g_utf8_skip (cur src) in
      if bytes_left < mbl + 1 then Some []
      else if mbl = 1 then
        (case src of [] \<Rightarrow> Some []
         | c # rest \<Rightarrow> map_option (Cons c) (safe_strcpy rest (bytes_left - 1)))
      else if length src < mbl then None
      else map_option (append (take mbl src)) (safe_strcpy (drop mbl src) (bytes_left - mbl)))"
  by pat_completeness auto
termination
  by (relation "measure (\<lambda>(src, n). n)") (auto simp: g_utf8_skip_def Let_def)

declare safe_strcpy.simps [simp del]

lemma g_utf8_skip_ascii: "ascii c \<Longrightarrow> g_utf8_skip c = 1"
  by (simp add: ascii_def g_utf8_skip_def)

lemma g_utf8_skip_pos: "0 < g_utf8_skip c"
  by (simp add: g_utf8_skip_def Let_def)

lemma safe_strcpy_ascii: "ascii_str s \<Longrightarrow> safe_strcpy s n = Some (take (n - 1) s)"
proof (induction s arbitrary: n)
  case Nil
  have "g_utf8_skip NUL = 1" by (simp add: g_utf8_skip_def)
  then show ?case by (subst safe_strcpy.simps) simp
next
  case (Cons c s)
  then have c: "g_utf8_skip c = 1" by (simp add: g_utf8_skip_ascii)
  show ?case
  proof (cases "n < 2")
    case True
    with c show ?thesis by (subst safe_strcpy.simps) simp
  next
    case False
    then obtain k where "n = Suc (Suc k)" by (metis add_2_eq_Suc le_add_diff_inverse not_less)
    with c Cons show ?thesis by (subst safe_strcpy.simps) simp
  qed
qed

text \<open>The copy and its terminator fit in the buffer, and the copy is a prefix of the source.\<close>

lemma safe_strcpy_bounds:
  "0 < n \<Longrightarrow> safe_strcpy s n = Some t \<Longrightarrow> length t < n \<and> (\<exists>u. s = t @ u)"
proof (induction s n arbitrary: t rule: safe_strcpy.induct)
  case (1 s n)
  let ?m = "g_utf8_skip (cur s)"
  consider "n < ?m + 1" | c r where "\<not> n < ?m + 1" "?m = 1" "s = c # r"
    | "\<not> n < ?m + 1" "?m = 1" "s = []" | "\<not> n < ?m + 1" "?m \<noteq> 1"
    by (cases s) blast+
  then show ?case
  proof cases
    case 1
    with "1.prems" show ?thesis by (subst (asm) safe_strcpy.simps) simp
  next
    case (2 c r)
    with "1.prems" obtain t' where t': "safe_strcpy r (n - 1) = Some t'" "t = c # t'"
      by (subst (asm) safe_strcpy.simps) auto
    with 2 "1.IH"(1) [of ?m c r t'] show ?thesis by auto
  next
    case 3
    with "1.prems" show ?thesis by (subst (asm) safe_strcpy.simps) simp
  next
    case 4
    with "1.prems" obtain t' where t': "safe_strcpy (drop ?m s) (n - ?m) = Some t'"
        "t = take ?m s @ t'" "\<not> length s < ?m"
      by (auto simp: safe_strcpy.simps [of s n] Let_def split: if_splits)
    have "length t' < n - ?m \<and> (\<exists>u. drop ?m s = t' @ u)"
      by (rule "1.IH"(2)) (use 4 t' in auto)
    with t' show ?thesis by (auto, metis append_take_drop_id append.assoc)
  qed
qed

subsection \<open>Stripping formatting codes\<close>

definition STRIP_COLOR :: uint where "STRIP_COLOR = 1"
definition STRIP_ATTRIB :: uint where "STRIP_ATTRIB = 2"
definition STRIP_HIDDEN :: uint where "STRIP_HIDDEN = 4"
definition STRIP_ESCMARKUP :: uint where "STRIP_ESCMARKUP = 8"
definition STRIP_ALL :: uint where "STRIP_ALL = 7"

definition HIDDEN_CHAR :: char where "HIDDEN_CHAR = CHR 0x08"

definition attrib_codes :: "char list" where
  "attrib_codes = [CHR 0x07, CHR 0x0F, CHR 0x16, CHR 0x02, CHR 0x1F, CHR 0x1E, CHR 0x1D]"

definition passes_strip :: "uint \<Rightarrow> char \<Rightarrow> bool" where
  "passes_strip flags c \<longleftrightarrow>
     (if c = CHR 0x03 then flags AND STRIP_COLOR = 0
      else if c = HIDDEN_CHAR then flags AND STRIP_HIDDEN = 0
      else if c \<in> set attrib_codes then flags AND STRIP_ATTRIB = 0
      else True)"

text \<open>
  The loop of \<open>strip_color2\<close>: \<open>n\<close> characters are left, \<open>rcol\<close> is how many colour digits
  may still follow and \<open>bgcol\<close> whether the background part has begun.
\<close>

fun strip_loop :: "uint \<Rightarrow> nat \<Rightarrow> string \<Rightarrow> nat \<Rightarrow> bool \<Rightarrow> string" where
  "strip_loop flags 0 src rcol bgcol = []"
| "strip_loop flags (Suc n) src rcol bgcol =
     (let c = cur src; nxt = cur (tl src) in
      if rcol > 0 \<and> (is_digit c \<or> (c = CHR '','' \<and> is_digit nxt \<and> \<not> bgcol)) then
        (if c = CHR '','' then strip_loop flags n (tl src) 2 True
         else strip_loop flags n (tl src) (if nxt \<noteq> CHR '','' then rcol - 1 else rcol) bgcol)
      else
        (if passes_strip flags c then [c] else []) @
        strip_loop flags n (tl src)
          (if c = CHR 0x03 \<and> \<not> passes_strip flags c then 2 else 0) False)"

text \<open>
  \<open>strip_color2 (src, len, dst, flags)\<close>: the string written to \<open>dst\<close> (its length is the
  C function's result); \<open>None\<close> when \<open>len\<close> runs past the terminator of \<open>src\<close>.
\<close>

definition strip_color2 :: "string \<Rightarrow> int \<Rightarrow> uint \<Rightarrow> string option" where
  "strip_color2 src len flags =
     (let n = (if len = -1 then length src else nat len) in
      if n > length src then None else Some (strip_loop flags n src 0 False))"

text \<open>\<open>strip_color\<close>; \<open>g_markup_escape_text\<close> is GLib's and a parameter.\<close>

definition strip_color :: "(string \<Rightarrow> string) \<Rightarrow> string \<Rightarrow> int \<Rightarrow> uint \<Rightarrow> string option" where
  "strip_color g_markup_escape_text txt len flags =
     (case strip_color2 txt (if len = -1 then int (length txt) else len) flags of
        None \<Rightarrow> None
      | Some s \<Rightarrow> Some (if flags AND STRIP_ESCMARKUP \<noteq> 0 then g_markup_escape_text s else s))"

definition strip_hidden_attribute :: "string \<Rightarrow> string" where
  "strip_hidden_attribute src = filter (\<lambda>c. c \<noteq> HIDDEN_CHAR) src"

definition format_code :: "char \<Rightarrow> bool" where
  "format_code c \<longleftrightarrow> c = CHR 0x03 \<or> c = HIDDEN_CHAR \<or> c \<in> set attrib_codes"

lemma passes_strip_ALL [simp]: "passes_strip STRIP_ALL c \<longleftrightarrow> \<not> format_code c"
  by (auto simp: passes_strip_def format_code_def STRIP_ALL_def STRIP_COLOR_def
      STRIP_HIDDEN_def STRIP_ATTRIB_def)

lemma strip_loop_passes: "c \<in> set (strip_loop flags n src rcol bg) \<Longrightarrow> passes_strip flags c"
  by (induction flags n src rcol bg rule: strip_loop.induct) (auto simp: Let_def split: if_splits)

lemma strip_loop_length: "length (strip_loop flags n src rcol bg) \<le> n"
proof (induction flags n src rcol bg rule: strip_loop.induct)
  case (2 flags n src rcol bg)
  show ?case
    using 2 by (auto simp: Let_def le_SucI)
qed simp

lemma strip_loop_clean:
  "n \<le> length src \<Longrightarrow> (\<And>c. c \<in> set src \<Longrightarrow> c \<noteq> CHR 0x03 \<and> passes_strip flags c) \<Longrightarrow>
   strip_loop flags n src 0 bg = take n src"
proof (induction n arbitrary: src bg)
  case (Suc n)
  then obtain c s where "src = c # s" by (cases src) auto
  with Suc show ?case by (auto simp: Let_def)
qed simp

text \<open>The colour digits the loop drops behind \<open>\003\<close>: at most two, a comma, at most two more.\<close>

lemma strip_color2_idem:
  "strip_color2 s (-1) STRIP_ALL = Some t \<Longrightarrow> strip_color2 t (-1) STRIP_ALL = Some t"
proof -
  assume "strip_color2 s (-1) STRIP_ALL = Some t"
  then have t: "t = strip_loop STRIP_ALL (length s) s 0 False"
    by (simp add: strip_color2_def)
  have "\<not> format_code c" if "c \<in> set t" for c
    using strip_loop_passes [OF that [unfolded t]] by simp
  then have "strip_loop STRIP_ALL (length t) t 0 False = t"
    by (subst strip_loop_clean) (auto simp: format_code_def)
  then show ?thesis by (simp add: strip_color2_def)
qed

subsection \<open>Lines and tokens\<close>

text \<open>
  \<open>buf_get_line (ibuf, buf, position, len)\<close>: the next line from \<open>position\<close> and the new
  position, \<open>None\<close> (result 0) when no newline is left before \<open>len\<close>.
\<close>

function line_end :: "string \<Rightarrow> nat \<Rightarrow> nat \<Rightarrow> nat option" where
  "line_end ibuf pos len =
     (if pos \<ge> len \<or> pos \<ge> length ibuf then None
      else if ibuf ! pos = CHR 0x0A then Some pos
      else if pos + 1 = len then None
      else line_end ibuf (pos + 1) len)"
  by pat_completeness auto
termination
  by (relation "measure (\<lambda>(b, pos, len). len - pos)") auto

declare line_end.simps [simp del]

definition buf_get_line :: "string \<Rightarrow> nat \<Rightarrow> nat \<Rightarrow> (string \<times> nat) option" where
  "buf_get_line ibuf position len =
     (if position = len then None
      else case line_end ibuf position len of
             None \<Rightarrow> None
           | Some e \<Rightarrow> Some (drop position (take e ibuf), e + 1))"

lemma line_end_Some:
  "line_end ibuf pos len = Some e \<Longrightarrow>
   pos \<le> e \<and> e < len \<and> e < length ibuf \<and> ibuf ! e = CHR 0x0A \<and>
   (\<forall>k. pos \<le> k \<and> k < e \<longrightarrow> ibuf ! k \<noteq> CHR 0x0A)"
proof (induction ibuf pos len rule: line_end.induct)
  case (1 ibuf pos len)
  then show ?case
    by (subst (asm) (2) line_end.simps) (auto split: if_splits simp: less_Suc_eq_le, metis Suc_leI le_neq_implies_less)
qed

lemma buf_get_line_Some:
  assumes "buf_get_line ibuf pos len = Some (l, pos')"
  shows "CHR 0x0A \<notin> set l" "pos' = pos + length l + 1" "pos' \<le> len"
    "take (pos' - pos) (drop pos ibuf) = l @ [CHR 0x0A]"
proof -
  from assms obtain e where e: "line_end ibuf pos len = Some e"
      and l: "l = drop pos (take e ibuf)" "pos' = e + 1"
    by (auto simp: buf_get_line_def split: if_splits option.splits)
  note le = line_end_Some [OF e]
  show "CHR 0x0A \<notin> set l"
    using le by (auto simp: l in_set_conv_nth)
  have len: "length l = e - pos" using le l by simp
  then show "pos' = pos + length l + 1" using l le by simp
  show "pos' \<le> len" using l le by simp
  have "take (e + 1 - pos) (drop pos ibuf) = drop pos (take (e + 1) ibuf)"
    by (simp add: drop_take)
  also have "\<dots> = drop pos (take e ibuf @ [ibuf ! e])"
    using le by (simp add: take_Suc_conv_app_nth)
  also have "\<dots> = l @ [CHR 0x0A]" using le l by simp
  finally show "take (pos' - pos) (drop pos ibuf) = l @ [CHR 0x0A]" using l by simp
qed

text \<open>
  \<open>token_foreach (str, sep, callback, ud)\<close>: the callback gets each token and threads its
  state; it stops the walk (result 0) by returning less than 1.
\<close>

fun token_walk :: "(string \<Rightarrow> 's \<Rightarrow> int \<times> 's) \<Rightarrow> char \<Rightarrow> string \<Rightarrow> string \<Rightarrow> 's \<Rightarrow> bool \<times> 's" where
  "token_walk cb sep start [] ud =
     (let (r, ud') = cb start ud in (\<not> r < 1, ud'))"
| "token_walk cb sep start (c # str) ud =
     (if c = sep then
        (let (r, ud') = cb start ud in
         if r < 1 then (False, ud') else token_walk cb sep [] str ud')
      else token_walk cb sep (start @ [c]) str ud)"

definition token_foreach :: "string \<Rightarrow> char \<Rightarrow> (string \<Rightarrow> 's \<Rightarrow> int \<times> 's) \<Rightarrow> 's \<Rightarrow> bool \<times> 's" where
  "token_foreach str sep cb ud = token_walk cb sep [] str ud"

fun walk_tokens :: "(string \<Rightarrow> 's \<Rightarrow> int \<times> 's) \<Rightarrow> string list \<Rightarrow> 's \<Rightarrow> bool \<times> 's" where
  "walk_tokens cb [] ud = (True, ud)"
| "walk_tokens cb (w # ws) ud =
     (let (r, ud') = cb w ud in if r < 1 then (False, ud') else walk_tokens cb ws ud')"

lemma token_walk_split:
  "sep \<notin> set start \<Longrightarrow>
   token_walk cb sep start str ud =
     walk_tokens cb ((start @ hd (split_at sep str)) # tl (split_at sep str)) ud"
proof (induction cb sep start str ud rule: token_walk.induct)
  case (2 cb sep start c str ud)
  then show ?case by (auto split: prod.splits list.splits simp: Let_def)
qed (auto split: prod.splits)

lemma token_foreach_split: "token_foreach str sep cb ud = walk_tokens cb (split_at sep str) ud"
  by (simp add: token_foreach_def token_walk_split)

end
