(* ===== verification/Session.thy ===== *)
theory Session
  imports NickOrder StringUtil
begin

text \<open>
  The shared state of \<open>src/common/hexchat.h\<close> and \<open>userlist.h\<close>, with the fields the modelled
  components read or write: \<open>struct server\<close> (its ISUPPORT part), \<open>struct session\<close> (its
  user-list and channel-mode part) and \<open>struct User\<close>. Users are heap objects that the tree
  of a session and its \<open>me\<close> point to, so they live in an explicit store.

  A call into the front end (\<open>fe_*\<close>), the text events (\<open>EMIT_SIGNAL\<close>) or a component that
  is not modelled is recorded in \<open>trace\<close>, newest last.
\<close>

definition NICKLEN :: nat where "NICKLEN = 64"
definition CHANLEN :: nat where "CHANLEN = 300"
definition PDIWORDS :: nat where "PDIWORDS = 32"
definition USERACCESS_SIZE :: nat where "USERACCESS_SIZE = 12"

type_synonym addr = nat

record user =
  u_nick :: string
  u_hostname :: "string option"
  u_realname :: "string option"
  u_servername :: "string option"
  u_account :: "string option"
  u_access :: uint
  u_prefix :: char
  u_op :: bool
  u_hop :: bool
  u_voice :: bool
  u_me :: bool
  u_away :: bool

text \<open>\<open>g_new0 (struct User, 1)\<close>\<close>

definition new_user :: user where
  "new_user = \<lparr>u_nick = [], u_hostname = None, u_realname = None, u_servername = None,
     u_account = None, u_access = 0, u_prefix = NUL, u_op = False, u_hop = False,
     u_voice = False, u_me = False, u_away = False\<rparr>"

datatype session_type = SESS_SERVER | SESS_CHANNEL | SESS_DIALOG | SESS_NOTICES | SESS_SNOTICES

record session =
  sess_server :: addr
  sess_type :: session_type
  channel :: string
  channelkey :: string
  chan_limit :: int
  current_modes :: string
  ignore_mode :: bool
  end_of_names :: bool
  usertree :: "addr tree option"
  me :: "addr option"
  ops :: int
  hops :: int
  voices :: int
  total :: int
  waitchannel :: string
  ignore_names :: bool
  ignore_date :: bool
  doing_who :: bool
  done_away_check :: bool
  topic :: "string option"
  willjoinchannel :: string

text \<open>
  The function pointer \<open>p_cmp\<close> is only ever set to one of two functions: \<open>rfc_casecmp\<close>
  (\<open>proto_fill_her_up\<close>) and \<open>g_ascii_strcasecmp\<close> (\<open>inbound_005\<close>).
\<close>

datatype cmp_fn = Rfc_casecmp | G_ascii_strcasecmp

fun call_cmp :: "cmp_fn \<Rightarrow> string \<Rightarrow> string \<Rightarrow> int" where
  "call_cmp Rfc_casecmp = rfc_casecmp"
| "call_cmp G_ascii_strcasecmp = g_ascii_strcasecmp"

record server =
  serv_addr :: addr
  serv_nick :: string
  p_cmp_fn :: cmp_fn
  chantypes :: string
  chanmodes :: string
  nick_prefixes :: string
  nick_modes :: string
  bad_prefix :: bool
  bad_nick_prefixes :: "string option"
  modes_per_line :: int
  have_extjoin :: bool
  supports_watch :: bool
  supports_monitor :: bool
  have_namesx :: bool
  have_whox :: bool
  have_except :: bool
  have_invite :: bool
  use_listargs :: bool
  utf8only :: bool
  encoding :: string
  chathistory_limit :: int
  multiline_max_bytes :: int
  multiline_max_lines :: int
  network_icon_url :: "string option"
  is_away :: bool
  have_uhnames :: bool
  have_read_marker :: bool

definition p_cmp :: "server \<Rightarrow> string \<Rightarrow> string \<Rightarrow> int" where
  "p_cmp serv = call_cmp (p_cmp_fn serv)"

text \<open>The names the installed comparison is a total preorder on.\<close>

fun cmp_ok :: "cmp_fn \<Rightarrow> string \<Rightarrow> bool" where
  "cmp_ok Rfc_casecmp = ascii_name"
| "cmp_ok G_ascii_strcasecmp = no_nul"

definition name_ok :: "server \<Rightarrow> string \<Rightarrow> bool" where
  "name_ok serv = cmp_ok (p_cmp_fn serv)"

interpretation nick: key_order "p_cmp serv" "name_ok serv" for serv
  unfolding p_cmp_def name_ok_def
  by (cases "p_cmp_fn serv") (simp_all add: rfc.key_order_axioms gascii.key_order_axioms)

datatype call =
    Fe_userlist_insert addr
  | Fe_userlist_remove addr
  | Fe_userlist_rehash addr
  | Fe_userlist_update addr
  | Fe_userlist_numbers
  | Fe_userlist_clear
  | Notify_set_online string
  | Fe_update_channel_key string
  | Fe_update_channel_limit int
  | Fe_update_mode_buttons char char
  | Fe_set_title
  | Fe_set_channel string
  | Emit string "string list"
  | Inbound_identified
  | Send string
  | Network_icon_cancel
  | Network_icon_clear_cache
  | Network_icon_fetch "string option"
  | Call string "string list"

record mem =
  heap :: "addr \<rightharpoonup> user"
  next_addr :: addr
  trace :: "call list"

definition empty_mem :: mem where
  "empty_mem = \<lparr>heap = Map.empty, next_addr = 1, trace = []\<rparr>"

definition emit :: "call \<Rightarrow> mem \<Rightarrow> mem" where
  "emit c m = m\<lparr>trace := trace m @ [c]\<rparr>"

text \<open>The user a pointer points to; the invariants show that every pointer used is live.\<close>

definition user_at :: "mem \<Rightarrow> addr \<Rightarrow> user" where
  "user_at m a = (case heap m a of Some u \<Rightarrow> u | None \<Rightarrow> new_user)"

definition set_user :: "addr \<Rightarrow> user \<Rightarrow> mem \<Rightarrow> mem" where
  "set_user a u m = m\<lparr>heap := (heap m)(a \<mapsto> u)\<rparr>"

definition alloc_user :: "user \<Rightarrow> mem \<Rightarrow> addr \<times> mem" where
  "alloc_user u m = (next_addr m, m\<lparr>heap := (heap m)(next_addr m \<mapsto> u), next_addr := next_addr m + 1\<rparr>)"

definition free_user :: "addr \<Rightarrow> mem \<Rightarrow> mem" where
  "free_user a m = m\<lparr>heap := (heap m)(a := None)\<rparr>"

lemma heap_simps [simp]:
  "heap (emit c m) = heap m"
  "next_addr (emit c m) = next_addr m"
  "heap (set_user a u m) = (heap m)(a \<mapsto> u)"
  "next_addr (set_user a u m) = next_addr m"
  "heap (free_user a m) = (heap m)(a := None)"
  "next_addr (free_user a m) = next_addr m"
  "trace (set_user a u m) = trace m"
  "trace (free_user a m) = trace m"
  "trace (emit c m) = trace m @ [c]"
  by (simp_all add: emit_def set_user_def free_user_def)

lemma user_at_simps [simp]:
  "user_at (emit c m) b = user_at m b"
  "user_at (set_user a u m) b = (if a = b then u else user_at m b)"
  by (simp_all add: user_at_def)

lemma user_at_free: "b \<noteq> a \<Longrightarrow> user_at (free_user a m) b = user_at m b"
  by (simp add: user_at_def)

text \<open>The ISUPPORT defaults of \<open>server_set_defaults\<close> (and \<open>p_cmp\<close> of \<open>proto_fill_her_up\<close>).\<close>

definition server_set_defaults :: "server \<Rightarrow> server" where
  "server_set_defaults serv = serv
     \<lparr>chantypes := ''#&!+'', chanmodes := ''beI,k,l'', nick_prefixes := ''@%+'',
      nick_modes := ''ohv'', modes_per_line := 3, use_listargs := False,
      supports_watch := False, supports_monitor := False, bad_prefix := False,
      have_namesx := False, have_whox := False, have_extjoin := False,
      have_except := False, have_invite := False, utf8only := False,
      network_icon_url := None, is_away := False, have_uhnames := False\<rparr>"

definition new_server :: "addr \<Rightarrow> string \<Rightarrow> server" where
  "new_server a nick = server_set_defaults
     \<lparr>serv_addr = a, serv_nick = nick, p_cmp_fn = Rfc_casecmp, chantypes = [], chanmodes = [],
      nick_prefixes = [], nick_modes = [], bad_prefix = False, bad_nick_prefixes = None,
      modes_per_line = 0, have_extjoin = False, supports_watch = False,
      supports_monitor = False, have_namesx = False, have_whox = False,
      have_except = False, have_invite = False, use_listargs = False, utf8only = False,
      encoding = ''UTF-8'', chathistory_limit = 0, multiline_max_bytes = 0,
      multiline_max_lines = 0, network_icon_url = None, is_away = False,
      have_uhnames = False, have_read_marker = False\<rparr>"

definition new_session :: "addr \<Rightarrow> session_type \<Rightarrow> string \<Rightarrow> session" where
  "new_session srv ty chan =
     \<lparr>sess_server = srv, sess_type = ty, channel = chan, channelkey = [], chan_limit = 0,
      current_modes = [], ignore_mode = False, end_of_names = False, usertree = None,
      me = None, ops = 0, hops = 0, voices = 0, total = 0, waitchannel = [],
      ignore_names = False, ignore_date = False, doing_who = False, done_away_check = False,
      topic = None, willjoinchannel = []\<rparr>"

end
