(* ===== verification/ChanModes.thy ===== *)
theory ChanModes
  imports Session
begin

text \<open>
  The lookups of \<open>src/common/modes.c\<close> in a server's ISUPPORT strings: nick prefixes
  (PREFIX), channel mode classes (CHANMODES) and channel types (CHANTYPES).

  Bit \<open>i\<close> of an access field stands for the prefix \<open>nick_prefixes ! i\<close>; \<open>1 << i\<close> is
  undefined in C from 31 on, so the facts below are stated for at most 31 prefixes.
\<close>

fun index_of :: "char \<Rightarrow> string \<Rightarrow> nat option" where
  "index_of c [] = None"
| "index_of c (x # s) = (if x = c then Some 0 else map_option Suc (index_of c s))"

lemma index_of_Some: "index_of c s = Some i \<Longrightarrow> i < length s \<and> s ! i = c \<and> (\<forall>j < i. s ! j \<noteq> c)"
proof (induction s arbitrary: i)
  case (Cons x s)
  then show ?case by (cases i) (auto split: if_splits simp: less_Suc_eq_0_disj)
qed simp

lemma index_of_None: "index_of c s = None \<longleftrightarrow> c \<notin> set s"
  by (induction s) auto

lemma index_of_nth: "distinct s \<Longrightarrow> i < length s \<Longrightarrow> index_of (s ! i) s = Some i"
proof (induction s arbitrary: i)
  case (Cons x s)
  then show ?case by (cases i) auto
qed simp

definition is_channel :: "server \<Rightarrow> string \<Rightarrow> bool" where
  "is_channel serv chan \<longleftrightarrow> strchr (chantypes serv) (cur chan) \<noteq> None"

text \<open>\<open>is_prefix_char\<close>: the position, -1 for no prefix, -2 for one whose mode is unknown.\<close>

definition is_prefix_char :: "server \<Rightarrow> char \<Rightarrow> int" where
  "is_prefix_char serv c =
     (case index_of c (nick_prefixes serv) of
        Some pos \<Rightarrow> int pos
      | None \<Rightarrow>
          if bad_prefix serv \<and>
             (case bad_nick_prefixes serv of None \<Rightarrow> False | Some b \<Rightarrow> strchr b c \<noteq> None)
          then -2 else -1)"

text \<open>\<open>get_nick_prefix\<close>: the first prefix whose bit is set, 0 if none.\<close>

fun nick_prefix_loop :: "string \<Rightarrow> uint \<Rightarrow> nat \<Rightarrow> char" where
  "nick_prefix_loop [] acc pos = NUL"
| "nick_prefix_loop (c # ps) acc pos =
     (if pos \<ge> USERACCESS_SIZE then NUL
      else if acc AND push_bit pos 1 \<noteq> 0 then c
      else nick_prefix_loop ps acc (pos + 1))"

definition get_nick_prefix :: "server \<Rightarrow> uint \<Rightarrow> char" where
  "get_nick_prefix serv acc = nick_prefix_loop (nick_prefixes serv) acc 0"

text \<open>\<open>nick_access (serv, nick, &modechars)\<close>: the access bits and the number of prefixes.\<close>

fun nick_access_loop :: "server \<Rightarrow> string \<Rightarrow> uint \<Rightarrow> nat \<Rightarrow> uint \<times> nat" where
  "nick_access_loop serv [] acc n = (acc, n)"
| "nick_access_loop serv (c # nick) acc n =
     (let i = is_prefix_char serv c in
      if i = -1 then (acc, n)
      else nick_access_loop serv nick
             (if i \<noteq> -2 then acc OR push_bit (nat i) 1 else acc) (n + 1))"

definition nick_access :: "server \<Rightarrow> string \<Rightarrow> uint \<times> nat" where
  "nick_access serv nick = nick_access_loop serv nick 0 0"

text \<open>
  \<open>mode_access (serv, mode, &prefix)\<close>. The prefix is read from \<open>nick_prefixes\<close> at the
  position found in \<open>nick_modes\<close>: \<open>None\<close> when that is behind its terminator.
\<close>

definition mode_access :: "server \<Rightarrow> char \<Rightarrow> (int \<times> char) option" where
  "mode_access serv mode =
     (case index_of mode (nick_modes serv) of
        None \<Rightarrow> Some (-1, NUL)
      | Some pos \<Rightarrow>
          if pos < length (nick_prefixes serv) then Some (int pos, nick_prefixes serv ! pos)
          else if pos = length (nick_prefixes serv) then Some (int pos, NUL)
          else None)"

fun chanmode_type_loop :: "char \<Rightarrow> string \<Rightarrow> int \<Rightarrow> int" where
  "chanmode_type_loop mode [] ty = -1"
| "chanmode_type_loop mode (c # cm) ty =
     (if c = CHR '','' then chanmode_type_loop mode cm (ty + 1)
      else if c = mode then ty
      else chanmode_type_loop mode cm ty)"

definition mode_chanmode_type :: "server \<Rightarrow> char \<Rightarrow> int" where
  "mode_chanmode_type serv mode = chanmode_type_loop mode (chanmodes serv) 0"

definition mode_has_arg :: "server \<Rightarrow> char \<Rightarrow> char \<Rightarrow> bool" where
  "mode_has_arg serv sign mode =
     (if strchr (nick_modes serv) mode \<noteq> None then True
      else
        let ty = mode_chanmode_type serv mode in
        if ty = 0 \<or> ty = 1 then True
        else if ty = 2 then sign = CHR ''+''
        else False)"

subsection \<open>What the lookups compute\<close>

text \<open>The mode class is the number of the comma-separated group the letter is in.\<close>

fun first_group :: "char \<Rightarrow> string list \<Rightarrow> nat option" where
  "first_group c [] = None"
| "first_group c (g # gs) = (if c \<in> set g then Some 0 else map_option Suc (first_group c gs))"

lemma chanmode_type_loop_split:
  "mode \<noteq> CHR '','' \<Longrightarrow>
   chanmode_type_loop mode cm ty =
     (case first_group mode (split_at (CHR '','') cm) of None \<Rightarrow> -1 | Some i \<Rightarrow> ty + int i)"
  by (induction mode cm ty rule: chanmode_type_loop.induct) (auto split: option.splits list.splits)

lemma mode_chanmode_type_split:
  "mode \<noteq> CHR '','' \<Longrightarrow>
   mode_chanmode_type serv mode =
     (case first_group mode (split_at (CHR '','') (chanmodes serv)) of
        None \<Rightarrow> -1 | Some i \<Rightarrow> int i)"
  by (simp add: mode_chanmode_type_def chanmode_type_loop_split split: option.splits)

text \<open>Well-formed ISUPPORT prefixes: as many modes as prefixes, no repetition, bits that fit.\<close>

definition prefixes_ok :: "server \<Rightarrow> bool" where
  "prefixes_ok serv \<longleftrightarrow>
     distinct (nick_prefixes serv) \<and> distinct (nick_modes serv) \<and>
     length (nick_modes serv) = length (nick_prefixes serv) \<and>
     length (nick_prefixes serv) \<le> USERACCESS_SIZE \<and>
     no_nul (nick_prefixes serv) \<and> \<not> bad_prefix serv"

lemma new_server_prefixes_ok: "prefixes_ok (new_server a nick)"
  by (simp add: prefixes_ok_def new_server_def server_set_defaults_def USERACCESS_SIZE_def)

lemma is_prefix_char_iff:
  assumes "prefixes_ok serv"
  shows "is_prefix_char serv c = int b \<longleftrightarrow> b < length (nick_prefixes serv) \<and> nick_prefixes serv ! b = c"
  using assms index_of_Some [of c "nick_prefixes serv"] index_of_nth [of "nick_prefixes serv" b]
  by (auto simp: is_prefix_char_def prefixes_ok_def split: option.splits)

lemma is_prefix_char_ok:
  "prefixes_ok serv \<Longrightarrow> is_prefix_char serv c \<noteq> -2"
  "prefixes_ok serv \<Longrightarrow> is_prefix_char serv c \<noteq> -1 \<longleftrightarrow> c \<in> set (nick_prefixes serv)"
  using index_of_None [of c "nick_prefixes serv"]
  by (auto simp: is_prefix_char_def prefixes_ok_def split: option.splits)

lemma nick_access_loop_spec:
  assumes ok: "prefixes_ok serv"
  shows "nick_access_loop serv nick acc n = (acc', n') \<Longrightarrow>
    n' = n + length (takeWhile (\<lambda>c. c \<in> set (nick_prefixes serv)) nick) \<and>
    (\<forall>b. bit acc' b \<longleftrightarrow> bit acc b \<or>
       (b < length (nick_prefixes serv) \<and>
        nick_prefixes serv ! b \<in> set (takeWhile (\<lambda>c. c \<in> set (nick_prefixes serv)) nick)))"
proof (induction nick arbitrary: acc n)
  case (Cons c nick)
  show ?case
  proof (cases "c \<in> set (nick_prefixes serv)")
    case True
    then obtain p where p: "p < length (nick_prefixes serv)" "nick_prefixes serv ! p = c"
      by (auto simp: in_set_conv_nth)
    then have i: "is_prefix_char serv c = int p" by (simp add: is_prefix_char_iff [OF ok])
    have b: "p < 32" using p ok by (simp add: prefixes_ok_def USERACCESS_SIZE_def)
    have uniq: "nick_prefixes serv ! q = c \<longleftrightarrow> q = p" if "q < length (nick_prefixes serv)" for q
      using that p ok by (auto simp: prefixes_ok_def nth_eq_iff_index_eq)
    have "nick_access_loop serv nick (acc OR push_bit p 1) (n + 1) = (acc', n')"
      using Cons.prems i by simp
    from Cons.IH [OF this] show ?thesis
      using True p uniq bit_or_mask [OF b] by auto
  next
    case False
    with Cons.prems is_prefix_char_ok(2) [OF ok, of c] show ?thesis by auto
  qed
qed simp

lemma nick_prefix_loop_spec:
  "nick_prefix_loop ps acc pos = c \<Longrightarrow> no_nul ps \<Longrightarrow> pos + length ps \<le> USERACCESS_SIZE \<Longrightarrow>
   (c = NUL \<and> (\<forall>k < length ps. \<not> bit acc (pos + k))) \<or>
   (\<exists>k < length ps. c = ps ! k \<and> c \<noteq> NUL \<and> bit acc (pos + k) \<and> (\<forall>j < k. \<not> bit acc (pos + j)))"
proof (induction ps acc pos rule: nick_prefix_loop.induct)
  case (2 x ps acc pos)
  then have pos: "pos < USERACCESS_SIZE" "pos < 32" by (auto simp: USERACCESS_SIZE_def)
  show ?case
  proof (cases "bit acc pos")
    case True
    then have "acc AND push_bit pos 1 \<noteq> 0" using and_mask_nonzero [OF pos(2)] by simp
    with 2 pos True show ?thesis by (intro disjI2 exI [of _ 0]) auto
  next
    case False
    then have "acc AND push_bit pos 1 = 0" using and_mask_nonzero [OF pos(2)] by blast
    with 2 pos have "nick_prefix_loop ps acc (pos + 1) = c" by simp
    from "2.IH" [OF _ _ this] \<open>acc AND push_bit pos 1 = 0\<close> 2 pos False
    consider "c = NUL" "\<forall>k < length ps. \<not> bit acc (pos + 1 + k)"
      | k where "k < length ps" "c = ps ! k" "c \<noteq> NUL" "bit acc (pos + 1 + k)"
          "\<forall>j < k. \<not> bit acc (pos + 1 + j)" by auto
    then show ?thesis
    proof cases
      case 1
      with False show ?thesis
        by (intro disjI1) (auto simp: less_Suc_eq_0_disj)
    next
      case (2 k)
      with False show ?thesis
        by (intro disjI2 exI [of _ "Suc k"]) (auto simp: less_Suc_eq_0_disj)
    qed
  qed
qed simp

lemma nick_prefix_loop_first:
  assumes "k < length ps" "pos + length ps \<le> USERACCESS_SIZE" "no_nul ps"
    "bit acc (pos + k)" "\<forall>j < k. \<not> bit acc (pos + j)"
  shows "nick_prefix_loop ps acc pos = ps ! k"
  using nick_prefix_loop_spec [OF refl assms(3,2), of acc]
proof (elim disjE exE conjE)
  assume "\<forall>k < length ps. \<not> bit acc (pos + k)"
  with assms show ?thesis by blast
next
  fix j assume j: "j < length ps" "nick_prefix_loop ps acc pos = ps ! j" "bit acc (pos + j)"
    "\<forall>i < j. \<not> bit acc (pos + i)"
  with assms(4,5) have "j = k" by (metis linorder_neqE_nat)
  with j show ?thesis by simp
qed

end
