(* ===== verification/UserList.thy ===== *)
theory UserList
  imports ChanModes
begin

text \<open>
  \<open>src/common/userlist.c\<close>: the users of a channel, in a pointer array sorted by nick, with
  the operator, half-operator, voice and total counts the front end shows. The state is the
  heap of users and the session; an operation that would shift by -1 or read outside an
  array is \<open>None\<close>.
\<close>

type_synonym ul_state = "mem \<times> session"

subsection \<open>Comparisons\<close>

definition nick_at :: "mem \<Rightarrow> addr \<Rightarrow> string" where
  "nick_at m a = u_nick (user_at m a)"

definition nick_cmp_alpha :: "server \<Rightarrow> mem \<Rightarrow> addr \<Rightarrow> addr \<Rightarrow> int" where
  "nick_cmp_alpha serv m user1 user2 = p_cmp serv (nick_at m user1) (nick_at m user2)"

definition find_cmp :: "server \<Rightarrow> mem \<Rightarrow> string \<Rightarrow> addr \<Rightarrow> int" where
  "find_cmp serv m name user = p_cmp serv name (nick_at m user)"

fun az_ops_loop :: "uint \<Rightarrow> uint \<Rightarrow> nat list \<Rightarrow> int option" where
  "az_ops_loop access1 access2 [] = None"
| "az_ops_loop access1 access2 (pos # ps) =
     (let b1 = access1 AND push_bit pos 1 \<noteq> 0; b2 = access2 AND push_bit pos 1 \<noteq> 0 in
      if b1 \<and> b2 then None
      else if b1 \<and> \<not> b2 then Some (-1)
      else if \<not> b1 \<and> b2 then Some 1
      else az_ops_loop access1 access2 ps)"

definition nick_cmp_az_ops :: "server \<Rightarrow> user \<Rightarrow> user \<Rightarrow> int" where
  "nick_cmp_az_ops serv user1 user2 =
     (let r = (if u_access user1 \<noteq> u_access user2
               then az_ops_loop (u_access user1) (u_access user2) [0..<USERACCESS_SIZE]
               else None) in
      case r of Some i \<Rightarrow> i | None \<Rightarrow> p_cmp serv (u_nick user1) (u_nick user2))"

subsection \<open>Lookup and insertion\<close>

definition userlist_insertname :: "server \<Rightarrow> ul_state \<Rightarrow> addr \<Rightarrow> (ul_state \<times> int) option" where
  "userlist_insertname serv st newuser =
     (let (m, sess) = st; t = (case usertree sess of None \<Rightarrow> tree_new | Some t \<Rightarrow> t) in
      map_option (\<lambda>(t', row). ((m, sess\<lparr>usertree := Some t'\<rparr>), row))
        (tree_insert (nick_cmp_alpha serv m) t newuser))"

definition userlist_find :: "server \<Rightarrow> ul_state \<Rightarrow> string \<Rightarrow> addr option" where
  "userlist_find serv st name =
     (let (m, sess) = st in
      case usertree sess of
        None \<Rightarrow> None
      | Some t \<Rightarrow> map_option (\<lambda>pos. elems t ! pos) (tree_find (find_cmp serv m) (Some t) name))"

fun userlist_find_global :: "server \<Rightarrow> mem \<Rightarrow> session list \<Rightarrow> string \<Rightarrow> addr option" where
  "userlist_find_global serv m [] name = None"
| "userlist_find_global serv m (sess # sess_list) name =
     (if sess_server sess = serv_addr serv then
        (case userlist_find serv (m, sess) name of
           Some user \<Rightarrow> Some user
         | None \<Rightarrow> userlist_find_global serv m sess_list name)
      else userlist_find_global serv m sess_list name)"

text \<open>\<open>tree_remove\<close> and \<open>tree_insert\<close> on the session's tree, which may be NULL.\<close>

definition ul_tree_remove :: "server \<Rightarrow> ul_state \<Rightarrow> addr \<Rightarrow> ul_state option" where
  "ul_tree_remove serv st a =
     (let (m, sess) = st in
      case usertree sess of
        None \<Rightarrow> Some st
      | Some t \<Rightarrow> map_option (\<lambda>(t', _). (m, sess\<lparr>usertree := Some t'\<rparr>))
                    (tree_remove (nick_cmp_alpha serv m) t a))"

definition ul_tree_insert :: "server \<Rightarrow> ul_state \<Rightarrow> addr \<Rightarrow> ul_state option" where
  "ul_tree_insert serv st a =
     (let (m, sess) = st in
      case usertree sess of
        None \<Rightarrow> Some st
      | Some t \<Rightarrow> map_option (\<lambda>(t', _). (m, sess\<lparr>usertree := Some t'\<rparr>))
                    (tree_insert (nick_cmp_alpha serv m) t a))"

subsection \<open>Attributes\<close>

definition userlist_set_away :: "server \<Rightarrow> ul_state \<Rightarrow> string \<Rightarrow> uint \<Rightarrow> ul_state" where
  "userlist_set_away serv st nick away =
     (case userlist_find serv st nick of
        None \<Rightarrow> st
      | Some a \<Rightarrow>
          let (m, sess) = st; u = user_at m a in
          if (of_bool (u_away u) :: uint) \<noteq> away then
            let m1 = emit (Fe_userlist_rehash a) (set_user a (u\<lparr>u_away := bit away 0\<rparr>) m)
            in ((if away \<noteq> 0 then emit (Fe_userlist_update a) m1 else m1), sess)
          else st)"

definition userlist_set_account :: "server \<Rightarrow> ul_state \<Rightarrow> string \<Rightarrow> string \<Rightarrow> ul_state" where
  "userlist_set_account serv st nick account =
     (case userlist_find serv st nick of
        None \<Rightarrow> st
      | Some a \<Rightarrow>
          let (m, sess) = st; u = user_at m a in
          if account = ''*'' then
            (if u_account u \<noteq> None
             then (emit (Fe_userlist_rehash a) (set_user a (u\<lparr>u_account := None\<rparr>) m), sess)
             else st)
          else if u_account u \<noteq> Some account
            then (emit (Fe_userlist_rehash a) (set_user a (u\<lparr>u_account := Some account\<rparr>) m), sess)
          else st)"

text \<open>The fields \<open>userlist_add_hostname\<close> fills in; 0xff stands for an unknown away state.\<close>

definition add_hostname_fields ::
    "string option \<Rightarrow> string option \<Rightarrow> string option \<Rightarrow> string option \<Rightarrow> uint \<Rightarrow> user \<Rightarrow> user" where
  "add_hostname_fields hostname realname servername account away u =
     (let u1 = (if hostname \<noteq> None \<and> u_hostname u \<noteq> hostname
                then u\<lparr>u_hostname := hostname\<rparr> else u);
          u2 = (case realname of
                  Some (r # rs) \<Rightarrow> if u_realname u1 \<noteq> realname
                                   then u1\<lparr>u_realname := realname\<rparr> else u1
                | _ \<Rightarrow> u1);
          u3 = (if u_servername u2 = None \<and> servername \<noteq> None
                then u2\<lparr>u_servername := servername\<rparr> else u2);
          u4 = (if u_account u3 = None \<and> account \<noteq> None \<and> account \<noteq> Some ''0''
                then u3\<lparr>u_account := account\<rparr> else u3)
      in if away \<noteq> 255 then u4\<lparr>u_away := bit away 0\<rparr> else u4)"

definition userlist_add_hostname ::
    "bool \<Rightarrow> server \<Rightarrow> ul_state \<Rightarrow> string \<Rightarrow> string option \<Rightarrow> string option \<Rightarrow> string option \<Rightarrow>
     string option \<Rightarrow> uint \<Rightarrow> ul_state \<times> bool" where
  "userlist_add_hostname ulist_show_hosts serv st nick hostname realname servername account away =
     (case userlist_find serv st nick of
        None \<Rightarrow> (st, False)
      | Some a \<Rightarrow>
          let (m, sess) = st; u = user_at m a;
              do_rehash = ((hostname \<noteq> None \<and> u_hostname u \<noteq> hostname \<and> ulist_show_hosts) \<or>
                           (away \<noteq> 255 \<and> (of_bool (u_away u) :: uint) \<noteq> away));
              m1 = emit (Fe_userlist_update a)
                     (set_user a (add_hostname_fields hostname realname servername account away u) m)
          in (((if do_rehash then emit (Fe_userlist_rehash a) m1 else m1), sess), True))"

subsection \<open>Clearing\<close>

definition userlist_free :: "ul_state \<Rightarrow> ul_state" where
  "userlist_free st =
     (let (m, sess) = st;
          m1 = tree_foreach (\<lambda>a m. (free_user a m, True)) (usertree sess) m
      in (m1, sess\<lparr>usertree := None, me := None, ops := 0, hops := 0, voices := 0, total := 0\<rparr>))"

definition userlist_clear :: "ul_state \<Rightarrow> ul_state" where
  "userlist_clear st =
     (let (m, sess) = st; (m1, sess1) = userlist_free (emit Fe_userlist_clear m, sess)
      in (emit Fe_userlist_numbers m1, sess1))"

subsection \<open>Modes and counts\<close>

definition update_counts :: "ul_state \<Rightarrow> addr \<Rightarrow> char \<Rightarrow> bool \<Rightarrow> int \<Rightarrow> ul_state" where
  "update_counts st a prefix level offset =
     (let (m, sess) = st; u = user_at m a in
      if prefix = CHR ''@'' then
        (set_user a (u\<lparr>u_op := level\<rparr>) m, sess\<lparr>ops := ops sess + offset\<rparr>)
      else if prefix = CHR ''%'' then
        (set_user a (u\<lparr>u_hop := level\<rparr>) m, sess\<lparr>hops := hops sess + offset\<rparr>)
      else if prefix = CHR ''+'' then
        (set_user a (u\<lparr>u_voice := level\<rparr>) m, sess\<lparr>voices := voices sess + offset\<rparr>)
      else st)"

definition userlist_update_mode ::
    "server \<Rightarrow> ul_state \<Rightarrow> string \<Rightarrow> char \<Rightarrow> char \<Rightarrow> ul_state option" where
  "userlist_update_mode serv st name mode sign =
     (case userlist_find serv st name of
        None \<Rightarrow> Some st
      | Some a \<Rightarrow>
          (case ul_tree_remove serv st a of
             None \<Rightarrow> None
           | Some (m, sess) \<Rightarrow>
               let m = emit (Fe_userlist_remove a) m in
               (case mode_access serv mode of
                  None \<Rightarrow> None
                | Some (acc, prefix) \<Rightarrow>
                    if acc < 0 then None
                    else
                      let u = user_at m a; bm = push_bit (nat acc) 1;
                          was = (u_access u AND bm \<noteq> 0);
                          level = (sign = CHR ''+'');
                          offset = (if level then (if was then 0 else 1)
                                    else (if was then -1 else 0));
                          access' = (if level then u_access u OR bm else u_access u AND NOT bm);
                          u' = u\<lparr>u_access := access', u_prefix := get_nick_prefix serv access'\<rparr>;
                          st1 = update_counts (set_user a u' m, sess) a prefix level offset
                      in map_option
                           (\<lambda>(m, sess). (emit Fe_userlist_numbers (emit (Fe_userlist_insert a) m), sess))
                           (ul_tree_insert serv st1 a))))"

definition userlist_change ::
    "server \<Rightarrow> ul_state \<Rightarrow> string \<Rightarrow> string \<Rightarrow> (ul_state \<times> bool) option" where
  "userlist_change serv st oldname newname =
     (case userlist_find serv st oldname of
        None \<Rightarrow> Some (st, False)
      | Some a \<Rightarrow>
          (case ul_tree_remove serv st a of
             None \<Rightarrow> None
           | Some (m, sess) \<Rightarrow>
               (case safe_strcpy newname NICKLEN of
                  None \<Rightarrow> None
                | Some nick \<Rightarrow>
                    let m1 = emit (Fe_userlist_remove a) m;
                        m2 = set_user a ((user_at m1 a)\<lparr>u_nick := nick\<rparr>) m1
                    in map_option (\<lambda>(m, sess). ((emit (Fe_userlist_insert a) m, sess), True))
                         (ul_tree_insert serv (m2, sess) a))))"

definition userlist_remove_user :: "server \<Rightarrow> ul_state \<Rightarrow> addr \<Rightarrow> ul_state option" where
  "userlist_remove_user serv st a =
     (let (m, sess) = st; u = user_at m a;
          sess1 = sess\<lparr>voices := voices sess - (if u_voice u then 1 else 0),
                       ops := ops sess - (if u_op u then 1 else 0),
                       hops := hops sess - (if u_hop u then 1 else 0),
                       total := total sess - 1\<rparr>;
          m1 = emit (Fe_userlist_remove a) (emit Fe_userlist_numbers m);
          sess2 = (if me sess1 = Some a then sess1\<lparr>me := None\<rparr> else sess1)
      in map_option (\<lambda>(m, sess). (free_user a m, sess)) (ul_tree_remove serv (m1, sess2) a))"

definition userlist_remove :: "server \<Rightarrow> ul_state \<Rightarrow> string \<Rightarrow> (ul_state \<times> bool) option" where
  "userlist_remove serv st name =
     (case userlist_find serv st name of
        None \<Rightarrow> Some (st, False)
      | Some a \<Rightarrow> map_option (\<lambda>st'. (st', True)) (userlist_remove_user serv st a))"

fun count_prefixes :: "addr \<Rightarrow> string \<Rightarrow> ul_state \<Rightarrow> ul_state" where
  "count_prefixes a [] st = st"
| "count_prefixes a (c # cs) st = count_prefixes a cs (update_counts st a c True 1)"

text \<open>The user \<open>userlist_add\<close> fills in, before its prefixes are counted.\<close>

definition nonempty :: "string option \<Rightarrow> bool" where
  "nonempty s = (case s of Some (c # cs) \<Rightarrow> True | _ \<Rightarrow> False)"

definition added_user ::
    "server \<Rightarrow> uint \<Rightarrow> nat \<Rightarrow> string \<Rightarrow> string \<Rightarrow> string option \<Rightarrow> string option \<Rightarrow> string option \<Rightarrow> user" where
  "added_user serv acc prefix_chars name nick hostname account realname = new_user
     \<lparr>u_access := acc,
      u_prefix := (if prefix_chars > 0 then cur name else NUL),
      u_hostname := hostname,
      u_nick := nick,
      u_me := (p_cmp serv nick (serv_nick serv) = 0),
      u_account := (if have_extjoin serv \<and> nonempty account then account else None),
      u_realname := (if have_extjoin serv \<and> nonempty realname then realname else None)\<rparr>"

definition userlist_add ::
    "server \<Rightarrow> ul_state \<Rightarrow> string \<Rightarrow> string option \<Rightarrow> string option \<Rightarrow> string option \<Rightarrow> ul_state option" where
  "userlist_add serv st name hostname account realname =
     (let (m, sess) = st; (acc, prefix_chars) = nick_access serv name;
          m = emit (Notify_set_online (drop prefix_chars name)) m in
      case safe_strcpy (drop prefix_chars name) NICKLEN of
        None \<Rightarrow> None
      | Some nick \<Rightarrow>
          let u = added_user serv acc prefix_chars name nick hostname account realname;
              (a, m) = alloc_user u m
          in case userlist_insertname serv (m, sess) a of
               None \<Rightarrow> None
             | Some ((m, sess), row) \<Rightarrow>
                 if row = -1 then Some (free_user a m, sess)
                 else
                   let sess = sess\<lparr>total := total sess + 1\<rparr>;
                       (m, sess) = count_prefixes a (take prefix_chars name) (m, sess);
                       sess = (if u_me u then sess\<lparr>me := Some a\<rparr> else sess);
                       m = emit (Fe_userlist_insert a) m
                   in Some ((if end_of_names sess then emit Fe_userlist_numbers m else m), sess))"

subsection \<open>Traversals\<close>

definition userlist_rehash :: "ul_state \<Rightarrow> ul_state" where
  "userlist_rehash st =
     (let (m, sess) = st
      in (tree_foreach (\<lambda>a m. (emit (Fe_userlist_rehash a) m, True)) (usertree sess) m, sess))"

definition userlist_flat_list :: "session \<Rightarrow> addr list" where
  "userlist_flat_list sess = rev (tree_foreach (\<lambda>a l. (a # l, True)) (usertree sess) [])"

definition userlist_double_list :: "session \<Rightarrow> addr list" where
  "userlist_double_list sess = tree_foreach (\<lambda>a l. (a # l, True)) (usertree sess) []"

end
