(* ===== verification/Modes.thy ===== *)
theory Modes
  imports UserList
begin

text \<open>
  The rest of \<open>src/common/modes.c\<close>: sending MODE lines, the recorded mode string of a
  channel, and the handling of a MODE (or 324) line from the server.

  The array \<open>word[]\<close> of the parser is a function from indices; \<open>handle_mode_args\<close> below
  stays under \<open>PDIWORDS\<close>. All lines go to one server; \<open>w_sessions\<close> is \<open>sess_list\<close>, the
  front session an index into it.
\<close>

subsection \<open>Sending modes\<close>

text \<open>How many of the nicks fit on a line: the first loop of \<open>send_channel_modes\<close>.\<close>

fun usable_modes :: "int \<Rightarrow> nat \<Rightarrow> int \<Rightarrow> string list \<Rightarrow> nat" where
  "usable_modes limit 0 len nicks = 0"
| "usable_modes limit (Suc n) len [] = 0"
| "usable_modes limit (Suc n) len (w # ws) =
     (let wlen = int (length w) + 1 in
      if wlen + len > limit then 0 else Suc (usable_modes limit n (len + wlen) ws))"

definition mode_line :: "char \<Rightarrow> char \<Rightarrow> string list \<Rightarrow> string" where
  "mode_line sign mode nicks =
     sign # replicate (length nicks) mode @ concat (map (\<lambda>w. CHR '' '' # w) nicks)"

lemma usable_modes_le: "usable_modes limit n len nicks \<le> length nicks"
  by (induction limit n len nicks rule: usable_modes.induct) (auto simp: Let_def)

text \<open>The strings handed to \<open>serv->p_mode\<close>, for the nicks \<open>word[wpos], ..., word[end - 1]\<close>.\<close>

function send_modes_loop :: "int \<Rightarrow> nat \<Rightarrow> char \<Rightarrow> char \<Rightarrow> string list \<Rightarrow> string list" where
  "send_modes_loop limit mpl sign mode nicks =
     (if nicks = [] then []
      else
        let n = usable_modes limit mpl (int mpl) nicks in
        if n < 1 then []
        else mode_line sign mode (take n nicks) # send_modes_loop limit mpl sign mode (drop n nicks))"
  by pat_completeness auto
termination
  by (relation "measure (\<lambda>(limit, mpl, sign, mode, nicks). length nicks)")
    (auto simp: usable_modes_le)

declare send_modes_loop.simps [simp del]

definition send_channel_modes ::
    "server \<Rightarrow> string \<Rightarrow> string list \<Rightarrow> char \<Rightarrow> char \<Rightarrow> int \<Rightarrow> server \<times> string list" where
  "send_channel_modes serv chan nicks sign mode mpl =
     (let serv = (if modes_per_line serv < 1 then serv\<lparr>modes_per_line := 3\<rparr> else serv);
          mpl = (if mpl < 1 then modes_per_line serv else mpl)
      in (serv, send_modes_loop (503 - int (length chan)) (nat mpl) sign mode nicks))"

text \<open>\<open>serv->p_mode (serv, chan, modes)\<close>, which is \<open>irc_mode\<close>: the bytes on the wire.\<close>

definition irc_mode :: "string \<Rightarrow> string \<Rightarrow> string" where
  "irc_mode target mode = ''MODE '' @ target @ '' '' @ mode @ [CHR 0x0D, CHR 0x0A]"

subsection \<open>The mode string of a channel\<close>

text \<open>GLib's string edits, which leave the string alone when the position is outside it.\<close>

definition g_string_erase :: "string \<Rightarrow> nat \<Rightarrow> nat \<Rightarrow> string" where
  "g_string_erase s pos len =
     (if pos + len \<le> length s then take pos s @ drop (pos + len) s else s)"

definition g_string_insert :: "string \<Rightarrow> nat \<Rightarrow> string \<Rightarrow> string" where
  "g_string_insert s pos t = (if pos \<le> length s then take pos s @ t @ drop pos s else s)"

text \<open>
  The second loop of \<open>record_chan_mode\<close>: from the end of the mode letters to the
  \<open>num\<close>-th space; \<open>pos\<close> is the offset, the flag says whether that many were found.
\<close>

fun arg_start :: "string \<Rightarrow> nat \<Rightarrow> nat \<Rightarrow> nat \<times> bool" where
  "arg_start [] num pos = (pos, num = 0)"
| "arg_start (c # s) num pos =
     (if num = 0 then (pos, True)
      else if c = CHR '' '' then (if num = 1 then (pos, True) else arg_start s (num - 1) (pos + 1))
      else arg_start s num (pos + 1))"

text \<open>The string \<open>sess->current_modes\<close> is left with.\<close>

definition record_mode_string :: "server \<Rightarrow> string \<Rightarrow> char \<Rightarrow> char \<Rightarrow> string \<Rightarrow> string" where
  "record_mode_string serv current sign mode arg =
     (let letters = takeWhile (\<lambda>c. c \<noteq> CHR '' '') current;
          modes_length = length letters;
          mode_pos = index_of mode letters;
          argument_num = (case mode_pos of
              Some p \<Rightarrow> length (filter (mode_has_arg serv (CHR ''+'')) (take (p + 1) letters))
            | None \<Rightarrow> 0);
          (argument_offset, found) =
            (if mode_pos \<noteq> None \<and> mode_has_arg serv (CHR ''+'') mode
             then arg_start (drop modes_length current) argument_num modes_length else (0, False));
          argument_length =
            (if found then Suc (length (takeWhile (\<lambda>c. c \<noteq> CHR '' '') (drop (argument_offset + 1) current)))
             else 0)
      in
      if sign = CHR ''+'' then
        (case mode_pos of
           Some p \<Rightarrow>
             if mode_has_arg serv sign mode then
               let current = (if argument_length = 0 then current
                              else g_string_erase current (argument_offset + 1) (argument_length - 1))
               in g_string_insert current (argument_offset + 1) arg
             else current
         | None \<Rightarrow>
             let current = take modes_length current @ mode # drop modes_length current
             in if mode_has_arg serv sign mode then current @ CHR '' '' # arg else current)
      else
        (case mode_pos of
           Some p \<Rightarrow>
             if sign = CHR ''-'' then
               let current = (if mode_has_arg serv (CHR ''+'') mode
                              then g_string_erase current argument_offset argument_length else current)
               in g_string_erase current p 1
             else current
         | None \<Rightarrow> current))"

definition record_chan_mode :: "server \<Rightarrow> session \<Rightarrow> char \<Rightarrow> char \<Rightarrow> string \<Rightarrow> session" where
  "record_chan_mode serv sess sign mode arg =
     sess\<lparr>current_modes := record_mode_string serv (current_modes sess) sign mode arg\<rparr>"

subsection \<open>Grouped op and voice messages\<close>

record mode_run =
  mr_op :: "string option"
  mr_deop :: "string option"
  mr_voice :: "string option"
  mr_devoice :: "string option"

definition no_modes :: mode_run where
  "no_modes = \<lparr>mr_op = None, mr_deop = None, mr_voice = None, mr_devoice = None\<rparr>"

definition mode_cat :: "string option \<Rightarrow> string \<Rightarrow> string option" where
  "mode_cat str addition =
     (case str of Some s \<Rightarrow> Some (s @ CHR '' '' # addition) | None \<Rightarrow> Some addition)"

definition emit_group :: "string \<Rightarrow> string \<Rightarrow> string option \<Rightarrow> mem \<Rightarrow> mem" where
  "emit_group ev nick grp m = (case grp of None \<Rightarrow> m | Some s \<Rightarrow> emit (Emit ev [nick, s]) m)"

definition mode_print_grouped :: "string \<Rightarrow> mode_run \<Rightarrow> mem \<Rightarrow> mem \<times> mode_run" where
  "mode_print_grouped nick mr m =
     (let m = emit_group ''CHANOP'' nick (mr_op mr) m;
          m = emit_group ''CHANDEOP'' nick (mr_deop mr) m;
          m = emit_group ''CHANVOICE'' nick (mr_voice mr) m;
          m = emit_group ''CHANDEVOICE'' nick (mr_devoice mr) m
      in (m, no_modes))"

subsection \<open>The world a line from a server acts on\<close>

text \<open>
  One server with the list of all sessions, in the order of \<open>sess_list\<close>; a pointer to a
  session is its index. \<open>w_front\<close>, \<open>w_server_sess\<close> and \<open>w_current\<close> are \<open>front_session\<close> and
  \<open>server_session\<close> of the server and the global \<open>current_sess\<close>; \<open>w_away\<close> is
  \<open>away_list\<close>, the away messages seen, by server and nick.
\<close>

record world =
  w_mem :: mem
  w_serv :: server
  w_sessions :: "session list"
  w_front :: nat
  w_server_sess :: nat
  w_current :: nat
  w_away :: "(addr \<times> string \<times> string) list"

fun find_channel_from :: "server \<Rightarrow> session list \<Rightarrow> string \<Rightarrow> nat \<Rightarrow> nat option" where
  "find_channel_from serv [] chan i = None"
| "find_channel_from serv (sess # rest) chan i =
     (if serv_addr serv = sess_server sess \<and> sess_type sess = SESS_CHANNEL \<and>
         p_cmp serv chan (channel sess) = 0
      then Some i else find_channel_from serv rest chan (i + 1))"

definition find_channel :: "world \<Rightarrow> string \<Rightarrow> nat option" where
  "find_channel w chan = find_channel_from (w_serv w) (w_sessions w) chan 0"

definition w_emit :: "call \<Rightarrow> world \<Rightarrow> world" where
  "w_emit c w = w\<lparr>w_mem := emit c (w_mem w)\<rparr>"

definition put_session :: "nat \<Rightarrow> session \<Rightarrow> world \<Rightarrow> world" where
  "put_session i sess w = w\<lparr>w_sessions := (w_sessions w)[i := sess]\<rparr>"

subsection \<open>One mode\<close>

definition supports_quiet :: "server \<Rightarrow> bool" where
  "supports_quiet serv \<longleftrightarrow> CHR ''q'' \<in> set (takeWhile (\<lambda>c. c \<noteq> CHR '','') (chanmodes serv))"

definition unless_quiet :: "bool \<Rightarrow> string \<Rightarrow> string list \<Rightarrow> world \<Rightarrow> world" where
  "unless_quiet quiet ev args w = (if quiet then w else w_emit (Emit ev args) w)"

text \<open>The two inner switches; the flag tells a \<open>return\<close> from a \<open>break\<close>.\<close>

definition set_mode_case ::
    "nat \<Rightarrow> char \<Rightarrow> string \<Rightarrow> string \<Rightarrow> bool \<Rightarrow> world \<Rightarrow> mode_run \<Rightarrow> (world \<times> mode_run \<times> bool) option" where
  "set_mode_case i mode nick arg quiet w mr =
     (let sess = w_sessions w ! i in
      if mode = CHR ''k'' then
        map_option (\<lambda>key.
            (unless_quiet quiet ''CHANSETKEY'' [nick, arg]
               (w_emit (Fe_update_mode_buttons mode (CHR ''+'')) (w_emit (Fe_update_channel_key key)
                  (put_session i (sess\<lparr>channelkey := key\<rparr>) w))), mr, True))
          (safe_strcpy arg 64)
      else if mode = CHR ''l'' then
        Some (unless_quiet quiet ''CHANSETLIMIT'' [nick, arg]
                (w_emit (Fe_update_mode_buttons mode (CHR ''+'')) (w_emit (Fe_update_channel_limit (atoi arg))
                   (put_session i (sess\<lparr>chan_limit := atoi arg\<rparr>) w))), mr, True)
      else if mode = CHR ''o'' then
        Some (w, if quiet then mr else mr\<lparr>mr_op := mode_cat (mr_op mr) arg\<rparr>, True)
      else if mode = CHR ''h'' then Some (unless_quiet quiet ''CHANHOP'' [nick, arg] w, mr, True)
      else if mode = CHR ''v'' then
        Some (w, if quiet then mr else mr\<lparr>mr_voice := mode_cat (mr_voice mr) arg\<rparr>, True)
      else if mode = CHR ''b'' then Some (unless_quiet quiet ''CHANBAN'' [nick, arg] w, mr, True)
      else if mode = CHR ''e'' then Some (unless_quiet quiet ''CHANEXEMPT'' [nick, arg] w, mr, True)
      else if mode = CHR ''I'' then Some (unless_quiet quiet ''CHANINVITE'' [nick, arg] w, mr, True)
      else if mode = CHR ''q'' \<and> supports_quiet (w_serv w) then
        Some (unless_quiet quiet ''CHANQUIET'' [nick, arg] w, mr, True)
      else Some (w, mr, False))"

definition unset_mode_case ::
    "nat \<Rightarrow> char \<Rightarrow> string \<Rightarrow> string \<Rightarrow> bool \<Rightarrow> world \<Rightarrow> mode_run \<Rightarrow> world \<times> mode_run \<times> bool" where
  "unset_mode_case i mode nick arg quiet w mr =
     (let sess = w_sessions w ! i in
      if mode = CHR ''k'' then
        (unless_quiet quiet ''CHANRMKEY'' [nick]
           (w_emit (Fe_update_mode_buttons mode (CHR ''-'')) (w_emit (Fe_update_channel_key [])
              (put_session i (sess\<lparr>channelkey := []\<rparr>) w))), mr, True)
      else if mode = CHR ''l'' then
        (unless_quiet quiet ''CHANRMLIMIT'' [nick]
           (w_emit (Fe_update_mode_buttons mode (CHR ''-'')) (w_emit (Fe_update_channel_limit 0)
              (put_session i (sess\<lparr>chan_limit := 0\<rparr>) w))), mr, True)
      else if mode = CHR ''o'' then
        (w, if quiet then mr else mr\<lparr>mr_deop := mode_cat (mr_deop mr) arg\<rparr>, True)
      else if mode = CHR ''h'' then (unless_quiet quiet ''CHANDEHOP'' [nick, arg] w, mr, True)
      else if mode = CHR ''v'' then
        (w, if quiet then mr else mr\<lparr>mr_devoice := mode_cat (mr_devoice mr) arg\<rparr>, True)
      else if mode = CHR ''b'' then (unless_quiet quiet ''CHANUNBAN'' [nick, arg] w, mr, True)
      else if mode = CHR ''e'' then (unless_quiet quiet ''CHANRMEXEMPT'' [nick, arg] w, mr, True)
      else if mode = CHR ''I'' then (unless_quiet quiet ''CHANRMINVITE'' [nick, arg] w, mr, True)
      else if mode = CHR ''q'' \<and> supports_quiet (w_serv w) then
        (unless_quiet quiet ''CHANUNQUIET'' [nick, arg] w, mr, True)
      else (w, mr, False))"

text \<open>The code behind the label \<open>genmode\<close>.\<close>

definition genmode :: "char \<Rightarrow> char \<Rightarrow> string \<Rightarrow> string \<Rightarrow> string \<Rightarrow> bool \<Rightarrow> world \<Rightarrow> world" where
  "genmode sign mode nick chan arg quiet w =
     (let w = (if mode = CHR ''e'' \<and> sign = CHR ''+'' \<and> p_cmp (w_serv w) chan (serv_nick (w_serv w)) = 0
               then w_emit Inbound_identified w else w)
      in unless_quiet quiet ''CHANMODEGEN''
           [nick, [sign], [mode], if arg \<noteq> [] then chan @ '' '' @ arg else chan] w)"

definition handle_single_mode ::
    "char \<Rightarrow> char \<Rightarrow> string \<Rightarrow> string \<Rightarrow> string \<Rightarrow> bool \<Rightarrow> bool \<Rightarrow> world \<Rightarrow> mode_run \<Rightarrow>
     (world \<times> mode_run) option" where
  "handle_single_mode sign mode nick chan arg quiet is_324 w mr =
     (case find_channel w chan of
        None \<Rightarrow> Some (genmode sign mode nick chan arg quiet w, mr)
      | Some i \<Rightarrow>
          if \<not> is_channel (w_serv w) chan then Some (genmode sign mode nick chan arg quiet w, mr)
          else
            let serv = w_serv w; sess = w_sessions w ! i;
                updated =
                  (if strchr (nick_modes serv) mode \<noteq> None
                   then userlist_update_mode serv (w_mem w, sess) arg mode sign
                   else Some (w_mem w,
                     if \<not> is_324 \<and> \<not> ignore_mode sess \<and> mode_chanmode_type serv mode \<ge> 1
                     then record_chan_mode serv sess sign mode arg else sess))
            in case updated of
                 None \<Rightarrow> None
               | Some (m, sess) \<Rightarrow>
                   let w = put_session i sess (w\<lparr>w_mem := m\<rparr>) in
                   (case (if sign = CHR ''+'' then set_mode_case i mode nick arg quiet w mr
                          else if sign = CHR ''-'' then Some (unset_mode_case i mode nick arg quiet w mr)
                          else Some (w, mr, False)) of
                      None \<Rightarrow> None
                    | Some (w, mr, returned) \<Rightarrow>
                        if returned then Some (w, mr)
                        else Some (genmode sign mode nick chan arg quiet
                                     (w_emit (Fe_update_mode_buttons mode sign) w), mr)))"

subsection \<open>A MODE line\<close>

text \<open>\<open>STRIP_COLON\<close> of \<open>proto-irc.h\<close>.\<close>

definition STRIP_COLON :: "(nat \<Rightarrow> string) \<Rightarrow> (nat \<Rightarrow> string) \<Rightarrow> nat \<Rightarrow> string" where
  "STRIP_COLON word word_eol idx =
     (if cur (word idx) = CHR '':'' then drop 1 (word_eol idx) else word idx)"

text \<open>
  The trailing space of the line is overwritten by 0: \<open>word_eol[k]\<close> are the suffixes of one
  buffer, so every non-empty one loses its last character.
\<close>

definition trim_eol :: "nat \<Rightarrow> (nat \<Rightarrow> string) \<Rightarrow> nat \<Rightarrow> string" where
  "trim_eol offset word_eol =
     (if word_eol offset \<noteq> [] \<and> last (word_eol offset) = CHR '' ''
      then (\<lambda>k. butlast (word_eol k)) else word_eol)"

text \<open>The number of arguments behind the mode letters.\<close>

function count_mode_args :: "(nat \<Rightarrow> string) \<Rightarrow> nat \<Rightarrow> nat \<Rightarrow> nat \<Rightarrow> nat" where
  "count_mode_args word offset i num_args =
     (if i + offset + 1 < PDIWORDS then
        let i = i + 1 in
        if word (i + offset) = [] then num_args
        else if cur (word (i + offset)) = CHR '':'' then num_args + 1
        else count_mode_args word offset i (num_args + 1)
      else num_args)"
  by pat_completeness auto
termination
  by (relation "measure (\<lambda>(word, offset, i, n). PDIWORDS - (i + offset))") auto

declare count_mode_args.simps [simp del]

record mode_args =
  ma_word :: "nat \<Rightarrow> string"
  ma_word_eol :: "nat \<Rightarrow> string"
  ma_offset :: nat
  ma_num_args :: nat
  ma_all :: bool
  ma_nick :: string
  ma_chan :: string
  ma_quiet :: bool
  ma_is_324 :: bool

text \<open>The loop over the mode letters: \<open>arg\<close> is the index of the last argument used.\<close>

fun mode_loop ::
    "mode_args \<Rightarrow> string \<Rightarrow> char \<Rightarrow> nat \<Rightarrow> world \<Rightarrow> mode_run \<Rightarrow> (world \<times> mode_run) option" where
  "mode_loop ma [] sign arg w mr = Some (w, mr)"
| "mode_loop ma (c # modes) sign arg w mr =
     (if c = CHR ''-'' \<or> c = CHR ''+'' then
        let (m, mr) = mode_print_grouped (ma_nick ma) mr (w_mem w)
        in mode_loop ma modes c arg (w\<lparr>w_mem := m\<rparr>) mr
      else
        let takes = ((ma_all ma \<or> mode_has_arg (w_serv w) sign c) \<and> arg < ma_num_args ma + 1);
            arg = (if takes then arg + 1 else arg);
            argstr = (if takes then STRIP_COLON (ma_word ma) (ma_word_eol ma) (arg + ma_offset ma) else [])
        in case handle_single_mode sign c (ma_nick ma) (ma_chan ma) argstr (ma_quiet ma) (ma_is_324 ma) w mr of
             None \<Rightarrow> None
           | Some (w, mr) \<Rightarrow> mode_loop ma modes sign arg w mr)"

definition handle_mode ::
    "bool \<Rightarrow> world \<Rightarrow> (nat \<Rightarrow> string) \<Rightarrow> (nat \<Rightarrow> string) \<Rightarrow> string \<Rightarrow> bool \<Rightarrow> world option" where
  "handle_mode raw_modes w word word_eol nick numeric_324 =
     (let offset = (if numeric_324 then 4 else 3);
          chan = word offset;
          modes = (if cur (word (offset + 1)) = CHR '':'' then drop 1 (word (offset + 1)) else word (offset + 1))
      in
      case modes of
        [] \<Rightarrow> Some w
      | sign # modes \<Rightarrow>
          let found = find_channel w chan; using_front_tab = (found = None);
              word_eol = trim_eol offset word_eol;
              w = (if raw_modes \<and> \<not> numeric_324 then w_emit (Emit ''RAWMODES'' [nick, word_eol offset]) w else w);
              w = (case found of
                     Some i \<Rightarrow> if numeric_324
                       then put_session i ((w_sessions w ! i)\<lparr>current_modes := word_eol (offset + 1)\<rparr>) w else w
                   | None \<Rightarrow> w);
              num_args = count_mode_args word offset 1 0;
              num_modes = length (filter (\<lambda>c. c \<noteq> CHR ''+'' \<and> c \<noteq> CHR ''-'') modes);
              ma = \<lparr>ma_word = word, ma_word_eol = word_eol, ma_offset = offset, ma_num_args = num_args,
                    ma_all = (num_args = num_modes), ma_nick = nick, ma_chan = chan,
                    ma_quiet = (numeric_324 \<or> raw_modes), ma_is_324 = numeric_324\<rparr>
          in case mode_loop ma modes sign 1 w no_modes of
               None \<Rightarrow> None
             | Some (w, mr) \<Rightarrow>
                 let w = (if using_front_tab then w else w_emit Fe_set_title w)
                 in Some (w\<lparr>w_mem := fst (mode_print_grouped nick mr (w_mem w))\<rparr>))"

end
