(* ===== verification/UserListProofs.thy ===== *)
theory UserListProofs
  imports UserList
begin

text \<open>
  The invariant of a session's user list and its preservation by every operation of
  \<open>UserList\<close>: the array is sorted and free of duplicates, every pointer in it is live, the
  flags agree with the access bits, and the four counters are what the array says.
\<close>

definition sess_elems :: "session \<Rightarrow> addr list" where
  "sess_elems sess = (case usertree sess of None \<Rightarrow> [] | Some t \<Rightarrow> elems t)"

definition has_bit :: "server \<Rightarrow> uint \<Rightarrow> char \<Rightarrow> bool" where
  "has_bit serv acc c = (case index_of c (nick_prefixes serv) of None \<Rightarrow> False | Some p \<Rightarrow> bit acc p)"

definition flags_ok :: "server \<Rightarrow> user \<Rightarrow> bool" where
  "flags_ok serv u \<longleftrightarrow>
     u_op u = has_bit serv (u_access u) (CHR ''@'') \<and>
     u_hop u = has_bit serv (u_access u) (CHR ''%'') \<and>
     u_voice u = has_bit serv (u_access u) (CHR ''+'')"

definition cnt :: "(user \<Rightarrow> bool) \<Rightarrow> mem \<Rightarrow> addr list \<Rightarrow> int" where
  "cnt P m xs = int (length (filter (\<lambda>a. P (user_at m a)) xs))"

text \<open>The array part: shape, order, live pointers.\<close>

definition arr_inv :: "server \<Rightarrow> mem \<Rightarrow> addr list \<Rightarrow> bool" where
  "arr_inv serv m xs \<longleftrightarrow>
     keys_asc (p_cmp serv) (name_ok serv) (nick_at m) xs \<and>
     (\<forall>a \<in> set xs. heap m a \<noteq> None \<and> flags_ok serv (user_at m a)) \<and>
     (\<forall>a \<ge> next_addr m. heap m a = None)"

definition counts_ok :: "mem \<Rightarrow> session \<Rightarrow> addr list \<Rightarrow> bool" where
  "counts_ok m sess xs \<longleftrightarrow>
     total sess = int (length xs) \<and> ops sess = cnt u_op m xs \<and>
     hops sess = cnt u_hop m xs \<and> voices sess = cnt u_voice m xs"

definition ul_inv :: "server \<Rightarrow> ul_state \<Rightarrow> bool" where
  "ul_inv serv st \<longleftrightarrow>
     (let (m, sess) = st in
      (\<forall>t. usertree sess = Some t \<longrightarrow> tree_wf t) \<and>
      arr_inv serv m (sess_elems sess) \<and> counts_ok m sess (sess_elems sess) \<and>
      (\<forall>a. me sess = Some a \<longrightarrow> a \<in> set (sess_elems sess)))"

lemma find_cmp_eq: "find_cmp serv m = (\<lambda>k a. p_cmp serv k (nick_at m a))"
  by (intro ext) (simp add: find_cmp_def)

lemma nick_cmp_alpha_eq: "nick_cmp_alpha serv m = (\<lambda>a b. p_cmp serv (nick_at m a) (nick_at m b))"
  by (intro ext) (simp add: nick_cmp_alpha_def)

lemma nick_at_simps [simp]:
  "nick_at (emit c m) a = nick_at m a"
  "nick_at (set_user a u m) b = (if a = b then u_nick u else nick_at m b)"
  by (simp_all add: nick_at_def)

lemma nick_at_emit [simp]: "nick_at (emit c m) = nick_at m"
  by (intro ext) simp

lemma cnt_emit [simp]: "cnt P (emit c m) xs = cnt P m xs"
  by (simp add: cnt_def)

lemma cnt_cong: "(\<And>a. a \<in> set xs \<Longrightarrow> P (user_at m a) = P (user_at m' a)) \<Longrightarrow> cnt P m xs = cnt P m' xs"
  unfolding cnt_def by (metis (mono_tags, lifting) filter_cong)

lemma cnt_insert:
  "cnt P m (take q xs @ a # drop q xs) = cnt P m xs + of_bool (P (user_at m a))"
proof -
  have "filter (\<lambda>a. P (user_at m a)) xs =
      filter (\<lambda>a. P (user_at m a)) (take q xs) @ filter (\<lambda>a. P (user_at m a)) (drop q xs)"
    by (metis append_take_drop_id filter_append)
  then show ?thesis by (simp add: cnt_def)
qed

lemma cnt_remove1:
  assumes "a \<in> set xs"
  shows "cnt P m (remove1 a xs) = cnt P m xs - of_bool (P (user_at m a))"
proof (cases "P (user_at m a)")
  case True
  have "filter (\<lambda>a. P (user_at m a)) xs \<noteq> []"
    using assms True by (auto simp: filter_empty_conv)
  then obtain k where "length (filter (\<lambda>a. P (user_at m a)) xs) = Suc k"
    by (metis length_0_conv not0_implies_Suc)
  with length_filter_remove1 [OF assms, of "\<lambda>a. P (user_at m a)"] True show ?thesis
    by (simp add: cnt_def)
next
  case False
  with length_filter_remove1 [OF assms, of "\<lambda>a. P (user_at m a)"] show ?thesis
    by (simp add: cnt_def)
qed

lemma arr_inv_emit [simp]: "arr_inv serv (emit c m) xs = arr_inv serv m xs"
  by (simp add: arr_inv_def)

lemma counts_ok_emit [simp]: "counts_ok (emit c m) sess xs = counts_ok m sess xs"
  by (simp add: counts_ok_def)

lemma ul_inv_emit [simp]: "ul_inv serv (emit c m, sess) = ul_inv serv (m, sess)"
  by (simp add: ul_inv_def)

text \<open>An update that keeps the nick and the mode flags of a user.\<close>

definition same_modes :: "user \<Rightarrow> user \<Rightarrow> bool" where
  "same_modes u v \<longleftrightarrow> u_nick u = u_nick v \<and> u_access u = u_access v \<and> u_op u = u_op v \<and>
     u_hop u = u_hop v \<and> u_voice u = u_voice v"

lemma ul_inv_set_user:
  assumes inv: "ul_inv serv (m, sess)" and a: "a \<in> set (sess_elems sess)"
    and same: "same_modes u (user_at m a)"
  shows "ul_inv serv (set_user a u m, sess)"
proof -
  have nick: "nick_at (set_user a u m) = nick_at m"
    using same by (intro ext) (simp add: same_modes_def nick_at_def)
  have cnts: "cnt P (set_user a u m) xs = cnt P m xs" if "P u = P (user_at m a)" for P xs
    by (rule cnt_cong) (use that in simp)
  have arr: "arr_inv serv m (sess_elems sess)" and cs: "counts_ok m sess (sess_elems sess)"
    using inv by (simp_all add: ul_inv_def)
  have "heap m a \<noteq> None" using arr a by (simp add: arr_inv_def)
  then have "\<not> next_addr m \<le> a" using arr by (auto simp: arr_inv_def)
  then have "arr_inv serv (set_user a u m) (sess_elems sess)"
    using arr same a by (auto simp: arr_inv_def nick same_modes_def flags_ok_def)
  moreover have "counts_ok (set_user a u m) sess (sess_elems sess)"
    using cs same by (simp add: counts_ok_def cnts same_modes_def)
  ultimately show ?thesis using inv by (simp add: ul_inv_def)
qed

lemma new_session_inv: "\<forall>a \<ge> next_addr m. heap m a = None \<Longrightarrow> ul_inv serv (m, new_session s ty c)"
  by (simp add: ul_inv_def new_session_def sess_elems_def arr_inv_def counts_ok_def cnt_def)

subsection \<open>Lookup\<close>

lemma userlist_find_iff:
  assumes inv: "ul_inv serv (m, sess)" and ok: "name_ok serv name"
  shows "userlist_find serv (m, sess) name = Some a \<longleftrightarrow>
    a \<in> set (sess_elems sess) \<and> p_cmp serv name (nick_at m a) = 0"
proof (cases "usertree sess")
  case None
  then show ?thesis by (simp add: userlist_find_def sess_elems_def)
next
  case (Some t)
  then have t: "tree_wf t" "keys_asc (p_cmp serv) (name_ok serv) (nick_at m) (elems t)"
    using inv by (auto simp: ul_inv_def arr_inv_def sess_elems_def)
  note iff = nick.tree_find_iff [OF t ok]
  have el: "sess_elems sess = elems t" using Some by (simp add: sess_elems_def)
  have find: "userlist_find serv (m, sess) name =
      map_option (\<lambda>pos. elems t ! pos) (tree_find (\<lambda>k a. p_cmp serv k (nick_at m a)) (Some t) name)"
    using Some by (simp add: userlist_find_def find_cmp_eq)
  show ?thesis
  proof
    assume "userlist_find serv (m, sess) name = Some a"
    then obtain i where "tree_find (\<lambda>k a. p_cmp serv k (nick_at m a)) (Some t) name = Some i"
      "elems t ! i = a" unfolding find by blast
    with iff [of i] show "a \<in> set (sess_elems sess) \<and> p_cmp serv name (nick_at m a) = 0"
      unfolding el by auto
  next
    assume "a \<in> set (sess_elems sess) \<and> p_cmp serv name (nick_at m a) = 0"
    then obtain i where "i < length (elems t)" "elems t ! i = a" "p_cmp serv name (nick_at m a) = 0"
      unfolding el in_set_conv_nth by blast
    then show "userlist_find serv (m, sess) name = Some a"
      unfolding find using iff [of i] by simp
  qed
qed

lemma userlist_find_None:
  assumes "ul_inv serv (m, sess)" "name_ok serv name"
  shows "userlist_find serv (m, sess) name = None \<longleftrightarrow>
    (\<forall>a \<in> set (sess_elems sess). p_cmp serv name (nick_at m a) \<noteq> 0)"
  using userlist_find_iff [OF assms] by (metis not_None_eq)

lemma userlist_findD:
  assumes "userlist_find serv (m, sess) name = Some a"
  shows "a \<in> set (sess_elems sess)"
proof -
  from assms obtain t pos where t: "usertree sess = Some t"
      "tree_find (find_cmp serv m) (Some t) name = Some pos" "a = elems t ! pos"
    by (auto simp: userlist_find_def split: option.splits)
  then have "pos < length (elems t)"
    by (auto simp: tree_find_def split: if_splits dest!: mybsearch_found)
  with t show ?thesis by (simp add: sess_elems_def)
qed

subsection \<open>Attributes keep the invariant\<close>

lemma userlist_set_away_inv [inv_intros]:
  assumes "ul_inv serv st" shows "ul_inv serv (userlist_set_away serv st nick away)"
proof (cases st)
  case (Pair m sess)
  with assms show ?thesis
    by (auto simp: userlist_set_away_def Let_def same_modes_def
        intro!: ul_inv_set_user dest: userlist_findD split: option.split)
qed

lemma userlist_set_account_inv [inv_intros]:
  assumes "ul_inv serv st" shows "ul_inv serv (userlist_set_account serv st nick account)"
proof (cases st)
  case (Pair m sess)
  with assms show ?thesis
    by (auto simp: userlist_set_account_def Let_def same_modes_def
        intro!: ul_inv_set_user dest: userlist_findD split: option.split)
qed

lemma add_hostname_same_modes: "same_modes (add_hostname_fields host real srv acct away u) u"
  by (auto simp: add_hostname_fields_def same_modes_def Let_def split: option.split list.split)

lemma userlist_add_hostname_inv [inv_intros]:
  assumes "ul_inv serv st"
  shows "ul_inv serv (fst (userlist_add_hostname show_hosts serv st nick host real srv acct away))"
proof (cases "userlist_find serv st nick")
  case None
  with assms show ?thesis by (simp add: userlist_add_hostname_def)
next
  case (Some a)
  obtain m sess where st: "st = (m, sess)" by (cases st)
  have a: "a \<in> set (sess_elems sess)" using Some unfolding st by (rule userlist_findD)
  show ?thesis
    using Some ul_inv_set_user [OF assms [unfolded st] a add_hostname_same_modes]
    by (simp add: userlist_add_hostname_def st Let_def)
qed

subsection \<open>The array operations under the invariant\<close>

lemma ul_invD:
  assumes "ul_inv serv (m, sess)"
  shows "\<And>t. usertree sess = Some t \<Longrightarrow> tree_wf t"
    and "keys_asc (p_cmp serv) (name_ok serv) (nick_at m) (sess_elems sess)"
    and "\<And>a. a \<in> set (sess_elems sess) \<Longrightarrow> heap m a \<noteq> None \<and> flags_ok serv (user_at m a)"
    and "\<And>a. next_addr m \<le> a \<Longrightarrow> heap m a = None"
    and "counts_ok m sess (sess_elems sess)"
    and "\<And>a. me sess = Some a \<Longrightarrow> a \<in> set (sess_elems sess)"
    and "distinct (sess_elems sess)"
  using assms nick.asc_distinct [of serv "nick_at m" "sess_elems sess"]
  by (auto simp: ul_inv_def arr_inv_def)

lemma ul_tree_remove_elems:
  assumes wf: "\<And>t. usertree sess = Some t \<Longrightarrow> tree_wf t"
    and asc: "keys_asc (p_cmp serv) (name_ok serv) (nick_at m) (sess_elems sess)"
    and a: "a \<in> set (sess_elems sess)"
  shows "\<exists>t. ul_tree_remove serv (m, sess) a = Some (m, sess\<lparr>usertree := Some t\<rparr>) \<and> tree_wf t \<and>
    elems t = remove1 a (sess_elems sess)"
proof -
  obtain t where t: "usertree sess = Some t" "elems t = sess_elems sess"
    using a by (cases "usertree sess") (auto simp: sess_elems_def)
  with nick.tree_remove_sorted [OF wf [OF t(1)], of serv "nick_at m" a] asc a show ?thesis
    by (auto simp: ul_tree_remove_def nick_cmp_alpha_eq)
qed

lemma ul_tree_insert_elems:
  assumes t: "usertree sess = Some t" "tree_wf t"
    and asc: "keys_asc (p_cmp serv) (name_ok serv) (nick_at m) (elems t)"
    and a: "name_ok serv (nick_at m a)" "\<forall>x \<in> set (elems t). p_cmp serv (nick_at m a) (nick_at m x) \<noteq> 0"
  shows "\<exists>t' q. ul_tree_insert serv (m, sess) a = Some (m, sess\<lparr>usertree := Some t'\<rparr>) \<and>
    tree_wf t' \<and> keys_asc (p_cmp serv) (name_ok serv) (nick_at m) (elems t') \<and>
    q \<le> length (elems t) \<and> elems t' = take q (elems t) @ a # drop q (elems t)"
  using nick.tree_insert_sorted [OF t(2) asc a(1)] a(2) t(1)
  by (auto simp: ul_tree_insert_def nick_cmp_alpha_eq)

lemma set_insert_mid [simp]: "set (take q xs @ a # drop q xs) = insert a (set xs)"
proof -
  have "set (take q xs) \<union> set (drop q xs) = set xs"
    by (metis append_take_drop_id set_append)
  then show ?thesis by auto
qed

lemma length_insert_mid: "length (take q xs @ a # drop q xs) = Suc (length xs)"
  by (simp add: min_def)

lemma cnt_heap_cong:
  "(\<And>a. a \<in> set xs \<Longrightarrow> heap m a = heap m' a) \<Longrightarrow> cnt P m xs = cnt P m' xs"
  by (rule cnt_cong) (simp add: user_at_def)

lemma keys_asc_heap_cong:
  "(\<And>a. a \<in> set xs \<Longrightarrow> heap m a = heap m' a) \<Longrightarrow>
   keys_asc cmp ok (nick_at m) xs = keys_asc cmp ok (nick_at m') xs"
  by (rule keys_asc_cong) (simp add: nick_at_def user_at_def)

subsection \<open>Removal\<close>

lemma userlist_remove_user_inv:
  assumes inv: "ul_inv serv (m, sess)" and a: "a \<in> set (sess_elems sess)"
  shows "\<exists>m' sess'. userlist_remove_user serv (m, sess) a = Some (m', sess') \<and>
    ul_inv serv (m', sess') \<and> sess_elems sess' = remove1 a (sess_elems sess) \<and>
    heap m' = (heap m)(a := None)"
proof -
  note D = ul_invD [OF inv]
  let ?xs = "sess_elems sess" and ?u = "user_at m a"
  let ?m = "emit (Fe_userlist_remove a) (emit Fe_userlist_numbers m)"
  define s1 where "s1 = sess\<lparr>voices := voices sess - (if u_voice ?u then 1 else 0),
      ops := ops sess - (if u_op ?u then 1 else 0), hops := hops sess - (if u_hop ?u then 1 else 0),
      total := total sess - 1\<rparr>"
  define s2 where "s2 = (if me s1 = Some a then s1\<lparr>me := None\<rparr> else s1)"
  have s2: "usertree s2 = usertree sess" "total s2 = total sess - 1"
      "ops s2 = ops sess - of_bool (u_op ?u)" "hops s2 = hops sess - of_bool (u_hop ?u)"
      "voices s2 = voices sess - of_bool (u_voice ?u)"
      "me s2 = (if me sess = Some a then None else me sess)"
    by (simp_all add: s2_def s1_def)
  have el: "sess_elems s2 = ?xs" by (simp add: sess_elems_def s2)
  obtain t where t: "ul_tree_remove serv (?m, s2) a = Some (?m, s2\<lparr>usertree := Some t\<rparr>)" "tree_wf t"
      "elems t = remove1 a ?xs"
    using ul_tree_remove_elems [of s2 serv ?m a] D(1,2) a by (auto simp: s2 el)
  let ?m' = "free_user a ?m" and ?s' = "s2\<lparr>usertree := Some t\<rparr>"
  have "userlist_remove_user serv (m, sess) a =
      map_option (\<lambda>(m, sess). (free_user a m, sess)) (ul_tree_remove serv (?m, s2) a)"
    by (simp only: userlist_remove_user_def s1_def s2_def Let_def prod.case)
  with t(1) have res: "userlist_remove_user serv (m, sess) a = Some (?m', ?s')" by simp
  have el': "sess_elems ?s' = remove1 a ?xs" by (simp add: sess_elems_def t)
  have set': "set (remove1 a ?xs) = set ?xs - {a}" by (rule set_remove1_eq [OF D(7)])
  have sub: "b \<in> set (remove1 a ?xs) \<Longrightarrow> b \<noteq> a \<and> b \<in> set ?xs" for b
    unfolding set' by blast
  have heap': "b \<in> set (remove1 a ?xs) \<Longrightarrow> heap ?m' b = heap m b" for b
    unfolding set' by auto
  have user': "b \<in> set (remove1 a ?xs) \<Longrightarrow> user_at ?m' b = user_at m b" for b
    unfolding user_at_def by (simp only: heap')
  have asc: "keys_asc (p_cmp serv) (name_ok serv) (nick_at m) (remove1 a ?xs)"
    using split_list_first [OF a] D(2) by (auto simp: remove1_append dest: keys_asc_remove)
  then have "keys_asc (p_cmp serv) (name_ok serv) (nick_at ?m') (remove1 a ?xs)"
    using keys_asc_heap_cong [OF heap'] by blast
  moreover have "\<forall>b \<in> set (remove1 a ?xs). heap ?m' b \<noteq> None \<and> flags_ok serv (user_at ?m' b)"
  proof
    fix b assume b: "b \<in> set (remove1 a ?xs)"
    show "heap ?m' b \<noteq> None \<and> flags_ok serv (user_at ?m' b)"
      using heap' [OF b] user' [OF b] sub [OF b] D(3) [of b] by simp
  qed
  ultimately have arr: "arr_inv serv ?m' (remove1 a ?xs)"
    using D(4) by (simp add: arr_inv_def)
  have "cnt P ?m' (remove1 a ?xs) = cnt P m ?xs - of_bool (P ?u)" for P
    using cnt_heap_cong [OF heap'] cnt_remove1 [OF a, of P m] by simp
  moreover have "int (length (remove1 a ?xs)) = int (length ?xs) - 1"
    using length_pos_if_in_set [OF a] a by (simp only: length_remove1 if_True)
  ultimately have "counts_ok ?m' ?s' (remove1 a ?xs)"
    using D(5) by (simp add: counts_ok_def s2)
  then have "ul_inv serv (?m', ?s')"
    using arr t(2) D(6) by (auto simp: ul_inv_def el' s2 D(7))
  with res el' show ?thesis by auto
qed

lemma userlist_remove_inv:
  assumes inv: "ul_inv serv (m, sess)" and ok: "name_ok serv name"
  shows "\<exists>m' sess' b. userlist_remove serv (m, sess) name = Some ((m', sess'), b) \<and>
    ul_inv serv (m', sess') \<and>
    sess_elems sess' = filter (\<lambda>a. p_cmp serv name (nick_at m a) \<noteq> 0) (sess_elems sess) \<and>
    (b \<longleftrightarrow> (\<exists>a \<in> set (sess_elems sess). p_cmp serv name (nick_at m a) = 0))"
proof (cases "userlist_find serv (m, sess) name")
  case None
  with userlist_find_None [OF inv ok] have "\<forall>a \<in> set (sess_elems sess). p_cmp serv name (nick_at m a) \<noteq> 0"
    by simp
  with None inv show ?thesis by (auto simp: userlist_remove_def)
next
  case (Some a)
  with userlist_find_iff [OF inv ok] have a: "a \<in> set (sess_elems sess)" "p_cmp serv name (nick_at m a) = 0"
    by auto
  have uniq: "b = a" if "b \<in> set (sess_elems sess)" "p_cmp serv name (nick_at m b) = 0" for b
  proof -
    have "userlist_find serv (m, sess) name = Some b"
      using userlist_find_iff [OF inv ok] that by blast
    with Some show ?thesis by simp
  qed
  have "filter (\<lambda>a. p_cmp serv name (nick_at m a) \<noteq> 0) (sess_elems sess) = filter (\<lambda>b. a \<noteq> b) (sess_elems sess)"
    by (rule filter_cong [OF refl]) (use a(2) uniq in blast)
  also have "\<dots> = remove1 a (sess_elems sess)"
    using ul_invD(7) [OF inv] by (simp add: distinct_remove1_removeAll removeAll_filter_not_eq)
  finally show ?thesis
    using userlist_remove_user_inv [OF inv a(1)] Some a by (auto simp: userlist_remove_def)
qed

subsection \<open>Clearing\<close>

lemma foreach_free_heap:
  "heap (foreach_elems (\<lambda>a m. (free_user a m, True)) xs m) = (\<lambda>b. if b \<in> set xs then None else heap m b)
   \<and> next_addr (foreach_elems (\<lambda>a m. (free_user a m, True)) xs m) = next_addr m"
  by (induction xs arbitrary: m) (auto simp: fun_eq_iff)

lemma userlist_free_heap:
  assumes "ul_inv serv (m, sess)"
  shows "heap (fst (userlist_free (m, sess))) = (\<lambda>b. if b \<in> set (sess_elems sess) then None else heap m b)"
    and "next_addr (fst (userlist_free (m, sess))) = next_addr m"
  using ul_invD(1) [OF assms] foreach_free_heap [of "sess_elems sess" m]
  by (cases "usertree sess"; force simp: userlist_free_def tree_foreach_def sess_elems_def tree_wf_def)+

lemma userlist_free_inv [inv_intros]:
  assumes "ul_inv serv st" shows "ul_inv serv (userlist_free st)"
proof (cases st)
  case (Pair m sess)
  note h = userlist_free_heap [OF assms [unfolded Pair]]
  have "snd (userlist_free (m, sess)) = sess\<lparr>usertree := None, me := None, ops := 0, hops := 0,
      voices := 0, total := 0\<rparr>"
    by (simp add: userlist_free_def Let_def)
  with h ul_invD(4) [OF assms [unfolded Pair]] show ?thesis
    by (cases "userlist_free (m, sess)")
      (auto simp: Pair ul_inv_def sess_elems_def arr_inv_def counts_ok_def cnt_def)
qed

lemma userlist_clear_inv [inv_intros]:
  assumes "ul_inv serv st" shows "ul_inv serv (userlist_clear st)"
proof (cases st)
  case (Pair m sess)
  have "ul_inv serv (userlist_free (emit Fe_userlist_clear m, sess))"
    using assms Pair by (intro userlist_free_inv) simp
  then show ?thesis
    by (cases "userlist_free (emit Fe_userlist_clear m, sess)") (simp add: Pair userlist_clear_def)
qed

subsection \<open>Access bits, flags and counts\<close>

lemma has_bit_set_bit:
  assumes ok: "prefixes_ok serv" and p: "p < length (nick_prefixes serv)"
  shows "has_bit serv (if level then acc OR push_bit p 1 else acc AND NOT (push_bit p 1)) d =
    (if d = nick_prefixes serv ! p then level else has_bit serv acc d)"
proof -
  have b: "p < 32" using p ok by (simp add: prefixes_ok_def USERACCESS_SIZE_def)
  show ?thesis
  proof (cases "index_of d (nick_prefixes serv)")
    case None
    then have "d \<noteq> nick_prefixes serv ! p" using p by (auto simp: index_of_None)
    with None show ?thesis by (simp add: has_bit_def)
  next
    case (Some q)
    from index_of_Some [OF this] have q: "q < length (nick_prefixes serv)" "nick_prefixes serv ! q = d"
      by auto
    then have "d = nick_prefixes serv ! p \<longleftrightarrow> q = p"
      using p ok by (auto simp: prefixes_ok_def nth_eq_iff_index_eq)
    with Some show ?thesis
      by (simp add: has_bit_def bit_or_mask [OF b, simplified] bit_andnot_mask [OF b, simplified])
  qed
qed

lemma has_bit_nth:
  "prefixes_ok serv \<Longrightarrow> p < length (nick_prefixes serv) \<Longrightarrow>
   has_bit serv acc (nick_prefixes serv ! p) = bit acc p"
  by (simp add: has_bit_def prefixes_ok_def index_of_nth)

lemma nick_access_has_bit:
  assumes ok: "prefixes_ok serv" and acc: "nick_access serv name = (acc, n)"
  shows "n = length (takeWhile (\<lambda>c. c \<in> set (nick_prefixes serv)) name)"
    and "take n name = takeWhile (\<lambda>c. c \<in> set (nick_prefixes serv)) name"
    and "has_bit serv acc c \<longleftrightarrow> c \<in> set (takeWhile (\<lambda>c. c \<in> set (nick_prefixes serv)) name)"
proof -
  note spec = nick_access_loop_spec [OF ok acc [unfolded nick_access_def]]
  from spec show n: "n = length (takeWhile (\<lambda>c. c \<in> set (nick_prefixes serv)) name)" by simp
  show "take n name = takeWhile (\<lambda>c. c \<in> set (nick_prefixes serv)) name"
    unfolding n by (metis append_eq_conv_conj takeWhile_dropWhile_id)
  show "has_bit serv acc c \<longleftrightarrow> c \<in> set (takeWhile (\<lambda>c. c \<in> set (nick_prefixes serv)) name)"
  proof (cases "index_of c (nick_prefixes serv)")
    case None
    then have "\<not> has_bit serv acc c" by (simp add: has_bit_def)
    moreover have "c \<notin> set (nick_prefixes serv)" using None by (simp add: index_of_None)
    ultimately show ?thesis by (auto dest: set_takeWhileD)
  next
    case (Some p)
    with index_of_Some [OF Some] spec show ?thesis by (auto simp: has_bit_def)
  qed
qed

text \<open>The user and the session after \<open>count_prefixes\<close>: a flag per prefix, a count per occurrence.\<close>

definition flags_from :: "string \<Rightarrow> user \<Rightarrow> user" where
  "flags_from cs u = u\<lparr>u_op := u_op u \<or> CHR ''@'' \<in> set cs,
     u_hop := u_hop u \<or> CHR ''%'' \<in> set cs, u_voice := u_voice u \<or> CHR ''+'' \<in> set cs\<rparr>"

definition counts_from :: "string \<Rightarrow> session \<Rightarrow> session" where
  "counts_from cs sess = sess\<lparr>ops := ops sess + int (count_list cs (CHR ''@'')),
     hops := hops sess + int (count_list cs (CHR ''%'')),
     voices := voices sess + int (count_list cs (CHR ''+''))\<rparr>"

lemma count_prefixes_result:
  "heap m a = Some u \<Longrightarrow>
   \<exists>m'. count_prefixes a cs (m, sess) = (m', counts_from cs sess) \<and>
        heap m' = (heap m)(a \<mapsto> flags_from cs u) \<and> next_addr m' = next_addr m"
proof (induction cs arbitrary: m sess u)
  case Nil
  then show ?case by (auto simp: flags_from_def counts_from_def)
next
  case (Cons c cs)
  have ua: "user_at m a = u" using Cons.prems by (simp add: user_at_def)
  consider "c = CHR ''@''" | "c = CHR ''%''" | "c = CHR ''+''"
    | "c \<noteq> CHR ''@'' \<and> c \<noteq> CHR ''%'' \<and> c \<noteq> CHR ''+''" by blast
  then show ?case
  proof cases
    case 1
    then show ?thesis
      using Cons.IH [of "set_user a (u\<lparr>u_op := True\<rparr>) m" _ "sess\<lparr>ops := ops sess + 1\<rparr>"] ua
      by (force simp: update_counts_def flags_from_def counts_from_def)
  next
    case 2
    then show ?thesis
      using Cons.IH [of "set_user a (u\<lparr>u_hop := True\<rparr>) m" _ "sess\<lparr>hops := hops sess + 1\<rparr>"] ua
      by (force simp: update_counts_def flags_from_def counts_from_def)
  next
    case 3
    then show ?thesis
      using Cons.IH [of "set_user a (u\<lparr>u_voice := True\<rparr>) m" _ "sess\<lparr>voices := voices sess + 1\<rparr>"] ua
      by (force simp: update_counts_def flags_from_def counts_from_def)
  next
    case 4
    then show ?thesis
      using Cons.IH [OF Cons.prems, of sess]
      by (force simp: update_counts_def flags_from_def counts_from_def)
  qed
qed

subsection \<open>Adding a user\<close>

lemma count_list_distinct: "distinct xs \<Longrightarrow> count_list xs x = of_bool (x \<in> set xs)"
  by (induction xs) auto

lemma userlist_insertname_result:
  assumes wf: "\<And>t. usertree sess = Some t \<Longrightarrow> tree_wf t"
    and asc: "keys_asc (p_cmp serv) (name_ok serv) (nick_at m) (sess_elems sess)"
    and a: "name_ok serv (nick_at m a)"
  shows "\<exists>t' p. userlist_insertname serv (m, sess) a = Some ((m, sess\<lparr>usertree := Some t'\<rparr>), p) \<and>
    tree_wf t' \<and> keys_asc (p_cmp serv) (name_ok serv) (nick_at m) (elems t') \<and>
    (if \<exists>x \<in> set (sess_elems sess). p_cmp serv (nick_at m a) (nick_at m x) = 0
     then p = -1 \<and> elems t' = sess_elems sess
     else (\<exists>q \<le> length (sess_elems sess). p = int q \<and>
             elems t' = take q (sess_elems sess) @ a # drop q (sess_elems sess)))"
proof -
  define t where "t = (case usertree sess of None \<Rightarrow> tree_new | Some t \<Rightarrow> t)"
  have t: "tree_wf t" "elems t = sess_elems sess"
    using wf tree_new_wf
    by (auto simp: t_def sess_elems_def split: option.split) (simp add: tree_new_def)
  obtain t' p where t': "tree_insert (\<lambda>a b. p_cmp serv (nick_at m a) (nick_at m b)) t a = Some (t', p)"
      "tree_wf t'" "keys_asc (p_cmp serv) (name_ok serv) (nick_at m) (elems t')"
      "if \<exists>x \<in> set (sess_elems sess). p_cmp serv (nick_at m a) (nick_at m x) = 0
       then p = -1 \<and> elems t' = sess_elems sess
       else (\<exists>q \<le> length (sess_elems sess). p = int q \<and>
               elems t' = take q (sess_elems sess) @ a # drop q (sess_elems sess))"
    using nick.tree_insert_sorted [OF t(1) asc [folded t(2)] a] unfolding t(2) by blast
  have "userlist_insertname serv (m, sess) a = Some ((m, sess\<lparr>usertree := Some t'\<rparr>), p)"
    by (simp add: userlist_insertname_def nick_cmp_alpha_eq t_def [symmetric] t'(1))
  with t' show ?thesis by blast
qed

lemma arr_inv_heap:
  assumes "arr_inv serv m xs" "\<And>x. x \<in> set xs \<Longrightarrow> heap m' x = heap m x"
    and "\<And>x. next_addr m' \<le> x \<Longrightarrow> heap m' x = None"
  shows "arr_inv serv m' xs"
  unfolding arr_inv_def
proof (intro conjI ballI allI impI)
  show "keys_asc (p_cmp serv) (name_ok serv) (nick_at m') xs"
    using assms(1) keys_asc_heap_cong [of xs m' m, OF assms(2)] by (simp add: arr_inv_def)
  fix x assume x: "x \<in> set xs"
  show "heap m' x \<noteq> None" "flags_ok serv (user_at m' x)"
    using assms(1) x assms(2) [OF x] by (auto simp: arr_inv_def user_at_def)
qed (use assms(3) in simp)

lemma counts_ok_heap:
  assumes "counts_ok m sess xs" "\<And>x. x \<in> set xs \<Longrightarrow> heap m' x = heap m x"
  shows "counts_ok m' sess xs"
  using assms(1) cnt_heap_cong [of xs m' m, OF assms(2)] by (simp add: counts_ok_def)

lemma userlist_add_inv:
  assumes inv: "ul_inv serv (m, sess)" and ok: "prefixes_ok serv"
    and acc: "nick_access serv name = (acc, n)" and dist: "distinct (take n name)"
    and copy: "safe_strcpy (drop n name) NICKLEN = Some nick" and nok: "name_ok serv nick"
  shows "\<exists>m' sess'. userlist_add serv (m, sess) name hostname account realname = Some (m', sess') \<and>
    ul_inv serv (m', sess') \<and> (\<forall>x \<noteq> next_addr m. heap m' x = heap m x) \<and>
    (if \<exists>x \<in> set (sess_elems sess). p_cmp serv nick (nick_at m x) = 0
     then sess_elems sess' = sess_elems sess
     else set (sess_elems sess') = insert (next_addr m) (set (sess_elems sess)) \<and>
          nick_at m' (next_addr m) = nick \<and> u_access (user_at m' (next_addr m)) = acc)"
proof -
  note D = ul_invD [OF inv]
  let ?xs = "sess_elems sess" and ?a = "next_addr m" and ?cs = "take n name"
  define u where "u = added_user serv acc n name nick hostname account realname"
  define m1 where "m1 = snd (alloc_user u (emit (Notify_set_online (drop n name)) m))"
  have alloc: "alloc_user u (emit (Notify_set_online (drop n name)) m) = (?a, m1)"
    by (simp add: m1_def alloc_user_def)
  have m1: "heap m1 = (heap m)(?a \<mapsto> u)" "next_addr m1 = Suc ?a"
    by (simp_all add: m1_def alloc_user_def)
  have u: "u_nick u = nick" "u_access u = acc" "\<not> u_op u" "\<not> u_hop u" "\<not> u_voice u"
    by (simp_all add: u_def added_user_def new_user_def)
  have fresh: "x \<in> set ?xs \<Longrightarrow> x < ?a" for x
    using D(3) [of x] D(4) [of x] by (meson not_le)
  have heap1: "x \<in> set ?xs \<Longrightarrow> heap m1 x = heap m x" for x
    using fresh [of x] m1 by simp
  have nick1: "nick_at m1 ?a = nick" "x \<in> set ?xs \<Longrightarrow> nick_at m1 x = nick_at m x" for x
    using heap1 [of x] by (simp_all add: nick_at_def user_at_def m1 u)
  have asc1: "keys_asc (p_cmp serv) (name_ok serv) (nick_at m1) ?xs"
    using D(2) keys_asc_heap_cong [OF heap1] by blast
  obtain t p where ins: "userlist_insertname serv (m1, sess) ?a = Some ((m1, sess\<lparr>usertree := Some t\<rparr>), p)"
      "tree_wf t" "keys_asc (p_cmp serv) (name_ok serv) (nick_at m1) (elems t)"
    and cases: "if \<exists>x \<in> set ?xs. p_cmp serv (nick_at m1 ?a) (nick_at m1 x) = 0 then p = -1 \<and> elems t = ?xs
      else (\<exists>q \<le> length ?xs. p = int q \<and> elems t = take q ?xs @ ?a # drop q ?xs)"
    using userlist_insertname_result [OF D(1) asc1, of ?a] nok nick1(1) by auto
  have dup: "(\<exists>x \<in> set ?xs. p_cmp serv (nick_at m1 ?a) (nick_at m1 x) = 0) \<longleftrightarrow>
      (\<exists>x \<in> set ?xs. p_cmp serv nick (nick_at m x) = 0)"
    using nick1 by auto
  have add: "userlist_add serv (m, sess) name hostname account realname =
      (if p = -1 then Some (free_user ?a m1, sess\<lparr>usertree := Some t\<rparr>)
       else let s2 = sess\<lparr>usertree := Some t, total := total sess + 1\<rparr>;
                (m3, s3) = count_prefixes ?a ?cs (m1, s2);
                s4 = (if u_me u then s3\<lparr>me := Some ?a\<rparr> else s3);
                m4 = emit (Fe_userlist_insert ?a) m3
            in Some ((if end_of_names s4 then emit Fe_userlist_numbers m4 else m4), s4))"
    by (simp add: userlist_add_def acc copy alloc ins(1) u_def [symmetric] Let_def)
  show ?thesis
  proof (cases "\<exists>x \<in> set ?xs. p_cmp serv nick (nick_at m x) = 0")
    case True
    with cases dup have p: "p = -1" "elems t = ?xs" by auto
    have h: "heap (free_user ?a m1) = heap m" using D(4) [of ?a] by (auto simp: m1)
    let ?s = "sess\<lparr>usertree := Some t\<rparr>"
    have el: "sess_elems ?s = ?xs" by (simp add: sess_elems_def p)
    have "arr_inv serv m ?xs" using inv by (simp add: ul_inv_def)
    then have arr: "arr_inv serv (free_user ?a m1) ?xs"
      by (rule arr_inv_heap) (simp only: h, simp only: h, rule D(4), simp add: m1)
    have "counts_ok (free_user ?a m1) sess ?xs"
      by (rule counts_ok_heap [OF D(5)]) (simp only: h)
    with arr have "arr_inv serv (free_user ?a m1) ?xs" "counts_ok (free_user ?a m1) ?s ?xs"
      by (simp_all add: counts_ok_def)
    then have "ul_inv serv (free_user ?a m1, ?s)"
      using ins(2) D(6) by (simp add: ul_inv_def el)
    with True add p h el show ?thesis by auto
  next
    case False
    with cases dup obtain q where q: "p = int q" "elems t = take q ?xs @ ?a # drop q ?xs" by auto
    define s2 where "s2 = sess\<lparr>usertree := Some t, total := total sess + 1\<rparr>"
    let ?v = "flags_from ?cs u" and ?s3 = "counts_from ?cs s2"
    define s4 where "s4 = (if u_me u then ?s3\<lparr>me := Some ?a\<rparr> else ?s3)"
    obtain m3 where m3: "count_prefixes ?a ?cs (m1, s2) = (m3, ?s3)"
        "heap m3 = (heap m1)(?a \<mapsto> ?v)" "next_addr m3 = next_addr m1"
      using count_prefixes_result [of m1 ?a u ?cs s2] by (auto simp: m1)
    define m4 where "m4 = (if end_of_names s4
      then emit Fe_userlist_numbers (emit (Fe_userlist_insert ?a) m3) else emit (Fe_userlist_insert ?a) m3)"
    have m4: "heap m4 = (heap m)(?a \<mapsto> ?v)" "next_addr m4 = Suc ?a"
      by (simp_all add: m4_def m3 m1)
    have res: "userlist_add serv (m, sess) name hostname account realname = Some (m4, s4)"
      using q(1) by (simp add: add m3(1) s2_def [symmetric] m4_def s4_def)
    have s4: "usertree s4 = Some t" "total s4 = total sess + 1"
        "ops s4 = ops sess + int (count_list ?cs (CHR ''@''))"
        "hops s4 = hops sess + int (count_list ?cs (CHR ''%''))"
        "voices s4 = voices sess + int (count_list ?cs (CHR ''+''))"
        "me s4 = Some b \<Longrightarrow> b = ?a \<or> me sess = Some b" for b
      by (auto simp: s4_def s2_def counts_from_def split: if_splits)
    have el: "sess_elems s4 = take q ?xs @ ?a # drop q ?xs" by (simp add: sess_elems_def s4 q)
    have setel: "set (sess_elems s4) = insert ?a (set ?xs)" unfolding el by (rule set_insert_mid)
    have nick4: "nick_at m4 = nick_at m1"
      by (intro ext) (simp add: nick_at_def user_at_def m4 m1 flags_from_def)
    have v: "flags_ok serv ?v"
      using u nick_access_has_bit(2,3) [OF ok acc] by (simp add: flags_ok_def flags_from_def)
    have old: "x \<in> set ?xs \<Longrightarrow> heap m4 x = heap m x" for x
      using fresh [of x] by (simp add: m4)
    have at: "user_at m4 ?a = ?v" by (simp add: user_at_def m4)
    have "arr_inv serv m4 (sess_elems s4)"
      unfolding arr_inv_def
    proof (intro conjI ballI allI impI)
      show "keys_asc (p_cmp serv) (name_ok serv) (nick_at m4) (sess_elems s4)"
        using ins(3) by (simp add: nick4 el q)
      fix x assume "x \<in> set (sess_elems s4)"
      then have "x = ?a \<or> x \<in> set ?xs" by (simp add: setel)
      then show "heap m4 x \<noteq> None" "flags_ok serv (user_at m4 x)"
        using v at D(3) [of x] old [of x] by (auto simp: user_at_def m4)
    qed (use D(4) in \<open>simp add: m4\<close>)
    moreover have "cnt P m4 (sess_elems s4) = cnt P m ?xs + of_bool (P ?v)" for P
      using cnt_insert [of P m4 q ?xs ?a] cnt_heap_cong [of ?xs m4 m P, OF old] by (simp add: el at)
    then have "counts_ok m4 s4 (sess_elems s4)"
      using D(5) count_list_distinct [OF dist] u
      by (simp add: counts_ok_def s4 el flags_from_def)
    ultimately have "ul_inv serv (m4, s4)"
      using ins(2) D(6) s4(6) by (auto simp: ul_inv_def s4(1) setel)
    moreover have "nick_at m4 ?a = nick" "u_access (user_at m4 ?a) = acc"
      using at u by (simp_all add: nick_at_def flags_from_def)
    ultimately show ?thesis using False res setel by (auto simp: m4)
  qed
qed

subsection \<open>Renaming a user and changing its modes\<close>

text \<open>
  Both operations take the user out of the array, overwrite it, and put it back: \<open>v\<close> is the
  user written, \<open>sess1\<close> the session with the counters already corrected.
\<close>

lemma ul_reinsert_inv:
  assumes inv: "ul_inv serv (m, sess)" and a: "a \<in> set (sess_elems sess)"
    and m1: "heap m1 = (heap m)(a \<mapsto> v)" "next_addr m1 = next_addr m"
    and t: "usertree sess1 = Some t" "tree_wf t" "elems t = remove1 a (sess_elems sess)"
    and v: "name_ok serv (u_nick v)" "flags_ok serv v"
      "\<forall>x \<in> set (sess_elems sess) - {a}. p_cmp serv (u_nick v) (nick_at m x) \<noteq> 0"
    and counts: "total sess1 = total sess" "me sess1 = me sess"
      "ops sess1 = ops sess + (of_bool (u_op v) - of_bool (u_op (user_at m a)))"
      "hops sess1 = hops sess + (of_bool (u_hop v) - of_bool (u_hop (user_at m a)))"
      "voices sess1 = voices sess + (of_bool (u_voice v) - of_bool (u_voice (user_at m a)))"
  shows "\<exists>t'. ul_tree_insert serv (m1, sess1) a = Some (m1, sess1\<lparr>usertree := Some t'\<rparr>) \<and>
    ul_inv serv (m1, sess1\<lparr>usertree := Some t'\<rparr>) \<and> set (elems t') = set (sess_elems sess)"
proof -
  note D = ul_invD [OF inv]
  let ?xs = "sess_elems sess" and ?ys = "remove1 a (sess_elems sess)"
  have set': "set ?ys = set ?xs - {a}" by (rule set_remove1_eq [OF D(7)])
  have old: "x \<in> set ?ys \<Longrightarrow> heap m1 x = heap m x" for x
    unfolding set' by (auto simp: m1)
  have at: "user_at m1 a = v" by (simp add: user_at_def m1)
  have other: "x \<noteq> a \<Longrightarrow> user_at m1 x = user_at m x" for x by (simp add: user_at_def m1)
  have nicka: "nick_at m1 a = u_nick v" by (simp add: nick_at_def at)
  have "keys_asc (p_cmp serv) (name_ok serv) (nick_at m) ?ys"
    using split_list_first [OF a] D(2) by (auto simp: remove1_append dest: keys_asc_remove)
  then have asc: "keys_asc (p_cmp serv) (name_ok serv) (nick_at m1) (elems t)"
    using keys_asc_heap_cong [of ?ys m1 m, OF old] unfolding t(3) by blast
  have fresh: "\<forall>x \<in> set (elems t). p_cmp serv (nick_at m1 a) (nick_at m1 x) \<noteq> 0"
    unfolding t(3) set' nicka using v(3) by (simp add: nick_at_def other)
  obtain t' q where t': "ul_tree_insert serv (m1, sess1) a = Some (m1, sess1\<lparr>usertree := Some t'\<rparr>)"
      "tree_wf t'" "keys_asc (p_cmp serv) (name_ok serv) (nick_at m1) (elems t')"
      "elems t' = take q ?ys @ a # drop q ?ys"
    using ul_tree_insert_elems [OF t(1,2) asc _ fresh] v(1) nicka t(3) by auto
  have setel: "set (elems t') = set ?xs"
    using a unfolding t'(4) set_insert_mid set' by auto
  let ?s = "sess1\<lparr>usertree := Some t'\<rparr>"
  have el: "sess_elems ?s = elems t'" by (simp add: sess_elems_def)
  have "arr_inv serv m1 (elems t')"
    unfolding arr_inv_def
  proof (intro conjI ballI allI impI)
    show "keys_asc (p_cmp serv) (name_ok serv) (nick_at m1) (elems t')" by (rule t'(3))
    fix x assume x: "x \<in> set (elems t')"
    show "heap m1 x \<noteq> None" using D(3) [of x] x by (simp add: m1 setel)
    show "flags_ok serv (user_at m1 x)"
      using D(3) [of x] x v(2) at other [of x] by (cases "x = a") (auto simp: setel)
  next
    fix x assume x: "next_addr m1 \<le> x"
    then have "heap m x = None" "heap m a \<noteq> None" using D(3) [OF a] D(4) [of x] m1(2) by auto
    then show "heap m1 x = None" by (auto simp: m1)
  qed
  moreover have cnt': "cnt P m1 (elems t') = cnt P m ?xs + (of_bool (P v) - of_bool (P (user_at m a)))" for P
    using cnt_insert [of P m1 q ?ys a] cnt_heap_cong [of ?ys m1 m P, OF old] cnt_remove1 [OF a, of P m]
    by (simp add: t'(4) at)
  have "length ?ys = length ?xs - 1" using a by (simp add: length_remove1)
  then have "int (length (elems t')) = int (length ?xs)"
    using length_pos_if_in_set [OF a] unfolding t'(4) length_insert_mid by linarith
  then have "counts_ok m1 ?s (elems t')"
    using D(5) by (simp add: counts_ok_def cnt' counts)
  ultimately have "ul_inv serv (m1, ?s)"
    using t'(2) D(6) by (simp add: ul_inv_def el setel counts)
  with t' setel show ?thesis by blast
qed

lemma userlist_change_inv:
  assumes inv: "ul_inv serv (m, sess)" and find: "userlist_find serv (m, sess) oldname = Some a"
    and copy: "safe_strcpy newname NICKLEN = Some nick" and nok: "name_ok serv nick"
    and free: "\<forall>x \<in> set (sess_elems sess) - {a}. p_cmp serv nick (nick_at m x) \<noteq> 0"
  shows "\<exists>m' sess'. userlist_change serv (m, sess) oldname newname = Some ((m', sess'), True) \<and>
    ul_inv serv (m', sess') \<and> set (sess_elems sess') = set (sess_elems sess) \<and>
    heap m' = (heap m)(a \<mapsto> (user_at m a)\<lparr>u_nick := nick\<rparr>)"
proof -
  note D = ul_invD [OF inv]
  have a: "a \<in> set (sess_elems sess)" using find by (rule userlist_findD)
  obtain t where t: "ul_tree_remove serv (m, sess) a = Some (m, sess\<lparr>usertree := Some t\<rparr>)" "tree_wf t"
      "elems t = remove1 a (sess_elems sess)"
    using ul_tree_remove_elems [OF D(1,2) a] by blast
  let ?s1 = "sess\<lparr>usertree := Some t\<rparr>" and ?v = "(user_at m a)\<lparr>u_nick := nick\<rparr>"
  let ?m1 = "set_user a ?v (emit (Fe_userlist_remove a) m)"
  have "flags_ok serv ?v" using D(3) [OF a] by (simp add: flags_ok_def)
  then obtain t' where "ul_tree_insert serv (?m1, ?s1) a = Some (?m1, ?s1\<lparr>usertree := Some t'\<rparr>)"
      "ul_inv serv (?m1, ?s1\<lparr>usertree := Some t'\<rparr>)" "set (elems t') = set (sess_elems sess)"
    using ul_reinsert_inv [OF inv a, of ?m1 ?v ?s1 t] t nok free by auto
  then show ?thesis
    by (auto simp: userlist_change_def find t copy Let_def sess_elems_def)
qed

text \<open>What \<open>userlist_update_mode\<close> writes into the user: the bit, the flag, the prefix.\<close>

definition moded_user :: "server \<Rightarrow> nat \<Rightarrow> bool \<Rightarrow> user \<Rightarrow> user" where
  "moded_user serv p level u =
     (let acc = (if level then u_access u OR push_bit p 1 else u_access u AND NOT (push_bit p 1));
          c = nick_prefixes serv ! p
      in u\<lparr>u_access := acc, u_prefix := get_nick_prefix serv acc,
           u_op := (if c = CHR ''@'' then level else u_op u),
           u_hop := (if c = CHR ''%'' then level else u_hop u),
           u_voice := (if c = CHR ''+'' then level else u_voice u)\<rparr>)"

lemma update_counts_result:
  "\<exists>m1 s1. update_counts (set_user a u m, s) a c level off = (m1, s1) \<and>
     heap m1 = (heap m)(a \<mapsto> u\<lparr>u_op := (if c = CHR ''@'' then level else u_op u),
        u_hop := (if c = CHR ''%'' then level else u_hop u),
        u_voice := (if c = CHR ''+'' then level else u_voice u)\<rparr>) \<and>
     next_addr m1 = next_addr m \<and> usertree s1 = usertree s \<and> total s1 = total s \<and> me s1 = me s \<and>
     ops s1 = ops s + (if c = CHR ''@'' then off else 0) \<and>
     hops s1 = hops s + (if c = CHR ''%'' then off else 0) \<and>
     voices s1 = voices s + (if c = CHR ''+'' then off else 0)"
  by (simp add: update_counts_def)

lemma moded_user_flags:
  assumes ok: "prefixes_ok serv" and p: "p < length (nick_prefixes serv)" and u: "flags_ok serv u"
  shows "flags_ok serv (moded_user serv p level u)"
proof -
  define A where "A = (if level then u_access u OR push_bit p 1 else u_access u AND NOT (push_bit p 1))"
  have hb: "has_bit serv A d = (if d = nick_prefixes serv ! p then level else has_bit serv (u_access u) d)" for d
    unfolding A_def by (rule has_bit_set_bit [OF ok p])
  have mu: "moded_user serv p level u = u\<lparr>u_access := A, u_prefix := get_nick_prefix serv A,
      u_op := (if nick_prefixes serv ! p = CHR ''@'' then level else u_op u),
      u_hop := (if nick_prefixes serv ! p = CHR ''%'' then level else u_hop u),
      u_voice := (if nick_prefixes serv ! p = CHR ''+'' then level else u_voice u)\<rparr>"
    by (simp only: moded_user_def Let_def A_def)
  show ?thesis unfolding mu using u by (auto simp: flags_ok_def hb)
qed

lemma userlist_update_mode_inv:
  assumes inv: "ul_inv serv (m, sess)" and ok: "prefixes_ok serv"
    and find: "userlist_find serv (m, sess) name = Some a"
    and mode: "index_of mode (nick_modes serv) = Some p"
  shows "\<exists>m' sess'. userlist_update_mode serv (m, sess) name mode sign = Some (m', sess') \<and>
    ul_inv serv (m', sess') \<and> set (sess_elems sess') = set (sess_elems sess) \<and>
    heap m' = (heap m)(a \<mapsto> moded_user serv p (sign = CHR ''+'') (user_at m a))"
proof -
  note D = ul_invD [OF inv]
  let ?level = "sign = CHR ''+''" and ?u = "user_at m a" and ?c = "nick_prefixes serv ! p"
  let ?v = "moded_user serv p ?level ?u"
  have a: "a \<in> set (sess_elems sess)" using find by (rule userlist_findD)
  have p: "p < length (nick_prefixes serv)" "p < 32"
    using index_of_Some [OF mode] ok by (auto simp: prefixes_ok_def USERACCESS_SIZE_def)
  have acc: "mode_access serv mode = Some (int p, ?c)"
    using mode p by (simp add: mode_access_def)
  obtain t where t: "ul_tree_remove serv (m, sess) a = Some (m, sess\<lparr>usertree := Some t\<rparr>)" "tree_wf t"
      "elems t = remove1 a (sess_elems sess)"
    using ul_tree_remove_elems [OF D(1,2) a] by blast
  define bm :: uint where "bm = push_bit p 1"
  define was where "was = (u_access ?u AND bm \<noteq> 0)"
  define off :: int where "off = (if ?level then (if was then 0 else 1) else (if was then -1 else 0))"
  define acc' where "acc' = (if ?level then u_access ?u OR bm else u_access ?u AND NOT bm)"
  define u' where "u' = ?u\<lparr>u_access := acc', u_prefix := get_nick_prefix serv acc'\<rparr>"
  let ?m0 = "emit (Fe_userlist_remove a) m" and ?s0 = "sess\<lparr>usertree := Some t\<rparr>"
  obtain m1 s1 where uc: "update_counts (set_user a u' ?m0, ?s0) a ?c ?level off = (m1, s1)"
      "heap m1 = (heap m)(a \<mapsto> ?v)" "next_addr m1 = next_addr m" "usertree s1 = Some t"
      "total s1 = total sess" "me s1 = me sess"
      "ops s1 = ops sess + (if ?c = CHR ''@'' then off else 0)"
      "hops s1 = hops sess + (if ?c = CHR ''%'' then off else 0)"
      "voices s1 = voices sess + (if ?c = CHR ''+'' then off else 0)"
    using update_counts_result [of a u' ?m0 ?s0 ?c ?level off]
    by (auto simp: moded_user_def Let_def u'_def acc'_def bm_def simp del: push_bit_of_1)
  have "was = bit (u_access ?u) p"
    unfolding was_def bm_def by (rule and_mask_nonzero [OF p(2)])
  then have "was = has_bit serv (u_access ?u) ?c" by (simp add: has_bit_nth [OF ok p(1)])
  then have off: "off = of_bool ?level - of_bool (has_bit serv (u_access ?u) ?c)"
    by (simp add: off_def)
  have fl: "flags_ok serv ?u" using D(3) [OF a] by simp
  have nickv: "u_nick ?v = nick_at m a" by (simp add: moded_user_def nick_at_def Let_def)
  have others: "\<forall>x \<in> set (sess_elems sess) - {a}. p_cmp serv (u_nick ?v) (nick_at m x) \<noteq> 0"
    using nick.asc_unique [OF D(2) a] unfolding nickv by blast
  obtain t' where t': "ul_tree_insert serv (m1, s1) a = Some (m1, s1\<lparr>usertree := Some t'\<rparr>)"
      "ul_inv serv (m1, s1\<lparr>usertree := Some t'\<rparr>)" "set (elems t') = set (sess_elems sess)"
  proof -
    have "name_ok serv (u_nick ?v)" using D(2) a by (simp add: nickv keys_asc_def)
    moreover have "flags_ok serv ?v" by (rule moded_user_flags [OF ok p(1) fl])
    moreover have
      "ops s1 = ops sess + (of_bool (u_op ?v) - of_bool (u_op ?u))"
      "hops s1 = hops sess + (of_bool (u_hop ?v) - of_bool (u_hop ?u))"
      "voices s1 = voices sess + (of_bool (u_voice ?v) - of_bool (u_voice ?u))"
      using fl by (auto simp: uc off moded_user_def Let_def flags_ok_def)
    ultimately show ?thesis
      using ul_reinsert_inv [OF inv a uc(2,3,4) t(2,3)] others uc(5,6) that by blast
  qed
  have "userlist_update_mode serv (m, sess) name mode sign =
      map_option (\<lambda>(m, sess). (emit Fe_userlist_numbers (emit (Fe_userlist_insert a) m), sess))
        (ul_tree_insert serv (update_counts (set_user a u' ?m0, ?s0) a ?c ?level off) a)"
    by (simp only: userlist_update_mode_def find t(1) acc option.case prod.case Let_def u'_def
        acc'_def off_def was_def bm_def user_at_simps(1) of_nat_less_0_iff if_False nat_int)
  then have "userlist_update_mode serv (m, sess) name mode sign =
      Some (emit Fe_userlist_numbers (emit (Fe_userlist_insert a) m1), s1\<lparr>usertree := Some t'\<rparr>)"
    by (simp add: uc(1) t'(1))
  with t' uc(2) show ?thesis by (simp add: sess_elems_def)
qed

subsection \<open>The properties of the user list\<close>

text \<open>A channel with the operator \<open>bob\<close>, on which the hypotheses below are seen to hold.\<close>

definition demo_server :: server where
  "demo_server = new_server 0 ''me''"

definition demo_bob :: user where
  "demo_bob = new_user\<lparr>u_nick := ''bob'', u_access := 1, u_prefix := CHR ''@'', u_op := True\<rparr>"

definition demo_channel :: ul_state where
  "demo_channel =
     (\<lparr>heap = [1 \<mapsto> demo_bob], next_addr = 2, trace = []\<rparr>,
      (new_session 0 SESS_CHANNEL ''#c'')\<lparr>usertree := Some \<lparr>elems = [1], array_size = 32\<rparr>,
         ops := 1, total := 1\<rparr>)"

lemmas demo_defs = demo_server_def demo_bob_def demo_channel_def new_server_def
  server_set_defaults_def new_session_def new_user_def

lemma demo_server_simps:
  "nick_prefixes demo_server = ''@%+''" "nick_modes demo_server = ''ohv''"
  "p_cmp_fn demo_server = Rfc_casecmp" "prefixes_ok demo_server"
  "bad_prefix demo_server = False" "serv_nick demo_server = ''me''"
  using new_server_prefixes_ok [of 0 "''me''"]
  by (simp_all add: demo_server_def) (simp_all add: new_server_def server_set_defaults_def)

lemma demo_name_ok: "name_ok demo_server ''bob''" "name_ok demo_server ''BOB''"
  "name_ok demo_server ''alice''"
  by (simp_all add: name_ok_def demo_server_simps ascii_name_def ascii_def uchar_def)

lemma demo_channel_inv: "ul_inv demo_server demo_channel"
proof -
  have "flags_ok demo_server demo_bob"
    by (simp add: flags_ok_def has_bit_def demo_server_simps demo_bob_def new_user_def)
  moreover have "u_nick demo_bob = ''bob''" "u_op demo_bob" "\<not> u_hop demo_bob" "\<not> u_voice demo_bob"
    by (simp_all add: demo_bob_def new_user_def)
  ultimately show ?thesis
    using demo_name_ok(1)
    by (simp add: ul_inv_def demo_channel_def tree_wf_def sess_elems_def new_session_def arr_inv_def
        counts_ok_def cnt_def keys_asc_Cons nick_at_def user_at_def)
qed

lemma demo_cmp:
  "p_cmp demo_server ''BOB'' ''bob'' = 0" "p_cmp demo_server ''alice'' ''bob'' \<noteq> 0"
  unfolding p_cmp_def demo_server_simps by code_simp+

lemma demo_channel_simps:
  "sess_elems (snd demo_channel) = [1]" "user_at (fst demo_channel) 1 = demo_bob"
  "nick_at (fst demo_channel) 1 = ''bob''" "next_addr (fst demo_channel) = 2"
  "heap (fst demo_channel) = [1 \<mapsto> demo_bob]" "ul_inv demo_server (fst demo_channel, snd demo_channel)"
  using demo_channel_inv
  by (simp_all add: demo_channel_def sess_elems_def new_session_def nick_at_def user_at_def demo_bob_def)

lemmas demo_simps = demo_channel_simps demo_channel_simps [simplified]

lemma demo_find: "userlist_find demo_server demo_channel ''BOB'' = Some 1"
  using userlist_find_iff [of demo_server "fst demo_channel" "snd demo_channel" "''BOB''" 1]
    demo_channel_inv demo_name_ok(2) demo_cmp(1)
  by (simp add: demo_simps)

text \<open>C1: In a channel that satisfies the invariant, \<open>userlist_find\<close> returns a user exactly
  when it is in the list and its nick equals the name under the server's casemapping; so the
  binary search never misses a user who is there and never invents one.\<close>

theorem userlist_find_correct:
  assumes "ul_inv serv (m, sess)" "name_ok serv name"
  shows "userlist_find serv (m, sess) name = Some a \<longleftrightarrow>
    a \<in> set (sess_elems sess) \<and> p_cmp serv name (nick_at m a) = 0"
  by (rule userlist_find_iff [OF assms])

theorem userlist_find_correct_witness:
  "userlist_find demo_server demo_channel ''BOB'' = Some 1"
  using userlist_find_correct [of demo_server "fst demo_channel" "snd demo_channel" "''BOB''" 1]
    demo_channel_inv demo_name_ok(2) demo_cmp(1)
  by (simp add: demo_simps)

text \<open>C2: \<open>userlist_add\<close> returns, keeps the invariant (order, live pointers, flags, and the
  four counters), leaves the other users alone, refuses a nick that is already there, and
  otherwise adds exactly one user with the nick after the prefixes and the access bits the
  prefixes stand for.\<close>

theorem userlist_add_correct:
  assumes "ul_inv serv (m, sess)" "prefixes_ok serv" "nick_access serv name = (acc, n)"
    "distinct (take n name)" "safe_strcpy (drop n name) NICKLEN = Some nick" "name_ok serv nick"
  shows "\<exists>m' sess'. userlist_add serv (m, sess) name hostname account realname = Some (m', sess') \<and>
    ul_inv serv (m', sess') \<and> (\<forall>x. x \<noteq> next_addr m \<longrightarrow> heap m' x = heap m x) \<and>
    (if \<exists>x \<in> set (sess_elems sess). p_cmp serv nick (nick_at m x) = 0
     then sess_elems sess' = sess_elems sess
     else set (sess_elems sess') = insert (next_addr m) (set (sess_elems sess)) \<and>
          nick_at m' (next_addr m) = nick \<and> u_access (user_at m' (next_addr m)) = acc)"
  using userlist_add_inv [OF assms] by blast

theorem userlist_add_correct_witness:
  "\<exists>m' sess'. userlist_add demo_server demo_channel ''+alice'' None None None = Some (m', sess') \<and>
    ul_inv demo_server (m', sess') \<and> set (sess_elems sess') = {1, 2} \<and> nick_at m' 2 = ''alice''"
proof -
  have acc: "nick_access demo_server ''+alice'' = (4, 1)"
    by (simp add: nick_access_def is_prefix_char_def demo_server_simps numeral_2_eq_2 [symmetric])
  have copy: "safe_strcpy (drop 1 ''+alice'') NICKLEN = Some ''alice''"
    by (subst safe_strcpy_ascii) (simp_all add: ascii_def uchar_def NICKLEN_def)
  show ?thesis
    using userlist_add_correct [OF _ demo_server_simps(4) acc _ copy demo_name_ok(3),
        of "fst demo_channel" "snd demo_channel" None None None] demo_channel_inv demo_cmp(2)
    by (auto simp: demo_simps)
qed

text \<open>C3: \<open>userlist_remove\<close> returns, keeps the invariant, and removes exactly the users whose
  nick equals the name; its result says whether there was one.\<close>

theorem userlist_remove_correct:
  assumes "ul_inv serv (m, sess)" "name_ok serv name"
  shows "\<exists>m' sess' b. userlist_remove serv (m, sess) name = Some ((m', sess'), b) \<and>
    ul_inv serv (m', sess') \<and>
    sess_elems sess' = filter (\<lambda>a. p_cmp serv name (nick_at m a) \<noteq> 0) (sess_elems sess) \<and>
    (b \<longleftrightarrow> (\<exists>a \<in> set (sess_elems sess). p_cmp serv name (nick_at m a) = 0))"
  by (rule userlist_remove_inv [OF assms])

theorem userlist_remove_correct_witness:
  "\<exists>m' sess'. userlist_remove demo_server demo_channel ''BOB'' = Some ((m', sess'), True) \<and>
    sess_elems sess' = [] \<and> ops sess' = 0 \<and> total sess' = 0"
proof -
  have "\<exists>m' sess'. userlist_remove demo_server demo_channel ''BOB'' = Some ((m', sess'), True) \<and>
      ul_inv demo_server (m', sess') \<and> sess_elems sess' = []"
    using userlist_remove_correct [of demo_server "fst demo_channel" "snd demo_channel" "''BOB''"]
      demo_channel_inv demo_name_ok(2) demo_cmp(1)
    by (auto simp: demo_simps)
  then show ?thesis by (auto simp: ul_inv_def counts_ok_def cnt_def)
qed

text \<open>C4: \<open>userlist_update_mode\<close> for a mode of the PREFIX list returns without reading
  outside the prefix table, keeps the invariant, and changes nothing but the user's access
  bit, the flag that mirrors it, its display prefix and the matching counter.\<close>

theorem userlist_update_mode_correct:
  assumes "ul_inv serv (m, sess)" "prefixes_ok serv"
    "userlist_find serv (m, sess) name = Some a" "index_of mode (nick_modes serv) = Some p"
  shows "\<exists>m' sess'. userlist_update_mode serv (m, sess) name mode sign = Some (m', sess') \<and>
    ul_inv serv (m', sess') \<and> set (sess_elems sess') = set (sess_elems sess) \<and>
    heap m' = (heap m)(a \<mapsto> moded_user serv p (sign = CHR ''+'') (user_at m a))"
  by (rule userlist_update_mode_inv [OF assms])

theorem userlist_update_mode_correct_witness:
  "\<exists>m' sess'. userlist_update_mode demo_server demo_channel ''BOB'' (CHR ''o'') (CHR ''-'') =
      Some (m', sess') \<and> ul_inv demo_server (m', sess') \<and> ops sess' = 0 \<and>
      u_prefix (user_at m' 1) = NUL"
proof -
  have "\<exists>m' sess'. userlist_update_mode demo_server demo_channel ''BOB'' (CHR ''o'') (CHR ''-'') =
      Some (m', sess') \<and> ul_inv demo_server (m', sess') \<and> set (sess_elems sess') = {1} \<and>
      user_at m' 1 = moded_user demo_server 0 False demo_bob"
    using userlist_update_mode_correct [of demo_server "fst demo_channel" "snd demo_channel"
        "''BOB''" 1 "CHR ''o''" 0 "CHR ''-''"] demo_channel_inv demo_find
    by (auto simp: demo_server_simps demo_simps user_at_def)
  then obtain m' sess' where st: "userlist_update_mode demo_server demo_channel ''BOB'' (CHR ''o'') (CHR ''-'') =
      Some (m', sess')" "ul_inv demo_server (m', sess')" "set (sess_elems sess') = {1}"
      "user_at m' 1 = moded_user demo_server 0 False demo_bob" by auto
  have u: "u_op (user_at m' 1) = False" "u_prefix (user_at m' 1) = NUL"
    unfolding st(4) by (simp_all add: moded_user_def demo_server_simps demo_bob_def new_user_def
        get_nick_prefix_def)
  have "ops sess' = 0"
    using st(2,3) u(1) by (auto simp: ul_inv_def counts_ok_def cnt_def filter_empty_conv)
  with st(1,2) u(2) show ?thesis by auto
qed

text \<open>C5: \<open>userlist_change\<close> to a nick nobody else in the channel uses returns, keeps the
  invariant (the user is moved to its new place in the order), and changes only the nick.\<close>

theorem userlist_change_correct:
  assumes "ul_inv serv (m, sess)" "userlist_find serv (m, sess) oldname = Some a"
    "safe_strcpy newname NICKLEN = Some nick" "name_ok serv nick"
    "\<forall>x \<in> set (sess_elems sess) - {a}. p_cmp serv nick (nick_at m x) \<noteq> 0"
  shows "\<exists>m' sess'. userlist_change serv (m, sess) oldname newname = Some ((m', sess'), True) \<and>
    ul_inv serv (m', sess') \<and> set (sess_elems sess') = set (sess_elems sess) \<and>
    heap m' = (heap m)(a \<mapsto> (user_at m a)\<lparr>u_nick := nick\<rparr>)"
  by (rule userlist_change_inv [OF assms])

theorem userlist_change_correct_witness:
  "\<exists>m' sess'. userlist_change demo_server demo_channel ''BOB'' ''alice'' = Some ((m', sess'), True) \<and>
    ul_inv demo_server (m', sess') \<and> nick_at m' 1 = ''alice''"
proof -
  have copy: "safe_strcpy ''alice'' NICKLEN = Some ''alice''"
    by (subst safe_strcpy_ascii) (simp_all add: ascii_def uchar_def NICKLEN_def)
  show ?thesis
    using userlist_change_correct [of demo_server "fst demo_channel" "snd demo_channel" "''BOB''" 1
        "''alice''" "''alice''"] demo_channel_inv demo_find copy demo_name_ok(3)
    by (auto simp: demo_simps nick_at_def user_at_def)
qed

end
