(* ===== verification/ModesProofs.thy ===== *)
theory ModesProofs
  imports Modes UserListProofs
begin

text \<open>
  Correctness of the MODE handling: the lines sent fit the protocol, the recorded mode
  string is a faithful map from mode letters to arguments, and no MODE line of the server
  breaks the invariant of any channel's user list.
\<close>

subsection \<open>A MODE line keeps every user list intact\<close>

definition world_inv :: "world \<Rightarrow> bool" where
  "world_inv w \<longleftrightarrow> prefixes_ok (w_serv w) \<and>
     (\<forall>a \<ge> next_addr (w_mem w). heap (w_mem w) a = None) \<and>
     (\<forall>s \<in> set (w_sessions w). sess_server s = serv_addr (w_serv w) \<longrightarrow>
        ul_inv (w_serv w) (w_mem w, s)) \<and>
     (\<forall>i < length (w_sessions w). \<forall>j < length (w_sessions w). i \<noteq> j \<and>
        sess_server (w_sessions w ! i) = serv_addr (w_serv w) \<and>
        sess_server (w_sessions w ! j) = serv_addr (w_serv w) \<longrightarrow>
        set (sess_elems (w_sessions w ! i)) \<inter> set (sess_elems (w_sessions w ! j)) = {})"

text \<open>The fields of a session the invariant reads.\<close>

definition same_list :: "session \<Rightarrow> session \<Rightarrow> bool" where
  "same_list s t \<longleftrightarrow> usertree s = usertree t \<and> me s = me t \<and> ops s = ops t \<and> hops s = hops t \<and>
     voices s = voices t \<and> total s = total t \<and> sess_server s = sess_server t"

lemma same_list_refl [simp]: "same_list s s"
  by (simp add: same_list_def)

lemma same_list_elems: "same_list s t \<Longrightarrow> sess_elems s = sess_elems t"
  by (simp add: same_list_def sess_elems_def)

lemma ul_inv_same_list: "same_list s t \<Longrightarrow> ul_inv serv (m, s) = ul_inv serv (m, t)"
  using same_list_elems [of s t] by (simp add: same_list_def ul_inv_def counts_ok_def)

lemma ul_inv_frame:
  assumes "ul_inv serv (m, s)" "\<And>x. x \<in> set (sess_elems s) \<Longrightarrow> heap m' x = heap m x"
    and "\<And>x. next_addr m' \<le> x \<Longrightarrow> heap m' x = None"
  shows "ul_inv serv (m', s)"
proof -
  have "arr_inv serv m (sess_elems s)" "counts_ok m s (sess_elems s)"
    using assms(1) by (simp_all add: ul_inv_def)
  then have "arr_inv serv m' (sess_elems s)" "counts_ok m' s (sess_elems s)"
    using arr_inv_heap [of serv m "sess_elems s" m'] counts_ok_heap [of m s "sess_elems s" m'] assms(2,3)
    by blast+
  with assms(1) show ?thesis by (simp add: ul_inv_def)
qed

lemma w_emit_simps [simp]:
  "w_serv (w_emit c w) = w_serv w" "w_sessions (w_emit c w) = w_sessions w"
  "w_mem (w_emit c w) = emit c (w_mem w)" "w_front (w_emit c w) = w_front w"
  by (simp_all add: w_emit_def)

lemma put_session_simps [simp]:
  "w_serv (put_session i s w) = w_serv w" "w_mem (put_session i s w) = w_mem w"
  "w_sessions (put_session i s w) = (w_sessions w)[i := s]" "w_front (put_session i s w) = w_front w"
  by (simp_all add: put_session_def)

lemma unless_quiet_simps [simp]:
  "w_serv (unless_quiet q ev args w) = w_serv w"
  "w_sessions (unless_quiet q ev args w) = w_sessions w"
  by (simp_all add: unless_quiet_def)

lemma world_inv_emit [simp]: "world_inv (w_emit c w) = world_inv w"
  by (simp add: world_inv_def)

lemma world_inv_quiet [simp]: "world_inv (unless_quiet q ev args w) = world_inv w"
  by (simp add: unless_quiet_def)

lemma world_inv_put:
  assumes inv: "world_inv w" and i: "i < length (w_sessions w)"
    and same: "same_list s (w_sessions w ! i)"
  shows "world_inv (put_session i s w)"
proof -
  have elems: "sess_elems ((w_sessions w)[i := s] ! k) = sess_elems (w_sessions w ! k)"
      "sess_server ((w_sessions w)[i := s] ! k) = sess_server (w_sessions w ! k)"
    if "k < length (w_sessions w)" for k
    using that same_list_elems [OF same] same by (cases "k = i"; auto simp: same_list_def)+
  have "sess_server t = serv_addr (w_serv w) \<longrightarrow> ul_inv (w_serv w) (w_mem w, t)"
    if "t \<in> set ((w_sessions w)[i := s])" for t
  proof -
    from that consider "t = s" | "t \<in> set (w_sessions w)"
      using set_update_subset_insert [of "w_sessions w" i s] by blast
    then show ?thesis
    proof cases
      case 1
      have "w_sessions w ! i \<in> set (w_sessions w)" using i by simp
      moreover have "sess_server s = sess_server (w_sessions w ! i)" using same by (simp add: same_list_def)
      ultimately show ?thesis
        using inv ul_inv_same_list [OF same] 1 by (simp add: world_inv_def)
    next
      case 2
      with inv show ?thesis by (simp add: world_inv_def)
    qed
  qed
  with inv elems show ?thesis by (simp add: world_inv_def)
qed

lemma find_channel_from_Some:
  "find_channel_from serv ss chan k = Some i \<Longrightarrow>
   k \<le> i \<and> i < k + length ss \<and> sess_server (ss ! (i - k)) = serv_addr serv \<and>
   sess_type (ss ! (i - k)) = SESS_CHANNEL \<and> p_cmp serv chan (channel (ss ! (i - k))) = 0"
proof (induction ss arbitrary: k)
  case (Cons s ss)
  show ?case
  proof (cases "find_channel_from serv ss chan (k + 1) = Some i \<and> i \<noteq> k")
    case True
    with Cons.IH [of "k + 1"] have "k + 1 \<le> i" by blast
    then have "(s # ss) ! (i - k) = ss ! (i - (k + 1))" by (simp add: nth_Cons')
    with True Cons.IH [of "k + 1"] show ?thesis by auto
  next
    case False
    with Cons.prems have "i = k" using Cons.IH [of "k + 1"] by (auto split: if_splits)
    with Cons.prems Cons.IH [of "k + 1"] show ?thesis by (auto split: if_splits)
  qed
qed simp

lemma find_channel_Some:
  "find_channel w chan = Some i \<Longrightarrow>
   i < length (w_sessions w) \<and> sess_server (w_sessions w ! i) = serv_addr (w_serv w) \<and>
   sess_type (w_sessions w ! i) = SESS_CHANNEL \<and>
   p_cmp (w_serv w) chan (channel (w_sessions w ! i)) = 0"
  using find_channel_from_Some [of "w_serv w" "w_sessions w" chan 0 i] by (simp add: find_channel_def)

lemma strchr_index: "c \<noteq> NUL \<Longrightarrow> strchr s c \<noteq> None \<Longrightarrow> \<exists>p. index_of c s = Some p"
  using index_of_None [of c s] by (cases "index_of c s") (simp_all add: strchr_None)

lemma ul_tree_frame:
  "ul_tree_remove serv (m, s) a = Some (m', s') \<Longrightarrow> sess_server s' = sess_server s"
  "ul_tree_insert serv (m, s) a = Some (m', s') \<Longrightarrow> sess_server s' = sess_server s"
  "update_counts (m, s) a c l off = (m', s') \<Longrightarrow> sess_server s' = sess_server s"
  by (auto simp: ul_tree_remove_def ul_tree_insert_def update_counts_def Let_def
      split: option.splits if_splits)

lemma userlist_update_mode_server:
  assumes "userlist_update_mode serv (m, s) name mode sign = Some (m', s')"
  shows "sess_server s' = sess_server s"
proof (cases "userlist_find serv (m, s) name")
  case None
  with assms show ?thesis by (simp add: userlist_update_mode_def)
next
  case (Some a)
  then obtain m1 s1 where 1: "ul_tree_remove serv (m, s) a = Some (m1, s1)"
    using assms by (cases "ul_tree_remove serv (m, s) a") (auto simp: userlist_update_mode_def)
  obtain acc prefix where 2: "mode_access serv mode = Some (acc, prefix)" "\<not> acc < 0"
    using assms Some 1
    by (cases "mode_access serv mode") (auto simp: userlist_update_mode_def Let_def split: if_splits)
  obtain st1 u l off where 3: "update_counts (set_user a u (emit (Fe_userlist_remove a) m1), s1) a prefix l off = st1"
      "map_option (\<lambda>(m, s). (emit Fe_userlist_numbers (emit (Fe_userlist_insert a) m), s))
         (ul_tree_insert serv st1 a) = Some (m', s')"
    using assms unfolding userlist_update_mode_def Some 1 2(1) option.case prod.case Let_def if_not_P [OF 2(2)]
    by blast
  obtain m2 s2 where st1: "st1 = (m2, s2)" by (cases st1)
  obtain m3 where 4: "ul_tree_insert serv (m2, s2) a = Some (m3, s')"
    using 3(2) unfolding st1 by auto
  show ?thesis
    using ul_tree_frame(1) [OF 1] ul_tree_frame(3) [OF 3(1) [unfolded st1]] ul_tree_frame(2) [OF 4] by simp
qed

text \<open>
  What an operation on one session may do to the world: its own list stays in the invariant,
  it takes only users that were not live before, and leaves the users of others alone.
\<close>

definition ul_step :: "server \<Rightarrow> ul_state \<Rightarrow> ul_state \<Rightarrow> bool" where
  "ul_step serv st st' \<longleftrightarrow>
     ul_inv serv st' \<and> sess_server (snd st') = sess_server (snd st) \<and>
     (\<forall>x \<in> set (sess_elems (snd st')). x \<in> set (sess_elems (snd st)) \<or> heap (fst st) x = None) \<and>
     (\<forall>x. heap (fst st) x \<noteq> None \<and> x \<notin> set (sess_elems (snd st)) \<longrightarrow> heap (fst st') x = heap (fst st) x)"

lemma ul_step_refl: "ul_inv serv st \<Longrightarrow> ul_step serv st st"
  by (simp add: ul_step_def)

lemma ul_step_trans: "ul_step serv a b \<Longrightarrow> ul_step serv b c \<Longrightarrow> ul_step serv a c"
  unfolding ul_step_def by (intro conjI) (simp, simp, metis+)

lemma world_inv_step:
  assumes inv: "world_inv w" and i: "i < length (w_sessions w)"
    and srv: "sess_server (w_sessions w ! i) = serv_addr (w_serv w)"
    and step: "ul_step (w_serv w) (w_mem w, w_sessions w ! i) (m', s')"
  shows "world_inv (put_session i s' (w\<lparr>w_mem := m'\<rparr>))"
proof -
  let ?s = "w_sessions w ! i" and ?ss = "(w_sessions w)[i := s']"
  have s': "ul_inv (w_serv w) (m', s')" "sess_server s' = serv_addr (w_serv w)"
    using step srv by (simp_all add: ul_step_def)
  have other: "ul_inv (w_serv w) (m', w_sessions w ! k) \<and>
      set (sess_elems (w_sessions w ! k)) \<inter> set (sess_elems s') = {}"
    if k: "k < length (w_sessions w)" "k \<noteq> i" "sess_server (w_sessions w ! k) = serv_addr (w_serv w)" for k
  proof
    have ul: "ul_inv (w_serv w) (w_mem w, w_sessions w ! k)" using inv k by (simp add: world_inv_def)
    have disj: "set (sess_elems (w_sessions w ! k)) \<inter> set (sess_elems ?s) = {}"
      using inv i k srv by (simp add: world_inv_def)
    have live: "heap (w_mem w) x \<noteq> None" if "x \<in> set (sess_elems (w_sessions w ! k))" for x
      using ul_invD(3) [OF ul that] by simp
    have "heap m' x = heap (w_mem w) x" if "x \<in> set (sess_elems (w_sessions w ! k))" for x
    proof -
      have "x \<notin> set (sess_elems ?s)" using that disj by blast
      with live [OF that] step show ?thesis unfolding ul_step_def fst_conv snd_conv by blast
    qed
    then show "ul_inv (w_serv w) (m', w_sessions w ! k)"
      using ul_inv_frame [OF ul] ul_invD(4) [OF s'(1)] by blast
    show "set (sess_elems (w_sessions w ! k)) \<inter> set (sess_elems s') = {}"
      using disj live step unfolding ul_step_def fst_conv snd_conv by blast
  qed
  have "ul_inv (w_serv w) (m', ?ss ! k)"
    if "k < length (w_sessions w)" "sess_server (?ss ! k) = serv_addr (w_serv w)" for k
    using that other [of k] s' by (cases "k = i") auto
  moreover have "set (sess_elems (?ss ! j)) \<inter> set (sess_elems (?ss ! k)) = {}"
    if "j < length (w_sessions w)" "k < length (w_sessions w)" "j \<noteq> k"
      "sess_server (?ss ! j) = serv_addr (w_serv w)" "sess_server (?ss ! k) = serv_addr (w_serv w)" for j k
  proof (cases "j = i \<or> k = i")
    case True
    then show ?thesis using that other [of k] other [of j] i by auto
  next
    case False
    then show ?thesis using that inv by (simp add: world_inv_def)
  qed
  ultimately show ?thesis
    using inv ul_invD(4) [OF s'(1)] by (auto simp: world_inv_def in_set_conv_nth)
qed

lemma ul_step_update_mode:
  assumes inv: "ul_inv serv (m, s)" and ok: "prefixes_ok serv"
    and mode: "index_of mode (nick_modes serv) = Some p"
  shows "\<exists>m' s'. userlist_update_mode serv (m, s) name mode sign = Some (m', s') \<and>
    ul_step serv (m, s) (m', s')"
proof (cases "userlist_find serv (m, s) name")
  case None
  then show ?thesis using inv by (simp add: userlist_update_mode_def ul_step_refl)
next
  case (Some a)
  with userlist_update_mode_inv [OF inv ok Some mode, of sign] userlist_findD [OF Some]
  show ?thesis
    by (fastforce simp: ul_step_def dest: userlist_update_mode_server)
qed

lemma world_inv_update_mode:
  assumes inv: "world_inv w" and i: "i < length (w_sessions w)"
    and srv: "sess_server (w_sessions w ! i) = serv_addr (w_serv w)"
    and mode: "index_of mode (nick_modes (w_serv w)) = Some p"
  shows "\<exists>m' s'. userlist_update_mode (w_serv w) (w_mem w, w_sessions w ! i) name mode sign = Some (m', s') \<and>
    world_inv (put_session i s' (w\<lparr>w_mem := m'\<rparr>))"
  using ul_step_update_mode [OF _ _ mode, of "w_mem w" "w_sessions w ! i" name sign]
    world_inv_step [OF inv i srv] inv i srv
  by (auto simp: world_inv_def)

text \<open>The effect of the two switches on the world: a chain of harmless writes.\<close>

lemma world_inv_put_simps:
  assumes "world_inv w" "i < length (w_sessions w)"
  shows "world_inv (put_session i ((w_sessions w ! i)\<lparr>channelkey := key\<rparr>) w)"
    and "world_inv (put_session i ((w_sessions w ! i)\<lparr>chan_limit := n\<rparr>) w)"
  using assms by (simp_all add: world_inv_put same_list_def)

definition keeps :: "world \<Rightarrow> world \<times> mode_run \<times> bool \<Rightarrow> bool" where
  "keeps w r \<longleftrightarrow> world_inv (fst r) \<and> w_serv (fst r) = w_serv w"

lemma keeps_if: "keeps w a \<Longrightarrow> keeps w b \<Longrightarrow> keeps w (if c then a else b)"
  by simp

lemma all_keeps_if:
  "pred_option (keeps w) a \<Longrightarrow> pred_option (keeps w) b \<Longrightarrow> pred_option (keeps w) (if c then a else b)"
  by simp

lemma set_mode_case_inv:
  assumes "world_inv w" "i < length (w_sessions w)"
  shows "pred_option (keeps w) (set_mode_case i mode nick arg quiet w mr)"
  unfolding set_mode_case_def Let_def
  by (intro all_keeps_if)
    (simp_all add: keeps_def world_inv_put_simps [OF assms] assms(1) pred_option_def option.set_map)

lemma unset_mode_case_inv:
  assumes "world_inv w" "i < length (w_sessions w)"
  shows "keeps w (unset_mode_case i mode nick arg quiet w mr)"
  unfolding unset_mode_case_def Let_def
  by (intro keeps_if) (simp_all add: keeps_def world_inv_put_simps [OF assms] assms(1))

lemma genmode_inv: "world_inv w \<Longrightarrow> world_inv (genmode sign mode nick chan arg quiet w)"
  and genmode_serv: "w_serv (genmode sign mode nick chan arg quiet w) = w_serv w"
  by (simp_all add: genmode_def Let_def)

lemma some_if: "a \<noteq> None \<Longrightarrow> b \<noteq> None \<Longrightarrow> (if c then a else b) \<noteq> None"
  by simp

lemma set_mode_case_Some: "safe_strcpy arg 64 \<noteq> None \<Longrightarrow> set_mode_case i mode nick arg quiet w mr \<noteq> None"
  unfolding set_mode_case_def Let_def by (intro some_if) simp_all

lemma record_chan_mode_same_list [simp]: "same_list (record_chan_mode serv s sign mode arg) s"
  by (simp add: record_chan_mode_def same_list_def)

lemma handle_single_mode_inv:
  assumes inv: "world_inv w" and mode: "mode \<noteq> NUL" and arg: "safe_strcpy arg 64 \<noteq> None"
  shows "\<exists>w' mr'. handle_single_mode sign mode nick chan arg quiet is_324 w mr = Some (w', mr') \<and>
    world_inv w' \<and> w_serv w' = w_serv w"
proof (cases "find_channel w chan")
  case None
  then show ?thesis
    using inv genmode_inv genmode_serv by (simp add: handle_single_mode_def)
next
  case (Some i)
  from find_channel_Some [OF Some]
  have i: "i < length (w_sessions w)" "sess_server (w_sessions w ! i) = serv_addr (w_serv w)" by auto
  show ?thesis
  proof (cases "is_channel (w_serv w) chan")
    case False
    then show ?thesis
      using inv genmode_inv genmode_serv Some by (simp add: handle_single_mode_def)
  next
    case chan: True
    let ?serv = "w_serv w" and ?s = "w_sessions w ! i"
    define updated where "updated =
      (if strchr (nick_modes ?serv) mode \<noteq> None
       then userlist_update_mode ?serv (w_mem w, ?s) arg mode sign
       else Some (w_mem w,
         if \<not> is_324 \<and> \<not> ignore_mode ?s \<and> mode_chanmode_type ?serv mode \<ge> 1
         then record_chan_mode ?serv ?s sign mode arg else ?s))"
    obtain m s where u: "updated = Some (m, s)" "world_inv (put_session i s (w\<lparr>w_mem := m\<rparr>))"
    proof (cases "strchr (nick_modes ?serv) mode = None")
      case True
      have "world_inv (put_session i t w)" if "same_list t ?s" for t
        using inv i(1) that by (rule world_inv_put)
      with True that show ?thesis by (auto simp: updated_def put_session_def)
    next
      case False
      with strchr_index [OF mode] obtain p where "index_of mode (nick_modes ?serv) = Some p" by blast
      from world_inv_update_mode [OF inv i this, where name = arg and sign = sign] False that show ?thesis by (auto simp: updated_def)
    qed
    let ?w = "put_session i s (w\<lparr>w_mem := m\<rparr>)"
    have iw: "i < length (w_sessions ?w)" using i(1) by simp
    define step where "step =
      (if sign = CHR ''+'' then set_mode_case i mode nick arg quiet ?w mr
       else if sign = CHR ''-'' then Some (unset_mode_case i mode nick arg quiet ?w mr)
       else Some (?w, mr, False))"
    have "pred_option (keeps ?w) step"
      unfolding step_def
      by (intro all_keeps_if set_mode_case_inv [OF u(2) iw])
        (use unset_mode_case_inv [OF u(2) iw] u(2) in \<open>simp_all add: keeps_def\<close>)
    moreover have "step \<noteq> None"
      unfolding step_def by (intro some_if set_mode_case_Some [OF arg]) simp_all
    ultimately obtain w1 mr1 r where st: "step = Some (w1, mr1, r)" "world_inv w1" "w_serv w1 = w_serv w"
      by (auto simp: keeps_def)
    have "handle_single_mode sign mode nick chan arg quiet is_324 w mr =
        (if r then Some (w1, mr1)
         else Some (genmode sign mode nick chan arg quiet (w_emit (Fe_update_mode_buttons mode sign) w1), mr1))"
      using Some chan u(1) st(1)
      unfolding handle_single_mode_def updated_def step_def Let_def by (simp only: option.case prod.case if_False not_True_eq_False)
    with st(2,3) show ?thesis by (auto simp: genmode_serv intro: genmode_inv)
  qed
qed

lemma mode_print_grouped_inv:
  assumes "world_inv w" and "mode_print_grouped nick mr (w_mem w) = (m, mr')"
  shows "world_inv (w\<lparr>w_mem := m\<rparr>)"
proof -
  have grp: "world_inv (w\<lparr>w_mem := emit_group ev nick g m\<rparr>)" if "world_inv (w\<lparr>w_mem := m\<rparr>)" for ev g m
    using that by (cases g) (simp_all add: emit_group_def world_inv_def)
  show ?thesis
    using assms grp by (auto simp: mode_print_grouped_def)
qed

lemma mode_loop_inv:
  "world_inv w \<Longrightarrow> no_nul modes \<Longrightarrow>
   (\<forall>k. safe_strcpy (STRIP_COLON (ma_word ma) (ma_word_eol ma) k) 64 \<noteq> None) \<Longrightarrow>
   \<exists>w' mr'. mode_loop ma modes sign arg w mr = Some (w', mr') \<and> world_inv w'"
proof (induction modes arbitrary: sign arg w mr)
  case Nil
  then show ?case by simp
next
  case (Cons c modes)
  show ?case
  proof (cases "c = CHR ''-'' \<or> c = CHR ''+''")
    case True
    obtain m mr' where g: "mode_print_grouped (ma_nick ma) mr (w_mem w) = (m, mr')" by fastforce
    with mode_print_grouped_inv [OF Cons.prems(1) g] Cons.IH [of "w\<lparr>w_mem := m\<rparr>" c arg mr'] Cons.prems True
    show ?thesis by simp
  next
    case False
    let ?takes = "(ma_all ma \<or> mode_has_arg (w_serv w) sign c) \<and> arg < ma_num_args ma + 1"
    let ?arg = "if ?takes then arg + 1 else arg"
    let ?str = "if ?takes then STRIP_COLON (ma_word ma) (ma_word_eol ma) (?arg + ma_offset ma) else []"
    have str: "safe_strcpy ?str 64 \<noteq> None"
      using Cons.prems(3) safe_strcpy_ascii [of "[]" 64] by simp
    obtain w' mr' where h: "handle_single_mode sign c (ma_nick ma) (ma_chan ma) ?str (ma_quiet ma) (ma_is_324 ma) w mr =
        Some (w', mr')" "world_inv w'"
      using handle_single_mode_inv [OF Cons.prems(1) _ str] Cons.prems(2) by (metis no_nul_Cons)
    then obtain w'' mr'' where "mode_loop ma modes sign ?arg w' mr' = Some (w'', mr'')" "world_inv w''"
      using Cons.IH [of w' sign ?arg mr'] Cons.prems by (metis no_nul_Cons)
    with False h show ?thesis by (simp only: mode_loop.simps Let_def option.case prod.case if_False) blast
  qed
qed

lemma handle_mode_inv:
  assumes inv: "world_inv w" and offset: "offset = (if numeric_324 then 4 else 3)"
    and modes: "no_nul (word (offset + 1))"
    and args: "\<forall>k. safe_strcpy (STRIP_COLON word (trim_eol offset word_eol) k) 64 \<noteq> None"
  shows "\<exists>w'. handle_mode raw_modes w word word_eol nick numeric_324 = Some w' \<and> world_inv w'"
proof -
  let ?modes = "if cur (word (offset + 1)) = CHR '':'' then drop 1 (word (offset + 1)) else word (offset + 1)"
  show ?thesis
  proof (cases ?modes)
    case Nil
    then show ?thesis using inv by (simp add: handle_mode_def offset [symmetric] Let_def)
  next
    case (Cons sign rest)
    have "no_nul ?modes" using modes by (cases "word (offset + 1)") auto
    then have nn: "no_nul rest" using Cons by simp
    define w1 where "w1 = (if raw_modes \<and> \<not> numeric_324
      then w_emit (Emit ''RAWMODES'' [nick, trim_eol offset word_eol offset]) w else w)"
    define w2 where "w2 = (case find_channel w (word offset) of
        Some i \<Rightarrow> if numeric_324 then put_session i ((w_sessions w1 ! i)
          \<lparr>current_modes := trim_eol offset word_eol (offset + 1)\<rparr>) w1 else w1
      | None \<Rightarrow> w1)"
    have "world_inv w1" "w_sessions w1 = w_sessions w" using inv by (simp_all add: w1_def)
    then have i2: "world_inv w2"
      using find_channel_Some [of w "word offset"]
      by (auto simp: w2_def same_list_def split: option.split intro!: world_inv_put)
    define ma where "ma = \<lparr>ma_word = word, ma_word_eol = trim_eol offset word_eol, ma_offset = offset,
      ma_num_args = count_mode_args word offset 1 0,
      ma_all = (count_mode_args word offset 1 0 =
        length (filter (\<lambda>c. c \<noteq> CHR ''+'' \<and> c \<noteq> CHR ''-'') rest)),
      ma_nick = nick, ma_chan = word offset, ma_quiet = (numeric_324 \<or> raw_modes), ma_is_324 = numeric_324\<rparr>"
    have "\<forall>k. safe_strcpy (STRIP_COLON (ma_word ma) (ma_word_eol ma) k) 64 \<noteq> None"
      using args by (simp add: ma_def)
    from mode_loop_inv [OF i2 nn this, of sign 1 no_modes] obtain w3 mr where
      loop: "mode_loop ma rest sign 1 w2 no_modes = Some (w3, mr)" "world_inv w3" by blast
    define w4 where "w4 = (if find_channel w (word offset) = None then w3 else w_emit Fe_set_title w3)"
    have i4: "world_inv w4" using loop(2) by (simp add: w4_def)
    have "handle_mode raw_modes w word word_eol nick numeric_324 =
        Some (w4\<lparr>w_mem := fst (mode_print_grouped nick mr (w_mem w4))\<rparr>)"
      unfolding handle_mode_def Let_def offset [symmetric] Cons list.case
        w1_def [symmetric] w2_def [symmetric] ma_def [symmetric] loop(1) option.case prod.case
      by (simp only: w4_def)
    moreover have "world_inv (w4\<lparr>w_mem := fst (mode_print_grouped nick mr (w_mem w4))\<rparr>)"
      by (rule mode_print_grouped_inv [OF i4]) (rule prod.collapse [symmetric])
    ultimately show ?thesis by blast
  qed
qed

text \<open>The arguments read are inside \<open>word[]\<close>.\<close>

lemma count_mode_args_bound:
  "i + offset < PDIWORDS \<Longrightarrow> count_mode_args word offset i n + i + offset < PDIWORDS + n"
proof (induction word offset i n rule: count_mode_args.induct)
  case (1 word offset i n)
  show ?case
  proof (cases "i + offset + 1 < PDIWORDS")
    case True
    with 1 show ?thesis by (subst count_mode_args.simps) (force simp: Let_def)
  next
    case False
    with 1 show ?thesis by (subst count_mode_args.simps) simp
  qed
qed

subsection \<open>The lines sent\<close>

lemma usable_modes_fit:
  "usable_modes limit n len nicks = k \<Longrightarrow> 0 < k \<Longrightarrow>
   k \<le> n \<and> len + int (length (concat (map (\<lambda>w. CHR '' '' # w) (take k nicks)))) \<le> limit"
proof (induction limit n len nicks arbitrary: k rule: usable_modes.induct)
  case (3 limit n len w ws)
  let ?wlen = "int (length w) + 1"
  have fit: "\<not> ?wlen + len > limit" using "3.prems" by (auto simp: Let_def)
  let ?k = "usable_modes limit n (len + ?wlen) ws"
  have k: "k = Suc ?k" using "3.prems" fit by (simp add: Let_def)
  show ?case
  proof (cases "?k = 0")
    case True
    with k fit show ?thesis by simp
  next
    case False
    with "3.IH" [OF refl fit refl] have "?k \<le> n \<and>
        len + ?wlen + int (length (concat (map (\<lambda>w. CHR '' '' # w) (take ?k ws)))) \<le> limit" by simp
    with k show ?thesis by simp
  qed
qed simp_all

lemma length_mode_line:
  "length (mode_line sign mode nicks) =
     1 + length nicks + length (concat (map (\<lambda>w. CHR '' '' # w) nicks))"
  by (simp add: mode_line_def)

lemma send_modes_loop_fit:
  "line \<in> set (send_modes_loop limit mpl sign mode nicks) \<Longrightarrow> int (length line) \<le> limit + 1"
proof (induction limit mpl sign mode nicks rule: send_modes_loop.induct)
  case (1 limit mpl sign mode nicks)
  let ?n = "usable_modes limit mpl (int mpl) nicks"
  from "1.prems" have ne: "nicks \<noteq> []" "\<not> ?n < 1"
    by (auto simp: send_modes_loop.simps [of limit mpl sign mode nicks] Let_def split: if_splits)
  with "1.prems" have "line = mode_line sign mode (take ?n nicks) \<or>
      line \<in> set (send_modes_loop limit mpl sign mode (drop ?n nicks))"
    by (simp add: send_modes_loop.simps [of limit mpl sign mode nicks] Let_def)
  then show ?case
  proof
    assume "line \<in> set (send_modes_loop limit mpl sign mode (drop ?n nicks))"
    with "1.IH" [OF ne(1) refl ne(2)] show ?thesis .
  next
    assume line: "line = mode_line sign mode (take ?n nicks)"
    have "?n \<le> mpl \<and> int mpl + int (length (concat (map (\<lambda>w. CHR '' '' # w) (take ?n nicks)))) \<le> limit"
      using usable_modes_fit [OF refl, of limit mpl "int mpl" nicks] ne(2) by simp
    moreover have "length (take ?n nicks) \<le> ?n" by simp
    ultimately show ?thesis unfolding line length_mode_line by linarith
  qed
qed

lemma usable_modes_pos:
  "nicks \<noteq> [] \<Longrightarrow> 0 < n \<Longrightarrow> len + int (length (hd nicks)) + 1 \<le> limit \<Longrightarrow>
   0 < usable_modes limit n len nicks"
  by (cases nicks; cases n) (auto simp: Let_def)

lemma send_modes_loop_all:
  "0 < mpl \<Longrightarrow> \<forall>w \<in> set nicks. int mpl + int (length w) + 1 \<le> limit \<Longrightarrow>
   \<exists>groups. send_modes_loop limit mpl sign mode nicks = map (mode_line sign mode) groups \<and>
     concat groups = nicks \<and> (\<forall>g \<in> set groups. g \<noteq> [] \<and> length g \<le> mpl)"
proof (induction limit mpl sign mode nicks rule: send_modes_loop.induct)
  case (1 limit mpl sign mode nicks)
  show ?case
  proof (cases "nicks = []")
    case True
    then show ?thesis by (simp add: send_modes_loop.simps)
  next
    case False
    let ?n = "usable_modes limit mpl (int mpl) nicks"
    have pos: "0 < ?n" using 1 False by (intro usable_modes_pos) auto
    then have n: "\<not> ?n < 1" by simp
    have "\<forall>w \<in> set (drop ?n nicks). int mpl + int (length w) + 1 \<le> limit"
      using "1.prems"(2) by (meson in_set_dropD)
    from "1.IH" [OF False refl n "1.prems"(1) this] obtain groups where
      g: "send_modes_loop limit mpl sign mode (drop ?n nicks) = map (mode_line sign mode) groups"
        "concat groups = drop ?n nicks" "\<forall>g \<in> set groups. g \<noteq> [] \<and> length g \<le> mpl" by blast
    have "?n \<le> mpl" using usable_modes_fit [OF refl pos] by simp
    then have "length (take ?n nicks) \<le> mpl" "take ?n nicks \<noteq> []" using pos False by auto
    then show ?thesis
      using False n g send_modes_loop.simps [of limit mpl sign mode nicks]
      by (intro exI [of _ "take ?n nicks # groups"]) (simp add: Let_def)
  qed
qed

subsection \<open>The mode string is a map from letters to arguments\<close>

text \<open>
  \<open>current_modes\<close> of a channel is the rendering of a list of modes with their arguments:
  the letters, then the arguments in the order of their letters, each behind a space.
\<close>

type_synonym mode_entry = "char \<times> string option"

definition arg_text :: "mode_entry \<Rightarrow> string" where
  "arg_text e = (case snd e of None \<Rightarrow> [] | Some a \<Rightarrow> CHR '' '' # a)"

definition render_modes :: "mode_entry list \<Rightarrow> string" where
  "render_modes ms = map fst ms @ concat (map arg_text ms)"

definition modes_ok :: "server \<Rightarrow> mode_entry list \<Rightarrow> bool" where
  "modes_ok serv ms \<longleftrightarrow> distinct (map fst ms) \<and>
     (\<forall>(c, a) \<in> set ms. c \<noteq> CHR '' '' \<and> (mode_has_arg serv (CHR ''+'') c \<longleftrightarrow> a \<noteq> None) \<and>
        (\<forall>x. a = Some x \<longrightarrow> CHR '' '' \<notin> set x))"

definition spec_mode :: "server \<Rightarrow> char \<Rightarrow> char \<Rightarrow> string \<Rightarrow> mode_entry list \<Rightarrow> mode_entry list" where
  "spec_mode serv sign mode arg ms =
     (let entry = (if mode_has_arg serv (CHR ''+'') mode then Some arg else None) in
      if sign = CHR ''+'' then
        (if mode \<in> fst ` set ms then map (\<lambda>e. if fst e = mode then (mode, entry) else e) ms
         else ms @ [(mode, entry)])
      else if sign = CHR ''-'' then filter (\<lambda>e. fst e \<noteq> mode) ms
      else ms)"

lemma modes_okD:
  assumes "modes_ok serv ms" "(c, a) \<in> set ms"
  shows "c \<noteq> CHR '' ''" "mode_has_arg serv (CHR ''+'') c \<longleftrightarrow> a \<noteq> None"
    "a = Some x \<Longrightarrow> CHR '' '' \<notin> set x"
  using bspec [OF conjunct2 [OF assms(1) [unfolded modes_ok_def]] assms(2)] by auto

lemma takeWhile_args: "takeWhile (\<lambda>c. c \<noteq> CHR '' '') (concat (map arg_text ms)) = []"
  by (induction ms) (auto simp: arg_text_def split: option.split)

lemma takeWhile_letters:
  assumes "modes_ok serv ms"
  shows "takeWhile (\<lambda>c. c \<noteq> CHR '' '') (render_modes ms) = map fst ms"
proof -
  have "\<forall>c \<in> set (map fst ms). c \<noteq> CHR '' ''" using assms by (auto simp: modes_ok_def)
  then show ?thesis unfolding render_modes_def
    by (subst takeWhile_append2) (simp_all add: takeWhile_args del: set_map)
qed

lemma takeWhile_arg:
  "CHR '' '' \<notin> set x \<Longrightarrow>
   takeWhile (\<lambda>c. c \<noteq> CHR '' '') (x @ concat (map arg_text ms)) = x"
  by (subst takeWhile_append2) (auto simp: takeWhile_args)

lemma arg_start_skip: "CHR '' '' \<notin> set x \<Longrightarrow> 0 < num \<Longrightarrow> arg_start (x @ t) num pos = arg_start t num (pos + length x)"
  by (induction x arbitrary: pos) auto

lemma arg_start_render:
  "\<forall>(c, a) \<in> set pre. \<forall>x. a = Some x \<longrightarrow> CHR '' '' \<notin> set x \<Longrightarrow>
   arg_start (concat (map arg_text pre) @ CHR '' '' # t) (Suc (length (filter (\<lambda>e. snd e \<noteq> None) pre))) pos =
     (pos + length (concat (map arg_text pre)), True)"
proof (induction pre arbitrary: pos)
  case Nil
  show ?case by simp
next
  case (Cons e pre)
  obtain c a where e: "e = (c, a)" by fastforce
  show ?case
  proof (cases a)
    case None
    with Cons e show ?thesis by (simp add: arg_text_def)
  next
    case (Some x)
    with Cons.prems e have x: "CHR '' '' \<notin> set x" by auto
    show ?thesis using Cons.IH [of "pos + 1 + length x"] Cons.prems
      by (simp add: e Some arg_text_def arg_start_skip [OF x] add.assoc)
  qed
qed

lemma index_of_append: "c \<notin> set xs \<Longrightarrow> index_of c (xs @ c # ys) = Some (length xs)"
  by (induction xs) auto

lemma erase_mid: "g_string_erase (x @ y @ z) (length x) (length y) = x @ z"
  by (simp add: g_string_erase_def)

lemma insert_mid: "g_string_insert (x @ z) (length x) y = x @ y @ z"
  by (simp add: g_string_insert_def)

lemma mode_has_arg_plus_minus:
  "mode_has_arg serv (CHR ''-'') c \<Longrightarrow> mode_has_arg serv (CHR ''+'') c"
  by (auto simp: mode_has_arg_def Let_def split: if_splits)

text \<open>The position and length of the argument of a mode that is there.\<close>

lemma record_existing:
  assumes ok: "modes_ok serv (pre @ (c, a) # post)"
  defines "cm \<equiv> render_modes (pre @ (c, a) # post)"
  shows "index_of c (map fst (pre @ (c, a) # post)) = Some (length pre)"
    and "mode_has_arg serv (CHR ''+'') c \<Longrightarrow> \<exists>x. a = Some x \<and> CHR '' '' \<notin> set x \<and>
      arg_start (drop (length (map fst (pre @ (c, a) # post))) cm)
        (length (filter (mode_has_arg serv (CHR ''+'')) (take (length pre + 1) (map fst (pre @ (c, a) # post)))))
        (length (map fst (pre @ (c, a) # post))) =
      (length (map fst (pre @ (c, a) # post)) + length (concat (map arg_text pre)), True)"
proof -
  have "c \<notin> set (map fst pre)" using ok by (auto simp: modes_ok_def)
  from index_of_append [OF this] show "index_of c (map fst (pre @ (c, a) # post)) = Some (length pre)"
    by simp
next
  assume has: "mode_has_arg serv (CHR ''+'') c"
  have "(c, a) \<in> set (pre @ (c, a) # post)" by simp
  note D = modes_okD [OF ok this]
  obtain x where x: "a = Some x" using D(2) has by auto
  with D(3) have x: "a = Some x" "CHR '' '' \<notin> set x" by simp_all
  have pre: "mode_has_arg serv (CHR ''+'') (fst e) \<longleftrightarrow> snd e \<noteq> None" if "e \<in> set pre" for e
  proof -
    have "(fst e, snd e) \<in> set (pre @ (c, a) # post)" using that by simp
    from modes_okD(2) [OF ok this] show ?thesis .
  qed
  have "filter (mode_has_arg serv (CHR ''+'') \<circ> fst) pre = filter (\<lambda>e. snd e \<noteq> None) pre"
    by (rule filter_cong [OF refl]) (simp only: o_apply pre)
  then have num: "length (filter (mode_has_arg serv (CHR ''+'')) (take (length pre + 1) (map fst (pre @ (c, a) # post)))) =
      Suc (length (filter (\<lambda>e. snd e \<noteq> None) pre))"
    using has by (simp add: filter_map)
  have "\<forall>(c, a) \<in> set pre. \<forall>x. a = Some x \<longrightarrow> CHR '' '' \<notin> set x"
    using modes_okD(3) [OF ok] by fastforce
  note st = arg_start_render [OF this]
  have dr: "drop (length (map fst (pre @ (c, a) # post))) cm =
      concat (map arg_text pre) @ CHR '' '' # x @ concat (map arg_text post)"
    by (simp add: cm_def render_modes_def arg_text_def x(1))
  show "\<exists>x. a = Some x \<and> CHR '' '' \<notin> set x \<and>
      arg_start (drop (length (map fst (pre @ (c, a) # post))) cm)
        (length (filter (mode_has_arg serv (CHR ''+'')) (take (length pre + 1) (map fst (pre @ (c, a) # post)))))
        (length (map fst (pre @ (c, a) # post))) =
      (length (map fst (pre @ (c, a) # post)) + length (concat (map arg_text pre)), True)"
    unfolding num dr st using x by simp
qed

lemma record_mode_string_new:
  assumes ok: "modes_ok serv ms" and new: "mode \<notin> fst ` set ms"
  shows "record_mode_string serv (render_modes ms) sign mode arg =
    render_modes (spec_mode serv sign mode arg ms)"
proof -
  have idx: "index_of mode (map fst ms) = None" using new by (simp add: index_of_None image_iff)
  have "filter (\<lambda>e. fst e \<noteq> mode) ms = ms" using new by (intro filter_True; force)
  moreover have "record_mode_string serv (render_modes ms) sign mode arg =
    (if sign = CHR ''+'' then
       map fst ms @ mode # concat (map arg_text ms) @
         (if mode_has_arg serv (CHR ''+'') mode then CHR '' '' # arg else [])
     else render_modes ms)"
    unfolding record_mode_string_def takeWhile_letters [OF ok] idx Let_def option.case
    by (simp add: render_modes_def)
  ultimately show ?thesis
    using new by (simp add: spec_mode_def Let_def) (simp add: render_modes_def arg_text_def)
qed

lemma record_mode_string_existing:
  assumes ok: "modes_ok serv (pre @ (mode, a) # post)"
  shows "record_mode_string serv (render_modes (pre @ (mode, a) # post)) sign mode arg =
    render_modes (spec_mode serv sign mode arg (pre @ (mode, a) # post))"
proof -
  let ?ms = "pre @ (mode, a) # post"
  let ?L = "map fst ?ms" and ?P = "concat (map arg_text pre)" and ?R = "concat (map arg_text post)"
  have fresh: "mode \<notin> fst ` set pre" "mode \<notin> fst ` set post" using ok by (auto simp: modes_ok_def)
  have "filter (\<lambda>e. fst e \<noteq> mode) pre = pre" "filter (\<lambda>e. fst e \<noteq> mode) post = post"
    using fresh by (intro filter_True; force)+
  then have filt: "filter (\<lambda>e. fst e \<noteq> mode) ?ms = pre @ post" by simp
  have upd: "map (\<lambda>e. if fst e = mode then (mode, v) else e) ?ms = pre @ (mode, v) # post" for v
  proof -
    have "map (\<lambda>e. if fst e = mode then (mode, v) else e) pre = pre"
      "map (\<lambda>e. if fst e = mode then (mode, v) else e) post = post"
      using fresh by (intro map_idI; force)+
    then show ?thesis by simp
  qed
  have spec: "spec_mode serv sign mode arg ?ms =
      (let entry = (if mode_has_arg serv (CHR ''+'') mode then Some arg else None) in
       if sign = CHR ''+'' then pre @ (mode, entry) # post
       else if sign = CHR ''-'' then pre @ post else ?ms)"
    unfolding spec_mode_def upd filt by (simp add: image_iff)
  note idx = record_existing(1) [OF ok]
  show ?thesis
  proof (cases "mode_has_arg serv (CHR ''+'') mode")
    case False
    have "(mode, a) \<in> set ?ms" by simp
    from modes_okD(2) [OF ok this] False have a: "a = None" by simp
    have "g_string_erase (render_modes ?ms) (length pre) 1 = render_modes (pre @ post)"
      using erase_mid [of "map fst pre" "[mode]"] by (simp add: render_modes_def arg_text_def a)
    moreover have "record_mode_string serv (render_modes ?ms) sign mode arg =
        (if sign = CHR ''+'' then render_modes ?ms
         else if sign = CHR ''-'' then g_string_erase (render_modes ?ms) (length pre) 1 else render_modes ?ms)"
      unfolding record_mode_string_def takeWhile_letters [OF ok] idx Let_def option.case
      using False by (simp only: simp_thms if_False if_cancel prod.case cong: if_cong)
    ultimately show ?thesis unfolding spec Let_def using False by (simp add: a)
  next
    case True
    from record_existing(2) [OF ok True] obtain x where x: "a = Some x" "CHR '' '' \<notin> set x"
      and st: "arg_start (drop (length ?L) (render_modes ?ms))
        (length (filter (mode_has_arg serv (CHR ''+'')) (take (length pre + 1) ?L))) (length ?L) =
        (length ?L + length ?P, True)" by blast
    have cm: "render_modes ?ms = (?L @ ?P) @ CHR '' '' # x @ ?R"
      by (simp add: render_modes_def arg_text_def x(1))
    have len: "length (takeWhile (\<lambda>c. c \<noteq> CHR '' '') (drop (length ?L + length ?P + 1) (render_modes ?ms))) = length x"
      unfolding cm by (simp add: takeWhile_arg [OF x(2)])
    have e1: "g_string_erase (render_modes ?ms) (length ?L + length ?P + 1) (length x) = (?L @ ?P @ '' '') @ ?R"
      using erase_mid [of "?L @ ?P @ '' ''" x ?R] unfolding cm by (simp add: add.assoc)
    have i1: "g_string_insert ((?L @ ?P @ '' '') @ ?R) (length ?L + length ?P + 1) arg = render_modes (pre @ (mode, Some arg) # post)"
      using insert_mid [of "?L @ ?P @ '' ''" ?R arg] by (simp add: render_modes_def arg_text_def add.assoc)
    have e2: "g_string_erase (render_modes ?ms) (length ?L + length ?P) (Suc (length x)) = ?L @ ?P @ ?R"
      using erase_mid [of "?L @ ?P" "CHR '' '' # x" ?R] unfolding cm by (simp add: add.assoc)
    have e3: "g_string_erase (?L @ ?P @ ?R) (length pre) 1 = render_modes (pre @ post)"
      using erase_mid [of "map fst pre" "[mode]" "map fst post @ ?P @ ?R"] by (simp add: render_modes_def)
    have "record_mode_string serv (render_modes ?ms) sign mode arg =
        (if sign = CHR ''+'' then
           g_string_insert (g_string_erase (render_modes ?ms) (length ?L + length ?P + 1) (length x))
             (length ?L + length ?P + 1) arg
         else if sign = CHR ''-'' then
           g_string_erase (g_string_erase (render_modes ?ms) (length ?L + length ?P) (Suc (length x))) (length pre) 1
         else render_modes ?ms)"
      unfolding record_mode_string_def takeWhile_letters [OF ok] idx Let_def option.case
      using True
      by (simp only: simp_thms if_True if_False if_cancel prod.case st len nat.distinct diff_Suc_1
          option.distinct cong: if_cong)
    also have "\<dots> = render_modes (spec_mode serv sign mode arg ?ms)"
      unfolding e1 i1 e2 e3 using True by (simp only: spec Let_def if_True split: if_split) simp
    finally show ?thesis .
  qed
qed

lemma record_mode_string_spec:
  assumes ok: "modes_ok serv ms"
  shows "record_mode_string serv (render_modes ms) sign mode arg =
    render_modes (spec_mode serv sign mode arg ms)"
proof (cases "mode \<in> fst ` set ms")
  case True
  then obtain a where "(mode, a) \<in> set ms" by force
  then obtain pre post where "ms = pre @ (mode, a) # post" by (meson split_list)
  with record_mode_string_existing [of serv pre mode a post] ok show ?thesis by simp
qed (rule record_mode_string_new [OF ok])

lemma spec_mode_ok:
  assumes ok: "modes_ok serv ms" and mode: "mode \<noteq> CHR '' ''" and arg: "CHR '' '' \<notin> set arg"
  shows "modes_ok serv (spec_mode serv sign mode arg ms)"
proof -
  let ?v = "if mode_has_arg serv (CHR ''+'') mode then Some arg else None"
  have keys: "map fst (map (\<lambda>e. if fst e = mode then (mode, ?v) else e) ms) = map fst ms"
    by (induction ms) auto
  have upd: "modes_ok serv (map (\<lambda>e. if fst e = mode then (mode, ?v) else e) ms)"
    unfolding modes_ok_def keys
  proof (intro conjI ballI)
    show "distinct (map fst ms)" using ok by (simp add: modes_ok_def)
    fix e assume "e \<in> set (map (\<lambda>e. if fst e = mode then (mode, ?v) else e) ms)"
    then have "e = (mode, ?v) \<or> e \<in> set ms" by (auto split: if_splits)
    then show "case e of (c, a) \<Rightarrow> c \<noteq> CHR '' '' \<and> (mode_has_arg serv (CHR ''+'') c \<longleftrightarrow> a \<noteq> None) \<and>
        (\<forall>x. a = Some x \<longrightarrow> CHR '' '' \<notin> set x)"
    proof
      assume "e = (mode, ?v)"
      with mode arg show ?thesis by simp
    next
      assume "e \<in> set ms"
      then show ?thesis by (rule bspec [OF conjunct2 [OF ok [unfolded modes_ok_def]]])
    qed
  qed
  have new: "modes_ok serv (ms @ [(mode, ?v)])" if "mode \<notin> fst ` set ms"
    using ok mode arg that by (simp add: modes_ok_def)
  have del: "modes_ok serv (filter (\<lambda>e. fst e \<noteq> mode) ms)"
    using ok by (simp add: modes_ok_def distinct_map_filter)
  show ?thesis
    unfolding spec_mode_def Let_def
    by (intro if_split [where P = "modes_ok serv", THEN iffD2] conjI impI upd new del ok)
qed

subsection \<open>The properties of the MODE handling\<close>

text \<open>C6: A MODE or 324 line from the server, whatever it contains, is handled without reading
  outside the prefix tables or the user lists, and leaves the user list of every channel of
  the server in its invariant: sorted, flags and counters right, no user shared.\<close>

theorem handle_mode_safe:
  assumes "world_inv w" "offset = (if numeric_324 then 4 else 3)" "no_nul (word (offset + 1))"
    "\<forall>k. safe_strcpy (STRIP_COLON word (trim_eol offset word_eol) k) 64 \<noteq> None"
  shows "\<exists>w'. handle_mode raw_modes w word word_eol nick numeric_324 = Some w' \<and> world_inv w'"
  by (rule handle_mode_inv [OF assms])

definition demo_world :: world where
  "demo_world = \<lparr>w_mem = fst demo_channel, w_serv = demo_server, w_sessions = [snd demo_channel],
     w_front = 0, w_server_sess = 0, w_current = 0, w_away = []\<rparr>"

definition demo_words :: "nat \<Rightarrow> string" where
  "demo_words k = (if k = 3 then ''#c'' else if k = 4 then ''-o+k'' else if k = 5 then ''bob''
     else if k = 6 then ''key'' else [])"

lemma demo_world_inv: "world_inv demo_world"
  using demo_simps demo_server_simps(4) ul_invD(4) [of demo_server "fst demo_channel" "snd demo_channel"]
    demo_channel_inv
  by (simp add: world_inv_def demo_world_def)

theorem handle_mode_safe_witness:
  "\<exists>w'. handle_mode False demo_world demo_words (\<lambda>k. []) ''alice'' False = Some w' \<and> world_inv w'"
proof -
  have a: "ascii_str (STRIP_COLON demo_words (trim_eol 3 (\<lambda>k. [])) k)" for k
    by (simp add: STRIP_COLON_def trim_eol_def demo_words_def ascii_def uchar_def)
  show ?thesis
    by (rule handle_mode_safe [OF demo_world_inv, of 3])
      (simp_all add: safe_strcpy_ascii [OF a], simp add: demo_words_def)
qed

text \<open>C7: The recorded mode string is a map from mode letters to arguments: for a string that
  renders such a map, \<open>record_chan_mode\<close> yields the rendering of the map with the mode set,
  given its new argument, or removed, and that is again well formed.\<close>

theorem record_chan_mode_refines:
  assumes "modes_ok serv ms" "mode \<noteq> CHR '' ''" "CHR '' '' \<notin> set arg" "current_modes sess = render_modes ms"
  shows "current_modes (record_chan_mode serv sess sign mode arg) =
      render_modes (spec_mode serv sign mode arg ms) \<and>
    modes_ok serv (spec_mode serv sign mode arg ms)"
  using record_mode_string_spec [OF assms(1)] spec_mode_ok [OF assms(1-3)] assms(4)
  by (simp add: record_chan_mode_def)

theorem record_chan_mode_refines_witness:
  "current_modes (record_chan_mode demo_server
      ((snd demo_channel)\<lparr>current_modes := ''nkl key 5''\<rparr>) (CHR ''-'') (CHR ''k'') []) = ''nl 5''"
proof -
  let ?ms = "[(CHR ''n'', None), (CHR ''k'', Some ''key''), (CHR ''l'', Some ''5'')]"
  have cm: "chanmodes demo_server = ''beI,k,l''"
    by (simp add: demo_server_def new_server_def server_set_defaults_def)
  have "modes_ok demo_server ?ms"
    by (simp add: modes_ok_def mode_has_arg_def demo_server_simps mode_chanmode_type_def cm)
  moreover have "spec_mode demo_server (CHR ''-'') (CHR ''k'') [] ?ms =
      [(CHR ''n'', None), (CHR ''l'', Some ''5'')]"
    by (simp add: spec_mode_def)
  ultimately show ?thesis
    using record_chan_mode_refines [of demo_server ?ms "CHR ''k''" "[]"
        "(snd demo_channel)\<lparr>current_modes := ''nkl key 5''\<rparr>" "CHR ''-''"]
    by (simp add: render_modes_def arg_text_def)
qed

text \<open>C8: Every MODE line \<open>send_channel_modes\<close> sends fits the 512 bytes of the protocol,
  its line end included.\<close>

theorem send_channel_modes_fit:
  assumes "line \<in> set (snd (send_channel_modes serv chan nicks sign mode mpl))"
  shows "length (irc_mode chan line) \<le> 512"
proof -
  obtain n where "line \<in> set (send_modes_loop (503 - int (length chan)) n sign mode nicks)"
    using assms by (auto simp: send_channel_modes_def Let_def split: if_splits)
  from send_modes_loop_fit [OF this] show ?thesis by (simp add: irc_mode_def)
qed

lemma demo_send:
  "send_channel_modes demo_server ''#c'' [''al'', ''bob'', ''carl'', ''dan''] (CHR ''+'') (CHR ''o'') 0 =
    (demo_server, [''+ooo al bob carl'', ''+o dan''])"
  by (simp add: send_channel_modes_def send_modes_loop.simps mode_line_def demo_server_def
      new_server_def server_set_defaults_def eval_nat_numeral)

theorem send_channel_modes_fit_witness: "length (irc_mode ''#c'' ''+ooo al bob carl'') \<le> 512"
  by (rule send_channel_modes_fit [of _ demo_server _ "[''al'', ''bob'', ''carl'', ''dan'']" "CHR ''+''" "CHR ''o''" 0])
    (simp only: demo_send snd_conv, simp)

text \<open>When each nick fits a line, \<open>send_channel_modes\<close> sends them all, in order, each
  exactly once, in groups of at most \<open>modes_per_line\<close>.\<close>

theorem send_channel_modes_complete:
  assumes "0 < mpl" "\<forall>w \<in> set nicks. mpl + int (length w) + 1 \<le> 503 - int (length chan)"
  shows "\<exists>groups. snd (send_channel_modes serv chan nicks sign mode mpl) = map (mode_line sign mode) groups \<and>
    concat groups = nicks \<and> (\<forall>g \<in> set groups. g \<noteq> [] \<and> int (length g) \<le> mpl)"
  using send_modes_loop_all [of "nat mpl" nicks "503 - int (length chan)" sign mode] assms
  by (auto simp: send_channel_modes_def Let_def) (metis nat_le_iff le_nat_iff zless_nat_eq_int_zless less_imp_le)

theorem send_channel_modes_complete_witness:
  "\<exists>groups. snd (send_channel_modes demo_server ''#c'' [''al'', ''bob''] (CHR ''+'') (CHR ''o'') 1) =
      map (mode_line (CHR ''+'') (CHR ''o'')) groups \<and> concat groups = [''al'', ''bob'']"
  using send_channel_modes_complete [of 1 "[''al'', ''bob'']" "''#c''" demo_server "CHR ''+''" "CHR ''o''"]
  by auto

end
