(* ===== verification/Isupport.thy ===== *)
theory Isupport
  imports Modes
begin

text \<open>
  The 005 numeric (ISUPPORT): \<open>parse_005_token\<close> and \<open>inbound_005\<close> of \<open>modes.c\<close>, and the
  functions they call for encodings (\<open>server_set_encoding\<close>) and history limits
  (\<open>chathistory_parse_isupport\<close>). Which encodings iconv supports is a parameter.
\<close>

definition is_xdigit :: "char \<Rightarrow> bool" where
  "is_xdigit c \<longleftrightarrow> is_digit c \<or> (97 \<le> uchar (ascii_tolower c) \<and> uchar (ascii_tolower c) \<le> 102)"

definition hex_to_chr :: "char \<Rightarrow> nat" where
  "hex_to_chr chr = (if is_digit chr then uchar chr - 48 else uchar (ascii_tolower chr) - 97 + 10)"

text \<open>
  The copying loop of \<open>parse_005_token\<close>: \<open>\xHH\<close> is decoded; of any other escape up to four
  characters are skipped.
\<close>

fun unescape_005 :: "string \<Rightarrow> string" where
  "unescape_005 [] = []"
| "unescape_005 (c # s) =
     (if c = BACKSLASH then
        (case s of
           x # a # b # r \<Rightarrow>
             (if x = CHR ''x'' \<and> is_xdigit a \<and> is_xdigit b
              then char_of (16 * hex_to_chr a + hex_to_chr b) # unescape_005 r
              else unescape_005 r)
         | _ \<Rightarrow> [])
      else c # unescape_005 s)"

text \<open>The name, the value and \<open>*adding\<close>; what follows a decoded NUL is lost to its readers.\<close>

definition parse_005_token :: "string \<Rightarrow> string \<times> string \<times> bool" where
  "parse_005_token token =
     (let adding = (cur token \<noteq> CHR ''-''); token = (if adding then token else drop 1 token) in
      case strchr token (CHR ''='') of
        Some toksplit \<Rightarrow>
          (upto_chr token (CHR ''=''), upto_chr (unescape_005 (drop 1 toksplit)) NUL, adding)
      | None \<Rightarrow> (token, [], adding))"

definition server_set_encoding :: "(string \<Rightarrow> bool) \<Rightarrow> string option \<Rightarrow> server \<Rightarrow> server" where
  "server_set_encoding check_encoding new_encoding serv =
     (case new_encoding of
        None \<Rightarrow> serv\<lparr>encoding := ''UTF-8''\<rparr>
      | Some enc \<Rightarrow>
          let enc = upto_chr enc (CHR '' '') in
          if g_ascii_strcasecmp enc ''IRC'' = 0 then serv\<lparr>encoding := ''UTF-8''\<rparr>
          else if \<not> check_encoding enc then serv\<lparr>encoding := ''UTF-8''\<rparr>
          else serv\<lparr>encoding := enc\<rparr>)"

definition chathistory_parse_isupport :: "string \<Rightarrow> server \<Rightarrow> server" where
  "chathistory_parse_isupport val serv =
     (if val = [] then serv\<lparr>chathistory_limit := 0\<rparr>
      else
        let limit = atoi val in
        serv\<lparr>chathistory_limit :=
          (if limit = 0 \<and> strchr val (CHR ''='') \<noteq> None
           then foldl (\<lambda>l t. if has_prefix t ''limit='' then atoi (drop 6 t) else l) limit
                  (g_strsplit val (CHR '',''))
           else limit)\<rparr>)"

definition multiline_isupport :: "string \<Rightarrow> server \<Rightarrow> server" where
  "multiline_isupport val serv =
     foldl (\<lambda>serv t.
         if has_prefix t ''max-bytes='' then serv\<lparr>multiline_max_bytes := atoi (drop 10 t)\<rparr>
         else if has_prefix t ''max-lines='' then serv\<lparr>multiline_max_lines := atoi (drop 10 t)\<rparr>
         else serv)
       serv (g_strsplit val (CHR '',''))"

text \<open>
  \<open>PREFIX=(modes)prefixes\<close>. When the value starts with \<open>)\<close> that character becomes the
  terminator, so \<open>tokvalue + 1\<close> is the string behind it.
\<close>

definition prefix_isupport :: "string \<Rightarrow> server \<Rightarrow> server" where
  "prefix_isupport val serv =
     (case strchr val (CHR '')'') of
        Some pre \<Rightarrow>
          serv\<lparr>nick_prefixes := drop 1 pre,
               nick_modes := (if pre = val then drop 1 pre else drop 1 (upto_chr val (CHR '')'')))\<rparr>
      | None \<Rightarrow> serv\<lparr>bad_prefix := True, bad_nick_prefixes := Some val\<rparr>)"

text \<open>The state: the heap and trace, the server, and \<open>serv->server_session\<close>.\<close>

type_synonym isup_state = "mem \<times> server \<times> session"

definition token_005 :: "(string \<Rightarrow> bool) \<Rightarrow> string \<times> string \<times> bool \<Rightarrow> isup_state \<Rightarrow> isup_state option" where
  "token_005 check_encoding tok st =
     (let (tokname, tokvalue, tokadding) = tok; (m, serv, sess) = st in
      if tokname = ''MODES'' then Some (m, serv\<lparr>modes_per_line := atoi tokvalue\<rparr>, sess)
      else if tokname = ''CHANTYPES'' then Some (m, serv\<lparr>chantypes := tokvalue\<rparr>, sess)
      else if tokname = ''CHANMODES'' then Some (m, serv\<lparr>chanmodes := tokvalue\<rparr>, sess)
      else if tokname = ''PREFIX'' then Some (m, prefix_isupport tokvalue serv, sess)
      else if tokname = ''WATCH'' then Some (m, serv\<lparr>supports_watch := tokadding\<rparr>, sess)
      else if tokname = ''MONITOR'' then Some (m, serv\<lparr>supports_monitor := tokadding\<rparr>, sess)
      else if tokname = ''NETWORK'' then
        (if sess_type sess = SESS_SERVER \<and> tokvalue \<noteq> [] then
           map_option (\<lambda>chan. (emit (Fe_set_channel chan) m, serv, sess\<lparr>channel := chan\<rparr>))
             (safe_strcpy tokvalue CHANLEN)
         else Some st)
      else if tokname = ''CASEMAPPING'' then
        Some (m, if tokvalue = ''ascii'' then serv\<lparr>p_cmp_fn := G_ascii_strcasecmp\<rparr> else serv, sess)
      else if tokname = ''CHARSET'' then
        Some (m, if g_ascii_strcasecmp tokvalue ''UTF-8'' = 0
                 then server_set_encoding check_encoding (Some ''UTF-8'') serv else serv, sess)
      else if tokname = ''UTF8ONLY'' then
        Some (m, (server_set_encoding check_encoding (Some ''UTF-8'') serv)\<lparr>utf8only := True\<rparr>, sess)
      else if tokname = ''NAMESX'' then
        (if tokadding \<and> \<not> have_namesx serv then
           Some (emit (Send (''PROTOCTL NAMESX'' @ [CHR 0x0D, CHR 0x0A])) m, serv\<lparr>have_namesx := True\<rparr>, sess)
         else Some st)
      else if tokname = ''WHOX'' then Some (m, serv\<lparr>have_whox := tokadding\<rparr>, sess)
      else if tokname = ''EXCEPTS'' then Some (m, serv\<lparr>have_except := tokadding\<rparr>, sess)
      else if tokname = ''INVEX'' then Some (m, serv\<lparr>have_invite := tokadding\<rparr>, sess)
      else if tokname = ''ELIST'' then
        Some (m, if strchr tokvalue (CHR ''U'') \<noteq> None \<or> strchr tokvalue (CHR ''u'') \<noteq> None
                 then serv\<lparr>use_listargs := True\<rparr> else serv, sess)
      else if tokname = ''CHATHISTORY'' then Some (m, chathistory_parse_isupport tokvalue serv, sess)
      else if tokname = ''MULTILINE'' then
        Some (m, if tokvalue \<noteq> [] then multiline_isupport tokvalue serv else serv, sess)
      else if tokname = ''draft/ICON'' \<or> tokname = ''ICON'' then
        (if \<not> tokadding then
           Some (emit Network_icon_clear_cache (emit Network_icon_cancel m),
                 serv\<lparr>network_icon_url := None\<rparr>, sess)
         else Some (emit (Network_icon_fetch (Some tokvalue)) m, serv\<lparr>network_icon_url := Some tokvalue\<rparr>, sess))
      else Some st)"

text \<open>The words from the fourth to the one that starts the trailing text.\<close>

function inbound_005_loop ::
    "(string \<Rightarrow> bool) \<Rightarrow> (nat \<Rightarrow> string) \<Rightarrow> nat \<Rightarrow> isup_state \<Rightarrow> isup_state option" where
  "inbound_005_loop check_encoding word w st =
     (if w < PDIWORDS \<and> word w \<noteq> [] then
        if cur (word w) = CHR '':'' then Some st
        else case token_005 check_encoding (parse_005_token (word w)) st of
               None \<Rightarrow> None
             | Some st \<Rightarrow> inbound_005_loop check_encoding word (w + 1) st
      else Some st)"
  by pat_completeness auto
termination
  by (relation "measure (\<lambda>(ck, word, w, st). PDIWORDS - w)") auto

declare inbound_005_loop.simps [simp del]

definition inbound_005 ::
    "(string \<Rightarrow> bool) \<Rightarrow> (nat \<Rightarrow> string) \<Rightarrow> isup_state \<Rightarrow> isup_state option" where
  "inbound_005 check_encoding word st = inbound_005_loop check_encoding word 4 st"

subsection \<open>Values\<close>

text \<open>The value fits the buffer allocated for it, \<open>strlen (toksplit) + 1\<close> bytes.\<close>

lemma unescape_005_length: "length (unescape_005 s) \<le> length s"
proof (induction s rule: unescape_005.induct)
  case (2 c s)
  show ?case
  proof (cases "c = BACKSLASH")
    case True
    consider (esc) x a b r where "s = x # a # b # r" | "length s < 3"
      by (cases s; cases "tl s"; cases "tl (tl s)") auto
    then show ?thesis
    proof cases
      case esc
      have "length (unescape_005 r) \<le> length r"
        by (cases "x = CHR ''x'' \<and> is_xdigit a \<and> is_xdigit b") (use 2 True esc in blast)+
      with True esc show ?thesis by auto
    next
      case 2
      with True show ?thesis by (auto split: list.split)
    qed
  next
    case False
    with 2 show ?thesis by simp
  qed
qed simp

lemma unescape_005_plain: "BACKSLASH \<notin> set s \<Longrightarrow> unescape_005 s = s"
  by (induction s) auto

text \<open>What a server does to send arbitrary bytes: \<open>\xHH\<close> for those it chooses to escape.\<close>

definition hex_digit :: "nat \<Rightarrow> char" where
  "hex_digit n = (if n < 10 then char_of (48 + n) else char_of (97 + (n - 10)))"

definition escape_005 :: "(char \<Rightarrow> bool) \<Rightarrow> string \<Rightarrow> string" where
  "escape_005 chosen s = concat (map (\<lambda>c. if chosen c
       then [BACKSLASH, CHR ''x'', hex_digit (uchar c div 16), hex_digit (uchar c mod 16)] else [c]) s)"

lemma uchar_char_of: "n < 256 \<Longrightarrow> uchar (char_of n) = n"
  by (simp add: uchar_def)

lemma hex_digit_values:
  assumes "n < 16" shows "is_xdigit (hex_digit n) \<and> hex_to_chr (hex_digit n) = n"
proof (cases "n < 10")
  case True
  then show ?thesis
    by (simp add: is_xdigit_def is_digit_def hex_to_chr_def hex_digit_def uchar_char_of)
next
  case False
  then have "ascii_tolower (hex_digit n) = hex_digit n"
    using assms by (simp add: ascii_tolower_def hex_digit_def uchar_char_of)
  moreover have "uchar (hex_digit n) = 97 + (n - 10)"
    using False assms by (simp add: hex_digit_def uchar_char_of)
  ultimately show ?thesis
    using False assms by (simp add: is_xdigit_def is_digit_def hex_to_chr_def)
qed

lemma unescape_escape_005:
  assumes "chosen BACKSLASH" shows "unescape_005 (escape_005 chosen s) = s"
proof (induction s)
  case Nil
  show ?case by (simp add: escape_005_def)
next
  case (Cons c s)
  have step: "escape_005 chosen (c # s) = (if chosen c
      then [BACKSLASH, CHR ''x'', hex_digit (uchar c div 16), hex_digit (uchar c mod 16)] else [c]) @ escape_005 chosen s"
    by (simp add: escape_005_def)
  show ?case
  proof (cases "chosen c")
    case True
    have "16 * (uchar c div 16) + uchar c mod 16 = uchar c" by simp
    moreover have "uchar c div 16 < 16" using uchar_less [of c] by simp
    ultimately show ?thesis
      using True Cons hex_digit_values [of "uchar c div 16"] hex_digit_values [of "uchar c mod 16"]
      by (simp add: step) (simp add: uchar_def)
  next
    case False
    with assms Cons show ?thesis by (auto simp: step)
  qed
qed

lemma upto_chr_free: "c \<notin> set s \<Longrightarrow> upto_chr s c = s"
  by (induction s) (auto simp: upto_chr_def)

lemma upto_chr_sep: "c \<notin> set s \<Longrightarrow> upto_chr (s @ c # t) c = s"
  by (induction s) (auto simp: upto_chr_def)

lemma strchr_sep: "c \<notin> set s \<Longrightarrow> strchr (s @ c # t) c = Some (c # t)"
  by (induction s) auto

lemma prefix_isupport_pair:
  "CHR '')'' \<notin> set modes \<Longrightarrow>
   prefix_isupport (CHR ''('' # modes @ CHR '')'' # prefixes) serv =
     serv\<lparr>nick_prefixes := prefixes, nick_modes := modes\<rparr>"
  using strchr_sep [of "CHR '')''" "CHR ''('' # modes" prefixes] upto_chr_sep [of "CHR '')''" "CHR ''('' # modes" prefixes]
  by (simp add: prefix_isupport_def)

text \<open>A PREFIX with fewer prefixes than modes leaves a table that \<open>mode_access\<close> overruns.\<close>

lemma prefix_mismatch_overrun: "mode_access (prefix_isupport ''(ohv)@'' serv) (CHR ''v'') = None"
  by (simp add: prefix_isupport_def mode_access_def upto_chr_def)

subsection \<open>The properties of ISUPPORT\<close>

text \<open>An ISUPPORT token with a value is parsed back to the name and the value the server
  encoded, whichever characters it chose to write as hex escapes.\<close>

theorem parse_005_token_roundtrip:
  assumes "cur name \<noteq> CHR ''-''" "CHR ''='' \<notin> set name" "chosen BACKSLASH" "no_nul val"
  shows "parse_005_token (name @ CHR ''='' # escape_005 chosen val) = (name, val, True)"
proof -
  let ?t = "name @ CHR ''='' # escape_005 chosen val"
  have "cur ?t \<noteq> CHR ''-''" using assms(1) by (cases name) auto
  moreover have "upto_chr val NUL = val" using assms(4) by (simp add: upto_chr_free no_nul_def)
  ultimately show ?thesis
    using assms(2,3)
    by (simp add: parse_005_token_def strchr_sep upto_chr_sep unescape_escape_005)
qed

theorem parse_005_token_roundtrip_witness:
  "parse_005_token (''NETWORK=My'' @ BACKSLASH # ''x20Net'') = (''NETWORK'', ''My Net'', True)"
proof -
  have "escape_005 (\<lambda>c. c \<in> {CHR '' '', BACKSLASH}) ''My Net'' = ''My'' @ BACKSLASH # ''x20Net''"
    by (simp add: escape_005_def hex_digit_def uchar_def char_of_def bit_Suc_0_iff)
  then show ?thesis
    using parse_005_token_roundtrip [of "''NETWORK''" "\<lambda>c. c \<in> {CHR '' '', BACKSLASH}" "''My Net''"]
    by simp
qed

text \<open>A token \<open>PREFIX=(modes)prefixes\<close> installs exactly these two tables and touches
  nothing else; when they pair up, the server is in the state the user-list operations need.\<close>

theorem prefix_token_correct:
  assumes "CHR '')'' \<notin> set modes" "BACKSLASH \<notin> set (modes @ prefixes)" "no_nul (modes @ prefixes)"
  shows "token_005 check (parse_005_token (''PREFIX=('' @ modes @ '')'' @ prefixes)) (m, serv, sess) =
      Some (m, serv\<lparr>nick_prefixes := prefixes, nick_modes := modes\<rparr>, sess) \<and>
    (distinct prefixes \<and> distinct modes \<and> length modes = length prefixes \<and>
       length prefixes \<le> USERACCESS_SIZE \<and> \<not> bad_prefix serv \<longrightarrow>
     prefixes_ok (serv\<lparr>nick_prefixes := prefixes, nick_modes := modes\<rparr>))"
proof -
  let ?v = "CHR ''('' # modes @ CHR '')'' # prefixes"
  have "unescape_005 ?v = ?v" using assms(2) by (intro unescape_005_plain) auto
  moreover have "upto_chr ?v NUL = ?v" using assms(3) by (intro upto_chr_free) (auto simp: no_nul_def)
  moreover have "''PREFIX=('' @ modes @ '')'' @ prefixes = ''PREFIX'' @ CHR ''='' # ?v" by simp
  moreover have "upto_chr (''PREFIX'' @ CHR ''='' # ?v) (CHR ''='') = ''PREFIX''"
    by (rule upto_chr_sep) simp
  ultimately have "parse_005_token (''PREFIX=('' @ modes @ '')'' @ prefixes) = (''PREFIX'', ?v, True)"
    using strchr_sep [of "CHR ''=''" "''PREFIX''" ?v] by (simp add: parse_005_token_def)
  then show ?thesis
    using assms(3) prefix_isupport_pair [OF assms(1)]
    by (simp add: token_005_def prefixes_ok_def)
qed

theorem prefix_token_correct_witness:
  "token_005 (\<lambda>_. True) (parse_005_token ''PREFIX=(qaohv)~&@%+'') (empty_mem, new_server 0 ''me'', new_session 0 SESS_SERVER [])
    = Some (empty_mem, (new_server 0 ''me'')\<lparr>nick_prefixes := ''~&@%+'', nick_modes := ''qaohv''\<rparr>,
        new_session 0 SESS_SERVER [])"
  using prefix_token_correct [of "''qaohv''" "''~&@%+''" "\<lambda>_. True" empty_mem "new_server 0 ''me''"
      "new_session 0 SESS_SERVER []"]
  by simp

end
