(* ===== verification/InputHistory.thy ===== *)
theory InputHistory
  imports HexPrelude
begin

text \<open>
  \<open>src/common/history.c\<close>: the ring of input lines of a session. \<open>realpos\<close> is the slot the
  next line goes to, \<open>pos\<close> the one the user has browsed to. A \<open>strcmp\<close> with a NULL slot is
  \<open>None\<close>.
\<close>

definition HISTORY_SIZE :: nat where "HISTORY_SIZE = 100"

record history =
  hlines :: "string option list"
  hpos :: nat
  realpos :: nat

definition new_history :: history where
  "new_history = \<lparr>hlines = replicate HISTORY_SIZE None, hpos = 0, realpos = 0\<rparr>"

definition history_add :: "history \<Rightarrow> string \<Rightarrow> history" where
  "history_add his text =
     (let rp = (if realpos his + 1 = HISTORY_SIZE then 0 else realpos his + 1)
      in \<lparr>hlines = (hlines his)[realpos his := Some text], hpos = rp, realpos = rp\<rparr>)"

definition history_free :: "history \<Rightarrow> history" where
  "history_free his = his\<lparr>hlines := map (\<lambda>_. None) (hlines his)\<rparr>"

definition history_down :: "history \<Rightarrow> history \<times> string option" where
  "history_down his =
     (if hpos his = realpos his then (his, None)
      else if realpos his = 0 \<and> hpos his = HISTORY_SIZE - 1 then (his\<lparr>hpos := 0\<rparr>, Some [])
      else if realpos his \<noteq> 0 \<and> hpos his = realpos his - 1 then (his\<lparr>hpos := hpos his + 1\<rparr>, Some [])
      else
        let nxt = (if hpos his < HISTORY_SIZE - 1 then hpos his + 1 else 0) in
        case hlines his ! nxt of
          Some l \<Rightarrow> (his\<lparr>hpos := nxt\<rparr>, Some l)
        | None \<Rightarrow> (his, None))"

text \<open>\<open>strcmp (s, his->lines[i])\<close> as a truth value.\<close>

definition differs :: "string \<Rightarrow> string option \<Rightarrow> bool option" where
  "differs s l = map_option (\<lambda>t. s \<noteq> t) l"

text \<open>Does the line being edited go into the ring before browsing away from it?\<close>

definition up_saves :: "history \<Rightarrow> string \<Rightarrow> string \<Rightarrow> bool option" where
  "up_saves his current_text l =
     (if current_text \<noteq> [] \<and> current_text \<noteq> l \<and>
         (hlines his ! hpos his = None \<or> Some current_text \<noteq> hlines his ! hpos his)
      then (if hlines his ! realpos his = None then Some True
            else differs current_text (hlines his ! hpos his))
      else Some False)"

definition history_up :: "history \<Rightarrow> string \<Rightarrow> (history \<times> string option) option" where
  "history_up his current_text =
     (if (if realpos his = HISTORY_SIZE - 1 then hpos his = 0 else hpos his = realpos his + 1)
      then Some (his, None)
      else
        let nxt = (if hpos his \<noteq> 0 then hpos his - 1 else HISTORY_SIZE - 1) in
        case hlines his ! nxt of
          None \<Rightarrow> Some (his, None)
        | Some l \<Rightarrow>
            (case up_saves his current_text l of
               None \<Rightarrow> None
             | Some save \<Rightarrow>
                 let his' = (if save then history_add his current_text else his)\<lparr>hpos := nxt\<rparr>
                 in Some (his', hlines his' ! nxt)))"

subsection \<open>Invariant\<close>

text \<open>
  Either the ring is full, or exactly the slots before \<open>realpos\<close> are filled and the user is
  not past them.
\<close>

definition history_inv :: "history \<Rightarrow> bool" where
  "history_inv his \<longleftrightarrow>
     length (hlines his) = HISTORY_SIZE \<and> hpos his < HISTORY_SIZE \<and> realpos his < HISTORY_SIZE \<and>
     ((\<forall>i < HISTORY_SIZE. hlines his ! i \<noteq> None) \<or>
      (\<forall>i < HISTORY_SIZE. hlines his ! i \<noteq> None \<longleftrightarrow> i < realpos his) \<and> hpos his \<le> realpos his)"

lemma new_history_inv [inv_intros]: "history_inv new_history"
  by (simp add: history_inv_def new_history_def HISTORY_SIZE_def)

lemma history_add_inv [inv_intros]:
  assumes "history_inv his" shows "history_inv (history_add his text)"
proof -
  let ?ls = "(hlines his)[realpos his := Some text]"
  have n: "length (hlines his) = HISTORY_SIZE" "realpos his < HISTORY_SIZE"
    using assms by (simp_all add: history_inv_def)
  then have ls: "?ls ! i = (if i = realpos his then Some text else hlines his ! i)" if "i < HISTORY_SIZE" for i
    using that by (simp add: nth_list_update)
  have "(\<forall>i < HISTORY_SIZE. ?ls ! i \<noteq> None) \<or>
      (realpos his + 1 \<noteq> HISTORY_SIZE \<and> (\<forall>i < HISTORY_SIZE. ?ls ! i \<noteq> None \<longleftrightarrow> i < realpos his + 1))"
  proof (cases "\<forall>i < HISTORY_SIZE. hlines his ! i \<noteq> None")
    case True
    with ls show ?thesis by simp
  next
    case False
    then have f: "\<forall>i < HISTORY_SIZE. hlines his ! i \<noteq> None \<longleftrightarrow> i < realpos his"
      using assms unfolding history_inv_def by blast
    show ?thesis
    proof (cases "realpos his + 1 = HISTORY_SIZE")
      case True
      have "\<forall>i < HISTORY_SIZE. ?ls ! i \<noteq> None" using ls f True by (auto simp: less_Suc_eq)
      then show ?thesis ..
    next
      case False
      have "\<forall>i < HISTORY_SIZE. ?ls ! i \<noteq> None \<longleftrightarrow> i < realpos his + 1" using ls f by auto
      with False show ?thesis by blast
    qed
  qed
  moreover have "(if realpos his + 1 = HISTORY_SIZE then 0 else realpos his + 1) < HISTORY_SIZE"
    using n(2) by (simp add: HISTORY_SIZE_def)
  ultimately show ?thesis
    using n by (auto simp: history_inv_def history_add_def Let_def)
qed

lemma history_down_inv [inv_intros]:
  assumes "history_inv his" shows "history_inv (fst (history_down his))"
  using assms
  by (auto simp: history_inv_def history_down_def Let_def HISTORY_SIZE_def split: option.split)

text \<open>\<open>history_up\<close> never compares with a NULL slot.\<close>

lemma history_up_inv:
  assumes inv: "history_inv his"
  shows "\<exists>his' r. history_up his current_text = Some (his', r) \<and> history_inv his'"
proof -
  define nxt where "nxt = (if hpos his \<noteq> 0 then hpos his - 1 else HISTORY_SIZE - 1)"
  have n: "nxt < HISTORY_SIZE" using inv by (auto simp: nxt_def history_inv_def HISTORY_SIZE_def)
  consider (stop) "if realpos his = HISTORY_SIZE - 1 then hpos his = 0 else hpos his = realpos his + 1"
    | (null) "\<not> (if realpos his = HISTORY_SIZE - 1 then hpos his = 0 else hpos his = realpos his + 1)"
        "hlines his ! nxt = None"
    | (found) l where "\<not> (if realpos his = HISTORY_SIZE - 1 then hpos his = 0 else hpos his = realpos his + 1)"
        "hlines his ! nxt = Some l" by blast
  then show ?thesis
  proof cases
    case stop
    have "history_up his current_text = Some (his, None)"
      unfolding history_up_def if_P [OF stop] by (rule refl)
    with inv show ?thesis by blast
  next
    case null
    have "history_up his current_text = Some (his, None)"
      unfolding history_up_def if_not_P [OF null(1)] nxt_def [symmetric] Let_def null(2) by simp
    with inv show ?thesis by blast
  next
    case (found l)
    have safe: "hlines his ! realpos his \<noteq> None \<Longrightarrow> hlines his ! hpos his \<noteq> None"
      using inv by (auto simp: history_inv_def)
    have "history_inv (h\<lparr>hpos := nxt\<rparr>)" if "h = his \<or> h = history_add his current_text" for h
    proof -
      have "history_inv h" using that inv history_add_inv by blast
      moreover have "hlines h ! nxt \<noteq> None"
        using that found(2) n inv by (auto simp: history_add_def Let_def nth_list_update history_inv_def)
      ultimately show ?thesis using n by (auto simp: history_inv_def)
    qed
    then have keep: "history_inv ((if b then history_add his current_text else his)\<lparr>hpos := nxt\<rparr>)" for b
      by simp
    have "up_saves his current_text l \<noteq> None"
      using safe by (simp add: up_saves_def differs_def del: not_None_eq)
    then obtain b where "up_saves his current_text l = Some b" by blast
    then show ?thesis
      using keep [of b]
      unfolding history_up_def if_not_P [OF found(1)] nxt_def [symmetric] Let_def found(2)
      by simp
  qed
qed

subsection \<open>Browsing\<close>

text \<open>The lines from the most recent one back, as far as the ring goes.\<close>

definition hslot :: "history \<Rightarrow> nat \<Rightarrow> nat" where
  "hslot his k = (realpos his + HISTORY_SIZE - k) mod HISTORY_SIZE"

fun ups :: "nat \<Rightarrow> history \<Rightarrow> (history \<times> string option) option" where
  "ups 0 his = Some (his, None)"
| "ups (Suc n) his = (case ups n his of None \<Rightarrow> None | Some (his', _) \<Rightarrow> history_up his' [])"

lemma hslot_less: "hslot his k < HISTORY_SIZE"
  by (simp add: hslot_def HISTORY_SIZE_def)

lemma hslot_Suc:
  assumes "k < HISTORY_SIZE"
  shows "hslot his (Suc k) = (if hslot his k \<noteq> 0 then hslot his k - 1 else HISTORY_SIZE - 1)"
proof -
  obtain x where x: "realpos his + HISTORY_SIZE - k = Suc x"
    using assms by (metis Suc_diff_Suc add.commute le_add2 less_le_trans zero_less_diff not0_implies_Suc less_numeral_extra(3))
  then have "realpos his + HISTORY_SIZE - Suc k = x" by linarith
  with x have "hslot his (Suc k) = x mod HISTORY_SIZE" "hslot his k = Suc x mod HISTORY_SIZE"
    by (simp_all only: hslot_def)
  then show ?thesis by (simp add: mod_Suc HISTORY_SIZE_def)
qed

lemma hslot_stop:
  assumes "realpos his < HISTORY_SIZE" "k + 1 < HISTORY_SIZE"
  shows "\<not> (if realpos his = HISTORY_SIZE - 1 then hslot his k = 0 else hslot his k = realpos his + 1)"
proof -
  have "hslot his k = (if k \<le> realpos his then realpos his - k else realpos his + HISTORY_SIZE - k)"
  proof (cases "k \<le> realpos his")
    case True
    then have "realpos his + HISTORY_SIZE - k = (realpos his - k) + HISTORY_SIZE" by simp
    then have "hslot his k = (realpos his - k) mod HISTORY_SIZE" by (simp add: hslot_def)
    with True assms show ?thesis by simp
  next
    case False
    with assms show ?thesis by (simp add: hslot_def)
  qed
  with assms show ?thesis by (auto simp: HISTORY_SIZE_def split: if_splits)
qed

lemma ups_result:
  "history_inv his \<Longrightarrow> hpos his = realpos his \<Longrightarrow> n + 1 < HISTORY_SIZE \<Longrightarrow>
   \<forall>k. 1 \<le> k \<and> k \<le> n + 1 \<longrightarrow> hlines his ! hslot his k \<noteq> None \<Longrightarrow>
   ups (Suc n) his = Some (his\<lparr>hpos := hslot his (Suc n)\<rparr>, hlines his ! hslot his (Suc n))"
proof (induction n)
  case 0
  then have rp: "realpos his < HISTORY_SIZE" by (simp add: history_inv_def)
  have b0: "hslot his 0 = realpos his" using rp by (simp add: hslot_def)
  have "hlines his ! hslot his 1 \<noteq> None" using 0 by simp
  then show ?case
    using hslot_stop [OF rp, of 0] 0 hslot_Suc [of 0 his]
    by (auto simp: history_up_def up_saves_def b0 Let_def HISTORY_SIZE_def)
next
  case (Suc n)
  then have rp: "realpos his < HISTORY_SIZE" by (simp add: history_inv_def)
  have IH: "ups (Suc n) his = Some (his\<lparr>hpos := hslot his (Suc n)\<rparr>, hlines his ! hslot his (Suc n))"
    by (rule Suc.IH) (use Suc.prems in auto)
  have ne: "hlines his ! hslot his (Suc (Suc n)) \<noteq> None" using Suc.prems by simp
  have "history_up (his\<lparr>hpos := hslot his (Suc n)\<rparr>) [] =
      Some (his\<lparr>hpos := hslot his (Suc (Suc n))\<rparr>, hlines his ! hslot his (Suc (Suc n)))"
    using hslot_stop [OF rp, of "Suc n"] Suc.prems(3) ne hslot_Suc [of "Suc n" his]
    by (auto simp: history_up_def up_saves_def Let_def)
  with IH show ?case by simp
qed

subsection \<open>The properties of the input history\<close>

text \<open>From any state the input history can be in, browsing up never compares with an empty
  slot, and the ring stays consistent.\<close>

theorem history_up_safe:
  assumes "history_inv his"
  shows "\<exists>his' r. history_up his current_text = Some (his', r) \<and> history_inv his'"
  by (rule history_up_inv [OF assms])

theorem history_up_safe_witness:
  "\<exists>his' r. history_up (history_add new_history ''hi'') ''draft'' = Some (his', r) \<and> history_inv his'"
  by (rule history_up_safe [OF history_add_inv [OF new_history_inv]])

text \<open>Browsing up \<open>n + 1\<close> times from the edit line shows the \<open>n + 1\<close>-th most recent line,
  for every line the ring keeps but the one in the slot to be overwritten next.\<close>

theorem history_browse:
  assumes "history_inv his" "hpos his = realpos his" "n + 1 < HISTORY_SIZE"
    "\<forall>k. 1 \<le> k \<and> k \<le> n + 1 \<longrightarrow> hlines his ! hslot his k \<noteq> None"
  shows "ups (Suc n) his = Some (his\<lparr>hpos := hslot his (Suc n)\<rparr>, hlines his ! hslot his (Suc n))"
  by (rule ups_result [OF assms])

theorem history_browse_witness:
  "map_option snd (ups 2 (history_add (history_add new_history ''one'') ''two'')) = Some (Some ''one'')"
proof -
  let ?h = "history_add (history_add new_history ''one'') ''two''"
  have h: "history_inv ?h" "hpos ?h = realpos ?h" "realpos ?h = 2"
    "hlines ?h ! 0 = Some ''one''" "hlines ?h ! 1 = Some ''two''"
    by (intro history_add_inv new_history_inv)
      (simp_all add: history_add_def new_history_def HISTORY_SIZE_def)
  have s: "hslot ?h 1 = 1" "hslot ?h 2 = 0" by (simp_all add: hslot_def h HISTORY_SIZE_def)
  have "\<forall>k. 1 \<le> k \<and> k \<le> 1 + 1 \<longrightarrow> hlines ?h ! hslot ?h k \<noteq> None"
  proof (intro allI impI)
    fix k :: nat assume "1 \<le> k \<and> k \<le> 1 + 1"
    then have "k = 1 \<or> k = 2" by auto
    with s h show "hlines ?h ! hslot ?h k \<noteq> None" by auto
  qed
  from history_browse [OF h(1,2) _ this] have
    "ups 2 ?h = Some (?h\<lparr>hpos := hslot ?h 2\<rparr>, hlines ?h ! hslot ?h 2)"
    by (simp add: HISTORY_SIZE_def numeral_2_eq_2)
  then show ?thesis by (simp add: s h)
qed

end
