(* ===== verification/Glob.thy ===== *)
theory Glob
  imports CaseFold
begin

text \<open>
  The wildcard matcher \<open>match\<close> of \<open>src/common/util.c\<close>, which decides ignore masks, ban
  masks, highlight words and file masks. The C function is a flat loop over two pointers
  with two rollback pointers (\<open>bm\<close>, \<open>bs\<close>) and a \<open>goto got_star\<close>; here each of its loops is
  a function on the remaining suffixes, composed by \<open>got_star\<close> and \<open>match\<close>. The result
  says apart from 1 and 0 whether a byte behind the terminator of \<open>string\<close> was read.
  The specification \<open>glob\<close> is the usual backtracking reading of a mask.
\<close>

datatype match_result = Matched | Mismatch | Overread

text \<open>\<open>case '\\': if (*m == '?' || *m == '*') ch = *m++;\<close>\<close>

definition escaped :: "char \<Rightarrow> string \<Rightarrow> bool" where
  "escaped c m \<longleftrightarrow> c = BACKSLASH \<and> (cur m = CHR ''?'' \<or> cur m = CHR ''*'')"

definition lit_char :: "char \<Rightarrow> string \<Rightarrow> char" where
  "lit_char c m = (if escaped c m then cur m else c)"

definition lit_rest :: "char \<Rightarrow> string \<Rightarrow> string" where
  "lit_rest c m = (if escaped c m then tl m else m)"

lemma length_lit_rest [simp]: "length (lit_rest c m) \<le> length m"
  by (simp add: lit_rest_def)

lemma length_lit_rest_less [simp]: "length (lit_rest c m) < Suc (length m)"
  using length_lit_rest [of c m] by linarith

subsection \<open>The code\<close>

text \<open>The head of the mask, up to its first \<open>*\<close>.\<close>

datatype head_result = Head_done match_result | Head_star string string

function match_head :: "string \<Rightarrow> string \<Rightarrow> head_result" where
  "match_head [] s = Head_done (if s = [] then Matched else Mismatch)"
| "match_head (c # m) s =
     (if c = CHR ''*'' then Head_star m s
      else if c = CHR ''?'' then
        (if s = [] then Head_done Mismatch else match_head m (tl s))
      else if rfc_tolower (cur s) \<noteq> rfc_tolower (lit_char c m) then Head_done Mismatch
      else if s = [] then Head_done Mismatch
      else match_head (lit_rest c m) (tl s))"
  by pat_completeness auto
termination
  by (relation "measure (\<lambda>(m, s). length m)") auto

text \<open>
  Behind a \<open>*\<close>: skip further \<open>*\<close> and \<open>?\<close>. The chunk that follows is returned with the
  rollback point \<open>bm\<close> (its first character), its first literal and the rest of it.
\<close>

datatype skip_result = Skip_end | Skip_fail | Skip_chunk string char string string

fun match_skip :: "string \<Rightarrow> string \<Rightarrow> skip_result" where
  "match_skip [] s = Skip_end"
| "match_skip (c # m) s =
     (if c = CHR ''?'' then (if s = [] then Skip_fail else match_skip m (tl s))
      else if c = CHR ''*'' then match_skip m s
      else Skip_chunk (c # m) (lit_char c m) (lit_rest c m) s)"

text \<open>
  \<open>while (rfc_tolower (*s++) != ch) if (!*s) return 0;\<close> --- entered with \<open>s\<close> at the
  terminator it steps over it and tests the byte behind.
\<close>

datatype find_result = Find_at string | Find_fail | Find_over

fun match_find :: "char \<Rightarrow> string \<Rightarrow> find_result" where
  "match_find ch [] = Find_over"
| "match_find ch (x # s) =
     (if rfc_tolower x = ch then Find_at s
      else if s = [] then Find_fail
      else match_find ch s)"

text \<open>The rest of the chunk, from behind its first literal.\<close>

datatype chunk_result = Chunk_yes | Chunk_no | Chunk_retry | Chunk_star string string

function match_chunk :: "string \<Rightarrow> string \<Rightarrow> chunk_result" where
  "match_chunk [] s = (if s = [] then Chunk_yes else Chunk_retry)"
| "match_chunk (c # m) s =
     (if c = CHR ''*'' then Chunk_star m s
      else if c = CHR ''?'' then
        (if s = [] then Chunk_no else match_chunk m (tl s))
      else if rfc_tolower (cur s) \<noteq> rfc_tolower (lit_char c m) then
        (if s = [] then Chunk_no else Chunk_retry)
      else if s = [] then Chunk_no
      else match_chunk (lit_rest c m) (tl s))"
  by pat_completeness auto
termination
  by (relation "measure (\<lambda>(m, s). length m)") auto

lemma match_skip_length:
  "match_skip m s = Skip_chunk bm ch m' s' \<Longrightarrow>
   length s' \<le> length s \<and> length bm \<le> length m \<and> length m' < length bm"
proof (induction m s arbitrary: bm ch m' s' rule: match_skip.induct)
  case (2 c m s)
  then show ?case by (auto split: if_splits)
qed simp

lemma match_find_length: "match_find ch s = Find_at t \<Longrightarrow> length t < length s"
  by (induction ch s rule: match_find.induct) (auto split: if_splits)

lemma match_chunk_length:
  "match_chunk m s = Chunk_star m' s' \<Longrightarrow> length m' < length m \<and> length s' \<le> length s"
proof (induction m s arbitrary: m' s' rule: match_chunk.induct)
  case (2 c m s)
  show ?case
  proof (cases "c = CHR ''*''")
    case True
    with 2 show ?thesis by simp
  next
    case False
    with 2 have "length s' \<le> length s - 1 \<and>
        (length m' < length m \<or> length m' < length (lit_rest c m))"
      by (auto split: if_splits)
    then show ?thesis using length_lit_rest [of c m] by (auto simp del: length_lit_rest)
  qed
qed (auto split: if_splits)

function got_star :: "string \<Rightarrow> string \<Rightarrow> match_result" where
  "got_star m s =
     (case match_skip m s of
        Skip_end \<Rightarrow> Matched
      | Skip_fail \<Rightarrow> Mismatch
      | Skip_chunk bm ch m1 s1 \<Rightarrow>
          (case match_find (rfc_tolower ch) s1 of
             Find_over \<Rightarrow> Overread
           | Find_fail \<Rightarrow> Mismatch
           | Find_at bs \<Rightarrow>
               (case match_chunk m1 bs of
                  Chunk_yes \<Rightarrow> Matched
                | Chunk_no \<Rightarrow> Mismatch
                | Chunk_retry \<Rightarrow> got_star bm bs
                | Chunk_star m2 s2 \<Rightarrow> got_star m2 s2)))"
  by pat_completeness auto
termination
  by (relation "measure (\<lambda>(m, s). length m + length s)")
    (auto dest!: match_skip_length match_find_length match_chunk_length)

declare got_star.simps [simp del]

text \<open>\<open>int match (const char *mask, const char *string)\<close>.\<close>

definition match :: "string \<Rightarrow> string \<Rightarrow> match_result" where
  "match pat str =
     (case match_head pat str of
        Head_done r \<Rightarrow> r
      | Head_star m s \<Rightarrow> got_star m s)"

subsection \<open>The specification\<close>

text \<open>
  A mask is a sequence of tokens: \<open>*\<close> stands for any string, \<open>?\<close> for any one character, and
  anything else for itself up to case folding; \<open>\*\<close> and \<open>\?\<close> are the escaped characters.
\<close>

datatype gtok = Star | Any | Lit char

function mask_tokens :: "string \<Rightarrow> gtok list" where
  "mask_tokens [] = []"
| "mask_tokens (c # m) =
     (if c = CHR ''*'' then Star # mask_tokens m
      else if c = CHR ''?'' then Any # mask_tokens m
      else Lit (lit_char c m) # mask_tokens (lit_rest c m))"
  by pat_completeness auto
termination
  by (relation "measure length") auto

fun glob :: "gtok list \<Rightarrow> string \<Rightarrow> bool" where
  "glob [] s \<longleftrightarrow> s = []"
| "glob (Star # p) [] \<longleftrightarrow> glob p []"
| "glob (Star # p) (x # s) \<longleftrightarrow> glob p (x # s) \<or> glob (Star # p) s"
| "glob (Any # p) [] \<longleftrightarrow> False"
| "glob (Any # p) (x # s) \<longleftrightarrow> glob p s"
| "glob (Lit c # p) [] \<longleftrightarrow> False"
| "glob (Lit c # p) (x # s) \<longleftrightarrow> rfc_tolower x = rfc_tolower c \<and> glob p s"

lemma glob_Star: "glob (Star # p) s \<longleftrightarrow> (\<exists>k \<le> length s. glob p (drop k s))"
proof (induction s)
  case (Cons x s)
  have "(\<exists>k \<le> Suc (length s). glob p (drop k (x # s))) \<longleftrightarrow>
        glob p (x # s) \<or> (\<exists>k \<le> length s. glob p (drop k s))"
    by (metis Suc_le_mono drop0 drop_Suc_Cons not0_implies_Suc zero_le)
  with Cons show ?case by simp
qed simp

lemma glob_Star_Nil: "glob [Star] s"
  by (induction s) auto

text \<open>Every token but \<open>*\<close> takes a character.\<close>

fun min_len :: "gtok list \<Rightarrow> nat" where
  "min_len [] = 0"
| "min_len (Star # p) = min_len p"
| "min_len (_ # p) = Suc (min_len p)"

lemma glob_min_len: "glob p s \<Longrightarrow> min_len p \<le> length s"
  by (induction p s rule: glob.induct) auto

lemma glob_Star_min_len: "length s < min_len p \<Longrightarrow> \<not> glob (Star # p) s"
  using glob_min_len [of "Star # p" s] by auto

lemma glob_Star_Any: "glob (Star # Any # p) s \<longleftrightarrow> s \<noteq> [] \<and> glob (Star # p) (tl s)"
proof (induction s)
  case (Cons x s)
  then show ?case by (cases s) auto
qed simp

lemma glob_Star_Star: "glob (Star # Star # p) s \<longleftrightarrow> glob (Star # p) s"
  by (induction s) auto


subsection \<open>The loops meet the specification\<close>

lemma cur_tl: "s \<noteq> [] \<Longrightarrow> s = cur s # tl s"
  by (cases s) auto

lemma glob_Any: "glob (Any # p) s \<longleftrightarrow> s \<noteq> [] \<and> glob p (tl s)"
  by (cases s) auto

lemma glob_Lit:
  "glob (Lit c # p) s \<longleftrightarrow> s \<noteq> [] \<and> rfc_tolower (cur s) = rfc_tolower c \<and> glob p (tl s)"
  by (cases s) auto

lemmas glob_step = glob_Any glob_Lit

lemma match_head_glob:
  "match_head m s = Head_done r \<Longrightarrow> r \<noteq> Overread \<and> (glob (mask_tokens m) s \<longleftrightarrow> r = Matched)"
  "match_head m s = Head_star m' s' \<Longrightarrow>
     glob (mask_tokens m) s \<longleftrightarrow> glob (Star # mask_tokens m') s'"
proof (induction m s rule: match_head.induct)
  case (2 c m s)
  {
    case 1
    with 2 show ?case by (auto simp: glob_step split: if_splits)
  next
    case 2
    with "2.IH" show ?case by (auto simp: glob_step split: if_splits)
  }
qed (auto split: if_splits)

lemma match_skip_glob:
  "match_skip m s = Skip_end \<Longrightarrow> glob (Star # mask_tokens m) s"
  "match_skip m s = Skip_fail \<Longrightarrow> \<not> glob (Star # mask_tokens m) s"
  "match_skip m s = Skip_chunk bm ch m' s' \<Longrightarrow>
     mask_tokens bm = Lit ch # mask_tokens m' \<and>
     (glob (Star # mask_tokens m) s \<longleftrightarrow> glob (Star # mask_tokens bm) s')"
proof (induction m s rule: match_skip.induct)
  case (2 c m s)
  {
    case 1
    with 2 show ?case by (auto simp: glob_Star_Any glob_Star_Star split: if_splits)
  next
    case 2
    with "2.IH" show ?case by (auto simp: glob_Star_Any glob_Star_Star split: if_splits)
  next
    case 3
    with "2.IH" show ?case by (auto simp: glob_Star_Any glob_Star_Star split: if_splits)
  }
qed (auto simp: glob_Star_Nil)

lemma match_find_glob:
  assumes "ch' = rfc_tolower ch"
  shows "match_find ch' s = Find_over \<Longrightarrow> s = []"
    and "match_find ch' s = Find_fail \<Longrightarrow> \<not> glob (Star # Lit ch # p) s"
    and "match_find ch' s = Find_at t \<Longrightarrow>
           glob (Star # Lit ch # p) s \<longleftrightarrow> glob p t \<or> glob (Star # Lit ch # p) t"
  using assms by (induction ch' s rule: match_find.induct) (auto split: if_splits)

lemma match_chunk_yes: "match_chunk m s = Chunk_yes \<Longrightarrow> glob (mask_tokens m) s"
  by (induction m s rule: match_chunk.induct) (auto simp: glob_step split: if_splits)

lemma match_chunk_retry: "match_chunk m s = Chunk_retry \<Longrightarrow> \<not> glob (mask_tokens m) s"
  by (induction m s rule: match_chunk.induct) (auto simp: glob_step split: if_splits)

lemma match_chunk_no: "match_chunk m s = Chunk_no \<Longrightarrow> length s < min_len (mask_tokens m)"
proof (induction m s rule: match_chunk.induct)
  case (2 c m s)
  then show ?case by (cases s) (auto split: if_splits)
qed (auto split: if_splits)

text \<open>
  The leftmost occurrence of a chunk is as good as any later one: wherever the chunk
  matches again, what follows its \<open>*\<close> can also be found behind the first occurrence.
\<close>

lemma match_chunk_star_here:
  "match_chunk m s = Chunk_star m' s' \<Longrightarrow> glob (Star # mask_tokens m') s' \<Longrightarrow> glob (mask_tokens m) s"
  by (induction m s rule: match_chunk.induct) (auto simp: glob_step split: if_splits)

lemma match_chunk_star_later:
  "match_chunk m s = Chunk_star m' s' \<Longrightarrow> glob (mask_tokens m) (drop k s) \<Longrightarrow>
   glob (Star # mask_tokens m') s'"
proof (induction m s arbitrary: k rule: match_chunk.induct)
  case (2 c m s)
  have tl_drop: "tl (drop k s) = drop k (tl s)" by (simp add: drop_tl)
  show ?case
  proof (cases "c = CHR ''*''")
    case True
    with 2 have "glob (Star # mask_tokens m') (drop k s')" by simp
    then obtain j where j: "j \<le> length (drop k s')" "glob (mask_tokens m') (drop j (drop k s'))"
      by (auto simp: glob_Star)
    show ?thesis
    proof (cases "k \<le> length s'")
      case True
      with j show ?thesis by (auto simp: glob_Star intro!: exI [of _ "j + k"])
    next
      case False
      with j show ?thesis by (auto simp: glob_Star intro!: exI [of _ "length s'"])
    qed
  next
    case False
    with 2 show ?thesis
      by (auto simp: glob_step tl_drop split: if_splits)
  qed
qed (auto split: if_splits)

lemma got_star_glob:
  "glob (Star # mask_tokens m) s \<longleftrightarrow> got_star m s = Matched"
proof (induction m s rule: got_star.induct)
  case (1 m s)
  show ?case
  proof (cases "match_skip m s")
    case (Skip_chunk bm ch m1 s1)
    note sk = match_skip_glob(3) [OF this]
    show ?thesis
    proof (cases "match_find (rfc_tolower ch) s1")
      case (Find_at bs)
      have fnd: "glob (Star # mask_tokens m) s \<longleftrightarrow>
          glob (mask_tokens m1) bs \<or> glob (Star # mask_tokens bm) bs"
        using sk match_find_glob(3) [OF refl Find_at] by auto
      show ?thesis
      proof (cases "match_chunk m1 bs")
        case Chunk_yes
        with fnd show ?thesis
          by (simp add: got_star.simps [of m s] Skip_chunk Find_at match_chunk_yes)
      next
        case Chunk_no
        have "min_len (mask_tokens m1) > length bs" by (rule match_chunk_no [OF Chunk_no])
        then have "\<not> glob (mask_tokens m1) bs" "\<not> glob (Star # mask_tokens bm) bs"
          using glob_min_len [of "mask_tokens m1" bs] sk
          by (auto intro!: glob_Star_min_len)
        with Chunk_no fnd show ?thesis
          by (simp add: got_star.simps [of m s] Skip_chunk Find_at)
      next
        case Chunk_retry
        note "1.IH"(1) [OF Skip_chunk Find_at Chunk_retry]
        with fnd match_chunk_retry [OF Chunk_retry] show ?thesis
          by (simp add: got_star.simps [of m s] Skip_chunk Find_at Chunk_retry)
      next
        case (Chunk_star m2 s2)
        have later: "glob (Star # mask_tokens bm) bs \<Longrightarrow> glob (Star # mask_tokens m2) s2"
        proof -
          assume "glob (Star # mask_tokens bm) bs"
          then obtain k where "glob (mask_tokens m1) (drop (Suc k) bs)"
            using sk by (auto simp: glob_Star glob_Lit drop_Suc drop_tl)
          then show ?thesis by (rule match_chunk_star_later [OF Chunk_star])
        qed
        have "glob (Star # mask_tokens m) s \<longleftrightarrow> glob (Star # mask_tokens m2) s2"
          using fnd later match_chunk_star_here [OF Chunk_star]
            match_chunk_star_later [OF Chunk_star, of 0] by auto
        moreover note "1.IH"(2) [OF Skip_chunk Find_at Chunk_star]
        ultimately show ?thesis
          by (simp add: got_star.simps [of m s] Skip_chunk Find_at Chunk_star)
      qed
    next
      case Find_fail
      with sk match_find_glob(2) [OF refl Find_fail] show ?thesis
        by (simp add: got_star.simps [of m s] Skip_chunk)
    next
      case Find_over
      then have "s1 = []" by (rule match_find_glob(1) [OF refl])
      with sk Find_over show ?thesis
        by (simp add: got_star.simps [of m s] Skip_chunk)
    qed
  qed (auto simp: got_star.simps [of m s] dest: match_skip_glob)
qed

lemma match_glob: "match pat str = Matched \<longleftrightarrow> glob (mask_tokens pat) str"
proof (cases "match_head pat str")
  case (Head_done r)
  then show ?thesis using match_head_glob(1) [OF Head_done] by (simp add: match_def)
next
  case (Head_star m s)
  then show ?thesis
    using match_head_glob(2) [OF Head_star] got_star_glob [of m s]
    by (simp add: match_def)
qed

end
