(* ===== verification/Ignore.thy ===== *)
theory Ignore
  imports Glob NickOrder StringUtil
begin

text \<open>
  \<open>src/common/ignore.c\<close>: the ignore list, the check of an incoming message against it, its
  file, and the flood protection that adds to it; and \<open>cfg_get_str\<close> of \<open>cfgfiles.c\<close>, which
  reads the file. An entry has an address, for the caller that deletes by pointer.
\<close>

definition IG_PRIV :: uint where "IG_PRIV = 1"
definition IG_NOTI :: uint where "IG_NOTI = 2"
definition IG_CHAN :: uint where "IG_CHAN = 4"
definition IG_CTCP :: uint where "IG_CTCP = 8"
definition IG_INVI :: uint where "IG_INVI = 16"
definition IG_UNIG :: uint where "IG_UNIG = 32"
definition IG_NOSAVE :: uint where "IG_NOSAVE = 64"
definition IG_DCC :: uint where "IG_DCC = 128"

record ignore =
  ig_addr :: nat
  ig_mask :: string
  ig_type :: uint

datatype ig_event =
    Fe_ignore_update nat
  | Print_ctcp_flood string string
  | Print_msg_flood string
  | Autoopen_timeout nat

record ig_state =
  ignore_list :: "ignore list"
  ig_next :: nat
  ignored_total :: int
  ignored_priv :: int
  ignored_noti :: int
  ignored_chan :: int
  ignored_ctcp :: int
  ignored_invi :: int
  ig_trace :: "ig_event list"

definition ig_init :: ig_state where
  "ig_init = \<lparr>ignore_list = [], ig_next = 1, ignored_total = 0, ignored_priv = 0,
     ignored_noti = 0, ignored_chan = 0, ignored_ctcp = 0, ignored_invi = 0, ig_trace = []\<rparr>"

definition ig_emit :: "ig_event \<Rightarrow> ig_state \<Rightarrow> ig_state" where
  "ig_emit e st = st\<lparr>ig_trace := ig_trace st @ [e]\<rparr>"

subsection \<open>The list\<close>

definition ignore_exists :: "ig_state \<Rightarrow> string \<Rightarrow> ignore option" where
  "ignore_exists st msk = find (\<lambda>ig. rfc_casecmp (ig_mask ig) msk = 0) (ignore_list st)"

text \<open>The result is 1 for a new entry, 2 for a changed one.\<close>

definition ignore_add :: "ig_state \<Rightarrow> string \<Rightarrow> uint \<Rightarrow> bool \<Rightarrow> ig_state \<times> nat" where
  "ignore_add st msk ty overwrite =
     (case ignore_exists st msk of
        Some ig \<Rightarrow>
          let ig' = ig\<lparr>ig_mask := msk, ig_type := (if \<not> overwrite then ig_type ig OR ty else ty)\<rparr>
          in (ig_emit (Fe_ignore_update 1)
                (st\<lparr>ignore_list := map (\<lambda>e. if ig_addr e = ig_addr ig then ig' else e) (ignore_list st)\<rparr>), 2)
      | None \<Rightarrow>
          (ig_emit (Fe_ignore_update 1)
             (st\<lparr>ignore_list := \<lparr>ig_addr = ig_next st, ig_mask = msk, ig_type = ty\<rparr> # ignore_list st,
                 ig_next := ig_next st + 1\<rparr>), 1))"

text \<open>\<open>ignore_del (mask, NULL)\<close> and \<open>ignore_del (NULL, ig)\<close>.\<close>

definition ignore_del :: "ig_state \<Rightarrow> string + nat \<Rightarrow> ig_state \<times> bool" where
  "ignore_del st which =
     (case (case which of
              Inl msk \<Rightarrow> map_option ig_addr (ignore_exists st msk)
            | Inr a \<Rightarrow> Some a) of
        None \<Rightarrow> (st, False)
      | Some a \<Rightarrow>
          (ig_emit (Fe_ignore_update 1)
             (st\<lparr>ignore_list := filter (\<lambda>e. ig_addr e \<noteq> a) (ignore_list st)\<rparr>), True))"

subsection \<open>The check\<close>

text \<open>
  The two passes over the list: is there an entry with \<open>want\<close> whose mask matches? \<open>None\<close>
  when \<open>match\<close> reads behind the end of the host.
\<close>

fun ignore_scan :: "(ignore \<Rightarrow> bool) \<Rightarrow> ignore list \<Rightarrow> string \<Rightarrow> bool option" where
  "ignore_scan want [] host = Some False"
| "ignore_scan want (ig # igs) host =
     (if want ig then
        (case match (ig_mask ig) host of
           Matched \<Rightarrow> Some True
         | Mismatch \<Rightarrow> ignore_scan want igs host
         | Overread \<Rightarrow> None)
      else ignore_scan want igs host)"

definition has :: "uint \<Rightarrow> uint \<Rightarrow> bool" where
  "has x y \<longleftrightarrow> x AND y \<noteq> 0"

definition ignore_check :: "ig_state \<Rightarrow> string \<Rightarrow> uint \<Rightarrow> (ig_state \<times> bool) option" where
  "ignore_check st host ty =
     (case ignore_scan (\<lambda>ig. has (ig_type ig) IG_UNIG \<and> has (ig_type ig) ty) (ignore_list st) host of
        None \<Rightarrow> None
      | Some True \<Rightarrow> Some (st, False)
      | Some False \<Rightarrow>
          (case ignore_scan (\<lambda>ig. has (ig_type ig) ty) (ignore_list st) host of
             None \<Rightarrow> None
           | Some False \<Rightarrow> Some (st, False)
           | Some True \<Rightarrow>
               let count = (\<lambda>bit n. if has ty bit then n + 1 else n :: int) in
               Some (ig_emit (Fe_ignore_update 2)
                 (st\<lparr>ignored_total := ignored_total st + 1,
                     ignored_priv := count IG_PRIV (ignored_priv st),
                     ignored_noti := count IG_NOTI (ignored_noti st),
                     ignored_chan := count IG_CHAN (ignored_chan st),
                     ignored_ctcp := count IG_CTCP (ignored_ctcp st),
                     ignored_invi := count IG_INVI (ignored_invi st)\<rparr>), True)))"

subsection \<open>The file\<close>

text \<open>\<open>g_ascii_strncasecmp (p, s, strlen (p)) == 0\<close>\<close>

fun ci_prefix :: "string \<Rightarrow> string \<Rightarrow> bool" where
  "ci_prefix [] s = True"
| "ci_prefix (p # ps) [] = False"
| "ci_prefix (p # ps) (c # s) = (ascii_tolower p = ascii_tolower c \<and> ci_prefix ps s)"

definition skip_spaces :: "string \<Rightarrow> string" where
  "skip_spaces s = dropWhile (\<lambda>c. c = CHR '' '') s"

definition cfg_value :: "string \<Rightarrow> string" where
  "cfg_value s =
     (let s = skip_spaces s; s = (if cur s = CHR ''='' then drop 1 s else s) in skip_spaces s)"

text \<open>
  \<open>cfg_get_str (cfg, var, dest, dest_len)\<close>: the text at the variable and the place behind
  it, or nothing. The value still has to be copied by \<open>safe_strcpy\<close>.
\<close>

function cfg_find :: "string \<Rightarrow> string \<Rightarrow> (string \<times> string) option" where
  "cfg_find cfg var =
     (if ci_prefix (var @ '' '') cfg then
        let v = cfg_value (drop (length var) cfg) in
        Some (takeWhile (\<lambda>c. c \<noteq> CHR 0x0A) v, dropWhile (\<lambda>c. c \<noteq> CHR 0x0A) v)
      else
        case dropWhile (\<lambda>c. c \<noteq> CHR 0x0A) cfg of
          [] \<Rightarrow> None
        | nl # rest \<Rightarrow> if rest = [] then None else cfg_find rest var)"
  by pat_completeness auto
termination
  by (relation "measure (\<lambda>(cfg, var). length cfg)")
    (auto, metis length_dropWhile_le length_Cons less_Suc_eq_le order_less_le_trans lessI)

declare cfg_find.simps [simp del]

definition cfg_get_str :: "string \<Rightarrow> string \<Rightarrow> nat \<Rightarrow> (string \<times> string) option option" where
  "cfg_get_str cfg var dest_len =
     (case cfg_find cfg var of
        None \<Rightarrow> Some None
      | Some (val, rest) \<Rightarrow> map_option (\<lambda>dest. Some (dest, rest)) (safe_strcpy val dest_len))"

text \<open>\<open>ignore_read_next_entry\<close>: the mask, the type and the rest; outer \<open>None\<close> is an overread.\<close>

definition ignore_read_next_entry :: "string \<Rightarrow> (string \<times> uint \<times> string) option option" where
  "ignore_read_next_entry my_cfg =
     (case cfg_get_str my_cfg ''mask'' 1024 of
        None \<Rightarrow> None
      | Some None \<Rightarrow> Some None
      | Some (Some (msk, my_cfg)) \<Rightarrow>
          (case cfg_get_str my_cfg ''type'' 1024 of
             None \<Rightarrow> None
           | Some None \<Rightarrow> Some None
           | Some (Some (ty, my_cfg)) \<Rightarrow> Some (Some (msk, word_of_int (atoi ty), my_cfg))))"

lemma dropWhile_shorter: "length (dropWhile P s) \<le> length s"
  by (simp add: length_dropWhile_le)

lemma skip_spaces_shorter: "length (skip_spaces s) \<le> length s"
  by (simp add: skip_spaces_def length_dropWhile_le)

lemma cfg_value_shorter: "length (cfg_value s) \<le> length s"
proof -
  let ?t = "skip_spaces s"
  have "length (if cur ?t = CHR ''='' then drop 1 ?t else ?t) \<le> length ?t" by simp
  then show ?thesis
    using skip_spaces_shorter [of s] skip_spaces_shorter [of "if cur ?t = CHR ''='' then drop 1 ?t else ?t"]
    unfolding cfg_value_def Let_def by linarith
qed

lemma ci_prefix_length: "ci_prefix p s \<Longrightarrow> length p \<le> length s"
  by (induction p s rule: ci_prefix.induct) auto

lemma cfg_find_shorter: "cfg_find cfg var = Some (v, rest) \<Longrightarrow> var \<noteq> [] \<Longrightarrow> length rest < length cfg"
proof (induction cfg var rule: cfg_find.induct)
  case (1 cfg var)
  show ?case
  proof (cases "ci_prefix (var @ '' '') cfg")
    case True
    from ci_prefix_length [OF True] have "length var < length cfg" by simp
    moreover have "rest = dropWhile (\<lambda>c. c \<noteq> CHR 0x0A) (cfg_value (drop (length var) cfg))"
      using True "1.prems" by (simp add: cfg_find.simps [of cfg] Let_def)
    then have "length rest \<le> length cfg - length var"
      using dropWhile_shorter [of "\<lambda>c. c \<noteq> CHR 0x0A" "cfg_value (drop (length var) cfg)"]
        cfg_value_shorter [of "drop (length var) cfg"] by simp
    ultimately show ?thesis using "1.prems"(2) by (cases var) auto
  next
    case False
    then obtain nl r where r: "dropWhile (\<lambda>c. c \<noteq> CHR 0x0A) cfg = nl # r" "r \<noteq> []" "cfg_find r var = Some (v, rest)"
      using "1.prems"(1) by (auto simp: cfg_find.simps [of cfg] split: list.splits if_splits)
    have "length rest < length r" using "1.IH" [OF False r(1) r(2) r(3) "1.prems"(2)] .
    moreover have "length r < length cfg"
      using dropWhile_shorter [of "\<lambda>c. c \<noteq> CHR 0x0A" cfg] r(1) by simp
    ultimately show ?thesis by simp
  qed
qed

lemma ignore_read_next_entry_shorter:
  "ignore_read_next_entry cfg = Some (Some (msk, ty, rest)) \<Longrightarrow> length rest < length cfg"
  by (auto simp: ignore_read_next_entry_def cfg_get_str_def split: option.splits
      dest!: cfg_find_shorter)

text \<open>The loop of \<open>ignore_load\<close>, and the file \<open>ignore_save\<close> writes.\<close>

function ignore_load :: "string \<Rightarrow> ig_state \<Rightarrow> ig_state option" where
  "ignore_load my_cfg st =
     (case ignore_read_next_entry my_cfg of
        None \<Rightarrow> None
      | Some None \<Rightarrow> Some st
      | Some (Some (msk, ty, my_cfg)) \<Rightarrow>
          ignore_load my_cfg
            (st\<lparr>ignore_list := \<lparr>ig_addr = ig_next st, ig_mask = msk, ig_type = ty\<rparr> # ignore_list st,
                ig_next := ig_next st + 1\<rparr>))"
  by pat_completeness auto
termination
  by (relation "measure (\<lambda>(cfg, st). length cfg)") (auto dest: ignore_read_next_entry_shorter)

declare ignore_load.simps [simp del]

definition ignore_entry_text :: "ignore \<Rightarrow> string" where
  "ignore_entry_text ig =
     take 1023 (''mask = '' @ ig_mask ig @ [CHR 0x0A] @ ''type = '' @ show_nat (unat (ig_type ig)) @
                [CHR 0x0A, CHR 0x0A])"

definition ignore_save :: "ig_state \<Rightarrow> string" where
  "ignore_save st =
     concat (map ignore_entry_text (filter (\<lambda>ig. \<not> has (ig_type ig) IG_NOSAVE) (ignore_list st)))"

subsection \<open>Flood protection\<close>

record flood =
  ctcp_counter :: uint
  ctcp_last_time :: int
  msg_counter :: uint
  msg_last_time :: int

record flood_prefs =
  flood_ctcp_time :: int
  flood_ctcp_num :: int
  flood_msg_time :: int
  flood_msg_num :: int

text \<open>
  \<open>flood_check (nick, ip, serv, sess, what)\<close> at \<open>now\<close>; \<open>autoopen\<close> is the preference it turns
  off. The result is false when the message is part of a flood.
\<close>

definition flood_mask :: "string \<Rightarrow> string \<Rightarrow> string" where
  "flood_mask nick ip =
     (case strchr ip (CHR ''@'') of Some real_ip \<Rightarrow> ''*!*'' @ real_ip | None \<Rightarrow> nick @ ''!*'')"

definition flood_check ::
    "flood_prefs \<Rightarrow> int \<Rightarrow> string \<Rightarrow> string \<Rightarrow> bool \<Rightarrow> flood \<times> ig_state \<times> bool \<Rightarrow>
     (flood \<times> ig_state \<times> bool) \<times> bool" where
  "flood_check prefs now nick ip is_ctcp st =
     (let (fl, ig, autoopen) = st in
      if is_ctcp then
        (if ctcp_last_time fl = 0 then
           ((fl\<lparr>ctcp_last_time := now, ctcp_counter := ctcp_counter fl + 1\<rparr>, ig, autoopen), True)
         else if now - ctcp_last_time fl < flood_ctcp_time prefs then
           let fl = fl\<lparr>ctcp_counter := ctcp_counter fl + 1\<rparr> in
           if ctcp_counter fl = word_of_int (flood_ctcp_num prefs) then
             let fl = fl\<lparr>ctcp_last_time := now, ctcp_counter := 0\<rparr>; m = flood_mask nick ip;
                 ig = fst (ignore_add (ig_emit (Print_ctcp_flood nick m) ig) m IG_CTCP False)
             in ((fl, ig, autoopen), False)
           else ((fl, ig, autoopen), True)
         else (st, True))
      else
        (if msg_last_time fl = 0 then
           ((fl\<lparr>msg_last_time := now, ctcp_counter := ctcp_counter fl + 1\<rparr>, ig, autoopen), True)
         else if now - msg_last_time fl < flood_msg_time prefs then
           let fl = fl\<lparr>msg_counter := msg_counter fl + 1\<rparr> in
           if msg_counter fl = word_of_int (flood_msg_num prefs) then
             let fl = fl\<lparr>msg_last_time := now, msg_counter := 0\<rparr>;
                 ig = ig_emit (Print_msg_flood ip) ig
             in ((fl, (if autoopen then ig_emit (Autoopen_timeout 30) ig else ig), False), False)
           else ((fl, ig, autoopen), True)
         else (st, True)))"

end
