(* ===== verification/IgnoreProofs.thy ===== *)
theory IgnoreProofs
  imports Ignore
begin

text \<open>
  What the ignore list promises: the check is the specification over glob patterns with
  unignores first, masks stay unique, the file round-trips, and when flood protection works.
\<close>

subsection \<open>The check\<close>

lemma ignore_scan_spec:
  "case ignore_scan want igs host of
     None \<Rightarrow> \<exists>ig \<in> set igs. want ig \<and> match (ig_mask ig) host = Overread
   | Some b \<Rightarrow> b \<longleftrightarrow> (\<exists>ig \<in> set igs. want ig \<and> glob (mask_tokens (ig_mask ig)) host)"
proof (induction igs)
  case (Cons ig igs)
  have "match (ig_mask ig) host = Mismatch \<Longrightarrow> \<not> glob (mask_tokens (ig_mask ig)) host"
    using match_glob [of "ig_mask ig" host] by auto
  moreover have "match (ig_mask ig) host = Matched \<Longrightarrow> glob (mask_tokens (ig_mask ig)) host"
    using match_glob [of "ig_mask ig" host] by auto
  ultimately show ?case
    using Cons.IH by (auto split: option.splits match_result.splits)
qed simp

definition ignored_by :: "ignore list \<Rightarrow> string \<Rightarrow> uint \<Rightarrow> bool" where
  "ignored_by igs host ty \<longleftrightarrow>
     \<not> (\<exists>ig \<in> set igs. has (ig_type ig) IG_UNIG \<and> has (ig_type ig) ty \<and> glob (mask_tokens (ig_mask ig)) host) \<and>
     (\<exists>ig \<in> set igs. has (ig_type ig) ty \<and> glob (mask_tokens (ig_mask ig)) host)"

lemma ignore_check_spec:
  "case ignore_check st host ty of
     None \<Rightarrow> \<exists>ig \<in> set (ignore_list st). has (ig_type ig) ty \<and> match (ig_mask ig) host = Overread
   | Some (st', b) \<Rightarrow> (b \<longleftrightarrow> ignored_by (ignore_list st) host ty) \<and> ignore_list st' = ignore_list st \<and>
       ignored_total st' = ignored_total st + of_bool b"
  using ignore_scan_spec [where want = "\<lambda>ig. has (ig_type ig) IG_UNIG \<and> has (ig_type ig) ty"
        and igs = "ignore_list st" and host = host]
    ignore_scan_spec [where want = "\<lambda>ig. has (ig_type ig) ty" and igs = "ignore_list st" and host = host]
  by (auto simp: ignore_check_def ignored_by_def ig_emit_def Let_def split: option.splits bool.splits)

subsection \<open>Unique masks\<close>

definition ig_inv :: "ig_state \<Rightarrow> bool" where
  "ig_inv st \<longleftrightarrow> distinct (map ig_addr (ignore_list st)) \<and>
     (\<forall>ig \<in> set (ignore_list st). ig_addr ig < ig_next st \<and> ascii_name (ig_mask ig)) \<and>
     sorted_wrt (\<lambda>a b. rfc_casecmp (ig_mask a) (ig_mask b) \<noteq> 0) (ignore_list st)"

lemma ig_inv_emit [simp]: "ig_inv (ig_emit e st) = ig_inv st"
  by (simp add: ig_inv_def ig_emit_def)

lemma find_Some_mem: "find P xs = Some x \<Longrightarrow> x \<in> set xs \<and> P x"
  by (induction xs) (auto split: if_splits)

lemma find_None_all: "find P xs = None \<Longrightarrow> \<forall>x \<in> set xs. \<not> P x"
  by (induction xs) (auto split: if_splits)

text \<open>Replacing a mask by an equal one keeps the masks apart.\<close>

lemma rfc_zero_trans:
  assumes ok: "ascii_name x" "ascii_name y" "ascii_name z" and xy: "rfc_casecmp x y = 0"
    and xz: "rfc_casecmp x z = 0"
  shows "rfc_casecmp y z = 0"
proof -
  have "rfc_casecmp y x = 0" using rfc.cmp_zero_flip [OF ok(1,2)] xy by simp
  then have 1: "rfc_casecmp y z \<le> 0" using rfc.cmp_le_trans [OF ok(2,1,3)] xz by simp
  have "rfc_casecmp z x = 0" using rfc.cmp_zero_flip [OF ok(1,3)] xz by simp
  then have "rfc_casecmp z y \<le> 0" using rfc.cmp_le_trans [OF ok(3,1,2)] xy by simp
  with 1 show ?thesis using rfc.cmp_flip [OF ok(2,3)] rfc.cmp_flip [OF ok(3,2)] by linarith
qed

lemma ignore_add_inv:
  assumes inv: "ig_inv st" and m: "ascii_name msk"
  shows "ig_inv (fst (ignore_add st msk ty overwrite))"
proof (cases "ignore_exists st msk")
  case None
  then have "\<forall>x \<in> set (ignore_list st). rfc_casecmp (ig_mask x) msk \<noteq> 0"
    using find_None_all by (fastforce simp: ignore_exists_def)
  then have "\<forall>x \<in> set (ignore_list st). rfc_casecmp msk (ig_mask x) \<noteq> 0"
    using inv m rfc.cmp_zero_flip by (auto simp: ig_inv_def)
  moreover have "ig_next st \<notin> ig_addr ` set (ignore_list st)"
    using inv by (force simp: ig_inv_def)
  ultimately show ?thesis
    using inv m None by (auto simp: ignore_add_def ig_inv_def ig_emit_def)
next
  case (Some ig)
  then have ig: "ig \<in> set (ignore_list st)" "rfc_casecmp (ig_mask ig) msk = 0"
    using find_Some_mem by (fastforce simp: ignore_exists_def)+
  define ig' where "ig' = ig\<lparr>ig_mask := msk, ig_type := (if \<not> overwrite then ig_type ig OR ty else ty)\<rparr>"
  define f where "f = (\<lambda>e. if ig_addr e = ig_addr ig then ig' else e)"
  have same: "e = ig" if "e \<in> set (ignore_list st)" "ig_addr e = ig_addr ig" for e
    using inv that ig(1) by (simp add: ig_inv_def distinct_map inj_on_def)
  have oka: "e \<in> set (ignore_list st) \<Longrightarrow> ascii_name (ig_mask e)" for e
    using inv by (simp add: ig_inv_def)
  have addr: "ig_addr (f e) = ig_addr e" for e by (simp add: f_def ig'_def)
  have zero: "rfc_casecmp (ig_mask (f e)) x = 0 \<Longrightarrow> rfc_casecmp (ig_mask e) x = 0"
    if "e \<in> set (ignore_list st)" "ascii_name x" for e x
  proof (cases "ig_addr e = ig_addr ig")
    case True
    with same that have e: "e = ig" by simp
    assume "rfc_casecmp (ig_mask (f e)) x = 0"
    then have "rfc_casecmp msk x = 0" by (simp add: f_def ig'_def e)
    moreover have "rfc_casecmp msk (ig_mask ig) = 0"
      using rfc.cmp_zero_flip [OF oka [OF ig(1)] m] ig(2) by simp
    ultimately show ?thesis
      using rfc_zero_trans [OF m oka [OF ig(1)] that(2)] e by simp
  qed (simp add: f_def)
  have okf: "e \<in> set (ignore_list st) \<Longrightarrow> ascii_name (ig_mask (f e))" for e
    using oka m by (simp add: f_def ig'_def)
  have "sorted_wrt (\<lambda>a b. rfc_casecmp (ig_mask (f a)) (ig_mask (f b)) \<noteq> 0) (ignore_list st)"
  proof (rule sorted_wrt_mono_rel [where P = "\<lambda>a b. rfc_casecmp (ig_mask a) (ig_mask b) \<noteq> 0"])
    show "sorted_wrt (\<lambda>a b. rfc_casecmp (ig_mask a) (ig_mask b) \<noteq> 0) (ignore_list st)"
      using inv by (simp add: ig_inv_def)
    fix a b assume ab: "a \<in> set (ignore_list st)" "b \<in> set (ignore_list st)"
      "rfc_casecmp (ig_mask a) (ig_mask b) \<noteq> 0"
    show "rfc_casecmp (ig_mask (f a)) (ig_mask (f b)) \<noteq> 0"
    proof
      assume "rfc_casecmp (ig_mask (f a)) (ig_mask (f b)) = 0"
      then have "rfc_casecmp (ig_mask a) (ig_mask (f b)) = 0" by (rule zero [OF ab(1) okf [OF ab(2)]])
      then have "rfc_casecmp (ig_mask (f b)) (ig_mask a) = 0"
        using rfc.cmp_zero_flip [OF oka [OF ab(1)] okf [OF ab(2)]] by simp
      then have "rfc_casecmp (ig_mask b) (ig_mask a) = 0" by (rule zero [OF ab(2) oka [OF ab(1)]])
      with ab(3) rfc.cmp_zero_flip [OF oka [OF ab(2)] oka [OF ab(1)]] show False by simp
    qed
  qed
  moreover have "ig_addr \<circ> f = ig_addr" by (simp add: fun_eq_iff addr)
  moreover have "ig_addr (f e) < ig_next st" if "e \<in> set (ignore_list st)" for e
    using inv that by (simp add: addr ig_inv_def)
  ultimately have "ig_inv (st\<lparr>ignore_list := map f (ignore_list st)\<rparr>)"
    using inv okf by (simp add: ig_inv_def sorted_wrt_map)
  moreover have "fst (ignore_add st msk ty overwrite) =
      ig_emit (Fe_ignore_update 1) (st\<lparr>ignore_list := map f (ignore_list st)\<rparr>)"
    unfolding ignore_add_def Some option.case Let_def f_def ig'_def by (rule fst_conv)
  ultimately show ?thesis by simp
qed

lemma ignore_del_inv:
  assumes "ig_inv st" shows "ig_inv (fst (ignore_del st which))"
  using assms by (auto simp: ignore_del_def ig_inv_def ig_emit_def distinct_map_filter sorted_wrt_filter
      split: option.split)

text \<open>After the deletion of a mask nothing equal to it is left.\<close>

lemma ignore_del_gone:
  assumes inv: "ig_inv st" and m: "ascii_name msk"
  shows "ignore_exists (fst (ignore_del st (Inl msk))) msk = None"
proof (cases "ignore_exists st msk")
  case None
  then show ?thesis by (simp add: ignore_del_def)
next
  case (Some ig)
  then have ig: "ig \<in> set (ignore_list st)" "rfc_casecmp (ig_mask ig) msk = 0"
    using find_Some_mem by (fastforce simp: ignore_exists_def)+
  have oka: "e \<in> set (ignore_list st) \<Longrightarrow> ascii_name (ig_mask e)" for e
    using inv by (simp add: ig_inv_def)
  have "e = ig" if e: "e \<in> set (ignore_list st)" "rfc_casecmp (ig_mask e) msk = 0" for e
  proof (rule ccontr)
    assume ne: "e \<noteq> ig"
    obtain i j where ij: "i < length (ignore_list st)" "ignore_list st ! i = e"
        "j < length (ignore_list st)" "ignore_list st ! j = ig"
      using e(1) ig(1) by (auto simp: in_set_conv_nth)
    have z: "rfc_casecmp msk (ig_mask e) = 0" "rfc_casecmp msk (ig_mask ig) = 0"
      using rfc.cmp_zero_flip [OF oka m] e ig by simp_all
    have "rfc_casecmp (ig_mask e) (ig_mask ig) = 0" "rfc_casecmp (ig_mask ig) (ig_mask e) = 0"
      using rfc_zero_trans [OF m oka [OF e(1)] oka [OF ig(1)] z] rfc_zero_trans [OF m oka [OF ig(1)] oka [OF e(1)] z(2,1)]
      by simp_all
    then show False
      using inv ij ne unfolding ig_inv_def sorted_wrt_iff_nth_less
      by (metis linorder_neqE_nat)
  qed
  then have "find (\<lambda>ig. rfc_casecmp (ig_mask ig) msk = 0)
      (filter (\<lambda>e. ig_addr e \<noteq> ig_addr ig) (ignore_list st)) = None"
    by (auto simp: find_None_iff)
  with Some show ?thesis by (simp add: ignore_del_def ignore_exists_def ig_emit_def)
qed

subsection \<open>The file round-trips\<close>

definition mask_ok :: "string \<Rightarrow> bool" where
  "mask_ok msk \<longleftrightarrow> ascii_str msk \<and> CHR 0x0A \<notin> set msk \<and> cur msk \<noteq> CHR '' '' \<and> length msk \<le> 990"

definition entry_ok :: "ignore \<Rightarrow> bool" where
  "entry_ok ig \<longleftrightarrow> mask_ok (ig_mask ig)"

lemma skip_spaces_id: "cur s \<noteq> CHR '' '' \<Longrightarrow> skip_spaces s = s"
  by (cases s) (auto simp: skip_spaces_def)

lemma cfg_value_text: "cur s \<noteq> CHR '' '' \<Longrightarrow> cfg_value ('' = '' @ s) = s"
  by (simp add: cfg_value_def skip_spaces_id) (simp add: skip_spaces_def skip_spaces_id [unfolded skip_spaces_def])

lemma takeWhile_line: "CHR 0x0A \<notin> set v \<Longrightarrow> takeWhile (\<lambda>c. c \<noteq> CHR 0x0A) (v @ CHR 0x0A # r) = v"
  by (induction v) auto

lemma dropWhile_line: "CHR 0x0A \<notin> set v \<Longrightarrow> dropWhile (\<lambda>c. c \<noteq> CHR 0x0A) (v @ CHR 0x0A # r) = CHR 0x0A # r"
  by (induction v) auto

lemma cur_line: "cur v \<noteq> CHR '' '' \<Longrightarrow> cur (v @ CHR 0x0A # r) \<noteq> CHR '' ''"
  by (cases v) auto

lemma ci_prefix_self: "ci_prefix v (v @ s)"
  by (induction v) auto

lemma cfg_find_here:
  assumes "CHR 0x0A \<notin> set v" "cur v \<noteq> CHR '' ''"
  shows "cfg_find (var @ '' = '' @ v @ CHR 0x0A # r) var = Some (v, CHR 0x0A # r)"
proof -
  have "ci_prefix (var @ '' '') (var @ '' = '' @ v @ CHR 0x0A # r)"
    using ci_prefix_self [of "var @ '' ''" "''= '' @ v @ CHR 0x0A # r"] by simp
  moreover have "cfg_value ('' = '' @ v @ CHR 0x0A # r) = v @ CHR 0x0A # r"
    by (rule cfg_value_text) (rule cur_line [OF assms(2)])
  ultimately show ?thesis
    using assms(1) by (subst cfg_find.simps) (simp add: takeWhile_line dropWhile_line)
qed

lemma cfg_find_skip_line:
  "ascii_tolower (cur var) \<noteq> CHR 0x0A \<Longrightarrow> var \<noteq> [] \<Longrightarrow>
   cfg_find (CHR 0x0A # r) var = (if r = [] then None else cfg_find r var)"
  by (cases var) (auto simp: cfg_find.simps [of "CHR 0x0A # r"] ascii_tolower_def uchar_def)

lemma entry_text_full:
  assumes "entry_ok ig"
  shows "ignore_entry_text ig = ''mask = '' @ ig_mask ig @ CHR 0x0A #
    ''type = '' @ show_nat (unat (ig_type ig)) @ CHR 0x0A # [CHR 0x0A]"
proof -
  have "unat (ig_type ig) < 2 ^ LENGTH(32)" by (rule unsigned_less)
  then have "unat (ig_type ig) < 10 ^ Suc 9" by simp
  from length_show_nat [OF this] assms
  have "length (''mask = '' @ ig_mask ig @ [CHR 0x0A] @ ''type = '' @ show_nat (unat (ig_type ig)) @
      [CHR 0x0A, CHR 0x0A]) \<le> 1023"
    by (simp add: entry_ok_def mask_ok_def)
  then have "ignore_entry_text ig = ''mask = '' @ ig_mask ig @ [CHR 0x0A] @ ''type = '' @
      show_nat (unat (ig_type ig)) @ [CHR 0x0A, CHR 0x0A]"
    unfolding ignore_entry_text_def by (rule take_all)
  then show ?thesis by simp
qed

lemma show_nat_ok: "CHR 0x0A \<notin> set (show_nat n)" "cur (show_nat n) \<noteq> CHR '' ''" "ascii_str (show_nat n)"
proof -
  note d = show_nat_digits [of n]
  have "\<not> is_digit (CHR 0x0A)" by (simp add: is_digit_def uchar_def)
  with d show "CHR 0x0A \<notin> set (show_nat n)" by blast
  show "cur (show_nat n) \<noteq> CHR '' ''"
    using d by (cases "show_nat n") (auto simp: is_digit_def uchar_def)
  show "ascii_str (show_nat n)"
    using d by (auto simp: ascii_str_def list_all_iff is_digit_def ascii_def)
qed

lemma read_entry:
  assumes "entry_ok ig"
  shows "ignore_read_next_entry (ignore_entry_text ig @ r) =
    Some (Some (ig_mask ig, ig_type ig, CHR 0x0A # CHR 0x0A # r))"
proof -
  have ok: "ascii_str (ig_mask ig)" "CHR 0x0A \<notin> set (ig_mask ig)" "cur (ig_mask ig) \<noteq> CHR '' ''"
      "length (ig_mask ig) \<le> 990"
    using assms by (auto simp: entry_ok_def mask_ok_def)
  let ?ty = "show_nat (unat (ig_type ig))"
  let ?t = "''type = '' @ ?ty @ CHR 0x0A # CHR 0x0A # r"
  have "unat (ig_type ig) < 2 ^ LENGTH(32)" by (rule unsigned_less)
  then have len: "length ?ty \<le> 10" using length_show_nat [of "unat (ig_type ig)" 9] by simp
  have m: "cfg_get_str (ignore_entry_text ig @ r) ''mask'' 1024 = Some (Some (ig_mask ig, CHR 0x0A # ?t))"
    using cfg_find_here [OF ok(2,3), of "''mask''" ?t] safe_strcpy_ascii [OF ok(1), of 1024] ok(4)
    by (simp add: cfg_get_str_def entry_text_full [OF assms])
  have "cfg_find (CHR 0x0A # ?t) ''type'' = cfg_find ?t ''type''"
    by (subst cfg_find_skip_line) (simp_all add: ascii_tolower_def uchar_def)
  also have "\<dots> = Some (?ty, CHR 0x0A # CHR 0x0A # r)"
    using cfg_find_here [OF show_nat_ok(1,2), of "''type''" "unat (ig_type ig)" "CHR 0x0A # r"] by simp
  finally have t: "cfg_get_str (CHR 0x0A # ?t) ''type'' 1024 = Some (Some (?ty, CHR 0x0A # CHR 0x0A # r))"
    using safe_strcpy_ascii [OF show_nat_ok(3), of "unat (ig_type ig)" 1024] len
    by (simp add: cfg_get_str_def)
  have "word_of_int (atoi ?ty) = ig_type ig" by (simp add: atoi_show_nat)
  with m t show ?thesis by (simp add: ignore_read_next_entry_def)
qed

lemma read_skip_lines: "ignore_read_next_entry (CHR 0x0A # CHR 0x0A # r) =
    (if r = [] then Some None else ignore_read_next_entry r)"
proof -
  have "cfg_find (CHR 0x0A # CHR 0x0A # r) ''mask'' = (if r = [] then None else cfg_find r ''mask'')"
    by (subst cfg_find_skip_line, simp add: ascii_tolower_def uchar_def, simp)
      (subst cfg_find_skip_line, simp_all add: ascii_tolower_def uchar_def)
  then show ?thesis by (simp add: ignore_read_next_entry_def cfg_get_str_def)
qed

definition entry_pair :: "ignore \<Rightarrow> string \<times> uint" where
  "entry_pair ig = (ig_mask ig, ig_type ig)"

lemma entry_pair_copy: "entry_pair \<lparr>ig_addr = a, ig_mask = ig_mask ig, ig_type = ig_type ig\<rparr> = entry_pair ig"
  by (simp add: entry_pair_def)

lemma ignore_load_entries:
  "\<forall>ig \<in> set igs. entry_ok ig \<Longrightarrow> igs \<noteq> [] \<Longrightarrow>
   \<exists>st'. ignore_load (concat (map ignore_entry_text igs)) st = Some st' \<and>
     map entry_pair (ignore_list st') = rev (map entry_pair igs) @ map entry_pair (ignore_list st)"
proof (induction igs arbitrary: st)
  case (Cons ig igs)
  let ?st = "st\<lparr>ignore_list := \<lparr>ig_addr = ig_next st, ig_mask = ig_mask ig, ig_type = ig_type ig\<rparr> # ignore_list st,
      ig_next := ig_next st + 1\<rparr>"
  have step: "ignore_load (concat (map ignore_entry_text (ig # igs))) st =
      ignore_load (CHR 0x0A # CHR 0x0A # concat (map ignore_entry_text igs)) ?st"
    using read_entry [of ig "concat (map ignore_entry_text igs)"] Cons.prems(1)
    by (subst ignore_load.simps) simp
  have skip: "ignore_load (CHR 0x0A # CHR 0x0A # r) ?st = (if r = [] then Some ?st else ignore_load r ?st)" for r
    by (subst (1 2) ignore_load.simps) (simp add: read_skip_lines)
  show ?case
  proof (cases "igs = []")
    case True
    then show ?thesis unfolding step skip by (simp add: entry_pair_copy)
  next
    case False
    then have ne: "concat (map ignore_entry_text igs) \<noteq> []"
      using Cons.prems(1) by (cases igs) (auto simp: entry_text_full)
    obtain st' where "ignore_load (concat (map ignore_entry_text igs)) ?st = Some st'"
        "map entry_pair (ignore_list st') = rev (map entry_pair igs) @ map entry_pair (ignore_list ?st)"
      using Cons.IH [of ?st] Cons.prems(1) False by auto
    then show ?thesis unfolding step skip if_not_P [OF ne] by (simp add: entry_pair_copy)
  qed
qed simp

subsection \<open>Flood protection\<close>

text \<open>A run of CTCP requests, each with its time, sender and host; the results in order.\<close>

fun ctcp_run ::
    "flood_prefs \<Rightarrow> (int \<times> string \<times> string) list \<Rightarrow> flood \<times> ig_state \<times> bool \<Rightarrow>
     (flood \<times> ig_state \<times> bool) \<times> bool list" where
  "ctcp_run prefs [] st = (st, [])"
| "ctcp_run prefs ((now, nick, ip) # es) st =
     (let (st1, ok) = flood_check prefs now nick ip True st;
          (st2, oks) = ctcp_run prefs es st1 in (st2, ok # oks))"

lemma ctcp_run_snd:
  "snd (ctcp_run prefs ((now, nick, ip) # es) st) =
     snd (flood_check prefs now nick ip True st) #
     snd (ctcp_run prefs es (fst (flood_check prefs now nick ip True st)))"
  by (simp split: prod.split)

lemma ctcp_run_window:
  assumes "ctcp_last_time fl = t0" "t0 \<noteq> 0" "unat (ctcp_counter fl) + length es = n" "es \<noteq> []"
    "flood_ctcp_num prefs = int n" "n < 2 ^ 32"
    "\<forall>(now, nick, ip) \<in> set es. now - t0 < flood_ctcp_time prefs"
  shows "snd (ctcp_run prefs es (fl, ig, ao)) = replicate (length es - 1) True @ [False]"
  using assms
proof (induction es arbitrary: fl ig)
  case (Cons e es)
  obtain now nick ip where e: "e = (now, nick, ip)" by (cases e) auto
  have win: "now - ctcp_last_time fl < flood_ctcp_time prefs" using Cons.prems(1,7) e by simp
  have nz: "ctcp_last_time fl \<noteq> 0" using Cons.prems by simp
  let ?c = "ctcp_counter fl + 1"
  have c: "unat ?c = unat (ctcp_counter fl) + 1"
    using Cons.prems(3,6) by (simp add: unat_add_lem [THEN iffD1] unat_word_ariths)
  have "unat (word_of_nat n :: uint) = n"
    using Cons.prems(6) by (simp add: unsigned_of_nat take_bit_nat_eq_self)
  then have eq: "?c = word_of_int (int n) \<longleftrightarrow> unat ?c = n"
    by (simp add: word_unat_eq_iff)
  show ?case
  proof (cases es)
    case Nil
    then have "?c = word_of_int (int n)" using eq c Cons.prems(3) by simp
    with Nil win nz Cons.prems(5) show ?thesis
      unfolding e ctcp_run_snd by (simp add: flood_check_def Let_def)
  next
    case (Cons e' es')
    then have "?c \<noteq> word_of_int (int n)" using eq c Cons.prems(3) by simp
    then have "flood_check prefs now nick ip True (fl, ig, ao) = ((fl\<lparr>ctcp_counter := ?c\<rparr>, ig, ao), True)"
      using win nz Cons.prems(5) by (simp add: flood_check_def Let_def)
    moreover have "snd (ctcp_run prefs es (fl\<lparr>ctcp_counter := ?c\<rparr>, ig, ao)) = replicate (length es - 1) True @ [False]"
      by (rule Cons.IH) (use Cons.prems c Cons in auto)
    ultimately show ?thesis using Cons unfolding e ctcp_run_snd by simp
  qed
qed simp

lemma flood_mask_ignored:
  assumes "snd (flood_check prefs now nick ip True (fl, ig, ao)) = False" "ascii_name (flood_mask nick ip)"
  shows "\<exists>e. ignore_exists (fst (snd (fst (flood_check prefs now nick ip True (fl, ig, ao))))) (flood_mask nick ip) = Some e"
proof -
  let ?m = "flood_mask nick ip"
  let ?ig = "ig_emit (Print_ctcp_flood nick ?m) ig"
  have "fst (snd (fst (flood_check prefs now nick ip True (fl, ig, ao)))) = fst (ignore_add ?ig ?m IG_CTCP False)"
    using assms(1) by (auto simp: flood_check_def Let_def split: if_splits)
  moreover have "ignore_exists (fst (ignore_add ?ig ?m IG_CTCP False)) ?m \<noteq> None"
  proof (cases "ignore_exists ?ig ?m")
    case None
    then show ?thesis
      using rfc.cmp_refl [OF assms(2)] by (simp add: ignore_add_def ignore_exists_def ig_emit_def)
  next
    case (Some e)
    then have "\<exists>x \<in> set (ignore_list ?ig). x = e"
      using find_Some_mem by (fastforce simp: ignore_exists_def)
    with Some show ?thesis
      using rfc.cmp_refl [OF assms(2)]
      by (auto simp: ignore_add_def ignore_exists_def ig_emit_def Let_def find_None_iff)
  qed
  ultimately show ?thesis by auto
qed

lemma ctcp_run_expired:
  assumes "ctcp_last_time fl \<noteq> 0"
    "\<forall>(now, nick, ip) \<in> set es. flood_ctcp_time prefs \<le> now - ctcp_last_time fl"
  shows "ctcp_run prefs es (fl, ig, ao) = ((fl, ig, ao), replicate (length es) True)"
  using assms(2)
proof (induction es)
  case (Cons e es)
  obtain now nick ip where e: "e = (now, nick, ip)" by (cases e) auto
  have "flood_check prefs now nick ip True (fl, ig, ao) = ((fl, ig, ao), True)"
    using Cons.prems e assms(1) by (simp add: flood_check_def)
  with Cons e show ?case by simp
qed simp

subsection \<open>The properties of the ignore list\<close>

text \<open>C9: A message is ignored exactly when no unignore entry of its type matches the sender and
  some entry of its type does, where matching is glob matching up to case; the list is left
  alone and the total counts exactly the ignored ones. The only other outcome is the overread of
  \<open>match\<close>, on an entry of the message's type.\<close>

theorem ignore_check_correct:
  "case ignore_check st host ty of
     None \<Rightarrow> \<exists>ig \<in> set (ignore_list st). has (ig_type ig) ty \<and> match (ig_mask ig) host = Overread
   | Some (st', b) \<Rightarrow> (b \<longleftrightarrow> ignored_by (ignore_list st) host ty) \<and> ignore_list st' = ignore_list st \<and>
       ignored_total st' = ignored_total st + of_bool b"
  by (rule ignore_check_spec)

text \<open>Adding a mask keeps the masks of the list pairwise different up to case, and deleting
  one leaves no entry equal to it.\<close>

theorem ignore_masks_unique:
  assumes "ig_inv st" "ascii_name msk"
  shows "ig_inv (fst (ignore_add st msk ty overwrite)) \<and> ig_inv (fst (ignore_del st (Inl msk))) \<and>
    ignore_exists (fst (ignore_del st (Inl msk))) msk = None"
  using ignore_add_inv [OF assms] ignore_del_inv [OF assms(1)] ignore_del_gone [OF assms] by simp

theorem ignore_masks_unique_witness:
  "ig_inv (fst (ignore_add ig_init ''*!*@spam.net'' IG_PRIV False)) \<and>
   ignore_exists (fst (ignore_del ig_init (Inl ''*!*@spam.net''))) ''*!*@spam.net'' = None"
proof -
  have "ig_inv ig_init" by (simp add: ig_inv_def ig_init_def)
  moreover have "ascii_name ''*!*@spam.net''" by (simp add: ascii_name_def ascii_def uchar_def)
  ultimately show ?thesis using ignore_masks_unique [of ig_init "''*!*@spam.net''" IG_PRIV False] by simp
qed

text \<open>What \<open>ignore_save\<close> writes, \<open>ignore_load\<close> reads back: the entries to be saved, with
  their masks and types, in reverse order.\<close>

theorem ignore_file_roundtrip:
  assumes "\<forall>ig \<in> set (ignore_list st). entry_ok ig"
    "\<exists>ig \<in> set (ignore_list st). \<not> has (ig_type ig) IG_NOSAVE"
  shows "\<exists>st'. ignore_load (ignore_save st) ig_init = Some st' \<and>
    map entry_pair (ignore_list st') =
      rev (map entry_pair (filter (\<lambda>ig. \<not> has (ig_type ig) IG_NOSAVE) (ignore_list st)))"
proof -
  let ?igs = "filter (\<lambda>ig. \<not> has (ig_type ig) IG_NOSAVE) (ignore_list st)"
  have "?igs \<noteq> []" using assms(2) by (auto simp: filter_empty_conv)
  then show ?thesis
    using ignore_load_entries [of ?igs ig_init] assms(1) by (simp add: ignore_save_def ig_init_def)
qed

theorem ignore_file_roundtrip_witness:
  "\<exists>st'. ignore_load (ignore_save (ig_init\<lparr>ignore_list :=
        [\<lparr>ig_addr = 2, ig_mask = ''bob!*@*'', ig_type = 8\<rparr>, \<lparr>ig_addr = 1, ig_mask = ''*!*@spam'', ig_type = 3\<rparr>]\<rparr>)) ig_init = Some st' \<and>
    map entry_pair (ignore_list st') = [(''*!*@spam'', 3), (''bob!*@*'', 8)]"
proof -
  let ?st = "ig_init\<lparr>ignore_list :=
    [\<lparr>ig_addr = 2, ig_mask = ''bob!*@*'', ig_type = 8\<rparr>, \<lparr>ig_addr = 1, ig_mask = ''*!*@spam'', ig_type = 3\<rparr>]\<rparr>"
  have "\<forall>ig \<in> set (ignore_list ?st). entry_ok ig"
    by (simp add: entry_ok_def mask_ok_def ascii_def uchar_def)
  moreover have n: "\<not> has 8 IG_NOSAVE" "\<not> has 3 IG_NOSAVE" by (simp_all add: has_def IG_NOSAVE_def)
  ultimately show ?thesis
    using ignore_file_roundtrip [of ?st] by (simp add: entry_pair_def)
qed

text \<open>While the window of the first request lasts, the \<open>n\<close>-th CTCP request, and none before
  it, is reported as a flood, for any configured \<open>n\<close> from 2 on.\<close>

theorem ctcp_flood_detected:
  assumes "ctcp_last_time fl = 0" "ctcp_counter fl = 0" "t0 \<noteq> 0" "es \<noteq> []"
    "flood_ctcp_num prefs = int (Suc (length es))" "Suc (length es) < 2 ^ 32"
    "\<forall>(now, nick, ip) \<in> set es. now - t0 < flood_ctcp_time prefs"
  shows "snd (ctcp_run prefs ((t0, nick0, ip0) # es) (fl, ig, ao)) = replicate (length es) True @ [False]"
proof -
  let ?fl = "fl\<lparr>ctcp_last_time := t0, ctcp_counter := 1\<rparr>"
  have first: "flood_check prefs t0 nick0 ip0 True (fl, ig, ao) = ((?fl, ig, ao), True)"
    using assms(1,2) by (simp add: flood_check_def)
  have "snd (ctcp_run prefs es (?fl, ig, ao)) = replicate (length es - 1) True @ [False]"
    by (rule ctcp_run_window) (use assms in auto)
  then have "snd (ctcp_run prefs ((t0, nick0, ip0) # es) (fl, ig, ao)) =
      True # replicate (length es - 1) True @ [False]"
    unfolding ctcp_run_snd first by simp
  also have "\<dots> = replicate (length es) True @ [False]" using assms(4) by (cases es) auto
  finally show ?thesis .
qed

definition demo_prefs :: flood_prefs where
  "demo_prefs = \<lparr>flood_ctcp_time = 30, flood_ctcp_num = 3, flood_msg_time = 30, flood_msg_num = 5\<rparr>"

definition no_flood :: flood where
  "no_flood = \<lparr>ctcp_counter = 0, ctcp_last_time = 0, msg_counter = 0, msg_last_time = 0\<rparr>"

theorem ctcp_flood_detected_witness:
  "snd (ctcp_run demo_prefs [(100, ''a'', ''a@h''), (101, ''a'', ''a@h''), (105, ''a'', ''a@h'')]
     (no_flood, ig_init, True)) = [True, True, False]"
  using ctcp_flood_detected [of no_flood 100 "[(101, ''a'', ''a@h''), (105, ''a'', ''a@h'')]" demo_prefs
      "''a''" "''a@h''" ig_init True]
  by (simp add: no_flood_def demo_prefs_def del: ctcp_run.simps)

text \<open>Once the window of the first request has passed without a flood, no number of CTCP
  requests is ever reported again: the window is never restarted.\<close>

theorem ctcp_flood_window_never_restarts:
  assumes "ctcp_last_time fl \<noteq> 0"
    "\<forall>(now, nick, ip) \<in> set es. flood_ctcp_time prefs \<le> now - ctcp_last_time fl"
  shows "ctcp_run prefs es (fl, ig, ao) = ((fl, ig, ao), replicate (length es) True)"
  by (rule ctcp_run_expired [OF assms])

theorem ctcp_flood_window_never_restarts_witness:
  "snd (ctcp_run demo_prefs (replicate 5 (200, ''a'', ''a@h'')) (no_flood\<lparr>ctcp_last_time := 100\<rparr>, ig_init, True)) =
     replicate 5 True"
  using ctcp_flood_window_never_restarts [of "no_flood\<lparr>ctcp_last_time := 100\<rparr>" "replicate 5 (200, ''a'', ''a@h'')"
      demo_prefs ig_init True]
  by (simp add: no_flood_def demo_prefs_def)

end
