(* ===== verification/SendQueue.thy ===== *)
theory SendQueue
  imports Ignore
begin

text \<open>
  The connection layer of \<open>src/common/server.c\<close>: the throttled send queue with its three
  priorities, labels and their stale sweep, draft/multiline batches, and the assembly of
  received bytes into lines.

  \<open>printf\<close> formatting happens in the caller: the functions below take the text that the
  format and its arguments stand for, and cut it as their buffers do. \<open>wire\<close> is what went to
  the socket, \<open>now\<close> is \<open>time (0)\<close>. Hash tables are association lists without repeated keys.
\<close>

record pending_label_info =
  pl_command :: string
  pl_target :: "string option"
  pl_sess :: "nat option"
  pl_sent_time :: int
  pl_entry_id :: nat

record batch_message =
  bm_prefix :: string
  bm_command :: string
  bm_params :: "string list"
  bm_tags :: "(string \<rightharpoonup> string) option"
  bm_timestamp :: int
  bm_msgid :: "string option"

record batch_info =
  bi_id :: string
  bi_type :: string
  bi_params :: "string list"
  bi_outer_batch :: "string option"
  bi_label :: "string option"
  bi_msgid :: "string option"
  bi_chathistory_end :: bool
  bi_messages :: "batch_message list"
  bi_started :: int
  bi_server_time :: int

record sendq =
  net_throttle :: bool
  end_of_motd :: bool
  batch_burst :: bool
  batch_burst_bytes :: int
  outbound_queue :: "(nat \<times> string) list"
  next_send :: int
  prev_now :: int
  sendq_len :: int
  send_timer :: bool
  wire :: "string list"
  have_labeled_response :: bool
  label_counter :: uint
  pending_labels :: "(string \<times> pending_label_info) list"
  last_sent_label :: "string option"
  active_batches :: "(string \<times> batch_info) list"
  stale_sweep_timer :: bool

definition server_send_real :: "string \<Rightarrow> sendq \<Rightarrow> sendq" where
  "server_send_real buf st = st\<lparr>wire := wire st @ [buf]\<rparr>"

subsection \<open>The throttled queue\<close>

text \<open>The scan for the first line of a priority: the lines before it, its text, those behind it.\<close>

fun next_at :: "nat \<Rightarrow> (nat \<times> string) list \<Rightarrow> ((nat \<times> string) list \<times> string \<times> (nat \<times> string) list) option" where
  "next_at pri [] = None"
| "next_at pri ((p, buf) # q) =
     (if p = pri then Some ([], buf, q)
      else map_option (\<lambda>(before, b, behind). ((p, buf) # before, b, behind)) (next_at pri q))"

lemma next_at_Some:
  "next_at pri q = Some (before, buf, behind) \<Longrightarrow>
   q = before @ (pri, buf) # behind \<and> (\<forall>(p, b) \<in> set before. p \<noteq> pri)"
  by (induction pri q arbitrary: before rule: next_at.induct) (auto split: if_splits)

lemma next_at_None: "next_at pri q = None \<longleftrightarrow> (\<forall>(p, b) \<in> set q. p \<noteq> pri)"
  by (induction pri q rule: next_at.induct) auto

definition throttle_cost :: "string \<Rightarrow> int" where
  "throttle_cost buf = 2 + int (length (dropWhile (\<lambda>c. c \<noteq> CHR '' '') buf)) div 120"

text \<open>The result says whether the timeout handler is still needed.\<close>

function tcp_send_queue_loop :: "int \<Rightarrow> nat \<Rightarrow> sendq \<Rightarrow> sendq \<times> bool" where
  "tcp_send_queue_loop now pri st =
     (case next_at pri (outbound_queue st) of
        None \<Rightarrow> if pri = 0 then (st, False) else tcp_send_queue_loop now (pri - 1) st
      | Some (before, buf, behind) \<Rightarrow>
          let ns = (if next_send st < now then now else next_send st) in
          if ns - now \<ge> 10 \<and> now \<ge> prev_now st then (st\<lparr>next_send := ns\<rparr>, True)
          else
            let ns = (if ns - now \<ge> 10 then now else ns) in
            tcp_send_queue_loop now pri
              (server_send_real buf
                 (st\<lparr>next_send := ns + throttle_cost buf, sendq_len := sendq_len st - int (length buf),
                     prev_now := now, outbound_queue := before @ behind\<rparr>)))"
  by pat_completeness auto
termination
  by (relation "measures [\<lambda>(now, pri, st). length (outbound_queue st), \<lambda>(now, pri, st). pri]")
    (auto simp: server_send_real_def dest!: next_at_Some)

declare tcp_send_queue_loop.simps [simp del]

definition tcp_send_queue :: "int \<Rightarrow> sendq \<Rightarrow> sendq \<times> bool" where
  "tcp_send_queue now st = tcp_send_queue_loop now 2 st"

fun has_substring :: "string \<Rightarrow> string \<Rightarrow> bool" where
  "has_substring [] sub = (sub = [])"
| "has_substring (c # s) sub = (has_prefix (c # s) sub \<or> has_substring s sub)"

text \<open>Is there a \<open>+\<close> or \<open>-\<close> in the mode string of a MODE command?\<close>

definition mode_change :: "string \<Rightarrow> bool" where
  "mode_change buf =
     (case strchr (skip_spaces (drop 4 buf)) (CHR '' '') of
        None \<Rightarrow> False
      | Some rest \<Rightarrow>
          let modes = takeWhile (\<lambda>c. c \<noteq> CHR '' '') (skip_spaces rest)
          in CHR ''-'' \<in> set modes \<or> CHR ''+'' \<in> set modes)"

definition send_priority :: "string \<Rightarrow> nat" where
  "send_priority buf =
     (if ci_prefix ''PRIVMSG'' buf \<or> ci_prefix ''NOTICE'' buf then 1
      else if ci_prefix ''WHO '' buf \<or> ci_prefix ''CHATHISTORY '' buf \<or>
              (cur buf = CHR ''@'' \<and> has_substring buf '' CHATHISTORY '') then 0
      else if ci_prefix ''MODE '' buf then (if mode_change buf then 2 else 0)
      else 2)"

definition tcp_send_len :: "int \<Rightarrow> string \<Rightarrow> sendq \<Rightarrow> sendq" where
  "tcp_send_len now buf st =
     (let noqueue = (outbound_queue st = []) in
      if \<not> net_throttle st \<or> \<not> end_of_motd st \<or> batch_burst st then
        server_send_real buf
          (if batch_burst st then st\<lparr>batch_burst_bytes := batch_burst_bytes st + int (length buf)\<rparr> else st)
      else
        let text = upto_chr buf NUL;
            st = st\<lparr>outbound_queue := outbound_queue st @ [(send_priority text, text)],
                    sendq_len := sendq_len st + int (length buf)\<rparr>;
            (st, more) = tcp_send_queue now st
        in if more \<and> noqueue then st\<lparr>send_timer := True\<rparr> else st)"

text \<open>
  \<open>g_vsnprintf\<close> into 1539 bytes of the buffer: 1538 characters and the terminator. The length
  is taken from \<open>strlen\<close> only when it exceeds 1539, so that a text of exactly 1539 characters
  is sent with the terminator in place of its last one.
\<close>

definition sendf_cut :: "string \<Rightarrow> string" where
  "sendf_cut text =
     (if length text > 1539 then take 1538 text
      else if length text = 1539 then take 1538 text @ [NUL]
      else text)"

definition tcp_sendf :: "int \<Rightarrow> string \<Rightarrow> sendq \<Rightarrow> sendq" where
  "tcp_sendf now text st = tcp_send_len now (sendf_cut text) st"

subsection \<open>Labels\<close>

definition show_label :: "uint \<Rightarrow> string" where
  "show_label n = ''hc'' @ show_nat (unat n)"

definition tcp_generate_label :: "sendq \<Rightarrow> sendq \<times> string" where
  "tcp_generate_label st = (st\<lparr>label_counter := label_counter st + 1\<rparr>, show_label (label_counter st))"

definition tcp_vsendf_labeled :: "int \<Rightarrow> string \<Rightarrow> sendq \<Rightarrow> sendq \<times> string option" where
  "tcp_vsendf_labeled now text st =
     (if \<not> have_labeled_response st then (tcp_send_len now (sendf_cut text) st, None)
      else
        let (st, label) = tcp_generate_label st
        in (tcp_send_len now (take 1599 (''@label='' @ label @ '' '' @ take 1538 text)) st, Some label))"

definition tcp_vsendf_labeled_with_tags ::
    "int \<Rightarrow> string option \<Rightarrow> string \<Rightarrow> sendq \<Rightarrow> sendq \<times> string option" where
  "tcp_vsendf_labeled_with_tags now extra_tags text st =
     (let extra = (case extra_tags of None \<Rightarrow> [] | Some t \<Rightarrow> t) in
      if \<not> have_labeled_response st then
        ((if extra \<noteq> [] then tcp_send_len now (take 1599 (''@'' @ extra @ '' '' @ take 1538 text)) st
          else tcp_send_len now (sendf_cut text) st), None)
      else
        let (st, label) = tcp_generate_label st;
            tags = (if extra \<noteq> [] then label @ '';'' @ extra else label)
        in (tcp_send_len now (take 1599 (''@label='' @ tags @ '' '' @ take 1538 text)) st, Some label))"

definition server_ensure_stale_sweep_timer :: "sendq \<Rightarrow> sendq" where
  "server_ensure_stale_sweep_timer st = st\<lparr>stale_sweep_timer := True\<rparr>"

definition table_insert :: "'k \<Rightarrow> 'v \<Rightarrow> ('k \<times> 'v) list \<Rightarrow> ('k \<times> 'v) list" where
  "table_insert k v t = (k, v) # filter (\<lambda>e. fst e \<noteq> k) t"

definition table_remove :: "'k \<Rightarrow> ('k \<times> 'v) list \<Rightarrow> ('k \<times> 'v) list" where
  "table_remove k t = filter (\<lambda>e. fst e \<noteq> k) t"

text \<open>The part the three tracked senders share: remember the label until its answer comes.\<close>

definition track_label :: "int \<Rightarrow> string \<Rightarrow> string option \<Rightarrow> sendq \<times> string option \<Rightarrow> sendq \<times> string option" where
  "track_label now command target r =
     (case r of
        (st, None) \<Rightarrow> (st, None)
      | (st, Some label) \<Rightarrow>
          (server_ensure_stale_sweep_timer
             (st\<lparr>pending_labels := table_insert label
                   \<lparr>pl_command = command, pl_target = target, pl_sess = None,
                     pl_sent_time = now, pl_entry_id = 0\<rparr> (pending_labels st),
                 last_sent_label := Some label\<rparr>), Some label))"

definition tcp_sendf_labeled_tracked ::
    "int \<Rightarrow> string \<Rightarrow> string option \<Rightarrow> string \<Rightarrow> sendq \<Rightarrow> sendq \<times> string option" where
  "tcp_sendf_labeled_tracked now command target text st =
     track_label now command target (tcp_vsendf_labeled now text st)"

definition tcp_sendf_with_tags ::
    "int \<Rightarrow> string \<Rightarrow> string option \<Rightarrow> string \<Rightarrow> string \<Rightarrow> string \<Rightarrow> sendq \<Rightarrow> sendq \<times> string option" where
  "tcp_sendf_with_tags now command target tag_key tag_value text st =
     track_label now command target
       (tcp_vsendf_labeled_with_tags now (Some (tag_key @ ''='' @ tag_value)) text st)"

definition tcp_sendf_with_raw_tags ::
    "int \<Rightarrow> string \<Rightarrow> string option \<Rightarrow> string option \<Rightarrow> string \<Rightarrow> sendq \<Rightarrow> sendq \<times> string option" where
  "tcp_sendf_with_raw_tags now command target extra_tags text st =
     track_label now command target (tcp_vsendf_labeled_with_tags now extra_tags text st)"

definition STALE_LABEL_TIMEOUT :: int where "STALE_LABEL_TIMEOUT = 60"
definition STALE_BATCH_TIMEOUT :: int where "STALE_BATCH_TIMEOUT = 120"

definition check_stale_label :: "int \<Rightarrow> pending_label_info \<Rightarrow> bool" where
  "check_stale_label now info \<longleftrightarrow> now - pl_sent_time info > STALE_LABEL_TIMEOUT"

definition check_stale_batch :: "int \<Rightarrow> batch_info \<Rightarrow> bool" where
  "check_stale_batch now batch \<longleftrightarrow> now - bi_started batch > STALE_BATCH_TIMEOUT"

text \<open>One removal of the batch loop: the label of the batch goes with it.\<close>

definition drop_batch :: "string \<Rightarrow> sendq \<Rightarrow> sendq" where
  "drop_batch batch_id st =
     (let st = (case map_of (active_batches st) batch_id of
                  Some batch \<Rightarrow>
                    (case bi_label batch of
                       Some label \<Rightarrow> st\<lparr>pending_labels := table_remove label (pending_labels st)\<rparr>
                     | None \<Rightarrow> st)
                | None \<Rightarrow> st)
      in st\<lparr>active_batches := table_remove batch_id (active_batches st)\<rparr>)"

definition stale_sweep_cb :: "int \<Rightarrow> sendq \<Rightarrow> sendq \<times> bool" where
  "stale_sweep_cb now st =
     (let st = st\<lparr>pending_labels := filter (\<lambda>e. \<not> check_stale_label now (snd e)) (pending_labels st)\<rparr>;
          have_labels = (pending_labels st \<noteq> []);
          stale = map fst (filter (\<lambda>e. check_stale_batch now (snd e)) (active_batches st));
          st = foldl (\<lambda>st k. drop_batch k st) st stale;
          have_entries = (have_labels \<or> active_batches st \<noteq> [])
      in if \<not> have_entries then (st\<lparr>stale_sweep_timer := False\<rparr>, False) else (st, True))"

subsection \<open>Multiline batches\<close>

definition tcp_batch_open_multiline :: "int \<Rightarrow> string \<Rightarrow> sendq \<Rightarrow> sendq \<times> string" where
  "tcp_batch_open_multiline now target st =
     (let batch_tag = ''hcb'' @ show_nat (unat (label_counter st));
          st = st\<lparr>label_counter := label_counter st + 1, batch_burst := True, batch_burst_bytes := 0\<rparr>;
          (st, _) = track_label now ''BATCH'' (Some target)
            (tcp_vsendf_labeled now (''BATCH +'' @ batch_tag @ '' draft/multiline '' @ target @ [CHR 0x0D, CHR 0x0A]) st)
      in (st, batch_tag))"

definition tcp_batch_privmsg :: "int \<Rightarrow> string \<Rightarrow> string \<Rightarrow> string \<Rightarrow> sendq \<Rightarrow> sendq" where
  "tcp_batch_privmsg now batch_tag target text st =
     tcp_sendf now (''@batch='' @ batch_tag @ '' PRIVMSG '' @ target @ '' :'' @ text @ [CHR 0x0D, CHR 0x0A]) st"

definition tcp_batch_close :: "int \<Rightarrow> string \<Rightarrow> sendq \<Rightarrow> sendq" where
  "tcp_batch_close now batch_tag st =
     (let st = tcp_sendf now (''BATCH -'' @ batch_tag @ [CHR 0x0D, CHR 0x0A]) st in
      if batch_burst st then
        let ns = (if next_send st < now then now else next_send st)
        in st\<lparr>batch_burst := False, next_send := ns + (2 + batch_burst_bytes st div 120),
              batch_burst_bytes := 0\<rparr>
      else st)"

subsection \<open>Receiving lines\<close>

definition LINEBUF_SIZE :: nat where "LINEBUF_SIZE = 8704"

text \<open>
  The inner loop of \<open>server_read\<close>: \<open>linebuf\<close> holds the first \<open>pos\<close> bytes of the line being
  assembled; complete lines go to \<open>server_inline\<close>. A byte that does not fit is dropped.
\<close>

fun read_bytes :: "string \<Rightarrow> string \<Rightarrow> string \<times> string list" where
  "read_bytes linebuf [] = (linebuf, [])"
| "read_bytes linebuf (c # bs) =
     (if c = CHR 0x0D then read_bytes linebuf bs
      else if c = CHR 0x0A then
        (let (lb, ls) = read_bytes [] bs in (lb, linebuf # ls))
      else if length linebuf \<ge> LINEBUF_SIZE - 1 then read_bytes linebuf bs
      else read_bytes (linebuf @ [c]) bs)"

fun server_read :: "string \<Rightarrow> string list \<Rightarrow> string \<times> string list" where
  "server_read linebuf [] = (linebuf, [])"
| "server_read linebuf (lbuf # chunks) =
     (let (lb, ls) = read_bytes linebuf lbuf; (lb', ls') = server_read lb chunks in (lb', ls @ ls'))"

end
