(* ===== verification/SendQueueProofs.thy ===== *)
theory SendQueueProofs
  imports SendQueue IgnoreProofs
begin

text \<open>
  The send queue neither loses, reorders (within a priority) nor duplicates lines, keeps its
  length counter, and bursts at most five lines; labels are fresh; the stale sweep removes
  exactly what timed out; received bytes become the same lines however they were chunked.
\<close>

subsection \<open>Priorities\<close>

definition level :: "nat \<Rightarrow> (nat \<times> string) list \<Rightarrow> (nat \<times> string) list" where
  "level p q = filter (\<lambda>e. fst e = p) q"

definition by_priority :: "(nat \<times> string) list \<Rightarrow> (nat \<times> string) list" where
  "by_priority q = level 2 q @ level 1 q @ level 0 q"

lemma level_simps [simp]:
  "level p [] = []" "level p ((k, b) # q) = (if k = p then (k, b) # level p q else level p q)"
  "level p (q @ r) = level p q @ level p r"
  by (simp_all add: level_def)

lemma level_none: "(\<forall>e \<in> set q. fst e \<noteq> p) \<Longrightarrow> level p q = []"
  by (simp add: level_def filter_empty_conv)

lemma by_priority_empty: "\<forall>e \<in> set q. fst e \<le> 2 \<Longrightarrow> by_priority q = [] \<Longrightarrow> q = []"
  by (cases q) (auto simp: by_priority_def le_Suc_eq numeral_2_eq_2)

lemma by_priority_first:
  assumes "pri \<le> 2" "\<forall>e \<in> set (before @ (pri, buf) # behind). fst e \<le> pri" "\<forall>e \<in> set before. fst e \<noteq> pri"
  shows "by_priority (before @ (pri, buf) # behind) = (pri, buf) # by_priority (before @ behind)"
proof -
  have none: "level p (before @ (pri, buf) # behind) = []" if "pri < p" for p
    using assms(2) that by (intro level_none) (metis not_le)
  have nil: "level pri before = []" using assms(3) by (rule level_none)
  consider "pri = 2" | "pri = 1" | "pri = 0" using assms(1) by linarith
  then show ?thesis
  proof cases
    case 1
    with nil show ?thesis by (simp add: by_priority_def)
  next
    case 2
    with nil none [of 2] show ?thesis by (simp add: by_priority_def)
  next
    case 3
    with nil none [of 2] none [of 1] show ?thesis by (simp add: by_priority_def)
  qed
qed

subsection \<open>The queue\<close>

definition text_sum :: "(nat \<times> string) list \<Rightarrow> int" where
  "text_sum q = sum_list (map (\<lambda>e. int (length (snd e))) q)"

lemma text_sum_simps [simp]:
  "text_sum [] = 0" "text_sum (e # q) = int (length (snd e)) + text_sum q"
  "text_sum (q @ r) = text_sum q + text_sum r"
  by (simp_all add: text_sum_def)

text \<open>The part of the state the queue loop leaves alone.\<close>

definition sendq_inv :: "sendq \<Rightarrow> bool" where
  "sendq_inv st \<longleftrightarrow> sendq_len st = text_sum (outbound_queue st) \<and> (\<forall>e \<in> set (outbound_queue st). fst e \<le> 2)"

lemma send_real_simps [simp]:
  "outbound_queue (server_send_real b st) = outbound_queue st"
  "wire (server_send_real b st) = wire st @ [b]"
  "next_send (server_send_real b st) = next_send st"
  "prev_now (server_send_real b st) = prev_now st"
  "sendq_len (server_send_real b st) = sendq_len st"
  "batch_burst (server_send_real b st) = batch_burst st"
  "net_throttle (server_send_real b st) = net_throttle st"
  "end_of_motd (server_send_real b st) = end_of_motd st"
  "pending_labels (server_send_real b st) = pending_labels st"
  "active_batches (server_send_real b st) = active_batches st"
  "label_counter (server_send_real b st) = label_counter st"
  by (simp_all add: server_send_real_def)

lemma loop_result:
  "sendq_inv st \<Longrightarrow> pri \<le> 2 \<Longrightarrow> \<forall>e \<in> set (outbound_queue st). fst e \<le> pri \<Longrightarrow>
   \<exists>sent st' busy. tcp_send_queue_loop now pri st = (st', busy) \<and>
     wire st' = wire st @ map snd sent \<and>
     by_priority (outbound_queue st) = sent @ by_priority (outbound_queue st') \<and>
     (busy \<longleftrightarrow> outbound_queue st' \<noteq> []) \<and> sendq_inv st'"
proof (induction now pri st rule: tcp_send_queue_loop.induct)
  case (1 now pri st)
  show ?case
  proof (cases "next_at pri (outbound_queue st)")
    case None
    then have none: "\<forall>e \<in> set (outbound_queue st). fst e \<noteq> pri" by (auto simp: next_at_None)
    show ?thesis
    proof (cases "pri = 0")
      case True
      then have "outbound_queue st = []"
        using none "1.prems"(3) by (cases "outbound_queue st") auto
      moreover have "tcp_send_queue_loop now pri st = (st, False)"
        unfolding tcp_send_queue_loop.simps [of now pri st] None option.case by (rule if_P [OF True])
      ultimately show ?thesis using "1.prems"(1) by simp
    next
      case False
      have "\<forall>e \<in> set (outbound_queue st). fst e \<le> pri - 1"
        using none "1.prems"(3) by fastforce
      from "1.IH"(1) [OF None False "1.prems"(1) _ this] "1.prems"(2) False None show ?thesis
        by (simp add: tcp_send_queue_loop.simps [of now pri st])
    qed
  next
    case (Some r)
    obtain before buf behind where r: "r = (before, buf, behind)" by (cases r) auto
    have q: "outbound_queue st = before @ (pri, buf) # behind" "\<forall>e \<in> set before. fst e \<noteq> pri"
      using next_at_Some [of pri "outbound_queue st"] Some r by auto
    let ?ns = "if next_send st < now then now else next_send st"
    show ?thesis
    proof (cases "?ns - now \<ge> 10 \<and> now \<ge> prev_now st")
      case True
      then have "tcp_send_queue_loop now pri st = (st\<lparr>next_send := ?ns\<rparr>, True)"
        unfolding tcp_send_queue_loop.simps [of now pri st] Some r option.case prod.case Let_def
        by (rule if_P)
      with q "1.prems"(1) show ?thesis
        by (intro exI [of _ "[]"]) (simp add: sendq_inv_def)
    next
      case False
      let ?ns' = "if ?ns - now \<ge> 10 then now else ?ns"
      let ?st = "server_send_real buf
         (st\<lparr>next_send := ?ns' + throttle_cost buf, sendq_len := sendq_len st - int (length buf),
             prev_now := now, outbound_queue := before @ behind\<rparr>)"
      have inv: "sendq_inv ?st" using "1.prems"(1) q(1) by (auto simp: sendq_inv_def)
      have le: "\<forall>e \<in> set (outbound_queue ?st). fst e \<le> pri" using "1.prems"(3) q(1) by simp
      have step: "tcp_send_queue_loop now pri st = tcp_send_queue_loop now pri ?st"
        unfolding tcp_send_queue_loop.simps [of now pri st] Some r option.case prod.case Let_def
        by (rule if_not_P [OF False])
      from "1.IH"(2) [OF Some [unfolded r] refl refl refl False refl inv "1.prems"(2) le]
      obtain sent st' busy where IH: "tcp_send_queue_loop now pri ?st = (st', busy)"
          "wire st' = wire ?st @ map snd sent"
          "by_priority (outbound_queue ?st) = sent @ by_priority (outbound_queue st')"
          "busy \<longleftrightarrow> outbound_queue st' \<noteq> []" "sendq_inv st'" by blast
      have "by_priority (outbound_queue st) = (pri, buf) # by_priority (before @ behind)"
        using by_priority_first [OF "1.prems"(2) _ q(2), of buf behind] "1.prems"(3) q(1) by simp
      with IH show ?thesis unfolding step
        by (intro exI [of _ "(pri, buf) # sent"]) auto
    qed
  qed
qed

lemma tcp_send_queue_result:
  assumes "sendq_inv st"
  shows "\<exists>sent st' busy. tcp_send_queue now st = (st', busy) \<and> wire st' = wire st @ map snd sent \<and>
     by_priority (outbound_queue st) = sent @ by_priority (outbound_queue st') \<and>
     (busy \<longleftrightarrow> outbound_queue st' \<noteq> []) \<and> sendq_inv st'"
  using loop_result [OF assms, of 2 now] assms by (simp add: tcp_send_queue_def sendq_inv_def)

lemma throttle_cost_ge: "2 \<le> throttle_cost buf"
  by (simp add: throttle_cost_def)

lemma burst_step:
  fixes x w n d :: int
  assumes "2 * (x - (w + 1)) \<le> max 0 (11 - max 0 n)" "d + 2 \<le> n" "0 \<le> d" "d < 10"
  shows "2 * (x - w) \<le> max 0 (11 - d)"
  using assms by (auto simp: max_def split: if_splits)

lemma burst_five: "2 * (int a - int b) \<le> 11 \<Longrightarrow> a \<le> b + 5"
  by presburger

lemma loop_burst:
  "prev_now st \<le> now \<Longrightarrow> tcp_send_queue_loop now pri st = (st', busy) \<Longrightarrow>
   2 * (int (length (wire st')) - int (length (wire st))) \<le> max 0 (11 - max 0 (next_send st - now))"
proof (induction now pri st arbitrary: st' busy rule: tcp_send_queue_loop.induct)
  case (1 now pri st)
  show ?case
  proof (cases "next_at pri (outbound_queue st)")
    case None
    show ?thesis
    proof (cases "pri = 0")
      case True
      have "tcp_send_queue_loop now pri st = (st, False)"
        unfolding tcp_send_queue_loop.simps [of now pri st] None option.case by (rule if_P [OF True])
      with "1.prems"(2) show ?thesis by simp
    next
      case False
      with None "1.prems"(2) have "tcp_send_queue_loop now (pri - 1) st = (st', busy)"
        by (simp add: tcp_send_queue_loop.simps [of now pri st])
      from "1.IH"(1) [OF None False "1.prems"(1) this] show ?thesis .
    qed
  next
    case (Some r)
    obtain before buf behind where r: "r = (before, buf, behind)" by (cases r) auto
    let ?ns = "if next_send st < now then now else next_send st"
    show ?thesis
    proof (cases "?ns - now \<ge> 10 \<and> now \<ge> prev_now st")
      case True
      then have "tcp_send_queue_loop now pri st = (st\<lparr>next_send := ?ns\<rparr>, True)"
        unfolding tcp_send_queue_loop.simps [of now pri st] Some r option.case prod.case Let_def
        by (rule if_P)
      with "1.prems"(2) show ?thesis by auto
    next
      case False
      let ?ns' = "if ?ns - now \<ge> 10 then now else ?ns"
      let ?st = "server_send_real buf
         (st\<lparr>next_send := ?ns' + throttle_cost buf, sendq_len := sendq_len st - int (length buf),
             prev_now := now, outbound_queue := before @ behind\<rparr>)"
      have "tcp_send_queue_loop now pri st = tcp_send_queue_loop now pri ?st"
        unfolding tcp_send_queue_loop.simps [of now pri st] Some r option.case prod.case Let_def
        by (rule if_not_P [OF False])
      then have rec: "tcp_send_queue_loop now pri ?st = (st', busy)" using "1.prems"(2) by simp
      have "prev_now ?st \<le> now" by simp
      from "1.IH"(2) [OF Some [unfolded r] refl refl refl False refl this rec]
      have IH: "2 * (int (length (wire st')) - int (length (wire ?st))) \<le>
          max 0 (11 - max 0 (next_send ?st - now))" .
      have "\<not> ?ns - now \<ge> 10" using False "1.prems"(1) by simp
      then have "next_send ?st = ?ns + throttle_cost buf" by simp
      then have ns: "next_send ?st - now \<ge> max 0 (next_send st - now) + 2" "?ns - now < 10"
        using throttle_cost_ge [of buf] \<open>\<not> ?ns - now \<ge> 10\<close> by (auto split: if_splits)
      have d: "max 0 (next_send st - now) < 10" using ns(2) by (auto split: if_splits)
      have w: "int (length (wire ?st)) = int (length (wire st)) + 1" by simp
      show ?thesis by (rule burst_step [OF IH [unfolded w] ns(1) _ d]) simp
    qed
  qed
qed

text \<open>With a clock that runs backwards the first line may go out once more: five at most.\<close>

lemma tcp_send_queue_burst:
  assumes "prev_now st \<le> now" "tcp_send_queue now st = (st', busy)"
  shows "length (wire st') \<le> length (wire st) + 5"
proof -
  have "max 0 (11 - max 0 (next_send st - now)) \<le> 11" by simp
  with loop_burst [OF assms(1) assms(2) [unfolded tcp_send_queue_def]] show ?thesis
    by (intro burst_five) linarith
qed

lemma send_priority_le: "send_priority buf \<le> 2"
  by (simp add: send_priority_def)

lemma tcp_send_len_result:
  assumes inv: "sendq_inv st" and nn: "no_nul buf"
  shows "sendq_inv (tcp_send_len now buf st) \<and>
    (if \<not> net_throttle st \<or> \<not> end_of_motd st \<or> batch_burst st
     then wire (tcp_send_len now buf st) = wire st @ [buf] \<and>
          outbound_queue (tcp_send_len now buf st) = outbound_queue st
     else \<exists>sent. wire (tcp_send_len now buf st) = wire st @ map snd sent \<and>
          by_priority (outbound_queue st @ [(send_priority buf, buf)]) =
            sent @ by_priority (outbound_queue (tcp_send_len now buf st)))"
proof (cases "\<not> net_throttle st \<or> \<not> end_of_motd st \<or> batch_burst st")
  case True
  with inv show ?thesis by (auto simp: tcp_send_len_def sendq_inv_def)
next
  case False
  have cbuf: "upto_chr buf NUL = buf" using nn by (induction buf) (auto simp: upto_chr_def)
  let ?st = "st\<lparr>outbound_queue := outbound_queue st @ [(send_priority buf, buf)],
      sendq_len := sendq_len st + int (length buf)\<rparr>"
  have "sendq_inv ?st" using inv send_priority_le [of buf] by (auto simp: sendq_inv_def)
  from tcp_send_queue_result [OF this, of now] obtain sent st' busy where
    r: "tcp_send_queue now ?st = (st', busy)" "wire st' = wire st @ map snd sent"
      "by_priority (outbound_queue st @ [(send_priority buf, buf)]) = sent @ by_priority (outbound_queue st')"
      "sendq_inv st'" by auto
  have "tcp_send_len now buf st = st' \<or> tcp_send_len now buf st = st'\<lparr>send_timer := True\<rparr>"
    using False r(1) by (simp add: tcp_send_len_def cbuf)
  with r False show ?thesis by (auto simp: sendq_inv_def)
qed

subsection \<open>Labels\<close>

lemma show_nat_inject: "show_nat a = show_nat b \<longleftrightarrow> a = b"
  by (metis digits_acc_show_nat)

lemma show_label_inject: "show_label a = show_label b \<longleftrightarrow> a = b"
  by (simp add: show_label_def show_nat_inject word_unat_eq_iff)

fun gen_labels :: "nat \<Rightarrow> sendq \<Rightarrow> string list" where
  "gen_labels 0 st = []"
| "gen_labels (Suc n) st = (let (st, l) = tcp_generate_label st in l # gen_labels n st)"

lemma gen_labels_eq:
  "gen_labels n st = map (\<lambda>i. show_label (label_counter st + of_nat i)) [0..<n]"
proof (induction n arbitrary: st)
  case (Suc n)
  have "map (\<lambda>i. show_label (label_counter st + of_nat i)) [0..<Suc n] =
      show_label (label_counter st) # map (\<lambda>i. show_label (label_counter st + 1 + of_nat i)) [0..<n]"
    by (simp add: upt_rec [of 0 "Suc n"] map_Suc_upt [symmetric] del: upt_Suc) (simp add: add.assoc)
  then show ?case using Suc by (simp add: tcp_generate_label_def)
qed simp

lemma gen_labels_distinct:
  assumes "n \<le> 2 ^ 32" shows "distinct (gen_labels n st)"
proof -
  have "inj_on (\<lambda>i. show_label (label_counter st + of_nat i)) {0..<n}"
  proof (rule inj_onI)
    fix i j assume ij: "i \<in> {0..<n}" "j \<in> {0..<n}"
      "show_label (label_counter st + of_nat i) = show_label (label_counter st + of_nat j)"
    then have "(of_nat i :: uint) = of_nat j" by (simp add: show_label_inject)
    then have "unat (of_nat i :: uint) = unat (of_nat j :: uint)" by simp
    with ij(1,2) assms show "i = j" by (simp add: unsigned_of_nat take_bit_nat_eq_self)
  qed
  then show ?thesis by (simp add: gen_labels_eq distinct_map)
qed

subsection \<open>The stale sweep\<close>

lemma table_remove_mem: "e \<in> set (table_remove k t) \<longleftrightarrow> e \<in> set t \<and> fst e \<noteq> k"
  by (simp add: table_remove_def)

lemma drop_batch_active: "active_batches (drop_batch k st) = table_remove k (active_batches st)"
  by (simp add: drop_batch_def Let_def split: option.split)

lemma drop_batches_active:
  "active_batches (foldl (\<lambda>st k. drop_batch k st) st ks) = filter (\<lambda>e. fst e \<notin> set ks) (active_batches st)"
  by (induction ks arbitrary: st) (auto simp: drop_batch_active table_remove_def intro: filter_cong)

lemma drop_batch_pending:
  "e \<in> set (pending_labels (drop_batch k st)) \<Longrightarrow> e \<in> set (pending_labels st)"
  by (auto simp: drop_batch_def Let_def table_remove_mem split: option.splits)

lemma drop_batch_pending_kept:
  "e \<in> set (pending_labels st) \<Longrightarrow>
   (\<forall>b \<in> set (active_batches st). fst b = k \<longrightarrow> bi_label (snd b) \<noteq> Some (fst e)) \<Longrightarrow>
   e \<in> set (pending_labels (drop_batch k st))"
  by (auto simp: drop_batch_def Let_def table_remove_mem split: option.splits dest!: map_of_SomeD)

lemma drop_batches_pending:
  "e \<in> set (pending_labels (foldl (\<lambda>st k. drop_batch k st) st ks)) \<Longrightarrow> e \<in> set (pending_labels st)"
  by (induction ks arbitrary: st) (auto dest: drop_batch_pending)

lemma drop_batches_pending_kept:
  "e \<in> set (pending_labels st) \<Longrightarrow>
   (\<forall>b \<in> set (active_batches st). fst b \<in> set ks \<longrightarrow> bi_label (snd b) \<noteq> Some (fst e)) \<Longrightarrow>
   e \<in> set (pending_labels (foldl (\<lambda>st k. drop_batch k st) st ks))"
proof (induction ks arbitrary: st)
  case (Cons k ks)
  have "e \<in> set (pending_labels (drop_batch k st))"
    using Cons.prems by (intro drop_batch_pending_kept) auto
  moreover have "\<forall>b \<in> set (active_batches (drop_batch k st)). fst b \<in> set ks \<longrightarrow> bi_label (snd b) \<noteq> Some (fst e)"
    using Cons.prems(2) by (auto simp: drop_batch_active table_remove_mem)
  ultimately show ?case using Cons.IH by simp
qed simp

lemma filter_keys:
  "distinct (map fst t) \<Longrightarrow>
   filter (\<lambda>e. fst e \<notin> set (map fst (filter P t))) t = filter (\<lambda>e. \<not> P e) t"
proof (rule filter_cong [OF refl])
  fix e assume "distinct (map fst t)" "e \<in> set t"
  then show "(fst e \<notin> set (map fst (filter P t))) = (\<not> P e)"
    by (auto simp: distinct_map inj_on_def)
qed

lemma stale_sweep_result:
  assumes keys: "distinct (map fst (active_batches st))" and res: "stale_sweep_cb now st = (st', keep)"
  shows "active_batches st' = filter (\<lambda>e. \<not> check_stale_batch now (snd e)) (active_batches st) \<and>
    (\<forall>e \<in> set (pending_labels st'). e \<in> set (pending_labels st) \<and> \<not> check_stale_label now (snd e)) \<and>
    (\<forall>e \<in> set (pending_labels st). \<not> check_stale_label now (snd e) \<and>
       (\<forall>b \<in> set (active_batches st). check_stale_batch now (snd b) \<longrightarrow> bi_label (snd b) \<noteq> Some (fst e)) \<longrightarrow>
       e \<in> set (pending_labels st')) \<and>
    (\<not> keep \<longrightarrow> pending_labels st' = [] \<and> active_batches st' = [] \<and> \<not> stale_sweep_timer st')"
proof -
  define s1 where "s1 = st\<lparr>pending_labels := filter (\<lambda>e. \<not> check_stale_label now (snd e)) (pending_labels st)\<rparr>"
  define ks where "ks = map fst (filter (\<lambda>e. check_stale_batch now (snd e)) (active_batches s1))"
  define s2 where "s2 = foldl (\<lambda>st k. drop_batch k st) s1 ks"
  have s1: "active_batches s1 = active_batches st"
    "pending_labels s1 = filter (\<lambda>e. \<not> check_stale_label now (snd e)) (pending_labels st)"
    by (simp_all add: s1_def)
  have eq: "(st', keep) = (if \<not> (pending_labels s1 \<noteq> [] \<or> active_batches s2 \<noteq> [])
      then (s2\<lparr>stale_sweep_timer := False\<rparr>, False) else (s2, True))"
    using res unfolding stale_sweep_cb_def Let_def s1_def ks_def s2_def by (rule sym)
  have act: "active_batches s2 = filter (\<lambda>e. \<not> check_stale_batch now (snd e)) (active_batches st)"
    unfolding s2_def drop_batches_active ks_def s1(1) by (rule filter_keys [OF keys])
  have sub: "e \<in> set (pending_labels s2) \<Longrightarrow> e \<in> set (pending_labels s1)" for e
    unfolding s2_def by (rule drop_batches_pending)
  have kept: "e \<in> set (pending_labels s2)"
    if e: "e \<in> set (pending_labels s1)"
      "\<forall>b \<in> set (active_batches st). check_stale_batch now (snd b) \<longrightarrow> bi_label (snd b) \<noteq> Some (fst e)" for e
    unfolding s2_def
  proof (rule drop_batches_pending_kept [OF e(1)], intro ballI impI)
    fix b assume b: "b \<in> set (active_batches s1)" "fst b \<in> set ks"
    then obtain b' where b': "b' \<in> set (active_batches st)" "check_stale_batch now (snd b')" "fst b' = fst b"
      by (auto simp: ks_def s1(1))
    with b(1) keys have "b' = b" by (auto simp: s1(1) distinct_map inj_on_def)
    with b' e(2) show "bi_label (snd b) \<noteq> Some (fst e)" by blast
  qed
  have st': "active_batches st' = active_batches s2" "pending_labels st' = pending_labels s2"
    "\<not> keep \<longrightarrow> pending_labels s1 = [] \<and> active_batches s2 = [] \<and> \<not> stale_sweep_timer st'"
    using eq by (auto split: if_splits)
  have empty: "pending_labels s1 = [] \<Longrightarrow> pending_labels s2 = []"
    using sub by (cases "pending_labels s2") auto
  have 1: "\<forall>e \<in> set (pending_labels s2). e \<in> set (pending_labels st) \<and> \<not> check_stale_label now (snd e)"
    using sub unfolding s1(2) by auto
  have 2: "\<forall>e \<in> set (pending_labels st). \<not> check_stale_label now (snd e) \<and>
       (\<forall>b \<in> set (active_batches st). check_stale_batch now (snd b) \<longrightarrow> bi_label (snd b) \<noteq> Some (fst e)) \<longrightarrow>
       e \<in> set (pending_labels s2)"
  proof (intro ballI impI, elim conjE)
    fix e assume e: "e \<in> set (pending_labels st)" "\<not> check_stale_label now (snd e)"
      "\<forall>b \<in> set (active_batches st). check_stale_batch now (snd b) \<longrightarrow> bi_label (snd b) \<noteq> Some (fst e)"
    show "e \<in> set (pending_labels s2)" by (rule kept [OF _ e(3)]) (use e(1,2) in \<open>simp add: s1(2)\<close>)
  qed
  have 3: "\<not> keep \<longrightarrow> pending_labels s2 = [] \<and> active_batches s2 = [] \<and> \<not> stale_sweep_timer st'"
    using st'(3) empty by blast
  show ?thesis
    unfolding st'(1,2) by (intro conjI act 1 2 3)
qed

subsection \<open>Received lines\<close>

lemma read_bytes_append:
  "read_bytes lb (a @ b) =
     (let (l1, s1) = read_bytes lb a; (l2, s2) = read_bytes l1 b in (l2, s1 @ s2))"
  by (induction lb a rule: read_bytes.induct) (auto split: prod.splits)

lemma server_read_concat: "server_read lb chunks = read_bytes lb (concat chunks)"
  by (induction chunks arbitrary: lb) (simp_all add: read_bytes_append split: prod.split)

definition plain_line :: "string \<Rightarrow> bool" where
  "plain_line l \<longleftrightarrow> CHR 0x0D \<notin> set l \<and> CHR 0x0A \<notin> set l"

lemma read_bytes_plain:
  "plain_line l \<Longrightarrow> length lb + length l \<le> LINEBUF_SIZE - 1 \<Longrightarrow> read_bytes lb (l @ bs) = read_bytes (lb @ l) bs"
proof (induction l arbitrary: lb)
  case (Cons c l)
  then have c: "c \<noteq> CHR 0x0D" "c \<noteq> CHR 0x0A" "plain_line l" "\<not> length lb \<ge> LINEBUF_SIZE - 1"
    by (auto simp: plain_line_def LINEBUF_SIZE_def)
  have "read_bytes (lb @ [c]) (l @ bs) = read_bytes ((lb @ [c]) @ l) bs"
    by (rule Cons.IH) (use Cons.prems(2) c(3) in simp_all)
  with c show ?case by simp
qed simp

lemma read_bytes_lines:
  "\<forall>l \<in> set ls. plain_line l \<and> length l \<le> LINEBUF_SIZE - 1 \<Longrightarrow>
   read_bytes [] (concat (map (\<lambda>l. l @ [CHR 0x0D, CHR 0x0A]) ls)) = ([], ls)"
proof (induction ls)
  case (Cons l ls)
  then show ?case
    using read_bytes_plain [of l "[]" "CHR 0x0D # CHR 0x0A # concat (map (\<lambda>l. l @ [CHR 0x0D, CHR 0x0A]) ls)"]
    by simp
qed simp

lemma read_bytes_bound: "length lb \<le> LINEBUF_SIZE - 1 \<Longrightarrow> length (fst (read_bytes lb bs)) \<le> LINEBUF_SIZE - 1"
proof (induction lb bs rule: read_bytes.induct)
  case (2 lb c bs)
  then show ?case by (auto simp: Let_def split: prod.splits)
qed simp

text \<open>The formatted text that is one byte too long for the buffer goes out with its terminator.\<close>

lemma sendf_cut_off_by_one: "length t = 1539 \<Longrightarrow> sendf_cut t = take 1538 t @ [NUL]"
  by (simp add: sendf_cut_def)

subsection \<open>The properties of the connection\<close>

text \<open>C10: \<open>tcp_send_len\<close> loses, duplicates and reorders nothing: what it puts on the wire
  followed by what it leaves in the queue is, by descending priority and in order of arrival
  within a priority, the old queue with the new line; without throttling the line is sent at
  once. The queue length the front end shows stays the number of bytes queued.\<close>

theorem send_queue_conserves:
  assumes "sendq_inv st" "no_nul buf"
  shows "sendq_inv (tcp_send_len now buf st) \<and>
    (if \<not> net_throttle st \<or> \<not> end_of_motd st \<or> batch_burst st
     then wire (tcp_send_len now buf st) = wire st @ [buf] \<and>
          outbound_queue (tcp_send_len now buf st) = outbound_queue st
     else \<exists>sent. wire (tcp_send_len now buf st) = wire st @ map snd sent \<and>
          by_priority (outbound_queue st @ [(send_priority buf, buf)]) =
            sent @ by_priority (outbound_queue (tcp_send_len now buf st)))"
  by (rule tcp_send_len_result [OF assms])

definition demo_queue :: sendq where
  "demo_queue = \<lparr>net_throttle = True, end_of_motd = True, batch_burst = False, batch_burst_bytes = 0,
     outbound_queue = [(1, ''PRIVMSG #c :hi''), (0, ''WHO #c'')], next_send = 120, prev_now = 100,
     sendq_len = 20, send_timer = True, wire = [], have_labeled_response = False, label_counter = 0,
     pending_labels = [], last_sent_label = None, active_batches = [], stale_sweep_timer = False\<rparr>"

definition demo_batch :: "int \<Rightarrow> batch_info" where
  "demo_batch t = \<lparr>bi_id = ''b'', bi_type = ''netjoin'', bi_params = [], bi_outer_batch = None, bi_label = None,
     bi_msgid = None, bi_chathistory_end = False, bi_messages = [], bi_started = t, bi_server_time = 0\<rparr>"

lemma demo_queue_inv: "sendq_inv demo_queue"
  by (simp add: demo_queue_def sendq_inv_def)

theorem send_queue_conserves_witness:
  "\<exists>sent. wire (tcp_send_len 111 ''JOIN #d'' demo_queue) = map snd sent \<and>
     [(2, ''JOIN #d''), (1, ''PRIVMSG #c :hi''), (0, ''WHO #c'')] =
       sent @ by_priority (outbound_queue (tcp_send_len 111 ''JOIN #d'' demo_queue))"
proof -
  have p: "send_priority ''JOIN #d'' = 2"
    by (simp add: send_priority_def ascii_tolower_def uchar_def)
  have q: "outbound_queue demo_queue = [(1, ''PRIVMSG #c :hi''), (0, ''WHO #c'')]"
    "net_throttle demo_queue" "end_of_motd demo_queue" "\<not> batch_burst demo_queue" "wire demo_queue = []"
    by (simp_all add: demo_queue_def)
  have "no_nul ''JOIN #d''" by simp
  from send_queue_conserves [OF demo_queue_inv this, of 111] show ?thesis
    by (simp add: p q by_priority_def)
qed

text \<open>One run of the queue sends at most five lines, so a client never bursts more than the
  server's penalty window allows, unless the clock has been set back.\<close>

theorem send_queue_burst_bound:
  assumes "prev_now st \<le> now" "tcp_send_queue now st = (st', busy)"
  shows "length (wire st') \<le> length (wire st) + 5"
  by (rule tcp_send_queue_burst [OF assms])

theorem send_queue_burst_bound_witness:
  "length (wire (fst (tcp_send_queue 200 demo_queue))) \<le> 5"
  using send_queue_burst_bound [of demo_queue 200 "fst (tcp_send_queue 200 demo_queue)" "snd (tcp_send_queue 200 demo_queue)"]
  by (simp add: demo_queue_def)

text \<open>The labels of labeled-response are all different, for as many as \<open>2^32\<close> commands in a
  row, also across the wrap-around of the counter.\<close>

theorem labels_distinct:
  assumes "n \<le> 2 ^ 32"
  shows "distinct (gen_labels n st)"
  by (rule gen_labels_distinct [OF assms])

theorem labels_distinct_witness: "distinct (gen_labels 3 (demo_queue\<lparr>label_counter := -1\<rparr>))"
  by (rule labels_distinct) simp

text \<open>The sweep drops exactly the batches and labels that timed out (and the labels of such
  batches), keeps every other, and stops its timer only with both tables empty.\<close>

theorem stale_sweep_correct:
  assumes "distinct (map fst (active_batches st))" "stale_sweep_cb now st = (st', keep)"
  shows "active_batches st' = filter (\<lambda>e. \<not> check_stale_batch now (snd e)) (active_batches st) \<and>
    (\<forall>e \<in> set (pending_labels st'). e \<in> set (pending_labels st) \<and> \<not> check_stale_label now (snd e)) \<and>
    (\<forall>e \<in> set (pending_labels st). \<not> check_stale_label now (snd e) \<and>
       (\<forall>b \<in> set (active_batches st). check_stale_batch now (snd b) \<longrightarrow> bi_label (snd b) \<noteq> Some (fst e)) \<longrightarrow>
       e \<in> set (pending_labels st')) \<and>
    (\<not> keep \<longrightarrow> pending_labels st' = [] \<and> active_batches st' = [] \<and> \<not> stale_sweep_timer st')"
  by (rule stale_sweep_result [OF assms])

theorem stale_sweep_correct_witness:
  "\<exists>st' keep. stale_sweep_cb 1000 (demo_queue\<lparr>active_batches :=
       [(''b1'', demo_batch 10), (''b2'', demo_batch 990)]\<rparr>) = (st', keep) \<and>
     active_batches st' = [(''b2'', demo_batch 990)]"
proof -
  let ?st = "demo_queue\<lparr>active_batches :=
       [(''b1'', demo_batch 10), (''b2'', demo_batch 990)]\<rparr>"
  obtain st' keep where r: "stale_sweep_cb 1000 ?st = (st', keep)" by fastforce
  from stale_sweep_correct [OF _ r] have "active_batches st' = [(''b2'', demo_batch 990)]"
    by (simp add: check_stale_batch_def STALE_BATCH_TIMEOUT_def demo_batch_def)
  with r show ?thesis by blast
qed

text \<open>C11: However the network cuts the stream into reads, the lines handed to the protocol are
  the lines sent, in order, and the line buffer never holds more than its 8703 bytes.\<close>

theorem server_read_lines:
  assumes "concat chunks = concat (map (\<lambda>l. l @ [CHR 0x0D, CHR 0x0A]) ls)"
    "\<forall>l \<in> set ls. plain_line l \<and> length l \<le> LINEBUF_SIZE - 1"
  shows "server_read [] chunks = ([], ls) \<and>
    (\<forall>bs. length (fst (read_bytes [] bs)) \<le> LINEBUF_SIZE - 1)"
  using read_bytes_lines [OF assms(2)] read_bytes_bound [of "[]"]
  by (simp add: server_read_concat assms(1))

theorem server_read_lines_witness:
  "server_read [] [''PI'', ''NG :a'' @ [CHR 0x0D], CHR 0x0A # ''PONG b'', [CHR 0x0D, CHR 0x0A]] = ([], [''PING :a'', ''PONG b''])"
  using server_read_lines [of "[''PI'', ''NG :a'' @ [CHR 0x0D], CHR 0x0A # ''PONG b'', [CHR 0x0D, CHR 0x0A]]"
      "[''PING :a'', ''PONG b'']"]
  by (simp add: plain_line_def LINEBUF_SIZE_def)

end
