(* ===== verification/Words.thy ===== *)
theory Words
  imports Ignore
begin

text \<open>
  \<open>process_data_init\<close> of \<open>src/common/outbound.c\<close>: the split of a line into \<open>word[]\<close> and
  \<open>word_eol[]\<close>, for lines from servers and (with quotes) for commands typed by the user.

  \<open>word[1]\<close> is the first element of the list of words. The words live in one buffer that a
  separator terminates with 0; behind the last of the \<open>PDIWORDS\<close> slots the buffer is still
  written but no word points there any more. \<open>None\<close> is a truncated UTF-8 sequence at the end
  of the line, whose copy runs past the terminator.
\<close>

record pdi_state =
  pdi_quote :: bool
  pdi_space :: bool
  pdi_full :: bool
  pdi_words :: "string list"
  pdi_eols :: "string list"

definition PDI_WORDS :: nat where "PDI_WORDS = 32"

definition pdi_start :: "string \<Rightarrow> pdi_state" where
  "pdi_start cmd = \<lparr>pdi_quote = False, pdi_space = False, pdi_full = False, pdi_words = [[]], pdi_eols = [cmd]\<rparr>"

text \<open>\<open>buf[j] = ...; j++\<close> for the bytes of one character.\<close>

definition pdi_put :: "string \<Rightarrow> pdi_state \<Rightarrow> pdi_state" where
  "pdi_put s st = st\<lparr>pdi_space := False,
     pdi_words := (if pdi_full st then pdi_words st
                   else butlast (pdi_words st) @ [last (pdi_words st) @ s])\<rparr>"

text \<open>The end of a word, with the line behind its space.\<close>

definition pdi_next :: "string \<Rightarrow> pdi_state \<Rightarrow> pdi_state" where
  "pdi_next rest st =
     (if length (pdi_words st) + 1 < PDI_WORDS
      then st\<lparr>pdi_space := True, pdi_words := pdi_words st @ [[]], pdi_eols := pdi_eols st @ [rest]\<rparr>
      else st\<lparr>pdi_space := True, pdi_full := True\<rparr>)"

text \<open>The label \<open>def\<close>: the character at \<open>cmd\<close>, with the line behind it.\<close>

definition pdi_def :: "string \<Rightarrow> pdi_state \<Rightarrow> (string \<times> pdi_state) option" where
  "pdi_def cmd st =
     (let len = g_utf8_skip (cur cmd) in
      if length cmd < len then None else Some (drop len cmd, pdi_put (take len cmd) st))"

lemma pdi_def_shorter: "pdi_def cmd st = Some (rest, st') \<Longrightarrow> cmd \<noteq> [] \<Longrightarrow> length rest < length cmd"
  using g_utf8_skip_pos[of "cur cmd"] by (auto simp: pdi_def_def Let_def split: if_splits)

function pdi_loop :: "bool \<Rightarrow> bool \<Rightarrow> string \<Rightarrow> pdi_state \<Rightarrow> pdi_state option" where
  "pdi_loop handle_quotes allow_escape_quotes [] st = Some st"
| "pdi_loop handle_quotes allow_escape_quotes (c # rest) st =
     (if c = CHR 0x22 \<and> handle_quotes then
        if allow_escape_quotes \<and> cur rest = CHR 0x22 then
          pdi_loop handle_quotes allow_escape_quotes (drop 1 rest) (pdi_put [CHR 0x22] st)
        else
          pdi_loop handle_quotes allow_escape_quotes rest
            (if pdi_quote st then st\<lparr>pdi_quote := False, pdi_space := False\<rparr> else st\<lparr>pdi_quote := True\<rparr>)
      else if c = CHR '' '' \<and> \<not> pdi_quote st then
        pdi_loop handle_quotes allow_escape_quotes rest (if pdi_space st then st else pdi_next rest st)
      else
        (case pdi_def (c # rest) st of
           None \<Rightarrow> None
         | Some (rest', st') \<Rightarrow> pdi_loop handle_quotes allow_escape_quotes rest' st'))"
  by pat_completeness auto
termination
  by (relation "measure (\<lambda>(q, e, cmd, st). length cmd)") (auto dest: pdi_def_shorter)

declare pdi_loop.simps(2) [simp del]

definition process_data_init :: "string \<Rightarrow> bool \<Rightarrow> bool \<Rightarrow> (string list \<times> string list) option" where
  "process_data_init cmd handle_quotes allow_escape_quotes =
     map_option (\<lambda>st. (pdi_words st, pdi_eols st)) (pdi_loop handle_quotes allow_escape_quotes cmd (pdi_start cmd))"

text \<open>\<open>word[i]\<close> and \<open>word_eol[i]\<close>: the slots behind the last word, and slot 0, are empty.\<close>

definition slot :: "string list \<Rightarrow> nat \<Rightarrow> string" where
  "slot ws i = (if 1 \<le> i \<and> i \<le> length ws then ws ! (i - 1) else [])"

subsection \<open>The reference split\<close>

text \<open>
  A line is a first word up to a space, and behind the run of spaces the other words; the
  \<open>word_eol\<close> of a word starts behind the first space of the run before it.
\<close>

function fields :: "string \<Rightarrow> string \<Rightarrow> (string \<times> string) list" where
  "fields eol s = (takeWhile (\<lambda>c. c \<noteq> CHR '' '') s, eol) #
     (case dropWhile (\<lambda>c. c \<noteq> CHR '' '') s of
        [] \<Rightarrow> []
      | _ # r \<Rightarrow> fields r (dropWhile (\<lambda>c. c = CHR '' '') r))"
  by pat_completeness auto
termination
proof (relation "measure (\<lambda>(eol, s). length s)", goal_cases)
  case (2 eol s x r)
  have "length (dropWhile (\<lambda>c. c = CHR '' '') r) \<le> length r" by (rule length_dropWhile_le)
  moreover have "length (dropWhile (\<lambda>c. c \<noteq> CHR '' '') s) \<le> length s" by (rule length_dropWhile_le)
  ultimately show ?case using 2 by simp
qed simp

declare fields.simps [simp del]

text \<open>No multi-byte sequence of the line is cut off by its end or contains a space.\<close>

function utf8_line :: "string \<Rightarrow> bool" where
  "utf8_line [] = True"
| "utf8_line (c # s) =
     (g_utf8_skip c \<le> length (c # s) \<and> CHR '' '' \<notin> set (take (g_utf8_skip c - 1) s) \<and>
      utf8_line (drop (g_utf8_skip c - 1) s))"
  by pat_completeness auto
termination by (relation "measure length") auto

lemma pdi_put_put [simp]:
  "pdi_words st \<noteq> [] \<Longrightarrow> pdi_put b (pdi_put a st) = pdi_put (a @ b) st"
  by (simp add: pdi_put_def)

lemma pdi_put_simps [simp]:
  "pdi_quote (pdi_put s st) = pdi_quote st"
  "pdi_space (pdi_put s st) = False"
  "pdi_full (pdi_put s st) = pdi_full st"
  "pdi_eols (pdi_put s st) = pdi_eols st"
  "pdi_words (pdi_put s st) \<noteq> [] \<longleftrightarrow> pdi_full st \<longrightarrow> pdi_words st \<noteq> []"
  "pdi_words (pdi_put s st) = [] \<longleftrightarrow> pdi_full st \<and> pdi_words st = []"
  by (auto simp: pdi_put_def)

lemma pdi_loop_spaces:
  "pdi_space st \<Longrightarrow> \<not> pdi_quote st \<Longrightarrow>
   pdi_loop hq e s st = pdi_loop hq e (dropWhile (\<lambda>c. c = CHR '' '') s) st"
  by (induction s) (auto simp: pdi_loop.simps(2))

lemma g_utf8_skip_space [simp]: "g_utf8_skip CHR '' '' = Suc 0"
  by code_simp

lemma utf8_line_dropWhile_spaces: "utf8_line s \<Longrightarrow> utf8_line (dropWhile (\<lambda>c. c = CHR '' '') s)"
  by (induction s) auto

lemma pdi_def_Some:
  assumes "g_utf8_skip c \<le> length (c # s)"
  shows "pdi_def (c # s) st = Some (drop (g_utf8_skip c - 1) s, pdi_put (c # take (g_utf8_skip c - 1) s) st)"
proof -
  obtain n where "g_utf8_skip c = Suc n" using g_utf8_skip_pos[of c] by (cases "g_utf8_skip c") auto
  with assms show ?thesis by (simp add: pdi_def_def)
qed

lemma pdi_loop_word_step:
  assumes "utf8_line (c # s)" "c \<noteq> CHR '' ''" "\<not> (c = CHR 0x22 \<and> hq)"
  defines "n \<equiv> g_utf8_skip c - 1"
  shows "pdi_loop hq e (c # s) st = pdi_loop hq e (drop n s) (pdi_put (c # take n s) st)"
  using assms(1-3) by (auto simp: pdi_loop.simps(2) pdi_def_Some n_def)

lemma takeWhile_take_drop:
  assumes "\<And>x. x \<in> set (take n s) \<Longrightarrow> P x"
  shows "takeWhile P s = take n s @ takeWhile P (drop n s)"
    "dropWhile P s = dropWhile P (drop n s)"
  using assms by (metis append_take_drop_id takeWhile_append2, metis append_take_drop_id dropWhile_append2)

lemma pdi_loop_word:
  assumes "utf8_line s" "pdi_words st \<noteq> []" "s = [] \<or> cur s \<noteq> CHR '' ''"
  shows "pdi_loop False e s st =
           pdi_loop False e (dropWhile (\<lambda>c. c \<noteq> CHR '' '') s)
             (if s = [] then st else pdi_put (takeWhile (\<lambda>c. c \<noteq> CHR '' '') s) st)"
  using assms
proof (induction s arbitrary: st rule: utf8_line.induct)
  case (2 c s)
  let ?n = "g_utf8_skip c - 1" and ?P = "\<lambda>c. c \<noteq> CHR '' ''"
  have n: "\<And>x. x \<in> set (take ?n s) \<Longrightarrow> ?P x" and ok: "utf8_line (drop ?n s)"
    using "2.prems"(1) by auto
  have c: "c \<noteq> CHR '' ''" using "2.prems"(3) by simp
  have step: "pdi_loop False e (c # s) st = pdi_loop False e (drop ?n s) (pdi_put (c # take ?n s) st)"
    using pdi_loop_word_step[OF "2.prems"(1) c] by simp
  show ?case
  proof (cases "drop ?n s = [] \<or> cur (drop ?n s) \<noteq> CHR '' ''")
    case True
    from "2.IH"[OF ok _ this, of "pdi_put (c # take ?n s) st"] "2.prems"(2) c
    show ?thesis
      by (auto simp: step takeWhile_take_drop[where P = ?P, OF n])
  next
    case False
    then obtain r where "drop ?n s = CHR '' '' # r" by (cases "drop ?n s") auto
    then show ?thesis using c by (simp add: step takeWhile_take_drop[where P = ?P, OF n])
  qed
qed simp

lemma pdi_loop_full:
  assumes "utf8_line s" "pdi_full st" "\<not> pdi_quote st" "length (pdi_words st) + 1 \<ge> PDI_WORDS"
  shows "\<exists>st'. pdi_loop False e s st = Some st' \<and> pdi_words st' = pdi_words st \<and> pdi_eols st' = pdi_eols st"
  using assms
proof (induction s arbitrary: st rule: utf8_line.induct)
  case (2 c s)
  let ?n = "g_utf8_skip c - 1"
  have ok: "utf8_line (drop ?n s)" using "2.prems"(1) by simp
  show ?case
  proof (cases "c = CHR '' ''")
    case True
    have "?n = 0" using True by simp
    with ok have ok: "utf8_line s" and n: "drop ?n s = s" by simp_all
    let ?st = "if pdi_space st then st else pdi_next s st"
    have st: "pdi_full ?st" "\<not> pdi_quote ?st" "pdi_words ?st = pdi_words st" "pdi_eols ?st = pdi_eols st"
      using "2.prems" by (auto simp: pdi_next_def)
    have "pdi_loop False e (c # s) st = pdi_loop False e s ?st"
      using True "2.prems"(3) by (simp add: pdi_loop.simps(2))
    then show ?thesis using "2.IH"[of ?st] st ok n "2.prems"(4) by simp
  next
    case False
    let ?st = "pdi_put (c # take ?n s) st"
    have "pdi_full ?st" "\<not> pdi_quote ?st" "pdi_words ?st = pdi_words st" "pdi_eols ?st = pdi_eols st"
      using "2.prems" by (auto simp: pdi_put_def)
    moreover have "pdi_loop False e (c # s) st = pdi_loop False e (drop ?n s) ?st"
      using pdi_loop_word_step[OF "2.prems"(1) False] by simp
    ultimately show ?thesis using "2.IH"[OF ok, of ?st] "2.prems"(4) by simp
  qed
qed simp

lemma utf8_line_dropWhile_word: "utf8_line s \<Longrightarrow> utf8_line (dropWhile (\<lambda>c. c \<noteq> CHR '' '') s)"
proof (induction s rule: utf8_line.induct)
  case (2 c s)
  let ?n = "g_utf8_skip c - 1" and ?P = "\<lambda>c. c \<noteq> CHR '' ''"
  have n: "\<And>x. x \<in> set (take ?n s) \<Longrightarrow> ?P x" using "2.prems" by auto
  show ?case
  proof (cases "c = CHR '' ''")
    case False
    then show ?thesis using 2 by (simp add: takeWhile_take_drop(2)[where P = ?P, OF n])
  qed (use "2.prems" in simp)
qed simp

lemma pdi_loop_fields:
  assumes "utf8_line s" "s = [] \<or> cur s \<noteq> CHR '' ''"
    and "\<not> pdi_quote st" "\<not> pdi_full st" "pdi_words st = ws @ [[]]" "pdi_eols st = es @ [eol]"
    and "length es = length ws" "length ws + 1 < PDI_WORDS"
  shows "\<exists>st'. pdi_loop False e s st = Some st' \<and>
           pdi_words st' = ws @ map fst (take (PDI_WORDS - 1 - length ws) (fields eol s)) \<and>
           pdi_eols st' = es @ map snd (take (PDI_WORDS - 1 - length ws) (fields eol s))"
  using assms
proof (induction "length s" arbitrary: s st ws es eol rule: less_induct)
  case less
  let ?P = "\<lambda>c. c \<noteq> CHR '' ''" and ?S = "\<lambda>c. c = CHR '' ''"
  define w where "w = takeWhile ?P s"
  let ?st = "if s = [] then st else pdi_put w st"
  have k: "PDI_WORDS - 1 - length ws = Suc (PDI_WORDS - 1 - Suc (length ws))" using less.prems(8) by simp
  have st: "\<not> pdi_quote ?st" "\<not> pdi_full ?st" "pdi_words ?st = ws @ [w]" "pdi_eols ?st = es @ [eol]"
    using less.prems by (auto simp: pdi_put_def w_def)
  have loop: "pdi_loop False e s st = pdi_loop False e (dropWhile ?P s) ?st"
    unfolding w_def using less.prems by (intro pdi_loop_word) auto
  show ?case
  proof (cases "dropWhile ?P s")
    case Nil
    then have "pdi_loop False e s st = Some ?st" using loop by (simp only: Nil pdi_loop.simps(1))
    then show ?thesis using st unfolding k by (simp add: fields.simps[of eol s] Nil w_def)
  next
    case (Cons c r)
    then have c: "c = CHR '' ''" using hd_dropWhile[of ?P s] by auto
    have "utf8_line (CHR '' '' # r)" using utf8_line_dropWhile_word[OF less.prems(1)] Cons c by simp
    then have r: "utf8_line r" by simp
    let ?r = "dropWhile ?S r"
    have sp: "?r = [] \<or> cur ?r \<noteq> CHR '' ''" using hd_dropWhile[of ?S r] by (cases ?r) auto
    have len: "length ?r < length s"
      using length_dropWhile_le[of ?P s] length_dropWhile_le[of ?S r] Cons by simp
    have f: "fields eol s = (w, eol) # fields r ?r" using Cons by (simp add: fields.simps[of eol s] w_def)
    have s: "s \<noteq> []" using Cons by auto
    have loop': "pdi_loop False e s st = pdi_loop False e ?r (pdi_next r ?st)"
    proof -
      have "pdi_loop False e s st = pdi_loop False e r (pdi_next r ?st)"
        using loop s Cons c less.prems(3) by (simp add: pdi_loop.simps(2))
      also have "\<dots> = pdi_loop False e ?r (pdi_next r ?st)"
        using st(1) by (intro pdi_loop_spaces) (auto simp: pdi_next_def)
      finally show ?thesis .
    qed
    show ?thesis
    proof (cases "length ws + 2 < PDI_WORDS")
      case True
      have "\<not> pdi_quote (pdi_next r ?st)" "\<not> pdi_full (pdi_next r ?st)"
        "pdi_words (pdi_next r ?st) = (ws @ [w]) @ [[]]" "pdi_eols (pdi_next r ?st) = (es @ [eol]) @ [r]"
        using st True by (simp_all add: pdi_next_def)
      from less.hyps[OF len utf8_line_dropWhile_spaces[OF r] sp this] less.prems(7) True
      show ?thesis unfolding loop' k f by simp
    next
      case False
      have "pdi_full (pdi_next r ?st)" "\<not> pdi_quote (pdi_next r ?st)"
        "pdi_words (pdi_next r ?st) = ws @ [w]" "pdi_eols (pdi_next r ?st) = es @ [eol]"
        using st False by (simp_all add: pdi_next_def)
      from pdi_loop_full[OF utf8_line_dropWhile_spaces[OF r] this(1,2)] this(3,4) False
      show ?thesis unfolding loop' k f by simp
    qed
  qed
qed

subsection \<open>Quoted words\<close>

text \<open>A command line with every word in quotes.\<close>

fun quote_words :: "string list \<Rightarrow> string" where
  "quote_words [] = []"
| "quote_words [w] = [CHR 0x22] @ w @ [CHR 0x22]"
| "quote_words (w # ws) = [CHR 0x22] @ w @ [CHR 0x22] @ '' '' @ quote_words ws"

definition quotable :: "string \<Rightarrow> bool" where
  "quotable w \<longleftrightarrow> w \<noteq> [] \<and> utf8_line w \<and> CHR 0x22 \<notin> set w"

lemma pdi_loop_in_quotes:
  assumes "utf8_line w" "CHR 0x22 \<notin> set w" "pdi_quote st" "pdi_words st \<noteq> []"
  shows "pdi_loop True e (w @ rest) st = pdi_loop True e rest (if w = [] then st else pdi_put w st)"
  using assms
proof (induction w arbitrary: st rule: utf8_line.induct)
  case (2 c s)
  let ?n = "g_utf8_skip c - 1"
  have len: "g_utf8_skip c \<le> length (c # s @ rest)" "?n \<le> length s" using "2.prems"(1) by auto
  have "pdi_loop True e ((c # s) @ rest) st = pdi_loop True e (drop ?n s @ rest) (pdi_put (c # take ?n s) st)"
    using "2.prems" len by (cases "c = CHR 0x22") (simp_all add: pdi_loop.simps(2) pdi_def_Some)
  also have "\<dots> = pdi_loop True e rest
      (if drop ?n s = [] then pdi_put (c # take ?n s) st else pdi_put (drop ?n s) (pdi_put (c # take ?n s) st))"
    using "2.prems" by (intro "2.IH") (auto dest: in_set_dropD)
  also have "(if drop ?n s = [] then pdi_put (c # take ?n s) st else pdi_put (drop ?n s) (pdi_put (c # take ?n s) st))
      = pdi_put (c # s) st"
  proof (cases "drop ?n s = []")
    case True
    then have "take ?n s = s" by simp
    with True show ?thesis by (simp only: if_True simp_thms)
  qed (use "2.prems"(4) in \<open>simp del: drop_eq_Nil\<close>)
  finally show ?case by simp
qed simp

lemma pdi_loop_quoted_word:
  assumes "quotable w" "cur rest \<noteq> CHR 0x22" "\<not> pdi_quote st" "pdi_words st \<noteq> []"
  shows "pdi_loop True e (CHR 0x22 # w @ CHR 0x22 # rest) st =
           pdi_loop True e rest ((pdi_put w st)\<lparr>pdi_quote := False, pdi_space := False\<rparr>)"
proof -
  from assms(1) obtain c w' where w: "w = c # w'" "c \<noteq> CHR 0x22" by (cases w) (auto simp: quotable_def)
  have "pdi_loop True e (CHR 0x22 # w @ CHR 0x22 # rest) st =
          pdi_loop True e (w @ CHR 0x22 # rest) (st\<lparr>pdi_quote := True\<rparr>)"
    using w assms(3) by (simp add: pdi_loop.simps(2))
  also have "\<dots> = pdi_loop True e (CHR 0x22 # rest) (pdi_put w (st\<lparr>pdi_quote := True\<rparr>))"
    using assms(1,4) w by (subst pdi_loop_in_quotes) (auto simp: quotable_def)
  also have "\<dots> = pdi_loop True e rest ((pdi_put w st)\<lparr>pdi_quote := False, pdi_space := False\<rparr>)"
    using assms(2) by (simp add: pdi_loop.simps(2) pdi_put_def)
  finally show ?thesis .
qed

lemma pdi_loop_quote_words:
  assumes "ws \<noteq> []" "list_all quotable ws" "\<not> pdi_quote st" "\<not> pdi_full st"
    "pdi_words st = us @ [[]]" "length us + length ws < PDI_WORDS"
  shows "\<exists>st'. pdi_loop True e (quote_words ws) st = Some st' \<and> pdi_words st' = us @ ws"
  using assms
proof (induction ws arbitrary: st us rule: quote_words.induct)
  case (2 w)
  have "pdi_loop True e (quote_words [w]) st = Some ((pdi_put w st)\<lparr>pdi_quote := False, pdi_space := False\<rparr>)"
    using 2 pdi_loop_quoted_word[of w "[]" st e] by simp
  then show ?case using 2 by (simp add: pdi_put_def)
next
  case (3 w v ws)
  let ?rest = "quote_words (v # ws)"
  let ?st = "(pdi_put w st)\<lparr>pdi_quote := False, pdi_space := False\<rparr>"
  have "pdi_loop True e (quote_words (w # v # ws)) st = pdi_loop True e (CHR '' '' # ?rest) ?st"
    using "3.prems" pdi_loop_quoted_word[of w "CHR '' '' # ?rest" st e] by simp
  also have "\<dots> = pdi_loop True e ?rest (pdi_next ?rest ?st)" by (simp add: pdi_loop.simps(2))
  finally have loop: "pdi_loop True e (quote_words (w # v # ws)) st = pdi_loop True e ?rest (pdi_next ?rest ?st)" .
  have "\<exists>st'. pdi_loop True e ?rest (pdi_next ?rest ?st) = Some st' \<and> pdi_words st' = (us @ [w]) @ v # ws"
    using "3.prems" by (intro "3.IH") (auto simp: pdi_next_def pdi_put_def)
  then show ?case using loop by simp
qed simp

subsection \<open>Properties\<close>

text \<open>C12: without quoting, the slots \<open>word[1]\<close> to \<open>word[31]\<close> of a line hold its words in order and
  \<open>word_eol[i]\<close> the line from each word on; the words behind the 31st are dropped, and no
  slot beyond them is written.\<close>

theorem process_data_init_fields:
  assumes "utf8_line cmd" "cmd = [] \<or> cur cmd \<noteq> CHR '' ''"
  shows "process_data_init cmd False allow_escape_quotes =
           Some (map fst (take 31 (fields cmd cmd)), map snd (take 31 (fields cmd cmd)))"
  using pdi_loop_fields[OF assms, of "pdi_start cmd" "[]" "[]" cmd allow_escape_quotes]
  by (auto simp: process_data_init_def pdi_start_def PDI_WORDS_def)

theorem process_data_init_fields_witness:
  "process_data_init ''PRIVMSG  #c :a  b'' False False =
     Some ([''PRIVMSG'', ''#c'', '':a'', ''b''],
           [''PRIVMSG  #c :a  b'', '' #c :a  b'', '':a  b'', '' b''])"
  using process_data_init_fields[of "''PRIVMSG  #c :a  b''" False]
  by (simp add: fields.simps g_utf8_skip_def uchar_def)

text \<open>Words typed in quotes come out as they are, spaces included: a command line that quotes
  each of at most 31 words (not empty and without a quote of their own) is split into exactly
  these words, whether or not two quotes stand for one.\<close>

theorem quoted_words_roundtrip:
  assumes "ws \<noteq> []" "length ws \<le> 31" "list_all quotable ws"
  shows "map_option fst (process_data_init (quote_words ws) True allow_escape_quotes) = Some ws"
  using pdi_loop_quote_words[of ws "pdi_start (quote_words ws)" "[]" allow_escape_quotes] assms
  by (auto simp: process_data_init_def pdi_start_def PDI_WORDS_def)

theorem quoted_words_roundtrip_witness:
  "map_option fst (process_data_init (quote_words [''say'', ''two words'', ''x'']) True True) =
     Some [''say'', ''two words'', ''x'']"
  by (rule quoted_words_roundtrip) (simp_all add: quotable_def g_utf8_skip_def uchar_def)

end
