(* ===== verification/MessageTags.thy ===== *)
theory MessageTags
  imports HexPrelude
begin

text \<open>
  IRCv3 message tags of \<open>src/common/proto-irc.c\<close>: the escaping of tag values, the
  \<open>time\<close> tag, and \<open>handle_message_tags\<close> with \<open>message_tags_data\<close> of \<open>proto-irc.h\<close>.

  Local time is what the C library makes of the zone of the machine, so \<open>mktime\<close>, \<open>gmtime\<close>
  and \<open>localtime\<close> are the record \<open>clib\<close> of arguments. A \<open>time_t\<close> is an \<^typ>\<open>int\<close>.
\<close>

record message_tags_data =
  t_account :: "string option"
  t_identified :: bool
  t_timestamp :: int
  t_batch_id :: "string option"
  t_msgid :: "string option"
  t_label :: "string option"
  t_all_tags :: "(string \<rightharpoonup> string) option"
  t_echo_confirmed :: bool

definition MESSAGE_TAGS_DATA_INIT :: message_tags_data where
  "MESSAGE_TAGS_DATA_INIT =
     \<lparr>t_account = None, t_identified = False, t_timestamp = 0, t_batch_id = None, t_msgid = None,
      t_label = None, t_all_tags = None, t_echo_confirmed = False\<rparr>"

text \<open>The capabilities of the server that \<open>handle_message_tags\<close> looks at.\<close>

record tag_caps =
  have_message_tags :: bool
  have_batch :: bool
  have_account_tag :: bool
  have_idmsg :: bool
  have_server_time :: bool
  have_labels :: bool

subsection \<open>Escaping\<close>

fun escape_tag_value :: "string \<Rightarrow> string" where
  "escape_tag_value [] = []"
| "escape_tag_value (c # p) =
     (if c = CHR '';'' then [BACKSLASH, CHR '':'']
      else if c = CHR '' '' then [BACKSLASH, CHR ''s'']
      else if c = BACKSLASH then [BACKSLASH, BACKSLASH]
      else if c = CHR 0x0D then [BACKSLASH, CHR ''r'']
      else if c = CHR 0x0A then [BACKSLASH, CHR ''n'']
      else [c]) @ escape_tag_value p"

definition unescape_chr :: "char \<Rightarrow> string" where
  "unescape_chr c =
     (if c = CHR '':'' then '';''
      else if c = CHR ''s'' then '' ''
      else if c = BACKSLASH then [BACKSLASH]
      else if c = CHR ''r'' then [CHR 0x0D]
      else if c = CHR ''n'' then [CHR 0x0A]
      else [BACKSLASH, c])"

fun unescape_tag_value :: "string \<Rightarrow> string" where
  "unescape_tag_value [] = []"
| "unescape_tag_value [c] = [c]"
| "unescape_tag_value (c # d # p) =
     (if c = BACKSLASH then unescape_chr d @ unescape_tag_value p
      else c # unescape_tag_value (d # p))"

lemma unescape_plain: "c \<noteq> BACKSLASH \<Longrightarrow> unescape_tag_value (c # p) = c # unescape_tag_value p"
  by (cases p) auto

lemma unescape_escape: "unescape_tag_value (escape_tag_value s) = s"
  by (induction s) (auto simp: unescape_chr_def unescape_plain)

lemma escape_tag_value_safe:
  "set (escape_tag_value s) \<inter> {CHR '';'', CHR '' '', CHR 0x0D, CHR 0x0A} = {}"
  by (induction s) auto

lemma no_nul_escape: "no_nul (escape_tag_value s) = no_nul s"
  by (induction s) auto

subsection \<open>The time tag\<close>

record tm =
  tm_year :: int
  tm_mon :: int
  tm_mday :: int
  tm_hour :: int
  tm_min :: int
  tm_sec :: int

record clib =
  mktime :: "tm \<Rightarrow> int"
  gmtime :: "int \<Rightarrow> tm"
  localtime :: "int \<Rightarrow> tm"

text \<open>\<open>get_timezone\<close>, at the time \<open>t\<close> of the call.\<close>

definition get_timezone :: "clib \<Rightarrow> int \<Rightarrow> int" where
  "get_timezone L t = mktime L (gmtime L t) - mktime L (localtime L t)"

text \<open>\<open>sscanf\<close>'s \<open>%d\<close>: the number and the rest; and of a format of \<open>%d\<close>s between literal characters.\<close>

definition scan_unsigned :: "string \<Rightarrow> (int \<times> string) option" where
  "scan_unsigned s =
     (if is_digit (cur s) then Some (int (digits_acc 0 s), dropWhile is_digit s) else None)"

definition scan_d :: "string \<Rightarrow> (int \<times> string) option" where
  "scan_d s =
     (let s = dropWhile is_space s in
      if cur s = CHR ''-'' then map_option (\<lambda>(n, r). (- n, r)) (scan_unsigned (tl s))
      else if cur s = CHR ''+'' then scan_unsigned (tl s)
      else scan_unsigned s)"

fun scan_list :: "string \<Rightarrow> string \<Rightarrow> int list" where
  "scan_list [] s = (case scan_d s of None \<Rightarrow> [] | Some (n, _) \<Rightarrow> [n])"
| "scan_list (sep # seps) s =
     (case scan_d s of
        None \<Rightarrow> []
      | Some (n, rest) \<Rightarrow> if rest \<noteq> [] \<and> hd rest = sep then n # scan_list seps (tl rest) else [n])"

definition handle_message_tag_time ::
    "clib \<Rightarrow> int \<Rightarrow> string \<Rightarrow> message_tags_data \<Rightarrow> message_tags_data" where
  "handle_message_tag_time L now time td =
     (if time = [] then td
      else if last time = CHR ''Z'' then
        (case scan_list ''--T::'' time of
           [year, mon, mday, hour, mi, sec] \<Rightarrow>
             let ts = mktime L \<lparr>tm_year = year - 1900, tm_mon = mon - 1, tm_mday = mday,
                                tm_hour = hour, tm_min = mi, tm_sec = sec\<rparr>
             in if ts < 0 then td\<lparr>t_timestamp := 0\<rparr>
                else td\<lparr>t_timestamp := ts - get_timezone L now\<rparr>
         | _ \<Rightarrow> td)
      else
        (case scan_d time of
           None \<Rightarrow> td
         | Some (t, _) \<Rightarrow> td\<lparr>t_timestamp := t\<rparr>))"

subsection \<open>All tags of a message\<close>

text \<open>One round of the loop: \<open>tag\<close> is \<open>key\<close> or \<open>key=value\<close>.\<close>

definition handle_tag :: "tag_caps \<Rightarrow> clib \<Rightarrow> int \<Rightarrow> bool \<Rightarrow> string \<Rightarrow> message_tags_data \<Rightarrow> message_tags_data" where
  "handle_tag serv L now store_all_tags tag td =
     (let key = upto_chr tag (CHR ''='');
          value = (case strchr tag (CHR ''='') of None \<Rightarrow> [] | Some v \<Rightarrow> unescape_tag_value (tl v));
          td = (case t_all_tags td of
                  Some tags \<Rightarrow> if store_all_tags then td\<lparr>t_all_tags := Some (tags(key \<mapsto> value))\<rparr> else td
                | None \<Rightarrow> td);
          td = (if have_account_tag serv \<and> key = ''account'' then td\<lparr>t_account := Some value\<rparr> else td);
          td = (if have_idmsg serv \<and> key = ''solanum.chat/identified'' then td\<lparr>t_identified := True\<rparr> else td);
          td = (if have_server_time serv \<and> key = ''time'' then handle_message_tag_time L now value td else td);
          td = (if key = ''batch'' then if have_batch serv then td\<lparr>t_batch_id := Some value\<rparr> else td else td);
          td = (if have_message_tags serv \<and> key = ''msgid'' then td\<lparr>t_msgid := Some value\<rparr> else td)
      in if have_labels serv \<and> key = ''label'' then td\<lparr>t_label := Some value\<rparr> else td)"

definition handle_message_tags ::
    "tag_caps \<Rightarrow> clib \<Rightarrow> int \<Rightarrow> string \<Rightarrow> message_tags_data \<Rightarrow> message_tags_data" where
  "handle_message_tags serv L now tags_str td =
     (let store_all_tags = have_message_tags serv \<or> have_batch serv;
          td = (if store_all_tags \<and> t_all_tags td = None then td\<lparr>t_all_tags := Some Map.empty\<rparr> else td)
      in foldl (\<lambda>td tag. handle_tag serv L now store_all_tags tag td) td (g_strsplit tags_str (CHR '';'')))"

subsection \<open>What a server writes\<close>

text \<open>A tag on the wire, and the value a receiver is to read.\<close>

fun render_tag :: "string \<times> string option \<Rightarrow> string" where
  "render_tag (key, None) = key"
| "render_tag (key, Some value) = key @ CHR ''='' # escape_tag_value value"

definition render_tags :: "(string \<times> string option) list \<Rightarrow> string" where
  "render_tags tags = join_with (CHR '';'') (map render_tag tags)"

definition key_ok :: "string \<Rightarrow> bool" where
  "key_ok key \<longleftrightarrow> key \<noteq> [] \<and> CHR ''='' \<notin> set key \<and> CHR '';'' \<notin> set key"

definition tag_value :: "string option \<Rightarrow> string" where
  "tag_value v = (case v of None \<Rightarrow> [] | Some v \<Rightarrow> v)"

text \<open>Of a repeated key the last value counts.\<close>

definition tag_map :: "(string \<times> string option) list \<Rightarrow> string \<rightharpoonup> string" where
  "tag_map tags = map_of (rev (map (\<lambda>(k, v). (k, tag_value v)) tags))"

lemma tag_map_snoc [simp]: "tag_map (tags @ [(k, v)]) = (tag_map tags)(k \<mapsto> tag_value v)"
  by (simp add: tag_map_def)

lemma tag_map_Nil [simp]: "tag_map [] = Map.empty"
  by (simp add: tag_map_def)

lemma split_render_tag:
  assumes "CHR ''='' \<notin> set key"
  shows "upto_chr (render_tag (key, v)) (CHR ''='') = key"
    "(case strchr (render_tag (key, v)) (CHR ''='') of None \<Rightarrow> [] | Some s \<Rightarrow> unescape_tag_value (tl s)) = tag_value v"
proof -
  have "strchr (key @ CHR ''='' # s) (CHR ''='') = Some (CHR ''='' # s)" for s
    using assms by (induction key) auto
  then show "(case strchr (render_tag (key, v)) (CHR ''='') of None \<Rightarrow> [] | Some s \<Rightarrow> unescape_tag_value (tl s)) = tag_value v"
    using assms strchr_None[of "CHR ''=''" key] by (cases v) (auto simp: tag_value_def unescape_escape)
  show "upto_chr (render_tag (key, v)) (CHR ''='') = key"
    using assms unfolding upto_chr_def by (cases v; induction key) auto
qed

lemma handle_message_tag_time_frame [simp]:
  "t_account (handle_message_tag_time L now s td) = t_account td"
  "t_identified (handle_message_tag_time L now s td) = t_identified td"
  "t_batch_id (handle_message_tag_time L now s td) = t_batch_id td"
  "t_msgid (handle_message_tag_time L now s td) = t_msgid td"
  "t_label (handle_message_tag_time L now s td) = t_label td"
  "t_all_tags (handle_message_tag_time L now s td) = t_all_tags td"
  "t_echo_confirmed (handle_message_tag_time L now s td) = t_echo_confirmed td"
  by (simp_all add: handle_message_tag_time_def Let_def split: option.splits list.splits prod.splits)

text \<open>The fields of the record, as functions of the tags read so far.\<close>

definition tags_read :: "tag_caps \<Rightarrow> bool \<Rightarrow> (string \<times> string option) list \<Rightarrow> message_tags_data \<Rightarrow> bool" where
  "tags_read serv store tags td \<longleftrightarrow>
     t_all_tags td = (if store then Some (tag_map tags) else None) \<and>
     t_account td = (if have_account_tag serv then tag_map tags ''account'' else None) \<and>
     t_batch_id td = (if have_batch serv then tag_map tags ''batch'' else None) \<and>
     t_msgid td = (if have_message_tags serv then tag_map tags ''msgid'' else None) \<and>
     t_label td = (if have_labels serv then tag_map tags ''label'' else None) \<and>
     (t_identified td \<longleftrightarrow> have_idmsg serv \<and> ''solanum.chat/identified'' \<in> fst ` set tags)"

lemma handle_tag_read:
  assumes "tags_read serv store tags td" "CHR ''='' \<notin> set key"
  shows "tags_read serv store (tags @ [(key, v)]) (handle_tag serv L now store (render_tag (key, v)) td)"
  using assms(1) unfolding handle_tag_def split_render_tag[OF assms(2)]
  by (auto simp: tags_read_def Let_def split: option.splits)

lemma handle_tags_read:
  assumes "\<forall>(k, v) \<in> set tags. key_ok k" "tags_read serv store [] td"
  shows "tags_read serv store tags (foldl (\<lambda>td tag. handle_tag serv L now store tag td) td (map render_tag tags))"
  using assms
proof (induction tags rule: rev_induct)
  case (snoc t tags)
  then show ?case by (cases t) (auto intro: handle_tag_read simp: key_ok_def)
qed simp

lemma split_render_tags:
  assumes "tags \<noteq> []" "\<forall>(k, v) \<in> set tags. key_ok k"
  shows "g_strsplit (render_tags tags) (CHR '';'') = map render_tag tags"
proof -
  have "CHR '';'' \<notin> set (render_tag t) \<and> render_tag t \<noteq> []" if "t \<in> set tags" for t
    using assms(2) that escape_tag_value_safe by (cases t rule: render_tag.cases) (auto simp: key_ok_def)
  then have sep: "\<forall>w \<in> set (map render_tag tags). CHR '';'' \<notin> set w" and ne: "hd (map render_tag tags) \<noteq> []"
    using assms(1) by (auto simp: hd_map)
  have "split_at (CHR '';'') (render_tags tags) = map render_tag tags"
    unfolding render_tags_def using assms(1) sep by (intro split_at_join) auto
  moreover have "render_tags tags \<noteq> []"
    using ne assms(1) by (cases tags rule: list.exhaust; cases "tl tags") (auto simp: render_tags_def join_with_Cons)
  ultimately show ?thesis by (simp add: g_strsplit_def)
qed

subsection \<open>The server time\<close>

text \<open>\<open>YYYY-MM-DDThh:mm:ss.sssZ\<close>, of numbers written with at least two digits.\<close>

definition pad2 :: "nat \<Rightarrow> string" where
  "pad2 n = (if n < 10 then ''0'' @ show_nat n else show_nat n)"

definition iso8601 :: "nat \<Rightarrow> nat \<Rightarrow> nat \<Rightarrow> nat \<Rightarrow> nat \<Rightarrow> nat \<Rightarrow> string \<Rightarrow> string" where
  "iso8601 y mo d h mi s ms =
     show_nat y @ ''-'' @ pad2 mo @ ''-'' @ pad2 d @ ''T'' @ pad2 h @ '':'' @ pad2 mi @ '':'' @ pad2 s @
     ''.'' @ ms @ ''Z''"

definition tm_of :: "nat \<Rightarrow> nat \<Rightarrow> nat \<Rightarrow> nat \<Rightarrow> nat \<Rightarrow> nat \<Rightarrow> tm" where
  "tm_of y mo d h mi s = \<lparr>tm_year = int y - 1900, tm_mon = int mo - 1, tm_mday = int d,
     tm_hour = int h, tm_min = int mi, tm_sec = int s\<rparr>"

text \<open>
  The zone of the machine is a fixed number of seconds \<open>west\<close> of UTC: \<open>utc\<close> turns a broken-down
  time of UTC into seconds, \<open>mktime\<close> one of local time.
\<close>

definition fixed_zone :: "clib \<Rightarrow> (tm \<Rightarrow> int) \<Rightarrow> int \<Rightarrow> bool" where
  "fixed_zone L utc west \<longleftrightarrow>
     (\<forall>t. mktime L t = utc t + west) \<and> (\<forall>n. utc (gmtime L n) = n) \<and> (\<forall>n. mktime L (localtime L n) = n)"

lemma scan_d_digits:
  assumes "ds \<noteq> []" "\<forall>c \<in> set ds. is_digit c" "\<not> is_digit (cur rest)"
  shows "scan_d (ds @ rest) = Some (int (digits_acc 0 ds), rest)"
proof -
  obtain d es where ds: "ds = d # es" and d: "is_digit d" using assms(1,2) by (cases ds) auto
  have "digits_acc 0 (ds @ rest) = digits_acc 0 ds"
    using assms(3) by (simp add: digits_acc_append[OF assms(2)]) (cases rest; simp)
  moreover have "dropWhile is_digit (ds @ rest) = rest"
    using assms(2,3) by (simp add: dropWhile_append3) (cases rest; simp)
  moreover have "dropWhile is_space (ds @ rest) = ds @ rest"
    using is_digit_not_space[OF d] by (simp add: ds)
  ultimately show ?thesis
    using is_digit_not_space[OF d] d by (simp add: scan_d_def scan_unsigned_def ds)
qed

lemma pad2_digits: "pad2 n \<noteq> []" "\<forall>c \<in> set (pad2 n). is_digit c" "digits_acc 0 (pad2 n) = n"
  using show_nat_digits[of n] by (auto simp: pad2_def digits_acc_show_nat is_digit_def uchar_def digit_val_def)

lemmas scan_number =
  scan_d_digits[OF pad2_digits(1,2), unfolded pad2_digits(3)]
  scan_d_digits[OF show_nat_nonempty show_nat_digits, unfolded digits_acc_show_nat]

lemma scan_iso8601:
  "scan_list ''--T::'' (iso8601 y mo d h mi s ms) = [int y, int mo, int d, int h, int mi, int s]"
  by (simp add: iso8601_def scan_number is_digit_def uchar_def)

lemma iso8601_end: "iso8601 y mo d h mi s ms \<noteq> []" "last (iso8601 y mo d h mi s ms) = CHR ''Z''"
  by (simp_all add: iso8601_def)

lemma get_timezone_fixed:
  assumes z: "fixed_zone L utc west"
  shows "get_timezone L now = west"
proof -
  from z have "mktime L (gmtime L now) = utc (gmtime L now) + west"
    and "utc (gmtime L now) = now" and "mktime L (localtime L now) = now"
    unfolding fixed_zone_def by blast+
  then show ?thesis by (simp add: get_timezone_def)
qed

subsection \<open>Properties\<close>

text \<open>Escaping is undone by unescaping, for every value, and an escaped value can stand in the
  tag block of a line: it has no \<open>;\<close>, space, CR or LF, and no terminator the value does not have.\<close>

theorem escape_tag_value_roundtrip:
  "unescape_tag_value (escape_tag_value v) = v \<and>
   set (escape_tag_value v) \<inter> {CHR '';'', CHR '' '', CHR 0x0D, CHR 0x0A} = {} \<and>
   no_nul (escape_tag_value v) = no_nul v"
  by (simp add: unescape_escape escape_tag_value_safe no_nul_escape)

text \<open>C17: \<open>handle_message_tags\<close> reads what a server rendered: for any list of tags with proper keys,
  values escaped, each field of \<open>message_tags_data\<close> is the unescaped value of the last tag of that
  name if the capability was negotiated, and untouched otherwise; the table for plugins holds
  every tag.\<close>

theorem message_tags_roundtrip:
  assumes "tags \<noteq> []" "\<forall>(k, v) \<in> set tags. key_ok k"
    "td = handle_message_tags serv L now (render_tags tags) MESSAGE_TAGS_DATA_INIT"
  shows "t_all_tags td = (if have_message_tags serv \<or> have_batch serv then Some (tag_map tags) else None) \<and>
    t_account td = (if have_account_tag serv then tag_map tags ''account'' else None) \<and>
    t_batch_id td = (if have_batch serv then tag_map tags ''batch'' else None) \<and>
    t_msgid td = (if have_message_tags serv then tag_map tags ''msgid'' else None) \<and>
    t_label td = (if have_labels serv then tag_map tags ''label'' else None) \<and>
    (t_identified td \<longleftrightarrow> have_idmsg serv \<and> ''solanum.chat/identified'' \<in> fst ` set tags)"
proof -
  let ?store = "have_message_tags serv \<or> have_batch serv"
  let ?td = "if ?store then MESSAGE_TAGS_DATA_INIT\<lparr>t_all_tags := Some Map.empty\<rparr> else MESSAGE_TAGS_DATA_INIT"
  have "tags_read serv ?store [] ?td" by (simp add: tags_read_def MESSAGE_TAGS_DATA_INIT_def)
  from handle_tags_read[OF assms(2) this]
  have "tags_read serv ?store tags td"
    unfolding assms(3) handle_message_tags_def split_render_tags[OF assms(1,2)]
    by (simp add: MESSAGE_TAGS_DATA_INIT_def Let_def)
  then show ?thesis by (simp add: tags_read_def)
qed

definition all_caps :: tag_caps where
  "all_caps = \<lparr>have_message_tags = True, have_batch = True, have_account_tag = True, have_idmsg = True,
     have_server_time = True, have_labels = True\<rparr>"

text \<open>A machine five hours west of UTC, whose calendar counts days of the month only.\<close>

definition demo_clib :: clib where
  "demo_clib =
     \<lparr>mktime = (\<lambda>t. ((tm_mday t * 24 + tm_hour t) * 60 + tm_min t) * 60 + tm_sec t + 18000),
      gmtime = (\<lambda>n. \<lparr>tm_year = 0, tm_mon = 0, tm_mday = 0, tm_hour = 0, tm_min = 0, tm_sec = n\<rparr>),
      localtime = (\<lambda>n. \<lparr>tm_year = 0, tm_mon = 0, tm_mday = 0, tm_hour = 0, tm_min = 0, tm_sec = n - 18000\<rparr>)\<rparr>"

theorem message_tags_roundtrip_witness:
  "t_account (handle_message_tags all_caps demo_clib 0
     (render_tags [(''account'', Some ''a;b''), (''x'', None), (''account'', Some ''c d'')])
     MESSAGE_TAGS_DATA_INIT) = Some ''c d''"
  using message_tags_roundtrip[of "[(''account'', Some ''a;b''), (''x'', None), (''account'', Some ''c d'')]"
      _ all_caps demo_clib 0]
  by (simp add: key_ok_def all_caps_def tag_map_def tag_value_def)

text \<open>A \<open>time\<close> tag is read as UTC wherever the client runs: in a zone of any fixed distance from
  UTC the timestamp is the UTC time written, with the milliseconds ignored, and a plain number
  of seconds is taken as it is.\<close>

theorem server_time_is_utc:
  assumes "fixed_zone L utc west" "utc (tm_of y mo d h mi s) + west \<ge> 0"
  shows "handle_message_tag_time L now (iso8601 y mo d h mi s ms) td =
           td\<lparr>t_timestamp := utc (tm_of y mo d h mi s)\<rparr> \<and>
         handle_message_tag_time L now (show_nat n @ ''.'' @ pad2 k) td = td\<lparr>t_timestamp := int n\<rparr>"
proof
  have "mktime L (tm_of y mo d h mi s) = utc (tm_of y mo d h mi s) + west"
    using assms(1) by (simp add: fixed_zone_def)
  then show "handle_message_tag_time L now (iso8601 y mo d h mi s ms) td =
           td\<lparr>t_timestamp := utc (tm_of y mo d h mi s)\<rparr>"
    using assms(2) unfolding handle_message_tag_time_def
    by (simp add: iso8601_end scan_iso8601 get_timezone_fixed[OF assms(1)] tm_of_def del: scan_list.simps)
  have "is_digit (last (pad2 k))"
    using pad2_digits(1,2)[of k] by auto
  then have "last (pad2 k) \<noteq> CHR ''Z''"
    by (auto simp: is_digit_def uchar_def)
  then show "handle_message_tag_time L now (show_nat n @ ''.'' @ pad2 k) td = td\<lparr>t_timestamp := int n\<rparr>"
    by (simp add: handle_message_tag_time_def pad2_digits(1) scan_number(2) is_digit_def uchar_def)
qed

theorem server_time_is_utc_witness:
  "t_timestamp (handle_message_tag_time demo_clib 0 ''2024-05-02T10:00:01.999Z'' MESSAGE_TAGS_DATA_INIT) = 208801"
proof -
  have "fixed_zone demo_clib (\<lambda>t. ((tm_mday t * 24 + tm_hour t) * 60 + tm_min t) * 60 + tm_sec t) 18000"
    by (simp add: fixed_zone_def demo_clib_def)
  note server_time_is_utc[OF this, of 2024 5 2 10 0 1 0 "''999''" MESSAGE_TAGS_DATA_INIT 0 0]
  moreover have "iso8601 2024 5 2 10 0 1 ''999'' = ''2024-05-02T10:00:01.999Z''" by code_simp
  ultimately show ?thesis by (simp add: tm_of_def)
qed

end
