(* ===== verification/Inbound.thy ===== *)
theory Inbound
  imports Modes MessageTags
begin

text \<open>
  The handlers of \<open>src/common/inbound.c\<close> that change the sessions and user lists of a server:
  joins, parts, kicks, quits, nick changes, NAMES, WHO and WHOIS answers, away and account
  changes, topics. \<open>None\<close> is a read outside a string or an array.

  The calls into other parts (notify list, chat history, logs, the front end) and the lines
  sent are recorded in the trace of the world. The preferences the handlers read are \<open>prefs\<close>.
  Timers, the typing state and the log file of a session are not modelled.
\<close>

record prefs =
  irc_auto_rejoin :: bool
  irc_who_join :: bool
  irc_whois_front :: bool
  away_show_once :: bool
  gui_ulist_show_hosts :: bool
  irc_raw_modes :: bool

subsection \<open>Sessions\<close>

definition sess_at :: "world \<Rightarrow> nat \<Rightarrow> session" where
  "sess_at w i = w_sessions w ! i"

definition upd_session :: "nat \<Rightarrow> (session \<Rightarrow> session) \<Rightarrow> world \<Rightarrow> world" where
  "upd_session i f w = put_session i (f (sess_at w i)) w"

definition call :: "string \<Rightarrow> string list \<Rightarrow> world \<Rightarrow> world" where
  "call f args = w_emit (Call f args)"

definition signal :: "string \<Rightarrow> string list \<Rightarrow> world \<Rightarrow> world" where
  "signal ev args = w_emit (Emit ev args)"

text \<open>An operation on the user list of session \<open>i\<close>.\<close>

definition on_list :: "nat \<Rightarrow> (ul_state \<Rightarrow> ul_state) \<Rightarrow> world \<Rightarrow> world" where
  "on_list i f w = (let (m, s) = f (w_mem w, sess_at w i) in put_session i s (w\<lparr>w_mem := m\<rparr>))"

definition try_list :: "nat \<Rightarrow> (ul_state \<Rightarrow> ul_state option) \<Rightarrow> world \<Rightarrow> world option" where
  "try_list i f w =
     (case f (w_mem w, sess_at w i) of
        None \<Rightarrow> None
      | Some (m, s) \<Rightarrow> Some (put_session i s (w\<lparr>w_mem := m\<rparr>)))"

text \<open>The loop over \<open>sess_list\<close> that skips the sessions of other servers.\<close>

definition is_serv :: "world \<Rightarrow> nat \<Rightarrow> bool" where
  "is_serv w i \<longleftrightarrow> sess_server (sess_at w i) = serv_addr (w_serv w)"

fun run_all :: "(nat \<Rightarrow> world \<Rightarrow> world option) \<Rightarrow> nat list \<Rightarrow> world \<Rightarrow> world option" where
  "run_all f [] w = Some w"
| "run_all f (i # is) w =
     (case (if is_serv w i then f i w else Some w) of None \<Rightarrow> None | Some w \<Rightarrow> run_all f is w)"

definition each_session :: "(nat \<Rightarrow> world \<Rightarrow> world option) \<Rightarrow> world \<Rightarrow> world option" where
  "each_session f w = run_all f [0..<length (w_sessions w)] w"

definition find_user :: "world \<Rightarrow> nat \<Rightarrow> string \<Rightarrow> addr option" where
  "find_user w i nick = userlist_find (w_serv w) (w_mem w, sess_at w i) nick"

definition find_session :: "(session \<Rightarrow> bool) \<Rightarrow> world \<Rightarrow> nat option" where
  "find_session P w =
     (case filter (\<lambda>i. is_serv w i \<and> P (sess_at w i)) [0..<length (w_sessions w)] of
        [] \<Rightarrow> None | i # _ \<Rightarrow> Some i)"

definition find_dialog :: "world \<Rightarrow> string \<Rightarrow> nat option" where
  "find_dialog w nick =
     find_session (\<lambda>s. sess_type s = SESS_DIALOG \<and> p_cmp (w_serv w) nick (channel s) = 0) w"

definition find_unused_session :: "world \<Rightarrow> nat option" where
  "find_unused_session w =
     find_session (\<lambda>s. sess_type s = SESS_CHANNEL \<and> channel s = [] \<and> waitchannel s = []) w"

definition find_session_from_waitchannel :: "string \<Rightarrow> world \<Rightarrow> nat option" where
  "find_session_from_waitchannel chan w =
     find_session (\<lambda>s. channel s = [] \<and> sess_type s = SESS_CHANNEL \<and>
       p_cmp (w_serv w) chan (waitchannel s) = 0) w"

text \<open>\<open>session_new\<close>: the new session becomes the head of \<open>sess_list\<close>, so that indices move.\<close>

definition session_new :: "string \<Rightarrow> session_type \<Rightarrow> world \<Rightarrow> world option" where
  "session_new from ty w =
     (case safe_strcpy from CHANLEN of
        None \<Rightarrow> None
      | Some name \<Rightarrow>
          Some (call ''fe_new_window'' [name]
            (w\<lparr>w_sessions := new_session (serv_addr (w_serv w)) ty name # w_sessions w,
               w_front := Suc (w_front w), w_server_sess := Suc (w_server_sess w),
               w_current := Suc (w_current w)\<rparr>)))"

definition set_topic :: "nat \<Rightarrow> string \<Rightarrow> string \<Rightarrow> world \<Rightarrow> world" where
  "set_topic i tpc stripped_topic w =
     call ''fe_set_topic'' [tpc, stripped_topic] (upd_session i (\<lambda>s. s\<lparr>topic := Some stripped_topic\<rparr>) w)"

text \<open>\<open>new_ircwindow\<close> for a channel or a dialog of this server; the session is number 0.\<close>

definition new_ircwindow :: "string \<Rightarrow> session_type \<Rightarrow> world \<Rightarrow> world option" where
  "new_ircwindow name ty w =
     (case session_new name ty w of
        None \<Rightarrow> None
      | Some w \<Rightarrow>
          let w = call ''scrollback_load'' [] (call ''chanopt_load'' [] (call ''irc_init'' [] w));
              w = (if ty = SESS_DIALOG then
                     let w = call ''log_open_or_close'' [] w in
                     (case userlist_find_global (w_serv w) (w_mem w) (w_sessions w) name of
                        None \<Rightarrow> w
                      | Some a \<Rightarrow>
                          (case u_hostname (user_at (w_mem w) a) of
                             None \<Rightarrow> w
                           | Some host \<Rightarrow> set_topic 0 host host w))
                   else w)
          in Some (call ''plugin_emit_dummy_print'' [''Open Context''] w))"

definition inbound_open_dialog :: "string \<Rightarrow> world \<Rightarrow> world option" where
  "inbound_open_dialog from w = map_option (signal ''OPENDIALOG'' []) (new_ircwindow from SESS_DIALOG w)"

definition find_session_from_nick :: "string \<Rightarrow> world \<Rightarrow> nat option" where
  "find_session_from_nick nick w =
     (case find_dialog w nick of
        Some i \<Rightarrow> Some i
      | None \<Rightarrow>
          if g_ascii_strcasecmp nick ''ChanServ'' = 0 \<or> find_user w (w_front w) nick \<noteq> None
          then Some (w_front w)
          else if is_serv w (w_current w) \<and> find_user w (w_current w) nick \<noteq> None
          then Some (w_current w)
          else (case filter (\<lambda>i. is_serv w i \<and> find_user w i nick \<noteq> None) [0..<length (w_sessions w)] of
                  [] \<Rightarrow> None | i # _ \<Rightarrow> Some i))"

definition clear_channel :: "nat \<Rightarrow> world \<Rightarrow> world" where
  "clear_channel i w =
     (let w = upd_session i (\<lambda>s. s\<lparr>
                waitchannel := (if channel s \<noteq> [] then channel s else waitchannel s),
                channel := [], doing_who := False, done_away_check := False\<rparr>) w;
          w = call ''log_close'' [] w;
          w = upd_session i (\<lambda>s. s\<lparr>current_modes := []\<rparr>) w;
          w = call ''fe_clear_channel'' [] (call ''chathistory_cancel_catchup'' [] w);
          w = on_list i userlist_clear w
      in w_emit Fe_set_title (call ''fe_set_nonchannel'' [] w))"

subsection \<open>Our own movements\<close>

text \<open>The body of the loop over the sessions.\<close>

definition newnick_session :: "bool \<Rightarrow> string \<Rightarrow> string \<Rightarrow> bool \<Rightarrow> nat \<Rightarrow> world \<Rightarrow> world option" where
  "newnick_session is_me nick newnick quiet i w =
     (case userlist_change (w_serv w) (w_mem w, sess_at w i) nick newnick of
        None \<Rightarrow> None
      | Some ((m, s), changed) \<Rightarrow>
          let w = put_session i s (w\<lparr>w_mem := m\<rparr>);
              w = (if (changed \<or> (is_me \<and> sess_type s = SESS_SERVER)) \<and> \<not> quiet
                   then signal (if is_me then ''UCHANGENICK'' else ''CHANGENICK'') [nick, newnick] w else w)
          in if sess_type s = SESS_DIALOG \<and> p_cmp (w_serv w) (channel s) nick = 0 then
               (case safe_strcpy newnick CHANLEN of
                  None \<Rightarrow> None
                | Some n \<Rightarrow> Some (w_emit Fe_set_title (call ''fe_set_channel'' []
                              (upd_session i (\<lambda>s. s\<lparr>channel := n\<rparr>) w))))
             else Some (w_emit Fe_set_title w))"

definition inbound_newnick :: "string \<Rightarrow> string \<Rightarrow> bool \<Rightarrow> world \<Rightarrow> world option" where
  "inbound_newnick nick newnick quiet w =
     (let is_me = (p_cmp (w_serv w) nick (serv_nick (w_serv w)) = 0) in
      case (if is_me then map_option (\<lambda>n. w\<lparr>w_serv := (w_serv w)\<lparr>serv_nick := n\<rparr>\<rparr>) (safe_strcpy newnick NICKLEN)
            else Some w) of
        None \<Rightarrow> None
      | Some w \<Rightarrow>
          map_option (\<lambda>w.
              let w = call ''dcc_change_nick'' [nick, newnick] w
              in if is_me then call ''fe_set_nick'' [newnick] w else w)
            (each_session (newnick_session is_me nick newnick quiet) w))"

text \<open>\<open>p_join_info\<close> and \<open>p_user_list\<close> of the protocol, as the lines they send.\<close>

definition send_line :: "string \<Rightarrow> world \<Rightarrow> world" where
  "send_line text = w_emit (Send (text @ [CHR 0x0D, CHR 0x0A]))"

definition user_list_line :: "server \<Rightarrow> string \<Rightarrow> string" where
  "user_list_line serv chan =
     (if have_whox serv then ''WHO '' @ chan @ '' %chtsunfra,152'' else ''WHO '' @ chan)"

definition inbound_ujoin ::
    "prefs \<Rightarrow> bool \<Rightarrow> int \<Rightarrow> string \<Rightarrow> string \<Rightarrow> string \<Rightarrow> message_tags_data \<Rightarrow> world \<Rightarrow> world option" where
  "inbound_ujoin pf is_duplicate disconnect_ref chan nick ip td w =
     (let found = (case find_channel w chan of
                     Some i \<Rightarrow> Some (i, False)
                   | None \<Rightarrow>
                       (case find_session_from_waitchannel chan w of
                          Some i \<Rightarrow> Some (i, False)
                        | None \<Rightarrow> map_option (\<lambda>i. (i, True)) (find_unused_session w)))
      in
      case (case found of
              Some (i, found_unused) \<Rightarrow> Some (i, found_unused, w)
            | None \<Rightarrow> map_option (\<lambda>w. (0, False, w)) (new_ircwindow chan SESS_CHANNEL w)) of
        None \<Rightarrow> None
      | Some (i, found_unused, w) \<Rightarrow>
          (case safe_strcpy chan CHANLEN of
             None \<Rightarrow> None
           | Some name \<Rightarrow>
               let w = upd_session i (\<lambda>s. s\<lparr>channel := name\<rparr>) w;
                   w = (if found_unused then call ''scrollback_load'' [] (call ''chanopt_load'' [] w) else w);
                   w = call ''fe_set_nonchannel'' [] (w_emit Fe_set_title (call ''fe_set_channel'' [] w));
                   w = on_list i userlist_clear w;
                   w = call ''log_open_or_close'' [] w;
                   w = upd_session i (\<lambda>s. s\<lparr>waitchannel := [], ignore_date := True, ignore_mode := True,
                         ignore_names := True, end_of_names := False\<rparr>) w;
                   w = send_line (''MODE '' @ chan) w;
                   skip_banner = (t_msgid td \<noteq> None \<and> is_duplicate);
                   w = (case t_msgid td of
                          Some msgid \<Rightarrow> if is_duplicate then w else call ''chathistory_track_msgid_ts'' [msgid] w
                        | None \<Rightarrow> w);
                   w = (if skip_banner then w else signal ''UJOIN'' [nick, chan, ip] w);
                   w = (if 0 < t_timestamp td \<and> 0 < disconnect_ref \<and> t_timestamp td \<le> disconnect_ref
                        then signal ''RECONNECT'' [] w else w);
                   w = call ''chathistory_schedule_deferred'' [] w;
                   w = (if have_read_marker (w_serv w) then send_line (''MARKREAD '' @ chan) w else w)
               in Some (if irc_who_join pf
                        then upd_session i (\<lambda>s. s\<lparr>doing_who := True, done_away_check := True\<rparr>)
                               (send_line (user_list_line (w_serv w) chan) w)
                        else w)))"

definition inbound_ukick :: "prefs \<Rightarrow> string \<Rightarrow> string \<Rightarrow> string \<Rightarrow> world \<Rightarrow> world option" where
  "inbound_ukick pf chan kicker reason w =
     (case find_channel w chan of
        None \<Rightarrow> Some w
      | Some i \<Rightarrow>
          let w = signal ''UKICK'' [serv_nick (w_serv w), chan, kicker, reason] w;
              w = clear_channel i w
          in if irc_auto_rejoin pf then
               let key = channelkey (sess_at w i);
                   w = send_line (''JOIN '' @ chan @ (if key \<noteq> [] then '' '' @ key else [])) w
               in map_option (\<lambda>n. upd_session i (\<lambda>s. s\<lparr>waitchannel := n\<rparr>) w) (safe_strcpy chan CHANLEN)
             else Some w)"

definition inbound_upart :: "string \<Rightarrow> string \<Rightarrow> string \<Rightarrow> world \<Rightarrow> world" where
  "inbound_upart chan ip reason w =
     (case find_channel w chan of
        None \<Rightarrow> w
      | Some i \<Rightarrow>
          clear_channel i
            (if reason \<noteq> [] then signal ''UPARTREASON'' [serv_nick (w_serv w), ip, chan, reason] w
             else signal ''UPART'' [serv_nick (w_serv w), ip, chan] w))"

subsection \<open>NAMES\<close>

text \<open>
  The prefix loop for a name with its host: \<open>strchr\<close> finds the terminator too, so that a name
  of prefixes only is read past its end.
\<close>

fun skip_prefixes :: "server \<Rightarrow> string \<Rightarrow> (nat \<times> string) option" where
  "skip_prefixes serv [] = None"
| "skip_prefixes serv (c # s) =
     (if strchr (nick_prefixes serv) c \<noteq> None
      then map_option (\<lambda>(n, r). (Suc n, r)) (skip_prefixes serv s)
      else Some (0, c # s))"

text \<open>The name and the host of one entry.\<close>

definition names_entry :: "server \<Rightarrow> string \<Rightarrow> (string \<times> string option) option" where
  "names_entry serv item =
     (if have_uhnames serv then
        (case skip_prefixes serv item of
           None \<Rightarrow> None
         | Some (n, rest) \<Rightarrow>
             let offset = n + length (takeWhile (\<lambda>c. c \<noteq> CHR ''!'') rest);
                 host = (if offset < length item then Some (drop (offset + 1) item) else None);
                 offset = offset + 1
             in Some (take (min offset NICKLEN - 1) item, host))
      else Some (take (NICKLEN - 1) item, None))"

fun nameslist_loop :: "nat \<Rightarrow> string list \<Rightarrow> world \<Rightarrow> world option" where
  "nameslist_loop i [] w = Some w"
| "nameslist_loop i (item # items) w =
     (if item = [] then nameslist_loop i items w
      else
        (case names_entry (w_serv w) item of
           None \<Rightarrow> None
         | Some (name, host) \<Rightarrow>
             (case try_list i (\<lambda>st. userlist_add (w_serv w) st name host None None) w of
                None \<Rightarrow> None
              | Some w \<Rightarrow> nameslist_loop i items w)))"

definition inbound_nameslist :: "string \<Rightarrow> string \<Rightarrow> world \<Rightarrow> world option" where
  "inbound_nameslist chan names w =
     (case find_channel w chan of
        None \<Rightarrow> Some (signal ''USERSONCHAN'' [chan, names] w)
      | Some i \<Rightarrow>
          let w = (if ignore_names (sess_at w i) then w else signal ''USERSONCHAN'' [chan, names] w);
              w = (if end_of_names (sess_at w i)
                   then on_list i userlist_clear (upd_session i (\<lambda>s. s\<lparr>end_of_names := False\<rparr>) w) else w)
          in nameslist_loop i (g_strsplit names (CHR '' '')) w)"

definition names_done :: "nat \<Rightarrow> world \<Rightarrow> world" where
  "names_done i w =
     w_emit Fe_userlist_numbers (upd_session i (\<lambda>s. s\<lparr>end_of_names := True, ignore_names := False\<rparr>) w)"

definition inbound_nameslist_end :: "string \<Rightarrow> world \<Rightarrow> (world \<times> bool) option" where
  "inbound_nameslist_end chan w =
     (if chan = ''*'' then map_option (\<lambda>w. (w, True)) (each_session (\<lambda>i w. Some (names_done i w)) w)
      else
        (case find_channel w chan of
           Some i \<Rightarrow> Some (names_done i w, True)
         | None \<Rightarrow> Some (w, False)))"

subsection \<open>Movements of others\<close>

definition inbound_join ::
    "string \<Rightarrow> string \<Rightarrow> string \<Rightarrow> string option \<Rightarrow> string \<Rightarrow> world \<Rightarrow> world option" where
  "inbound_join chan user ip account realname w =
     (case find_channel w chan of
        None \<Rightarrow> Some w
      | Some i \<Rightarrow>
          let acct = (case account of None \<Rightarrow> [] | Some a \<Rightarrow> a);
              w = signal ''JOIN'' [user, chan, ip, acct] w
          in map_option (call ''notify_account_observed'' [user, acct])
               (try_list i (\<lambda>st. userlist_add (w_serv w) st user (Some ip) account (Some realname)) w))"

definition account_of :: "world \<Rightarrow> nat \<Rightarrow> string \<Rightarrow> string option" where
  "account_of w i nick =
     (case find_user w i nick of None \<Rightarrow> None | Some a \<Rightarrow> u_account (user_at (w_mem w) a))"

definition account_cleared :: "string option \<Rightarrow> world \<Rightarrow> world" where
  "account_cleared account w =
     (case account of None \<Rightarrow> w | Some a \<Rightarrow> call ''notify_account_cleared'' [a] w)"

definition remove_from :: "nat \<Rightarrow> string \<Rightarrow> world \<Rightarrow> world option" where
  "remove_from i user w = try_list i (\<lambda>st. map_option fst (userlist_remove (w_serv w) st user)) w"

definition inbound_kick :: "string \<Rightarrow> string \<Rightarrow> string \<Rightarrow> string \<Rightarrow> world \<Rightarrow> world option" where
  "inbound_kick chan user kicker reason w =
     (case find_channel w chan of
        None \<Rightarrow> Some w
      | Some i \<Rightarrow>
          let kick_account = account_of w i user
          in map_option (account_cleared kick_account)
               (remove_from i user (signal ''KICK'' [kicker, user, chan, reason] w)))"

definition inbound_part :: "string \<Rightarrow> string \<Rightarrow> string \<Rightarrow> string \<Rightarrow> world \<Rightarrow> world option" where
  "inbound_part chan user ip reason w =
     (case find_channel w chan of
        None \<Rightarrow> Some w
      | Some i \<Rightarrow>
          let part_account = account_of w i user;
              w = (if reason \<noteq> [] then signal ''PARTREASON'' [user, ip, chan, reason] w
                   else signal ''PART'' [user, ip, chan] w)
          in map_option (account_cleared part_account) (remove_from i user w))"

fun quit_loop ::
    "string \<Rightarrow> string \<Rightarrow> string \<Rightarrow> nat list \<Rightarrow> world \<Rightarrow> bool \<Rightarrow> string option \<Rightarrow>
     (world \<times> bool \<times> string option) option" where
  "quit_loop nick ip reason [] w front account = Some (w, front, account)"
| "quit_loop nick ip reason (i # is) w front account =
     (if \<not> is_serv w i then quit_loop nick ip reason is w front account
      else
        let front = (i = w_current w \<or> front) in
        case find_user w i nick of
          Some a \<Rightarrow>
            let account = (if account = None then u_account (user_at (w_mem w) a) else account);
                w = signal ''QUIT'' [nick, reason, ip] w
            in (case try_list i (\<lambda>st. userlist_remove_user (w_serv w) st a) w of
                  None \<Rightarrow> None
                | Some w \<Rightarrow> quit_loop nick ip reason is w front account)
        | None \<Rightarrow>
            quit_loop nick ip reason is
              (if sess_type (sess_at w i) = SESS_DIALOG \<and> p_cmp (w_serv w) (channel (sess_at w i)) nick = 0
               then signal ''QUIT'' [nick, reason, ip] w else w) front account)"

definition inbound_quit :: "string \<Rightarrow> string \<Rightarrow> string \<Rightarrow> world \<Rightarrow> world option" where
  "inbound_quit nick ip reason w =
     (case quit_loop nick ip reason [0..<length (w_sessions w)] w False None of
        None \<Rightarrow> None
      | Some (w, front, quit_account) \<Rightarrow>
          Some (call ''notify_set_offline'' [nick, if front then ''1'' else ''0''] (account_cleared quit_account w)))"

subsection \<open>What is known of users\<close>

definition inbound_account :: "string \<Rightarrow> string \<Rightarrow> world \<Rightarrow> world option" where
  "inbound_account nick account w =
     (let old_account =
            (case filter (\<lambda>i. is_serv w i \<and> account_of w i nick \<noteq> None) [0..<length (w_sessions w)] of
               [] \<Rightarrow> None
             | i # _ \<Rightarrow> account_of w i nick)
      in map_option
           (\<lambda>w. let w = call ''notify_account_observed'' [nick, account] w
                in if account = [] \<or> account = ''*'' \<or> account = ''0'' \<or> old_account \<noteq> Some account
                   then account_cleared old_account w else w)
           (each_session (\<lambda>i w. Some (on_list i (\<lambda>st. userlist_set_account (w_serv w) st nick account) w)) w))"

definition set_all_away :: "string \<Rightarrow> uint \<Rightarrow> world \<Rightarrow> world option" where
  "set_all_away nick status w =
     each_session (\<lambda>i w. Some (on_list i (\<lambda>st. userlist_set_away (w_serv w) st nick status) w)) w"

definition server_away_find_message :: "world \<Rightarrow> string \<Rightarrow> string option" where
  "server_away_find_message w nick =
     (case filter (\<lambda>(a, n, msg). a = serv_addr (w_serv w) \<and> p_cmp (w_serv w) nick n = 0) (w_away w) of
        [] \<Rightarrow> None | (_, _, msg) # _ \<Rightarrow> Some msg)"

fun replace_first :: "('a \<Rightarrow> bool) \<Rightarrow> ('a \<Rightarrow> 'a) \<Rightarrow> 'a list \<Rightarrow> 'a list" where
  "replace_first P f [] = []"
| "replace_first P f (x # xs) = (if P x then f x # xs else x # replace_first P f xs)"

definition server_away_save_message :: "string \<Rightarrow> string \<Rightarrow> world \<Rightarrow> world option" where
  "server_away_save_message nick msg w =
     (if server_away_find_message w nick \<noteq> None then
        Some (w\<lparr>w_away := replace_first (\<lambda>(a, n, _). a = serv_addr (w_serv w) \<and> p_cmp (w_serv w) nick n = 0)
                  (\<lambda>(a, n, _). (a, n, msg)) (w_away w)\<rparr>)
      else
        map_option (\<lambda>n. w\<lparr>w_away := (serv_addr (w_serv w), n, msg) # w_away w\<rparr>) (safe_strcpy nick NICKLEN))"

definition inbound_away :: "prefs \<Rightarrow> bool \<Rightarrow> bool \<Rightarrow> string \<Rightarrow> string \<Rightarrow> world \<Rightarrow> world option" where
  "inbound_away pf inside_whois skip_next_whois nick msg w =
     (let seen = (server_away_find_message w nick = Some msg) in
      if seen \<and> away_show_once pf \<and> \<not> inside_whois then Some w
      else
        (case (if seen then Some w else server_away_save_message nick msg w) of
           None \<Rightarrow> None
         | Some w \<Rightarrow>
             set_all_away nick 1
               (if \<not> inside_whois \<or> \<not> skip_next_whois then signal ''WHOIS5'' [nick, msg] w else w)))"

definition inbound_away_notify :: "(string \<Rightarrow> string option \<Rightarrow> bool) \<Rightarrow> string \<Rightarrow> string option \<Rightarrow> world \<Rightarrow> world option" where
  "inbound_away_notify is_in_list nick reason w =
     each_session (\<lambda>i w.
       let w = on_list i (\<lambda>st. userlist_set_away (w_serv w) st nick (if reason \<noteq> None then 1 else 0)) w
       in Some (if i = w_front w \<and> is_in_list nick (account_of w i nick)
                then (case reason of
                        Some r \<Rightarrow> signal ''NOTIFYAWAY'' [nick, r] w
                      | None \<Rightarrow> signal ''NOTIFYBACK'' [nick] w)
                else w)) w"

definition inbound_uaway :: "world \<Rightarrow> world option" where
  "inbound_uaway w =
     set_all_away (serv_nick (w_serv w)) 1 (call ''fe_set_away'' [] (w\<lparr>w_serv := (w_serv w)\<lparr>is_away := True\<rparr>\<rparr>))"

definition inbound_uback :: "world \<Rightarrow> world option" where
  "inbound_uback w =
     set_all_away (serv_nick (w_serv w)) 0 (call ''fe_set_away'' [] (w\<lparr>w_serv := (w_serv w)\<lparr>is_away := False\<rparr>\<rparr>))"

definition inbound_user_info_start :: "string \<Rightarrow> world \<Rightarrow> world option" where
  "inbound_user_info_start nick w = set_all_away nick 0 w"

text \<open>\<open>inbound_user_info\<close>: an argument that is NULL is \<open>None\<close>; 0xff for \<open>away\<close> is unknown.\<close>

definition inbound_user_info ::
    "prefs \<Rightarrow> bool \<Rightarrow> string option \<Rightarrow> string option \<Rightarrow> string option \<Rightarrow> string option \<Rightarrow> string \<Rightarrow>
     string option \<Rightarrow> string option \<Rightarrow> uint \<Rightarrow> world \<Rightarrow> world option" where
  "inbound_user_info pf doing_dns chan user host servname nick realname account away w =
     (let uhost = (case (user, host) of (Some u, Some h) \<Rightarrow> Some (u @ ''@'' @ h) | _ \<Rightarrow> None);
          add = (\<lambda>i w. on_list i (\<lambda>st. fst (userlist_add_hostname (gui_ulist_show_hosts pf) (w_serv w) st nick
                       uhost realname servname account away)) w)
      in map_option
           (\<lambda>w. case account of
                  Some (a # as) \<Rightarrow> call ''notify_account_observed'' [nick, a # as] w
                | _ \<Rightarrow> w)
           (case chan of
              Some c \<Rightarrow>
                (case find_channel w c of
                   Some i \<Rightarrow> Some (add i w)
                 | None \<Rightarrow> Some (case host of
                                    Some h \<Rightarrow> if doing_dns then call ''do_dns'' [nick, h] w else w
                                  | None \<Rightarrow> w))
            | None \<Rightarrow>
                each_session (\<lambda>i w.
                  if sess_type (sess_at w i) = SESS_CHANNEL then Some (add i w)
                  else if sess_type (sess_at w i) = SESS_DIALOG \<and> uhost \<noteq> None \<and>
                          p_cmp (w_serv w) (channel (sess_at w i)) nick = 0
                  then Some (set_topic i (the uhost) (the uhost) w)
                  else Some w) w))"

subsection \<open>Topics\<close>

text \<open>\<open>strip_color (text, -1, STRIP_ALL)\<close>, without markup escaping.\<close>

definition strip_all :: "string \<Rightarrow> string option" where
  "strip_all s = strip_color (\<lambda>s. s) s (-1) STRIP_ALL"

definition inbound_topic :: "string \<Rightarrow> string \<Rightarrow> world \<Rightarrow> world option" where
  "inbound_topic chan topic_text w =
     map_option (signal ''TOPIC'' [chan, topic_text])
       (case find_channel w chan of
          Some i \<Rightarrow> map_option (\<lambda>stripped. set_topic i topic_text stripped w) (strip_all topic_text)
        | None \<Rightarrow> Some w)"

definition inbound_topicnew :: "string \<Rightarrow> string \<Rightarrow> string \<Rightarrow> world \<Rightarrow> world option" where
  "inbound_topicnew nick chan tpc w =
     (case find_channel w chan of
        Some i \<Rightarrow>
          map_option (\<lambda>stripped. set_topic i tpc stripped (signal ''NEWTOPIC'' [nick, tpc, chan] w)) (strip_all tpc)
      | None \<Rightarrow> Some w)"

end
