(* ===== verification/Batch.thy ===== *)
theory Batch
  imports Inbound SendQueue
begin

text \<open>
  IRCv3 batches of \<open>src/common/inbound.c\<close>: a batch is opened by BATCH +id, collects the messages
  tagged with its id, and is processed as a whole when BATCH -id closes it. The tables are
  \<open>active_batches\<close> and \<open>pending_labels\<close> of \<open>SendQueue.sendq\<close>; word arrays are functions from
  the index, with an empty word behind the last one. The display of a message and the chat
  history are calls in the trace of the world.
\<close>

text \<open>The parameters from \<open>word[i]\<close> on, without their colon.\<close>

function start_params :: "(nat \<Rightarrow> string) \<Rightarrow> nat \<Rightarrow> string list" where
  "start_params word i =
     (if i \<ge> PDIWORDS \<or> word i = [] then []
      else (if cur (word i) = CHR '':'' then tl (word i) else word i) # start_params word (i + 1))"
  by pat_completeness auto
termination by (relation "measure (\<lambda>(word, i). PDIWORDS - i)") auto

declare start_params.simps [simp del]

definition batch_info_new ::
    "int \<Rightarrow> string \<Rightarrow> string \<Rightarrow> (nat \<Rightarrow> string) \<Rightarrow> message_tags_data \<Rightarrow> batch_info" where
  "batch_info_new now batch_id ty word td =
     \<lparr>bi_id = batch_id, bi_type = ty, bi_params = start_params word 5, bi_outer_batch = t_batch_id td,
      bi_label = t_label td, bi_msgid = t_msgid td,
      bi_chathistory_end = (case t_all_tags td of
          None \<Rightarrow> False | Some tags \<Rightarrow> tags ''draft/chathistory-end'' \<noteq> None),
      bi_messages = [], bi_started = now, bi_server_time = t_timestamp td\<rparr>"

definition inbound_batch_start ::
    "int \<Rightarrow> bool \<Rightarrow> string \<Rightarrow> string \<Rightarrow> (nat \<Rightarrow> string) \<Rightarrow> message_tags_data \<Rightarrow> sendq \<Rightarrow> sendq" where
  "inbound_batch_start now has_batch batch_id batch_type word td sq =
     (if \<not> has_batch \<or> map_of (active_batches sq) batch_id \<noteq> None then sq
      else server_ensure_stale_sweep_timer
             (sq\<lparr>active_batches := table_insert batch_id (batch_info_new now batch_id batch_type word td)
                  (active_batches sq)\<rparr>))"

text \<open>The parameters of a message from \<open>word[i]\<close> on; a trailing one takes the rest of the line.\<close>

function message_params :: "(nat \<Rightarrow> string) \<Rightarrow> (nat \<Rightarrow> string) \<Rightarrow> nat \<Rightarrow> nat \<Rightarrow> string list" where
  "message_params word word_eol word_count i =
     (if i \<ge> word_count \<or> word i = [] then []
      else if cur (word i) = CHR '':'' then [word_eol i]
      else word i # message_params word word_eol word_count (i + 1))"
  by pat_completeness auto
termination by (relation "measure (\<lambda>(word, word_eol, n, i). n - i)") auto

declare message_params.simps [simp del]

definition deferred_type :: "string \<Rightarrow> bool" where
  "deferred_type ty \<longleftrightarrow>
     (\<exists>t \<in> {''chathistory'', ''draft/chathistory-targets'', ''draft/multiline'', ''multiline''}.
        g_ascii_strcasecmp ty t = 0)"

definition append_message :: "batch_message \<Rightarrow> batch_info \<Rightarrow> batch_info" where
  "append_message msg b = b\<lparr>bi_messages := bi_messages b @ [msg]\<rparr>"

text \<open>An entry of the table is changed in place.\<close>

definition table_update :: "'k \<Rightarrow> ('v \<Rightarrow> 'v) \<Rightarrow> ('k \<times> 'v) list \<Rightarrow> ('k \<times> 'v) list" where
  "table_update k f t = map (\<lambda>(k', v). (k', if k' = k then f v else v)) t"

definition inbound_batch_add_message ::
    "bool \<Rightarrow> string \<Rightarrow> string \<Rightarrow> (nat \<Rightarrow> string) \<Rightarrow> (nat \<Rightarrow> string) \<Rightarrow> message_tags_data \<Rightarrow> sendq \<Rightarrow> sendq \<times> bool" where
  "inbound_batch_add_message has_batch prefix command word word_eol td sq =
     (case t_batch_id td of
        None \<Rightarrow> (sq, False)
      | Some bid \<Rightarrow>
          (case (if has_batch then map_of (active_batches sq) bid else None) of
             None \<Rightarrow> (sq, False)
           | Some batch \<Rightarrow>
               if \<not> deferred_type (bi_type batch) then (sq, False)
               else
                 let msg = \<lparr>bm_prefix = prefix, bm_command = command,
                            bm_params = message_params word word_eol PDIWORDS 3,
                            bm_tags = t_all_tags td, bm_timestamp = t_timestamp td, bm_msgid = t_msgid td\<rparr>
                 in (sq\<lparr>active_batches := table_update bid (append_message msg) (active_batches sq)\<rparr>, True)))"

definition inbound_batch_is_active :: "bool \<Rightarrow> message_tags_data \<Rightarrow> sendq \<Rightarrow> bool" where
  "inbound_batch_is_active has_batch td sq \<longleftrightarrow>
     has_batch \<and> (case t_batch_id td of None \<Rightarrow> False | Some bid \<Rightarrow> map_of (active_batches sq) bid \<noteq> None)"

subsection \<open>Multiline messages\<close>

definition message_text :: "batch_message \<Rightarrow> string" where
  "message_text msg =
     (let text = bm_params msg ! 1 in if cur text = CHR '':'' then tl text else text)"

text \<open>The loop over the messages: the first PRIVMSG and the text put together so far.\<close>

fun combine ::
    "batch_message list \<Rightarrow> batch_message option \<Rightarrow> string \<Rightarrow> bool \<Rightarrow> batch_message option \<times> string" where
  "combine [] first_msg txt first_line = (first_msg, txt)"
| "combine (msg # msgs) first_msg txt first_line =
     (if g_ascii_strcasecmp (bm_command msg) ''PRIVMSG'' \<noteq> 0 then combine msgs first_msg txt first_line
      else
        let first_msg = (if first_msg = None then Some msg else first_msg) in
        if length (bm_params msg) \<ge> 2
        then combine msgs first_msg ((if first_line then txt else txt @ [CHR 0x0A]) @ message_text msg) False
        else combine msgs first_msg txt first_line)"

definition batch_target :: "batch_info \<Rightarrow> string option" where
  "batch_target batch = (case bi_params batch of [] \<Rightarrow> None | t # _ \<Rightarrow> Some t)"

definition process_multiline_batch :: "batch_info \<Rightarrow> world \<Rightarrow> world" where
  "process_multiline_batch batch w =
     (if bi_messages batch = [] then w
      else
        let found = (case batch_target batch of
                       None \<Rightarrow> None
                     | Some target \<Rightarrow>
                         (case find_channel w target of Some i \<Rightarrow> Some i | None \<Rightarrow> find_dialog w target));
            i = (case found of Some i \<Rightarrow> i | None \<Rightarrow> w_server_sess w);
            (first_msg, txt) = combine (bi_messages batch) None [] True
        in case first_msg of
             None \<Rightarrow> w
           | Some msg \<Rightarrow>
               if txt = [] then w
               else
                 let nick = upto_chr (bm_prefix msg) (CHR ''!'');
                     host = (case strchr (bm_prefix msg) (CHR ''!'') of None \<Rightarrow> [] | Some h \<Rightarrow> tl h);
                     w = call ''fe_begin_multiline_group'' [] w;
                     w = (if sess_type (sess_at w i) = SESS_CHANNEL
                          then call ''inbound_chanmsg'' [channel (sess_at w i), nick, txt] w
                          else call ''inbound_privmsg'' [nick, host, txt] w)
                 in call ''fe_end_multiline_group'' [] w)"

definition collapse_multiline_to_parent :: "batch_info \<Rightarrow> batch_info \<Rightarrow> batch_info" where
  "collapse_multiline_to_parent batch parent =
     (if bi_messages batch = [] then parent
      else
        (case combine (bi_messages batch) None [] True of
           (Some first_msg, c # txt) \<Rightarrow>
             append_message
               \<lparr>bm_prefix = bm_prefix first_msg, bm_command = ''PRIVMSG'',
                bm_params = [case batch_target batch of None \<Rightarrow> [] | Some t \<Rightarrow> t, CHR '':'' # c # txt],
                bm_tags = bm_tags first_msg,
                bm_timestamp = (if bi_server_time batch \<noteq> 0 then bi_server_time batch else bm_timestamp first_msg),
                bm_msgid = (case bi_msgid batch of Some m \<Rightarrow> Some m | None \<Rightarrow> bm_msgid first_msg)\<rparr> parent
         | _ \<Rightarrow> parent))"

text \<open>What a batch does by its type; the closing of a nested one adds to its parent.\<close>

definition process_batch :: "batch_info \<Rightarrow> sendq \<times> world \<Rightarrow> sendq \<times> world" where
  "process_batch batch st =
     (let (sq, w) = st; is = (\<lambda>t. g_ascii_strcasecmp (bi_type batch) t = 0) in
      if is ''chathistory'' then (sq, call ''chathistory_process_batch'' [bi_id batch] w)
      else if is ''draft/chathistory-targets''
      then (sq, call ''chathistory_process_targets_batch'' [bi_id batch] w)
      else if is ''draft/multiline'' \<or> is ''multiline'' then
        let parent = (case bi_outer_batch batch of None \<Rightarrow> None | Some p \<Rightarrow> map_of (active_batches sq) p) in
        if parent \<noteq> None then
          (sq\<lparr>active_batches := table_update (the (bi_outer_batch batch)) (collapse_multiline_to_parent batch)
                (active_batches sq)\<rparr>, w)
        else
          let echo_suppressed =
                (case bi_label batch of
                   None \<Rightarrow> False
                 | Some l \<Rightarrow> (case map_of (pending_labels sq) l of None \<Rightarrow> False | Some info \<Rightarrow> pl_entry_id info \<noteq> 0))
          in (sq, if echo_suppressed then w else process_multiline_batch batch w)
      else (sq, w))"

definition is_session :: "world \<Rightarrow> nat option \<Rightarrow> bool" where
  "is_session w i = (case i of None \<Rightarrow> False | Some i \<Rightarrow> i < length (w_sessions w))"

definition opt_args :: "string option \<Rightarrow> string list" where
  "opt_args s = (case s of None \<Rightarrow> [] | Some s \<Rightarrow> [s])"

definition inbound_batch_end :: "bool \<Rightarrow> string \<Rightarrow> sendq \<times> world \<Rightarrow> sendq \<times> world" where
  "inbound_batch_end has_batch batch_id st =
     (case (if has_batch then map_of (active_batches (fst st)) batch_id else None) of
        None \<Rightarrow> st
      | Some batch \<Rightarrow>
          let (sq, w) = process_batch batch st;
              (sq, w) =
                (case bi_label batch of
                   None \<Rightarrow> (sq, w)
                 | Some l \<Rightarrow>
                     let w = (case map_of (pending_labels sq) l of
                                None \<Rightarrow> w
                              | Some info \<Rightarrow>
                                  if pl_entry_id info \<noteq> 0 \<and> is_session w (pl_sess info) then
                                    let msgid = (case bi_msgid batch of
                                                   Some m \<Rightarrow> Some m
                                                 | None \<Rightarrow> (case bi_messages batch of
                                                              [] \<Rightarrow> None | m # _ \<Rightarrow> bm_msgid m));
                                        w = call ''fe_confirm_entry'' (show_nat (pl_entry_id info) # opt_args msgid) w
                                    in (case msgid of
                                          None \<Rightarrow> w
                                        | Some m \<Rightarrow> call ''scrollback_confirm_pending'' [l, m] w)
                                  else w)
                     in (sq\<lparr>pending_labels := table_remove l (pending_labels sq)\<rparr>, w))
          in (sq\<lparr>active_batches := table_remove batch_id (active_batches sq)\<rparr>, w))"

end
