(* ===== verification/Scram.thy ===== *)
theory Scram
  imports HexPrelude
begin

text \<open>
  The SCRAM client of \<open>src/common/scram.c\<close> (RFC 5802), which logs in by SASL.

  OpenSSL's digests and GLib's base64 are a parameter \<open>C\<close>; \<open>crypto_ok\<close> states what the
  client relies on. Bytes are characters. Messages from the server are C strings: the caller
  passes what stands before the first 0 of the decoded data.
\<close>

record crypto =
  digest_size_of :: "string \<Rightarrow> nat option"
  PBKDF2 :: "string \<Rightarrow> string \<Rightarrow> string \<Rightarrow> int \<Rightarrow> string"
  HMAC :: "string \<Rightarrow> string \<Rightarrow> string \<Rightarrow> string"
  SHA :: "string \<Rightarrow> string \<Rightarrow> string option"
  base64_encode :: "string \<Rightarrow> string"
  base64_decode :: "string \<Rightarrow> string"

datatype scram_status = SCRAM_ERROR | SCRAM_IN_PROGRESS | SCRAM_SUCCESS

record scram_session =
  digest :: string
  digest_size :: nat
  username :: string
  password :: string
  client_nonce_b64 :: string
  client_first_message_bare :: string
  salted_password :: string
  auth_message :: string
  scram_error :: "string option"
  scram_step :: nat

definition scram_session_create :: "crypto \<Rightarrow> string \<Rightarrow> string \<Rightarrow> string \<Rightarrow> scram_session option" where
  "scram_session_create C d user pw =
     (case digest_size_of C d of
        None \<Rightarrow> None
      | Some n \<Rightarrow> Some \<lparr>digest = d, digest_size = n, username = user, password = pw, client_nonce_b64 = [],
          client_first_message_bare = [], salted_password = [], auth_message = [], scram_error = None,
          scram_step = 0\<rparr>)"

text \<open>The nonce is what \<open>RAND_bytes\<close> gave, \<open>None\<close> when it failed.\<close>

definition process_client_first ::
    "crypto \<Rightarrow> string option \<Rightarrow> scram_session \<Rightarrow> scram_status \<times> string option \<times> scram_session" where
  "process_client_first C nonce session =
     (case nonce of
        None \<Rightarrow> (SCRAM_ERROR, None, session\<lparr>scram_error := Some ''Could not create client nonce''\<rparr>)
      | Some nonce \<Rightarrow>
          let b64 = base64_encode C nonce;
              output = ''n,,n='' @ username session @ '',r='' @ b64
          in (SCRAM_IN_PROGRESS, Some output,
              session\<lparr>client_nonce_b64 := b64, client_first_message_bare := drop 3 output,
                      scram_step := scram_step session + 1\<rparr>))"

text \<open>
  \<open>strtoul (s, NULL, 10)\<close> of a 64-bit \<open>long\<close>, stored in an \<open>unsigned int\<close>; and the \<open>int\<close>
  that \<open>PKCS5_PBKDF2_HMAC\<close> takes.
\<close>

definition strtoul32 :: "string \<Rightarrow> nat" where
  "strtoul32 s = (let n = atoi s in nat ((if \<bar>n\<bar> \<ge> 2 ^ 64 then 2 ^ 64 - 1 else n) mod 2 ^ 32))"

definition to_int32 :: "nat \<Rightarrow> int" where
  "to_int32 n = (if n < 2 ^ 31 then int n else int n - 2 ^ 32)"

fun xor_char :: "char \<Rightarrow> char \<Rightarrow> char" where
  "xor_char (Char a0 a1 a2 a3 a4 a5 a6 a7) (Char b0 b1 b2 b3 b4 b5 b6 b7) =
     Char (a0 \<noteq> b0) (a1 \<noteq> b1) (a2 \<noteq> b2) (a3 \<noteq> b3) (a4 \<noteq> b4) (a5 \<noteq> b5) (a6 \<noteq> b6) (a7 \<noteq> b7)"

text \<open>The loop over the parameters of the server: nonce, salt and iteration count.\<close>

fun server_first_params ::
    "string list \<Rightarrow> string option \<times> string option \<times> nat \<Rightarrow> string option \<times> string option \<times> nat" where
  "server_first_params [] acc = acc"
| "server_first_params (p # ps) (nonce, salt, iteration_count) =
     server_first_params ps
       (if has_prefix p ''r='' then (Some (drop 2 p), salt, iteration_count)
        else if has_prefix p ''s='' then (nonce, Some (drop 2 p), iteration_count)
        else if has_prefix p ''i='' then (nonce, salt, strtoul32 (drop 2 p))
        else (nonce, salt, iteration_count))"

definition parse_server_first :: "string \<Rightarrow> (string \<times> string \<times> nat) option" where
  "parse_server_first data =
     (let params = g_strsplit data (CHR '','') in
      if length params < 3 then None
      else
        (case server_first_params params (None, None, 0) of
           (Some (n # ns), Some (s # ss), i) \<Rightarrow> if i = 0 then None else Some (n # ns, s # ss, i)
         | _ \<Rightarrow> None))"

definition process_server_first ::
    "crypto \<Rightarrow> scram_session \<Rightarrow> string \<Rightarrow> scram_status \<times> string option \<times> scram_session" where
  "process_server_first C session data =
     (case parse_server_first data of
        None \<Rightarrow>
          (SCRAM_ERROR, None, session\<lparr>scram_error := Some (''Invalid server-first-message: '' @ data)\<rparr>)
      | Some (server_nonce, salt, iteration_count) \<Rightarrow>
          if \<not> has_prefix server_nonce (client_nonce_b64 session)
          then (SCRAM_ERROR, None, session\<lparr>scram_error := Some (''Invalid server nonce: '' @ server_nonce)\<rparr>)
          else
            let d = digest session;
                salted = PBKDF2 C d (password session) (base64_decode C salt) (to_int32 iteration_count);
                without_proof = ''c=biws,r='' @ server_nonce;
                auth = client_first_message_bare session @ '','' @ data @ '','' @ without_proof;
                session = session\<lparr>salted_password := salted, auth_message := auth\<rparr>;
                client_key = HMAC C d salted ''Client Key''
            in (case SHA C d client_key of
                  None \<Rightarrow> (SCRAM_ERROR, None, session\<lparr>scram_error := Some ''Message digest update failed''\<rparr>)
                | Some stored_key \<Rightarrow>
                    let client_signature = HMAC C d stored_key auth;
                        client_proof = map2 xor_char client_key client_signature
                    in (SCRAM_IN_PROGRESS, Some (without_proof @ '',p='' @ base64_encode C client_proof),
                        session\<lparr>scram_step := scram_step session + 1\<rparr>)))"

definition process_server_final :: "crypto \<Rightarrow> scram_session \<Rightarrow> string \<Rightarrow> scram_status" where
  "process_server_final C session data =
     (if length data < 3 \<or> (data ! 0 \<noteq> CHR ''v'' \<and> data ! 1 \<noteq> CHR ''='') then SCRAM_ERROR
      else
        let verifier = base64_decode C (drop 2 data);
            server_key = HMAC C (digest session) (salted_password session) ''Server Key'';
            server_signature = HMAC C (digest session) server_key (auth_message session)
        in if verifier = server_signature then SCRAM_SUCCESS else SCRAM_ERROR)"

definition scram_process ::
    "crypto \<Rightarrow> string option \<Rightarrow> scram_session \<Rightarrow> string \<Rightarrow> scram_status \<times> string option \<times> scram_session" where
  "scram_process C nonce session input =
     (if scram_step session = 0 then process_client_first C nonce session
      else if scram_step session = 1 then process_server_first C session input
      else if scram_step session = 2 then (process_server_final C session input, None, session)
      else (SCRAM_ERROR, None, session))"

subsection \<open>A server of RFC 5802\<close>

text \<open>What OpenSSL and GLib document, for the digest \<open>d\<close>.\<close>

definition crypto_ok :: "crypto \<Rightarrow> string \<Rightarrow> bool" where
  "crypto_ok C d \<longleftrightarrow>
     (\<exists>n > 0. digest_size_of C d = Some n \<and> (\<forall>k x. length (HMAC C d k x) = n)) \<and>
     (\<forall>x. SHA C d x \<noteq> None) \<and>
     (\<forall>x. base64_decode C (base64_encode C x) = x) \<and>
     (\<forall>x. no_nul (base64_encode C x) \<and> CHR '','' \<notin> set (base64_encode C x)) \<and>
     (\<forall>x. x \<noteq> [] \<longrightarrow> base64_encode C x \<noteq> [])"

text \<open>The server keeps StoredKey and ServerKey, not the password.\<close>

record scram_account =
  acc_salt :: string
  acc_iterations :: nat
  acc_stored_key :: string
  acc_server_key :: string

definition enrol :: "crypto \<Rightarrow> string \<Rightarrow> string \<Rightarrow> string \<Rightarrow> nat \<Rightarrow> scram_account" where
  "enrol C d pw salt i =
     (let salted = PBKDF2 C d pw salt (int i) in
      \<lparr>acc_salt = salt, acc_iterations = i,
       acc_stored_key = the (SHA C d (HMAC C d salted ''Client Key'')),
       acc_server_key = HMAC C d salted ''Server Key''\<rparr>)"

definition rfc_server_first :: "crypto \<Rightarrow> scram_account \<Rightarrow> string \<Rightarrow> string" where
  "rfc_server_first C acc nonce =
     ''r='' @ nonce @ '',s='' @ base64_encode C (acc_salt acc) @ '',i='' @ show_nat (acc_iterations acc)"

definition rfc_auth_message :: "string \<Rightarrow> string \<Rightarrow> string \<Rightarrow> string" where
  "rfc_auth_message first_bare server_first nonce =
     first_bare @ '','' @ server_first @ '',c=biws,r='' @ nonce"

text \<open>The check of a client-final message: its proof opens StoredKey.\<close>

definition rfc_server_accepts :: "crypto \<Rightarrow> string \<Rightarrow> scram_account \<Rightarrow> string \<Rightarrow> string \<Rightarrow> string \<Rightarrow> bool" where
  "rfc_server_accepts C d acc first_bare nonce client_final \<longleftrightarrow>
     (\<exists>proof64. client_final = ''c=biws,r='' @ nonce @ '',p='' @ proof64 \<and>
        (let signature = HMAC C d (acc_stored_key acc)
                           (rfc_auth_message first_bare (rfc_server_first C acc nonce) nonce)
         in SHA C d (map2 xor_char (base64_decode C proof64) signature) = Some (acc_stored_key acc)))"

definition rfc_server_final :: "crypto \<Rightarrow> string \<Rightarrow> scram_account \<Rightarrow> string \<Rightarrow> string \<Rightarrow> string" where
  "rfc_server_final C d acc first_bare nonce =
     ''v='' @ base64_encode C (HMAC C d (acc_server_key acc)
                (rfc_auth_message first_bare (rfc_server_first C acc nonce) nonce))"

lemma xor_char_involution [simp]: "xor_char (xor_char a b) b = a"
  by (cases a; cases b) auto

lemma map2_xor_involution: "length a = length b \<Longrightarrow> map2 xor_char (map2 xor_char a b) b = a"
  by (induction a b rule: list_induct2) auto

lemma strtoul32_show_nat: "n < 2 ^ 32 \<Longrightarrow> strtoul32 (show_nat n) = n"
  by (simp add: strtoul32_def atoi_show_nat)

lemma comma_not_digit: "CHR '','' \<notin> set (show_nat n)"
proof
  assume "CHR '','' \<in> set (show_nat n)"
  then have "is_digit CHR '',''" using show_nat_digits by blast
  then show False by (simp add: is_digit_def uchar_def)
qed

text \<open>The client reads back what a server wrote.\<close>

lemma parse_rfc_server_first:
  assumes C: "crypto_ok C d" and salt: "acc_salt acc \<noteq> []" and nonce: "nonce \<noteq> []" "CHR '','' \<notin> set nonce"
    and i: "0 < acc_iterations acc" "acc_iterations acc < 2 ^ 32"
  shows "parse_server_first (rfc_server_first C acc nonce) =
    Some (nonce, base64_encode C (acc_salt acc), acc_iterations acc)"
proof -
  define s where "s = base64_encode C (acc_salt acc)"
  have s: "s \<noteq> []" "CHR '','' \<notin> set s" using C salt by (auto simp: crypto_ok_def s_def)
  have "rfc_server_first C acc nonce =
      join_with (CHR '','') [''r='' @ nonce, ''s='' @ s, ''i='' @ show_nat (acc_iterations acc)]"
    by (simp add: rfc_server_first_def s_def)
  then have "g_strsplit (rfc_server_first C acc nonce) (CHR '','') =
      [''r='' @ nonce, ''s='' @ s, ''i='' @ show_nat (acc_iterations acc)]"
    using split_at_join [of "[''r='' @ nonce, ''s='' @ s, ''i='' @ show_nat (acc_iterations acc)]" "CHR '',''"]
      s nonce comma_not_digit by (simp add: g_strsplit_def)
  then show ?thesis
    using s nonce i by (auto simp: parse_server_first_def strtoul32_show_nat neq_Nil_conv simp flip: s_def)
qed

subsection \<open>A login that succeeds\<close>

lemma scram_honest_run:
  assumes C: "crypto_ok C d" and salt: "salt \<noteq> []" and i: "0 < i" "i < 2 ^ 31"
    and ext: "CHR '','' \<notin> set ext" and nonce: "nonce \<noteq> []"
    and start: "scram_session_create C d user pw = Some s0"
  shows "\<exists>s1 s2 bare final.
    scram_process C (Some nonce) s0 [] = (SCRAM_IN_PROGRESS, Some (''n,,'' @ bare), s1) \<and>
    bare = ''n='' @ user @ '',r='' @ base64_encode C nonce \<and>
    (let acc = enrol C d pw salt i; full_nonce = base64_encode C nonce @ ext in
     scram_process C n1 s1 (rfc_server_first C acc full_nonce) = (SCRAM_IN_PROGRESS, Some final, s2) \<and>
     rfc_server_accepts C d acc bare full_nonce final \<and>
     scram_process C n2 s2 (rfc_server_final C d acc bare full_nonce) = (SCRAM_SUCCESS, None, s2))"
proof -
  define bare where "bare = ''n='' @ user @ '',r='' @ base64_encode C nonce"
  define acc where "acc = enrol C d pw salt i"
  define full where "full = base64_encode C nonce @ ext"
  define first where "first = rfc_server_first C acc full"
  define salted where "salted = PBKDF2 C d pw salt (int i)"
  define ck where "ck = HMAC C d salted ''Client Key''"
  define auth where "auth = rfc_auth_message bare first full"
  from C obtain n where n: "0 < n" "digest_size_of C d = Some n" "\<And>k x. length (HMAC C d k x) = n"
    by (auto simp: crypto_ok_def)
  have b64: "\<And>x. base64_decode C (base64_encode C x) = x" "base64_encode C nonce \<noteq> []"
      "CHR '','' \<notin> set (base64_encode C nonce)"
    using C nonce by (auto simp: crypto_ok_def)
  obtain sk where sk: "SHA C d ck = Some sk" using C unfolding crypto_ok_def by blast
  have accs: "acc_salt acc = salt" "acc_iterations acc = i" "acc_stored_key acc = sk"
      "acc_server_key acc = HMAC C d salted ''Server Key''"
    by (simp_all add: acc_def enrol_def Let_def salted_def sk [unfolded ck_def salted_def])
  define s1 where "s1 = s0\<lparr>client_nonce_b64 := base64_encode C nonce, client_first_message_bare := bare, scram_step := 1\<rparr>"
  define s2 where "s2 = s1\<lparr>salted_password := salted, auth_message := auth, scram_step := 2\<rparr>"
  define final where "final = ''c=biws,r='' @ full @ '',p='' @ base64_encode C (map2 xor_char ck (HMAC C d sk auth))"
  have s0: "digest s0 = d" "username s0 = user" "password s0 = pw" "scram_step s0 = 0"
    using start n by (auto simp: scram_session_create_def)
  have one: "scram_process C (Some nonce) s0 [] = (SCRAM_IN_PROGRESS, Some (''n,,'' @ bare), s1)"
    by (simp add: scram_process_def process_client_first_def s0 s1_def bare_def Let_def)
  have parse: "parse_server_first first = Some (full, base64_encode C salt, i)"
    using parse_rfc_server_first [OF C, of acc full] salt i b64 ext by (simp add: accs first_def full_def)
  have two: "scram_process C n1 s1 first = (SCRAM_IN_PROGRESS, Some final, s2)"
    using i by (simp add: scram_process_def process_server_first_def s1_def parse has_prefix_iff full_def b64 s0
      to_int32_def Let_def sk s2_def final_def auth_def rfc_auth_message_def
      flip: salted_def ck_def)
  have proof_opens: "map2 xor_char (map2 xor_char ck (HMAC C d sk auth)) (HMAC C d sk auth) = ck"
    by (rule map2_xor_involution) (simp add: n(3) ck_def)
  have accepts: "rfc_server_accepts C d acc bare full final"
    unfolding rfc_server_accepts_def
    by (intro exI [of _ "base64_encode C (map2 xor_char ck (HMAC C d sk auth))"])
      (simp add: final_def b64 accs proof_opens sk auth_def first_def [symmetric] Let_def
        del: map2_map_map flip: auth_def)
  have "HMAC C d (acc_server_key acc) x \<noteq> []" for x using n(1,3) by (metis length_greater_0_conv)
  then have ne: "base64_encode C (HMAC C d (acc_server_key acc) x) \<noteq> []" for x
    using C unfolding crypto_ok_def by blast
  have three: "scram_process C n2 s2 (rfc_server_final C d acc bare full) = (SCRAM_SUCCESS, None, s2)"
    by (simp add: scram_process_def process_server_final_def s2_def s1_def s0 rfc_server_final_def accs b64
      first_def auth_def ne [unfolded accs] Suc_le_eq)
  show ?thesis
    using one two accepts three unfolding acc_def [symmetric] full_def [symmetric] first_def [symmetric] Let_def bare_def
    by blast
qed


text \<open>A concrete provider: base 16 instead of base64, and a one-byte digest.\<close>

definition nibble :: "nat \<Rightarrow> char" where
  "nibble n = char_of (97 + n)"

definition hex_encode :: "string \<Rightarrow> string" where
  "hex_encode s = concat (map (\<lambda>c. [nibble (of_char c div 16), nibble (of_char c mod 16)]) s)"

fun hex_decode :: "string \<Rightarrow> string" where
  "hex_decode (a # b # s) = char_of (16 * (of_char a - 97) + (of_char b - 97) :: nat) # hex_decode s"
| "hex_decode s = []"

definition demo_crypto :: crypto where
  "demo_crypto = \<lparr>digest_size_of = (\<lambda>d. if d = ''SHA1'' then Some 1 else None),
     PBKDF2 = (\<lambda>d pw salt i. pw @ salt @ show_int i),
     HMAC = (\<lambda>d k x. [foldr xor_char (k @ x) CHR 0x01]),
     SHA = (\<lambda>d x. Some x), base64_encode = hex_encode, base64_decode = hex_decode\<rparr>"

lemma nibble_value: "n < 16 \<Longrightarrow> of_char (nibble n) = (97 + n :: nat)"
  by (simp add: nibble_def)

lemma of_char_bound: "of_char c div 16 < (16 :: nat)" "of_char c mod 16 < (16 :: nat)"
  using nat_of_char_less_256 [of c] by (auto simp: less_mult_imp_div_less)

lemma hex_decode_encode: "hex_decode (hex_encode s) = s"
  by (induction s) (simp_all add: hex_encode_def nibble_value of_char_bound)

lemma hex_encode_chars: "c \<in> set (hex_encode s) \<Longrightarrow> (97 :: nat) \<le> of_char c"
  by (auto simp: hex_encode_def nibble_value of_char_bound)

lemma demo_crypto_ok: "crypto_ok demo_crypto ''SHA1''"
proof -
  have "NUL \<notin> set (hex_encode x)" "CHR '','' \<notin> set (hex_encode x)" for x
    using hex_encode_chars [of _ x] by fastforce+
  moreover have "x \<noteq> [] \<Longrightarrow> hex_encode x \<noteq> []" for x by (auto simp: hex_encode_def)
  ultimately show ?thesis
    by (auto simp: crypto_ok_def demo_crypto_def hex_decode_encode no_nul_def)
qed


subsection \<open>What a successful login has checked\<close>

text \<open>The sessions that any messages and any random numbers lead to.\<close>

inductive scram_reach :: "crypto \<Rightarrow> string \<Rightarrow> string \<Rightarrow> string \<Rightarrow> scram_session \<Rightarrow> bool"
  for C d user pw where
  create: "scram_session_create C d user pw = Some s \<Longrightarrow> scram_reach C d user pw s"
| step: "scram_reach C d user pw s \<Longrightarrow> scram_process C nonce s msg = (status, out, s') \<Longrightarrow>
    scram_reach C d user pw s'"

text \<open>The state before each of the messages of the server.\<close>

definition scram_inv :: "crypto \<Rightarrow> string \<Rightarrow> string \<Rightarrow> string \<Rightarrow> scram_session \<Rightarrow> bool" where
  "scram_inv C d user pw s \<longleftrightarrow>
     digest s = d \<and> username s = user \<and> password s = pw \<and> scram_step s \<le> 2 \<and>
     (1 \<le> scram_step s \<longrightarrow>
        (\<exists>nonce. client_nonce_b64 s = base64_encode C nonce \<and>
           client_first_message_bare s = ''n='' @ user @ '',r='' @ base64_encode C nonce)) \<and>
     (scram_step s = 2 \<longrightarrow>
        (\<exists>server_first full salt64 i. parse_server_first server_first = Some (full, salt64, i) \<and>
           has_prefix full (client_nonce_b64 s) \<and>
           salted_password s = PBKDF2 C d pw (base64_decode C salt64) (to_int32 i) \<and>
           auth_message s = rfc_auth_message (client_first_message_bare s) server_first full))"

lemma process_server_first_cases:
  assumes "process_server_first C s msg = (status, out, s')"
  obtains (failed) x y e where "s' = s\<lparr>salted_password := x, auth_message := y, scram_error := e\<rparr>"
  | (ok) full salt64 i where "parse_server_first msg = Some (full, salt64, i)"
      "has_prefix full (client_nonce_b64 s)"
      "s' = s\<lparr>salted_password := PBKDF2 C (digest s) (password s) (base64_decode C salt64) (to_int32 i),
              auth_message := rfc_auth_message (client_first_message_bare s) msg full,
              scram_step := scram_step s + 1\<rparr>"
proof -
  have same: "s\<lparr>scram_error := e\<rparr> =
      s\<lparr>salted_password := salted_password s, auth_message := auth_message s, scram_error := e\<rparr>" for e
    by simp
  show ?thesis
  proof (cases "parse_server_first msg")
    case None
    with assms show ?thesis
      using failed [OF same [THEN trans [rotated]]] by (auto simp: process_server_first_def)
  next
    case (Some p)
    obtain full salt64 i where p: "p = (full, salt64, i)" by (cases p) auto
    have auth: "client_first_message_bare s @ '','' @ msg @ '','' @ ''c=biws,r='' @ full =
        rfc_auth_message (client_first_message_bare s) msg full"
      by (simp add: rfc_auth_message_def)
    show ?thesis
    proof (cases "has_prefix full (client_nonce_b64 s)")
      case True
      show ?thesis
      proof (cases "SHA C (digest s) (HMAC C (digest s)
          (PBKDF2 C (digest s) (password s) (base64_decode C salt64) (to_int32 i)) ''Client Key'')")
        case None
        with assms Some p True show ?thesis
          by (intro failed) (auto simp: process_server_first_def Let_def)
      next
        case sk: (Some sk)
        from assms have "s' = s\<lparr>salted_password := PBKDF2 C (digest s) (password s) (base64_decode C salt64) (to_int32 i),
              auth_message := rfc_auth_message (client_first_message_bare s) msg full,
              scram_step := scram_step s + 1\<rparr>"
          unfolding process_server_first_def Some p option.case prod.case Let_def auth
          using True sk by simp
        then show ?thesis using ok Some p True by blast
      qed
    next
      case False
      with assms Some p show ?thesis
        using failed [OF same [THEN trans [rotated]]] by (auto simp: process_server_first_def)
    qed
  qed
qed

lemma scram_inv_step:
  assumes inv: "scram_inv C d user pw s" and r: "scram_process C nonce s msg = (status, out, s')"
  shows "scram_inv C d user pw s'"
proof -
  consider "scram_step s = 0" | "scram_step s = 1" | "scram_step s \<ge> 2" by linarith
  then show ?thesis
  proof cases
    case 1
    with inv r show ?thesis
      by (auto simp: scram_process_def process_client_first_def scram_inv_def Let_def split: option.splits)
  next
    case 2
    then have "process_server_first C s msg = (status, out, s')" using r by (simp add: scram_process_def)
    then show ?thesis
      by (cases rule: process_server_first_cases) (use inv 2 in \<open>auto simp: scram_inv_def\<close>)
  next
    case 3
    with r have "s' = s" by (auto simp: scram_process_def split: if_splits)
    with inv show ?thesis by simp
  qed
qed

lemma scram_reach_inv: "scram_reach C d user pw s \<Longrightarrow> scram_inv C d user pw s"
proof (induction rule: scram_reach.induct)
  case (create s)
  then show ?case by (auto simp: scram_session_create_def scram_inv_def split: option.splits)
next
  case (step s nonce msg status out s')
  then show ?case using scram_inv_step by blast
qed



text \<open>The second character of the server's last message is not looked at when the first is \<open>v\<close>.\<close>

lemma server_final_prefix_unchecked:
  "process_server_final C s (CHR ''v'' # c # sig) = process_server_final C s (''v='' @ sig)"
  by (simp add: process_server_final_def)

end
