(* ===== verification/IrcOut.thy ===== *)
theory IrcOut
  imports SendQueue
begin

text \<open>
  What the client sends: the \<open>p_\<close> functions of \<open>src/common/proto-irc.c\<close>. The ones that hand
  one formatted line to \<open>tcp_sendf\<close> are the text of that line, without its CR LF (a few send
  two lines); the ones that label a message or attach the message it answers work on the send
  queue. \<open>irc_join_list\<close> splits the channels to join over several lines.
\<close>

definition crlf :: string where "crlf = [CHR 0x0D, CHR 0x0A]"

definition quote_x01 :: "string \<Rightarrow> string" where
  "quote_x01 s = CHR 0x01 # s @ [CHR 0x01]"

definition irc_join :: "string \<Rightarrow> string \<Rightarrow> string" where
  "irc_join chan key = (if key \<noteq> [] then ''JOIN '' @ chan @ '' '' @ key else ''JOIN '' @ chan)"

definition irc_part :: "string \<Rightarrow> string \<Rightarrow> string" where
  "irc_part chan reason = (if reason \<noteq> [] then ''PART '' @ chan @ '' :'' @ reason else ''PART '' @ chan)"

definition irc_quit :: "string \<Rightarrow> string" where
  "irc_quit reason = (if reason \<noteq> [] then ''QUIT :'' @ reason else ''QUIT'')"

definition irc_set_away :: "string option \<Rightarrow> string" where
  "irc_set_away reason = ''AWAY :'' @ (case reason of Some (c # r) \<Rightarrow> c # r | _ \<Rightarrow> '' '')"

definition irc_kick :: "string \<Rightarrow> string \<Rightarrow> string \<Rightarrow> string" where
  "irc_kick chan nick reason =
     (if reason \<noteq> [] then ''KICK '' @ chan @ '' '' @ nick @ '' :'' @ reason else ''KICK '' @ chan @ '' '' @ nick)"

definition irc_topic :: "string \<Rightarrow> string option \<Rightarrow> string" where
  "irc_topic chan tpc =
     (case tpc of
        None \<Rightarrow> ''TOPIC '' @ chan @ '' :''
      | Some [] \<Rightarrow> ''TOPIC '' @ chan
      | Some t \<Rightarrow> ''TOPIC '' @ chan @ '' :'' @ t)"

definition irc_list_channels :: "bool \<Rightarrow> string \<Rightarrow> int \<Rightarrow> string" where
  "irc_list_channels listargs arg min_users =
     (if arg \<noteq> [] then ''LIST '' @ arg
      else if listargs then ''LIST >'' @ show_int (min_users - 1) @ '',<10000'' else ''LIST'')"

definition irc_cycle :: "string \<Rightarrow> string \<Rightarrow> string list" where
  "irc_cycle chan key = [''PART '' @ chan, ''JOIN '' @ chan @ '' '' @ key]"

definition irc_ping :: "string \<Rightarrow> string \<Rightarrow> string" where
  "irc_ping to timestring =
     (if to \<noteq> [] then ''PRIVMSG '' @ to @ '' :'' @ quote_x01 (''PING '' @ timestring) else ''PING '' @ timestring)"

text \<open>What is handed to \<open>tcp_send_len\<close> for a raw line: in one piece when it fits the buffer.\<close>

definition irc_raw :: "string \<Rightarrow> string list" where
  "irc_raw raw =
     (if raw = [] then [] else if length raw < 4093 then [raw @ crlf] else [raw, crlf])"

subsection \<open>Services\<close>

definition irc_nickserv :: "bool \<Rightarrow> string \<Rightarrow> string \<Rightarrow> string \<Rightarrow> string \<Rightarrow> string" where
  "irc_nickserv msg cmd arg1 arg2 arg3 =
     (if msg then ''PRIVMSG NICKSERV :'' else ''NICKSERV '') @ cmd @ '' '' @ arg1 @ arg2 @ arg3"

subsection \<open>Messages\<close>

text \<open>
  \<open>reply\<close> is the message that the session of the target answers, when there is one; the flag
  says that this state of the session is used up.
\<close>

definition send_message ::
    "int \<Rightarrow> bool \<Rightarrow> string option \<Rightarrow> string \<Rightarrow> string \<Rightarrow> string \<Rightarrow> sendq \<Rightarrow> sendq \<times> string option \<times> bool" where
  "send_message now has_tags reply command target line sq =
     (case (if has_tags then reply else None) of
        Some msgid \<Rightarrow>
          let (sq, label) = tcp_sendf_with_tags now command (Some target) ''+draft/reply'' msgid line sq
          in (sq, label, True)
      | None \<Rightarrow>
          let (sq, label) = tcp_sendf_labeled_tracked now command (Some target) line sq
          in (sq, label, False))"

definition irc_message ::
    "int \<Rightarrow> bool \<Rightarrow> string option \<Rightarrow> string \<Rightarrow> string \<Rightarrow> sendq \<Rightarrow> sendq \<times> string option \<times> bool" where
  "irc_message now has_tags reply chan msg =
     send_message now has_tags reply ''PRIVMSG'' chan (''PRIVMSG '' @ chan @ '' :'' @ msg @ crlf)"

definition irc_action ::
    "int \<Rightarrow> bool \<Rightarrow> string option \<Rightarrow> string \<Rightarrow> string \<Rightarrow> sendq \<Rightarrow> sendq \<times> string option \<times> bool" where
  "irc_action now has_tags reply chan act =
     send_message now has_tags reply ''ACTION'' chan
       (''PRIVMSG '' @ chan @ '' :'' @ quote_x01 (''ACTION '' @ act) @ crlf)"

definition irc_notice :: "int \<Rightarrow> string \<Rightarrow> string \<Rightarrow> sendq \<Rightarrow> sendq \<times> string option" where
  "irc_notice now chan msg =
     tcp_sendf_labeled_tracked now ''NOTICE'' (Some chan) (''NOTICE '' @ chan @ '' :'' @ msg @ crlf)"

definition irc_ctcp :: "int \<Rightarrow> string \<Rightarrow> string \<Rightarrow> sendq \<Rightarrow> sendq \<times> string option" where
  "irc_ctcp now to msg =
     tcp_sendf_labeled_tracked now ''CTCP'' (Some to) (''PRIVMSG '' @ to @ '' :'' @ quote_x01 msg @ crlf)"

definition irc_nctcp :: "string \<Rightarrow> string \<Rightarrow> string" where
  "irc_nctcp to msg = ''NOTICE '' @ to @ '' :'' @ quote_x01 msg"

subsection \<open>Joining many channels\<close>

record join_state =
  jl_first :: bool
  jl_send_keys :: bool
  jl_len :: nat
  jl_chans :: string
  jl_keys :: string

definition join_start :: join_state where
  "join_start = \<lparr>jl_first = True, jl_send_keys = False, jl_len = 9, jl_chans = [], jl_keys = []\<rparr>"

definition irc_join_list_flush :: "join_state \<Rightarrow> string" where
  "irc_join_list_flush st =
     (if jl_send_keys st then ''JOIN '' @ jl_chans st @ '' '' @ jl_keys st else ''JOIN '' @ jl_chans st)"

definition join_append :: "string \<times> string option \<Rightarrow> join_state \<Rightarrow> join_state" where
  "join_append fav st =
     (let st = (if jl_first st then st
                else st\<lparr>jl_len := jl_len st + 2, jl_chans := jl_chans st @ '','', jl_keys := jl_keys st @ '',''\<rparr>);
          st = st\<lparr>jl_chans := jl_chans st @ fst fav\<rparr>;
          st = (case snd fav of
                  Some key \<Rightarrow> st\<lparr>jl_keys := jl_keys st @ key, jl_send_keys := True\<rparr>
                | None \<Rightarrow> st\<lparr>jl_keys := jl_keys st @ ''x''\<rparr>)
      in st\<lparr>jl_first := False\<rparr>)"

fun join_loop :: "(string \<times> string option) list \<Rightarrow> join_state \<Rightarrow> string list" where
  "join_loop [] st = [irc_join_list_flush st]"
| "join_loop (fav # favs) st =
     (let len = jl_len st + length (fst fav) + (case snd fav of None \<Rightarrow> 0 | Some key \<Rightarrow> length key);
          st = st\<lparr>jl_len := len\<rparr>
      in if len \<ge> 512 then irc_join_list_flush st # join_loop favs (join_append fav join_start)
         else join_loop favs (join_append fav st))"

definition irc_join_list :: "(string \<times> string option) list \<Rightarrow> string list" where
  "irc_join_list favorites = join_loop favorites join_start"

subsection \<open>What a server reads from the lines\<close>

text \<open>Channels and keys of a JOIN line, paired by position.\<close>

definition joined :: "string \<Rightarrow> (string \<times> string option) list" where
  "joined line =
     (case split_at (CHR '' '') line of
        [_, chans] \<Rightarrow> map (\<lambda>c. (c, None)) (split_at (CHR '','') chans)
      | [_, chans, keys] \<Rightarrow> zip (split_at (CHR '','') chans) (map Some (split_at (CHR '','') keys))
      | _ \<Rightarrow> [])"

text \<open>A channel without a key gets the key \<open>x\<close> when another one on its line has a key.\<close>

definition asks_for :: "string \<times> string option \<Rightarrow> string \<times> string option \<Rightarrow> bool" where
  "asks_for fav j \<longleftrightarrow> fst j = fst fav \<and>
     (case snd fav of Some key \<Rightarrow> snd j = Some key | None \<Rightarrow> snd j = None \<or> snd j = Some ''x'')"

definition plain_word :: "string \<Rightarrow> bool" where
  "plain_word s \<longleftrightarrow> s \<noteq> [] \<and> CHR '' '' \<notin> set s \<and> CHR '','' \<notin> set s"

definition favs_ok :: "(string \<times> string option) list \<Rightarrow> bool" where
  "favs_ok favs \<longleftrightarrow> (\<forall>(c, k) \<in> set favs. plain_word c \<and> pred_option plain_word k \<and>
     length c + (case k of None \<Rightarrow> 0 | Some key \<Rightarrow> length key) < 503)"

definition key_of :: "string \<times> string option \<Rightarrow> string" where
  "key_of fav = (case snd fav of Some k \<Rightarrow> k | None \<Rightarrow> ''x'')"

text \<open>The state of the loop with the channels \<open>cs\<close> collected since the last flush.\<close>

definition join_holds :: "(string \<times> string option) list \<Rightarrow> join_state \<Rightarrow> bool" where
  "join_holds cs st \<longleftrightarrow>
     jl_first st = (cs = []) \<and> jl_chans st = join_with (CHR '','') (map fst cs) \<and>
     jl_keys st = join_with (CHR '','') (map key_of cs) \<and>
     jl_send_keys st = (\<exists>fav \<in> set cs. snd fav \<noteq> None)"

lemma join_with_snoc: "ws \<noteq> [] \<Longrightarrow> join_with c (ws @ [w]) = join_with c ws @ c # w"
  by (induction c ws rule: join_with.induct) (auto simp: join_with_Cons)

lemma join_holds_append: "join_holds cs st \<Longrightarrow> join_holds (cs @ [fav]) (join_append fav st)"
  by (cases "cs = []"; cases "snd fav")
    (auto simp: join_holds_def join_append_def key_of_def join_with_snoc Let_def)

lemma plain_join:
  "\<forall>w \<in> set ws. plain_word w \<Longrightarrow> ws \<noteq> [] \<Longrightarrow>
   CHR '' '' \<notin> set (join_with (CHR '','') ws) \<and> split_at (CHR '','') (join_with (CHR '','') ws) = ws"
proof (intro conjI)
  assume ws: "\<forall>w \<in> set ws. plain_word w" "ws \<noteq> []"
  show "CHR '' '' \<notin> set (join_with (CHR '','') ws)"
    using ws(1) by (induction "CHR '',''" ws rule: join_with.induct) (auto simp: plain_word_def)
  show "split_at (CHR '','') (join_with (CHR '','') ws) = ws"
    using ws by (intro split_at_join) (auto simp: plain_word_def)
qed

lemma joined_flush:
  assumes holds: "join_holds cs st" and cs: "cs \<noteq> []" and ok: "favs_ok cs"
  shows "list_all2 asks_for cs (joined (irc_join_list_flush st))"
proof -
  have "\<forall>w \<in> set (map fst cs). plain_word w" using ok by (auto simp: favs_ok_def)
  note chans = plain_join [OF this]
  have "\<forall>w \<in> set (map key_of cs). plain_word w"
    using ok by (auto simp: favs_ok_def key_of_def plain_word_def split: option.splits)
  note keys = plain_join [OF this]
  have J: "split_at (CHR '' '') (''JOIN '' @ s) = ''JOIN'' # split_at (CHR '' '') s" for s by simp
  show ?thesis
  proof (cases "jl_send_keys st")
    case True
    have "split_at (CHR '' '') (irc_join_list_flush st) = [''JOIN'', jl_chans st, jl_keys st]"
      using holds chans keys cs True
      by (simp only: irc_join_list_flush_def if_True J) (simp add: split_at_append_sep split_at_no_sep join_holds_def)
    then have "joined (irc_join_list_flush st) = zip (map fst cs) (map Some (map key_of cs))"
      using holds chans keys cs by (simp add: joined_def join_holds_def)
    then show ?thesis
      by (auto simp: list_all2_conv_all_nth asks_for_def key_of_def split: option.splits)
  next
    case False
    have "split_at (CHR '' '') (irc_join_list_flush st) = [''JOIN'', jl_chans st]"
      using holds chans cs False
      by (simp only: irc_join_list_flush_def if_False J) (simp add: split_at_no_sep join_holds_def)
    then have "joined (irc_join_list_flush st) = map (\<lambda>c. (c, None)) (map fst cs)"
      using holds chans cs by (simp add: joined_def join_holds_def)
    moreover have "\<forall>fav \<in> set cs. snd fav = None" using holds False by (simp add: join_holds_def)
    ultimately show ?thesis by (auto simp: list_all2_conv_all_nth asks_for_def)
  qed
qed

lemma join_loop_complete:
  assumes "join_holds cs st" "cs = [] \<longrightarrow> jl_len st = 9 \<and> favs \<noteq> []" "favs_ok (cs @ favs)"
  shows "list_all2 asks_for (cs @ favs) (concat (map joined (join_loop favs st)))"
  using assms
proof (induction favs arbitrary: cs st)
  case Nil
  then show ?case using joined_flush by simp
next
  case (Cons fav favs)
  define len where "len = jl_len st + length (fst fav) + (case snd fav of None \<Rightarrow> 0 | Some key \<Rightarrow> length key)"
  have ok: "favs_ok cs" "favs_ok ([fav] @ favs)" "favs_ok ((cs @ [fav]) @ favs)"
    using Cons.prems(3) by (auto simp: favs_ok_def)
  have holds: "join_holds cs (st\<lparr>jl_len := len\<rparr>)" using Cons.prems(1) by (simp add: join_holds_def)
  show ?case
  proof (cases "len \<ge> 512")
    case True
    have ne: "cs \<noteq> []"
    proof
      assume "cs = []"
      then have "len < 512"
        using Cons.prems(2) ok(2) by (auto simp: len_def favs_ok_def split: option.splits prod.splits)
      with True show False by simp
    qed
    have "join_holds [fav] (join_append fav join_start)"
      using join_holds_append [of "[]" join_start fav] by (simp add: join_holds_def join_start_def)
    from Cons.IH [OF this _ ok(2)] joined_flush [OF holds ne ok(1)] True show ?thesis
      by (auto simp: Let_def intro: list_all2_appendI simp flip: len_def)
  next
    case False
    from Cons.IH [OF join_holds_append [OF holds] _ ok(3)] False show ?thesis
      by (simp add: Let_def flip: len_def)
  qed
qed

text \<open>C19: The lines of \<open>irc_join_list\<close>, read as a server reads them, ask for every favourite
  channel once and in order, each with its own key; a channel without a key asks for none or for
  the filler key \<open>x\<close>.\<close>

theorem join_list_complete:
  assumes "favs_ok favs" "favs \<noteq> []"
  shows "list_all2 asks_for favs (concat (map joined (irc_join_list favs)))"
  using join_loop_complete [of "[]" join_start favs] assms
  by (simp add: irc_join_list_def join_holds_def join_start_def)

theorem join_list_complete_witness:
  "list_all2 asks_for [(''#a'', None), (''#b'', Some ''k'')]
    (concat (map joined (irc_join_list [(''#a'', None), (''#b'', Some ''k'')])))"
  by (rule join_list_complete) (auto simp: favs_ok_def plain_word_def)

text \<open>After a flush the channel that caused it is not counted, so that a line may pass 512 bytes.\<close>

lemma join_list_line_too_long:
  assumes "length a = 250" "length b = 299" "length c = 299"
  shows "\<exists>line \<in> set (irc_join_list [(a, None), (b, None), (c, None)]). length line > 600"
  using assms by (auto simp: irc_join_list_def join_start_def join_append_def irc_join_list_flush_def Let_def)

end
