(* ===== verification/Proto.thy ===== *)
theory Proto
  imports Batch Words Scram IrcOut
begin

text \<open>
  The state that the parts of the protocol code share: the fields of \<open>struct server\<close> that
  \<open>proto-irc.c\<close> and \<open>inbound.c\<close> use beside the sessions and user lists, and the helpers on
  the word arrays.

  \<open>proto\<close> is the state. \<open>env\<close> holds the preferences and the answers of the parts that are
  not modelled (the front end, the chat history, the notify list, the C library). Calls into
  these parts are recorded in the trace of the world, with text events as \<open>Emit\<close> and lines
  for the server as \<open>Send\<close>. The word arrays are functions from the index; \<open>word[PDIWORDS]\<close> is
  NULL, and reading it, or behind a string, is \<open>None\<close>.
\<close>

text \<open>The preferences for a connection, and a network of the server list.\<close>

record conn_prefs =
  irc_nick2 :: string
  irc_nick3 :: string
  irc_user_name :: string
  irc_wallops :: bool
  irc_servernotice :: bool
  irc_invisible :: bool
  irc_hidehost :: bool
  irc_join_delay :: nat

type_synonym favchannel = "string \<times> string option"

record network =
  net_name :: string
  net_user :: "string option"
  net_use_global :: bool
  net_nick2 :: "string option"
  net_pass :: "string option"
  net_commands :: "string list"
  favchanlist :: "favchannel list"

datatype loginmethod =
    LOGIN_DEFAULT | LOGIN_MSG_NICKSERV | LOGIN_NICKSERV | LOGIN_SASL | LOGIN_PASS
  | LOGIN_CHALLENGEAUTH | LOGIN_CUSTOM | LOGIN_SASLEXTERNAL | LOGIN_SASL_SCRAM_SHA_1
  | LOGIN_SASL_SCRAM_SHA_256 | LOGIN_SASL_SCRAM_SHA_512 | LOGIN_SASL_OAUTHBEARER

datatype mech =
    MECH_PLAIN | MECH_EXTERNAL | MECH_SCRAM_SHA_1 | MECH_SCRAM_SHA_256 | MECH_SCRAM_SHA_512
  | MECH_OAUTHBEARER

text \<open>The preferences, and what the other parts answer.\<close>

record env =
  env_prefs :: prefs
  env_now :: int
  env_clib :: clib
  env_ctime :: "int \<Rightarrow> string option"
  env_flood :: flood_prefs
  env_reply_show :: bool
  env_skip_motd :: bool
  env_dcc_ip_from_server :: bool
  env_is_chanwindow :: bool
  env_ban_list_end :: "nat \<Rightarrow> bool"
  env_add_ban_list :: bool
  env_parse_ip :: "string \<Rightarrow> bool option"
  env_is_duplicate :: "string \<Rightarrow> bool"
  env_disconnect_ref :: int
  env_is_in_list :: "string \<Rightarrow> string option \<Rightarrow> bool"
  env_challengeauth_response :: "string \<Rightarrow> string \<Rightarrow> string \<Rightarrow> string"
  env_connect :: conn_prefs
  env_crypto :: crypto
  env_nonce :: "string option"
  env_oauth_refresh :: bool
  env_oauth_encode :: "string \<Rightarrow> string \<Rightarrow> int \<Rightarrow> string option"
  env_network_changed :: bool
  env_has_icon :: bool
  env_plugin :: "nat \<Rightarrow> string \<Rightarrow> (nat \<Rightarrow> string) \<Rightarrow> (nat \<Rightarrow> string) \<Rightarrow> bool"
  env_check_encoding :: "string \<Rightarrow> bool"

text \<open>The capabilities that only switch a feature on.\<close>

record cap_flags =
  have_accnotify :: bool
  have_awaynotify :: bool
  have_echo_message :: bool
  have_chathistory :: bool
  have_multiline :: bool
  have_event_playback :: bool
  have_redact :: bool
  have_account_registration :: bool
  have_metadata :: bool
  have_channel_rename :: bool
  have_pre_away :: bool
  have_extended_isupport :: bool
  have_sasl :: bool

record proto =
  pr_w :: world
  pr_sq :: sendq
  pr_ig :: ig_state
  pr_flood :: "flood \<times> bool"
  pr_caps :: tag_caps
  pr_flags :: cap_flags
  servername :: string
  hostname :: string
  serv_port :: int
  use_ssl :: bool
  accept_invalid_cert :: bool
  ssl_on :: bool
  serv_password :: string
  loginmethod :: loginmethod
  sasl_mech :: mech
  scram :: "scram_session option"
  oauth_access_token :: "string option"
  oauth_token_expires :: int
  oauth_refresh_attempted :: bool
  waiting_on_cap :: bool
  waiting_on_sasl :: bool
  sent_capend :: bool
  sts_upgrade_port :: int
  accreg_before_connect :: bool
  accreg_email_required :: bool
  accreg_custom_account :: bool
  serv_network :: "network option"
  favlist :: "favchannel list"
  nickcount :: int
  joindelay_tag :: bool
  reconnect_away :: bool
  skip_next_userhost :: bool
  skip_next_whois :: bool
  inside_whois :: bool
  doing_dns :: bool
  motd_skipped :: bool
  use_who :: bool

definition pr_serv :: "proto \<Rightarrow> server" where
  "pr_serv st = w_serv (pr_w st)"

text \<open>A change of the world; a handler of \<open>Inbound\<close> that may fail.\<close>

definition on_world :: "(world \<Rightarrow> world) \<Rightarrow> proto \<Rightarrow> proto" where
  "on_world f st = st\<lparr>pr_w := f (pr_w st)\<rparr>"

definition try_world :: "(world \<Rightarrow> world option) \<Rightarrow> proto \<Rightarrow> proto option" where
  "try_world f st = map_option (\<lambda>w. st\<lparr>pr_w := w\<rparr>) (f (pr_w st))"

abbreviation ev :: "string \<Rightarrow> string list \<Rightarrow> proto \<Rightarrow> proto" where
  "ev name args \<equiv> on_world (signal name args)"

abbreviation fn :: "string \<Rightarrow> string list \<Rightarrow> proto \<Rightarrow> proto" where
  "fn name args \<equiv> on_world (call name args)"

abbreviation line_out :: "string \<Rightarrow> proto \<Rightarrow> proto" where
  "line_out text \<equiv> on_world (send_line text)"

type_synonym words = "nat \<Rightarrow> string"

definition no_colon :: "string \<Rightarrow> string" where
  "no_colon s = (if cur s = CHR '':'' then tl s else s)"

text \<open>\<open>trailing_index\<close>, and \<open>STRIP_COLON\<close> at the index it finds.\<close>

definition trailing_index :: "words \<Rightarrow> nat" where
  "trailing_index word_eol =
     (case filter (\<lambda>i. cur (word_eol i) = CHR '':'') [3..<PDIWORDS] of [] \<Rightarrow> PDIWORDS | i # _ \<Rightarrow> i)"

definition strip_trailing :: "words \<Rightarrow> words \<Rightarrow> string option" where
  "strip_trailing word word_eol =
     (let i = trailing_index word_eol in
      if i \<ge> PDIWORDS then None else Some (STRIP_COLON word word_eol i))"

text \<open>
  A pointer behind the first character. The words behind the last one of the line are two 0
  bytes, so that skipping is harmless there; an empty word inside the line (\<open>word_count\<close> words)
  is its terminator, and the pointer is then outside the line.
\<close>

definition skip1 :: "nat \<Rightarrow> words \<Rightarrow> nat \<Rightarrow> string option" where
  "skip1 word_count word i =
     (case word i of [] \<Rightarrow> if i \<le> word_count then None else Some [] | _ # s \<Rightarrow> Some s)"

text \<open>An event in the session \<open>i\<close>, which is its first argument.\<close>

abbreviation ev_in :: "nat \<Rightarrow> string \<Rightarrow> string list \<Rightarrow> proto \<Rightarrow> proto" where
  "ev_in i name args \<equiv> ev name (show_nat i # args)"

end
