(* ===== verification/Login.thy ===== *)
theory Login
  imports Proto
begin

text \<open>
  Logging in: the registration lines of \<open>irc_login\<close>, the negotiation of capabilities, SASL,
  and what follows the welcome of a server (\<open>src/common/inbound.c\<close>, \<open>server.c\<close>,
  \<open>proto-irc.c\<close>). OpenSSL and the web socket library are compiled in.

  \<open>end_of_motd\<close> is the field of the send queue, whose throttling depends on it;
  \<open>have_labeled_response\<close> is one flag of the server that both the queue and the parser of the
  tags read, and so is kept in both records. \<open>None\<close> is the use of a NULL pointer.
\<close>

definition on_serv :: "(server \<Rightarrow> server) \<Rightarrow> proto \<Rightarrow> proto" where
  "on_serv f st = on_world (\<lambda>w. w\<lparr>w_serv := f (w_serv w)\<rparr>) st"

definition on_flags :: "(cap_flags \<Rightarrow> cap_flags) \<Rightarrow> proto \<Rightarrow> proto" where
  "on_flags f st = st\<lparr>pr_flags := f (pr_flags st)\<rparr>"

definition on_caps :: "(tag_caps \<Rightarrow> tag_caps) \<Rightarrow> proto \<Rightarrow> proto" where
  "on_caps f st = st\<lparr>pr_caps := f (pr_caps st)\<rparr>"

subsection \<open>Starting over\<close>

text \<open>\<open>server_set_defaults\<close>: what it resets beside the ISUPPORT fields.\<close>

definition reset_defaults :: "proto \<Rightarrow> proto" where
  "reset_defaults st =
     (on_serv server_set_defaults
        (on_flags (\<lambda>f. f\<lparr>have_awaynotify := False, have_accnotify := False, have_sasl := False\<rparr>)
          (on_caps (\<lambda>c. c\<lparr>have_idmsg := False, have_account_tag := False, have_server_time := False\<rparr>) st)))
     \<lparr>scram := None, sasl_mech := MECH_PLAIN, nickcount := 1, sent_capend := False, use_who := True,
      oauth_refresh_attempted := False,
      pr_sq := (pr_sq st)\<lparr>end_of_motd := False, stale_sweep_timer := False, pending_labels := [],
                  active_batches := []\<rparr>\<rparr>"

definition irc_login :: "string \<Rightarrow> string \<Rightarrow> proto \<Rightarrow> proto" where
  "irc_login user realname st =
     (let st = (line_out ''CAP LS 302'' st)\<lparr>sent_capend := False\<rparr>;
          pw = serv_password st;
          st = (if pw \<noteq> [] \<and> loginmethod st = LOGIN_PASS
                then line_out (''PASS '' @ (if cur pw = CHR '':'' \<or> CHR '' '' \<in> set pw then '':'' else []) @ pw) st
                else st)
      in line_out (''NICK '' @ serv_nick (pr_serv st) @ crlf @ ''USER '' @ user @ '' 0 * :'' @ realname) st)"

definition cap_end :: "proto \<Rightarrow> proto" where
  "cap_end st = line_out ''CAP END'' (st\<lparr>sent_capend := True\<rparr>)"

subsection \<open>Capabilities\<close>

definition sasl_mechanisms :: "mech \<Rightarrow> string" where
  "sasl_mechanisms m =
     (case m of MECH_PLAIN \<Rightarrow> ''PLAIN'' | MECH_EXTERNAL \<Rightarrow> ''EXTERNAL'' | MECH_SCRAM_SHA_1 \<Rightarrow> ''SCRAM-SHA-1''
      | MECH_SCRAM_SHA_256 \<Rightarrow> ''SCRAM-SHA-256'' | MECH_SCRAM_SHA_512 \<Rightarrow> ''SCRAM-SHA-512''
      | MECH_OAUTHBEARER \<Rightarrow> ''OAUTHBEARER'')"

text \<open>The mechanism that goes with a login method.\<close>

definition login_mech :: "loginmethod \<Rightarrow> mech option" where
  "login_mech l =
     (case l of LOGIN_SASLEXTERNAL \<Rightarrow> Some MECH_EXTERNAL | LOGIN_SASL_SCRAM_SHA_1 \<Rightarrow> Some MECH_SCRAM_SHA_1
      | LOGIN_SASL_SCRAM_SHA_256 \<Rightarrow> Some MECH_SCRAM_SHA_256 | LOGIN_SASL_SCRAM_SHA_512 \<Rightarrow> Some MECH_SCRAM_SHA_512
      | LOGIN_SASL_OAUTHBEARER \<Rightarrow> Some MECH_OAUTHBEARER | _ \<Rightarrow> None)"

definition toggle_sasl :: "bool \<Rightarrow> proto \<Rightarrow> proto" where
  "toggle_sasl enable st =
     (let st = on_flags (have_sasl_update (\<lambda>_. enable)) st in
      if enable then
        let st = (case login_mech (loginmethod st) of None \<Rightarrow> st | Some m \<Rightarrow> st\<lparr>sasl_mech := m\<rparr>)
        in line_out (''AUTHENTICATE '' @ sasl_mechanisms (sasl_mech st)) st
      else st)"

definition toggle_cap :: "bool \<Rightarrow> proto \<Rightarrow> string \<Rightarrow> proto" where
  "toggle_cap b st ext =
     (if ext = ''solanum.chat/identify-msg'' then on_caps (have_idmsg_update (\<lambda>_. b)) st
      else if ext = ''multi-prefix'' then on_serv (have_namesx_update (\<lambda>_. b)) st
      else if ext = ''account-notify'' then on_flags (have_accnotify_update (\<lambda>_. b)) st
      else if ext = ''extended-join'' then on_serv (have_extjoin_update (\<lambda>_. b)) st
      else if ext = ''userhost-in-names'' then on_serv (have_uhnames_update (\<lambda>_. b)) st
      else if ext = ''server-time'' \<or> ext = ''znc.in/server-time'' \<or> ext = ''znc.in/server-time-iso''
      then on_caps (have_server_time_update (\<lambda>_. b)) st
      else if ext = ''away-notify'' then on_flags (have_awaynotify_update (\<lambda>_. b)) st
      else if ext = ''account-tag'' then on_caps (have_account_tag_update (\<lambda>_. b)) st
      else if ext = ''batch'' then on_caps (have_batch_update (\<lambda>_. b)) st
      else if ext = ''message-tags'' then on_caps (have_message_tags_update (\<lambda>_. b)) st
      else if ext = ''echo-message'' then on_flags (have_echo_message_update (\<lambda>_. b)) st
      else if ext = ''labeled-response''
      then (on_caps (have_labels_update (\<lambda>_. b)) st)\<lparr>pr_sq := (pr_sq st)\<lparr>have_labeled_response := b\<rparr>\<rparr>
      else if ext = ''draft/chathistory'' then on_flags (have_chathistory_update (\<lambda>_. b)) st
      else if ext = ''draft/multiline'' then on_flags (have_multiline_update (\<lambda>_. b)) st
      else if ext = ''draft/event-playback'' then on_flags (have_event_playback_update (\<lambda>_. b)) st
      else if ext = ''draft/read-marker'' then on_serv (have_read_marker_update (\<lambda>_. b)) st
      else if ext = ''draft/message-redaction'' then on_flags (have_redact_update (\<lambda>_. b)) st
      else if ext = ''draft/account-registration''
      then on_flags (have_account_registration_update (\<lambda>_. b)) st
      else if ext = ''draft/metadata-2'' then on_flags (have_metadata_update (\<lambda>_. b)) st
      else if ext = ''draft/channel-rename'' then on_flags (have_channel_rename_update (\<lambda>_. b)) st
      else if ext = ''draft/pre-away'' then on_flags (have_pre_away_update (\<lambda>_. b)) st
      else if ext = ''draft/extended-isupport'' then
        let st = on_flags (have_extended_isupport_update (\<lambda>_. b)) st in if b then line_out ''ISUPPORT'' st else st
      else if ext = ''sasl'' then toggle_sasl b st
      else st)"

definition inbound_toggle_caps :: "string \<Rightarrow> bool \<Rightarrow> proto \<Rightarrow> proto" where
  "inbound_toggle_caps extensions enable st =
     foldl (toggle_cap enable) st (g_strsplit extensions (CHR '' ''))"

definition inbound_cap_ack :: "string \<Rightarrow> string \<Rightarrow> proto \<Rightarrow> proto" where
  "inbound_cap_ack nick extensions st =
     inbound_toggle_caps extensions True (ev ''CAPACK'' [nick, extensions] st)"

definition inbound_cap_del :: "string \<Rightarrow> string \<Rightarrow> proto \<Rightarrow> proto" where
  "inbound_cap_del nick extensions st =
     inbound_toggle_caps extensions False (ev ''CAPDEL'' [nick, extensions] st)"

definition inbound_cap_list :: "string \<Rightarrow> string \<Rightarrow> proto \<Rightarrow> proto" where
  "inbound_cap_list nick extensions st =
     ev ''CAPACK'' [nick, if has_prefix extensions ''* '' then no_colon (drop 2 extensions) else extensions] st"

definition supported_caps :: "string list" where
  "supported_caps =
     [''multi-prefix'', ''away-notify'', ''account-notify'', ''extended-join'', ''server-time'',
      ''userhost-in-names'', ''cap-notify'', ''chghost'', ''setname'', ''invite-notify'', ''account-tag'',
      ''extended-monitor'', ''batch'', ''message-tags'', ''echo-message'', ''labeled-response'',
      ''draft/chathistory'', ''draft/multiline'', ''draft/event-playback'', ''draft/read-marker'',
      ''draft/message-redaction'', ''draft/account-registration'', ''draft/metadata-2'',
      ''draft/channel-rename'', ''draft/pre-away'', ''znc.in/server-time-iso'', ''znc.in/server-time'',
      ''twitch.tv/membership'', ''solanum.chat/identify-msg'', ''draft/extended-isupport'']"

definition get_supported_mech :: "loginmethod \<Rightarrow> string \<Rightarrow> mech option" where
  "get_supported_mech l list =
     (let m = (case login_mech l of Some m \<Rightarrow> m | None \<Rightarrow> MECH_PLAIN)
      in if sasl_mechanisms m \<in> set (g_strsplit list (CHR '','')) then Some m else None)"

definition wants_sasl :: "proto \<Rightarrow> bool" where
  "wants_sasl st \<longleftrightarrow>
     (loginmethod st \<in> {LOGIN_SASL, LOGIN_SASL_SCRAM_SHA_1, LOGIN_SASL_SCRAM_SHA_256, LOGIN_SASL_SCRAM_SHA_512}
        \<and> serv_password st \<noteq> []) \<or>
     loginmethod st = LOGIN_SASLEXTERNAL \<or> loginmethod st = LOGIN_SASL_OAUTHBEARER"

text \<open>\<open>g_strlcat\<close> into the buffer of 500 bytes.\<close>

definition cap_cat :: "string \<Rightarrow> string \<Rightarrow> string" where
  "cap_cat buffer s = take 499 (buffer @ s)"

definition sts_token :: "int \<times> int \<Rightarrow> string \<Rightarrow> int \<times> int" where
  "sts_token acc t =
     (if has_prefix t ''port='' then (atoi (drop 5 t), snd acc)
      else if has_prefix t ''duration='' then (fst acc, atoi (drop 9 t)) else acc)"

definition sts_policy :: "string \<Rightarrow> proto \<Rightarrow> proto" where
  "sts_policy value st =
     (let (port, duration) = foldl sts_token (0, 0) (g_strsplit value (CHR '','')) in
      if port > 0 then
        let st = fn ''sts_policy_add'' [hostname st, show_int port, show_int duration] st in
        if \<not> ssl_on st
        then ev ''SERVTEXT'' [''STS policy received - upgrading to TLS''] (st\<lparr>sts_upgrade_port := port\<rparr>)
        else st
      else st)"

definition accreg_token :: "proto \<Rightarrow> string \<Rightarrow> proto" where
  "accreg_token st t =
     (if t = ''before-connect'' then st\<lparr>accreg_before_connect := True\<rparr>
      else if t = ''email-required'' then st\<lparr>accreg_email_required := True\<rparr>
      else if t = ''custom-account-name'' then st\<lparr>accreg_custom_account := True\<rparr> else st)"

definition multiline_token :: "proto \<Rightarrow> string \<Rightarrow> proto" where
  "multiline_token st t =
     (if has_prefix t ''max-bytes='' then on_serv (multiline_max_bytes_update (\<lambda>_. atoi (drop 10 t))) st
      else if has_prefix t ''max-lines='' then on_serv (multiline_max_lines_update (\<lambda>_. atoi (drop 10 t))) st
      else st)"

text \<open>One entry of CAP LS; the state has the request written so far and whether it is wanted.\<close>

definition cap_offer :: "string \<times> bool \<times> proto \<Rightarrow> string \<Rightarrow> string \<times> bool \<times> proto" where
  "cap_offer acc extension =
     (case acc of
        (buffer, want, st) \<Rightarrow>
          let ext = upto_chr extension (CHR ''='');
              value = map_option tl (strchr extension (CHR ''=''))
          in if ext = ''sasl'' \<and> wants_sasl st then
               (case value of
                  None \<Rightarrow> (cap_cat buffer ''sasl '', True, st\<lparr>waiting_on_sasl := True\<rparr>)
                | Some v \<Rightarrow>
                    (case get_supported_mech (loginmethod st) v of
                       None \<Rightarrow> acc
                     | Some m \<Rightarrow> (cap_cat buffer ''sasl '', True, st\<lparr>sasl_mech := m, waiting_on_sasl := True\<rparr>)))
             else if ext = ''sts'' \<and> value \<noteq> None then (buffer, want, sts_policy (the value) st)
             else
               let tokens = (case value of None \<Rightarrow> [] | Some v \<Rightarrow> g_strsplit v (CHR '',''));
                   st = (if ext = ''draft/account-registration'' then foldl accreg_token st tokens else st);
                   st = (if ext = ''draft/multiline'' then foldl multiline_token st tokens else st)
               in if ext \<in> set supported_caps then (cap_cat (cap_cat buffer ext) '' '', True, st)
                  else (buffer, want, st))"

definition sts_reconnect :: "proto \<Rightarrow> proto" where
  "sts_reconnect st =
     (let port = sts_upgrade_port st in
      fn ''connect'' [hostname st, show_int port] (fn ''disconnect'' []
        (st\<lparr>sts_upgrade_port := 0, sent_capend := True, use_ssl := True, accept_invalid_cert := False,
            serv_port := port\<rparr>)))"

definition g_strchomp :: "string \<Rightarrow> string" where
  "g_strchomp s = rev (dropWhile is_space (rev s))"

definition inbound_cap_ls :: "string \<Rightarrow> string \<Rightarrow> proto \<Rightarrow> proto" where
  "inbound_cap_ls nick extensions_str st =
     (let unfinished = has_prefix extensions_str ''* '';
          exts = (if unfinished then no_colon (drop 2 extensions_str) else extensions_str);
          st = ev ''CAPLIST'' [nick, exts] (st\<lparr>waiting_on_cap := unfinished\<rparr>);
          (buffer, want, st) = foldl cap_offer (''CAP REQ :'', False, st) (g_strsplit exts (CHR '' ''));
          st = (if want then line_out (g_strchomp buffer) (ev ''CAPREQ'' [drop 9 buffer] st) else st)
      in if \<not> waiting_on_sasl st \<and> \<not> waiting_on_cap st
         then if sts_upgrade_port st > 0
              then sts_reconnect (ev ''SERVTEXT'' [''Reconnecting with TLS due to STS policy...''] st)
              else cap_end st
         else st)"

definition inbound_cap_nak :: "string \<Rightarrow> proto \<Rightarrow> proto" where
  "inbound_cap_nak extensions_str st =
     (let st = (if ''sasl'' \<in> set (g_strsplit extensions_str (CHR '' '')) then st\<lparr>waiting_on_sasl := False\<rparr> else st)
      in if \<not> waiting_on_cap st \<and> \<not> waiting_on_sasl st \<and> \<not> sent_capend st
         then if sts_upgrade_port st > 0 then sts_reconnect st else cap_end st
         else st)"

subsection \<open>SASL\<close>

function sasl_chunks :: "string \<Rightarrow> string list" where
  "sasl_chunks s = (if s = [] then [] else take 400 s # sasl_chunks (drop 400 s))"
  by pat_completeness auto
termination by (relation "measure length") auto

declare sasl_chunks.simps [simp del]

text \<open>The buffer handed to \<open>tcp_send_len\<close> in one piece.\<close>

definition sasl_send_authenticate :: "string \<Rightarrow> string" where
  "sasl_send_authenticate encoded =
     concat (map (\<lambda>c. ''AUTHENTICATE '' @ c @ crlf) (sasl_chunks encoded)) @
     (if length encoded mod 400 = 0 then ''AUTHENTICATE +'' @ crlf else [])"

definition encode_sasl_pass_plain :: "crypto \<Rightarrow> string \<Rightarrow> string \<Rightarrow> string" where
  "encode_sasl_pass_plain C user pass = base64_encode C (user @ NUL # user @ NUL # pass)"

definition send_sasl :: "string \<Rightarrow> proto \<Rightarrow> proto" where
  "send_sasl encoded = on_world (w_emit (Send (sasl_send_authenticate encoded)))"

definition plain_authenticate :: "env \<Rightarrow> string \<Rightarrow> string \<Rightarrow> proto \<Rightarrow> proto" where
  "plain_authenticate e user pw = send_sasl (encode_sasl_pass_plain (env_crypto e) user pw)"

definition scram_authenticate :: "env \<Rightarrow> string \<Rightarrow> string \<Rightarrow> string \<Rightarrow> string \<Rightarrow> proto \<Rightarrow> proto" where
  "scram_authenticate e data dig user pw st =
     (case (case scram st of Some s \<Rightarrow> Some s | None \<Rightarrow> scram_session_create (env_crypto e) dig user pw) of
        None \<Rightarrow>
          line_out ''AUTHENTICATE *'' (fn ''PrintText'' [''Could not create SCRAM session with digest '' @ dig] st)
      | Some s \<Rightarrow>
          let decoded = upto_chr (base64_decode (env_crypto e) data) NUL;
              (status, out, s) = scram_process (env_crypto e) (env_nonce e) s decoded;
              st = st\<lparr>scram := Some s\<rparr>
          in (case status of
                SCRAM_IN_PROGRESS \<Rightarrow>
                  line_out (''AUTHENTICATE '' @ base64_encode (env_crypto e) (case out of None \<Rightarrow> [] | Some m \<Rightarrow> m)) st
              | SCRAM_SUCCESS \<Rightarrow> (line_out ''AUTHENTICATE +'' st)\<lparr>scram := None\<rparr>
              | SCRAM_ERROR \<Rightarrow>
                  let st = line_out ''AUTHENTICATE *'' st;
                      st = (case scram_error s of
                              None \<Rightarrow> st
                            | Some err \<Rightarrow> fn ''PrintText'' [''SASL SCRAM authentication failed: '' @ err] st)
                  in st\<lparr>scram := None\<rparr>))"

definition oauth_authenticate :: "env \<Rightarrow> proto \<Rightarrow> proto \<times> bool" where
  "oauth_authenticate e st =
     (case oauth_access_token st of
        Some (c # token) \<Rightarrow>
          if oauth_token_expires st > 0 \<and> env_now e \<ge> oauth_token_expires st
          then (line_out ''AUTHENTICATE *'' (fn ''PrintText'' [''OAuth: Access token has expired.''] st), False)
          else
            (case env_oauth_encode e (c # token) (servername st) (serv_port st) of
               None \<Rightarrow> (line_out ''AUTHENTICATE *'' (fn ''PrintText'' [''OAuth: Failed to encode''] st), False)
             | Some encoded \<Rightarrow> (send_sasl encoded st, True))
      | _ \<Rightarrow> (line_out ''AUTHENTICATE *'' (fn ''PrintText'' [''OAuth: No access token available.''] st), False))"

text \<open>\<open>serv->network\<close> is used without a check: \<open>None\<close> for a server that is in no network.\<close>

definition inbound_sasl_authenticate :: "env \<Rightarrow> string \<Rightarrow> proto \<Rightarrow> proto option" where
  "inbound_sasl_authenticate e data st =
     (if CHR '','' \<in> set data then Some st
      else
        (case serv_network st of
           None \<Rightarrow> None
         | Some net \<Rightarrow>
             let user = (case net_user net of
                           Some u \<Rightarrow> if net_use_global net then irc_user_name (env_connect e) else u
                         | None \<Rightarrow> irc_user_name (env_connect e));
                 announce = ev ''SASLAUTH'' [user, sasl_mechanisms (sasl_mech st)];
                 pw = serv_password st
             in Some (case sasl_mech st of
                  MECH_PLAIN \<Rightarrow> announce (plain_authenticate e user pw st)
                | MECH_EXTERNAL \<Rightarrow> announce (line_out ''AUTHENTICATE +'' st)
                | MECH_SCRAM_SHA_1 \<Rightarrow> scram_authenticate e data ''SHA1'' user pw st
                | MECH_SCRAM_SHA_256 \<Rightarrow> scram_authenticate e data ''SHA256'' user pw st
                | MECH_SCRAM_SHA_512 \<Rightarrow> scram_authenticate e data ''SHA512'' user pw st
                | MECH_OAUTHBEARER \<Rightarrow>
                    (let (st, sent) = oauth_authenticate e st in if sent then announce st else st))))"

definition inbound_sasl_error :: "proto \<Rightarrow> proto" where
  "inbound_sasl_error st = line_out ''AUTHENTICATE *'' (st\<lparr>scram := None\<rparr>)"

definition inbound_sasl_oauth_refresh :: "env \<Rightarrow> proto \<Rightarrow> proto \<times> bool" where
  "inbound_sasl_oauth_refresh e st =
     (if serv_network st = None \<or> oauth_refresh_attempted st then (st, False)
      else
        (fn ''oauth_refresh_token'' []
           (fn ''PrintText'' [''OAuth: SASL authentication failed, attempting token refresh...'']
              (st\<lparr>oauth_refresh_attempted := True\<rparr>)), env_oauth_refresh e))"

text \<open>The end of a SASL exchange, by the numerics 903 to 907 or by a failed refresh.\<close>

definition sasl_done :: "proto \<Rightarrow> proto" where
  "sasl_done st =
     (let st = st\<lparr>waiting_on_sasl := False\<rparr> in if sent_capend st then st else cap_end st)"

text \<open>The numerics 900 to 908.\<close>

definition sasl_response :: "nat \<Rightarrow> words \<Rightarrow> words \<Rightarrow> proto \<Rightarrow> proto option" where
  "sasl_response wc word word_eol st =
     map_option (\<lambda>t. ev_in (w_server_sess (pr_w st)) ''SASLRESPONSE'' [word 1, word 2, word 3, t] st)
       (skip1 wc word_eol 4)"

definition numeric_sasl :: "env \<Rightarrow> nat \<Rightarrow> nat \<Rightarrow> words \<Rightarrow> words \<Rightarrow> proto \<Rightarrow> proto option" where
  "numeric_sasl e n wc word word_eol st =
     (if n = 900 then
        map_option (\<lambda>t. ev_in (w_server_sess (pr_w st)) ''SERVTEXT'' [t, word 1, word 2] st) (skip1 wc word_eol 6)
      else if n = 908 then Some st
      else if n = 904 then
        let (st, refreshing) =
              (if sasl_mech st = MECH_OAUTHBEARER then inbound_sasl_oauth_refresh e st else (st, False))
        in if refreshing then sasl_response wc word word_eol st
           else map_option sasl_done (sasl_response wc word word_eol (inbound_sasl_error st))
      else map_option sasl_done (sasl_response wc word word_eol st))"

text \<open>The answer to the refresh: a token with its expiry, or an error.\<close>

definition oauth_sasl_retry_cb :: "env \<Rightarrow> (string \<times> int) option \<Rightarrow> string \<Rightarrow> proto \<Rightarrow> proto option" where
  "oauth_sasl_retry_cb e token err st =
     (case token of
        None \<Rightarrow> Some (sasl_done (inbound_sasl_error (fn ''PrintText'' [''OAuth: Token refresh failed: '' @ err] st)))
      | Some (access, expires) \<Rightarrow>
          inbound_sasl_authenticate e ''+''
            (fn ''PrintText'' [''OAuth: Token refreshed, retrying authentication...'']
              (st\<lparr>oauth_access_token := Some access, oauth_token_expires := expires\<rparr>)))"

subsection \<open>After the welcome\<close>

definition server_set_name :: "string \<Rightarrow> proto \<Rightarrow> proto option" where
  "server_set_name name st =
     (let name = (if name = [] then hostname st else name); i = w_server_sess (pr_w st) in
      case (safe_strcpy name 128,
            safe_strcpy (case serv_network st of None \<Rightarrow> name | Some net \<Rightarrow> net_name net) CHANLEN) of
        (Some sname, Some chan) \<Rightarrow>
          map_option
            (\<lambda>st. if sess_type (sess_at (pr_w st) i) = SESS_SERVER
                  then fn ''fe_set_channel'' [] (on_world (upd_session i (\<lambda>s. s\<lparr>channel := chan\<rparr>)) st) else st)
            (try_world (each_session (\<lambda>i w. Some (w_emit Fe_set_title w))) (st\<lparr>servername := sname\<rparr>))
      | _ \<Rightarrow> None)"

text \<open>
  \<open>inbound_newnick (serv, serv->nick, nick)\<close>: the old nick is the buffer that the new one is
  copied into, so that the lists are searched for the new one.
\<close>

definition login_nick :: "string \<Rightarrow> world \<Rightarrow> world option" where
  "login_nick nick w =
     (case safe_strcpy nick NICKLEN of
        None \<Rightarrow> None
      | Some n \<Rightarrow>
          map_option (\<lambda>w. call ''fe_set_nick'' [nick] (call ''dcc_change_nick'' [n, nick] w))
            (each_session (newnick_session True n nick True) (w\<lparr>w_serv := (w_serv w)\<lparr>serv_nick := n\<rparr>\<rparr>)))"

definition inbound_login_start :: "nat \<Rightarrow> string \<Rightarrow> string \<Rightarrow> proto \<Rightarrow> proto option" where
  "inbound_login_start i nick servname st =
     (case try_world (login_nick nick) st of
        None \<Rightarrow> None
      | Some st \<Rightarrow>
          (case server_set_name servname st of
             None \<Rightarrow> None
           | Some st \<Rightarrow>
               let st = (if sess_type (sess_at (pr_w st) i) = SESS_SERVER then fn ''log_open_or_close'' [] st else st)
               in Some (if reconnect_away st
                        then (fn ''handle_command'' [''away''] st)\<lparr>reconnect_away := False\<rparr> else st)))"

definition set_default_modes :: "env \<Rightarrow> proto \<Rightarrow> proto" where
  "set_default_modes e st =
     (let c = env_connect e;
          modes = (if irc_wallops c then ''w'' else []) @ (if irc_servernotice c then ''s'' else []) @
                  (if irc_invisible c then ''i'' else []) @ (if irc_hidehost c then ''x'' else [])
      in if modes \<noteq> [] then line_out (''MODE '' @ serv_nick (pr_serv st) @ '' +'' @ modes) st else st)"

definition inbound_next_nick :: "env \<Rightarrow> string \<Rightarrow> bool \<Rightarrow> proto \<Rightarrow> proto" where
  "inbound_next_nick e nick err st =
     (let st = st\<lparr>nickcount := nickcount st + 1\<rparr>;
          take_nick = (\<lambda>newnick st. ev (if err then ''NICKERROR'' else ''NICKCLASH'') [nick, newnick]
                          (line_out (''NICK '' @ newnick) st))
      in if nickcount st = 2 then
           take_nick (case serv_network st of
                        None \<Rightarrow> irc_nick2 (env_connect e)
                      | Some net \<Rightarrow>
                          (case net_nick2 net of
                             Some n \<Rightarrow> if net_use_global net then irc_nick2 (env_connect e) else n
                           | None \<Rightarrow> irc_nick2 (env_connect e))) st
         else if nickcount st = 3 then take_nick (irc_nick3 (env_connect e)) st
         else ev ''NICKFAIL'' [] st)"

text \<open>The loop over the sessions of a reconnected server: the channels to join again.\<close>

definition favchan_find :: "network option \<Rightarrow> string \<Rightarrow> favchannel option" where
  "favchan_find net chan =
     (case net of None \<Rightarrow> None | Some n \<Rightarrow> find (\<lambda>f. g_ascii_strcasecmp (fst f) chan = 0) (favchanlist n))"

definition rejoin_session :: "network option \<Rightarrow> session \<Rightarrow> (session \<times> favchannel) option" where
  "rejoin_session net s =
     (let s = s\<lparr>waitchannel := willjoinchannel s, willjoinchannel := []\<rparr>
      in map_option
           (\<lambda>s. (s, (waitchannel s, if channelkey s \<noteq> [] then Some (channelkey s) else None)))
           (case favchan_find net (waitchannel s) of
              Some (_, Some key) \<Rightarrow>
                if channelkey s = [] then map_option (\<lambda>k. s\<lparr>channelkey := k\<rparr>) (safe_strcpy key 64) else Some s
            | _ \<Rightarrow> Some s))"

fun rejoin_loop :: "network option \<Rightarrow> nat list \<Rightarrow> world \<Rightarrow> favchannel list \<Rightarrow> (world \<times> favchannel list) option" where
  "rejoin_loop net [] w chans = Some (w, chans)"
| "rejoin_loop net (i # is) w chans =
     (if is_serv w i \<and> willjoinchannel (sess_at w i) \<noteq> [] then
        (case rejoin_session net (sess_at w i) of
           None \<Rightarrow> None
         | Some (s, fav) \<Rightarrow> rejoin_loop net is (put_session i s w) (chans @ [fav]))
      else rejoin_loop net is w chans)"

definition check_autojoin_channels :: "proto \<Rightarrow> proto option" where
  "check_autojoin_channels st =
     (case rejoin_loop (serv_network st) [0..<length (w_sessions (pr_w st))] (pr_w st) [] of
        None \<Rightarrow> None
      | Some (w, chans) \<Rightarrow>
          let st = st\<lparr>pr_w := w\<rparr>;
              favs = (if chans \<noteq> [] then chans else favlist st);
              st = foldl (\<lambda>st l. line_out l st) st (if favs \<noteq> [] then irc_join_list favs else []);
              joined = (if chans \<noteq> [] then length chans else if favlist st \<noteq> [] then 1 else 0)
          in Some (fn ''fe_server_event'' [''LOGGEDIN'', show_nat joined] (st\<lparr>joindelay_tag := False\<rparr>)))"

definition inbound_nickserv_login :: "loginmethod \<Rightarrow> bool" where
  "inbound_nickserv_login l \<longleftrightarrow> l \<in> {LOGIN_MSG_NICKSERV, LOGIN_NICKSERV, LOGIN_CHALLENGEAUTH}"

definition irc_ns_identify :: "string \<Rightarrow> proto \<Rightarrow> proto" where
  "irc_ns_identify pass st =
     (if loginmethod st = LOGIN_CHALLENGEAUTH then line_out ''PRIVMSG Q@CServe.quakenet.org :CHALLENGE'' st
      else line_out (irc_nickserv (loginmethod st = LOGIN_MSG_NICKSERV) ''IDENTIFY'' pass [] []) st)"

text \<open>The commands of the network run in between: what they change is \<open>env_network_changed\<close>.\<close>

definition end_of_motd_actions :: "env \<Rightarrow> proto \<Rightarrow> (proto \<times> bool) option" where
  "end_of_motd_actions e st =
     (let st = st\<lparr>pr_sq := (pr_sq st)\<lparr>end_of_motd := True\<rparr>\<rparr>;
          st = (if env_dcc_ip_from_server e \<and> use_who st
                then line_out (''USERHOST '' @ serv_nick (pr_serv st)) (st\<lparr>skip_next_userhost := True\<rparr>) else st);
          st = set_default_modes e st;
          net = serv_network st;
          st = (case net of
                  None \<Rightarrow> st
                | Some n \<Rightarrow> foldl (\<lambda>st c. fn ''handle_command'' [if cur c = CHR ''/'' then tl c else c] st) st (net_commands n))
      in if net \<noteq> None \<and> env_network_changed e then Some (st, False)
         else
           let pass = (case net of
                         Some n \<Rightarrow> if inbound_nickserv_login (loginmethod st) then net_pass n else None
                       | None \<Rightarrow> None);
               st = (case pass of None \<Rightarrow> st | Some p \<Rightarrow> irc_ns_identify p st);
               delayed = (net \<noteq> None \<and> irc_join_delay (env_connect e) > 0 \<and>
                          (pass \<noteq> None \<or> net_commands (the net) \<noteq> []))
           in map_option
                (\<lambda>st.
                   let st = (if supports_watch (pr_serv st) \<or> supports_monitor (pr_serv st)
                             then fn ''notify_send_watches'' [] st else st);
                       st = (if network_icon_url (pr_serv st) = None \<and> env_has_icon e
                             then fn ''network_icon_clear_cache'' [] st else st)
                   in (fn ''chathistory_request_targets_on_reconnect'' [] st, True))
                (if delayed then Some (st\<lparr>joindelay_tag := True\<rparr>) else check_autojoin_channels st))"

definition inbound_login_end :: "env \<Rightarrow> string \<Rightarrow> proto \<Rightarrow> proto option" where
  "inbound_login_end e text st =
     (case (if end_of_motd (pr_sq st) then Some (st, True) else end_of_motd_actions e st) of
        None \<Rightarrow> None
      | Some (st, False) \<Rightarrow> Some st
      | Some (st, True) \<Rightarrow>
          Some (if env_skip_motd e \<and> \<not> motd_skipped st then ev ''MOTDSKIP'' [] (st\<lparr>motd_skipped := True\<rparr>)
                else ev ''MOTD'' [text] st))"

definition inbound_identified :: "proto \<Rightarrow> proto option" where
  "inbound_identified st =
     (if joindelay_tag st then check_autojoin_channels (fn ''fe_timeout_remove'' [] (st\<lparr>joindelay_tag := False\<rparr>))
      else Some st)"

text \<open>\<open>inbound_foundip\<close>; \<open>env_parse_ip\<close> says whether a text is an address, and an IPv4 one.\<close>

definition inbound_foundip :: "env \<Rightarrow> string \<Rightarrow> proto \<Rightarrow> proto" where
  "inbound_foundip e ip st =
     (case env_parse_ip e ip of
        Some True \<Rightarrow> ev ''FOUNDIP'' [ip] (fn ''set_dcc_ip'' [ip] st)
      | Some False \<Rightarrow> st
      | None \<Rightarrow> fn ''g_resolver_lookup_by_name_async'' [ip] st)"

end
