(* ===== verification/ProtoIrc.thy ===== *)
theory ProtoIrc
  imports Login
begin

text \<open>
  The commands of a server in \<open>src/common/proto-irc.c\<close>: \<open>process_named_msg\<close> with one definition
  for every command whose handling takes more than a call.
\<close>

text \<open>A message that belongs to an open batch is collected there; \<open>k\<close> is what follows otherwise.\<close>

definition unless_batched ::
    "string \<Rightarrow> words \<Rightarrow> words \<Rightarrow> message_tags_data \<Rightarrow> (proto \<Rightarrow> proto option) \<Rightarrow> proto \<Rightarrow> proto option" where
  "unless_batched command word word_eol td k st =
     (let (sq, collected) =
            inbound_batch_add_message (have_batch (pr_caps st)) (word 1) command word word_eol td (pr_sq st)
      in if collected then Some (st\<lparr>pr_sq := sq\<rparr>) else k st)"

text \<open>\<open>ignore_check\<close> with its counters; \<open>k\<close> gets the answer.\<close>

definition with_ignore :: "string \<Rightarrow> uint \<Rightarrow> (bool \<Rightarrow> proto \<Rightarrow> proto option) \<Rightarrow> proto \<Rightarrow> proto option" where
  "with_ignore host ty k st =
     (case ignore_check (pr_ig st) host ty of
        None \<Rightarrow> None
      | Some (ig, ignored) \<Rightarrow> k ignored (st\<lparr>pr_ig := ig\<rparr>))"

text \<open>\<open>fill in the "ip" and "nick" buffers\<close>: the source of a message.\<close>

definition message_source :: "string \<Rightarrow> (string \<times> string) option" where
  "message_source prefix =
     (let ip = (case strchr prefix (CHR ''!'') of None \<Rightarrow> prefix | Some ex \<Rightarrow> tl ex) in
      case (safe_strcpy ip 128, safe_strcpy (upto_chr prefix (CHR ''!'')) NICKLEN) of
        (Some ip, Some nick) \<Rightarrow> Some (ip, nick)
      | _ \<Rightarrow> None)"

subsection \<open>Commands of four letters\<close>

definition msg_join :: "env \<Rightarrow> string \<Rightarrow> string \<Rightarrow> words \<Rightarrow> words \<Rightarrow> message_tags_data \<Rightarrow> proto \<Rightarrow> proto option" where
  "msg_join e ip nick word word_eol td st =
     (let account = (if word 4 = ''*'' then None else Some (word 4));
          realname = no_colon (word_eol 5);
          chan = no_colon (word 3)
      in if p_cmp (pr_serv st) nick (serv_nick (pr_serv st)) = 0
         then try_world (inbound_ujoin (env_prefs e)
                (case t_msgid td of None \<Rightarrow> False | Some m \<Rightarrow> env_is_duplicate e m) (env_disconnect_ref e)
                chan nick ip td) st
         else try_world (inbound_join chan nick ip account realname) st)"

definition msg_kick :: "env \<Rightarrow> string \<Rightarrow> words \<Rightarrow> words \<Rightarrow> proto \<Rightarrow> proto option" where
  "msg_kick e nick word word_eol st =
     (let kicked = word 4; reason = no_colon (word_eol 5) in
      if kicked = [] then Some st
      else if kicked = serv_nick (pr_serv st)
      then try_world (inbound_ukick (env_prefs e) (word 3) nick reason) st
      else try_world (inbound_kick (word 3) kicked nick reason) st)"

definition msg_part :: "string \<Rightarrow> string \<Rightarrow> words \<Rightarrow> words \<Rightarrow> proto \<Rightarrow> proto option" where
  "msg_part ip nick word word_eol st =
     (let chan = no_colon (word 3); reason = no_colon (word_eol 4) in
      if nick = serv_nick (pr_serv st) then Some (on_world (inbound_upart chan ip reason) st)
      else try_world (inbound_part chan nick ip reason) st)"

text \<open>The standard replies FAIL, WARN and NOTE.\<close>

definition standard_reply ::
    "string \<Rightarrow> words \<Rightarrow> string \<Rightarrow> proto \<Rightarrow> proto" where
  "standard_reply name word text st =
     (if word 3 = ''*'' then ev name [word 4, text] st else ev (name @ ''CMD'') [word 3, word 4, text] st)"

definition msg_fail :: "words \<Rightarrow> words \<Rightarrow> proto \<Rightarrow> proto option" where
  "msg_fail word word_eol st =
     (case strip_trailing word word_eol of
        None \<Rightarrow> None
      | Some text \<Rightarrow>
          let st = (if g_ascii_strcasecmp (word 3) ''CHATHISTORY'' = 0
                    then fn ''chathistory_handle_fail'' [word 5] st else st)
          in if g_ascii_strcasecmp (word 3) ''CHATHISTORY'' \<noteq> 0 \<and> g_ascii_strcasecmp (word 3) ''REDACT'' = 0
             then Some (fn ''inbound_redact_fail'' [word 4, text] st)
             else Some (standard_reply ''FAIL'' word text st))"

definition named_4 ::
    "env \<Rightarrow> string \<Rightarrow> string \<Rightarrow> string \<Rightarrow> words \<Rightarrow> words \<Rightarrow> message_tags_data \<Rightarrow> proto \<Rightarrow> proto option" where
  "named_4 e type ip nick word word_eol td st =
     (let batched = (\<lambda>k. unless_batched type word word_eol td k st) in
      if type = ''JOIN'' then batched (msg_join e ip nick word word_eol td)
      else if type = ''KICK'' then batched (msg_kick e nick word word_eol)
      else if type = ''KILL'' then Some (ev ''KILL'' [nick, no_colon (word_eol 4)] st)
      else if type = ''MODE''
      then batched (try_world (\<lambda>w. handle_mode (irc_raw_modes (env_prefs e)) w word word_eol nick False))
      else if type = ''NICK''
      then batched (try_world (inbound_newnick nick (no_colon (word_eol 3)) False))
      else if type = ''PART'' then batched (msg_part ip nick word word_eol)
      else if type = ''PING'' then Some (line_out (''PONG '' @ word_eol 3) st)
      else if type = ''PONG''
      then Some (fn ''inbound_ping_reply'' [no_colon (word 4), word 3] st)
      else if type = ''QUIT''
      then batched (try_world (inbound_quit nick ip (no_colon (word_eol 3))))
      else if type = ''AWAY''
      then try_world (inbound_away_notify (env_is_in_list e) nick
             (if cur (word_eol 3) = CHR '':'' then Some (tl (word_eol 3)) else None)) st
      else if type = ''FAIL'' then msg_fail word word_eol st
      else if type = ''WARN''
      then map_option (\<lambda>text. standard_reply ''WARN'' word text st) (strip_trailing word word_eol)
      else if type = ''NOTE''
      then map_option (\<lambda>text. standard_reply ''NOTE'' word text st) (strip_trailing word word_eol)
      else Some (fn ''GARBAGE'' [word_eol 1] st))"

subsection \<open>PRIVMSG and NOTICE\<close>

text \<open>
  A message of ours that the server echoed and that is already shown as pending: it is
  confirmed, and its reply context attached. \<open>track\<close> says whether its id is remembered.
\<close>

definition confirm_echo :: "env \<Rightarrow> bool \<Rightarrow> nat option \<Rightarrow> message_tags_data \<Rightarrow> world \<Rightarrow> world" where
  "confirm_echo e track ctx td w =
     (case ctx of
        None \<Rightarrow> w
      | Some i \<Rightarrow>
          let w = (case t_msgid td of
                     None \<Rightarrow> w
                   | Some m \<Rightarrow>
                       call ''scrollback_confirm_pending'' (opt_args (t_label td) @ [m])
                         (if track then call ''chathistory_track_msgid_ts'' [m] w else w))
          in (case (if env_reply_show e then t_all_tags td else None) of
                None \<Rightarrow> w
              | Some tags \<Rightarrow>
                  (case tags ''+draft/reply'' of
                     None \<Rightarrow> w
                   | Some r \<Rightarrow> call ''fe_reply_context_set'' [r] w)))"

definition find_context :: "world \<Rightarrow> string \<Rightarrow> nat option" where
  "find_context w tgt = (if is_channel (w_serv w) tgt then find_channel w tgt else find_dialog w tgt)"

text \<open>The dialog with a nick, opened when there is none: \<open>k\<close> gets its index.\<close>

definition with_dialog :: "string \<Rightarrow> (nat \<Rightarrow> world \<Rightarrow> world) \<Rightarrow> world \<Rightarrow> world option" where
  "with_dialog tgt k w =
     (case find_dialog w tgt of
        Some i \<Rightarrow> Some (k i w)
      | None \<Rightarrow> map_option (k 0) (new_ircwindow tgt SESS_DIALOG w))"

text \<open>
  A CTCP: \<open>text\<close> begins with \<open>\001\<close>, and the one at the end is overwritten, which shortens
  every \<open>word_eol\<close>. The contents of a DCC request are split again, with quotes.
\<close>

definition ctcp_request ::
    "env \<Rightarrow> string \<Rightarrow> string \<Rightarrow> string \<Rightarrow> string \<Rightarrow> string \<Rightarrow> proto \<Rightarrow> proto option" where
  "ctcp_request e nick ip tgt text dcc_line st =
     (let st = (if ci_prefix ''ACTION'' text then st
                else
                  let ((fl, ig, ao), _) =
                        flood_check (env_flood e) (env_now e) nick ip True (fst (pr_flood st), pr_ig st, snd (pr_flood st))
                  in st\<lparr>pr_flood := (fl, ao), pr_ig := ig\<rparr>)
      in if ci_prefix ''DCC '' text then
           (case process_data_init dcc_line True False of
              None \<Rightarrow> None
            | Some (ws, eols) \<Rightarrow> Some (fn ''ctcp_handle'' ([tgt, nick, ip, text] @ ws) st))
         else Some (fn ''ctcp_handle'' [tgt, nick, ip, text] st))"

definition msg_ctcp ::
    "env \<Rightarrow> string \<Rightarrow> string \<Rightarrow> string \<Rightarrow> string \<Rightarrow> words \<Rightarrow> message_tags_data \<Rightarrow> proto \<Rightarrow> proto option" where
  "msg_ctcp e ip nick tgt text word_eol td st =
     (let closed = (last text = CHR 0x01);
          text = (if closed then butlast (tl text) else tl text);
          dcc_line = (if closed then butlast (word_eol 6) else word_eol 6);
          serv = pr_serv st
      in if have_echo_message (pr_flags st) \<and> p_cmp serv nick (serv_nick serv) = 0 then
           if t_echo_confirmed td
           then Some (on_world (\<lambda>w. confirm_echo e False (find_context w tgt) td w) st)
           else if ci_prefix ''ACTION '' text then
             (if \<not> is_channel serv tgt
              then try_world (with_dialog tgt (\<lambda>i. call ''inbound_action'' [tgt, nick, ip, drop 7 text])) st
              else Some (fn ''inbound_action'' [tgt, nick, ip, drop 7 text] st))
           else Some (ev ''CTCPSEND'' [tgt, upto_chr text (CHR 0x01)] st)
         else ctcp_request e nick ip tgt text dcc_line st)"

text \<open>A private message that we sent ourselves, echoed by the server or a bouncer.\<close>

definition msg_self ::
    "env \<Rightarrow> string \<Rightarrow> string \<Rightarrow> string \<Rightarrow> message_tags_data \<Rightarrow> proto \<Rightarrow> proto option" where
  "msg_self e nick tgt text td st =
     (let w = pr_w st; serv = pr_serv st in
      if t_echo_confirmed td then Some (on_world (confirm_echo e True (find_dialog w tgt) td) st)
      else
        let duplicate =
              p_cmp serv tgt (serv_nick serv) = 0 \<and> find_dialog w tgt \<noteq> None \<and>
              (case t_msgid td of
                 Some (c # m) \<Rightarrow> env_is_duplicate e (c # m)
               | _ \<Rightarrow> have_labels (pr_caps st) \<and> t_label td = None)
        in if duplicate then Some st
           else try_world (with_dialog tgt (\<lambda>i. call ''inbound_chanmsg'' [tgt, nick, text])) st)"

definition msg_text ::
    "env \<Rightarrow> string \<Rightarrow> string \<Rightarrow> string \<Rightarrow> string \<Rightarrow> words \<Rightarrow> message_tags_data \<Rightarrow> proto \<Rightarrow> proto option" where
  "msg_text e ip nick tgt text word td st =
     (let serv = pr_serv st in
      if is_channel serv tgt then
        if t_echo_confirmed td
        then Some (on_world (\<lambda>w. confirm_echo e True (find_channel w tgt) td w) st)
        else with_ignore (word 1) IG_CHAN
               (\<lambda>ignored st. Some (if ignored then st else fn ''inbound_chanmsg'' [tgt, nick, text] st)) st
      else
        with_ignore (word 1) IG_PRIV
          (\<lambda>ignored st.
             if ignored then Some st
             else if p_cmp serv nick (serv_nick serv) = 0 then msg_self e nick tgt text td st
             else Some (fn ''inbound_privmsg'' [nick, ip, text] st)) st)"

definition msg_privmsg ::
    "env \<Rightarrow> string \<Rightarrow> string \<Rightarrow> words \<Rightarrow> words \<Rightarrow> message_tags_data \<Rightarrow> proto \<Rightarrow> proto option" where
  "msg_privmsg e ip nick word word_eol td st =
     (case word 3 of
        [] \<Rightarrow> Some st
      | c # rest \<Rightarrow>
          let serv = pr_serv st;
              tgt = (if strchr (chantypes serv) c = None \<and> strchr (nick_prefixes serv) c \<noteq> None then rest else c # rest);
              text = no_colon (word_eol 4)
          in if cur text = CHR 0x01 then msg_ctcp e ip nick tgt text word_eol td st
             else msg_text e ip nick tgt text word td st)"

definition challenge_user :: "env \<Rightarrow> proto \<Rightarrow> string" where
  "challenge_user e st =
     (case (case serv_network st of None \<Rightarrow> None | Some net \<Rightarrow> net_user net) of
        None \<Rightarrow> irc_user_name (env_connect e) | Some u \<Rightarrow> u)"

definition msg_notice ::
    "env \<Rightarrow> string \<Rightarrow> string \<Rightarrow> words \<Rightarrow> words \<Rightarrow> message_tags_data \<Rightarrow> proto \<Rightarrow> proto option" where
  "msg_notice e ip nick word word_eol td st =
     (let text = no_colon (word_eol 4); serv = pr_serv st in
      if loginmethod st = LOGIN_CHALLENGEAUTH \<and> p_cmp serv (word 1) ''Q!TheQBot@CServe.quakenet.org'' = 0 \<and>
         has_prefix text ''CHALLENGE '' \<and> serv_password st \<noteq> [] then
        Some (line_out (''PRIVMSG Q@CServe.quakenet.org :CHALLENGEAUTH '' @ challenge_user e st @ '' '' @
          env_challengeauth_response e (challenge_user e st) (serv_password st) (word 5) @ '' HMAC-SHA-256'') st)
      else if t_echo_confirmed td then Some st
      else with_ignore (word 1) IG_NOTI
             (\<lambda>ignored st. Some (if ignored then st else fn ''inbound_notice'' [word 3, nick, text, ip] st)) st)"

subsection \<open>Other commands\<close>

definition msg_invite :: "string \<Rightarrow> words \<Rightarrow> words \<Rightarrow> proto \<Rightarrow> proto option" where
  "msg_invite nick word word_eol st =
     with_ignore (word 1) IG_INVI
       (\<lambda>ignored st.
          let text = STRIP_COLON word word_eol 4; serv = pr_serv st in
          Some (if ignored then st
                else if p_cmp serv (word 3) (serv_nick serv) \<noteq> 0
                then ev ''INVITEDOTHER'' [text, nick, word 3, servername st] st
                else ev ''INVITED'' [text, nick, servername st] st)) st"

definition msg_batch :: "env \<Rightarrow> words \<Rightarrow> message_tags_data \<Rightarrow> proto \<Rightarrow> proto" where
  "msg_batch e word td st =
     (if \<not> have_batch (pr_caps st) then st
      else
        (case word 3 of
           [] \<Rightarrow> st
         | c # ref \<Rightarrow>
             if c = CHR ''+''
             then st\<lparr>pr_sq := inbound_batch_start (env_now e) True ref (word 4) word td (pr_sq st)\<rparr>
             else if c = CHR ''-'' then
               let (sq, w) = inbound_batch_end True ref (pr_sq st, pr_w st) in st\<lparr>pr_sq := sq, pr_w := w\<rparr>
             else st))"

definition find_window :: "world \<Rightarrow> string \<Rightarrow> nat option" where
  "find_window w tgt = (case find_channel w tgt of Some i \<Rightarrow> Some i | None \<Rightarrow> find_dialog w tgt)"

text \<open>\<open>parse_iso8601_to_time_t\<close>: -1 for a text that is no time.\<close>

definition parse_iso8601_to_time_t :: "clib \<Rightarrow> int \<Rightarrow> string \<Rightarrow> int" where
  "parse_iso8601_to_time_t L now timestr =
     (if timestr = [] then -1
      else if last timestr = CHR ''Z'' then
        (case scan_list ''--T::'' timestr of
           [year, mon, mday, hour, mi, sec] \<Rightarrow>
             let result = mktime L \<lparr>tm_year = year - 1900, tm_mon = mon - 1, tm_mday = mday,
                                    tm_hour = hour, tm_min = mi, tm_sec = sec\<rparr>
             in if result < 0 then -1 else result - get_timezone L now
         | _ \<Rightarrow> -1)
      else atoi timestr)"

definition msg_markread :: "env \<Rightarrow> words \<Rightarrow> proto \<Rightarrow> proto" where
  "msg_markread e word st =
     (if word 3 = [] then st
      else
        (case find_window (pr_w st) (word 3) of
           None \<Rightarrow> st
         | Some i \<Rightarrow>
             if has_prefix (word 4) ''timestamp='' then
               let ts_value = drop 10 (word 4);
                   parsed = parse_iso8601_to_time_t (env_clib e) (env_now e) ts_value;
                   st = fn ''markread_timestamp'' [ts_value, show_int (if parsed \<noteq> -1 then parsed else 0)] st
               in if parsed \<noteq> -1 then fn ''fe_set_marker_from_timestamp'' [show_int parsed] st else st
             else st))"

definition msg_redact :: "env \<Rightarrow> string \<Rightarrow> words \<Rightarrow> words \<Rightarrow> message_tags_data \<Rightarrow> proto \<Rightarrow> proto" where
  "msg_redact e nick word word_eol td st =
     (if word 3 = [] \<or> word 4 = [] then st
      else
        (case find_window (pr_w st) (word 3) of
           None \<Rightarrow> st
         | Some i \<Rightarrow>
             let reason = no_colon (word_eol 5);
                 rtime = (if t_timestamp td \<noteq> 0 then t_timestamp td else env_now e);
                 args = [word 4, nick] @ (if reason = [] then [] else [reason]) @ [show_int rtime]
             in fn ''scrollback_redact_for_session'' args (fn ''fe_redact_message'' args st)))"

definition msg_rename :: "string \<Rightarrow> words \<Rightarrow> words \<Rightarrow> proto \<Rightarrow> proto option" where
  "msg_rename nick word word_eol st =
     (if word 3 = [] \<or> word 4 = [] then Some st
      else
        (case find_channel (pr_w st) (word 3) of
           None \<Rightarrow> Some st
         | Some i \<Rightarrow>
             let reason = no_colon (word_eol 5);
                 line = ''Channel '' @ word 3 @ '' has been renamed to '' @ word 4 @ '' by '' @ nick @
                        (if reason \<noteq> [] then '': '' @ reason else [])
             in map_option
                  (\<lambda>name. ev ''SERVTEXT'' [line]
                     (on_world (\<lambda>w. w_emit Fe_set_title (call ''fe_set_channel'' []
                        (upd_session i (\<lambda>s. s\<lparr>channel := name\<rparr>) w))) st))
                  (safe_strcpy (word 4) CHANLEN)))"

definition account_answer :: "string \<Rightarrow> string \<Rightarrow> words \<Rightarrow> words \<Rightarrow> proto \<Rightarrow> proto option" where
  "account_answer verb past word word_eol st =
     (let message = no_colon (word_eol 5) in
      if g_ascii_strcasecmp (word 3) ''SUCCESS'' = 0
      then inbound_identified
             (ev ''SERVTEXT'' [''Account '' @ [CHR 0x27] @ word 4 @ [CHR 0x27] @ '' '' @ past @ '' successfully: '' @ message] st)
      else if verb = ''REGISTER'' \<and> g_ascii_strcasecmp (word 3) ''VERIFICATION_REQUIRED'' = 0
      then Some (ev ''SERVTEXT'' [''Account '' @ [CHR 0x27] @ word 4 @ [CHR 0x27] @ '' requires verification: '' @ message] st)
      else Some st)"

text \<open>\<open>strncasecmp (type, name, strlen (name)) == 0\<close> is \<open>ci_prefix\<close>.\<close>

definition named_5 ::
    "env \<Rightarrow> string \<Rightarrow> string \<Rightarrow> string \<Rightarrow> words \<Rightarrow> words \<Rightarrow> message_tags_data \<Rightarrow> proto \<Rightarrow> proto option" where
  "named_5 e type ip nick word word_eol td st =
     (let t = take 4 type;
          batched = (\<lambda>command k. unless_batched command word word_eol td k st);
          unknown = Some (fn ''GARBAGE'' [word_eol 1] st);
          info = (\<lambda>user host real. try_world (inbound_user_info (env_prefs e) (doing_dns st) None user host None
                    nick real None 255) st)
      in
      if t = ''ACCO'' then try_world (inbound_account nick (STRIP_COLON word word_eol 3)) st
      else if t = ''AUTH'' then inbound_sasl_authenticate e (word_eol 3) st
      else if t = ''CHAT'' then
        (if ci_prefix ''CHATHISTORY'' type then batched ''CHATHISTORY'' Some else unknown)
      else if t = ''CHGH'' then info (Some (word 3)) (Some (STRIP_COLON word word_eol 4)) None
      else if t = ''SETN'' then info None None (Some (STRIP_COLON word word_eol 3))
      else if t = ''INVI'' then msg_invite nick word word_eol st
      else if t = ''NOTI'' then batched ''NOTICE'' (msg_notice e ip nick word word_eol td)
      else if t = ''PRIV'' then batched ''PRIVMSG'' (msg_privmsg e ip nick word word_eol td)
      else if t = ''TOPI''
      then batched ''TOPIC'' (try_world (inbound_topicnew nick (word 3) (no_colon (word_eol 4))))
      else if t = ''WALL'' then Some (ev ''WALLOPS'' [nick, no_colon (word_eol 3)] st)
      else if t = ''BATC'' then Some (msg_batch e word td st)
      else if t = ''TAGM'' then
        Some (if have_message_tags (pr_caps st) \<and> word 3 \<noteq> []
              then fn ''inbound_tagmsg'' [word 3, nick, ip] st else st)
      else if t = ''MARK'' then Some (if ci_prefix ''MARKREAD'' type then msg_markread e word st else st)
      else if t = ''REDA'' then Some (if ci_prefix ''REDACT'' type then msg_redact e nick word word_eol td st else st)
      else if t = ''RENA'' then if ci_prefix ''RENAME'' type then msg_rename nick word word_eol st else Some st
      else if t = ''REGI'' then
        if ci_prefix ''REGISTER'' type then account_answer ''REGISTER'' ''registered'' word word_eol st else Some st
      else if t = ''VERI'' then
        if ci_prefix ''VERIFY'' type then account_answer ''VERIFY'' ''verified'' word word_eol st else Some st
      else unknown)"

definition msg_cap :: "words \<Rightarrow> words \<Rightarrow> proto \<Rightarrow> proto" where
  "msg_cap word word_eol st =
     (let args = (if cur (word 5) = CHR '':'' then tl (word_eol 5) else word_eol 5) in
      if ci_prefix ''ACK'' (word 4) then inbound_cap_ack (word 1) args st
      else if ci_prefix ''LS'' (word 4) \<or> ci_prefix ''NEW'' (word 4) then inbound_cap_ls (word 1) args st
      else if ci_prefix ''NAK'' (word 4) then inbound_cap_nak args st
      else if ci_prefix ''LIST'' (word 4) then inbound_cap_list (word 1) args st
      else if ci_prefix ''DEL'' (word 4) then inbound_cap_del (word 1) args st
      else st)"

definition process_named_msg ::
    "env \<Rightarrow> string \<Rightarrow> words \<Rightarrow> words \<Rightarrow> message_tags_data \<Rightarrow> proto \<Rightarrow> proto option" where
  "process_named_msg e type word word_eol td st =
     (case message_source (word 1) of
        None \<Rightarrow> None
      | Some (ip, nick) \<Rightarrow>
          (case (if have_account_tag (pr_caps st)
                 then try_world (inbound_account nick
                        (case t_account td of Some (c # a) \<Rightarrow> c # a | _ \<Rightarrow> ''*'')) st
                 else Some st) of
             None \<Rightarrow> None
           | Some st \<Rightarrow>
               if length type = 4 then named_4 e type ip nick word word_eol td st
               else if length type \<ge> 5 then named_5 e type ip nick word word_eol td st
               else if type = ''ACK'' then Some st
               else if type = ''CAP'' then Some (msg_cap word word_eol st)
               else Some (fn ''GARBAGE'' [word_eol 1] st)))"

end
