(* ===== verification/Numerics.thy ===== *)
theory Numerics
  imports ProtoIrc Isupport
begin

text \<open>
  The numeric replies of \<open>src/common/proto-irc.c\<close>: \<open>process_numeric\<close>, one definition for each
  group of numerics, and the line \<open>def\<close> that shows a reply as it is.

  \<open>sess\<close> is the session the line belongs to, \<open>wc\<close> the number of words of the line. An event has
  the number of the session it is shown in as its first argument. \<open>None\<close> is a pointer outside
  the line.
\<close>

definition find_or_server :: "proto \<Rightarrow> string \<Rightarrow> nat" where
  "find_or_server st chan =
     (case find_channel (pr_w st) chan of Some i \<Rightarrow> i | None \<Rightarrow> w_server_sess (pr_w st))"

text \<open>The label \<open>def\<close>.\<close>

definition numeric_def :: "words \<Rightarrow> string \<Rightarrow> proto \<Rightarrow> proto" where
  "numeric_def word text st =
     (let i = (if is_channel (pr_serv st) (word 4) then find_or_server st (word 4)
               else case find_dialog (pr_w st) (word 4) of Some i \<Rightarrow> i | None \<Rightarrow> w_server_sess (pr_w st))
      in ev_in i ''SERVTEXT'' [text, word 1, word 2] st)"

definition whois_sess :: "env \<Rightarrow> proto \<Rightarrow> nat" where
  "whois_sess e st =
     (if irc_whois_front (env_prefs e) then w_front (pr_w st) else w_server_sess (pr_w st))"

text \<open>\<open>strrchr (s, '@') + 1\<close>\<close>

definition after_at :: "string \<Rightarrow> string option" where
  "after_at s = (if CHR ''@'' \<in> set s then Some (rev (upto_chr (rev s) (CHR ''@''))) else None)"

definition numeric_welcome :: "env \<Rightarrow> nat \<Rightarrow> words \<Rightarrow> string \<Rightarrow> proto \<Rightarrow> proto option" where
  "numeric_welcome e sess word text st =
     map_option
       (\<lambda>st. numeric_def word text
          (if has_prefix (word 7) ''PTnet'' \<and> has_prefix (word 8) ''IRC'' \<and> has_prefix (word 9) ''Network'' \<and>
              after_at (word 10) \<noteq> None
           then let st = st\<lparr>use_who := False\<rparr>
                in if env_dcc_ip_from_server e then inbound_foundip e (the (after_at (word 10))) st else st
           else st))
       (inbound_login_start sess (word 3) (word 1) st)"

text \<open>\<open>inbound_005\<close> works on the server and its server session.\<close>

definition numeric_isupport :: "env \<Rightarrow> words \<Rightarrow> string \<Rightarrow> proto \<Rightarrow> proto option" where
  "numeric_isupport e word text st =
     (let w = pr_w st; i = w_server_sess w in
      map_option
        (\<lambda>(m, serv, s). numeric_def word text (st\<lparr>pr_w := put_session i s (w\<lparr>w_mem := m, w_serv := serv\<rparr>)\<rparr>))
        (inbound_005 (env_check_encoding e) word (w_mem w, w_serv w, sess_at w i)))"

text \<open>302: the answer to our own USERHOST; the code overwrites the \<open>=\<close> behind the nick.\<close>

definition numeric_userhost :: "env \<Rightarrow> words \<Rightarrow> string \<Rightarrow> proto \<Rightarrow> proto" where
  "numeric_userhost e word text st =
     (if skip_next_userhost st then
        (case strchr (word 4) (CHR ''='') of
           None \<Rightarrow> st
         | Some eq \<Rightarrow>
             let who = (if eq = word 4 then tl eq else tl (upto_chr (word 4) (CHR ''=''))) in
             if p_cmp (pr_serv st) who (serv_nick (pr_serv st)) = 0
             then (case after_at (tl eq) of None \<Rightarrow> st | Some ip \<Rightarrow> inbound_foundip e ip st)
             else st)\<lparr>skip_next_userhost := False\<rparr>
      else numeric_def word text st)"

definition numeric_status ::
    "env \<Rightarrow> nat \<Rightarrow> nat \<Rightarrow> nat \<Rightarrow> words \<Rightarrow> words \<Rightarrow> string \<Rightarrow> proto \<Rightarrow> proto option" where
  "numeric_status e sess n wc word word_eol text st =
     (if n = 1 then numeric_welcome e sess word text st
      else if n = 5 then numeric_isupport e word text st
      else if n = 263 then
        Some (numeric_def word text
          (if env_is_chanwindow e then fn ''fe_message'' [word_eol 4] (fn ''fe_chan_list_end'' [] st) else st))
      else if n = 301
      then try_world (inbound_away (env_prefs e) (inside_whois st) (skip_next_whois st) (word 4) (no_colon (word_eol 5))) st
      else if n = 302 then Some (numeric_userhost e word text st)
      else if n = 303 then map_option (\<lambda>t. fn ''notify_markonline'' [t, word 5] st) (skip1 wc word 4)
      else if n = 305
      then map_option (numeric_def word text) (try_world inbound_uback (st\<lparr>reconnect_away := False\<rparr>))
      else map_option (numeric_def word text) (try_world inbound_uaway st))"

subsection \<open>WHOIS\<close>

text \<open>\<open>"%02ld:%02ld:%02ld"\<close> with the division of C.\<close>

definition quot :: "int \<Rightarrow> int \<Rightarrow> int" where
  "quot a b = sgn a * (\<bar>a\<bar> div b)"

definition show_02 :: "int \<Rightarrow> string" where
  "show_02 i = (if length (show_int i) < 2 then CHR ''0'' # show_int i else show_int i)"

definition idle_time :: "int \<Rightarrow> string" where
  "idle_time idle =
     (let minutes = quot idle 60 in
      show_02 (quot idle 3600) @ '':'' @ show_02 (minutes - 60 * quot minutes 60) @ '':'' @ show_02 (idle - 60 * minutes))"

definition numeric_whois ::
    "env \<Rightarrow> nat \<Rightarrow> nat \<Rightarrow> words \<Rightarrow> words \<Rightarrow> string \<Rightarrow> proto \<Rightarrow> proto option" where
  "numeric_whois e n wc word word_eol text st =
     (let i = whois_sess e st; show = (\<not> skip_next_whois st);
          info = (\<lambda>user host servname real account.
                    try_world (inbound_user_info (env_prefs e) (doing_dns st) None user host servname (word 4) real account 255))
      in
      if n = 312 then
        if show then Some (ev_in i ''WHOIS3'' [word 4, word_eol 5] st) else info None None (Some (word 5)) None None st
      else if n = 311 then
        let st = st\<lparr>inside_whois := True\<rparr>; real = no_colon (word_eol 8) in
        (case try_world (inbound_user_info_start (word 4)) st of
           None \<Rightarrow> None
         | Some st \<Rightarrow>
             if show then Some (ev_in i ''WHOIS1'' [word 4, word 5, word 6, real] st)
             else info (Some (word 5)) (Some (word 6)) None (Some real) None st)
      else if n = 314 then
        (case (try_world (inbound_user_info_start (word 4)) st, skip1 wc word_eol 8) of
           (Some st, Some real) \<Rightarrow> Some (ev_in i ''WHOIS1'' [word 4, word 5, word 6, real] st)
         | _ \<Rightarrow> None)
      else if n = 317 then
        Some (if show then
                let timestamp = atoi (word 6); outbuf = idle_time (atoi (word 5)) in
                if timestamp = 0 then ev_in i ''WHOIS4'' [word 4, outbuf] st
                else ev_in i ''WHOIS4T'' (word 4 # outbuf # opt_args (map_option (take 19) (env_ctime e timestamp))) st
              else st)
      else if n = 318 then
        Some ((if show then ev_in i ''WHOIS6'' [word 4] st else st)\<lparr>skip_next_whois := False, inside_whois := False\<rparr>)
      else if n = 313 \<or> n = 319 then
        Some (if show then ev_in i ''WHOIS2'' [word 4, no_colon (word_eol 5)] st else st)
      else if n = 307 \<or> n = 320 then
        Some (if show then ev_in i ''WHOIS_ID'' [word 4, no_colon (word_eol 5)] st else st)
      else if n = 330 then
        (case (if show then map_option (\<lambda>t. ev_in i ''WHOIS_AUTH'' [word 4, t, word 5] st) (skip1 wc word_eol 6) else Some st) of
           None \<Rightarrow> None
         | Some st \<Rightarrow> info None None None None (Some (word 5)) st)
      else Some ((ev_in i ''SERVTEXT'' [text, word 1, word 2] st)\<lparr>inside_whois := False\<rparr>))"

subsection \<open>Channels\<close>

definition channel_date :: "env \<Rightarrow> nat \<Rightarrow> string \<Rightarrow> string \<Rightarrow> proto \<Rightarrow> proto" where
  "channel_date e i chan timestr =
     ev_in i ''CHANDATE'' (chan # opt_args (map_option (take 24) (env_ctime e (atoi timestr))))"

definition inbound_topictime :: "env \<Rightarrow> string \<Rightarrow> string \<Rightarrow> int \<Rightarrow> proto \<Rightarrow> proto" where
  "inbound_topictime e chan nick stamp st =
     ev_in (find_or_server st chan) ''TOPICDATE''
       (chan # nick # opt_args (map_option (take 24) (env_ctime e stamp))) st"

definition numeric_chanmodes :: "env \<Rightarrow> words \<Rightarrow> words \<Rightarrow> proto \<Rightarrow> proto option" where
  "numeric_chanmodes e word word_eol st =
     (let i = find_or_server st (word 4);
          st = (if ignore_mode (sess_at (pr_w st) i) then on_world (upd_session i (\<lambda>s. s\<lparr>ignore_mode := False\<rparr>)) st
                else ev_in i ''CHANMODES'' [word 4, no_colon (word_eol 5)] st);
          st = foldl (\<lambda>st c. on_world (w_emit (Fe_update_mode_buttons c (CHR ''-''))) st) st ''ctnimlk''
      in try_world (\<lambda>w. handle_mode (irc_raw_modes (env_prefs e)) w word word_eol [] True) st)"

definition numeric_channel ::
    "env \<Rightarrow> nat \<Rightarrow> nat \<Rightarrow> nat \<Rightarrow> words \<Rightarrow> words \<Rightarrow> string \<Rightarrow> proto \<Rightarrow> proto option" where
  "numeric_channel e sess n wc word word_eol text st =
     (let srv = w_server_sess (pr_w st); found = find_channel (pr_w st) (word 4) in
      if n = 321 then Some (if env_is_chanwindow e then st else ev_in srv ''CHANLISTHEAD'' [] st)
      else if n = 322 then
        map_option
          (\<lambda>tpc. if env_is_chanwindow e then fn ''fe_add_chan_list'' [word 4, word 5, tpc] st
                 else fn ''PrintText'' [word 4, show_int (atoi (word 5)), tpc] st)
          (skip1 wc word_eol 6)
      else if n = 323 then
        Some (if env_is_chanwindow e then fn ''fe_chan_list_end'' [] st
              else ev_in srv ''SERVTEXT'' [text, word 1, word 2] st)
      else if n = 324 then numeric_chanmodes e word word_eol st
      else if n = 328 then
        Some (case found of None \<Rightarrow> st | Some i \<Rightarrow> ev_in i ''CHANURL'' [word 4, no_colon (word_eol 5)] st)
      else if n = 329 then
        Some (case found of
                None \<Rightarrow> st
              | Some i \<Rightarrow>
                  if ignore_date (sess_at (pr_w st) i) then on_world (upd_session i (\<lambda>s. s\<lparr>ignore_date := False\<rparr>)) st
                  else channel_date e i (word 4) (no_colon (word 5)) st)
      else if n = 332 then try_world (inbound_topic (word 4) (no_colon (word_eol 5))) st
      else if n = 333 then Some (inbound_topictime e (word 4) (word 5) (atoi (STRIP_COLON word word_eol 6)) st)
      else if n = 341 then Some (ev_in sess ''UINVITE'' [word 4, STRIP_COLON word word_eol 5, servername st] st)
      else if n = 353 then try_world (inbound_nameslist (word 5) (no_colon (word_eol 6))) st
      else
        (case inbound_nameslist_end (word 4) (pr_w st) of
           None \<Rightarrow> None
         | Some (w, shown) \<Rightarrow>
             Some (if shown then st\<lparr>pr_w := w\<rparr> else numeric_def word text (st\<lparr>pr_w := w\<rparr>))))"

definition numeric_who ::
    "env \<Rightarrow> nat \<Rightarrow> nat \<Rightarrow> words \<Rightarrow> words \<Rightarrow> string \<Rightarrow> proto \<Rightarrow> proto option" where
  "numeric_who e n wc word word_eol text st =
     (let who_sess = (\<lambda>k. find_channel (pr_w st) (word k));
          asked = (\<lambda>k. case who_sess k of None \<Rightarrow> False | Some i \<Rightarrow> doing_who (sess_at (pr_w st) i));
          show = ev_in (w_server_sess (pr_w st)) ''SERVTEXT'' [text, word 1, word 2];
          away = (\<lambda>k. if cur (word k) = CHR ''G'' then 1 else 0);
          info = (\<lambda>k real account. try_world (inbound_user_info (env_prefs e) (doing_dns st) (Some (word k))
                    (Some (word (k + 1))) (Some (word (k + 2))) (Some (word (k + 3))) (word (k + 4)) (Some real) account
                    (away (k + 5))) st)
      in
      if n = 352 then map_option (if asked 4 then (\<lambda>st. st) else show) (info 4 (word_eol 11) None)
      else if n = 354 then
        if word 4 = ''152'' then
          (case skip1 wc word_eol 12 of
             None \<Rightarrow> None
           | Some real \<Rightarrow> map_option (if asked 5 then (\<lambda>st. st) else show) (info 5 real (Some (word 11))))
        else Some (numeric_def word text st)
      else
        Some (case who_sess 4 of
                Some i \<Rightarrow> on_world (upd_session i (\<lambda>s. s\<lparr>doing_who := False\<rparr>)) (if asked 4 then st else show st)
              | None \<Rightarrow> (if doing_dns st then st else show st)\<lparr>doing_dns := False\<rparr>))"

definition inbound_banlist :: "env \<Rightarrow> int \<Rightarrow> string \<Rightarrow> string \<Rightarrow> string \<Rightarrow> nat \<Rightarrow> proto \<Rightarrow> proto" where
  "inbound_banlist e stamp chan mask_text banner rplcode st =
     (let time_str = (if stamp \<le> 0 then [] else case env_ctime e stamp of None \<Rightarrow> [] | Some t \<Rightarrow> upto_chr t (CHR 0x0A));
          show = (\<lambda>i. ev_in i ''BANLIST'' [chan, mask_text, banner, time_str])
      in case find_channel (pr_w st) chan of
           None \<Rightarrow> show (w_front (pr_w st)) st
         | Some i \<Rightarrow>
             let st = fn ''fe_add_ban_list'' [mask_text, banner, time_str, show_nat rplcode] st
             in if env_add_ban_list e then st else show i st)"

definition numeric_bans ::
    "env \<Rightarrow> nat \<Rightarrow> words \<Rightarrow> words \<Rightarrow> string \<Rightarrow> proto \<Rightarrow> proto" where
  "numeric_bans e n word word_eol text st =
     (let list_end = (\<lambda>st. if env_ban_list_end e n then fn ''fe_ban_list_end'' [show_nat n] st else numeric_def word text st) in
      if n \<in> {346, 348, 367}
      then inbound_banlist e (atoi (STRIP_COLON word word_eol 7)) (word 4) (word 5) (word 6) n st
      else if n = 728 then inbound_banlist e (atoi (word 8)) (word 4) (word 6) (word 7) n st
      else if n = 347 \<or> n = 729 then list_end st
      else case find_channel (pr_w st) (word 4) of None \<Rightarrow> numeric_def word text st | Some i \<Rightarrow> list_end st)"

subsection \<open>Login, errors, notifications\<close>

definition numeric_motd :: "env \<Rightarrow> nat \<Rightarrow> string \<Rightarrow> proto \<Rightarrow> proto option" where
  "numeric_motd e n text st =
     (if n = 372 \<or> n = 375 then
        Some (if \<not> env_skip_motd e \<or> motd_skipped st then ev_in (w_server_sess (pr_w st)) ''MOTD'' [text] st else st)
      else inbound_login_end e text st)"

definition numeric_nick :: "env \<Rightarrow> nat \<Rightarrow> words \<Rightarrow> string \<Rightarrow> proto \<Rightarrow> proto" where
  "numeric_nick e n word text st =
     (if end_of_motd (pr_sq st) \<or> (n = 437 \<and> is_channel (pr_serv st) (word 4)) then numeric_def word text st
      else inbound_next_nick e (word 4) (n = 432) st)"

definition numeric_refused :: "nat \<Rightarrow> nat \<Rightarrow> words \<Rightarrow> proto \<Rightarrow> proto" where
  "numeric_refused sess n word st =
     ev_in sess (if n = 471 then ''USERLIMIT'' else if n = 473 then ''INVITE''
                 else if n = 474 then ''BANNED'' else ''KEYWORD'') [word 4] st"

definition numeric_notify :: "nat \<Rightarrow> nat \<Rightarrow> nat \<Rightarrow> words \<Rightarrow> words \<Rightarrow> proto \<Rightarrow> proto option" where
  "numeric_notify sess n wc word word_eol st =
     (let servtext = (\<lambda>t. ev_in sess ''SERVTEXT'' [t] st) in
      if n = 601 then Some (fn ''notify_set_offline'' [word 4, ''0''] st)
      else if n = 605 then Some (fn ''notify_set_offline'' [word 4, ''1''] st)
      else if n = 600 \<or> n = 604 then Some (fn ''notify_set_online'' [word 4] st)
      else if n \<in> {524, 704, 705, 706} then Some (servtext (STRIP_COLON word word_eol 5))
      else if n = 730 then map_option (\<lambda>t. fn ''notify_set_online_list'' [t] st) (skip1 wc word 4)
      else if n = 731 then map_option (\<lambda>t. fn ''notify_set_offline_list'' [t, ''0''] st) (skip1 wc word 4)
      else if n = 732 then
        Some (if no_colon (word 4) \<noteq> [] then servtext (''Monitoring: '' @ no_colon (word 4)) else st)
      else if n = 733 then Some (servtext ''End of MONITOR list'')
      else Some (servtext (''MONITOR list full (limit: '' @ word 4 @ ''). Could not add: '' @ no_colon (word 5))))"

definition numeric_metadata :: "nat \<Rightarrow> nat \<Rightarrow> words \<Rightarrow> words \<Rightarrow> proto \<Rightarrow> proto" where
  "numeric_metadata sess n word word_eol st =
     (let keys = no_colon (word_eol 4);
          pair = '' '' @ word 5 @ '' ('' @ word 6 @ ''): '' @ no_colon (word_eol 7)
      in ev_in sess ''SERVTEXT''
           [if n = 760 then ''['' @ word 4 @ '']'' @ pair
            else if n = 761 then ''Metadata ['' @ word 4 @ '']'' @ pair
            else if n = 766 then ''Metadata ['' @ word 4 @ ''] '' @ word 5 @ '': not set''
            else if n = 770 then ''Metadata subscribed to: '' @ keys
            else if n = 771 then ''Metadata unsubscribed from: '' @ keys
            else if n = 772 then ''Metadata subscriptions: '' @ keys
            else ''Metadata sync for '' @ word 4 @ '' deferred: '' @ no_colon (word_eol 5)] st)"

definition numeric_default :: "env \<Rightarrow> words \<Rightarrow> words \<Rightarrow> string \<Rightarrow> proto \<Rightarrow> proto" where
  "numeric_default e word word_eol text st =
     (if inside_whois st \<and> word 4 \<noteq> [] then
        if skip_next_whois st then st
        else ev_in (whois_sess e st) ''WHOIS_SPECIAL'' [word 4, no_colon (word_eol 5), word 2] st
      else numeric_def word text st)"

definition process_numeric ::
    "env \<Rightarrow> nat \<Rightarrow> int \<Rightarrow> nat \<Rightarrow> words \<Rightarrow> words \<Rightarrow> string \<Rightarrow> proto \<Rightarrow> proto option" where
  "process_numeric e sess num wc word word_eol text st =
     (let n = nat num in
      if n \<in> {1, 5, 263, 301, 302, 303, 305, 306} then numeric_status e sess n wc word word_eol text st
      else if n \<in> {307, 311, 312, 313, 314, 317, 318, 319, 320, 330, 369, 406}
      then numeric_whois e n wc word word_eol text st
      else if n \<in> {321, 322, 323, 324, 328, 329, 332, 333, 341, 353, 366}
      then numeric_channel e sess n wc word word_eol text st
      else if n \<in> {315, 352, 354} then numeric_who e n wc word word_eol text st
      else if n \<in> {346, 347, 348, 349, 367, 368, 728, 729} then Some (numeric_bans e n word word_eol text st)
      else if n \<in> {372, 375, 376, 422} then numeric_motd e n text st
      else if n \<in> {432, 433, 437} then Some (numeric_nick e n word text st)
      else if n \<in> {471, 473, 474, 475} then Some (numeric_refused sess n word st)
      else if n \<in> {524, 600, 601, 604, 605, 704, 705, 706, 730, 731, 732, 733, 734}
      then numeric_notify sess n wc word word_eol st
      else if n \<in> {760, 761, 766, 770, 771, 772, 774} then Some (numeric_metadata sess n word word_eol st)
      else if n \<in> {900, 903, 904, 905, 906, 907, 908} then numeric_sasl e n wc word word_eol st
      else Some (numeric_default e word word_eol text st))"

end
