(* ===== verification/IrcInline.thy ===== *)
theory IrcInline
  imports Numerics
begin

text \<open>
  \<open>irc_inline\<close> of \<open>src/common/proto-irc.c\<close>: one line from the server, without its end. Its tags
  are taken off, the label of an answer is looked up, the rest is split into words, and the
  line is dispatched as a numeric, a command with a source, or a command without one.

  \<open>env_plugin\<close> says whether a plugin eats the line.
\<close>

definition process_named_servermsg :: "env \<Rightarrow> string \<Rightarrow> string \<Rightarrow> words \<Rightarrow> proto \<Rightarrow> proto option" where
  "process_named_servermsg e buf rawname word_eol st =
     (let i = w_server_sess (pr_w st) in
      if has_prefix buf ''PING '' then Some (line_out (''PONG '' @ drop 5 buf) st)
      else if has_prefix buf ''ERROR'' then
        if length buf < 7 then None else Some (ev_in i ''SERVERERROR'' [drop 7 buf] st)
      else if has_prefix buf ''NOTICE '' then Some (ev_in i ''SERVNOTICE'' [no_colon (word_eol 3), servername st] st)
      else if has_prefix buf ''AUTHENTICATE'' then inbound_sasl_authenticate e (word_eol 2) st
      else Some (ev_in i ''SERVTEXT'' [buf, servername st, rawname] st))"

text \<open>The tags, and what stands behind them; \<open>None\<close> for a line of tags only, which is dropped.\<close>

definition split_tags :: "env \<Rightarrow> proto \<Rightarrow> string \<Rightarrow> (string \<times> message_tags_data) option" where
  "split_tags e st buf =
     (if cur buf = CHR ''@'' then
        map_option
          (\<lambda>sep. (tl sep, handle_message_tags (pr_caps st) (env_clib e) (env_now e) (tl (upto_chr buf (CHR '' '')))
                          MESSAGE_TAGS_DATA_INIT))
          (strchr buf (CHR '' ''))
      else Some (buf, MESSAGE_TAGS_DATA_INIT))"

definition is_batch_start :: "string \<Rightarrow> bool" where
  "is_batch_start buf =
     ci_prefix ''BATCH +''
       (if cur buf = CHR '':'' then dropWhile (\<lambda>c. c = CHR '' '') (dropWhile (\<lambda>c. c \<noteq> CHR '' '') buf) else buf)"

text \<open>The answer to a labelled request that is no batch: the request is no longer pending.\<close>

definition answer_label :: "string \<Rightarrow> message_tags_data \<Rightarrow> proto \<Rightarrow> proto \<times> message_tags_data" where
  "answer_label buf td st =
     (case t_label td of
        None \<Rightarrow> (st, td)
      | Some label \<Rightarrow>
          if is_batch_start buf then (st, td)
          else
            (case map_of (pending_labels (pr_sq st)) label of
               None \<Rightarrow> (st, td)
             | Some info \<Rightarrow>
                 let st = (if pl_entry_id info \<noteq> 0 \<and> is_session (pr_w st) (pl_sess info)
                           then fn ''fe_confirm_entry'' (show_nat (pl_entry_id info) # opt_args (t_msgid td)) st else st)
                 in (st\<lparr>pr_sq := (pr_sq st)\<lparr>pending_labels := table_remove label (pending_labels (pr_sq st))\<rparr>\<rparr>,
                     td\<lparr>t_echo_confirmed := True\<rparr>)))"

text \<open>A line with a source: its context, the plugins, and the two kinds of messages.\<close>

definition line_with_source ::
    "env \<Rightarrow> string \<Rightarrow> nat \<Rightarrow> words \<Rightarrow> words \<Rightarrow> message_tags_data \<Rightarrow> proto \<Rightarrow> proto option" where
  "line_with_source e buf wc word word_eol td st =
     (let w = pr_w st;
          sess = (case (if is_channel (w_serv w) (word 3) then find_channel w (word 3) else None) of
                    Some i \<Rightarrow> i | None \<Rightarrow> w_front w);
          type = word 2;
          word = word(0 := type);
          word_eol = word_eol(1 := buf)
      in if env_plugin e sess type word word_eol then Some st
         else
           let word = word(1 := tl (word 1)); word_eol = word_eol(1 := tl buf) in
           if is_digit (cur (word 2))
           then process_numeric e sess (atoi (word 2)) wc word word_eol (no_colon (word_eol 4)) st
           else process_named_msg e type word word_eol td st)"

definition line_without_source ::
    "env \<Rightarrow> string \<Rightarrow> words \<Rightarrow> words \<Rightarrow> proto \<Rightarrow> proto option" where
  "line_without_source e buf word word_eol st =
     (let word = word(0 := word 1) in
      if env_plugin e (w_front (pr_w st)) (word 0) word word_eol then Some st
      else process_named_servermsg e buf (word 0) word_eol st)"

definition irc_inline :: "env \<Rightarrow> string \<Rightarrow> proto \<Rightarrow> proto option" where
  "irc_inline e buf st =
     (case split_tags e st buf of
        None \<Rightarrow> Some st
      | Some (buf, td) \<Rightarrow>
          let (st, td) = answer_label buf td st;
              st = fn ''url_check_line'' [buf] st
          in (case process_data_init buf False False of
                None \<Rightarrow> None
              | Some (ws, eols) \<Rightarrow>
                  if cur buf = CHR '':'' then line_with_source e buf (length ws) (slot ws) (slot eols) td st
                  else line_without_source e buf (slot ws) (slot eols) st))"

end
