(* ===== verification/InboundProofs.thy ===== *)
theory InboundProofs
  imports Inbound ModesProofs
begin

text \<open>
  Every handler of \<open>Inbound\<close> returns and keeps the user lists of all channels of the server in
  their invariant: one \<open>ul_step\<close> lemma per list operation, one lemma per handler.
\<close>

subsection \<open>Steps on one list\<close>

lemma count_prefixes_server: "sess_server (snd (count_prefixes a cs st)) = sess_server (snd st)"
  by (induction a cs st rule: count_prefixes.induct) (auto simp: update_counts_def Let_def split: prod.splits)

lemma userlist_add_server:
  assumes "userlist_add serv (m, s) name host acct real = Some (m', s')"
  shows "sess_server s' = sess_server s"
proof -
  obtain acc n where acc: "nick_access serv name = (acc, n)" by force
  from assms acc obtain nick where nick: "safe_strcpy (drop n name) NICKLEN = Some nick"
    by (cases "safe_strcpy (drop n name) NICKLEN") (auto simp: userlist_add_def)
  define u where "u = added_user serv acc n name nick host acct real"
  define m0 where "m0 = emit (Notify_set_online (drop n name)) m"
  obtain a m1 where al: "alloc_user u m0 = (a, m1)" by force
  have eq: "userlist_add serv (m, s) name host acct real =
      (case userlist_insertname serv (m1, s) a of
         None \<Rightarrow> None
       | Some ((m, sess), row) \<Rightarrow>
           if row = -1 then Some (free_user a m, sess)
           else
             let sess = sess\<lparr>total := total sess + 1\<rparr>;
                 (m, sess) = count_prefixes a (take n name) (m, sess);
                 sess = (if u_me u then sess\<lparr>me := Some a\<rparr> else sess);
                 m = emit (Fe_userlist_insert a) m
             in Some ((if end_of_names sess then emit Fe_userlist_numbers m else m), sess))"
    by (simp add: userlist_add_def acc nick al flip: u_def m0_def)
  obtain m2 s2 row where ins: "userlist_insertname serv (m1, s) a = Some ((m2, s2), row)"
    using assms unfolding eq by (auto split: option.splits)
  have s2: "sess_server s2 = sess_server s" using ins by (auto simp: userlist_insertname_def Let_def)
  obtain m3 s3 where cp: "count_prefixes a (take n name) (m2, s2\<lparr>total := total s2 + 1\<rparr>) = (m3, s3)" by force
  have "sess_server s3 = sess_server s2"
    using count_prefixes_server [of a "take n name" "(m2, s2\<lparr>total := total s2 + 1\<rparr>)"] cp by simp
  with assms s2 show ?thesis unfolding eq ins by (auto simp: cp Let_def split: if_splits)
qed

lemma userlist_remove_user_server:
  "userlist_remove_user serv (m, s) a = Some (m', s') \<Longrightarrow> sess_server s' = sess_server s"
  by (auto simp: userlist_remove_user_def Let_def dest: ul_tree_frame split: if_splits)

lemma userlist_change_server:
  assumes "userlist_change serv (m, s) old new = Some ((m', s'), b)"
  shows "sess_server s' = sess_server s"
  using assms by (auto simp: userlist_change_def Let_def dest!: ul_tree_frame split: option.splits)

lemma ul_step_set_away: "ul_inv serv st \<Longrightarrow> ul_step serv st (userlist_set_away serv st nick away)"
proof -
  assume inv: "ul_inv serv st"
  obtain m s where st: "st = (m, s)" by force
  have inv': "ul_inv serv (userlist_set_away serv st nick away)" using inv by (rule userlist_set_away_inv)
  show ?thesis
    using inv inv' userlist_findD [of serv m s nick] unfolding st
    by (auto simp: ul_step_def userlist_set_away_def Let_def split: option.splits if_splits)
qed

lemma ul_step_set_account: "ul_inv serv st \<Longrightarrow> ul_step serv st (userlist_set_account serv st nick account)"
proof -
  assume inv: "ul_inv serv st"
  obtain m s where st: "st = (m, s)" by force
  have inv': "ul_inv serv (userlist_set_account serv st nick account)" using inv by (rule userlist_set_account_inv)
  show ?thesis
    using inv inv' userlist_findD [of serv m s nick] unfolding st
    by (auto simp: ul_step_def userlist_set_account_def Let_def split: option.splits if_splits)
qed

lemma ul_step_add_hostname:
  assumes inv: "ul_inv serv st"
  shows "ul_step serv st (fst (userlist_add_hostname show_hosts serv st nick host real srv acct away))"
proof -
  obtain m s where st: "st = (m, s)" by force
  note inv' = userlist_add_hostname_inv [OF inv, of show_hosts nick host real srv acct away]
  show ?thesis
    using inv inv' userlist_findD [of serv m s nick] unfolding st
    by (auto simp: ul_step_def userlist_add_hostname_def Let_def split: option.splits if_splits)
qed

lemma ul_step_clear:
  assumes inv: "ul_inv serv st" shows "ul_step serv st (userlist_clear st)"
proof -
  obtain m s where st: "st = (m, s)" by force
  have inv': "ul_inv serv (emit Fe_userlist_clear m, s)" using inv by (simp add: st)
  obtain m1 s1 where f: "userlist_free (emit Fe_userlist_clear m, s) = (m1, s1)" by force
  have s1: "sess_server s1 = sess_server s" "sess_elems s1 = []"
    using f by (auto simp: userlist_free_def Let_def sess_elems_def)
  have h: "heap m1 = (\<lambda>b. if b \<in> set (sess_elems s) then None else heap m b)"
    using userlist_free_heap(1) [OF inv'] f by (simp add: fun_eq_iff)
  show ?thesis
    using userlist_clear_inv [OF inv] by (simp add: ul_step_def st userlist_clear_def f s1 h)
qed

lemma ul_step_remove_user:
  assumes "ul_inv serv (m, s)" "a \<in> set (sess_elems s)"
  shows "\<exists>m' s'. userlist_remove_user serv (m, s) a = Some (m', s') \<and> ul_step serv (m, s) (m', s')"
proof -
  obtain m' s' where r: "userlist_remove_user serv (m, s) a = Some (m', s')" "ul_inv serv (m', s')"
      "sess_elems s' = remove1 a (sess_elems s)" "heap m' = (heap m)(a := None)"
    using userlist_remove_user_inv [OF assms] by blast
  then show ?thesis
    using assms(2) userlist_remove_user_server [OF r(1)] by (auto simp: ul_step_def dest: subsetD [OF set_remove1_subset])
qed

lemma ul_step_remove:
  assumes "ul_inv serv (m, s)"
  shows "\<exists>st' b. userlist_remove serv (m, s) name = Some (st', b) \<and> ul_step serv (m, s) st'"
proof (cases "userlist_find serv (m, s) name")
  case None
  then show ?thesis using assms by (simp add: userlist_remove_def ul_step_refl ex_bool_eq)
next
  case (Some a)
  from ul_step_remove_user [OF assms userlist_findD [OF Some]] Some
  show ?thesis by (fastforce simp: userlist_remove_def)
qed

text \<open>Names the list accepts: no prefix twice, no truncated UTF-8 at the end, comparable.\<close>

definition joinable :: "server \<Rightarrow> string \<Rightarrow> bool" where
  "joinable serv name \<longleftrightarrow>
     (let (acc, n) = nick_access serv name in
      distinct (take n name) \<and>
      (case safe_strcpy (drop n name) NICKLEN of None \<Rightarrow> False | Some nick \<Rightarrow> name_ok serv nick))"

lemma ul_step_add:
  assumes inv: "ul_inv serv (m, s)" and ok: "prefixes_ok serv" "joinable serv name"
  shows "\<exists>m' s'. userlist_add serv (m, s) name host acct real = Some (m', s') \<and> ul_step serv (m, s) (m', s')"
proof -
  obtain acc n where acc: "nick_access serv name = (acc, n)" by force
  then obtain nick where n: "distinct (take n name)" "safe_strcpy (drop n name) NICKLEN = Some nick" "name_ok serv nick"
    using ok(2) by (auto simp: joinable_def split: option.splits)
  obtain m' s' where r: "userlist_add serv (m, s) name host acct real = Some (m', s')" "ul_inv serv (m', s')"
      "\<forall>x \<noteq> next_addr m. heap m' x = heap m x"
      and el: "if \<exists>x \<in> set (sess_elems s). p_cmp serv nick (nick_at m x) = 0
       then sess_elems s' = sess_elems s
       else set (sess_elems s') = insert (next_addr m) (set (sess_elems s)) \<and>
          nick_at m' (next_addr m) = nick \<and> u_access (user_at m' (next_addr m)) = acc"
    using userlist_add_inv [OF inv ok(1) acc n, of host acct real] by blast
  have "set (sess_elems s') \<subseteq> insert (next_addr m) (set (sess_elems s))"
    using el by (cases "\<exists>x \<in> set (sess_elems s). p_cmp serv nick (nick_at m x) = 0") auto
  moreover have fresh: "heap m (next_addr m) = None" using ul_invD(4) [OF inv] by simp
  moreover have "heap m' x = heap m x" if "heap m x \<noteq> None" for x
    using that r(3) fresh by metis
  moreover from calculation have "x \<in> set (sess_elems s) \<or> heap m x = None" if "x \<in> set (sess_elems s')" for x
    using that by auto
  ultimately have "ul_step serv (m, s) (m', s')"
    using r(2) userlist_add_server [OF r(1)] by (simp add: ul_step_def)
  with r(1) show ?thesis by blast
qed

lemma ul_step_change:
  assumes inv: "ul_inv serv (m, s)" and copy: "safe_strcpy new NICKLEN = Some nick" and nok: "name_ok serv nick"
    and free: "\<And>a x. userlist_find serv (m, s) old = Some a \<Longrightarrow> x \<in> set (sess_elems s) - {a} \<Longrightarrow>
      p_cmp serv nick (nick_at m x) \<noteq> 0"
  shows "\<exists>m' s' b. userlist_change serv (m, s) old new = Some ((m', s'), b) \<and> ul_step serv (m, s) (m', s')"
proof (cases "userlist_find serv (m, s) old")
  case None
  then show ?thesis using inv by (simp add: userlist_change_def ul_step_refl ex_bool_eq)
next
  case (Some a)
  obtain m' s' where r: "userlist_change serv (m, s) old new = Some ((m', s'), True)" "ul_inv serv (m', s')"
      "set (sess_elems s') = set (sess_elems s)" "heap m' = (heap m)(a \<mapsto> (user_at m a)\<lparr>u_nick := nick\<rparr>)"
    using userlist_change_inv [OF inv Some copy nok] free [OF Some] by blast
  then show ?thesis
    using userlist_change_server [OF r(1)] userlist_findD [OF Some] by (auto simp: ul_step_def)
qed

subsection \<open>Steps of the world\<close>

text \<open>\<open>keep w w'\<close>: the world moved on with its lists intact, the same server and the same sessions.\<close>

definition wkeep :: "world \<Rightarrow> world \<Rightarrow> bool" where
  "wkeep w w' \<longleftrightarrow> world_inv w' \<and> w_serv w' = w_serv w \<and>
     length (w_sessions w') = length (w_sessions w) \<and> (\<forall>i. is_serv w' i = is_serv w i)"

lemma wkeep_refl: "world_inv w \<Longrightarrow> wkeep w w"
  by (simp add: wkeep_def)

lemma wkeep_trans: "wkeep a b \<Longrightarrow> wkeep b c \<Longrightarrow> wkeep a c"
  by (simp add: wkeep_def)

lemma emit_frame [simp]:
  "w_sessions (w_emit c w) = w_sessions w" "w_serv (w_emit c w) = w_serv w"
  "w_sessions (call f args w) = w_sessions w" "w_serv (call f args w) = w_serv w"
  "w_sessions (signal f args w) = w_sessions w" "w_serv (signal f args w) = w_serv w"
  "w_sessions (send_line t w) = w_sessions w" "w_serv (send_line t w) = w_serv w"
  "heap (w_mem (w_emit c w)) = heap (w_mem w)"
  by (simp_all add: w_emit_def call_def signal_def send_line_def)

lemma world_inv_call [simp]:
  "world_inv (call f args w) = world_inv w" "world_inv (signal f args w) = world_inv w"
  "world_inv (send_line t w) = world_inv w"
  by (simp_all add: call_def signal_def send_line_def)

lemma put_frame [simp]:
  "w_serv (put_session i s w) = w_serv w"
  "length (w_sessions (put_session i s w)) = length (w_sessions w)"
  "w_serv (upd_session i f w) = w_serv w"
  "length (w_sessions (upd_session i f w)) = length (w_sessions w)"
  by (simp_all add: put_session_def upd_session_def)

lemma list_frame [simp]:
  "w_serv (on_list i f w) = w_serv w"
  "length (w_sessions (on_list i f w)) = length (w_sessions w)"
  by (simp_all add: on_list_def put_session_def split: prod.splits)

lemma world_inv_upd [simp]:
  assumes "world_inv w" "i < length (w_sessions w)" "\<And>s. same_list (f s) s"
  shows "world_inv (upd_session i f w)"
  unfolding upd_session_def using assms world_inv_put [of w i] by (simp add: sess_at_def)

declare same_list_def [simp]

lemma is_serv_frame [simp]:
  "is_serv (w_emit c w) i = is_serv w i" "is_serv (call f args w) i = is_serv w i"
  "is_serv (signal f args w) i = is_serv w i" "is_serv (send_line t w) i = is_serv w i"
  "sess_at (w_emit c w) i = sess_at w i" "sess_at (call f args w) i = sess_at w i"
  "sess_at (signal f args w) i = sess_at w i" "sess_at (send_line t w) i = sess_at w i"
  by (simp_all add: is_serv_def sess_at_def)

lemma is_serv_put: "sess_server s = sess_server (sess_at w i) \<Longrightarrow> is_serv (put_session i s w) j = is_serv w j"
  by (cases "i = j"; cases "i < length (w_sessions w)") (simp_all add: is_serv_def sess_at_def put_session_def list_update_beyond)

lemma is_serv_put_mem:
  "sess_server s = sess_server (sess_at w i) \<Longrightarrow> is_serv (put_session i s (w\<lparr>w_mem := m\<rparr>)) j = is_serv w j"
  by (cases "i = j"; cases "i < length (w_sessions w)")
    (simp_all add: is_serv_def sess_at_def put_session_def list_update_beyond)

lemma is_serv_upd [simp]: "(\<And>s. same_list (f s) s) \<Longrightarrow> is_serv (upd_session i f w) j = is_serv w j"
  unfolding upd_session_def by (rule is_serv_put) (simp add: same_list_def)

lemma world_inv_list:
  assumes "world_inv w" "i < length (w_sessions w)" "is_serv w i"
  shows "ul_inv (w_serv w) (w_mem w, sess_at w i)" "prefixes_ok (w_serv w)"
  using assms by (simp_all add: world_inv_def is_serv_def sess_at_def)

lemma world_inv_on_list:
  assumes "world_inv w" "i < length (w_sessions w)" "is_serv w i"
    and "\<And>st. ul_inv (w_serv w) st \<Longrightarrow> ul_step (w_serv w) st (f st)"
  shows "world_inv (on_list i f w)"
proof -
  obtain m' s' where f: "f (w_mem w, sess_at w i) = (m', s')" by force
  have "ul_step (w_serv w) (w_mem w, sess_at w i) (m', s')"
    using assms(4) [OF world_inv_list(1) [OF assms(1-3)]] f by simp
  from world_inv_step [OF assms(1,2) _ this [unfolded sess_at_def]] assms(3)
  show ?thesis by (simp add: on_list_def f [unfolded sess_at_def] is_serv_def sess_at_def)
qed

lemma wkeep_try_list:
  assumes "world_inv w" "i < length (w_sessions w)" "is_serv w i"
    and "\<exists>m' s'. f (w_mem w, sess_at w i) = Some (m', s') \<and> ul_step (w_serv w) (w_mem w, sess_at w i) (m', s')"
  shows "\<exists>w'. try_list i f w = Some w' \<and> wkeep w w'"
proof -
  obtain m' s' where f: "f (w_mem w, sess_at w i) = Some (m', s')"
      and step: "ul_step (w_serv w) (w_mem w, sess_at w i) (m', s')"
    using assms(4) by blast
  have "world_inv (put_session i s' (w\<lparr>w_mem := m'\<rparr>))"
    using world_inv_step [OF assms(1,2) _ step [unfolded sess_at_def]] assms(3)
    by (simp add: is_serv_def sess_at_def)
  moreover have "sess_server s' = sess_server (sess_at w i)" using step by (simp add: ul_step_def)
  ultimately show ?thesis by (simp add: try_list_def f wkeep_def is_serv_put_mem)
qed

lemma find_channel_serv:
  "find_channel w chan = Some i \<Longrightarrow> i < length (w_sessions w) \<and> is_serv w i"
  using find_channel_Some [of w chan i] by (simp add: is_serv_def sess_at_def)

lemma find_session_serv:
  "find_session P w = Some i \<Longrightarrow> i < length (w_sessions w) \<and> is_serv w i \<and> P (sess_at w i)"
proof -
  assume "find_session P w = Some i"
  then have "i \<in> set (filter (\<lambda>i. is_serv w i \<and> P (sess_at w i)) [0..<length (w_sessions w)])"
    unfolding find_session_def by (auto simp del: set_filter split: list.splits)
  then show ?thesis by simp
qed

text \<open>Loops: an invariant that may speak of the sessions still to come.\<close>

lemma run_all_inv:
  assumes "Inv is w"
    and "\<And>i is w. Inv (i # is) w \<Longrightarrow> is_serv w i \<Longrightarrow> \<exists>w'. f i w = Some w' \<and> Inv is w'"
    and "\<And>i is w. Inv (i # is) w \<Longrightarrow> \<not> is_serv w i \<Longrightarrow> Inv is w"
  shows "\<exists>w'. run_all f is w = Some w' \<and> Inv [] w'"
  using assms(1)
proof (induction "is" arbitrary: w)
  case (Cons i "is")
  show ?case
  proof (cases "is_serv w i")
    case True
    then obtain w' where "f i w = Some w'" "Inv is w'" using assms(2) Cons.prems by blast
    with True Cons.IH show ?thesis by simp
  qed (use assms(3) Cons in simp)
qed simp

lemma each_session_keep:
  assumes "world_inv w"
    and "\<And>i v. world_inv v \<Longrightarrow> w_serv v = w_serv w \<Longrightarrow> i < length (w_sessions v) \<Longrightarrow> is_serv v i \<Longrightarrow>
      \<exists>v'. f i v = Some v' \<and> wkeep v v'"
  shows "\<exists>w'. each_session f w = Some w' \<and> wkeep w w'"
proof -
  have "\<exists>w'. run_all f [0..<length (w_sessions w)] w = Some w' \<and>
      (wkeep w w' \<and> (\<forall>i \<in> set []. i < length (w_sessions w)))"
  proof (rule run_all_inv [where Inv = "\<lambda>is v. wkeep w v \<and> (\<forall>i \<in> set is. i < length (w_sessions w))"])
    fix i "is" v
    assume v: "wkeep w v \<and> (\<forall>i \<in> set (i # is). i < length (w_sessions w))" "is_serv v i"
    then have "world_inv v" "w_serv v = w_serv w" "i < length (w_sessions v)" by (simp_all add: wkeep_def)
    then obtain v' where "f i v = Some v'" "wkeep v v'" using assms(2) v(2) by blast
    with v show "\<exists>w'. f i v = Some w' \<and> wkeep w w' \<and> (\<forall>i \<in> set is. i < length (w_sessions w))"
      using wkeep_trans by auto
  qed (use wkeep_refl [OF assms(1)] in auto)
  then show ?thesis by (simp add: each_session_def)
qed

subsection \<open>The handlers\<close>

text \<open>The handler returned, with the lists intact.\<close>

definition okw :: "world option \<Rightarrow> bool" where
  "okw r \<longleftrightarrow> (\<exists>w. r = Some w \<and> world_inv w)"

lemma okw_Some [simp]: "okw (Some w) = world_inv w"
  by (simp add: okw_def)

lemma okw_if: "(b \<Longrightarrow> okw x) \<Longrightarrow> (\<not> b \<Longrightarrow> okw y) \<Longrightarrow> okw (if b then x else y)"
  by simp

lemma okw_map: "okw r \<Longrightarrow> (\<And>w. world_inv w \<Longrightarrow> world_inv (f w)) \<Longrightarrow> okw (map_option f r)"
  by (auto simp: okw_def)

lemma okw_keep: "\<exists>w'. r = Some w' \<and> wkeep w w' \<Longrightarrow> okw r"
  by (auto simp: okw_def wkeep_def)

lemma userlist_clear_server: "sess_server (snd (userlist_clear st)) = sess_server (snd st)"
  by (cases st) (simp add: userlist_clear_def userlist_free_def Let_def)

lemma is_serv_clear [simp]: "is_serv (on_list i userlist_clear w) j = is_serv w j"
proof -
  obtain m s where c: "userlist_clear (w_mem w, sess_at w i) = (m, s)" by force
  then have "sess_server s = sess_server (sess_at w i)"
    using userlist_clear_server [of "(w_mem w, sess_at w i)"] by simp
  then have "sess_server s = sess_server (sess_at (w\<lparr>w_mem := m\<rparr>) i)" by (simp add: sess_at_def)
  from is_serv_put [OF this, of j] show ?thesis by (simp add: on_list_def c [unfolded sess_at_def] is_serv_def sess_at_def)
qed

lemma world_inv_clear [simp]:
  "world_inv w \<Longrightarrow> i < length (w_sessions w) \<Longrightarrow> is_serv w i \<Longrightarrow> world_inv (on_list i userlist_clear w)"
  by (rule world_inv_on_list) (auto intro: ul_step_clear)

lemma clear_channel_keep [simp]:
  "world_inv w \<Longrightarrow> i < length (w_sessions w) \<Longrightarrow> is_serv w i \<Longrightarrow> world_inv (clear_channel i w)"
  "w_serv (clear_channel i w) = w_serv w"
  "length (w_sessions (clear_channel i w)) = length (w_sessions w)"
  by (simp_all add: clear_channel_def Let_def)

lemma inbound_upart_ok: "world_inv w \<Longrightarrow> okw (Some (inbound_upart chan ip reason w))"
  by (simp add: inbound_upart_def find_channel_serv split: option.split)

lemma inbound_ukick_ok:
  assumes "world_inv w" "safe_strcpy chan CHANLEN \<noteq> None"
  shows "okw (inbound_ukick pf chan kicker reason w)"
  using assms by (auto simp: inbound_ukick_def find_channel_serv Let_def split: option.split)

lemma set_topic_keep [simp]:
  "world_inv w \<Longrightarrow> i < length (w_sessions w) \<Longrightarrow> world_inv (set_topic i t1 t2 w)"
  "w_serv (set_topic i t1 t2 w) = w_serv w"
  "length (w_sessions (set_topic i t1 t2 w)) = length (w_sessions w)"
  "is_serv (set_topic i t1 t2 w) j = is_serv w j"
  "w_sessions (set_topic i t1 t2 w) = [] \<longleftrightarrow> w_sessions w = []"
  by (simp_all add: set_topic_def) (simp add: upd_session_def put_session_def)

lemma strip_all_Some: "\<exists>t. strip_all s = Some t"
  by (simp add: strip_all_def strip_color_def strip_color2_def)

lemma inbound_topic_ok: "world_inv w \<Longrightarrow> okw (inbound_topic chan t w)"
  using strip_all_Some [of t] by (auto simp: inbound_topic_def find_channel_serv split: option.split)

lemma inbound_topicnew_ok: "world_inv w \<Longrightarrow> okw (inbound_topicnew nick chan t w)"
  using strip_all_Some [of t] by (auto simp: inbound_topicnew_def find_channel_serv split: option.split)

lemma try_add_keep:
  assumes "world_inv w" "i < length (w_sessions w)" "is_serv w i" "joinable (w_serv w) name"
  shows "\<exists>w'. try_list i (\<lambda>st. userlist_add (w_serv w) st name host acct real) w = Some w' \<and> wkeep w w'"
  using ul_step_add [OF world_inv_list [OF assms(1-3)] assms(4)] by (rule wkeep_try_list [OF assms(1-3)])

lemma inbound_join_ok:
  assumes "world_inv w" "joinable (w_serv w) user"
  shows "okw (inbound_join chan user ip account realname w)"
proof (cases "find_channel w chan")
  case (Some i)
  have "okw (try_list i (\<lambda>st. userlist_add (w_serv w) st user (Some ip) account (Some realname))
      (signal ''JOIN'' [user, chan, ip, acct] w))" for acct
    using try_add_keep [of "signal ''JOIN'' [user, chan, ip, acct] w" i user] assms find_channel_serv [OF Some]
    by (auto intro!: okw_keep)
  then show ?thesis by (auto simp: inbound_join_def Some Let_def intro: okw_map)
qed (use assms in \<open>simp add: inbound_join_def\<close>)

lemma remove_from_keep:
  assumes "world_inv w" "i < length (w_sessions w)" "is_serv w i"
  shows "\<exists>w'. remove_from i user w = Some w' \<and> wkeep w w'"
  unfolding remove_from_def
  by (rule wkeep_try_list [OF assms]) (use ul_step_remove [OF world_inv_list(1) [OF assms], of user] in fastforce)

lemma account_cleared_inv [simp]: "world_inv (account_cleared a w) = world_inv w"
  by (simp add: account_cleared_def split: option.split)

lemma remove_from_ok:
  "world_inv w \<Longrightarrow> i < length (w_sessions w) \<Longrightarrow> is_serv w i \<Longrightarrow> okw (remove_from i user w)"
  by (rule okw_keep) (rule remove_from_keep)

lemma inbound_kick_ok: "world_inv w \<Longrightarrow> okw (inbound_kick chan user kicker reason w)"
  by (cases "find_channel w chan")
    (simp_all add: inbound_kick_def Let_def okw_map remove_from_ok find_channel_serv)

lemma inbound_part_ok: "world_inv w \<Longrightarrow> okw (inbound_part chan user ip reason w)"
  by (cases "find_channel w chan")
    (simp_all add: inbound_part_def Let_def okw_map remove_from_ok find_channel_serv)

lemma try_remove_user_keep:
  assumes "world_inv w" "i < length (w_sessions w)" "is_serv w i" "find_user w i nick = Some a"
  shows "\<exists>w'. try_list i (\<lambda>st. userlist_remove_user (w_serv w) st a) w = Some w' \<and> wkeep w w'"
proof (rule wkeep_try_list [OF assms(1-3)])
  have "a \<in> set (sess_elems (sess_at w i))"
    using assms(4) unfolding find_user_def by (rule userlist_findD)
  from ul_step_remove_user [OF world_inv_list(1) [OF assms(1-3)] this]
  show "\<exists>m' s'. userlist_remove_user (w_serv w) (w_mem w, sess_at w i) a = Some (m', s') \<and>
      ul_step (w_serv w) (w_mem w, sess_at w i) (m', s')" .
qed

lemma find_cmp_emit [simp]: "find_cmp serv (emit c m) = find_cmp serv m"
  by (simp add: find_cmp_def fun_eq_iff)

lemma find_user_emit [simp]:
  "find_user (w_emit c w) i nick = find_user w i nick"
  "find_user (signal f args w) i nick = find_user w i nick"
  "find_user (call f args w) i nick = find_user w i nick"
  by (simp_all add: find_user_def userlist_find_def w_emit_def signal_def call_def sess_at_def cong: option.case_cong)

lemma quit_loop_keep:
  assumes "world_inv w" "\<forall>i \<in> set is. i < length (w_sessions w)"
  shows "\<exists>w' f a. quit_loop nick ip reason is w front account = Some (w', f, a) \<and> world_inv w'"
  using assms
proof (induction "is" arbitrary: w front account)
  case (Cons i "is")
  show ?case
  proof (cases "is_serv w i")
    case serv: True
    show ?thesis
    proof (cases "find_user w i nick")
      case (Some a)
      let ?w = "signal ''QUIT'' [nick, reason, ip] w"
      obtain w' where w': "try_list i (\<lambda>st. userlist_remove_user (w_serv w) st a) ?w = Some w'" "wkeep ?w w'"
        using try_remove_user_keep [of ?w i nick a] Cons.prems serv Some by auto
      with Cons.IH [of w' "i = w_current w \<or> front"] Cons.prems show ?thesis
        using serv Some by (simp add: Let_def wkeep_def)
    qed (use serv Cons in \<open>simp add: Let_def\<close>)
  qed (use Cons in simp)
qed simp

lemma inbound_quit_ok: "world_inv w \<Longrightarrow> okw (inbound_quit nick ip reason w)"
  using quit_loop_keep [of w "[0..<length (w_sessions w)]" nick ip reason False None]
  by (auto simp: inbound_quit_def okw_def)

lemma on_list_keep:
  assumes "world_inv v" "i < length (w_sessions v)" "is_serv v i"
    "\<And>st. ul_inv (w_serv v) st \<Longrightarrow> ul_step (w_serv v) st (f st)"
  shows "wkeep v (on_list i f v)"
proof -
  obtain m s where f: "f (w_mem v, sess_at v i) = (m, s)" by force
  have "sess_server s = sess_server (sess_at v i)"
    using assms(4) [OF world_inv_list(1) [OF assms(1-3)]] f by (simp add: ul_step_def)
  then have "is_serv (on_list i f v) j = is_serv v j" for j
    by (simp add: on_list_def f is_serv_put_mem)
  with assms world_inv_on_list [of v i f] show ?thesis by (simp add: wkeep_def)
qed

lemma each_list_ok:
  assumes "world_inv w" "\<And>v st. ul_inv (w_serv v) st \<Longrightarrow> ul_step (w_serv v) st (f v st)"
  shows "okw (each_session (\<lambda>i v. Some (on_list i (f v) v)) w)"
  by (rule okw_keep, rule each_session_keep)
    (use assms in \<open>auto intro!: on_list_keep\<close>)

lemma set_all_away_ok: "world_inv w \<Longrightarrow> okw (set_all_away nick status w)"
  unfolding set_all_away_def by (rule each_list_ok) (auto intro: ul_step_set_away)

lemma inbound_account_ok: "world_inv w \<Longrightarrow> okw (inbound_account nick account w)"
  unfolding inbound_account_def Let_def
  by (rule okw_map, rule each_list_ok) (auto intro: ul_step_set_account)

text \<open>The fields the invariant does not read.\<close>

lemma p_cmp_frame [simp]:
  "p_cmp (serv\<lparr>serv_nick := n\<rparr>) = p_cmp serv" "name_ok (serv\<lparr>serv_nick := n\<rparr>) = name_ok serv"
  "p_cmp (serv\<lparr>is_away := b\<rparr>) = p_cmp serv" "name_ok (serv\<lparr>is_away := b\<rparr>) = name_ok serv"
  by (simp_all add: p_cmp_def name_ok_def fun_eq_iff)

lemma ul_inv_serv [simp]:
  "ul_inv (serv\<lparr>serv_nick := n\<rparr>) st = ul_inv serv st" "ul_inv (serv\<lparr>is_away := b\<rparr>) st = ul_inv serv st"
  by (simp_all add: ul_inv_def arr_inv_def flags_ok_def has_bit_def)

lemma world_inv_serv [simp]:
  "world_inv (w\<lparr>w_serv := (w_serv w)\<lparr>serv_nick := n\<rparr>\<rparr>) = world_inv w"
  "world_inv (w\<lparr>w_serv := (w_serv w)\<lparr>is_away := b\<rparr>\<rparr>) = world_inv w"
  "world_inv (w\<lparr>w_away := a\<rparr>) = world_inv w"
  by (simp_all add: world_inv_def prefixes_ok_def)

lemma inbound_uaway_ok: "world_inv w \<Longrightarrow> okw (inbound_uaway w)"
  and inbound_uback_ok: "world_inv w \<Longrightarrow> okw (inbound_uback w)"
  and inbound_user_info_start_ok: "world_inv w \<Longrightarrow> okw (inbound_user_info_start nick w)"
  by (simp_all add: inbound_uaway_def inbound_uback_def inbound_user_info_start_def set_all_away_ok)

lemma server_away_save_ok:
  assumes "world_inv w" "safe_strcpy nick NICKLEN \<noteq> None"
  shows "okw (server_away_save_message nick msg w)"
  using assms by (auto simp: server_away_save_message_def)

lemma inbound_away_ok:
  assumes "world_inv w" "safe_strcpy nick NICKLEN \<noteq> None"
  shows "okw (inbound_away pf inside skip nick msg w)"
proof -
  have "okw (set_all_away nick 1 (if b then signal ''WHOIS5'' [nick, msg] v else v))" if "world_inv v" for b v
    using that by (simp add: set_all_away_ok)
  moreover obtain v where "server_away_save_message nick msg w = Some v" "world_inv v"
    using server_away_save_ok [OF assms, of msg] by (auto simp: okw_def)
  ultimately show ?thesis using assms(1) by (simp add: inbound_away_def Let_def)
qed

lemma inbound_away_notify_ok:
  assumes "world_inv w" shows "okw (inbound_away_notify is_in_list nick reason w)"
proof -
  have keep: "world_inv v \<Longrightarrow> serv = w_serv v \<Longrightarrow> i < length (w_sessions v) \<Longrightarrow> is_serv v i \<Longrightarrow>
      wkeep v (on_list i (\<lambda>st. userlist_set_away serv st nick a) v)" for v i a serv
    by (rule on_list_keep) (auto intro: ul_step_set_away)
  have sig: "wkeep u v \<Longrightarrow> wkeep u (signal ev args v)" for u v ev args
    by (simp add: wkeep_def)
  show ?thesis
    unfolding inbound_away_notify_def Let_def
    by (rule okw_keep, rule each_session_keep [OF assms]) (auto intro!: keep sig split: option.split)
qed

lemma inbound_user_info_ok:
  assumes "world_inv w"
  shows "okw (inbound_user_info pf dns chan user host servname nick realname account away w)"
proof -
  define uhost where "uhost = (case (user, host) of (Some u, Some h) \<Rightarrow> Some (u @ ''@'' @ h) | _ \<Rightarrow> None)"
  define add where "add = (\<lambda>i w. on_list i (\<lambda>st. fst (userlist_add_hostname (gui_ulist_show_hosts pf) (w_serv w) st nick
      uhost realname servname account away)) w)"
  have add: "wkeep v (add i v)" if "world_inv v" "i < length (w_sessions v)" "is_serv v i" for i v
    unfolding add_def by (rule on_list_keep [OF that]) (rule ul_step_add_hostname)
  have one: "okw (case find_channel w c of
       Some i \<Rightarrow> Some (add i w)
     | None \<Rightarrow> Some (case host of Some h \<Rightarrow> if dns then call ''do_dns'' [nick, h] w else w | None \<Rightarrow> w))" for c
    using add [OF assms] assms find_channel_serv
    by (auto simp: wkeep_def split: option.split)
  have tpc: "wkeep v (set_topic i t1 t2 v)" if "world_inv v" "i < length (w_sessions v)" for i v t1 t2
    using that by (simp add: wkeep_def)
  have all: "okw (each_session (\<lambda>i w.
       if sess_type (sess_at w i) = SESS_CHANNEL then Some (add i w)
       else if sess_type (sess_at w i) = SESS_DIALOG \<and> uhost \<noteq> None \<and> p_cmp (w_serv w) (channel (sess_at w i)) nick = 0
       then Some (set_topic i (the uhost) (the uhost) w) else Some w) w)"
    by (rule okw_keep, rule each_session_keep [OF assms]) (auto intro: add tpc wkeep_refl)
  show ?thesis
    unfolding inbound_user_info_def Let_def uhost_def [symmetric] add_def [symmetric]
  proof (rule okw_map, goal_cases)
    case 1
    show ?case by (cases chan) (simp_all only: option.case one [unfolded add_def] all [unfolded add_def])
  next
    case (2 v)
    then show ?case by (simp split: option.split list.split)
  qed
qed

subsection \<open>NAMES, nick changes and our own joins\<close>

text \<open>The entries of a NAMES line can be read and added.\<close>

definition names_ok :: "server \<Rightarrow> string list \<Rightarrow> bool" where
  "names_ok serv items \<longleftrightarrow>
     list_all (\<lambda>item. item = [] \<or>
       (case names_entry serv item of None \<Rightarrow> False | Some (name, host) \<Rightarrow> joinable serv name)) items"

lemma nameslist_loop_keep:
  assumes "world_inv w" "i < length (w_sessions w)" "is_serv w i" "names_ok (w_serv w) items"
  shows "okw (nameslist_loop i items w)"
  using assms
proof (induction i items w rule: nameslist_loop.induct)
  case (2 i item items w)
  show ?case
  proof (cases "item = []")
    case False
    obtain name host where e: "names_entry (w_serv w) item = Some (name, host)" "joinable (w_serv w) name"
      using "2.prems"(4) False by (auto simp: names_ok_def split: option.splits)
    obtain w' where w': "try_list i (\<lambda>st. userlist_add (w_serv w) st name host None None) w = Some w'" "wkeep w w'"
      using try_add_keep [OF "2.prems"(1-3) e(2)] by blast
    have "names_ok (w_serv w') items" using w'(2) "2.prems"(4) by (simp add: wkeep_def names_ok_def)
    then have "okw (nameslist_loop i items w')"
      using "2.IH"(2) [OF False e(1) refl w'(1)] w'(2) "2.prems"(1-3) by (simp add: wkeep_def)
    then show ?thesis using False e(1) w'(1) by simp
  qed (use 2 in \<open>simp add: names_ok_def\<close>)
qed simp

lemma inbound_nameslist_ok:
  assumes "world_inv w" "find_channel w chan \<noteq> None \<Longrightarrow> names_ok (w_serv w) (g_strsplit names (CHR '' ''))"
  shows "okw (inbound_nameslist chan names w)"
proof (cases "find_channel w chan")
  case (Some i)
  note c = find_channel_serv [OF Some]
  show ?thesis
    unfolding inbound_nameslist_def Some option.case Let_def
    by (rule nameslist_loop_keep) (use assms Some c in auto)
qed (use assms in \<open>simp add: inbound_nameslist_def\<close>)

lemma names_done_keep: "world_inv v \<Longrightarrow> i < length (w_sessions v) \<Longrightarrow> wkeep v (names_done i v)"
  by (simp add: names_done_def wkeep_def)

lemma inbound_nameslist_end_ok:
  assumes "world_inv w"
  shows "\<exists>w' b. inbound_nameslist_end chan w = Some (w', b) \<and> world_inv w'"
proof (cases "chan = ''*''")
  case True
  have "okw (each_session (\<lambda>i w. Some (names_done i w)) w)"
    by (rule okw_keep, rule each_session_keep [OF assms]) (auto intro: names_done_keep)
  then show ?thesis by (auto simp: inbound_nameslist_end_def True okw_def)
next
  case False
  then show ?thesis
    using assms names_done_keep [OF assms] find_channel_serv [of w chan]
    by (auto simp: inbound_nameslist_end_def wkeep_def split: option.split)
qed

lemma session_new_ok:
  assumes "world_inv w" "session_new from ty w = Some w'"
  shows "world_inv w'" "0 < length (w_sessions w')" "is_serv w' 0" "w_serv w' = w_serv w"
proof -
  obtain name where n: "safe_strcpy from CHANLEN = Some name"
      "w' = call ''fe_new_window'' [name] (w\<lparr>w_sessions := new_session (serv_addr (w_serv w)) ty name # w_sessions w,
         w_front := Suc (w_front w), w_server_sess := Suc (w_server_sess w), w_current := Suc (w_current w)\<rparr>)"
    using assms(2) by (auto simp: session_new_def split: option.splits)
  let ?ns = "new_session (serv_addr (w_serv w)) ty name"
  have el: "sess_elems ?ns = []" by (simp add: new_session_def sess_elems_def)
  have "ul_inv (w_serv w) (w_mem w, ?ns)"
    using assms(1) by (intro new_session_inv) (simp add: world_inv_def)
  with assms(1) show "world_inv w'"
    unfolding n(2) world_inv_call by (auto simp: world_inv_def nth_Cons el split: nat.split)
  show "0 < length (w_sessions w')" "is_serv w' 0" "w_serv w' = w_serv w"
    unfolding n(2) by (simp_all add: is_serv_def sess_at_def new_session_def)
qed

lemma new_ircwindow_ok:
  assumes inv: "world_inv w" and copy: "safe_strcpy name CHANLEN \<noteq> None"
  shows "\<exists>w'. new_ircwindow name ty w = Some w' \<and> world_inv w' \<and> 0 < length (w_sessions w') \<and>
    is_serv w' 0 \<and> w_serv w' = w_serv w"
proof -
  obtain v where v: "session_new name ty w = Some v" using copy by (auto simp: session_new_def)
  from session_new_ok [OF inv v] show ?thesis
    by (simp add: new_ircwindow_def v Let_def split: option.split)
qed

lemma inbound_ujoin_ok:
  assumes inv: "world_inv w" and copy: "safe_strcpy chan CHANLEN \<noteq> None"
  shows "okw (inbound_ujoin pf dup dref chan nick ip td w)"
proof -
  define found where "found = (case find_channel w chan of
       Some i \<Rightarrow> Some (i, False)
     | None \<Rightarrow> (case find_session_from_waitchannel chan w of
                  Some i \<Rightarrow> Some (i, False)
                | None \<Rightarrow> map_option (\<lambda>i. (i, True)) (find_unused_session w)))"
  have found: "i < length (w_sessions w) \<and> is_serv w i" if "found = Some (i, b)" for i b
    using that find_channel_serv [of w chan] find_session_serv [of _ w]
    unfolding found_def find_session_from_waitchannel_def find_unused_session_def
    by (auto split: option.splits)
  obtain i b v where sel: "(case found of
       Some (i, found_unused) \<Rightarrow> Some (i, found_unused, w)
     | None \<Rightarrow> map_option (\<lambda>w. (0, False, w)) (new_ircwindow chan SESS_CHANNEL w)) = Some (i, b, v)"
    and v: "world_inv v" "i < length (w_sessions v)" "is_serv v i"
    using found inv new_ircwindow_ok [OF inv copy, of SESS_CHANNEL] by (cases found) auto
  obtain name where name: "safe_strcpy chan CHANLEN = Some name" using copy by auto
  show ?thesis
    unfolding inbound_ujoin_def Let_def found_def [symmetric] sel option.case prod.case name
    using v by (simp split: option.split)
qed

text \<open>Nobody else in the channels of the user has its new nick.\<close>

definition nick_free :: "world \<Rightarrow> nat \<Rightarrow> string \<Rightarrow> string \<Rightarrow> bool" where
  "nick_free w i old new \<longleftrightarrow>
     (\<forall>a. find_user w i old = Some a \<longrightarrow>
        (\<forall>x \<in> set (sess_elems (sess_at w i)) - {a}. p_cmp (w_serv w) new (nick_at (w_mem w) x) \<noteq> 0))"

lemma find_user_cong:
  assumes "usertree (sess_at v i) = usertree (sess_at w i)" "w_serv v = w_serv w"
    "\<And>x. x \<in> set (sess_elems (sess_at w i)) \<Longrightarrow> nick_at (w_mem v) x = nick_at (w_mem w) x"
  shows "find_user v i nick = find_user w i nick"
proof (cases "usertree (sess_at w i)")
  case None
  then show ?thesis using assms(1) by (simp add: find_user_def userlist_find_def)
next
  case (Some t)
  have "mybsearch (find_cmp (w_serv w) (w_mem v)) nick (elems t) l u =
      mybsearch (find_cmp (w_serv w) (w_mem w)) nick (elems t) l u" if "u \<le> length (elems t)" for l u
    using that assms(3) Some
  proof (induction "find_cmp (w_serv w) (w_mem v)" nick "elems t" l u rule: mybsearch.induct)
    case (1 key l u)
    have "find_cmp (w_serv w) (w_mem v) key (elems t ! ((l + u) div 2)) =
        find_cmp (w_serv w) (w_mem w) key (elems t ! ((l + u) div 2))" if "l < u"
      using 1(4) [of "elems t ! ((l + u) div 2)"] 1(3) 1(5) that
      by (simp add: find_cmp_def sess_elems_def)
    with 1 show ?case
      by (subst (1 2) mybsearch.simps) (simp add: Let_def)
  qed
  then show ?thesis
    using assms(1,2) Some by (simp add: find_user_def userlist_find_def tree_find_def)
qed

lemma nick_free_step:
  assumes inv: "world_inv v" "j < length (w_sessions v)" "is_serv v j" and free: "nick_free v j old new"
    and i: "i < length (w_sessions v)" "is_serv v i" "i \<noteq> j"
    and step: "ul_step (w_serv v) (w_mem v, sess_at v i) (m', s')"
    and v': "w_serv v' = w_serv v" "sess_at v' j = sess_at v j" "heap (w_mem v') = heap m'"
  shows "nick_free v' j old new"
proof -
  have disj: "set (sess_elems (sess_at v j)) \<inter> set (sess_elems (sess_at v i)) = {}"
    using inv i by (simp add: world_inv_def is_serv_def sess_at_def)
  have same: "nick_at (w_mem v') x = nick_at (w_mem v) x" if x: "x \<in> set (sess_elems (sess_at v j))" for x
  proof -
    have "heap (w_mem v) x \<noteq> None" using ul_invD(3) [OF world_inv_list(1) [OF inv] x] by simp
    moreover have "x \<notin> set (sess_elems (sess_at v i))" using disj x by blast
    ultimately have "heap m' x = heap (w_mem v) x" using step unfolding ul_step_def fst_conv snd_conv by blast
    then show ?thesis by (simp add: nick_at_def user_at_def v'(3))
  qed
  have "find_user v' j old = find_user v j old"
    by (rule find_user_cong) (simp_all add: v' same)
  then show ?thesis using free by (simp add: nick_free_def v' same)
qed

lemma newnick_session_step:
  assumes inv: "world_inv v" "i < length (w_sessions v)" "is_serv v i"
    and copy: "safe_strcpy new NICKLEN = Some n" "safe_strcpy new CHANLEN = Some n2"
    and ok: "name_ok (w_serv v) n" "nick_free v i nick n"
  shows "\<exists>v' m' s'. newnick_session is_me nick new quiet i v = Some v' \<and>
    wkeep v v' \<and> ul_step (w_serv v) (w_mem v, sess_at v i) (m', s') \<and> heap (w_mem v') = heap m' \<and>
    (\<forall>j. j \<noteq> i \<longrightarrow> sess_at v' j = sess_at v j)"
proof -
  obtain m' s' b where ch: "userlist_change (w_serv v) (w_mem v, sess_at v i) nick new = Some ((m', s'), b)"
      and step: "ul_step (w_serv v) (w_mem v, sess_at v i) (m', s')"
    using ul_step_change [OF world_inv_list(1) [OF inv] copy(1) ok(1)] ok(2)
    unfolding nick_free_def find_user_def by blast
  define P where "P u \<longleftrightarrow> wkeep v u \<and> heap (w_mem u) = heap m' \<and> (\<forall>j. j \<noteq> i \<longrightarrow> sess_at u j = sess_at v j)" for u
  let ?w = "put_session i s' (v\<lparr>w_mem := m'\<rparr>)"
  have "wkeep v ?w"
    using world_inv_step [OF inv(1,2) _ step [unfolded sess_at_def]] inv(3) step
    by (simp add: wkeep_def is_serv_put_mem ul_step_def) (simp add: is_serv_def sess_at_def)
  then have w: "P ?w" by (simp add: P_def) (simp add: sess_at_def put_session_def)
  have upd: "P (upd_session i (\<lambda>s. s\<lparr>channel := n2\<rparr>) u)" if "P u" for u
  proof -
    have "wkeep v (upd_session i (\<lambda>s. s\<lparr>channel := n2\<rparr>) u)"
      using that inv(2) by (simp add: wkeep_def P_def)
    with that show ?thesis by (simp add: P_def) (simp add: sess_at_def put_session_def upd_session_def)
  qed
  have sig: "P (signal ev args u) = P u" "P (call ev args u) = P u" "P (w_emit c u) = P u" for ev args c u
    unfolding P_def wkeep_def by (simp_all add: signal_def call_def)
  have "P (if c then signal ev args ?w else ?w)" for c ev args
    using w by (simp add: sig)
  then have "\<exists>v'. newnick_session is_me nick new quiet i v = Some v' \<and> P v'"
    unfolding newnick_session_def ch copy(2) option.case prod.case Let_def
    by (simp add: sig upd del: if_split split: if_split)
  then show ?thesis using step unfolding P_def by blast
qed

lemma newnick_loop:
  assumes inv: "world_inv w"
    and copy: "safe_strcpy new NICKLEN = Some n" "safe_strcpy new CHANLEN = Some n2" and ok: "name_ok (w_serv w) n"
    and free: "\<And>i. i < length (w_sessions w) \<Longrightarrow> is_serv w i \<Longrightarrow> nick_free w i nick n"
  shows "okw (each_session (newnick_session is_me nick new quiet) w)"
proof -
  define Inv where "Inv is v \<longleftrightarrow> wkeep w v \<and> distinct is \<and>
      (\<forall>i \<in> set is. i < length (w_sessions w) \<and> (is_serv w i \<longrightarrow> nick_free v i nick n))" for "is" v
  have "\<exists>w'. run_all (newnick_session is_me nick new quiet) [0..<length (w_sessions w)] w = Some w' \<and> Inv [] w'"
  proof (rule run_all_inv)
    show "Inv [0..<length (w_sessions w)] w" using free inv by (simp add: Inv_def wkeep_refl)
    fix i "is" v
    assume I: "Inv (i # is) v"
    then have v: "world_inv v" "w_serv v = w_serv w" "length (w_sessions v) = length (w_sessions w)"
        "\<And>j. is_serv v j = is_serv w j"
      by (simp_all add: Inv_def wkeep_def)
    show "Inv is v" if "\<not> is_serv v i" using I by (simp add: Inv_def)
    assume s: "is_serv v i"
    have i: "i < length (w_sessions v)" "nick_free v i nick n" "name_ok (w_serv v) n"
      using I s ok by (simp_all add: Inv_def v)
    obtain v' m' s' where st: "newnick_session is_me nick new quiet i v = Some v'" "wkeep v v'"
        "ul_step (w_serv v) (w_mem v, sess_at v i) (m', s')" "heap (w_mem v') = heap m'"
        "\<And>j. j \<noteq> i \<Longrightarrow> sess_at v' j = sess_at v j"
      using newnick_session_step [OF v(1) i(1) s copy i(3,2), of is_me quiet] by blast
    have "nick_free v' j nick n" if j: "j \<in> set is" "is_serv w j" for j
    proof -
      have ij: "i \<noteq> j" using I j(1) by (auto simp: Inv_def)
      show ?thesis
    proof (rule nick_free_step [OF v(1) _ _ _ i(1) s _ st(3)])
      show "w_serv v' = w_serv v" using st(2) by (simp add: wkeep_def)
    qed (use I j ij st(4) st(5) [of j] v in \<open>auto simp: Inv_def\<close>)
    qed
    then have "Inv is v'"
      using I wkeep_trans [of w v v'] st(2) by (simp add: Inv_def)
    with st(1) show "\<exists>v'. newnick_session is_me nick new quiet i v = Some v' \<and> Inv is v'" by blast
  qed
  then show ?thesis by (auto simp: each_session_def okw_def Inv_def wkeep_def)
qed

lemma find_cmp_nick: "find_cmp (serv\<lparr>serv_nick := n\<rparr>) = find_cmp serv"
  by (simp add: find_cmp_def fun_eq_iff)

text \<open>A nick the server may announce: readable, comparable, and nobody else's.\<close>

definition nick_ok :: "world \<Rightarrow> string \<Rightarrow> string \<Rightarrow> bool" where
  "nick_ok w old new \<longleftrightarrow>
     (case safe_strcpy new NICKLEN of
        None \<Rightarrow> False
      | Some n \<Rightarrow> name_ok (w_serv w) n \<and>
          (\<forall>i < length (w_sessions w). is_serv w i \<longrightarrow> nick_free w i old n)) \<and>
     safe_strcpy new CHANLEN \<noteq> None"

lemma inbound_newnick_ok:
  assumes inv: "world_inv w" and ok: "nick_ok w nick new"
  shows "okw (inbound_newnick nick new quiet w)"
proof -
  obtain n n2 where n: "safe_strcpy new NICKLEN = Some n" "safe_strcpy new CHANLEN = Some n2"
      "name_ok (w_serv w) n" "\<And>i. i < length (w_sessions w) \<Longrightarrow> is_serv w i \<Longrightarrow> nick_free w i nick n"
    using ok by (auto simp: nick_ok_def split: option.splits)
  let ?w = "w\<lparr>w_serv := (w_serv w)\<lparr>serv_nick := n\<rparr>\<rparr>"
  have same: "is_serv ?w i = is_serv w i" "nick_free ?w i nick n = nick_free w i nick n" for i
    by (simp_all add: is_serv_def sess_at_def nick_free_def find_user_def userlist_find_def find_cmp_nick
        cong: option.case_cong)
  have a: "okw (each_session (newnick_session b nick new quiet) w)" for b
    by (rule newnick_loop [OF inv n])
  have b: "okw (each_session (newnick_session b nick new quiet) ?w)" for b
    by (rule newnick_loop [OF _ n(1,2)]) (use inv n(3,4) same in simp_all)
  show ?thesis
    unfolding inbound_newnick_def Let_def n(1) option.map
    by (cases "p_cmp (w_serv w) nick (serv_nick (w_serv w)) = 0") (auto intro!: okw_map a b)
qed

end
