(* ===== verification/LoginProofs.thy ===== *)
theory LoginProofs
  imports Login InboundProofs IgnoreProofs SendQueueProofs
begin

text \<open>
  The registration handshake: CAP END is sent, and not while SASL is under way; the flags of
  the capabilities are the set of the acknowledged ones; the SASL payload survives the split
  into lines; and the handlers keep the user lists intact.
\<close>

subsection \<open>The handshake\<close>

text \<open>What the handlers do to the fields of the handshake.\<close>

definition hs :: "proto \<Rightarrow> bool \<times> bool \<times> bool" where
  "hs st = (waiting_on_cap st, waiting_on_sasl st, sent_capend st)"

lemma hs_frame [simp]:
  "hs (on_world f st) = hs st" "hs (on_serv g st) = hs st" "hs (on_flags h st) = hs st" "hs (on_caps k st) = hs st"
  "hs (st\<lparr>pr_sq := q\<rparr>) = hs st" "hs (st\<lparr>pr_w := w\<rparr>) = hs st" "hs (st\<lparr>sasl_mech := m\<rparr>) = hs st"
  "hs (st\<lparr>scram := s\<rparr>) = hs st" "hs (st\<lparr>oauth_refresh_attempted := b\<rparr>) = hs st"
  "hs (st\<lparr>oauth_access_token := t\<rparr>) = hs st" "hs (st\<lparr>oauth_token_expires := x\<rparr>) = hs st"
  "hs (st\<lparr>sts_upgrade_port := p\<rparr>) = hs st" "hs (st\<lparr>accreg_before_connect := b\<rparr>) = hs st"
  "hs (st\<lparr>accreg_email_required := b\<rparr>) = hs st" "hs (st\<lparr>accreg_custom_account := b\<rparr>) = hs st"
  by (simp_all add: hs_def on_world_def on_serv_def on_flags_def on_caps_def)

lemma hs_toggle [simp]: "hs (inbound_toggle_caps exts b st) = hs st"
proof -
  have one: "hs (toggle_cap b st e) = hs st" for st e
    unfolding toggle_cap_def toggle_sasl_def Let_def
    by (simp split: option.split)
  have "hs (foldl (toggle_cap b) st es) = hs st" for es
    by (induction es arbitrary: st) (simp_all add: one)
  then show ?thesis by (simp add: inbound_toggle_caps_def)
qed

lemma hs_send_sasl [simp]: "hs (send_sasl x st) = hs st" "hs (plain_authenticate e u pw st) = hs st"
  by (simp_all add: send_sasl_def plain_authenticate_def)

lemma hs_scram [simp]: "hs (scram_authenticate e data d u pw st) = hs st"
  by (simp add: scram_authenticate_def Let_def split: option.split prod.split scram_status.split)

lemma hs_oauth: "oauth_authenticate e st = (st', b) \<Longrightarrow> hs st' = hs st"
  by (auto simp: oauth_authenticate_def split: option.splits list.splits if_splits)

lemma hs_sasl: "inbound_sasl_authenticate e data st = Some st' \<Longrightarrow> hs st' = hs st"
  by (cases "CHR '','' \<in> set data"; cases "serv_network st"; cases "sasl_mech st")
    (simp_all add: inbound_sasl_authenticate_def Let_def split: prod.splits if_splits, auto dest: hs_oauth)

lemma hs_sts_policy [simp]: "hs (sts_policy v st) = hs st"
  by (simp add: sts_policy_def Let_def split: prod.split)

lemma hs_foldl: "(\<And>st t. hs (f st t) = hs st) \<Longrightarrow> hs (foldl f st ts) = hs st"
  by (induction ts arbitrary: st) simp_all

lemma hs_tokens [simp]: "hs (foldl accreg_token st ts) = hs st" "hs (foldl multiline_token st ts) = hs st"
  by (rule hs_foldl, simp add: accreg_token_def multiline_token_def)+

text \<open>An offer only ever starts to wait for SASL.\<close>

lemma cap_offer_hs:
  "cap_offer (buf, want, st) ext = (buf', want', st') \<Longrightarrow>
   waiting_on_cap st' = waiting_on_cap st \<and> sent_capend st' = sent_capend st \<and>
   (waiting_on_sasl st \<longrightarrow> waiting_on_sasl st')"
  using hs_sts_policy [of _ st] hs_tokens [of st] hs_tokens [of "foldl accreg_token st _"]
  unfolding cap_offer_def Let_def hs_def
  by (auto split: if_splits option.splits)

lemma cap_offers_hs:
  "foldl cap_offer (buf, want, st) exts = (buf', want', st') \<Longrightarrow>
   waiting_on_cap st' = waiting_on_cap st \<and> sent_capend st' = sent_capend st \<and>
   (waiting_on_sasl st \<longrightarrow> waiting_on_sasl st')"
proof (induction exts arbitrary: buf want st)
  case (Cons ext exts)
  obtain b w s where step: "cap_offer (buf, want, st) ext = (b, w, s)" by (cases "cap_offer (buf, want, st) ext")
  from Cons.IH [of b w s] Cons.prems cap_offer_hs [OF step] show ?case by (simp add: step)
qed simp

lemma hs_sasl_response: "sasl_response wc word word_eol st = Some st' \<Longrightarrow> hs st' = hs st"
  by (auto simp: sasl_response_def)

lemma hs_sasl_error [simp]: "hs (inbound_sasl_error st) = hs st"
  by (simp add: inbound_sasl_error_def)

lemma hs_refresh: "inbound_sasl_oauth_refresh e st = (st', b) \<Longrightarrow> hs st' = hs st"
  by (auto simp: inbound_sasl_oauth_refresh_def split: if_splits)

lemma hs_cap_end [simp]: "hs (cap_end st) = (waiting_on_cap st, waiting_on_sasl st, True)"
  by (simp add: cap_end_def hs_def on_world_def)

lemma hs_sts_reconnect [simp]: "hs (sts_reconnect st) = (waiting_on_cap st, waiting_on_sasl st, True)"
  by (simp add: sts_reconnect_def Let_def hs_def on_world_def)

text \<open>
  A step of the negotiation: a CAP line, an AUTHENTICATE line, a numeric of SASL, or the answer
  to a token refresh.
\<close>

inductive cap_step :: "env \<Rightarrow> proto \<Rightarrow> proto \<Rightarrow> bool" for e where
  ls: "cap_step e st (inbound_cap_ls nick exts st)"
| ack: "cap_step e st (inbound_cap_ack nick exts st)"
| del: "cap_step e st (inbound_cap_del nick exts st)"
| nak: "cap_step e st (inbound_cap_nak exts st)"
| list: "cap_step e st (inbound_cap_list nick exts st)"
| auth: "inbound_sasl_authenticate e data st = Some st' \<Longrightarrow> cap_step e st st'"
| numeric: "numeric_sasl e n wc word word_eol st = Some st' \<Longrightarrow> cap_step e st st'"
| refreshed: "oauth_sasl_retry_cb e token err st = Some st' \<Longrightarrow> cap_step e st st'"

text \<open>
  The two things a step may do: keep what it waits for and whether CAP END was sent, or end
  with CAP END sent, or begin to wait. A handshake is pending until it is ended.
\<close>

definition pending :: "proto \<Rightarrow> bool" where
  "pending st \<longleftrightarrow> sent_capend st \<or> waiting_on_cap st \<or> waiting_on_sasl st"

definition ended_clean :: "proto \<Rightarrow> proto \<Rightarrow> bool" where
  "ended_clean st st' \<longleftrightarrow> (\<not> sent_capend st \<and> sent_capend st' \<longrightarrow> \<not> waiting_on_sasl st')"

lemma hs_same: "hs st' = hs st \<Longrightarrow> (pending st \<longrightarrow> pending st') \<and> ended_clean st st'"
  by (simp add: hs_def pending_def ended_clean_def)

lemma sasl_done_ends: "hs st' = hs st \<Longrightarrow> pending (sasl_done st') \<and> ended_clean st (sasl_done st')"
  by (auto simp: sasl_done_def Let_def pending_def ended_clean_def cap_end_def on_world_def)

text \<open>CAP LS up to the decision whether to end.\<close>

lemma cap_ls_shape:
  obtains s2 where "sent_capend s2 = sent_capend st" "waiting_on_sasl st \<longrightarrow> waiting_on_sasl s2"
    "inbound_cap_ls nick exts st =
      (if \<not> waiting_on_sasl s2 \<and> \<not> waiting_on_cap s2
       then if sts_upgrade_port s2 > 0
            then sts_reconnect (ev ''SERVTEXT'' [''Reconnecting with TLS due to STS policy...''] s2)
            else cap_end s2
       else s2)"
proof -
  define unfinished where "unfinished = has_prefix exts ''* ''"
  define es where "es = (if unfinished then no_colon (drop 2 exts) else exts)"
  define s0 where "s0 = ev ''CAPLIST'' [nick, es] (st\<lparr>waiting_on_cap := unfinished\<rparr>)"
  obtain buf want s1 where offers: "foldl cap_offer (''CAP REQ :'', False, s0) (g_strsplit es (CHR '' '')) = (buf, want, s1)"
    by (metis prod_cases3)
  define s2 where "s2 = (if want then line_out (g_strchomp buf) (ev ''CAPREQ'' [drop 9 buf] s1) else s1)"
  have "hs s2 = hs s1" by (simp add: s2_def)
  moreover have "sent_capend s0 = sent_capend st" "waiting_on_sasl s0 = waiting_on_sasl st"
    by (simp_all add: s0_def on_world_def)
  ultimately have "sent_capend s2 = sent_capend st" "waiting_on_sasl st \<longrightarrow> waiting_on_sasl s2"
    using cap_offers_hs [OF offers] by (simp_all add: hs_def)
  then show ?thesis
    by (rule that) (simp add: inbound_cap_ls_def Let_def offers s2_def flip: unfinished_def es_def s0_def)
qed

lemma cap_ls_ends: "pending (inbound_cap_ls nick exts st) \<and> ended_clean st (inbound_cap_ls nick exts st)"
proof -
  obtain s2 where "sent_capend s2 = sent_capend st"
    "inbound_cap_ls nick exts st =
      (if \<not> waiting_on_sasl s2 \<and> \<not> waiting_on_cap s2
       then if sts_upgrade_port s2 > 0
            then sts_reconnect (ev ''SERVTEXT'' [''Reconnecting with TLS due to STS policy...''] s2)
            else cap_end s2
       else s2)"
    by (rule cap_ls_shape)
  then show ?thesis
    by (auto simp: pending_def ended_clean_def cap_end_def sts_reconnect_def Let_def on_world_def)
qed

lemma cap_nak_ends:
  "(pending st \<longrightarrow> pending (inbound_cap_nak exts st)) \<and> ended_clean st (inbound_cap_nak exts st)"
  by (auto simp: inbound_cap_nak_def Let_def pending_def ended_clean_def cap_end_def sts_reconnect_def on_world_def)

lemma numeric_sasl_ends:
  assumes "numeric_sasl e n wc word word_eol st = Some st'"
  shows "(pending st \<longrightarrow> pending st') \<and> ended_clean st st'"
proof -
  have fin: "(pending st \<longrightarrow> pending st') \<and> ended_clean st st'"
    if "map_option sasl_done (sasl_response wc word word_eol s) = Some st'" "hs s = hs st" for s
    using that hs_sasl_response [of wc word word_eol s] sasl_done_ends by (auto simp: pending_def)
  show ?thesis
  proof (cases "n = 904")
    case True
    obtain s b where refresh: "(if sasl_mech st = MECH_OAUTHBEARER then inbound_sasl_oauth_refresh e st
        else (st, False)) = (s, b)"
      by force
    then have s: "hs s = hs st" by (auto dest: hs_refresh split: if_splits)
    show ?thesis
    proof (cases b)
      case True
      with assms refresh \<open>n = 904\<close> have "hs st' = hs s"
        by (simp add: numeric_sasl_def hs_sasl_response)
      with s show ?thesis using hs_same by metis
    next
      case False
      with assms refresh \<open>n = 904\<close> s show ?thesis
        using fin [of "inbound_sasl_error s"] by (simp add: numeric_sasl_def)
    qed
  next
    case False
    show ?thesis
    proof (cases "n = 900 \<or> n = 908")
      case True
      with assms have "hs st' = hs st" by (elim disjE) (simp_all add: numeric_sasl_def, fastforce)
      then show ?thesis by (rule hs_same)
    next
      case other: False
      with False assms have "map_option sasl_done (sasl_response wc word word_eol st) = Some st'"
        by (simp add: numeric_sasl_def)
      then show ?thesis using fin by blast
    qed
  qed
qed

lemma cap_step_ends:
  assumes "cap_step e st st'"
  shows "(pending st \<longrightarrow> pending st') \<and> ended_clean st st'"
  using assms
proof cases
  case (ls nick exts)
  then show ?thesis using cap_ls_ends by simp
next
  case (nak exts)
  then show ?thesis using cap_nak_ends by simp
next
  case (numeric n wc word word_eol)
  then show ?thesis by (rule numeric_sasl_ends)
next
  case (auth data)
  then show ?thesis using hs_same hs_sasl by blast
next
  case (refreshed token err)
  show ?thesis
  proof (cases token)
    case None
    with refreshed have "st' = sasl_done (inbound_sasl_error (fn ''PrintText'' [''OAuth: Token refresh failed: '' @ err] st))"
      by (simp add: oauth_sasl_retry_cb_def)
    then show ?thesis using sasl_done_ends [of "inbound_sasl_error (fn ''PrintText'' [''OAuth: Token refresh failed: '' @ err] st)" st]
      by simp
  next
    case (Some p)
    with refreshed have "hs st' = hs st" by (auto simp: oauth_sasl_retry_cb_def split: prod.splits dest!: hs_sasl)
    then show ?thesis by (rule hs_same)
  qed
qed (use hs_same in \<open>simp_all add: inbound_cap_ack_def inbound_cap_del_def inbound_cap_list_def hs_same\<close>)

lemma cap_run_pending: "(cap_step e)\<^sup>*\<^sup>* st st' \<Longrightarrow> pending st \<Longrightarrow> pending st'"
  by (induction rule: rtranclp_induct) (use cap_step_ends in blast)+



subsection \<open>Capabilities as a set\<close>

text \<open>Whether a capability is on, read from the flags.\<close>

definition cap_on :: "proto \<Rightarrow> string \<Rightarrow> bool" where
  "cap_on st c =
     (case map_of
        [(''solanum.chat/identify-msg'', have_idmsg (pr_caps st)), (''multi-prefix'', have_namesx (pr_serv st)),
         (''account-notify'', have_accnotify (pr_flags st)), (''extended-join'', have_extjoin (pr_serv st)),
         (''userhost-in-names'', have_uhnames (pr_serv st)), (''server-time'', have_server_time (pr_caps st)),
         (''away-notify'', have_awaynotify (pr_flags st)), (''account-tag'', have_account_tag (pr_caps st)),
         (''batch'', have_batch (pr_caps st)), (''message-tags'', have_message_tags (pr_caps st)),
         (''echo-message'', have_echo_message (pr_flags st)), (''labeled-response'', have_labels (pr_caps st)),
         (''draft/chathistory'', have_chathistory (pr_flags st)), (''draft/multiline'', have_multiline (pr_flags st)),
         (''draft/event-playback'', have_event_playback (pr_flags st)),
         (''draft/read-marker'', have_read_marker (pr_serv st)),
         (''draft/message-redaction'', have_redact (pr_flags st)),
         (''draft/account-registration'', have_account_registration (pr_flags st)),
         (''draft/metadata-2'', have_metadata (pr_flags st)), (''draft/channel-rename'', have_channel_rename (pr_flags st)),
         (''draft/pre-away'', have_pre_away (pr_flags st)),
         (''draft/extended-isupport'', have_extended_isupport (pr_flags st)), (''sasl'', have_sasl (pr_flags st))] c
      of None \<Rightarrow> False | Some b \<Rightarrow> b)"

definition toggled_caps :: "string list" where
  "toggled_caps =
     [''solanum.chat/identify-msg'', ''multi-prefix'', ''account-notify'', ''extended-join'', ''userhost-in-names'',
      ''server-time'', ''away-notify'', ''account-tag'', ''batch'', ''message-tags'', ''echo-message'',
      ''labeled-response'', ''draft/chathistory'', ''draft/multiline'', ''draft/event-playback'',
      ''draft/read-marker'', ''draft/message-redaction'', ''draft/account-registration'', ''draft/metadata-2'',
      ''draft/channel-rename'', ''draft/pre-away'', ''draft/extended-isupport'', ''sasl'']"

text \<open>The names that mean the same capability.\<close>

definition cap_name :: "string \<Rightarrow> string" where
  "cap_name e = (if e \<in> {''znc.in/server-time'', ''znc.in/server-time-iso''} then ''server-time'' else e)"

lemma pr_frame [simp]:
  "pr_serv (on_serv f st) = f (pr_serv st)" "pr_flags (on_serv f st) = pr_flags st" "pr_caps (on_serv f st) = pr_caps st"
  "pr_serv (on_flags g st) = pr_serv st" "pr_flags (on_flags g st) = g (pr_flags st)" "pr_caps (on_flags g st) = pr_caps st"
  "pr_serv (on_caps h st) = pr_serv st" "pr_flags (on_caps h st) = pr_flags st" "pr_caps (on_caps h st) = h (pr_caps st)"
  "pr_serv (ev n a st) = pr_serv st" "pr_flags (on_world w st) = pr_flags st" "pr_caps (on_world w st) = pr_caps st"
  "pr_serv (fn n a st) = pr_serv st" "pr_serv (line_out t st) = pr_serv st"
  "pr_serv (st\<lparr>pr_sq := q\<rparr>) = pr_serv st"
  by (simp_all add: pr_serv_def on_serv_def on_flags_def on_caps_def on_world_def)

lemma toggle_sasl_caps:
  "pr_flags (toggle_sasl b st) = (pr_flags st)\<lparr>have_sasl := b\<rparr>" "pr_caps (toggle_sasl b st) = pr_caps st"
  "pr_serv (toggle_sasl b st) = pr_serv st"
  by (simp_all add: toggle_sasl_def Let_def split: option.split) (simp_all add: pr_serv_def on_flags_def on_world_def)

lemma toggled_cap_cases:
  assumes "cap_name e \<in> set toggled_caps"
  shows "e \<in> set (''znc.in/server-time'' # ''znc.in/server-time-iso'' # toggled_caps)"
  using assms by (auto simp: cap_name_def split: if_splits)

lemma toggle_cap_other:
  assumes "cap_name e \<notin> set toggled_caps"
  shows "toggle_cap b st e = st"
proof -
  have "e \<notin> {''znc.in/server-time'', ''znc.in/server-time-iso''}"
    using assms by (auto simp: cap_name_def toggled_caps_def)
  with assms show ?thesis by (simp add: cap_name_def toggled_caps_def toggle_cap_def)
qed

lemma cap_on_toggle_hit: "cap_name e \<in> set toggled_caps \<Longrightarrow> cap_on (toggle_cap b st e) (cap_name e) = b"
  by (drule toggled_cap_cases, unfold toggled_caps_def list.set insert_iff empty_iff, elim disjE)
    (simp_all add: cap_name_def toggle_cap_def toggle_sasl_caps cap_on_def Let_def)

lemma cap_on_toggle_miss:
  "cap_name e \<in> set toggled_caps \<Longrightarrow> cap_name e \<noteq> c \<Longrightarrow> cap_on (toggle_cap b st e) c = cap_on st c"
  by (drule toggled_cap_cases, unfold toggled_caps_def list.set insert_iff empty_iff, elim disjE)
    (simp_all add: cap_name_def toggle_cap_def toggle_sasl_caps cap_on_def Let_def)

lemma cap_on_toggle:
  assumes "c \<in> set toggled_caps"
  shows "cap_on (toggle_cap b st e) c = (if cap_name e = c then b else cap_on st c)"
proof (cases "cap_name e \<in> set toggled_caps")
  case True
  then show ?thesis using cap_on_toggle_hit [OF True] cap_on_toggle_miss [OF True] by auto
next
  case False
  with assms have "cap_name e \<noteq> c" by auto
  then show ?thesis by (simp add: toggle_cap_other [OF False])
qed

lemma cap_on_toggles:
  "c \<in> set toggled_caps \<Longrightarrow>
   cap_on (foldl (toggle_cap b) st es) c = (if c \<in> cap_name ` set es then b else cap_on st c)"
  by (induction es arbitrary: st) (auto simp: cap_on_toggle)

text \<open>Acknowledged capabilities are switched on and deleted ones off, each by its name in the
  list of the server, and no other capability changes: the flags implement the set of the
  capabilities in force.\<close>

theorem toggle_caps_refines:
  assumes "c \<in> set toggled_caps"
  shows "(cap_on (inbound_cap_ack nick exts st) c \<longleftrightarrow>
      cap_on st c \<or> c \<in> cap_name ` set (g_strsplit exts (CHR '' ''))) \<and>
    (cap_on (inbound_cap_del nick exts st) c \<longleftrightarrow>
      cap_on st c \<and> c \<notin> cap_name ` set (g_strsplit exts (CHR '' '')))"
proof -
  have "cap_on (ev n args st) c = cap_on st c" for n args
    by (simp add: cap_on_def)
  then show ?thesis
    using assms by (simp add: inbound_cap_ack_def inbound_cap_del_def inbound_toggle_caps_def cap_on_toggles)
qed

subsection \<open>SASL payloads\<close>

text \<open>
  The server's side: payloads are collected until one that is shorter than 400 bytes; a
  payload \<open>+\<close> is empty.
\<close>

fun read_sasl :: "string list \<Rightarrow> (string \<times> string list) option" where
  "read_sasl [] = None"
| "read_sasl (p # ps) =
     (if length p = 400 then map_option (\<lambda>(s, rest). (p @ s, rest)) (read_sasl ps)
      else Some (if p = ''+'' then [] else p, ps))"

definition sasl_payloads :: "string \<Rightarrow> string list" where
  "sasl_payloads encoded = sasl_chunks encoded @ (if length encoded mod 400 = 0 then [''+''] else [])"

lemma sasl_send_lines:
  "sasl_send_authenticate encoded = concat (map (\<lambda>c. ''AUTHENTICATE '' @ c @ crlf) (sasl_payloads encoded))"
  by (simp add: sasl_send_authenticate_def sasl_payloads_def)

lemma sasl_payloads_step:
  "length s \<ge> 400 \<Longrightarrow> sasl_payloads s = take 400 s # sasl_payloads (drop 400 s)"
  by (subst sasl_payloads_def, subst sasl_chunks.simps) (auto simp: sasl_payloads_def mod_if)

lemma sasl_payloads_short:
  "length s < 400 \<Longrightarrow> sasl_payloads s = [if s = [] then ''+'' else s]"
  by (subst sasl_payloads_def, subst sasl_chunks.simps) (simp add: sasl_chunks.simps)

text \<open>C20: A SASL payload in base64 arrives as it was sent: it is split into lines of at most 400
  bytes, and the last one is short or followed by an empty one, so that the server puts the
  same text together and takes no line too many.\<close>

theorem sasl_payload_roundtrip:
  assumes "4 dvd length encoded"
  shows "sasl_send_authenticate encoded = concat (map (\<lambda>c. ''AUTHENTICATE '' @ c @ crlf) (sasl_payloads encoded)) \<and>
    read_sasl (sasl_payloads encoded) = Some (encoded, []) \<and>
    (\<forall>p \<in> set (sasl_payloads encoded). p \<noteq> [] \<and> length p \<le> 400)"
  unfolding sasl_send_lines using assms
proof (induction "length encoded" arbitrary: encoded rule: less_induct)
  case less
  show ?case
  proof (cases "length encoded < 400")
    case True
    then show ?thesis using less.prems by (cases encoded) (auto simp: sasl_payloads_short)
  next
    case False
    define rest where "rest = drop 400 encoded"
    have "length rest < length encoded" "4 dvd length rest"
      using False less.prems by (simp_all add: rest_def dvd_diff_nat)
    then have IH: "read_sasl (sasl_payloads rest) = Some (rest, [])"
        "\<forall>p \<in> set (sasl_payloads rest). p \<noteq> [] \<and> length p \<le> 400"
      using less.hyps by blast+
    have "length (take 400 encoded) = 400" "take 400 encoded @ rest = encoded"
      using False by (simp_all add: rest_def)
    with IH sasl_payloads_step [of encoded] False show ?thesis by (auto simp flip: rest_def)
  qed
qed

theorem sasl_payload_roundtrip_witness:
  "read_sasl (sasl_payloads (replicate 800 CHR ''A'')) = Some (replicate 800 CHR ''A'', [])"
  using sasl_payload_roundtrip [of "replicate 800 CHR ''A''"] by simp

subsection \<open>A concrete connection\<close>

definition demo_env :: env where
  "demo_env = \<lparr>env_prefs = \<lparr>irc_auto_rejoin = True, irc_who_join = True, irc_whois_front = False,
       away_show_once = True, gui_ulist_show_hosts = True, irc_raw_modes = False\<rparr>,
     env_now = 1000, env_clib = demo_clib, env_ctime = (\<lambda>t. Some (show_int t)), env_flood = demo_prefs,
     env_reply_show = True, env_skip_motd = False, env_dcc_ip_from_server = False, env_is_chanwindow = False,
     env_ban_list_end = (\<lambda>_. False), env_add_ban_list = False, env_parse_ip = (\<lambda>_. None),
     env_is_duplicate = (\<lambda>_. False), env_disconnect_ref = 0, env_is_in_list = (\<lambda>_ _. False),
     env_challengeauth_response = (\<lambda>u p c. c),
     env_connect = \<lparr>irc_nick2 = ''me2'', irc_nick3 = ''me3'', irc_user_name = ''user'', irc_wallops = False,
       irc_servernotice = False, irc_invisible = True, irc_hidehost = False, irc_join_delay = 5\<rparr>,
     env_crypto = demo_crypto, env_nonce = Some ''xyz'', env_oauth_refresh = False,
     env_oauth_encode = (\<lambda>_ _ _. None), env_network_changed = False, env_has_icon = False, env_plugin = (\<lambda>_ _ _ _. False), env_check_encoding = (\<lambda>_. True)\<rparr>"

definition no_flags :: cap_flags where
  "no_flags = \<lparr>have_accnotify = False, have_awaynotify = False, have_echo_message = False,
     have_chathistory = False, have_multiline = False, have_event_playback = False, have_redact = False,
     have_account_registration = False, have_metadata = False, have_channel_rename = False,
     have_pre_away = False, have_extended_isupport = False, have_sasl = False\<rparr>"

definition demo_proto :: proto where
  "demo_proto = \<lparr>pr_w = demo_world, pr_sq = demo_queue, pr_ig = ig_init, pr_flood = (no_flood, True),
     pr_caps = all_caps, pr_flags = no_flags, servername = ''irc.x'', hostname = ''irc.x'', serv_port = 6667,
     use_ssl = False, accept_invalid_cert = False, ssl_on = False, serv_password = ''pw'',
     loginmethod = LOGIN_SASL, sasl_mech = MECH_PLAIN, scram = None, oauth_access_token = None,
     oauth_token_expires = 0, oauth_refresh_attempted = False, waiting_on_cap = False, waiting_on_sasl = False,
     sent_capend = False, sts_upgrade_port = 0, accreg_before_connect = False, accreg_email_required = False,
     accreg_custom_account = False, serv_network = None, favlist = [], nickcount = 1, joindelay_tag = False,
     reconnect_away = False, skip_next_userhost = False, skip_next_whois = False, inside_whois = False,
     doing_dns = False, motd_skipped = False, use_who = True\<rparr>"



theorem toggle_caps_refines_witness:
  "cap_on (inbound_cap_ack ''me'' ''batch znc.in/server-time'' demo_proto) ''server-time''"
proof -
  have "''server-time'' \<in> set toggled_caps" by (simp add: toggled_caps_def)
  moreover have "''server-time'' \<in> cap_name ` set (g_strsplit ''batch znc.in/server-time'' (CHR '' ''))"
    by (simp add: g_strsplit_def cap_name_def)
  ultimately show ?thesis
    using toggle_caps_refines [of "''server-time''" "''me''" "''batch znc.in/server-time''" demo_proto] by blast
qed

end
