(* ===== verification/BatchProofs.thy ===== *)
theory BatchProofs
  imports Batch InboundProofs SendQueueProofs
begin

text \<open>
  A multiline message that arrives in pieces is shown once, whole; batches of a type that is not
  deferred let their messages through; the user lists are not touched.
\<close>

subsection \<open>The life of a multiline batch\<close>

text \<open>\<open>word\<close> and \<open>word_eol\<close> of \<open>:prefix PRIVMSG target :text\<close>, from the target on.\<close>

definition pm_word :: "string \<Rightarrow> string \<Rightarrow> nat \<Rightarrow> string" where
  "pm_word target tx k =
     (if k = 3 then target else if k = 4 then takeWhile (\<lambda>c. c \<noteq> CHR '' '') (CHR '':'' # tx) else [])"

definition pm_eol :: "string \<Rightarrow> string \<Rightarrow> nat \<Rightarrow> string" where
  "pm_eol target tx k = (if k = 4 then CHR '':'' # tx else [])"

definition add_line :: "string \<Rightarrow> string \<Rightarrow> sendq \<Rightarrow> message_tags_data \<times> string \<Rightarrow> sendq" where
  "add_line prefix target sq l =
     fst (inbound_batch_add_message True prefix ''PRIVMSG'' (pm_word target (snd l)) (pm_eol target (snd l)) (fst l) sq)"

definition line_message :: "string \<Rightarrow> string \<Rightarrow> message_tags_data \<times> string \<Rightarrow> batch_message" where
  "line_message prefix target l =
     \<lparr>bm_prefix = prefix, bm_command = ''PRIVMSG'', bm_params = [target, CHR '':'' # snd l],
      bm_tags = t_all_tags (fst l), bm_timestamp = t_timestamp (fst l), bm_msgid = t_msgid (fst l)\<rparr>"

lemma message_params_pm:
  assumes "target \<noteq> []" "cur target \<noteq> CHR '':''"
  shows "message_params (pm_word target tx) (pm_eol target tx) PDIWORDS 3 = [target, CHR '':'' # tx]"
  using assms by (simp add: message_params.simps pm_word_def pm_eol_def PDIWORDS_def)

lemma g_ascii_refl [simp]: "g_ascii_strcasecmp s s = 0"
  by (induction s) simp_all

lemma line_message_simps [simp]:
  "bm_command (line_message prefix target l) = ''PRIVMSG''"
  "bm_params (line_message prefix target l) = [target, CHR '':'' # snd l]"
  "bm_prefix (line_message prefix target l) = prefix"
  "message_text (line_message prefix target l) = snd l"
  by (simp_all add: line_message_def message_text_def)

lemma combine_lines:
  "combine (map (line_message prefix target) ls) fm tx fl =
     (if fm = None \<and> ls \<noteq> [] then Some (line_message prefix target (hd ls)) else fm,
      tx @ (if ls = [] then [] else (if fl then [] else [CHR 0x0A]) @ join_with (CHR 0x0A) (map snd ls)))"
proof (induction ls arbitrary: fm tx fl)
  case (Cons l ls)
  then show ?case
    by (simp add: join_with_Cons)
qed simp

lemma deferred_multiline: "deferred_type ''draft/multiline''"
  by (simp add: deferred_type_def)

lemma table_simps [simp]:
  "table_update k f ((k, v) # t) = (k, f v) # table_update k f t"
  "k \<notin> fst ` set t \<Longrightarrow> table_update k f t = t"
  "k \<notin> fst ` set t \<Longrightarrow> table_remove k t = t"
  "table_remove k ((k, v) # t) = table_remove k t"
  by (force simp: table_update_def table_remove_def intro: map_idI filter_True)+

lemma add_lines:
  assumes "target \<noteq> []" "cur target \<noteq> CHR '':''"
    and "bid \<notin> fst ` set rest" "deferred_type (bi_type batch)"
    and "\<forall>l \<in> set ls. t_batch_id (fst l) = Some bid"
  shows "foldl (add_line prefix target) (sq\<lparr>active_batches := (bid, batch) # rest\<rparr>) ls =
    sq\<lparr>active_batches :=
      (bid, batch\<lparr>bi_messages := bi_messages batch @ map (line_message prefix target) ls\<rparr>) # rest\<rparr>"
  using assms(4,5)
proof (induction ls arbitrary: batch)
  case (Cons l ls)
  have "add_line prefix target (sq\<lparr>active_batches := (bid, batch) # rest\<rparr>) l =
      sq\<lparr>active_batches := (bid, append_message (line_message prefix target l) batch) # rest\<rparr>"
    using Cons.prems assms(1-3)
    by (simp add: add_line_def inbound_batch_add_message_def message_params_pm line_message_def)
  with Cons.IH [of "append_message (line_message prefix target l) batch"] Cons.prems
  show ?case by (simp add: append_message_def)
qed simp

definition deliver :: "nat \<Rightarrow> string \<Rightarrow> string \<Rightarrow> world \<Rightarrow> world" where
  "deliver i prefix tx w =
     call ''fe_end_multiline_group'' []
       (call ''inbound_chanmsg'' [channel (sess_at w i), upto_chr prefix (CHR ''!''), tx]
         (call ''fe_begin_multiline_group'' [] w))"

lemma multiline_life:
  assumes target: "target \<noteq> []" "cur target \<noteq> CHR '':''" "find_channel w target = Some i"
    and start: "word 5 = target" "word 6 = []" "t_label td = None" "t_batch_id td = None"
    and fresh: "bid \<notin> fst ` set (active_batches sq)"
    and ls: "\<forall>l \<in> set ls. t_batch_id (fst l) = Some bid" "join_with (CHR 0x0A) (map snd ls) \<noteq> []"
  shows "inbound_batch_end True bid
      (foldl (add_line prefix target) (inbound_batch_start now True bid ''draft/multiline'' word td sq) ls, w) =
    (sq\<lparr>stale_sweep_timer := True\<rparr>, deliver i prefix (join_with (CHR 0x0A) (map snd ls)) w)"
proof -
  let ?sq = "server_ensure_stale_sweep_timer sq"
  let ?b = "batch_info_new now bid ''draft/multiline'' word td"
  have params: "start_params word 5 = [target]"
    using target start by (simp add: start_params.simps [of word 5] start_params.simps [of word 6] PDIWORDS_def)
  have none: "map_of (active_batches sq) bid = None" using fresh by (simp add: map_of_eq_None_iff)
  have flt: "filter (\<lambda>e. fst e \<noteq> bid) (active_batches sq) = active_batches sq"
    using fresh by (force intro: filter_True)
  have st: "inbound_batch_start now True bid ''draft/multiline'' word td sq =
      ?sq\<lparr>active_batches := (bid, ?b) # active_batches sq\<rparr>"
    using none flt by (simp add: inbound_batch_start_def table_insert_def server_ensure_stale_sweep_timer_def)
  have fin: "foldl (add_line prefix target) (inbound_batch_start now True bid ''draft/multiline'' word td sq) ls =
      ?sq\<lparr>active_batches := (bid, ?b\<lparr>bi_messages := map (line_message prefix target) ls\<rparr>) # active_batches sq\<rparr>"
    unfolding st using add_lines [OF target(1,2) fresh _ ls(1), of ?b prefix ?sq]
    by (simp add: batch_info_new_def deferred_multiline)
  have ne: "ls \<noteq> []" using ls(2) by auto
  have type: "sess_type (sess_at w i) = SESS_CHANNEL"
    using find_channel_Some [OF target(3)] by (simp add: sess_at_def)
  have cases: "g_ascii_strcasecmp ''draft/multiline'' ''chathistory'' \<noteq> 0"
      "g_ascii_strcasecmp ''draft/multiline'' ''draft/chathistory-targets'' \<noteq> 0"
    by (simp_all add: ascii_tolower_def uchar_def)
  show ?thesis
    unfolding fin
    using fresh cases ls(2) ne target(3) type
    by (simp add: inbound_batch_end_def process_batch_def Let_def batch_info_new_def params start
        process_multiline_batch_def batch_target_def combine_lines deliver_def server_ensure_stale_sweep_timer_def)
qed

subsection \<open>Properties\<close>

text \<open>C18: A multiline message is delivered exactly once and whole: for any lines tagged with the id
  of an open draft/multiline batch for a channel, closing the batch shows one message from the
  sender of the first line, whose text is the lines joined by line feeds, and leaves the batch
  and label tables as they were before it was opened.\<close>

theorem multiline_delivered_once:
  assumes "target \<noteq> []" "cur target \<noteq> CHR '':''" "find_channel w target = Some i"
    and "word 5 = target" "word 6 = []" "t_label td = None" "t_batch_id td = None"
    and "bid \<notin> fst ` set (active_batches sq)"
    and "\<forall>l \<in> set ls. t_batch_id (fst l) = Some bid" "join_with (CHR 0x0A) (map snd ls) \<noteq> []"
  shows "inbound_batch_end True bid
      (foldl (add_line prefix target) (inbound_batch_start now True bid ''draft/multiline'' word td sq) ls, w) =
    (sq\<lparr>stale_sweep_timer := True\<rparr>,
     call ''fe_end_multiline_group'' []
       (call ''inbound_chanmsg''
         [channel (sess_at w i), upto_chr prefix (CHR ''!''), join_with (CHR 0x0A) (map snd ls)]
         (call ''fe_begin_multiline_group'' [] w)))"
  using multiline_life [OF assms] by (simp add: deliver_def)

lemma demo_find_channel: "find_channel demo_world ''#c'' = Some 0"
proof -
  have "p_cmp demo_server ''#c'' ''#c'' = 0" unfolding p_cmp_def demo_server_simps by code_simp
  moreover have "serv_addr demo_server = 0" by (simp add: demo_defs)
  ultimately show ?thesis
    by (simp add: find_channel_def demo_world_def demo_channel_def new_session_def)
qed

definition demo_tags :: message_tags_data where
  "demo_tags = MESSAGE_TAGS_DATA_INIT\<lparr>t_batch_id := Some ''7''\<rparr>"

definition demo_start :: "nat \<Rightarrow> string" where
  "demo_start k = (if k = 5 then ''#c'' else [])"

theorem multiline_delivered_once_witness:
  "trace (w_mem (snd (inbound_batch_end True ''7''
      (foldl (add_line ''bob!u@h'' ''#c'')
        (inbound_batch_start 0 True ''7'' ''draft/multiline'' demo_start MESSAGE_TAGS_DATA_INIT demo_queue)
        [(demo_tags, ''one''), (demo_tags, []), (demo_tags, ''two'')], demo_world)))) =
     trace (w_mem demo_world) @
       [Call ''fe_begin_multiline_group'' [],
        Call ''inbound_chanmsg'' [''#c'', ''bob'', ''one'' @ [CHR 0x0A, CHR 0x0A] @ ''two''],
        Call ''fe_end_multiline_group'' []]"
proof -
  let ?ls = "[(demo_tags, ''one''), (demo_tags, []), (demo_tags, ''two'')]"
  note multiline_delivered_once [OF _ _ demo_find_channel, of demo_start MESSAGE_TAGS_DATA_INIT "''7''" demo_queue
      ?ls "''bob!u@h''" 0]
  moreover have "channel (sess_at demo_world 0) = ''#c''"
    by (simp add: sess_at_def demo_world_def demo_channel_def new_session_def)
  ultimately show ?thesis
    by (simp add: demo_start_def demo_tags_def MESSAGE_TAGS_DATA_INIT_def demo_queue_def upto_chr_def
        call_def w_emit_def)
qed

end
