(* ===== verification/ProtoIrcProofs.thy ===== *)
theory ProtoIrcProofs
  imports IrcInline LoginProofs BatchProofs
begin

text \<open>
  The dispatch of a line from the server: every command returns and keeps the user lists of all
  channels in their invariant, under what each of them needs of the line; what happens to the
  label of an answer; and the standard replies that crash the client.
\<close>

subsection \<open>Frames\<close>

definition winv :: "proto \<Rightarrow> bool" where
  "winv st = world_inv (pr_w st)"

text \<open>The handler returned, with the lists intact.\<close>

definition okp :: "proto option \<Rightarrow> bool" where
  "okp r \<longleftrightarrow> (\<exists>st. r = Some st \<and> winv st)"

lemma okp_Some [simp]: "okp (Some st) = winv st"
  by (simp add: okp_def)

lemma okp_if: "(b \<Longrightarrow> okp x) \<Longrightarrow> (\<not> b \<Longrightarrow> okp y) \<Longrightarrow> okp (if b then x else y)"
  by simp

lemma okp_map: "okp r \<Longrightarrow> (\<And>st. winv st \<Longrightarrow> winv (f st)) \<Longrightarrow> okp (map_option f r)"
  by (auto simp: okp_def)

lemma okp_try: "okw (f (pr_w st)) \<Longrightarrow> okp (try_world f st)"
  by (auto simp: okp_def okw_def try_world_def winv_def)

text \<open>The fields of the server the invariant reads.\<close>

definition same_serv :: "server \<Rightarrow> server \<Rightarrow> bool" where
  "same_serv s t \<longleftrightarrow> serv_addr s = serv_addr t \<and> p_cmp_fn s = p_cmp_fn t \<and> nick_prefixes s = nick_prefixes t \<and>
     nick_modes s = nick_modes t \<and> bad_prefix s = bad_prefix t"

lemma world_inv_same_serv:
  assumes "same_serv s (w_serv w)"
  shows "world_inv (w\<lparr>w_serv := s\<rparr>) = world_inv w"
proof -
  have "p_cmp s = p_cmp (w_serv w)" "name_ok s = name_ok (w_serv w)"
    using assms by (simp_all add: same_serv_def p_cmp_def name_ok_def fun_eq_iff)
  then have "ul_inv s st = ul_inv (w_serv w) st" for st
    using assms by (simp add: ul_inv_def arr_inv_def flags_ok_def has_bit_def same_serv_def)
  then show ?thesis using assms by (simp add: world_inv_def prefixes_ok_def same_serv_def)
qed

lemma winv_serv: "(\<And>s. same_serv (f s) s) \<Longrightarrow> winv (on_serv f st) = winv st"
  by (simp add: winv_def on_serv_def on_world_def world_inv_same_serv)

lemma winv_frame [simp]:
  "winv (ev n a st) = winv st" "winv (fn n a st) = winv st" "winv (line_out t st) = winv st"
  "winv (on_world (w_emit c) st) = winv st"
  "winv (on_flags f st) = winv st" "winv (on_caps g st) = winv st"
  "winv (on_serv (have_namesx_update h) st) = winv st" "winv (on_serv (have_extjoin_update h) st) = winv st"
  "winv (on_serv (have_uhnames_update h) st) = winv st" "winv (on_serv (have_read_marker_update h) st) = winv st"
  "winv (on_serv (multiline_max_bytes_update k) st) = winv st"
  "winv (on_serv (multiline_max_lines_update k) st) = winv st"
  by (simp_all add: winv_serv same_serv_def) (simp_all add: winv_def on_world_def on_flags_def on_caps_def)

lemma winv_fields [simp]:
  "winv (st\<lparr>pr_sq := a1\<rparr>) = winv st" "winv (st\<lparr>pr_ig := a2\<rparr>) = winv st" "winv (st\<lparr>pr_flood := a3\<rparr>) = winv st"
  "winv (st\<lparr>sasl_mech := a4\<rparr>) = winv st" "winv (st\<lparr>scram := a5\<rparr>) = winv st"
  "winv (st\<lparr>waiting_on_cap := b\<rparr>) = winv st" "winv (st\<lparr>waiting_on_sasl := b\<rparr>) = winv st"
  "winv (st\<lparr>sent_capend := b\<rparr>) = winv st" "winv (st\<lparr>sts_upgrade_port := i\<rparr>) = winv st"
  "winv (st\<lparr>accreg_before_connect := b\<rparr>) = winv st" "winv (st\<lparr>accreg_email_required := b\<rparr>) = winv st"
  "winv (st\<lparr>accreg_custom_account := b\<rparr>) = winv st" "winv (st\<lparr>joindelay_tag := b\<rparr>) = winv st"
  "winv (st\<lparr>use_ssl := b\<rparr>) = winv st" "winv (st\<lparr>accept_invalid_cert := b\<rparr>) = winv st"
  "winv (st\<lparr>serv_port := i\<rparr>) = winv st" "winv (st\<lparr>oauth_refresh_attempted := b\<rparr>) = winv st"
  "winv (st\<lparr>pr_w := w\<rparr>) = world_inv w"
  by (simp_all add: winv_def)

lemma winv_foldl: "winv st \<Longrightarrow> (\<And>st x. winv st \<Longrightarrow> winv (f st x)) \<Longrightarrow> winv (foldl f st xs)"
  by (induction xs arbitrary: st) simp_all

subsection \<open>Login\<close>

lemma winv_toggle [simp]: "winv (inbound_toggle_caps exts b st) = winv st"
proof -
  have one: "winv (toggle_cap b st e) = winv st" for st e
    unfolding toggle_cap_def toggle_sasl_def Let_def
    by (simp split: option.split)
  have "winv (foldl (toggle_cap b) st es) = winv st" for es
    by (induction es arbitrary: st) (simp_all add: one)
  then show ?thesis by (simp add: inbound_toggle_caps_def)
qed

lemma winv_sts_policy [simp]: "winv (sts_policy v st) = winv st"
  by (simp add: sts_policy_def Let_def split: prod.split)

lemma winv_tokens [simp]:
  "winv st \<Longrightarrow> winv (foldl accreg_token st ts)" "winv st \<Longrightarrow> winv (foldl multiline_token st ts)"
  by (rule winv_foldl, simp, simp add: accreg_token_def multiline_token_def)+

lemma winv_cap_offer: "winv st \<Longrightarrow> cap_offer (buf, want, st) ext = (buf', want', st') \<Longrightarrow> winv st'"
  unfolding cap_offer_def Let_def by (auto split: if_splits option.splits)

lemma winv_cap_offers: "winv st \<Longrightarrow> foldl cap_offer (buf, want, st) exts = (buf', want', st') \<Longrightarrow> winv st'"
proof (induction exts arbitrary: buf want st)
  case (Cons ext exts)
  obtain b w s where step: "cap_offer (buf, want, st) ext = (b, w, s)" by (cases "cap_offer (buf, want, st) ext")
  from Cons.IH [of s b w] Cons.prems winv_cap_offer [OF _ step] show ?case by (simp add: step)
qed simp

lemma winv_cap_end [simp]: "winv (cap_end st) = winv st" "winv (sts_reconnect st) = winv st"
  by (simp_all add: cap_end_def sts_reconnect_def Let_def)

lemma winv_cap_ls: "winv st \<Longrightarrow> winv (inbound_cap_ls nick exts st)"
  unfolding inbound_cap_ls_def Let_def
  by (auto dest!: winv_cap_offers [rotated] split: prod.split)

lemma winv_msg_cap: "winv st \<Longrightarrow> winv (msg_cap word word_eol st)"
  by (simp add: msg_cap_def Let_def inbound_cap_ack_def inbound_cap_del_def inbound_cap_list_def inbound_cap_nak_def
      winv_cap_ls)

lemma winv_sasl [simp]: "winv (send_sasl x st) = winv st" "winv (plain_authenticate e u pw st) = winv st"
  by (simp_all add: send_sasl_def plain_authenticate_def)

lemma winv_scram [simp]: "winv (scram_authenticate e data d u pw st) = winv st"
  by (simp add: scram_authenticate_def Let_def split: option.split prod.split scram_status.split)

lemma winv_oauth: "oauth_authenticate e st = (st', b) \<Longrightarrow> winv st' = winv st"
  by (auto simp: oauth_authenticate_def split: option.splits list.splits if_splits)

lemma inbound_sasl_authenticate_ok:
  assumes "winv st" "CHR '','' \<in> set data \<or> serv_network st \<noteq> None"
  shows "okp (inbound_sasl_authenticate e data st)"
  using assms winv_oauth [of e st]
  by (cases "CHR '','' \<in> set data"; cases "serv_network st"; cases "sasl_mech st")
    (auto simp: inbound_sasl_authenticate_def Let_def split: prod.split)

text \<open>The keys of the favourite channels can be copied.\<close>

definition favs_copy :: "network option \<Rightarrow> bool" where
  "favs_copy net \<longleftrightarrow>
     (case net of None \<Rightarrow> True
      | Some n \<Rightarrow> \<forall>f \<in> set (favchanlist n). \<forall>k. snd f = Some k \<longrightarrow> safe_strcpy k 64 \<noteq> None)"

lemma rejoin_session_ok:
  assumes "favs_copy net"
  shows "\<exists>s' fav. rejoin_session net s = Some (s', fav) \<and> same_list s' s"
proof -
  define f where "f = favchan_find net (willjoinchannel s)"
  have "safe_strcpy k 64 \<noteq> None" if f: "f = Some (c, Some k)" for c k
  proof -
    obtain n where n: "net = Some n" "find (\<lambda>f. g_ascii_strcasecmp (fst f) (willjoinchannel s) = 0) (favchanlist n) =
        Some (c, Some k)"
      using f unfolding f_def favchan_find_def by (auto split: option.splits)
    then have "(c, Some k) \<in> set (favchanlist n)" unfolding find_Some_iff by (metis nth_mem)
    then show ?thesis using assms by (fastforce simp: favs_copy_def n(1))
  qed
  then show ?thesis
    by (auto simp: rejoin_session_def Let_def simp flip: f_def split: option.split)
qed

lemma rejoin_loop_ok:
  assumes "favs_copy net" "world_inv w" "\<forall>i \<in> set is. i < length (w_sessions w)"
  shows "\<exists>w' chans'. rejoin_loop net is w chans = Some (w', chans') \<and> world_inv w'"
  using assms(2,3)
proof (induction "is" arbitrary: w chans)
  case (Cons i "is")
  show ?case
  proof (cases "is_serv w i \<and> willjoinchannel (sess_at w i) \<noteq> []")
    case True
    obtain s' fav where r: "rejoin_session net (sess_at w i) = Some (s', fav)" "same_list s' (sess_at w i)"
      using rejoin_session_ok [OF assms(1)] by blast
    have "world_inv (put_session i s' w)"
      using world_inv_put [of w i s'] Cons.prems r(2) by (simp add: sess_at_def)
    with Cons.IH [of "put_session i s' w" "chans @ [fav]"] Cons.prems True r(1) show ?thesis by simp
  next
    case False
    then have "rejoin_loop net (i # is) w chans = rejoin_loop net is w chans" by auto
    with Cons show ?thesis by simp
  qed
qed simp

lemma check_autojoin_ok:
  assumes "winv st" "favs_copy (serv_network st)"
  shows "okp (check_autojoin_channels st)"
proof -
  obtain w chans where r: "rejoin_loop (serv_network st) [0..<length (w_sessions (pr_w st))] (pr_w st) [] = Some (w, chans)"
      "world_inv w"
    using rejoin_loop_ok [OF assms(2), of "pr_w st" "[0..<length (w_sessions (pr_w st))]" "[]"] assms(1)
    by (auto simp: winv_def)
  have "winv (foldl (\<lambda>st l. line_out l st) (st\<lparr>pr_w := w\<rparr>) ls)" for ls
    by (rule winv_foldl) (simp_all add: r)
  then show ?thesis by (simp add: check_autojoin_channels_def r(1) Let_def)
qed

lemma inbound_identified_ok: "winv st \<Longrightarrow> favs_copy (serv_network st) \<Longrightarrow> okp (inbound_identified st)"
  unfolding inbound_identified_def
  by (auto intro!: check_autojoin_ok simp: on_world_def winv_def)

subsection \<open>Messages\<close>

lemma with_ignore_ok:
  assumes "ignore_check (pr_ig st) host ty \<noteq> None" "winv st"
    "\<And>b ig. okp (k b (st\<lparr>pr_ig := ig\<rparr>))"
  shows "okp (with_ignore host ty k st)"
  using assms by (auto simp: with_ignore_def split: option.splits prod.splits)

lemma unless_batched_ok: "winv st \<Longrightarrow> okp (k st) \<Longrightarrow> okp (unless_batched command word word_eol td k st)"
  by (auto simp: unless_batched_def Let_def split: prod.split)

lemma confirm_echo_inv [simp]: "world_inv w \<Longrightarrow> world_inv (confirm_echo e track ctx td w)"
  by (auto simp: confirm_echo_def Let_def split: option.split)

lemma with_dialog_ok:
  assumes "world_inv w" "safe_strcpy tgt CHANLEN \<noteq> None" "\<And>i w. world_inv w \<Longrightarrow> world_inv (k i w)"
  shows "okw (with_dialog tgt k w)"
  using new_ircwindow_ok [OF assms(1,2), of SESS_DIALOG] assms(1,3)
  by (auto simp: with_dialog_def okw_def split: option.split)

lemma winv_on_world: "world_inv (f (pr_w st)) \<Longrightarrow> winv (on_world f st)"
  by (simp add: winv_def on_world_def)

lemma msg_self_ok:
  assumes "winv st" "safe_strcpy tgt CHANLEN \<noteq> None"
  shows "okp (msg_self e nick tgt text td st)"
proof -
  have inv: "world_inv (pr_w st)" using assms(1) by (simp add: winv_def)
  have send: "okp (try_world (with_dialog tgt (\<lambda>i. call ''inbound_chanmsg'' [tgt, nick, text])) st)"
    by (rule okp_try, rule with_dialog_ok [OF inv assms(2)]) simp
  have "winv (on_world (confirm_echo e True (find_dialog (pr_w st) tgt) td) st)"
    by (rule winv_on_world) (simp add: inv)
  then show ?thesis
    unfolding msg_self_def Let_def using assms(1) send by (intro okp_if) simp_all
qed

lemma ctcp_request_ok:
  assumes "winv st" "process_data_init dcc_line True False \<noteq> None"
  shows "okp (ctcp_request e nick ip tgt text dcc_line st)"
  using assms unfolding ctcp_request_def Let_def
  by (auto split: prod.split option.split)

lemma msg_ctcp_ok:
  assumes "winv st" "safe_strcpy tgt CHANLEN \<noteq> None"
    "process_data_init (word_eol 6) True False \<noteq> None" "process_data_init (butlast (word_eol 6)) True False \<noteq> None"
  shows "okp (msg_ctcp e ip nick tgt text word_eol td st)"
proof -
  have inv: "world_inv (pr_w st)" using assms(1) by (simp add: winv_def)
  have act: "okp (try_world (with_dialog tgt (\<lambda>i. call ''inbound_action'' [tgt, nick, ip, x])) st)" for x
    by (rule okp_try, rule with_dialog_ok [OF inv assms(2)]) simp
  have echo: "winv (on_world (\<lambda>w. confirm_echo e False (find_context w tgt) td w) st)"
    by (rule winv_on_world) (simp add: inv)
  have req: "okp (ctcp_request e nick ip tgt x (if b then butlast (word_eol 6) else word_eol 6) st)" for x b
    by (rule ctcp_request_ok [OF assms(1)]) (use assms in simp)
  show ?thesis
    unfolding msg_ctcp_def Let_def using assms(1) act echo req by (intro okp_if) simp_all
qed

lemma msg_text_ok:
  assumes "winv st" "safe_strcpy tgt CHANLEN \<noteq> None" "\<forall>host ty. ignore_check (pr_ig st) host ty \<noteq> None"
  shows "okp (msg_text e ip nick tgt text word td st)"
proof -
  have "world_inv (pr_w st)" using assms(1) by (simp add: winv_def)
  then have echo: "winv (on_world (\<lambda>w. confirm_echo e True (find_channel w tgt) td w) st)"
    by (intro winv_on_world) simp
  have self: "okp (msg_self e nick tgt text td (st\<lparr>pr_ig := ig\<rparr>))" for ig
    by (rule msg_self_ok) (use assms in simp_all)
  show ?thesis
    unfolding msg_text_def Let_def
    using assms echo self by (intro okp_if with_ignore_ok) simp_all
qed

subsection \<open>Lines in ASCII\<close>

lemma ascii_copy: "ascii_name s \<Longrightarrow> safe_strcpy s n \<noteq> None"
  by (simp add: ascii_name_def safe_strcpy_ascii)

lemma ascii_part: "ascii_name s \<Longrightarrow> set t \<subseteq> set s \<Longrightarrow> ascii_name t"
  by (auto simp: ascii_name_def ascii_str_def list_all_iff no_nul_def)

lemma ascii_pieces [simp]:
  assumes "ascii_name s"
  shows "ascii_name (tl s)" "ascii_name (butlast s)" "ascii_name (take n s)" "ascii_name (drop n s)"
    "ascii_name (upto_chr s c)" "ascii_name (no_colon s)"
proof -
  have "set (tl s) \<subseteq> set s" by (cases s) auto
  then show "ascii_name (tl s)" "ascii_name (no_colon s)"
    using assms by (auto intro: ascii_part [OF assms] simp: no_colon_def)
  have "set (upto_chr s c) \<subseteq> set s" by (auto simp: upto_chr_def dest: set_takeWhileD)
  then show "ascii_name (upto_chr s c)" by (rule ascii_part [OF assms])
qed (auto intro!: ascii_part [OF assms] dest: in_set_butlastD in_set_takeD in_set_dropD)

lemma ascii_name_ok: "ascii_name s \<Longrightarrow> name_ok serv s"
  by (cases "p_cmp_fn serv") (simp_all add: name_ok_def ascii_name_def)

lemma pdi_loop_ascii: "ascii_str s \<Longrightarrow> pdi_loop q e s st \<noteq> None"
proof (induction q e s st rule: pdi_loop.induct)
  case (2 q e c rest st)
  have c: "g_utf8_skip c = 1" "ascii_str rest" "ascii_str (drop n rest)" for n
    using 2(5) g_utf8_skip_ascii by (auto simp: ascii_str_def list_all_iff dest: in_set_dropD)
  then have def: "pdi_def (c # rest) st = Some (rest, pdi_put [c] st)" by (simp add: pdi_def_def)
  show ?case
    using 2(1-4) c(2,3) by (subst pdi_loop.simps(2)) (auto simp: def)
qed simp

lemma process_data_init_ascii: "ascii_name s \<Longrightarrow> process_data_init s q e \<noteq> None"
  using pdi_loop_ascii [of s q e "pdi_start s"] by (auto simp: process_data_init_def ascii_name_def)

lemma ascii_strip: "ascii_name (word i) \<Longrightarrow> ascii_name (word_eol i) \<Longrightarrow> ascii_name (STRIP_COLON word word_eol i)"
  by (simp add: STRIP_COLON_def)

lemma ascii_trim: "(\<And>i. ascii_name (word_eol i)) \<Longrightarrow> ascii_name (trim_eol offset word_eol k)"
  by (simp add: trim_eol_def)

text \<open>The source of a line in ASCII.\<close>

definition source_nick :: "words \<Rightarrow> string" where
  "source_nick word = take (NICKLEN - 1) (upto_chr (word 1) (CHR ''!''))"

lemma message_source_ascii:
  assumes "ascii_name (word 1)"
  shows "\<exists>ip. message_source (word 1) = Some (ip, source_nick word) \<and> ascii_name ip"
proof -
  define ip where "ip = (case strchr (word 1) (CHR ''!'') of None \<Rightarrow> word 1 | Some ex \<Rightarrow> tl ex)"
  have "ascii_name (dropWhile (\<lambda>x. x \<noteq> CHR ''!'') (word 1))"
    by (rule ascii_part [OF assms]) (auto dest: set_dropWhileD)
  then have ip: "ascii_name ip"
    using assms strchr_Some_dropWhile [of "CHR ''!''" "word 1"]
    by (auto simp: ip_def split: option.split)
  then have "safe_strcpy ip 128 = Some (take 127 ip)" by (simp add: ascii_name_def safe_strcpy_ascii)
  moreover have "safe_strcpy (upto_chr (word 1) (CHR ''!'')) NICKLEN = Some (source_nick word)"
    using ascii_pieces(5) [OF assms, of "CHR ''!''"] by (simp add: ascii_name_def safe_strcpy_ascii source_nick_def)
  ultimately show ?thesis
    using ip unfolding message_source_def Let_def ip_def [symmetric] by simp
qed

subsection \<open>The account tag\<close>

text \<open>The nicks and the lists are the same in both worlds.\<close>

definition same_names :: "world \<Rightarrow> world \<Rightarrow> bool" where
  "same_names v w \<longleftrightarrow> w_serv v = w_serv w \<and> length (w_sessions v) = length (w_sessions w) \<and>
     (\<forall>i. sess_at v i = sess_at w i) \<and> (\<forall>a. nick_at (w_mem v) a = nick_at (w_mem w) a)"

lemma same_names_nick_ok: "same_names v w \<Longrightarrow> nick_ok v old new = nick_ok w old new"
  unfolding nick_ok_def nick_free_def same_names_def is_serv_def
  using find_user_cong [of v _ w old] by (auto split: option.split)

lemma set_account_names: "same_names (on_list i (\<lambda>st. userlist_set_account serv st nick account) w) w"
proof -
  obtain m s where r: "userlist_set_account serv (w_mem w, sess_at w i) nick account = (m, s)" by force
  then have "s = sess_at w i \<and> (\<forall>a. nick_at m a = nick_at (w_mem w) a)"
    by (auto simp: userlist_set_account_def nick_at_def Let_def split: option.splits if_splits)
  moreover have "(w_sessions w)[i := sess_at w i] = w_sessions w" by (simp add: sess_at_def)
  ultimately show ?thesis
    unfolding same_names_def on_list_def r by (simp add: put_session_def) (simp add: sess_at_def)
qed

lemma inbound_account_names:
  assumes "inbound_account nick account w = Some w'"
  shows "same_names w' w"
proof -
  have emit: "same_names (call f args v) w = same_names v w" for f args v
    by (simp add: same_names_def nick_at_def call_def w_emit_def sess_at_def)
  have clear: "same_names (account_cleared a v) w = same_names v w" for a v
    by (simp add: account_cleared_def emit split: option.split)
  have loop: "\<exists>v'. run_all (\<lambda>i v. Some (on_list i (\<lambda>st. userlist_set_account (w_serv v) st nick account) v)) is v = Some v' \<and>
      same_names v' w" if "same_names v w" for "is" v
    using that set_account_names
    by (induction "is" arbitrary: v) (auto simp: same_names_def)
  have "same_names w w" by (simp add: same_names_def)
  then obtain v' where "run_all (\<lambda>i v. Some (on_list i (\<lambda>st. userlist_set_account (w_serv v) st nick account) v))
      [0..<length (w_sessions w)] w = Some v'" "same_names v' w"
    using loop by blast
  with assms show ?thesis
    by (auto simp: inbound_account_def Let_def each_session_def emit clear split: if_splits)
qed

subsection \<open>Commands\<close>

definition words_ascii :: "words \<Rightarrow> words \<Rightarrow> bool" where
  "words_ascii word word_eol \<longleftrightarrow> (\<forall>i. ascii_name (word i) \<and> ascii_name (word_eol i))"

lemma words_asciiD:
  assumes "words_ascii word word_eol"
  shows "ascii_name (word i)" "ascii_name (word_eol i)" "ascii_name (STRIP_COLON word word_eol i)"
    "ascii_name (trim_eol n word_eol i)"
  using assms unfolding words_ascii_def by (blast intro: ascii_strip ascii_trim)+

text \<open>What a command needs of the line and of the state, beside ASCII words.\<close>

definition line_ok :: "string \<Rightarrow> words \<Rightarrow> words \<Rightarrow> proto \<Rightarrow> bool" where
  "line_ok type word word_eol st \<longleftrightarrow>
     words_ascii word word_eol \<and>
     (\<forall>host ty. ignore_check (pr_ig st) host ty \<noteq> None) \<and> favs_copy (serv_network st) \<and>
     (type = ''JOIN'' \<longrightarrow> joinable (pr_serv st) (source_nick word)) \<and>
     (type = ''NICK'' \<longrightarrow> nick_ok (pr_w st) (source_nick word) (no_colon (word_eol 3))) \<and>
     (type \<in> {''FAIL'', ''WARN'', ''NOTE''} \<longrightarrow> trailing_index word_eol < PDIWORDS) \<and>
     (take 4 type = ''AUTH'' \<longrightarrow> CHR '','' \<in> set (word_eol 3) \<or> serv_network st \<noteq> None)"

lemma line_okD:
  assumes "line_ok type word word_eol st"
  shows "words_ascii word word_eol" "ignore_check (pr_ig st) host ty \<noteq> None" "favs_copy (serv_network st)"
    "type = ''JOIN'' \<Longrightarrow> joinable (pr_serv st) (source_nick word)"
    "type = ''NICK'' \<Longrightarrow> nick_ok (pr_w st) (source_nick word) (no_colon (word_eol 3))"
    "type \<in> {''FAIL'', ''WARN'', ''NOTE''} \<Longrightarrow> trailing_index word_eol < PDIWORDS"
    "take 4 type = ''AUTH'' \<Longrightarrow> CHR '','' \<in> set (word_eol 3) \<or> serv_network st \<noteq> None"
  using assms by (simp_all add: line_ok_def)

lemma copy_ascii [simp]: "ascii_name s \<Longrightarrow> \<exists>t. safe_strcpy s n = Some t"
  using ascii_copy by blast

lemma strip_trailing_Some: "trailing_index word_eol < PDIWORDS \<Longrightarrow> \<exists>t. strip_trailing word word_eol = Some t"
  by (simp add: strip_trailing_def Let_def)

lemma trailing_index_none: "PDIWORDS \<le> trailing_index word_eol \<longleftrightarrow> (\<forall>i \<in> {3..<PDIWORDS}. cur (word_eol i) \<noteq> CHR '':'')"
proof -
  define ks where "ks = filter (\<lambda>i. cur (word_eol i) = CHR '':'') [3..<PDIWORDS]"
  have "\<forall>i \<in> set ks. i < PDIWORDS" by (auto simp: ks_def)
  then have "PDIWORDS \<le> trailing_index word_eol \<longleftrightarrow> ks = []"
    unfolding trailing_index_def ks_def [symmetric] by (cases ks) auto
  then show ?thesis by (auto simp: ks_def filter_empty_conv)
qed

lemma winv_standard_reply [simp]: "winv (standard_reply n word text st) = winv st"
  by (simp add: standard_reply_def)

lemma msg_join_ok:
  assumes "winv st" "words_ascii word word_eol" "joinable (pr_serv st) nick"
  shows "okp (msg_join e ip nick word word_eol td st)"
  using assms words_asciiD [OF assms(2)] unfolding msg_join_def Let_def
  by (auto intro!: okp_try inbound_ujoin_ok inbound_join_ok ascii_copy simp: winv_def pr_serv_def)

lemma msg_kick_ok:
  assumes "winv st" "words_ascii word word_eol"
  shows "okp (msg_kick e nick word word_eol st)"
  using assms(1) words_asciiD [OF assms(2)] unfolding msg_kick_def Let_def
  by (auto intro!: okp_try inbound_ukick_ok inbound_kick_ok ascii_copy simp: winv_def)

lemma msg_part_ok:
  assumes "winv st"
  shows "okp (msg_part ip nick word word_eol st)"
proof -
  have w: "world_inv (pr_w st)" using assms by (simp add: winv_def)
  have "okp (Some (on_world (inbound_upart c ip r) st))" for c r
    using inbound_upart_ok [OF w] assms by (simp add: winv_def on_world_def)
  moreover have "okp (try_world (inbound_part c nick ip r) st)" for c r
    by (rule okp_try) (rule inbound_part_ok [OF w])
  ultimately show ?thesis unfolding msg_part_def Let_def by simp
qed

lemma msg_fail_ok:
  assumes "winv st" "trailing_index word_eol < PDIWORDS"
  shows "okp (msg_fail word word_eol st)"
  using strip_trailing_Some [OF assms(2), of word] assms(1) by (auto simp: msg_fail_def Let_def)

lemma named_4_ok:
  assumes inv: "winv st" and ok: "line_ok type word word_eol st"
  shows "okp (named_4 e type ip (source_nick word) word word_eol td st)"
proof -
  note wa [simp] = line_okD(1) [OF ok]
  note a [simp] = words_asciiD [OF wa]
  have w: "world_inv (pr_w st)" using inv by (simp add: winv_def)
  have "no_nul (word (3 + 1))" using a(1) [of "3 + 1"] unfolding ascii_name_def by blast
  moreover have "ascii_name (STRIP_COLON word (trim_eol n word_eol) k)" for n k
    by (rule ascii_strip) (rule a)+
  ultimately have mode: "okp (try_world (\<lambda>w. handle_mode r w word word_eol nick False) st)" for r nick
    using handle_mode_inv [OF w, of 3 False word word_eol r nick]
    by (intro okp_try) (auto simp: okw_def intro: ascii_copy)
  have nick: "okp (try_world (inbound_newnick (source_nick word) (no_colon (word_eol 3)) False) st)"
    if "type = ''NICK''"
    by (rule okp_try) (rule inbound_newnick_ok [OF w line_okD(5) [OF ok that]])
  have quit: "okp (try_world (inbound_quit n i r) st)" for n i r
    by (rule okp_try) (rule inbound_quit_ok [OF w])
  have away: "okp (try_world (inbound_away_notify l n r) st)" for l n r
    by (rule okp_try) (rule inbound_away_notify_ok [OF w])
  have ans: "okp (map_option (\<lambda>t. standard_reply n word t st) (strip_trailing word word_eol))"
    if "type \<in> {''FAIL'', ''WARN'', ''NOTE''}" for n
    using strip_trailing_Some [OF line_okD(6) [OF ok that], of word] inv by auto
  show ?thesis
    unfolding named_4_def Let_def
    by (intro okp_if unless_batched_ok msg_kick_ok msg_part_ok mode quit away msg_join_ok nick ans msg_fail_ok
        line_okD(4) [OF ok] line_okD(6) [OF ok])
      (simp_all add: inv)
qed

lemma unless_batched_Some: "winv st \<Longrightarrow> okp (unless_batched command word word_eol td Some st)"
  by (rule unless_batched_ok) simp_all

lemma msg_privmsg_ok:
  assumes inv: "winv st" and ok: "line_ok type word word_eol st"
  shows "okp (msg_privmsg e ip nick word word_eol td st)"
proof (cases "word 3")
  case (Cons c rest)
  note a [simp] = words_asciiD [OF line_okD(1) [OF ok]]
  have "ascii_name (c # rest)" "ascii_name rest"
    using a(1) [of 3] ascii_pieces(1) [of "c # rest"] by (simp_all add: Cons)
  then have tgt: "ascii_name (if b then rest else c # rest)" for b by simp
  show ?thesis
    unfolding msg_privmsg_def Cons list.case Let_def
    by (intro okp_if msg_ctcp_ok msg_text_ok inv ascii_copy tgt process_data_init_ascii allI line_okD(2) [OF ok])
      simp_all
qed (simp add: msg_privmsg_def inv)

lemma msg_batch_ok: "winv st \<Longrightarrow> winv (msg_batch e word td st)"
proof -
  assume "winv st"
  then have w: "world_inv (pr_w st)" by (simp add: winv_def)
  have one: "world_inv (process_multiline_batch b (pr_w st))" for b
    using w by (simp add: process_multiline_batch_def Let_def split: option.split prod.split)
  have part: "world_inv w" if "process_batch b (sq, pr_w st) = (sq', w)" for b sq sq' w
    using that w one [of b] by (auto simp: process_batch_def Let_def split: if_splits)
  have "world_inv w" if "inbound_batch_end hb b (sq, pr_w st) = (sq', w)" for hb b sq sq' w
    using that w unfolding inbound_batch_end_def Let_def
    by (auto dest: part split: option.splits prod.splits if_splits)
  then show ?thesis
    using w by (auto simp: msg_batch_def Let_def winv_def split: list.split prod.split)
qed

lemma msg_markread_ok [simp]: "winv (msg_markread e word st) = winv st"
  by (simp add: msg_markread_def Let_def split: option.split)

lemma msg_redact_ok [simp]: "winv (msg_redact e nick word word_eol td st) = winv st"
  by (simp add: msg_redact_def Let_def split: option.split)

lemma msg_rename_ok:
  assumes inv: "winv st" and a: "words_ascii word word_eol"
  shows "okp (msg_rename nick word word_eol st)"
proof -
  obtain name where name: "safe_strcpy (word 4) CHANLEN = Some name"
    using ascii_copy [OF words_asciiD(1) [OF a, of 4], of CHANLEN] by blast
  have "world_inv (upd_session i (\<lambda>s. s\<lparr>channel := name\<rparr>) (pr_w st))" if "find_channel (pr_w st) c = Some i" for c i
    using inv find_channel_serv [OF that] by (simp add: winv_def)
  then show ?thesis
    using inv by (auto simp: msg_rename_def name Let_def on_world_def winv_def split: option.split)
qed

lemma serv_network_ev [simp]:
  "serv_network (ev n a st) = serv_network st" "serv_network (fn n a st) = serv_network st"
  by (simp_all add: on_world_def)

lemma account_answer_ok:
  assumes "winv st" "favs_copy (serv_network st)"
  shows "okp (account_answer verb past word word_eol st)"
  unfolding account_answer_def Let_def using assms
  by (intro okp_if inbound_identified_ok) simp_all

lemma named_5_ok:
  assumes inv: "winv st" and ok: "line_ok type word word_eol st"
  shows "okp (named_5 e type ip (source_nick word) word word_eol td st)"
proof -
  note wa [simp] = line_okD(1) [OF ok]
  have w: "world_inv (pr_w st)" using inv by (simp add: winv_def)
  have account: "okp (try_world (inbound_account n a) st)" for n a
    by (rule okp_try) (rule inbound_account_ok [OF w])
  have info: "okp (try_world (inbound_user_info pf dns None u h s n r acc away) st)" for pf dns u h s n r acc away
    by (rule okp_try) (rule inbound_user_info_ok [OF w])
  have topic: "okp (try_world (inbound_topicnew n c t) st)" for n c t
    by (rule okp_try) (rule inbound_topicnew_ok [OF w])
  have notice: "okp (msg_notice e ip n word word_eol td st)" for n
    unfolding msg_notice_def Let_def
    by (intro okp_if with_ignore_ok line_okD(2) [OF ok]) (simp_all add: inv)
  have invite: "okp (msg_invite n word word_eol st)" for n
    unfolding msg_invite_def Let_def
    by (intro with_ignore_ok line_okD(2) [OF ok]) (simp_all add: inv)
  show ?thesis
    unfolding named_5_def Let_def
    by (intro okp_if unless_batched_ok account info topic notice invite msg_privmsg_ok [OF inv ok]
        inbound_sasl_authenticate_ok line_okD(7) [OF ok] account_answer_ok line_okD(3) [OF ok] msg_rename_ok)
      (simp_all add: inv msg_batch_ok)
qed

text \<open>The account tag changes no nick, so that a line stays one the commands accept.\<close>

lemma account_step:
  assumes "winv st" "line_ok type word word_eol st"
  shows "\<exists>st'. try_world (inbound_account nick account) st = Some st' \<and> winv st' \<and> line_ok type word word_eol st'"
proof -
  have "world_inv (pr_w st)" using assms(1) by (simp add: winv_def)
  then obtain w where w: "inbound_account nick account (pr_w st) = Some w" "world_inv w"
    using inbound_account_ok [of "pr_w st" nick account] by (auto simp: okw_def)
  note n = inbound_account_names [OF w(1)]
  have "w_serv w = w_serv (pr_w st)" using n by (simp add: same_names_def)
  with w assms(2) same_names_nick_ok [OF n] show ?thesis
    by (simp add: try_world_def winv_def line_ok_def pr_serv_def)
qed

lemma table_remove_map: "map_of (table_remove k t) k' = (if k' = k then None else map_of t k')"
  by (induction t) (auto simp: table_remove_def)

subsection \<open>Properties\<close>


text \<open>The standard replies FAIL, WARN and NOTE are handled exactly when one of the words from the
  fourth on begins with a colon: the description is looked up as the last parameter, and a line
  without one makes the handler read a word behind the table.\<close>

theorem standard_reply_needs_trailing:
  assumes "ascii_name (word 1)" "\<not> have_account_tag (pr_caps st)" "type \<in> {''FAIL'', ''WARN'', ''NOTE''}"
  shows "process_named_msg e type word word_eol td st = None \<longleftrightarrow>
    (\<forall>i \<in> {3..<PDIWORDS}. cur (word_eol i) \<noteq> CHR '':'')"
proof -
  obtain ip where src: "message_source (word 1) = Some (ip, source_nick word)"
    using message_source_ascii [of word] assms(1) by blast
  have "strip_trailing word word_eol = None \<longleftrightarrow> (\<forall>i \<in> {3..<PDIWORDS}. cur (word_eol i) \<noteq> CHR '':'')"
    using trailing_index_none [of word_eol] by (simp add: strip_trailing_def Let_def not_less)
  moreover have "process_named_msg e type word word_eol td st = None \<longleftrightarrow> strip_trailing word word_eol = None"
    using assms(3) unfolding process_named_msg_def src option.case prod.case
    by (elim insertE emptyE) (simp_all add: assms(2) named_4_def msg_fail_def Let_def split: option.split)
  ultimately show ?thesis by simp
qed

text \<open>A labelled request is answered once: a line with the label of a pending request, other
  than the start of a batch, is marked as the confirmation of that request exactly when it is
  pending; afterwards the label is no longer pending, so that no later line with it is taken for
  a confirmation, and every other request stays pending.\<close>

theorem label_answered_once:
  assumes "t_label td = Some l" "\<not> t_echo_confirmed td" "answer_label buf td st = (st', td')"
  shows "(t_echo_confirmed td' \<longleftrightarrow> \<not> is_batch_start buf \<and> l \<in> dom (map_of (pending_labels (pr_sq st)))) \<and>
    (t_echo_confirmed td' \<longrightarrow> (\<forall>buf2 td2. t_label td2 = Some l \<longrightarrow> answer_label buf2 td2 st' = (st', td2))) \<and>
    (\<forall>l'. l' \<noteq> l \<longrightarrow> map_of (pending_labels (pr_sq st')) l' = map_of (pending_labels (pr_sq st)) l')"
proof (cases "is_batch_start buf \<or> map_of (pending_labels (pr_sq st)) l = None")
  case True
  then have "st' = st" "td' = td" using assms(1,3) by (auto simp: answer_label_def split: option.splits)
  with True assms(2) show ?thesis by auto
next
  case False
  then obtain info where info: "map_of (pending_labels (pr_sq st)) l = Some info" "\<not> is_batch_start buf" by auto
  have sq: "pending_labels (pr_sq st') = table_remove l (pending_labels (pr_sq st))" and td: "t_echo_confirmed td'"
    using assms(1,3) info by (auto simp: answer_label_def Let_def on_world_def split: if_splits)
  have gone: "map_of (pending_labels (pr_sq st')) l = None"
    by (simp add: sq table_remove_map)
  then have "answer_label buf2 td2 st' = (st', td2)" if "t_label td2 = Some l" for buf2 td2
    using that by (simp add: answer_label_def)
  then show ?thesis using td info by (auto simp: sq table_remove_map)
qed

definition demo_line :: words where
  "demo_line k = [[], ''bob!u@h'', ''WARN'', ''CMD'', ''CODE'', ''oops'', [], []] ! min k 6"

lemma demo_line_ascii: "ascii_name (demo_line k)"
proof -
  have "list_all ascii_name [[], ''bob!u@h'', ''WARN'', ''CMD'', ''CODE'', ''oops'', [], []]"
    by (simp add: ascii_name_def ascii_str_def no_nul_def ascii_def uchar_def)
  then show ?thesis unfolding demo_line_def by (simp add: list_all_length)
qed


theorem standard_reply_needs_trailing_witness:
  "process_named_msg demo_env ''WARN'' demo_line demo_line MESSAGE_TAGS_DATA_INIT
     (demo_proto\<lparr>pr_caps := (pr_caps demo_proto)\<lparr>have_account_tag := False\<rparr>\<rparr>) = None"
proof -
  have "cur (demo_line k) \<noteq> CHR '':''" for k
    by (auto simp: demo_line_def nth_Cons' cur_def)
  then show ?thesis
    using standard_reply_needs_trailing [of demo_line _ "''WARN''"] demo_line_ascii by simp
qed

theorem label_answered_once_witness:
  "let td = MESSAGE_TAGS_DATA_INIT\<lparr>t_label := Some ''l''\<rparr>;
       st = demo_proto\<lparr>pr_sq := demo_queue\<lparr>pending_labels :=
         [(''l'', \<lparr>pl_command = ''WHO'', pl_target = None, pl_sess = None, pl_sent_time = 0, pl_entry_id = 0\<rparr>)]\<rparr>\<rparr>;
       (st1, td1) = answer_label ''PING'' td st
   in t_echo_confirmed td1 \<and> answer_label ''PING'' td st1 = (st1, td)"
proof -
  let ?td = "MESSAGE_TAGS_DATA_INIT\<lparr>t_label := Some ''l''\<rparr>"
  let ?st = "demo_proto\<lparr>pr_sq := demo_queue\<lparr>pending_labels :=
    [(''l'', \<lparr>pl_command = ''WHO'', pl_target = None, pl_sess = None, pl_sent_time = 0, pl_entry_id = 0\<rparr>)]\<rparr>\<rparr>"
  have b: "\<not> is_batch_start ''PING''" by (simp add: is_batch_start_def cur_def)
  obtain st td where r: "answer_label ''PING'' ?td ?st = (st, td)" by force
  show ?thesis
    unfolding Let_def r prod.case
    using label_answered_once [OF _ _ r, of "''l''"] b by (simp add: MESSAGE_TAGS_DATA_INIT_def)
qed

end
