(* ===== verification/InputText.thy ===== *)
theory InputText
  imports UserList Words
begin

text \<open>
  The texts a user types, in \<open>src/common/outbound.c\<close>: the \<open>%\<close> codes of \<open>check_special_chars\<close>,
  the variables of a user command (\<open>auto_insert\<close>) and of a connect command
  (\<open>command_insert_vars\<close>), the completion of a nick, and the cutting of a long message
  (\<open>split_up_text\<close>).

  \<open>to_utf8\<close> is \<open>g_locale_to_utf8\<close> of one byte; it may fail.
\<close>

type_synonym to_utf8 = "char \<Rightarrow> string option"

definition code_char :: "char \<Rightarrow> char option" where
  "code_char c =
     map_of [(CHR ''R'', CHR 0x16), (CHR ''U'', CHR 0x1F), (CHR ''B'', CHR 0x02), (CHR ''I'', CHR 0x1D),
             (CHR ''S'', CHR 0x1E), (CHR ''C'', CHR 0x03), (CHR ''O'', CHR 0x0F), (CHR ''H'', HIDDEN_CHAR),
             (CHR ''%'', CHR ''%'')] c"

text \<open>\<open>%065\<close>: three digits stand for the byte they name.\<close>

definition three_digits :: "string \<Rightarrow> bool" where
  "three_digits s \<longleftrightarrow> 3 \<le> length s \<and> list_all is_digit (take 3 s)"

definition byte_text :: "to_utf8 \<Rightarrow> string \<Rightarrow> string" where
  "byte_text to_utf8 s =
     (let b = char_of (nat (atoi (take 3 s))) in case to_utf8 b of None \<Rightarrow> [b] | Some utf \<Rightarrow> utf)"

function special_chars :: "to_utf8 \<Rightarrow> bool \<Rightarrow> string \<Rightarrow> string" where
  "special_chars to_utf8 do_ascii [] = []"
| "special_chars to_utf8 do_ascii (c # s) =
     (if c = CHR ''%'' then
        if do_ascii \<and> three_digits s then byte_text to_utf8 s @ special_chars to_utf8 do_ascii (drop 3 s)
        else
          (case code_char (cur s) of
             Some code \<Rightarrow> code # special_chars to_utf8 do_ascii (drop 1 s)
           | None \<Rightarrow> CHR ''%'' # special_chars to_utf8 do_ascii s)
      else c # special_chars to_utf8 do_ascii s)"
  by pat_completeness auto
termination by (relation "measure (\<lambda>(u, a, s). length s)") auto

declare special_chars.simps(2) [simp del]

text \<open>The text is a C string: a byte 0 the codes put in ends it.\<close>

definition check_special_chars :: "to_utf8 \<Rightarrow> bool \<Rightarrow> string \<Rightarrow> string" where
  "check_special_chars to_utf8 do_ascii cmd = upto_chr (special_chars to_utf8 do_ascii cmd) NUL"

lemma special_chars_plain: "CHR ''%'' \<notin> set s \<Longrightarrow> special_chars u a s = s"
  by (induction s) (auto simp: special_chars.simps(2))

lemma check_special_chars_plain: "CHR ''%'' \<notin> set s \<Longrightarrow> no_nul s \<Longrightarrow> check_special_chars u a s = s"
  by (auto simp: check_special_chars_def special_chars_plain upto_chr_def no_nul_def takeWhile_eq_all_conv)

subsection \<open>Cutting a message\<close>

text \<open>
  What is left of 512 bytes behind \<open>:nick!user@host PRIVMSG channel :\<close>, in an \<open>unsigned int\<close>;
  \<open>cmd_length\<close> counts the command itself.
\<close>

definition split_max :: "string \<Rightarrow> string \<Rightarrow> string option \<Rightarrow> uint \<Rightarrow> uint" where
  "split_max nick chan host cmd_length =
     512 - 3 - cmd_length - of_nat (length nick) - of_nat (length chan) -
       (case host of Some h \<Rightarrow> of_nat (length h) | None \<Rightarrow> 9 + 65)"

text \<open>The loop over the characters of the text: how many bytes of it stay below \<open>max\<close>.\<close>

function utf8_cut :: "nat \<Rightarrow> string \<Rightarrow> nat" where
  "utf8_cut max_len s =
     (let size = g_utf8_skip (cur s) in
      if size \<ge> max_len then 0 else size + utf8_cut (max_len - size) (drop size s))"
  by pat_completeness auto
termination
  by (relation "measure fst") (use g_utf8_skip_pos in \<open>auto simp: Let_def\<close>)

declare utf8_cut.simps [simp del]

text \<open>\<open>g_utf8_strrchr (s, n, ' ')\<close>, as an index, and \<open>g_utf8_pointer_to_offset\<close>.\<close>

definition last_space :: "nat \<Rightarrow> string \<Rightarrow> nat option" where
  "last_space n s =
     (case filter (\<lambda>i. s ! i = CHR '' '') [0..<min n (length s)] of [] \<Rightarrow> None | is \<Rightarrow> Some (last is))"

function utf8_offset :: "string \<Rightarrow> nat \<Rightarrow> nat" where
  "utf8_offset s n = (if n = 0 then 0 else Suc (utf8_offset (drop (g_utf8_skip (cur s)) s) (n - g_utf8_skip (cur s))))"
  by pat_completeness auto
termination by (relation "measure snd") (use g_utf8_skip_pos in \<open>auto\<close>)

declare utf8_offset.simps [simp del]

definition cut_point :: "nat \<Rightarrow> string \<Rightarrow> nat" where
  "cut_point max_len s =
     (let n = utf8_cut max_len s in
      case last_space n s of
        None \<Rightarrow> n
      | Some p \<Rightarrow>
          let space_offset = utf8_offset s p in
          if n \<noteq> space_offset \<and> n - space_offset < 20 then space_offset + 1 else n)"

definition split_up_text :: "string \<Rightarrow> string \<Rightarrow> string option \<Rightarrow> uint \<Rightarrow> string \<Rightarrow> string option" where
  "split_up_text nick chan host cmd_length s =
     (let max_len = unat (split_max nick chan host cmd_length) in
      if length s > max_len then Some (take (cut_point max_len s) s) else None)"

text \<open>
  The loop of its callers, with what is left of the text at the end. A piece that is empty does
  not move the text on: then the loop does not end, and the value is \<open>None\<close>.
\<close>

partial_function (option) split_loop :: "(string \<Rightarrow> string option) \<Rightarrow> string \<Rightarrow> string list option" where
  "split_loop split_up s =
     (case split_up s of
        None \<Rightarrow> Some [s]
      | Some piece \<Rightarrow> Option.bind (split_loop split_up (drop (length piece) s)) (\<lambda>ps. Some (piece # ps)))"

subsection \<open>User commands\<close>

text \<open>
  \<open>auto_insert\<close> fills a buffer of \<open>lim + 1\<close> bytes. Its result 2 leaves the buffer as it is then,
  which ends in a 0 only when the last thing written was a whole string. \<open>None\<close> is a byte
  written behind the buffer (a \<open>&\<close> or a \<open>%\<close> that begins no variable is copied without a test) or
  a truncated multi-byte character, copied from behind the terminator.
\<close>

datatype insert_result = Inserted string | Bad_args | Too_long string bool

type_synonym word_table = "(nat \<Rightarrow> string) \<times> (nat \<Rightarrow> string)"

definition insert_codes :: string where
  "insert_codes = ''acdehmnstuvy''"

function auto_insert_loop ::
    "to_utf8 \<Rightarrow> nat \<Rightarrow> word_table option \<Rightarrow> (char \<Rightarrow> string option) \<Rightarrow> string \<Rightarrow> string \<Rightarrow> bool \<Rightarrow>
     insert_result option" where
  "auto_insert_loop u lim tab vars [] dest term =
     (if length dest > lim then None else Some (Inserted dest))"
| "auto_insert_loop u lim tab vars (c # s) dest term =
     (let lamecode = (if length dest > lim then None else auto_insert_loop u lim tab vars s (dest @ [c]) False);
          put = (\<lambda>t k. if length dest + length t \<ge> lim then Some (Too_long dest term) else k (dest @ t))
      in
      if c = CHR ''%'' \<or> c = CHR ''&'' then
        if is_digit (cur s) then
          if three_digits s then
            if length dest > lim then None
            else
              let b = char_of (nat (atoi (take 3 s))) in
              (case u b of
                 None \<Rightarrow> auto_insert_loop u lim tab vars (drop 3 s) dest (b = NUL)
               | Some utf \<Rightarrow>
                   if length dest + length utf \<ge> lim then Some (Too_long dest (b = NUL))
                   else auto_insert_loop u lim tab vars (drop 3 s) (dest @ utf) False)
          else
            (case tab of
               None \<Rightarrow> auto_insert_loop u lim tab vars s dest term
             | Some (word, word_eol) \<Rightarrow>
                 let num = digit_val (cur s) in
                 if word num = [] then Some Bad_args
                 else put (if c = CHR ''%'' then word num else word_eol num)
                        (\<lambda>d. auto_insert_loop u lim tab vars (drop 1 s) d True))
        else if c = CHR ''&'' then lamecode
        else if cur s = CHR ''%'' then
          (if length dest + 2 \<ge> lim then Some (Too_long dest term)
           else auto_insert_loop u lim tab vars (drop 1 s) (dest @ ''%'') True)
        else if cur s \<in> set insert_codes then
          (case vars (cur s) of
             None \<Rightarrow> auto_insert_loop u lim tab vars (drop 1 s) dest term
           | Some utf \<Rightarrow> put utf (\<lambda>d. auto_insert_loop u lim tab vars (drop 1 s) d True))
        else lamecode
      else
        let utf_len = g_utf8_skip c in
        if length dest + utf_len \<ge> lim then Some (Too_long dest term)
        else if length s + 1 < utf_len then None
        else auto_insert_loop u lim tab vars (drop (utf_len - 1) s) (dest @ take utf_len (c # s)) False)"
  by pat_completeness auto
termination by (relation "measure (\<lambda>(u, l, t, v, s, d, b). length s)") auto

declare auto_insert_loop.simps(2) [simp del]

definition auto_insert ::
    "to_utf8 \<Rightarrow> nat \<Rightarrow> string \<Rightarrow> word_table option \<Rightarrow> (char \<Rightarrow> string option) \<Rightarrow> insert_result option" where
  "auto_insert u destlen src tab vars = auto_insert_loop u (destlen - 1) tab vars src [] False"

text \<open>\<open>command_insert_vars\<close>: the variables of a command run at connect, for a server of a network.\<close>

fun insert_net_vars :: "(char \<Rightarrow> string option) \<Rightarrow> string \<Rightarrow> string" where
  "insert_net_vars vars [] = []"
| "insert_net_vars vars (c # s) =
     (if c = CHR ''%'' then
        (case s of
           [] \<Rightarrow> [c]
         | x # r \<Rightarrow>
             if x \<in> set ''npru''
             then (case vars x of None \<Rightarrow> [] | Some v \<Rightarrow> v) @ insert_net_vars vars r
             else c # x # insert_net_vars vars r)
      else c # insert_net_vars vars s)"

subsection \<open>Completion of a nick\<close>

text \<open>\<open>nick_comp_cb\<close> over the nicks of the channel: an equal one ends the search.\<close>

datatype nick_data = Searching "string option" | Exact string

definition nick_comp_cb :: "string \<Rightarrow> string \<Rightarrow> nick_data \<Rightarrow> nick_data \<times> bool" where
  "nick_comp_cb nick user st =
     (case st of
        Exact u \<Rightarrow> (st, False)
      | Searching best \<Rightarrow>
          if rfc_ncasecmp user nick (int (length nick)) = 0 then
            if length user = length nick then (Exact user, False)
            else
              (case best of
                 None \<Rightarrow> (Searching (Some user), True)
               | Some b \<Rightarrow> if length user < length b then (Searching (Some user), True) else (st, True))
          else (st, True))"

definition perform_nick_completion :: "char \<Rightarrow> mem \<Rightarrow> addr tree option \<Rightarrow> string \<Rightarrow> string" where
  "perform_nick_completion suffix m users cmd =
     (let n = length (upto_chr cmd (CHR '' '')); rest = drop (n - 1) cmd; nick = take (n - 1) cmd in
      if n < length cmd \<and> n > 1 \<and> cur rest = suffix \<and> n - 1 < NICKLEN then
        (case tree_foreach (\<lambda>a. nick_comp_cb nick (nick_at m a)) users (Searching None) of
           Exact u \<Rightarrow> take 4095 (u @ rest)
         | Searching (Some u) \<Rightarrow> take 4095 (u @ rest)
         | Searching None \<Rightarrow> cmd)
      else cmd)"

subsection \<open>Lemmas on the cut\<close>

lemma utf8_cut_bound: "0 < n \<Longrightarrow> utf8_cut n s < n"
proof (induction n s rule: utf8_cut.induct)
  case (1 n s)
  show ?case
  proof (cases "g_utf8_skip (cur s) \<ge> n")
    case False
    with 1(1) [OF refl False] have "utf8_cut (n - g_utf8_skip (cur s)) (drop (g_utf8_skip (cur s)) s) < n - g_utf8_skip (cur s)"
      by simp
    then show ?thesis using False by (subst utf8_cut.simps) (simp add: Let_def)
  qed (use 1(2) in \<open>subst utf8_cut.simps, simp\<close>)
qed

lemma utf8_cut_pos: "g_utf8_skip (cur s) < n \<Longrightarrow> 0 < utf8_cut n s"
  using g_utf8_skip_pos [of "cur s"] by (subst utf8_cut.simps) (simp add: Let_def)

lemma last_space_bound: "last_space n s = Some p \<Longrightarrow> p < n"
proof -
  assume a: "last_space n s = Some p"
  define ps where "ps = filter (\<lambda>i. s ! i = CHR '' '') [0..<min n (length s)]"
  have "ps \<noteq> []" "p = last ps" using a unfolding last_space_def ps_def [symmetric] by (cases ps; simp)+
  then have "p \<in> set ps" by simp
  then show ?thesis by (simp add: ps_def)
qed

lemma utf8_offset_le: "utf8_offset s n \<le> n"
proof (induction s n rule: utf8_offset.induct)
  case (1 s n)
  then show ?case using g_utf8_skip_pos [of "cur s"] by (subst utf8_offset.simps) auto
qed

lemma cut_point_bounds:
  assumes "g_utf8_skip (cur s) < n"
  shows "0 < cut_point n s \<and> cut_point n s < n"
proof -
  have n: "0 < utf8_cut n s" "utf8_cut n s < n"
    using utf8_cut_pos [OF assms] utf8_cut_bound [of n s] assms by auto
  then show ?thesis
    using last_space_bound utf8_offset_le
    by (auto simp: cut_point_def Let_def split: option.split) (metis Suc_leI le_less_trans order_le_less_trans)+
qed

end
