(* ===== verification/Say.thy ===== *)
theory Say
  imports ProtoIrc InputText InputHistory
begin

text \<open>
  Text typed into a window, in \<open>src/common/outbound.c\<close>: \<open>handle_say\<close> with the three ways a
  message is echoed, the typing notifications, and the multiline batches.

  \<open>client\<close> adds to the state of the server what a window keeps for its input line, in \<open>cl_ui\<close>
  by the number of its session. \<open>None\<close> is undefined behaviour or a loop that does not end.
\<close>

record ui =
  reply_msgid :: "string option"
  react_target_msgid :: "string option"
  typing_last_sent :: int
  typing_last_keystroke :: int
  typing_send_timer :: bool
  ui_history :: history
  lastnick :: string
  current_msgid :: "string option"

definition new_ui :: ui where
  "new_ui = \<lparr>reply_msgid = None, react_target_msgid = None, typing_last_sent = 0, typing_last_keystroke = 0,
     typing_send_timer = False, ui_history = new_history, lastnick = [],
     current_msgid = None\<rparr>"

record client =
  cl_st :: proto
  cl_ui :: "nat \<Rightarrow> ui"
  connected :: bool
  last_away_reason :: "string option"

text \<open>The preferences of the input line, and what the front end and the other parts answer.\<close>

record ienv =
  ie_env :: env
  ie_utf8 :: to_utf8
  perc_color :: bool
  perc_ascii :: bool
  completion_auto :: bool
  completion_suffix :: char
  command_char :: char
  typing_send :: bool
  input_box :: string
  mono_now :: int
  last_entry_id :: nat
  dcc_write_chat :: "string \<Rightarrow> string \<Rightarrow> string option"
  command_list :: "(string \<times> string) list"
  auto_vars :: "char \<Rightarrow> string option"
  plugin_command :: "nat \<Rightarrow> (nat \<Rightarrow> string) \<Rightarrow> (nat \<Rightarrow> string) \<Rightarrow> bool"
  away_reason :: string
  part_reason :: string
  ping_time :: string
  last_msgid :: "nat \<Rightarrow> string option"
  newer_stamp :: "nat \<Rightarrow> (int \<times> string) option"
  last_nonself_msgid :: "nat \<Rightarrow> string option"
  ban_type :: int
  is_ip :: "string \<Rightarrow> bool"

definition on_st :: "(proto \<Rightarrow> proto) \<Rightarrow> client \<Rightarrow> client" where
  "on_st f c = c\<lparr>cl_st := f (cl_st c)\<rparr>"

definition on_ui :: "nat \<Rightarrow> (ui \<Rightarrow> ui) \<Rightarrow> client \<Rightarrow> client" where
  "on_ui i f c = c\<lparr>cl_ui := (cl_ui c)(i := f (cl_ui c i))\<rparr>"

definition cl_sess :: "client \<Rightarrow> nat \<Rightarrow> session" where
  "cl_sess c i = sess_at (pr_w (cl_st c)) i"

definition cl_serv :: "client \<Rightarrow> server" where
  "cl_serv c = pr_serv (cl_st c)"

text \<open>\<open>PrintText\<close> in session \<open>i\<close>, and a line for the server.\<close>

definition print_text :: "nat \<Rightarrow> string \<Rightarrow> client \<Rightarrow> client" where
  "print_text i s = on_st (fn ''PrintText'' [show_nat i, s])"

definition send_raw :: "string \<Rightarrow> client \<Rightarrow> client" where
  "send_raw s = on_st (line_out s)"

definition notj_msg :: "nat \<Rightarrow> client \<Rightarrow> client" where
  "notj_msg i = print_text i ''No channel joined. Try /join #<channel>''"

definition notc_msg :: "nat \<Rightarrow> client \<Rightarrow> client" where
  "notc_msg i = print_text i ''Not connected. Try /server <host> [<port>]''"

definition has_echo :: "client \<Rightarrow> bool" where
  "has_echo c = have_echo_message (pr_flags (cl_st c))"

definition has_labels :: "client \<Rightarrow> bool" where
  "has_labels c = have_labels (pr_caps (cl_st c))"

definition has_tags :: "client \<Rightarrow> bool" where
  "has_tags c = have_message_tags (pr_caps (cl_st c))"

subsection \<open>Sending a message\<close>

text \<open>
  \<open>p_message\<close> and \<open>p_action\<close>: the reply a window has prepared goes with the first message to
  its channel and is used up.
\<close>

definition p_send ::
    "(int \<Rightarrow> bool \<Rightarrow> string option \<Rightarrow> string \<Rightarrow> string \<Rightarrow> sendq \<Rightarrow> sendq \<times> string option \<times> bool) \<Rightarrow>
     ienv \<Rightarrow> string \<Rightarrow> string \<Rightarrow> client \<Rightarrow> client" where
  "p_send irc_fn e chan text c =
     (let win = find_window (pr_w (cl_st c)) chan;
          reply = (case win of None \<Rightarrow> None | Some j \<Rightarrow> reply_msgid (cl_ui c j));
          (sq, _, used) = irc_fn (env_now (ie_env e)) (has_tags c) reply chan text (pr_sq (cl_st c));
          c = on_st (\<lambda>st. st\<lparr>pr_sq := sq\<rparr>) c
      in case win of
           Some j \<Rightarrow> if used then on_st (fn ''fe_reply_state_changed'' [show_nat j])
                                    (on_ui j (\<lambda>u. u\<lparr>reply_msgid := None\<rparr>) c) else c
         | None \<Rightarrow> c)"

definition p_message :: "ienv \<Rightarrow> string \<Rightarrow> string \<Rightarrow> client \<Rightarrow> client" where
  "p_message = p_send irc_message"

definition p_action :: "ienv \<Rightarrow> string \<Rightarrow> string \<Rightarrow> client \<Rightarrow> client" where
  "p_action = p_send irc_action"

definition mark_pending_echo :: "ienv \<Rightarrow> nat \<Rightarrow> client \<Rightarrow> client" where
  "mark_pending_echo e i c =
     (let sq = pr_sq (cl_st c) in
      case last_sent_label sq of
        None \<Rightarrow> c
      | Some l \<Rightarrow>
          if map_of (pending_labels sq) l = None \<or> last_entry_id e = 0 then c
          else
            on_st (\<lambda>st. fn ''fe_set_entry_pending'' [show_nat (last_entry_id e)]
              (st\<lparr>pr_sq := sq\<lparr>pending_labels := table_update l
                     (\<lambda>p. p\<lparr>pl_entry_id := last_entry_id e, pl_sess := Some i\<rparr>) (pending_labels sq),
                   last_sent_label := None\<rparr>\<rparr>)) c)"

text \<open>
  The three ways of a message: shown as pending until its labelled echo comes, shown at once
  when the server echoes nothing, or left to the echo. \<open>pending_first\<close>: \<open>/me\<close> sends before it
  shows in the second case too.
\<close>

definition send_and_show ::
    "bool \<Rightarrow> (client \<Rightarrow> client) \<Rightarrow> (client \<Rightarrow> client) \<Rightarrow> ienv \<Rightarrow> nat \<Rightarrow> client \<Rightarrow> client" where
  "send_and_show send_first send show_it e i c =
     (if has_echo c \<and> has_labels c then mark_pending_echo e i (show_it (send c))
      else if \<not> has_echo c then (if send_first then show_it (send c) else send (show_it c))
      else send c)"

definition show_own :: "string \<Rightarrow> string \<Rightarrow> string \<Rightarrow> client \<Rightarrow> client" where
  "show_own handler chan text c = on_st (fn handler [chan, serv_nick (cl_serv c), text]) c"

text \<open>The message is saved under the label of its echo, until the echo tells its id.\<close>

definition pending_msgid :: "string option \<Rightarrow> string" where
  "pending_msgid l = ''pending:'' @ (case l of None \<Rightarrow> ''(null)'' | Some l \<Rightarrow> l)"

definition set_pending_msgid :: "nat \<Rightarrow> client \<Rightarrow> client" where
  "set_pending_msgid i c =
     (if has_echo c \<and> has_labels c
      then on_ui i (\<lambda>u. u\<lparr>current_msgid := Some (pending_msgid (last_sent_label (pr_sq (cl_st c))))\<rparr>) c else c)"

definition say_piece :: "ienv \<Rightarrow> nat \<Rightarrow> string \<Rightarrow> client \<Rightarrow> client" where
  "say_piece e i text c =
     (let chan = channel (cl_sess c i)
      in send_and_show False (\<lambda>c. set_pending_msgid i (p_message e chan text c)) (show_own ''inbound_chanmsg'' chan text) e i c)"

definition act_piece :: "ienv \<Rightarrow> nat \<Rightarrow> string \<Rightarrow> client \<Rightarrow> client" where
  "act_piece e i text c =
     (let chan = channel (cl_sess c i)
      in send_and_show True (\<lambda>c. set_pending_msgid i (p_action e chan text c)) (show_own ''inbound_action'' chan text) e i c)"

text \<open>\<open>sess->me->hostname\<close>\<close>

definition my_host :: "client \<Rightarrow> nat \<Rightarrow> string option" where
  "my_host c i =
     (case me (cl_sess c i) of
        None \<Rightarrow> None
      | Some a \<Rightarrow> u_hostname (user_at (w_mem (pr_w (cl_st c))) a))"

definition pieces :: "client \<Rightarrow> nat \<Rightarrow> uint \<Rightarrow> string \<Rightarrow> string list option" where
  "pieces c i cmd_length text =
     split_loop (split_up_text (serv_nick (cl_serv c)) (channel (cl_sess c i)) (my_host c i) cmd_length) text"

definition send_pieces ::
    "(string \<Rightarrow> client \<Rightarrow> client) \<Rightarrow> nat \<Rightarrow> uint \<Rightarrow> string \<Rightarrow> client \<Rightarrow> client option" where
  "send_pieces send i cmd_length text c =
     map_option (\<lambda>ps. foldl (\<lambda>c p. send p c) c ps) (pieces c i cmd_length text)"

definition react_with_text :: "ienv \<Rightarrow> nat \<Rightarrow> string \<Rightarrow> string \<Rightarrow> client \<Rightarrow> client" where
  "react_with_text e i target text c =
     (let chan = channel (cl_sess c i);
          (sq, _) = tcp_sendf_with_raw_tags (env_now (ie_env e)) ''TAGMSG'' (Some chan)
            (Some (''+draft/react='' @ escape_tag_value text @ '';+draft/reply='' @ target))
            (''TAGMSG '' @ chan @ crlf) (pr_sq (cl_st c))
      in on_st (fn ''fe_reply_state_changed'' [show_nat i])
           (on_ui i (\<lambda>u. u\<lparr>react_target_msgid := None\<rparr>) (on_st (\<lambda>st. st\<lparr>pr_sq := sq\<rparr>) c)))"

text \<open>The codes of a typed text, if they are wanted.\<close>

definition typed :: "ienv \<Rightarrow> bool \<Rightarrow> string \<Rightarrow> string" where
  "typed e check_spch text =
     (if check_spch \<and> perc_color e then check_special_chars (ie_utf8 e) (perc_ascii e) text else text)"

definition say_to :: "ienv \<Rightarrow> nat \<Rightarrow> string \<Rightarrow> client \<Rightarrow> client option" where
  "say_to e i text c =
     (let s = cl_sess c i;
          chat = (if sess_type s = SESS_DIALOG then dcc_write_chat e (channel s) text else None)
      in case chat of
           Some addr \<Rightarrow>
             Some (on_st (on_world (set_topic i addr addr)) (show_own ''inbound_chanmsg'' (channel s) text c))
         | None \<Rightarrow>
             if connected c then send_pieces (say_piece e i) i 13 text c else Some (notc_msg i c))"

definition handle_say :: "ienv \<Rightarrow> nat \<Rightarrow> string \<Rightarrow> bool \<Rightarrow> client \<Rightarrow> client option" where
  "handle_say e i text check_spch c =
     (let s = cl_sess c i in
      if channel s = ''(lastlog)'' then Some (on_st (fn ''lastlog'' [text]) c)
      else
        (case (if connected c \<and> has_tags c \<and> channel s \<noteq> [] then react_target_msgid (cl_ui c i) else None) of
           Some target \<Rightarrow> Some (react_with_text e i target text c)
         | None \<Rightarrow>
             let newcmdlen = max (length text + NICKLEN + 1) 4096; text = typed e check_spch text in
             (case process_data_init text True False of
                None \<Rightarrow> None
              | Some (ws, eols) \<Rightarrow>
                  if plugin_command e i (slot ws) (slot eols) then Some c
                  else if channel s = [] \<or> sess_type s = SESS_SERVER \<or>
                          sess_type s = SESS_NOTICES \<or> sess_type s = SESS_SNOTICES then Some (notj_msg i c)
                  else
                    (case (if completion_auto e
                           then Some (perform_nick_completion (completion_suffix e) (w_mem (pr_w (cl_st c))) (usertree s) text)
                           else safe_strcpy text newcmdlen) of
                       None \<Rightarrow> None
                     | Some text \<Rightarrow> say_to e i text c))))"

subsection \<open>Typing notifications\<close>

definition typing_tag :: "string \<Rightarrow> nat \<Rightarrow> client \<Rightarrow> client" where
  "typing_tag what i c = send_raw (''@+typing='' @ what @ '' TAGMSG '' @ channel (cl_sess c i)) c"

definition typing_send_active :: "ienv \<Rightarrow> nat \<Rightarrow> client \<Rightarrow> client" where
  "typing_send_active e i c =
     on_ui i (\<lambda>u. u\<lparr>typing_last_sent := mono_now e, typing_send_timer := True\<rparr>) (typing_tag ''active'' i c)"

definition typing_send_timer_cb :: "ienv \<Rightarrow> nat \<Rightarrow> client \<Rightarrow> client" where
  "typing_send_timer_cb e i c =
     (if typing_last_keystroke (cl_ui c i) > typing_last_sent (cl_ui c i) then typing_send_active e i c
      else on_ui i (\<lambda>u. u\<lparr>typing_last_sent := 0, typing_send_timer := False\<rparr>) (typing_tag ''paused'' i c))"

definition typing_indicator_cancel :: "nat \<Rightarrow> client \<Rightarrow> client" where
  "typing_indicator_cancel i c =
     on_ui i (\<lambda>u. u\<lparr>typing_last_sent := 0, typing_send_timer := False\<rparr>)
       (if typing_last_sent (cl_ui c i) \<noteq> 0 \<and> connected c \<and> has_tags c \<and> channel (cl_sess c i) \<noteq> []
        then typing_tag ''done'' i c else c)"

definition typing_indicator_keystroke :: "ienv \<Rightarrow> nat \<Rightarrow> client \<Rightarrow> client" where
  "typing_indicator_keystroke e i c =
     (let s = cl_sess c i in
      if \<not> typing_send e \<or> \<not> connected c \<or> \<not> has_tags c \<or> sess_type s \<notin> {SESS_CHANNEL, SESS_DIALOG} \<or> channel s = []
      then c
      else if input_box e = [] then typing_indicator_cancel i c
      else
        let c = on_ui i (\<lambda>u. u\<lparr>typing_last_keystroke := mono_now e\<rparr>) c; sent = typing_last_sent (cl_ui c i) in
        if sent = 0 \<or> mono_now e - sent \<ge> 6000000 then typing_send_active e i c else c)"

subsection \<open>Several lines at once\<close>

text \<open>
  What the loop over the pieces of the lines does: close the batch and open a new one when the
  next piece would break a limit of the server (0 is none), and send the piece. \<open>tb\<close> and \<open>n\<close>
  are \<open>total_bytes\<close> and \<open>total_lines\<close>.
\<close>

datatype batch_op = Reopen | Piece string

fun batch_plan :: "int \<Rightarrow> int \<Rightarrow> int \<Rightarrow> int \<Rightarrow> string list \<Rightarrow> batch_op list" where
  "batch_plan max_bytes max_lines tb n [] = []"
| "batch_plan max_bytes max_lines tb n (p # ps) =
     (let len = int (length p) in
      if max_bytes > 0 \<and> tb + len > max_bytes \<or> max_lines > 0 \<and> n + 1 > max_lines
      then Reopen # Piece p # batch_plan max_bytes max_lines len 1 ps
      else Piece p # batch_plan max_bytes max_lines (tb + len) (n + 1) ps)"

definition open_batch :: "ienv \<Rightarrow> nat \<Rightarrow> client \<Rightarrow> client \<times> string" where
  "open_batch e i c =
     (let (sq, tag) = tcp_batch_open_multiline (env_now (ie_env e)) (channel (cl_sess c i)) (pr_sq (cl_st c))
      in (on_st (\<lambda>st. st\<lparr>pr_sq := sq\<rparr>) c, tag))"

definition close_batch :: "ienv \<Rightarrow> string \<Rightarrow> client \<Rightarrow> client" where
  "close_batch e tag = on_st (\<lambda>st. st\<lparr>pr_sq := tcp_batch_close (env_now (ie_env e)) tag (pr_sq st)\<rparr>)"

definition batch_step :: "ienv \<Rightarrow> nat \<Rightarrow> client \<times> string \<Rightarrow> batch_op \<Rightarrow> client \<times> string" where
  "batch_step e i st b =
     (let (c, tag) = st; chan = channel (cl_sess c i) in
      case b of
        Reopen \<Rightarrow> open_batch e i (close_batch e tag c)
      | Piece text \<Rightarrow>
          let c = on_st (\<lambda>st. st\<lparr>pr_sq := tcp_batch_privmsg (env_now (ie_env e)) tag chan text (pr_sq st)\<rparr>) c
          in (if has_echo c then c else show_own ''inbound_chanmsg'' chan text c, tag))"

definition show_multiline :: "ienv \<Rightarrow> nat \<Rightarrow> string list \<Rightarrow> client \<Rightarrow> client" where
  "show_multiline e i lines c =
     mark_pending_echo e i
       (on_st (fn ''fe_end_multiline_group'' [])
         (show_own ''inbound_chanmsg'' (channel (cl_sess c i)) (join_with (CHR 0x0A) lines)
           (on_st (fn ''fe_begin_multiline_group'' [])
             (on_ui i (\<lambda>u. u\<lparr>current_msgid := map_option (\<lambda>l. pending_msgid (Some l)) (last_sent_label (pr_sq (cl_st c)))\<rparr>) c))))"

definition handle_multiline_batch :: "ienv \<Rightarrow> nat \<Rightarrow> string list \<Rightarrow> client \<Rightarrow> client option" where
  "handle_multiline_batch e i lines c =
     (let s = cl_sess c i; serv = cl_serv c in
      if \<not> connected c \<or> channel s = [] then Some c
      else
        (case those (map (pieces c i 13) lines) of
           None \<Rightarrow> None
         | Some pss \<Rightarrow>
             let (c, tag) = open_batch e i c;
                 c = (if has_echo c \<and> has_labels c then show_multiline e i lines c else c);
                 (c, tag) = foldl (batch_step e i) (c, tag)
                   (batch_plan (multiline_max_bytes serv) (multiline_max_lines serv) 0 0 (concat pss))
             in Some (close_batch e tag c)))"

end
