(* ===== verification/SayProofs.thy ===== *)
theory SayProofs
  imports Say
begin

text \<open>
  What \<open>InputText\<close> and \<open>Say\<close> do to a long message: nothing of it is lost, every piece fits into
  the line the server relays, and the batches of a multiline message stay within the limits of
  the server.
\<close>

subsection \<open>The pieces of a message\<close>

text \<open>
  The contract of a cutter, as the loop of its callers needs it: a piece is a prefix of the
  text, it is not empty, and it has at most \<open>limit\<close> bytes; what is not cut is short enough.
\<close>

locale cutter =
  fixes split_up :: "string \<Rightarrow> string option" and limit :: nat
  assumes cut_prefix: "split_up s = Some p \<Longrightarrow> \<exists>t. s = p @ t"
    and cut_nonempty: "split_up s = Some p \<Longrightarrow> p \<noteq> []"
    and cut_fits: "split_up s = Some p \<Longrightarrow> length p \<le> limit"
    and uncut_fits: "split_up s = None \<Longrightarrow> length s \<le> limit"
begin

lemma loop_complete:
  "\<exists>ps. split_loop split_up s = Some ps \<and> concat ps = s \<and> (\<forall>p \<in> set ps. length p \<le> limit) \<and> (\<forall>p \<in> set (butlast ps). p \<noteq> []) \<and> ps \<noteq> []"
proof (induction "length s" arbitrary: s rule: less_induct)
  case less
  show ?case
  proof (cases "split_up s")
    case None
    then show ?thesis using uncut_fits [OF None] by (subst split_loop.simps) simp
  next
    case (Some p)
    obtain t where t: "s = p @ t" using cut_prefix [OF Some] ..
    have "p \<noteq> []" using cut_nonempty [OF Some] .
    then obtain ps where ps: "split_loop split_up t = Some ps" "concat ps = t" "\<forall>q \<in> set ps. length q \<le> limit"
        "\<forall>q \<in> set (butlast ps). q \<noteq> []" "ps \<noteq> []"
      using less [of t] t by auto
    then show ?thesis using Some t \<open>p \<noteq> []\<close> cut_fits [OF Some] by (subst split_loop.simps) (simp add: ps)
  qed
qed

end

definition cut_to :: "nat \<Rightarrow> string \<Rightarrow> string option" where
  "cut_to max_len s = (if length s > max_len then Some (take (cut_point max_len s) s) else None)"

lemma split_up_text_cut_to:
  "split_up_text nick chan host cl = cut_to (unat (split_max nick chan host cl))"
  by (intro ext) (simp add: split_up_text_def cut_to_def Let_def)

lemma g_utf8_skip_le: "g_utf8_skip c \<le> 6"
  by (simp add: g_utf8_skip_def Let_def)

lemma cut_to_piece:
  assumes "7 \<le> m" "cut_to m s = Some p"
  shows "s = p @ drop (cut_point m s) s" "p \<noteq> []" "length p < m"
proof -
  have c: "0 < cut_point m s" "cut_point m s < m"
    using cut_point_bounds [of s m] g_utf8_skip_le [of "cur s"] assms(1) by auto
  have p: "p = take (cut_point m s) s" "length s > m" using assms(2) by (auto simp: cut_to_def split: if_splits)
  show "s = p @ drop (cut_point m s) s" by (simp add: p)
  show "p \<noteq> []" using p c by auto
  show "length p < m" using p c by simp
qed

lemma cut_to_cutter: "7 \<le> m \<Longrightarrow> cutter (cut_to m) m"
proof (rule cutter.intro, goal_cases)
  case (1 s p)
  then show ?case using cut_to_piece(1) by blast
next
  case (2 s p)
  then show ?case using cut_to_piece(2) by blast
next
  case (3 s p)
  then show ?case using cut_to_piece(3) by (meson less_imp_le)
next
  case (4 s)
  then show ?case by (simp add: cut_to_def split: if_splits)
qed

text \<open>Every room of seven bytes or more is a \<open>cutter\<close>.\<close>

interpretation cut_at: cutter "cut_to (max 7 m)" "max 7 m" for m
  by (rule cut_to_cutter) simp

lemma split_max_exact:
  assumes "length nick + length chan + length h + 13 + 3 \<le> 512"
  shows "unat (split_max nick chan (Some h) 13) = 496 - (length nick + length chan + length h)"
proof -
  have "split_max nick chan (Some h) 13 = of_nat (496 - (length nick + length chan + length h))"
    using assms by (simp add: split_max_def of_nat_diff)
  then show ?thesis using assms by (simp only: unat_of_nat) (simp add: take_bit_nat_eq_self)
qed

text \<open>The line the server relays to the others in the channel.\<close>

definition relayed_line :: "string \<Rightarrow> string \<Rightarrow> string \<Rightarrow> string \<Rightarrow> string" where
  "relayed_line nick h chan text =
     '':'' @ nick @ ''!'' @ h @ '' PRIVMSG '' @ chan @ '' :'' @ text @ [CHR 0x0D, CHR 0x0A]"

text \<open>C22: The loop of \<open>handle_say\<close> over the pieces of a message ends, for a nick, a channel and a
  \<open>user@host\<close> that leave seven bytes or more: the pieces are the message, in order and
  unchanged, none but the last is empty, and each fits into the 512 bytes of the line the
  server relays to the others.
\<close>

theorem say_split_complete:
  assumes "length nick + length chan + length h + 23 \<le> 512"
  shows "\<exists>ps. split_loop (split_up_text nick chan (Some h) 13) msg = Some ps \<and> concat ps = msg \<and>
    (\<forall>p \<in> set (butlast ps). p \<noteq> []) \<and> (\<forall>p \<in> set ps. length (relayed_line nick h chan p) \<le> 512)"
proof -
  define m where "m = 496 - (length nick + length chan + length h)"
  have m: "7 \<le> m" "split_up_text nick chan (Some h) 13 = cut_to m"
    using assms split_max_exact [of nick chan h] by (simp_all add: m_def split_up_text_cut_to)
  from cut_at.loop_complete [of m msg] m(1)
  obtain ps where "split_loop (cut_to m) msg = Some ps" "concat ps = msg" "\<forall>p \<in> set ps. length p \<le> m"
      "\<forall>p \<in> set (butlast ps). p \<noteq> []"
    by (auto simp: max_absorb2)
  then show ?thesis using assms by (auto simp: m(2) relayed_line_def m_def)
qed

theorem say_split_complete_witness:
  "\<exists>ps. split_loop (split_up_text ''me'' ''#c'' (Some ''u@h'') 13) (replicate 1000 (CHR ''x'')) = Some ps \<and>
     concat ps = replicate 1000 (CHR ''x'') \<and> (\<forall>p \<in> set (butlast ps). p \<noteq> []) \<and>
     (\<forall>p \<in> set ps. length (relayed_line ''me'' ''u@h'' ''#c'' p) \<le> 512)"
  by (rule say_split_complete) simp

text \<open>Where the room is too small for the first character, the loop never ends.\<close>

lemma split_loop_Some: "split_loop split_up s = Some ps \<Longrightarrow> split_up s \<noteq> Some []"
proof (erule split_loop.raw_induct [where P = "\<lambda>f s y. f s \<noteq> Some []", rotated])
  fix loop f t qs
  assume IH: "\<And>f s y. loop f s = Some y \<Longrightarrow> f s \<noteq> Some []"
    and eq: "(case f t of None \<Rightarrow> Some [t]
      | Some piece \<Rightarrow> Option.bind (loop f (drop (length piece) t)) (\<lambda>ps. Some (piece # ps))) = Some qs"
  show "f t \<noteq> Some []" using IH [of f t] eq by (auto split: option.splits bind_splits)
qed

lemma cut_to_stuck: "0 < m \<Longrightarrow> m \<le> g_utf8_skip (cur s) \<Longrightarrow> m < length s \<Longrightarrow> cut_to m s = Some []"
  by (simp add: cut_to_def cut_point_def utf8_cut.simps [of m s] last_space_def Let_def)

lemma say_split_endless:
  assumes "0 < m" "m \<le> g_utf8_skip (cur msg)" "m < length msg"
    "length nick + length chan + length h = 496 - m" "m \<le> 496"
  shows "split_loop (split_up_text nick chan (Some h) 13) msg = None"
proof -
  have "split_up_text nick chan (Some h) 13 = cut_to m"
    using assms split_max_exact [of nick chan h] by (simp add: split_up_text_cut_to)
  then show ?thesis using split_loop_Some [of "cut_to m" msg] cut_to_stuck [of m msg] assms by fastforce
qed

text \<open>
  A word is kept whole when it can be: in a text of ASCII characters a piece ends with the last
  space that stands less than 20 bytes before the limit.
\<close>

lemma utf8_cut_ascii: "ascii_str s \<Longrightarrow> 0 < n \<Longrightarrow> n \<le> length s \<Longrightarrow> utf8_cut n s = n - 1"
proof (induction n s rule: utf8_cut.induct)
  case (1 n s)
  then obtain c t where s: "s = c # t" by (cases s) auto
  have k: "g_utf8_skip c = 1" using 1(2) by (simp add: s g_utf8_skip_ascii)
  show ?case
  proof (cases "n = 1")
    case True
    then show ?thesis by (subst utf8_cut.simps) (simp add: s k)
  next
    case False
    have "utf8_cut (n - 1) t = n - 2"
      using 1(1) [OF refl] 1(2-4) False by (simp add: s k)
    then show ?thesis using False 1(3) by (subst utf8_cut.simps) (simp add: s k)
  qed
qed

lemma utf8_offset_ascii: "ascii_str s \<Longrightarrow> n \<le> length s \<Longrightarrow> utf8_offset s n = n"
proof (induction s n rule: utf8_offset.induct)
  case (1 s n)
  show ?case
  proof (cases "n = 0")
    case False
    then obtain c t where s: "s = c # t" using 1(3) by (cases s) auto
    then show ?thesis
      using 1 False g_utf8_skip_ascii [of c] by (subst utf8_offset.simps) (auto simp: s)
  qed (subst utf8_offset.simps, simp)
qed

lemma last_space_None: "last_space n s = None \<Longrightarrow> q < n \<Longrightarrow> q < length s \<Longrightarrow> s ! q \<noteq> CHR '' ''"
  unfolding last_space_def
  by (cases "filter (\<lambda>i. s ! i = CHR '' '') [0..<min n (length s)]") (auto simp: filter_empty_conv)

lemma sorted_le_last: "sorted xs \<Longrightarrow> x \<in> set xs \<Longrightarrow> x \<le> last xs"
  for xs :: "nat list"
  by (induction xs) (auto split: if_splits)

lemma last_space_Some:
  "last_space n s = Some p \<Longrightarrow> p < n \<and> p < length s \<and> s ! p = CHR '' '' \<and> (\<forall>q. p < q \<and> q < n \<and> q < length s \<longrightarrow> s ! q \<noteq> CHR '' '')"
proof -
  define P where "P = (\<lambda>i. s ! i = CHR '' '')"
  define ps where "ps = filter P [0..<min n (length s)]"
  assume a: "last_space n s = Some p"
  then have ne: "ps \<noteq> []" and p: "p = last ps"
    unfolding last_space_def ps_def [symmetric] P_def [symmetric] by (cases ps; simp)+
  then have "p \<in> set ps" by simp
  moreover have "q \<le> p" if "q \<in> set ps" for q
    using sorted_le_last [of ps q] that by (simp add: p ps_def sorted_wrt_filter)
  moreover have "q \<in> set ps" if "p < q \<and> q < n \<and> q < length s" "s ! q = CHR '' ''" for q
    using that by (simp add: ps_def P_def)
  ultimately show ?thesis by (auto simp: ps_def P_def) (meson linorder_not_less)
qed

text \<open>When the text is ASCII and has a space in the last 19 bytes before the cut, the piece
  ends with the last such space: no word is broken.
\<close>

theorem say_split_keeps_words:
  assumes "ascii_str msg" "0 < m" "m < length msg" "q < m - 1" "m - 1 - q < 20" "msg ! q = CHR '' ''"
    "split_max nick chan host cl = of_nat m" "m < 2 ^ 32"
  shows "\<exists>p. split_up_text nick chan host cl msg = Some (take (p + 1) msg) \<and> q \<le> p \<and> p < m \<and> msg ! p = CHR '' '' \<and>
    (\<forall>r. p < r \<and> r < m - 1 \<longrightarrow> msg ! r \<noteq> CHR '' '')"
proof -
  have "unat (split_max nick chan host cl) = m"
    using assms(7,8) by (simp add: unat_of_nat take_bit_nat_eq_self)
  then have cut: "split_up_text nick chan host cl msg = Some (take (cut_point m msg) msg)"
    using assms(3) by (simp add: split_up_text_cut_to cut_to_def)
  have n: "utf8_cut m msg = m - 1" using utf8_cut_ascii assms(1-3) by simp
  obtain p where p: "last_space (m - 1) msg = Some p"
    using assms(3,4,6) last_space_None [of "m - 1" msg] by (cases "last_space (m - 1) msg") auto
  note P = last_space_Some [OF p]
  have "q \<le> p" using P assms(3,4,6) by (metis diff_less leI less_imp_diff_less less_trans)
  moreover have "utf8_offset msg p = p" using utf8_offset_ascii [OF assms(1)] P by simp
  ultimately have "cut_point m msg = p + 1"
    using P assms(5) by (auto simp: cut_point_def n p [unfolded One_nat_def] Let_def)
  then show ?thesis using cut P \<open>q \<le> p\<close> assms(3) by (intro exI [of _ p]) auto
qed

theorem say_split_keeps_words_witness:
  "\<exists>p. split_up_text ''me'' ''#c'' None 400 ''one two three four five six seven eight nine'' =
       Some (take (p + 1) ''one two three four five six seven eight nine'') \<and> 27 \<le> p \<and> p < 31 \<and>
     ''one two three four five six seven eight nine'' ! p = CHR '' '' \<and>
     (\<forall>r. p < r \<and> r < 31 - 1 \<longrightarrow> ''one two three four five six seven eight nine'' ! r \<noteq> CHR '' '')"
  by (rule say_split_keeps_words [where q = 27 and m = 31])
    (simp_all add: ascii_def uchar_def split_max_def)

text \<open>
  In any other text the offset of the space counts characters where the cut counts bytes: the
  first \<open>e\<close> with an acute accent of the second word is cut in two.
\<close>

lemma split_cuts_a_character:
  "cut_to 33 (concat (replicate 14 [CHR 0xC3, CHR 0xA9]) @ '' abcdefghij'') =
     Some (concat (replicate 7 [CHR 0xC3, CHR 0xA9]) @ [CHR 0xC3])"
  by code_simp

subsection \<open>The batches of a multiline message\<close>

text \<open>What the operations of \<open>batch_plan\<close> put into each batch.\<close>

fun batches :: "string list \<Rightarrow> batch_op list \<Rightarrow> string list list" where
  "batches b [] = [b]"
| "batches b (Reopen # bs) = b # batches [] bs"
| "batches b (Piece p # bs) = batches (b @ [p]) bs"

definition batch_bytes :: "string list \<Rightarrow> int" where
  "batch_bytes b = (\<Sum>p \<leftarrow> b. int (length p))"

definition batch_fits :: "int \<Rightarrow> int \<Rightarrow> string list \<Rightarrow> bool" where
  "batch_fits mb ml b \<longleftrightarrow> (ml > 0 \<longrightarrow> int (length b) \<le> ml) \<and> (mb > 0 \<longrightarrow> batch_bytes b \<le> mb \<or> length b = 1)"

lemma batch_bytes_snoc [simp]: "batch_bytes (b @ [p]) = batch_bytes b + int (length p)"
  by (simp add: batch_bytes_def)

lemma batch_bytes_Nil [simp]: "batch_bytes [] = 0"
  by (simp add: batch_bytes_def)

lemma batches_plan:
  "batch_fits mb ml b \<Longrightarrow> tb = batch_bytes b \<Longrightarrow> n = int (length b) \<Longrightarrow>
   concat (batches b (batch_plan mb ml tb n ps)) = b @ ps \<and>
   (\<forall>b' \<in> set (batches b (batch_plan mb ml tb n ps)). batch_fits mb ml b')"
proof (induction ps arbitrary: b tb n)
  case (Cons p ps)
  show ?case
  proof (cases "mb > 0 \<and> tb + int (length p) > mb \<or> ml > 0 \<and> n + 1 > ml")
    case True
    have "batch_fits mb ml [p]" by (auto simp: batch_fits_def)
    with Cons.IH [of "[p]"] Cons.prems True show ?thesis
      by (simp add: batch_bytes_def Let_def)
  next
    case False
    then have "batch_fits mb ml (b @ [p])" using Cons.prems by (auto simp: batch_fits_def)
    with Cons.IH [of "b @ [p]" "tb + int (length p)" "n + 1"] Cons.prems(2,3)
    have "concat (batches (b @ [p]) (batch_plan mb ml (tb + int (length p)) (n + 1) ps)) = b @ p # ps \<and>
        (\<forall>b' \<in> set (batches (b @ [p]) (batch_plan mb ml (tb + int (length p)) (n + 1) ps)). batch_fits mb ml b')"
      by simp
    then show ?thesis using False by (simp only: batch_plan.simps Let_def if_False batches.simps) blast
  qed
qed simp

text \<open>The batches \<open>handle_multiline_batch\<close> makes of its pieces hold them all, in order, and
  each has at most \<open>max-lines\<close> lines and \<open>max-bytes\<close> bytes, but for a batch of the one piece
  that is longer than that.
\<close>

theorem multiline_batch_limits:
  "concat (batches [] (batch_plan mb ml 0 0 ps)) = ps \<and>
   (\<forall>b. b \<in> set (batches [] (batch_plan mb ml 0 0 ps)) \<longrightarrow>
      (ml > 0 \<longrightarrow> int (length b) \<le> ml) \<and> (mb > 0 \<longrightarrow> batch_bytes b \<le> mb \<or> length b = 1))"
  using batches_plan [of mb ml "[]" 0 0 ps] by (auto simp: batch_fits_def)

theorem multiline_batch_limits_witness:
  "batches [] (batch_plan 10 2 0 0 [''abc'', ''def'', ''ghi'', ''a long line'']) =
     [[''abc'', ''def''], [''ghi''], [''a long line'']] \<and>
   concat (batches [] (batch_plan 10 2 0 0 [''abc'', ''def'', ''ghi'', ''a long line''])) =
     [''abc'', ''def'', ''ghi'', ''a long line'']"
  using multiline_batch_limits [of 10 2 "[''abc'', ''def'', ''ghi'', ''a long line'']"]
  by simp

end
