(* ===== verification/Commands.thy ===== *)
theory Commands
  imports Say Isupport
begin

text \<open>
  The commands of \<open>src/common/outbound.c\<close> that speak to the server or change the state of a
  channel, a window or the ignore list. A command gets the words of its line; it answers FALSE
  for bad arguments, TRUE, or 2. \<open>None\<close> is undefined behaviour.
\<close>

datatype cmd_ret = Cmd_False | Cmd_True | Cmd_2

type_synonym cmd_result = "(client \<times> cmd_ret) option"

type_synonym command = "ienv \<Rightarrow> nat \<Rightarrow> words \<Rightarrow> words \<Rightarrow> client \<Rightarrow> cmd_result"

definition okc :: "client \<Rightarrow> cmd_result" where
  "okc c = Some (c, Cmd_True)"

definition usage :: "client \<Rightarrow> cmd_result" where
  "usage c = Some (c, Cmd_False)"

definition ret_true :: "client option \<Rightarrow> cmd_result" where
  "ret_true = map_option (\<lambda>c. (c, Cmd_True))"

text \<open>The words from the second on, up to the first empty one.\<close>

definition word_args :: "words \<Rightarrow> string list" where
  "word_args word = takeWhile (\<lambda>w. w \<noteq> []) (map word [2..<PDIWORDS])"

definition send_tracked :: "ienv \<Rightarrow> string \<Rightarrow> string option \<Rightarrow> string \<Rightarrow> client \<Rightarrow> client" where
  "send_tracked e command target line c =
     on_st (\<lambda>st. st\<lparr>pr_sq := fst (tcp_sendf_labeled_tracked (env_now (ie_env e)) command target (line @ crlf) (pr_sq st))\<rparr>) c"

subsection \<open>Away\<close>

definition cmd_away :: command where
  "cmd_away e i word word_eol c =
     (let st = cl_st c; typed_reason = word_eol 2; away = is_away (cl_serv c) in
      if typed_reason = [] \<and> away then
        usage (case last_away_reason c of None \<Rightarrow> c | Some r \<Rightarrow> print_text i (''Already marked away: '' @ r) c)
      else
        let reason = (if typed_reason \<noteq> [] then Some typed_reason
                      else if reconnect_away st then last_away_reason c else Some (away_reason e));
            c = (send_raw (irc_set_away reason) c)\<lparr>last_away_reason := reason\<rparr>
        in okc (if connected c then c else on_st (reconnect_away_update (\<lambda>_. True)) c))"

definition cmd_back :: command where
  "cmd_back e i word word_eol c =
     (let c = (if is_away (cl_serv c) then send_raw ''AWAY'' c else print_text i ''Already marked back.'' c)
      in okc (c\<lparr>last_away_reason := None\<rparr>))"

subsection \<open>Masks\<close>

definition USERNAMELEN :: nat where "USERNAMELEN = 10"

text \<open>The user part of a ban mask, from the ident in front of the \<open>@\<close>.\<close>

definition mask_username :: "string \<Rightarrow> string option" where
  "mask_username ident =
     (if cur ident \<in> set ''~+=^-'' then map_option (Cons (CHR ''*'')) (safe_strcpy (tl ident) 63)
      else if length ident < USERNAMELEN then map_option (Cons (CHR ''*'')) (safe_strcpy ident 63)
      else safe_strcpy ident 64)"

text \<open>\<open>dotted\<close>: what stands before the last dot.\<close>

definition before_last_dot :: "string \<Rightarrow> string" where
  "before_last_dot s = rev (tl (dropWhile (\<lambda>c. c \<noteq> CHR ''.'') (rev s)))"

definition host_mask :: "bool \<Rightarrow> int \<Rightarrow> string \<Rightarrow> string \<Rightarrow> string \<Rightarrow> string" where
  "host_mask ip ty uname fullhost domain =
     (if ty = 0 then ''*!*@'' @ (if ip then before_last_dot fullhost @ ''.*'' else CHR ''*'' # domain)
      else if ty = 1 then ''*!*@'' @ fullhost
      else if ty = 2
      then ''*!'' @ uname @ ''@'' @ (if ip then before_last_dot fullhost @ ''.*'' else CHR ''*'' # domain)
      else ''*!'' @ uname @ ''@'' @ fullhost)"

text \<open>
  The mask for a user whose host is known, \<open>None\<close> when there is none; the text of the mode
  change is cut to 511 bytes. A type that is none of the four leaves it empty.
\<close>

definition user_mask :: "(string \<Rightarrow> bool) \<Rightarrow> int \<Rightarrow> string \<Rightarrow> string option option" where
  "user_mask ip_test ty hst =
     (case strchr hst (CHR ''@'') of
        None \<Rightarrow> Some None
      | Some at \<Rightarrow>
          (case (mask_username (upto_chr hst (CHR ''@'')), safe_strcpy (tl at) 128) of
             (Some uname, Some fullhost) \<Rightarrow>
               let domain = (case strchr fullhost (CHR ''.'') of None \<Rightarrow> fullhost | Some d \<Rightarrow> d) in
               if ip_test fullhost \<and> CHR ''.'' \<notin> set fullhost then Some None
               else Some (Some (host_mask (ip_test fullhost) ty uname fullhost domain))
           | _ \<Rightarrow> None))"

definition create_mask ::
    "ienv \<Rightarrow> nat \<Rightarrow> string \<Rightarrow> string \<Rightarrow> string \<Rightarrow> bool \<Rightarrow> client \<Rightarrow> string option option" where
  "create_mask e i mask_text mode typestr deop c =
     (let w = pr_w (cl_st c);
          user = map_option (user_at (w_mem w)) (find_user w i mask_text)
      in case user of
           Some u \<Rightarrow>
             (case u_hostname u of
                None \<Rightarrow> Some (Some (take 511 (mode @ '' '' @ mask_text)))
              | Some hst \<Rightarrow>
                  let ty = (if typestr \<noteq> [] then atoi typestr else ban_type e) in
                  map_option (map_option
                    (\<lambda>m. if ty \<in> {0, 1, 2, 3}
                         then take 511 (mode @ '' '' @ (if deop then u_nick u else []) @ '' '' @ m) else []))
                    (user_mask (is_ip e) ty hst))
         | None \<Rightarrow> Some (Some (take 511 (mode @ '' '' @ mask_text))))"

definition send_mode :: "string \<Rightarrow> string \<Rightarrow> client \<Rightarrow> client" where
  "send_mode target mode = on_st (on_world (w_emit (Send (irc_mode target mode))))"

definition ban :: "ienv \<Rightarrow> nat \<Rightarrow> string \<Rightarrow> string \<Rightarrow> bool \<Rightarrow> client \<Rightarrow> client option" where
  "ban e i mask_text bantype deop c =
     (case create_mask e i mask_text (if deop then ''-o+b'' else ''+b'') bantype deop c of
        None \<Rightarrow> None
      | Some None \<Rightarrow> Some c
      | Some (Some banmask) \<Rightarrow> Some (send_mode (channel (cl_sess c i)) banmask c))"

definition cmd_ban :: command where
  "cmd_ban e i word word_eol c =
     ret_true (if word 2 \<noteq> [] then ban e i (word 2) (word 3) False c
               else Some (send_mode (channel (cl_sess c i)) ''+b'' c))"

definition cmd_quiet :: command where
  "cmd_quiet e i word word_eol c =
     (if CHR ''q'' \<notin> set (chanmodes (cl_serv c)) then okc (print_text i ''Quiet is not supported by this server.'' c)
      else if word 2 \<noteq> [] then
        (case create_mask e i (word 2) ''+q'' (word 3) False c of
           None \<Rightarrow> None
         | Some None \<Rightarrow> okc c
         | Some (Some quietmask) \<Rightarrow> okc (send_mode (channel (cl_sess c i)) quietmask c))
      else okc (send_mode (channel (cl_sess c i)) ''+q'' c))"

definition send_kick :: "nat \<Rightarrow> string \<Rightarrow> string \<Rightarrow> client \<Rightarrow> client" where
  "send_kick i nick reason c = send_raw (irc_kick (channel (cl_sess c i)) nick reason) c"

definition cmd_kick :: command where
  "cmd_kick e i word word_eol c = (if word 2 \<noteq> [] then okc (send_kick i (word 2) (word_eol 3) c) else usage c)"

definition cmd_kickban :: command where
  "cmd_kickban e i word word_eol c =
     (let nick = word 2; reason = word_eol 3; w = pr_w (cl_st c);
          deop = (case find_user w i nick of None \<Rightarrow> False | Some a \<Rightarrow> u_op (user_at (w_mem w) a));
          is_type = (length reason = 1 \<and> is_digit (cur reason))
      in if nick = [] then usage c
         else ret_true
           (map_option (send_kick i nick (if is_type then [] else reason))
             (ban e i nick (if is_type then reason else []) deop c)))"

subsection \<open>Modes of many users\<close>

definition send_modes :: "nat \<Rightarrow> string list \<Rightarrow> char \<Rightarrow> char \<Rightarrow> client \<Rightarrow> client" where
  "send_modes i nicks sign mode c =
     (let chan = channel (cl_sess c i);
          (serv, lines) = send_channel_modes (cl_serv c) chan nicks sign mode 0;
          c = on_st (on_world (\<lambda>w. w\<lparr>w_serv := serv\<rparr>)) c
      in foldl (\<lambda>c l. send_mode chan l c) c lines)"

definition cmd_modes :: "char \<Rightarrow> char \<Rightarrow> command" where
  "cmd_modes sign mode e i word word_eol c =
     (if word_args word = [] then usage c else okc (send_modes i (word_args word) sign mode c))"

definition cmd_op :: command where "cmd_op = cmd_modes (CHR ''+'') (CHR ''o'')"
definition cmd_deop :: command where "cmd_deop = cmd_modes (CHR ''-'') (CHR ''o'')"
definition cmd_hop :: command where "cmd_hop = cmd_modes (CHR ''+'') (CHR ''h'')"
definition cmd_dehop :: command where "cmd_dehop = cmd_modes (CHR ''-'') (CHR ''h'')"
definition cmd_voice :: command where "cmd_voice = cmd_modes (CHR ''+'') (CHR ''v'')"
definition cmd_devoice :: command where "cmd_devoice = cmd_modes (CHR ''-'') (CHR ''v'')"
definition cmd_unban :: command where "cmd_unban = cmd_modes (CHR ''-'') (CHR ''b'')"

definition cmd_unquiet :: command where
  "cmd_unquiet e i word word_eol c =
     (if CHR ''q'' \<notin> set (chanmodes (cl_serv c)) then okc (print_text i ''Quiet is not supported by this server.'' c)
      else cmd_modes (CHR ''-'') (CHR ''q'') e i word word_eol c)"

text \<open>
  The mass commands collect nicks in an array with \<open>room\<close> slots, as many as the counters of the
  channel say; a write behind it is \<open>None\<close>.
\<close>

definition users_of :: "client \<Rightarrow> nat \<Rightarrow> user list" where
  "users_of c i =
     map (user_at (w_mem (pr_w (cl_st c)))) (rev (tree_foreach (\<lambda>a l. (a # l, True)) (usertree (cl_sess c i)) []))"

definition mass_modes :: "(user \<Rightarrow> bool) \<Rightarrow> (session \<Rightarrow> int) \<Rightarrow> char \<Rightarrow> char \<Rightarrow> command" where
  "mass_modes sel room sign mode e i word word_eol c =
     (let nicks = map u_nick (filter sel (users_of c i)) in
      if int (length nicks) > room (cl_sess c i) then None else okc (send_modes i nicks sign mode c))"

definition cmd_mdeop :: command where
  "cmd_mdeop = mass_modes (\<lambda>u. u_op u \<and> \<not> u_me u) ops (CHR ''-'') (CHR ''o'')"

definition cmd_mdehop :: command where
  "cmd_mdehop = mass_modes (\<lambda>u. u_hop u \<and> \<not> u_me u) hops (CHR ''-'') (CHR ''h'')"

definition cmd_mop :: command where
  "cmd_mop = mass_modes (\<lambda>u. \<not> u_op u) (\<lambda>s. total s - ops s) (CHR ''+'') (CHR ''o'')"

definition cmd_mhop :: command where
  "cmd_mhop = mass_modes (\<lambda>u. \<not> u_hop u) (\<lambda>s. total s - hops s) (CHR ''+'') (CHR ''h'')"

definition cmd_mkick :: command where
  "cmd_mkick e i word word_eol c =
     (let kick = (\<lambda>sel c. foldl (\<lambda>c u. send_kick i (u_nick u) (word_eol 2) c) c
                    (filter (\<lambda>u. sel u \<and> \<not> u_me u) (users_of c i)))
      in okc (kick (\<lambda>u. \<not> u_op u) (kick u_op c)))"

definition send_pieces_raw :: "string \<Rightarrow> client \<Rightarrow> client" where
  "send_pieces_raw raw c = foldl (\<lambda>c t. on_st (on_world (w_emit (Send t))) c) c (irc_raw raw)"

text \<open>\<open>wallchop_cb\<close>: a notice for every five operators.\<close>

fun wallchop_groups :: "string list \<Rightarrow> string list list" where
  "wallchop_groups (a # b # c # d # e # ns) = [a, b, c, d, e] # wallchop_groups ns"
| "wallchop_groups [] = []"
| "wallchop_groups ns = [ns]"

definition cmd_wallchop :: command where
  "cmd_wallchop e i word word_eol c =
     (if word_eol 2 = [] then usage c
      else
        let line = (\<lambda>ns. ''NOTICE '' @ join_with (CHR '','') ns @ '' :[@'' @ channel (cl_sess c i) @ ''] '' @ word_eol 2)
        in okc (foldl (\<lambda>c ns. send_pieces_raw (line ns) c) c
                 (wallchop_groups (map u_nick (filter u_op (users_of c i))))))"

subsection \<open>Messages\<close>

text \<open>What is shown of a private message that may hold a password.\<close>

definition mask_password :: "string \<Rightarrow> string \<Rightarrow> string" where
  "mask_password nick msg =
     (if g_ascii_strcasecmp nick ''nickserv'' = 0 then
        if ci_prefix ''identify '' msg then ''identify ****''
        else if ci_prefix ''ghost '' msg then ''ghost ****''
        else msg
      else msg)"

definition show_sent :: "string \<Rightarrow> string \<Rightarrow> string \<Rightarrow> client \<Rightarrow> client" where
  "show_sent event nick text = on_st (ev event [nick, text])"

definition find_target :: "client \<Rightarrow> string \<Rightarrow> nat option" where
  "find_target c nick =
     (case find_dialog (pr_w (cl_st c)) nick of Some j \<Rightarrow> Some j | None \<Rightarrow> find_channel (pr_w (cl_st c)) nick)"

text \<open>One piece, shown as pending in the window of its target or in the one it was typed in.\<close>

definition msg_pending :: "ienv \<Rightarrow> nat \<Rightarrow> string \<Rightarrow> nat option \<Rightarrow> string \<times> string \<Rightarrow> client \<Rightarrow> client" where
  "msg_pending e i nick target p c =
     (let c = p_message e nick (fst p) c in
      case target of
        Some j \<Rightarrow> mark_pending_echo e j (show_own ''inbound_chanmsg'' (channel (cl_sess c j)) (fst p) c)
      | None \<Rightarrow> mark_pending_echo e i (show_sent ''MSGSEND'' nick (snd p) c))"

text \<open>Only the last piece is masked.\<close>

definition shown_pieces :: "string \<Rightarrow> string list \<Rightarrow> (string \<times> string) list" where
  "shown_pieces nick ps = map (\<lambda>p. (p, p)) (butlast ps) @ [(last ps, mask_password nick (last ps))]"

definition send_msg :: "ienv \<Rightarrow> nat \<Rightarrow> string \<Rightarrow> string \<Rightarrow> client \<Rightarrow> client option" where
  "send_msg e i nick msg c =
     map_option
       (\<lambda>ps. if has_echo c \<and> has_labels c
             then foldl (\<lambda>d p. msg_pending e i nick (find_target c nick) p d) c (shown_pieces nick ps)
             else foldl (\<lambda>d p. p_message e nick p d) c ps)
       (pieces c i 13 msg)"

definition show_msg :: "nat \<Rightarrow> string \<Rightarrow> string \<Rightarrow> client \<Rightarrow> client option" where
  "show_msg i nick msg c =
     (if has_echo c then Some c
      else
        (case find_target c nick of
           Some j \<Rightarrow>
             map_option (\<lambda>ps. foldl (\<lambda>d p. show_own ''inbound_chanmsg'' (channel (cl_sess d j)) p d) c ps) (pieces c i 13 msg)
         | None \<Rightarrow> Some (show_sent ''MSGSEND'' nick (mask_password nick msg) c)))"

definition cmd_msg :: command where
  "cmd_msg e i word word_eol c =
     (let nick = word 2; msg = word_eol 3 in
      if nick = [] \<or> msg = [] then usage c
      else
        (case (if nick = ''.'' then Some (lastnick (cl_ui c i)) else safe_strcpy nick NICKLEN) of
           None \<Rightarrow> None
         | Some primed \<Rightarrow>
             let nick = (if nick = ''.'' \<and> primed \<noteq> [] then primed else nick);
                 c = on_ui i (\<lambda>u. u\<lparr>lastnick := primed\<rparr>) c
             in if cur nick = CHR ''='' then
                  (case dcc_write_chat e (tl nick) msg of
                     None \<Rightarrow> okc (on_st (ev ''NODCC'' []) c)
                   | Some addr \<Rightarrow> ret_true (show_msg i (tl nick) msg c))
                else if \<not> connected c then okc (notc_msg i c)
                else ret_true (Option.bind (send_msg e i nick msg c) (show_msg i nick msg))))"

text \<open>A new window is session 0 and moves the others up.\<close>

definition new_window :: "string \<Rightarrow> client \<Rightarrow> client option" where
  "new_window nick c =
     map_option
       (\<lambda>w. c\<lparr>cl_st := (cl_st c)\<lparr>pr_w := w\<rparr>, cl_ui := (\<lambda>j. case j of 0 \<Rightarrow> new_ui | Suc k \<Rightarrow> cl_ui c k)\<rparr>)
       (new_ircwindow nick SESS_DIALOG (pr_w (cl_st c)))"

text \<open>The numbers of the window of the query and of the one the command was typed in.\<close>

definition open_query :: "nat \<Rightarrow> string \<Rightarrow> bool \<Rightarrow> client \<Rightarrow> (client \<times> nat \<times> nat) option" where
  "open_query i nick focus c =
     (case find_dialog (pr_w (cl_st c)) nick of
        None \<Rightarrow> map_option (\<lambda>c. (c, 0, i + 1)) (new_window nick c)
      | Some j \<Rightarrow> Some (if focus then on_st (fn ''fe_ctrl_gui'' [show_nat j]) c else c, j, i))"

definition cmd_query :: command where
  "cmd_query e i word word_eol c =
     (let nofocus = (word 2 = ''-nofocus'');
          nick = (if nofocus then word 3 else word 2); msg = (if nofocus then word_eol 4 else word_eol 3)
      in if nick = [] \<or> is_channel (cl_serv c) nick then usage c
         else
           (case open_query i nick (\<not> nofocus) c of
              None \<Rightarrow> None
            | Some (c, j, i) \<Rightarrow>
                if msg = [] then okc c
                else if \<not> connected c then okc (notc_msg i c)
                else ret_true (map_option
                       (\<lambda>ps. foldl (\<lambda>c p. send_and_show True (p_message e nick p)
                                     (show_own ''inbound_chanmsg'' (channel (cl_sess c j)) p) e j c) c ps)
                       (pieces c i 13 msg))))"

definition cmd_notice :: command where
  "cmd_notice e i word word_eol c =
     (let nick = word 2; msg = word_eol 3;
          p_notice = (\<lambda>p. on_st (\<lambda>st. st\<lparr>pr_sq := fst (irc_notice (env_now (ie_env e)) nick p (pr_sq st))\<rparr>))
      in if nick = [] \<or> msg = [] then usage c
         else ret_true (send_pieces (\<lambda>p. send_and_show True (p_notice p) (show_sent ''NOTICESEND'' nick p) e i) i 12 msg c))"

definition cmd_me :: command where
  "cmd_me e i word word_eol c =
     (let act = word_eol 2; s = cl_sess c i in
      if act = [] then usage c
      else if sess_type s = SESS_SERVER then okc (notj_msg i c)
      else
        (case dcc_write_chat e (channel s) (take 4095 (quote_x01 (''ACTION '' @ act) @ [CHR 0x0D])) of
           Some addr \<Rightarrow> okc (show_own ''inbound_action'' (channel s) act c)
         | None \<Rightarrow>
             if connected c then ret_true (send_pieces (act_piece e i) i 22 act c) else okc (notc_msg i c)))"

definition cmd_say :: command where
  "cmd_say e i word word_eol c = (if word_eol 2 = [] then usage c else ret_true (handle_say e i (word_eol 2) False c))"

text \<open>The first word of a CTCP in upper case; multi-byte characters are stepped over.\<close>

definition ascii_toupper :: "char \<Rightarrow> char" where
  "ascii_toupper ch = (if 97 \<le> uchar ch \<and> uchar ch \<le> 122 then char_of (uchar ch - 32) else ch)"

function upper_word :: "string \<Rightarrow> string option" where
  "upper_word [] = Some []"
| "upper_word (ch # s) =
     (let mbl = g_utf8_skip ch in
      if ch = CHR '' '' then Some (ch # s)
      else if mbl = 1 then map_option (Cons (ascii_toupper ch)) (upper_word s)
      else if length s + 1 < mbl then None
      else map_option (append (take mbl (ch # s))) (upper_word (drop (mbl - 1) s)))"
  by pat_completeness auto
termination by (relation "measure length") auto

definition cmd_ctcp :: command where
  "cmd_ctcp e i word word_eol c =
     (if word 2 = [] \<or> word_eol 3 = [] then usage c
      else
        (case upper_word (word_eol 3) of
           None \<Rightarrow> None
         | Some msg \<Rightarrow>
             let p_ctcp = on_st (\<lambda>st. st\<lparr>pr_sq := fst (irc_ctcp (env_now (ie_env e)) (word 2) msg (pr_sq st))\<rparr>)
             in okc (send_and_show True p_ctcp (show_sent ''CTCPSEND'' (word 2) msg) e i c)))"

definition cmd_nctcp :: command where
  "cmd_nctcp e i word word_eol c =
     (if word_eol 3 = [] then usage c else okc (send_raw (irc_nctcp (word 2) (word_eol 3)) c))"

subsection \<open>Channels\<close>

definition cmd_join :: command where
  "cmd_join e i word word_eol c =
     (let chan = word 2; s = cl_sess c i in
      if chan = [] then usage c
      else
        (case find_channel (pr_w (cl_st c)) chan of
           Some j \<Rightarrow> okc (on_st (fn ''fe_ctrl_gui'' [show_nat j]) c)
         | None \<Rightarrow>
             let c = send_raw (irc_join chan (word 3)) c in
             if channel s = [] \<and> waitchannel s \<noteq> [] then
               ret_true (map_option
                 (\<lambda>wc. on_st (on_world (upd_session i (\<lambda>s. s\<lparr>waitchannel := wc\<rparr>))) c)
                 (safe_strcpy (upto_chr chan (CHR '','')) CHANLEN))
             else okc c))"

definition cmd_part :: command where
  "cmd_part e i word word_eol c =
     (let chan = (if word 2 = [] then channel (cl_sess c i) else word 2);
          reason = (if word_eol 3 = [] then part_reason e else word_eol 3)
      in if chan \<noteq> [] \<and> is_channel (cl_serv c) chan then okc (send_raw (irc_part chan reason) c) else usage c)"

definition cmd_cycle :: command where
  "cmd_cycle e i word word_eol c =
     (let chan = (if word 2 = [] then channel (cl_sess c i) else word 2) in
      case find_channel (pr_w (cl_st c)) chan of
        Some j \<Rightarrow>
          okc (on_st (on_world (w_emit (Send
            (''PART '' @ chan @ crlf @ ''JOIN '' @ chan @ '' '' @ channelkey (cl_sess c j) @ crlf)))) c)
      | None \<Rightarrow> usage c)"

definition cmd_invite :: command where
  "cmd_invite e i word word_eol c =
     (if word 2 = [] then usage c
      else okc (send_raw (''INVITE '' @ word 2 @ '' '' @ (if word 3 \<noteq> [] then word 3 else channel (cl_sess c i))) c))"

definition cmd_names :: command where
  "cmd_names e i word word_eol c =
     okc (send_raw (''NAMES '' @ (if word 2 \<noteq> [] then word 2 else channel (cl_sess c i))) c)"

definition cmd_topic :: command where
  "cmd_topic e i word word_eol c =
     okc (send_raw (if word 2 \<noteq> [] \<and> is_channel (cl_serv c) (word 2)
                    then irc_topic (word 2) (Some (word_eol 3))
                    else irc_topic (channel (cl_sess c i)) (Some (word_eol 2))) c)"

definition cmd_mode :: command where
  "cmd_mode e i word word_eol c =
     (let s = cl_sess c i; target = word 2; serv = cl_serv c in
      if sess_type s \<notin> {SESS_CHANNEL, SESS_DIALOG} \<or>
         (target \<noteq> [] \<and> cur target \<notin> {CHR ''-'', CHR ''+''} \<and>
          (is_channel serv target \<or> rfc_casecmp (serv_nick serv) target = 0))
      then okc (send_mode target (word_eol 3) c)
      else if channel s = [] then usage c
      else okc (send_mode (channel s) (word_eol 2) c))"

subsection \<open>Other commands\<close>

definition cmd_nick :: command where
  "cmd_nick e i word word_eol c =
     (if word 2 = [] then usage c
      else if connected c then okc (send_raw (''NICK '' @ word 2) c)
      else
        ret_true (map_option (\<lambda>st. c\<lparr>cl_st := st\<rparr>)
          (try_world (inbound_newnick (serv_nick (cl_serv c)) (word 2) True) (cl_st c))))"

definition cmd_ping :: command where
  "cmd_ping e i word word_eol c = okc (send_raw (irc_ping (word 2) (ping_time e)) c)"

definition cmd_quote :: command where
  "cmd_quote e i word word_eol c = (if word_eol 2 = [] then usage c else okc (send_pieces_raw (word_eol 2) c))"

definition cmd_echo :: command where
  "cmd_echo e i word word_eol c = okc (print_text i (word_eol 2) c)"

definition cmd_id :: command where
  "cmd_id e i word word_eol c =
     (if word 2 = [] then usage c else okc (on_st (irc_ns_identify (word 2)) c))"

definition cmd_ghost :: command where
  "cmd_ghost e i word word_eol c =
     (if word 2 = [] then usage c
      else if loginmethod (cl_st c) = LOGIN_CHALLENGEAUTH then okc c
      else okc (send_raw (irc_nickserv (loginmethod (cl_st c) = LOGIN_MSG_NICKSERV) ''GHOST'' (word 2) '' '' (word 3)) c))"

definition cmd_flushq :: command where
  "cmd_flushq e i word word_eol c =
     okc (on_st (\<lambda>st. fn ''fe_set_throttle'' [] (st\<lparr>pr_sq := (pr_sq st)\<lparr>outbound_queue := [], sendq_len := 0\<rparr>\<rparr>))
       (print_text i (''Flushing server send queue, '' @ show_int (sendq_len (pr_sq (cl_st c))) @ '' bytes.'') c))"

definition cmd_charset :: command where
  "cmd_charset e i word word_eol c =
     (let quiet = (word 2 = ''-quiet''); enc = (if quiet then word 3 else word 2); serv = cl_serv c in
      if enc = [] then
        let c = print_text i (''Current charset: '' @ encoding serv) c
        in okc (if utf8only serv
                then print_text i ''Note: Server requires UTF-8 (UTF8ONLY), encoding cannot be changed.'' c else c)
      else if utf8only serv then okc (print_text i ''Cannot change encoding: server requires UTF-8 (UTF8ONLY).'' c)
      else if env_check_encoding (ie_env e) enc then
        let c = on_st (on_world (\<lambda>w. w\<lparr>w_serv := server_set_encoding (env_check_encoding (ie_env e)) (Some enc) (w_serv w)\<rparr>)) c
        in okc (if quiet then c else print_text i (''Charset changed to: '' @ enc) c)
      else okc (print_text i (''Unknown charset: '' @ enc) c))"

definition cmd_clear :: command where
  "cmd_clear e i word word_eol c =
     (let what = word_eol 2 in
      if g_ascii_strcasecmp what ''HISTORY'' = 0
      then okc (on_ui i (\<lambda>u. u\<lparr>ui_history := history_free (ui_history u)\<rparr>) c)
      else if ci_prefix ''all'' what then okc (on_st (fn ''fe_text_clear_all'' []) c)
      else if what \<noteq> [] \<and> cur what \<noteq> CHR ''-'' \<and> \<not> is_digit (cur what) then usage c
      else okc (on_st (fn ''fe_text_clear'' [show_nat i, show_int (atoi what)]) c))"

definition cmd_list :: command where
  "cmd_list e i word word_eol c = okc (on_st (fn ''fe_open_chan_list'' [word_eol 2]) c)"

subsection \<open>The ignore list\<close>

text \<open>The words behind the mask: \<open>Inl\<close> one that is not known.\<close>

definition ignore_word :: "string \<Rightarrow> string + uint" where
  "ignore_word w =
     (let is = (\<lambda>t. g_ascii_strcasecmp w t = 0) in
      if is ''UNIGNORE'' then Inr IG_UNIG
      else if is ''ALL'' then Inr (IG_PRIV OR IG_NOTI OR IG_CHAN OR IG_CTCP OR IG_INVI OR IG_DCC)
      else if is ''PRIV'' then Inr IG_PRIV
      else if is ''NOTI'' then Inr IG_NOTI
      else if is ''CHAN'' then Inr IG_CHAN
      else if is ''CTCP'' then Inr IG_CTCP
      else if is ''INVI'' then Inr IG_INVI
      else if is ''QUIET'' then Inr 0
      else if is ''NOSAVE'' then Inr IG_NOSAVE
      else if is ''DCC'' then Inr IG_DCC
      else Inl (''Unknown arg '' @ [CHR 0x27] @ w @ [CHR 0x27] @ '' ignored.''))"

definition ignore_type :: "string list \<Rightarrow> uint" where
  "ignore_type ws = foldl (\<lambda>ty w. case ignore_word w of Inl _ \<Rightarrow> ty | Inr t \<Rightarrow> ty OR t) 0 ws"

definition full_mask :: "string \<Rightarrow> string \<Rightarrow> string" where
  "full_mask specials msk =
     (if \<exists>ch \<in> set specials. ch \<in> set msk then msk else take 4095 (msk @ ''!*@*''))"

definition on_ig :: "(ig_state \<Rightarrow> ig_state \<times> 'a) \<Rightarrow> client \<Rightarrow> client \<times> 'a" where
  "on_ig f c = (let (ig, r) = f (pr_ig (cl_st c)) in (on_st (\<lambda>st. st\<lparr>pr_ig := ig\<rparr>) c, r))"

definition cmd_ignore :: command where
  "cmd_ignore e i word word_eol c =
     (if word 2 = [] then okc (on_st (fn ''ignore_showlist'' [show_nat i]) c)
      else
        let ws = (if word 3 = [] then [''ALL''] else word_args (\<lambda>k. word (k + 1)));
            c = foldl (\<lambda>c w. case ignore_word w of Inl msg \<Rightarrow> print_text i msg c | Inr _ \<Rightarrow> c) c ws;
            ty = ignore_type ws; msk = full_mask ''!@?*'' (word 2)
        in if ty = 0 then usage c
           else
             let (c, r) = on_ig (\<lambda>ig. ignore_add ig msk ty True) c;
                 quiet = (\<exists>w \<in> set ws. g_ascii_strcasecmp w ''QUIET'' = 0)
             in okc (if quiet then c else show_sent (if r = 1 then ''IGNOREADD'' else ''IGNORECHANGE'') msk [] c))"

definition cmd_unignore :: command where
  "cmd_unignore e i word word_eol c =
     (if word 2 = [] then usage c
      else
        let msk = full_mask ''?*'' (word 2);
            (c, found) = on_ig (\<lambda>ig. ignore_del ig (Inl msk)) c
        in okc (if found \<and> g_ascii_strcasecmp (word 3) ''QUIET'' \<noteq> 0 then show_sent ''IGNOREREMOVE'' msk [] c else c))"

end
