(* ===== verification/CommandsIrcv3.thy ===== *)
theory CommandsIrcv3
  imports Commands
begin

text \<open>
  The commands of \<open>src/common/outbound.c\<close> for the IRCv3 extensions: read markers, reactions,
  replies, redaction, metadata, MONITOR, account registration and raw TAGMSGs.
\<close>

definition says :: "nat \<Rightarrow> string \<Rightarrow> client \<Rightarrow> cmd_result" where
  "says i msg c = okc (print_text i msg c)"

text \<open>\<open>newer_stamp\<close>: the time of the newest message of the window, when it is after its marker.\<close>

definition cmd_markread :: command where
  "cmd_markread e i word word_eol c =
     (let s = cl_sess c i in
      if \<not> have_read_marker (cl_serv c) then says i ''Read markers are not available on this server.'' c
      else if \<not> connected c then okc (notc_msg i c)
      else if word 2 = [] then
        if sess_type s \<in> {SESS_CHANNEL, SESS_DIALOG} then
          okc (case (if channel s = [] then None else newer_stamp e i) of
                 None \<Rightarrow> c
               | Some (newest, ts) \<Rightarrow>
                   on_st (fn ''markread_time'' [show_nat i, ts])
                     (send_raw (''MARKREAD '' @ channel s @ '' timestamp='' @ ts) c))
        else says i ''Use /MARKREAD in a channel or query window, or specify a target.'' c
      else okc (send_raw (''MARKREAD '' @ word 2 @ (if word 3 \<noteq> [] then '' timestamp='' @ word 3 else [])) c))"

definition send_tagmsg :: "ienv \<Rightarrow> string \<Rightarrow> string \<Rightarrow> client \<Rightarrow> client" where
  "send_tagmsg e target tags c =
     on_st (\<lambda>st. st\<lparr>pr_sq := fst (tcp_sendf_with_raw_tags (env_now (ie_env e)) ''TAGMSG'' (Some target) (Some tags)
                      (''TAGMSG '' @ target @ crlf) (pr_sq st))\<rparr>) c"

definition react :: "string \<Rightarrow> string \<Rightarrow> string \<Rightarrow> string \<Rightarrow> command" where
  "react tag usage_text none_text cap_text e i word word_eol c =
     (let chan = channel (cl_sess c i);
          msgid = (if word 3 \<noteq> [] then Some (word 3) else last_msgid e i)
      in if \<not> has_tags c then says i cap_text c
         else if \<not> connected c then okc (notc_msg i c)
         else if chan = [] then okc (notj_msg i c)
         else if word 2 = [] then says i usage_text c
         else
           (case msgid of
              None \<Rightarrow> says i none_text c
            | Some m \<Rightarrow>
                okc (send_tagmsg e chan (tag @ ''='' @ escape_tag_value (word 2) @ '';+draft/reply='' @ m) c)))"

definition cmd_react :: command where
  "cmd_react = react ''+draft/react'' ''Usage: /REACT <emoji> [msgid]'' ''No message to react to.''
     ''Message reactions require the message-tags capability.''"

definition cmd_unreact :: command where
  "cmd_unreact = react ''+draft/unreact'' ''Usage: /UNREACT <emoji> [msgid]'' ''No message to unreact from.''
     ''Message reactions require the message-tags capability.''"

definition cmd_reply :: command where
  "cmd_reply e i word word_eol c =
     (let answer = (\<lambda>m text. ret_true (handle_say e i text True (on_ui i (\<lambda>u. u\<lparr>reply_msgid := Some m\<rparr>) c)))
      in if \<not> has_tags c then says i ''Message replies require the message-tags capability.'' c
         else if \<not> connected c then okc (notc_msg i c)
         else if channel (cl_sess c i) = [] then okc (notj_msg i c)
         else if word_eol 2 = [] then says i ''Usage: /REPLY [msgid] <text>'' c
         else if word 3 \<noteq> [] \<and> CHR '' '' \<notin> set (word 2) then answer (word 2) (word_eol 3)
         else
           (case last_nonself_msgid e i of
              None \<Rightarrow> says i ''No message to reply to.'' c
            | Some m \<Rightarrow> answer m (word_eol 2)))"

definition cmd_redact :: command where
  "cmd_redact e i word word_eol c =
     (if word 2 = [] \<or> word 3 = [] then
        let target = (if word 2 \<noteq> [] then word 2 else channel (cl_sess c i)) in
        if target = [] then says i ''Usage: /REDACT [target] [msgid] [reason]'' c
        else okc (on_st (fn ''picker_pending_cmd'' [show_nat i, ''REDACT '' @ target @ '' %s'']) c)
      else if \<not> have_redact (pr_flags (cl_st c)) then says i ''Message redaction is not available on this server.'' c
      else if \<not> connected c then okc (notc_msg i c)
      else
        okc (send_tracked e ''REDACT'' (Some (word 2))
          (''REDACT '' @ word 2 @ '' '' @ word 3 @ (if word_eol 4 \<noteq> [] then '' :'' @ word_eol 4 else [])) c))"

definition cmd_metadata :: command where
  "cmd_metadata e i word word_eol c =
     (let target = word 2; subcmd = word 3; is = (\<lambda>t. g_ascii_strcasecmp subcmd t = 0);
          line = (\<lambda>rest. okc (send_tracked e ''METADATA'' (Some target) (''METADATA '' @ target @ '' '' @ rest) c))
      in if \<not> have_metadata (pr_flags (cl_st c)) then says i ''This server does not support METADATA.'' c
         else if target = [] then says i ''Usage: /METADATA'' c
         else if subcmd = [] then says i ''Missing subcommand. Use /METADATA for help.'' c
         else if is ''GET'' \<or> is ''LIST'' \<or> is ''CLEAR'' \<or> is ''SYNC'' \<or> is ''SUBS''
         then line (subcmd @ (if word 4 \<noteq> [] then '' '' @ word_eol 4 else []))
         else if is ''SET'' then
           if word 4 = [] then says i ''Usage: /METADATA <target> SET <key> [:<value>]'' c
           else line (''SET '' @ word 4 @ (if word_eol 5 \<noteq> [] then '' :'' @ word_eol 5 else []))
         else if is ''SUB'' \<or> is ''UNSUB'' then
           if word 4 = [] then says i (''Usage: /METADATA * '' @ subcmd @ '' <key> [<key>...]'') c
           else line (subcmd @ '' '' @ word_eol 4)
         else says i ''Unknown METADATA subcommand. Use /METADATA for help.'' c)"

definition cmd_monitor :: command where
  "cmd_monitor e i word word_eol c =
     (let subcmd = word 2; line = (\<lambda>rest. okc (send_tracked e ''MONITOR'' None (''MONITOR '' @ rest) c)) in
      if \<not> supports_monitor (cl_serv c) then says i ''This server does not support MONITOR.'' c
      else if subcmd = [] then says i ''Usage: /MONITOR'' c
      else if length subcmd = 1 \<and> ascii_toupper (cur subcmd) \<in> {CHR ''C'', CHR ''L'', CHR ''S''}
      then line [ascii_toupper (cur subcmd)]
      else if cur subcmd \<in> {CHR ''+'', CHR ''-''} then line subcmd
      else says i ''Invalid MONITOR command. Use /MONITOR for help.'' c)"

definition cmd_register :: command where
  "cmd_register e i word word_eol c =
     (let account = word 2; email = (if word 4 = [] then ''*'' else word 3);
          pass = (if word 4 = [] then word 3 else word 4); st = cl_st c; serv = cl_serv c
      in if \<not> have_account_registration (pr_flags st) then says i ''This server does not support account registration.'' c
         else if account = [] \<or> word 3 = [] then says i ''Usage: /REGISTER <account> [<email>|*] <password>'' c
         else if accreg_email_required st \<and> email = ''*''
         then says i ''Error: This server requires a valid email address.'' c
         else if \<not> accreg_custom_account st \<and> account \<noteq> ''*'' \<and> p_cmp serv account (serv_nick serv) \<noteq> 0
         then says i ''Error: This server requires account name to match your nickname.'' c
         else says i (''Registering account '' @ (if account = ''*'' then serv_nick serv else account))
                (send_tracked e ''REGISTER'' None (''REGISTER '' @ account @ '' '' @ email @ '' '' @ pass) c))"

definition cmd_verify :: command where
  "cmd_verify e i word word_eol c =
     (if \<not> have_account_registration (pr_flags (cl_st c))
      then says i ''This server does not support account registration.'' c
      else if word 2 = [] \<or> word 3 = [] then says i ''Usage: /VERIFY <account> <code>'' c
      else says i (''Verifying account '' @ word 2)
             (send_tracked e ''VERIFY'' None (''VERIFY '' @ word 2 @ '' '' @ word 3) c))"

definition cmd_tagmsg :: command where
  "cmd_tagmsg e i word word_eol c =
     (if \<not> has_tags c then says i ''Server does not support message-tags capability.'' c
      else if word 2 = [] \<or> word_eol 3 = [] then says i ''Usage: /TAGMSG <target> <tags>'' c
      else okc (send_tagmsg e (word 2) (word_eol 3) c))"

end
