(* ===== verification/Command.thy ===== *)
theory Command
  imports CommandsIrcv3
begin

text \<open>
  The dispatch of a command line in \<open>src/common/outbound.c\<close>: \<open>handle_command\<close> with the user's own
  commands, which may call each other, \<open>handle_user_input\<close> and \<open>handle_multiline\<close>.

  \<open>level\<close> is the static \<open>command_level\<close> at the call. A command of the program that is not modelled
  is recorded as a call.
\<close>

subsection \<open>The table of commands\<close>

text \<open>
  A command of the program: its name, the flags \<open>needserver\<close>, \<open>needchannel\<close> and
  \<open>handle_quotes\<close>. The table is searched by \<open>bsearch\<close> of the C library, which halves the
  range from \<open>l\<close> to \<open>u\<close>.
\<close>

type_synonym cmd_entry = "string \<times> bool \<times> bool \<times> bool"

definition xc_cmds :: "cmd_entry list" where
  "xc_cmds =
    [(''ADDBUTTON'', False, False, True), (''ADDSERVER'', False, False, True), (''ALLCHAN'', False, False, True),
      (''ALLCHANL'', False, False, True), (''ALLSERV'', False, False, True), (''AWAY'', True, False, True),
      (''BACK'', True, False, True), (''BAN'', True, True, True), (''CHANOPT'', False, False, True),
      (''CHARSET'', False, False, True), (''CLEAR'', False, False, True), (''CLOSE'', False, False, True),
      (''COUNTRY'', False, False, True), (''CTCP'', True, False, True), (''CYCLE'', True, True, True),
      (''DCC'', False, False, True), (''DEBUG'', False, False, True), (''DEHOP'', True, True, True),
      (''DELBUTTON'', False, False, True), (''DEOP'', True, True, True), (''DEVOICE'', True, True, True),
      (''DISCON'', False, False, True), (''DNS'', False, False, True), (''DOAT'', False, False, True),
      (''ECHO'', False, False, True), (''EXEC'', False, False, True), (''EXECCONT'', False, False, True),
      (''EXECKILL'', False, False, True), (''EXECSTOP'', False, False, True), (''EXECWRITE'', False, False, True),
      (''FLUSHQ'', False, False, True), (''GATE'', False, False, True), (''GETBOOL'', False, False, True),
      (''GETFILE'', False, False, True), (''GETINT'', False, False, True), (''GETSTR'', False, False, True),
      (''GHOST'', True, False, True), (''GUI'', False, False, True), (''HELP'', False, False, True),
      (''HISTORY'', True, False, True), (''HOP'', True, True, True), (''ID'', True, False, True),
      (''IGNORE'', False, False, True), (''INVITE'', True, False, True), (''JOIN'', True, False, False),
      (''KICK'', True, True, True), (''KICKBAN'', True, True, True), (''KILLALL'', False, False, True),
      (''LAGCHECK'', False, False, True), (''LASTLOG'', False, False, True), (''LIST'', True, False, True),
      (''LOAD'', False, False, True), (''MARKREAD'', True, False, True), (''MDEHOP'', True, True, True),
      (''MDEOP'', True, True, True), (''ME'', False, False, True), (''MENU'', False, False, True),
      (''METADATA'', True, False, True), (''MHOP'', True, True, True), (''MKICK'', True, True, True),
      (''MODE'', True, False, True), (''MONITOR'', True, False, True), (''MOP'', True, True, True),
      (''MSG'', False, False, True), (''NAMES'', True, False, True), (''NCTCP'', True, False, True),
      (''NEWSERVER'', False, False, True), (''NICK'', False, False, True), (''NOTICE'', True, False, True),
      (''NOTIFY'', False, False, True), (''OP'', True, True, True), (''PART'', True, True, False),
      (''PING'', True, False, True), (''QUERY'', False, False, True), (''QUIET'', True, True, True),
      (''QUIT'', False, False, True), (''QUOTE'', True, False, True), (''REACT'', True, False, True),
      (''RECONNECT'', False, False, True), (''RECV'', True, False, True), (''REDACT'', True, False, True),
      (''REGISTER'', True, False, True), (''RELOAD'', False, False, True), (''REPLY'', True, False, True),
      (''SAY'', False, False, True), (''SEND'', False, False, True), (''SERVCHAN'', False, False, True),
      (''SERVER'', False, False, True), (''SET'', False, False, True), (''SETCURSOR'', False, False, True),
      (''SETTAB'', False, False, True), (''SETTEXT'', False, False, True), (''SPLAY'', False, False, True),
      (''TAGMSG'', True, False, True), (''TOAST'', False, False, True), (''TOPIC'', True, True, True),
      (''TRAY'', False, False, True), (''UNBAN'', True, True, True), (''UNIGNORE'', False, False, True),
      (''UNLOAD'', False, False, True), (''UNQUIET'', True, True, True), (''UNREACT'', True, False, True),
      (''URL'', False, False, True), (''USELECT'', False, True, False), (''USERLIST'', True, True, True),
      (''VERIFY'', True, False, True), (''VOICE'', True, True, True), (''WALLCHOP'', True, True, True)]"

function bsearch :: "('a \<Rightarrow> int) \<Rightarrow> 'a list \<Rightarrow> nat \<Rightarrow> nat \<Rightarrow> 'a option" where
  "bsearch compar base l u =
     (if l < u then
        let idx = (l + u) div 2; r = compar (base ! idx) in
        if r < 0 then bsearch compar base l idx
        else if r > 0 then bsearch compar base (idx + 1) u
        else Some (base ! idx)
      else None)"
  by pat_completeness auto
termination by (relation "measure (\<lambda>(c, b, l, u). u - l)") auto

declare bsearch.simps [simp del]

definition command_compare :: "string \<Rightarrow> cmd_entry \<Rightarrow> int" where
  "command_compare a b = g_ascii_strcasecmp a (fst b)"

definition find_internal_command :: "string \<Rightarrow> cmd_entry option" where
  "find_internal_command name = bsearch (command_compare name) xc_cmds 0 (length xc_cmds)"

definition cmd_quit :: command where
  "cmd_quit e i word word_eol c = Some (on_st (fn ''disconnect'' [word_eol 2]) c, Cmd_2)"

definition command_table :: "(string \<times> command) list" where
  "command_table =
    [(''AWAY'', cmd_away), (''BACK'', cmd_back), (''BAN'', cmd_ban), (''CHARSET'', cmd_charset),
     (''CLEAR'', cmd_clear), (''CTCP'', cmd_ctcp), (''CYCLE'', cmd_cycle), (''DEHOP'', cmd_dehop),
     (''DEOP'', cmd_deop), (''DEVOICE'', cmd_devoice), (''ECHO'', cmd_echo), (''FLUSHQ'', cmd_flushq),
     (''GHOST'', cmd_ghost), (''HOP'', cmd_hop), (''ID'', cmd_id), (''IGNORE'', cmd_ignore),
     (''INVITE'', cmd_invite), (''JOIN'', cmd_join), (''KICK'', cmd_kick), (''KICKBAN'', cmd_kickban),
     (''LIST'', cmd_list), (''MARKREAD'', cmd_markread), (''MDEHOP'', cmd_mdehop), (''MDEOP'', cmd_mdeop),
     (''ME'', cmd_me), (''METADATA'', cmd_metadata), (''MHOP'', cmd_mhop), (''MKICK'', cmd_mkick),
     (''MODE'', cmd_mode), (''MONITOR'', cmd_monitor), (''MOP'', cmd_mop), (''MSG'', cmd_msg),
     (''NAMES'', cmd_names), (''NCTCP'', cmd_nctcp), (''NICK'', cmd_nick), (''NOTICE'', cmd_notice),
     (''OP'', cmd_op), (''PART'', cmd_part), (''PING'', cmd_ping), (''QUERY'', cmd_query),
     (''QUIET'', cmd_quiet), (''QUIT'', cmd_quit), (''QUOTE'', cmd_quote), (''REACT'', cmd_react),
     (''REDACT'', cmd_redact), (''REGISTER'', cmd_register), (''REPLY'', cmd_reply), (''SAY'', cmd_say),
     (''TAGMSG'', cmd_tagmsg), (''TOPIC'', cmd_topic), (''UNBAN'', cmd_unban), (''UNIGNORE'', cmd_unignore),
     (''UNQUIET'', cmd_unquiet), (''UNREACT'', cmd_unreact), (''VERIFY'', cmd_verify), (''VOICE'', cmd_voice),
     (''WALLCHOP'', cmd_wallchop)]"

definition run_command :: "string \<Rightarrow> command" where
  "run_command name e i word word_eol c =
     (case map_of command_table name of
        Some f \<Rightarrow> f e i word word_eol c
      | None \<Rightarrow>
          if name \<in> {''ALLCHAN'', ''ALLCHANL'', ''ALLSERV''} then usage c
          else okc (on_st (fn (''/'' @ name) [show_nat i, word_eol 2]) c))"

text \<open>
  The commands that run another one in some windows: the numbers of the windows, which of them
  qualify when their turn has come, and the command.
\<close>

definition forwards :: "string \<Rightarrow> words \<Rightarrow> client \<Rightarrow> (nat list \<times> (client \<Rightarrow> nat \<Rightarrow> bool) \<times> string) option" where
  "forwards name word_eol c =
     (if word_eol 2 = [] then None
      else if name \<in> {''ALLCHAN'', ''ALLCHANL''} then
        Some ([0..<length (w_sessions (pr_w (cl_st c)))],
          \<lambda>d j. sess_type (cl_sess d j) = SESS_CHANNEL \<and> channel (cl_sess d j) \<noteq> [] \<and> connected d, word_eol 2)
      else if name = ''ALLSERV'' then Some ([w_front (pr_w (cl_st c))], \<lambda>d j. connected d, word_eol 2)
      else None)"

subsection \<open>A command line\<close>

text \<open>
  The codes are put into the line after it was split, in the same memory: a \<open>word_eol\<close> points
  where it did, into the new text or, behind its end, into what is left of the old one.
\<close>

definition stale_eol :: "string \<Rightarrow> string \<Rightarrow> string \<Rightarrow> string" where
  "stale_eol cmd new eol =
     upto_chr (drop (length cmd - length eol) (new @ NUL # drop (length new + 1) cmd)) NUL"

definition command_words :: "ienv \<Rightarrow> string \<Rightarrow> bool \<Rightarrow> (string \<times> words \<times> words) option" where
  "command_words e cmd check_spch =
     (case process_data_init cmd True True of
        None \<Rightarrow> None
      | Some (ws, eols) \<Rightarrow>
          (case (case find_internal_command (slot ws 1) of
                   Some (name, _, _, handle_quotes) \<Rightarrow>
                     if handle_quotes then Some (ws, eols) else process_data_init cmd False False
                 | None \<Rightarrow> Some (ws, eols)) of
             None \<Rightarrow> None
           | Some (ws, eols) \<Rightarrow>
               let new = typed e check_spch cmd
               in Some (new, slot ws, slot (if new = cmd then eols else map (stale_eol cmd new) eols))))"

definition insert_vars :: "ienv \<Rightarrow> nat \<Rightarrow> client \<Rightarrow> char \<Rightarrow> string option" where
  "insert_vars e i c ch =
     (if ch \<in> set ''adhsu'' then Some []
      else if ch = CHR ''c'' then Some (channel (cl_sess c i))
      else if ch = CHR ''n'' then Some (serv_nick (cl_serv c))
      else auto_vars e ch)"

text \<open>The text a user command becomes: \<open>Inl\<close> for bad arguments.\<close>

definition user_command :: "ienv \<Rightarrow> nat \<Rightarrow> string \<Rightarrow> words \<Rightarrow> words \<Rightarrow> client \<Rightarrow> (unit + string) option" where
  "user_command e i cmd word word_eol c =
     (case auto_insert (ie_utf8 e) 2048 cmd (Some (word, word_eol)) (insert_vars e i c) of
        None \<Rightarrow> None
      | Some (Inserted t) \<Rightarrow> Some (Inr t)
      | Some Bad_args \<Rightarrow> Some (Inl ())
      | Some (Too_long t terminated) \<Rightarrow> if terminated then Some (Inr t) else None)"

text \<open>Where a window is when others have been opened, which come in front of it.\<close>

definition moved :: "nat \<Rightarrow> client \<Rightarrow> client \<Rightarrow> nat" where
  "moved i c c' = i + (length (w_sessions (pr_w (cl_st c'))) - length (w_sessions (pr_w (cl_st c))))"

definition internal_command ::
    "ienv \<Rightarrow> nat \<Rightarrow> string \<Rightarrow> words \<Rightarrow> words \<Rightarrow> client \<Rightarrow> (client \<times> bool) option" where
  "internal_command e i name word word_eol c =
     (case run_command name e i word word_eol c of
        None \<Rightarrow> None
      | Some (c, Cmd_True) \<Rightarrow> Some (c, True)
      | Some (c, Cmd_2) \<Rightarrow> Some (c, False)
      | Some (c, Cmd_False) \<Rightarrow> Some (on_st (fn ''help'' [name]) c, True))"

definition unknown_command :: "nat \<Rightarrow> string \<Rightarrow> words \<Rightarrow> client \<Rightarrow> client" where
  "unknown_command i cmd word c =
     (if connected c then send_pieces_raw cmd c
      else print_text i (''Unknown Command '' @ word 1 @ ''. Try /help'') c)"

function handle_command :: "nat \<Rightarrow> ienv \<Rightarrow> nat \<Rightarrow> string \<Rightarrow> bool \<Rightarrow> client \<Rightarrow> (client \<times> bool) option" where
  "handle_command level e i cmd check_spch c =
     (if level > 99
      then Some (on_st (fn ''fe_message'' [''Too many recursive usercommands, aborting.'']) c, True)
      else
        (case command_words e cmd check_spch of
           None \<Rightarrow> None
         | Some (cmd, word, word_eol) \<Rightarrow>
             let own = filter (\<lambda>p. g_ascii_strcasecmp (fst p) (word 1) = 0) (command_list e);
                 run = (\<lambda>j text check r. case r of
                          None \<Rightarrow> None
                        | Some d \<Rightarrow> map_option fst (handle_command (level + 1) e (moved j c d) text check d))
             in if plugin_command e i word word_eol then Some (c, True)
                else if own \<noteq> [] then
                  map_option (\<lambda>d. (d, True))
                    (foldl (\<lambda>r p. case r of
                       None \<Rightarrow> None
                     | Some d \<Rightarrow>
                         (case user_command e (moved i c d) (snd p) word word_eol d of
                            None \<Rightarrow> None
                          | Some (Inl _) \<Rightarrow> Some (print_text (moved i c d) ''Bad arguments for user command.'' d)
                          | Some (Inr text) \<Rightarrow> run i text True r)) (Some c) own)
                else
                  (case find_internal_command (word 1) of
                     None \<Rightarrow> Some (unknown_command i cmd word c, True)
                   | Some (name, needserver, needchannel, _) \<Rightarrow>
                       if needserver \<and> \<not> connected c then Some (notc_msg i c, True)
                       else if needchannel \<and> channel (cl_sess c i) = [] then Some (notj_msg i c, True)
                       else
                         (case forwards name word_eol c of
                            Some (js, ok, text) \<Rightarrow>
                              map_option (\<lambda>d. (d, True))
                                (foldl (\<lambda>r j. case r of
                                   None \<Rightarrow> None
                                 | Some d \<Rightarrow> if ok d (moved j c d) then run j text False r else r) (Some c) js)
                          | None \<Rightarrow> internal_command e i name word word_eol c))))"
  by pat_completeness auto
termination by (relation "measure (\<lambda>(level, e, i, cmd, s, c). 100 - level)") auto

declare handle_command.simps [simp del]

subsection \<open>The input line\<close>

definition handle_user_input :: "ienv \<Rightarrow> nat \<Rightarrow> string \<Rightarrow> bool \<Rightarrow> bool \<Rightarrow> client \<Rightarrow> (client \<times> bool) option" where
  "handle_user_input e i text hist nocommand c =
     (if text = [] then Some (c, True)
      else
        let c = typing_indicator_cancel i c;
            c = (if hist then on_ui i (\<lambda>u. u\<lparr>ui_history := history_add (ui_history u) text\<rparr>) c else c);
            say = (\<lambda>t. map_option (\<lambda>c. (c, True)) (handle_say e i t True c))
        in if nocommand \<or> cur text \<noteq> command_char e then say text
           else if cur (tl text) = command_char e then say (tl text)
           else handle_command 0 e i (tl text) True c)"

text \<open>The lines of a text, at every CR and LF.\<close>

fun text_lines :: "string \<Rightarrow> string list" where
  "text_lines [] = [[]]"
| "text_lines (ch # s) =
     (if ch = CHR 0x0A \<or> ch = CHR 0x0D then [] # text_lines s
      else (case text_lines s of [] \<Rightarrow> [[ch]] | l # ls \<Rightarrow> (ch # l) # ls))"

text \<open>Line by line, until one asks to stop.\<close>

fun input_lines :: "ienv \<Rightarrow> nat \<Rightarrow> bool \<Rightarrow> bool \<Rightarrow> string list \<Rightarrow> client \<Rightarrow> client option" where
  "input_lines e i hist nocommand [] c = Some c"
| "input_lines e i hist nocommand (l # ls) c =
     (case handle_user_input e i l hist nocommand c of
        None \<Rightarrow> None
      | Some (d, go) \<Rightarrow> if go then input_lines e (moved i c d) hist nocommand ls d else Some d)"

definition plain_lines :: "char \<Rightarrow> string list \<Rightarrow> string list" where
  "plain_lines cmd_char ls =
     filter (\<lambda>l. l \<noteq> []) (map (\<lambda>l. if cur l = cmd_char \<and> cur (tl l) = cmd_char then tl l else l) ls)"

definition all_text :: "char \<Rightarrow> string list \<Rightarrow> bool" where
  "all_text cmd_char ls \<longleftrightarrow> (\<forall>l \<in> set ls. \<not> (cur l = cmd_char \<and> l \<noteq> [] \<and> cur (tl l) \<noteq> cmd_char))"

definition handle_multiline :: "ienv \<Rightarrow> nat \<Rightarrow> string \<Rightarrow> bool \<Rightarrow> bool \<Rightarrow> client \<Rightarrow> client option" where
  "handle_multiline e i cmd hist nocommand c =
     (let ls = text_lines cmd; lines = plain_lines (command_char e) ls;
          batched = (have_multiline (pr_flags (cl_st c)) \<and> multiline_max_lines (cl_serv c) > 1 \<and>
                     CHR 0x0A \<in> set cmd \<and> all_text (command_char e) ls)
      in if batched \<and> length lines \<ge> 2 then
           handle_multiline_batch e i lines (typing_indicator_cancel i
             (if hist then on_ui i (\<lambda>u. u\<lparr>ui_history := history_add (ui_history u) cmd\<rparr>) c else c))
         else if batched then input_lines e i hist nocommand (take 1 ls) c
         else input_lines e i hist nocommand ls c)"

end
