(* ===== verification/CommandTable.thy ===== *)
theory CommandTable
  imports Command "HOL-Library.List_Lexorder"
begin

text \<open>
  The lookup of a command in the table of \<open>src/common/outbound.c\<close>: the bisection is correct on a
  sorted table, and the table is sorted.
\<close>

lemma bsearch_iff:
  fixes key :: "'a \<Rightarrow> 'k :: linorder"
  assumes sorted: "sorted_wrt (\<lambda>x y. key x < key y) base"
    and compar: "\<And>x. x \<in> set base \<Longrightarrow> (compar x < 0 \<longleftrightarrow> k < key x) \<and> (compar x = 0 \<longleftrightarrow> k = key x)"
    and range: "u \<le> length base" "\<And>i. i < l \<Longrightarrow> i < length base \<Longrightarrow> key (base ! i) < k"
      "\<And>i. u \<le> i \<Longrightarrow> i < length base \<Longrightarrow> k < key (base ! i)"
  shows "bsearch compar base l u = Some x \<longleftrightarrow> x \<in> set base \<and> key x = k"
  using range
proof (induction "u - l" arbitrary: l u rule: less_induct)
  case less
  define idx where "idx = (l + u) div 2"
  have mono: "key (base ! i) < key (base ! j)" if "i < j" "j < length base" for i j
    using sorted_wrt_nth_less [OF sorted that] .
  show ?case
  proof (cases "l < u")
    case False
    have "x \<notin> set base \<or> key x \<noteq> k"
      using less.prems(2,3) False by (metis in_set_conv_nth linorder_not_le order_less_imp_not_eq order_less_irrefl order_less_le_trans)
    then show ?thesis using False by (subst bsearch.simps) auto
  next
    case True
    then have idx: "l \<le> idx" "idx < u" "idx < length base" using less.prems(1) by (auto simp: idx_def)
    note c = compar [of "base ! idx"]
    consider (lt) "compar (base ! idx) < 0" | (gt) "compar (base ! idx) > 0" | (eq) "compar (base ! idx) = 0" by linarith
    then show ?thesis
    proof cases
      case lt
      then have k: "k < key (base ! idx)" using c idx(3) by simp
      then have "\<And>i. idx \<le> i \<Longrightarrow> i < length base \<Longrightarrow> k < key (base ! i)"
        using mono by (metis le_eq_less_or_eq order_less_trans)
      then have "bsearch compar base l idx = Some x \<longleftrightarrow> x \<in> set base \<and> key x = k"
        using less.hyps [of idx l] less.prems(2) idx by simp
      then show ?thesis using True lt by (subst bsearch.simps) (simp add: idx_def Let_def)
    next
      case gt
      then have "key (base ! idx) < k" using c idx(3) by fastforce
      then have "\<And>i. i < idx + 1 \<Longrightarrow> i < length base \<Longrightarrow> key (base ! i) < k"
        using mono idx(3) by (metis Suc_eq_plus1 less_antisym order_less_trans)
      then have "bsearch compar base (idx + 1) u = Some x \<longleftrightarrow> x \<in> set base \<and> key x = k"
        using less.hyps [of u "idx + 1"] less.prems(1,3) idx by simp
      then show ?thesis using True gt by (subst bsearch.simps) (simp add: idx_def Let_def)
    next
      case eq
      then have k: "k = key (base ! idx)" using c idx(3) by simp
      have "y = base ! idx" if "y \<in> set base" "key y = k" for y
        using that k mono idx(3) by (metis in_set_conv_nth linorder_neqE_nat order_less_irrefl)
      then show ?thesis using True eq k idx(3) by (subst bsearch.simps) (auto simp: idx_def Let_def)
    qed
  qed
qed

text \<open>Strings up to case, in the order of their bytes.\<close>

definition name_key :: "string \<Rightarrow> nat list" where
  "name_key s = map (\<lambda>c. uchar (ascii_tolower c)) s"

lemma ascii_tolower_pos: "c \<noteq> NUL \<Longrightarrow> 0 < uchar (ascii_tolower c)"
proof -
  assume "c \<noteq> NUL"
  then have "0 < uchar c" by (metis bot_nat_0.not_eq_extremum uchar_0_iff)
  then show ?thesis by (auto simp: ascii_tolower_def uchar_def)
qed

lemma strcasecmp_key:
  "no_nul a \<Longrightarrow> no_nul b \<Longrightarrow>
   (g_ascii_strcasecmp a b < 0 \<longleftrightarrow> name_key a < name_key b) \<and> (g_ascii_strcasecmp a b = 0 \<longleftrightarrow> name_key a = name_key b)"
proof (induction a arbitrary: b)
  case Nil
  then show ?case by (cases b) (auto simp: name_key_def intro: gr0I)
next
  case (Cons x a)
  then show ?case by (cases b) (auto simp: name_key_def Let_def)
qed

lemma command_names: "list_all (\<lambda>x. no_nul (fst x)) xc_cmds"
  by (simp add: xc_cmds_def)

lemma command_table_step: "successively (\<lambda>x y. g_ascii_strcasecmp (fst x) (fst y) < 0) xc_cmds"
  by (simp add: xc_cmds_def ascii_tolower_def uchar_def)

lemma command_table_sorted: "sorted_wrt (\<lambda>x y. name_key (fst x) < name_key (fst y)) xc_cmds"
proof -
  have "successively (\<lambda>x y. name_key (fst x) < name_key (fst y)) xc_cmds"
    using command_table_step command_names strcasecmp_key
    by (rule_tac successively_mono) (auto simp: list_all_iff)
  then show ?thesis
    by (subst (asm) successively_conv_sorted_wrt) (auto intro: transpI)
qed

text \<open>The bisection of the table of commands finds a command exactly when the table has its name,
  up to the case of the letters: the table is sorted and has no name twice.
\<close>

theorem find_internal_command_correct:
  assumes "no_nul name"
  shows "find_internal_command name = Some entry \<longleftrightarrow> entry \<in> set xc_cmds \<and> g_ascii_strcasecmp name (fst entry) = 0"
proof -
  have cmp: "(command_compare name x < 0 \<longleftrightarrow> name_key name < name_key (fst x)) \<and>
      (command_compare name x = 0 \<longleftrightarrow> name_key name = name_key (fst x))" if "x \<in> set xc_cmds" for x
    using strcasecmp_key [of name "fst x"] assms that command_names by (auto simp: command_compare_def list_all_iff)
  have "find_internal_command name = Some entry \<longleftrightarrow> entry \<in> set xc_cmds \<and> name_key (fst entry) = name_key name"
    unfolding find_internal_command_def by (rule bsearch_iff [OF command_table_sorted cmp]) auto
  then show ?thesis using cmp [of entry] by (auto simp: command_compare_def)
qed

theorem find_internal_command_correct_witness:
  "find_internal_command ''KickBan'' = Some (''KICKBAN'', True, True, True)"
  using find_internal_command_correct [of "''KickBan''" "(''KICKBAN'', True, True, True)"]
  by (simp add: xc_cmds_def ascii_tolower_def uchar_def)

end
