(* ===== verification/CommandProofs.thy ===== *)
theory CommandProofs
  imports CommandTable LoginProofs IgnoreProofs
begin

text \<open>
  What the commands of the user do: how often a command that calls itself is expanded, that the
  commands over all users of a channel stay inside their arrays, and that the ban mask of a user
  matches that user.
\<close>

subsection \<open>A concrete client\<close>

definition demo_ienv :: ienv where
  "demo_ienv = \<lparr>ie_env = demo_env, ie_utf8 = (\<lambda>_. None), perc_color = True, perc_ascii = False,
     completion_auto = False, completion_suffix = CHR '','', command_char = CHR ''/'', typing_send = False,
     input_box = [], mono_now = 0, last_entry_id = 0, dcc_write_chat = (\<lambda>_ _. None),
     command_list = [(''LOOP'', ''loop''), (''J'', ''join &2'')], auto_vars = (\<lambda>_. None),
     plugin_command = (\<lambda>_ _ _. False), away_reason = ''gone'', part_reason = ''bye'', ping_time = ''1'',
     last_msgid = (\<lambda>_. None), newer_stamp = (\<lambda>_. None), last_nonself_msgid = (\<lambda>_. None),
     ban_type = 1, is_ip = (\<lambda>_. False)\<rparr>"

definition demo_client :: client where
  "demo_client = \<lparr>cl_st = demo_proto, cl_ui = (\<lambda>_. new_ui), connected = True, last_away_reason = None\<rparr>"

subsection \<open>User commands that call themselves\<close>

definition abort_message :: "client \<Rightarrow> client" where
  "abort_message = on_st (fn ''fe_message'' [''Too many recursive usercommands, aborting.''])"

lemma abort_message_sessions [simp]: "w_sessions (pr_w (cl_st (abort_message c))) = w_sessions (pr_w (cl_st c))"
  by (simp add: abort_message_def on_st_def on_world_def call_def w_emit_def)

lemma abort_messages_sessions [simp]: "w_sessions (pr_w (cl_st ((abort_message ^^ n) c))) = w_sessions (pr_w (cl_st c))"
  by (induction n) auto

lemma loop_words: "process_data_init ''loop'' True True = Some ([''loop''], [''loop''])"
  by (simp add: process_data_init_def pdi_loop.simps(2) pdi_def_def pdi_put_def pdi_start_def g_utf8_skip_def uchar_def)

lemma loop_not_internal: "find_internal_command ''loop'' = None"
  by code_simp

lemma loop_command_words: "command_words e ''loop'' check = Some (''loop'', slot [''loop''], slot [''loop''])"
proof -
  have "typed e check ''loop'' = ''loop''"
    by (simp add: typed_def check_special_chars_plain)
  moreover have "slot [''loop''] 1 = ''loop''" by (simp add: slot_def)
  ultimately show ?thesis using loop_words loop_not_internal by (simp add: command_words_def)
qed

lemma loop_auto_insert: "auto_insert u 2048 ''loop'' tab vars = Some (Inserted ''loop'')"
  by (simp add: auto_insert_def auto_insert_loop.simps(2) g_utf8_skip_def uchar_def Let_def)

lemma loop_user_command: "user_command e i ''loop'' word word_eol c = Some (Inr ''loop'')"
  by (simp add: user_command_def loop_auto_insert)

text \<open>The list of the user's commands that have the name, one run after the other.\<close>

lemma foldl_runs:
  assumes "\<And>d. w_sessions (pr_w (cl_st d)) = w_sessions (pr_w (cl_st c)) \<Longrightarrow> step (Some d) = Some ((abort_message ^^ n) d)"
  shows "foldl (\<lambda>r p. step r) (Some c) own = Some ((abort_message ^^ (length own * n)) c)"
proof -
  have "foldl (\<lambda>r p. step r) (Some ((abort_message ^^ m) c)) own = Some ((abort_message ^^ (m + length own * n)) c)" for m
  proof (induction own arbitrary: m)
    case (Cons p own)
    have "step (Some ((abort_message ^^ m) c)) = Some ((abort_message ^^ (n + m)) c)"
      by (simp add: assms funpow_add)
    then show ?case using Cons [of "n + m"] by (simp add: algebra_simps)
  qed simp
  from this [of 0] show ?thesis by simp
qed



subsection \<open>The mask of a user\<close>

definition plain_mask :: "string \<Rightarrow> bool" where
  "plain_mask s \<longleftrightarrow> set s \<inter> {CHR ''*'', CHR ''?'', BACKSLASH} = {}"

lemma plain_mask_simps [simp]:
  "plain_mask []" "plain_mask (c # s) \<longleftrightarrow> c \<notin> {CHR ''*'', CHR ''?'', BACKSLASH} \<and> plain_mask s"
  "plain_mask (s @ t) \<longleftrightarrow> plain_mask s \<and> plain_mask t"
  by (auto simp: plain_mask_def)

lemma mask_tokens_plain: "plain_mask s \<Longrightarrow> mask_tokens (s @ m) = map Lit s @ mask_tokens m"
  by (induction s) (auto simp: escaped_def lit_char_def lit_rest_def)

lemma glob_Lits: "glob p t \<Longrightarrow> glob (map Lit s @ p) (s @ t)"
  by (induction s) auto

lemma glob_Star_skip: "glob p t \<Longrightarrow> glob (Star # p) (s @ t)"
  by (induction s) (cases t; auto)+

lemma mask_star: "match m t = Matched \<Longrightarrow> match (CHR ''*'' # m) (s @ t) = Matched"
  by (simp add: match_glob glob_Star_skip)

lemma mask_plain: "plain_mask s \<Longrightarrow> match m t = Matched \<Longrightarrow> match (s @ m) (s @ t) = Matched"
  by (simp add: match_glob mask_tokens_plain glob_Lits)

lemma mask_whole: "plain_mask s \<Longrightarrow> match s s = Matched"
  using mask_plain [of s "[]" "[]"] by (simp add: match_glob)

lemma before_last_dot_split:
  "CHR ''.'' \<in> set h \<Longrightarrow> \<exists>r. h = before_last_dot h @ CHR ''.'' # r"
proof -
  assume "CHR ''.'' \<in> set h"
  then have ne: "dropWhile (\<lambda>c. c \<noteq> CHR ''.'') (rev h) \<noteq> []" by simp
  then obtain r where d: "dropWhile (\<lambda>c. c \<noteq> CHR ''.'') (rev h) = CHR ''.'' # r"
    using hd_dropWhile [OF ne] by (cases "dropWhile (\<lambda>c. c \<noteq> CHR ''.'') (rev h)") auto
  have "rev h = takeWhile (\<lambda>c. c \<noteq> CHR ''.'') (rev h) @ CHR ''.'' # r"
    using takeWhile_dropWhile_id [of "\<lambda>c. c \<noteq> CHR ''.''" "rev h"] by (simp add: d)
  then have "h = rev r @ CHR ''.'' # rev (takeWhile (\<lambda>c. c \<noteq> CHR ''.'') (rev h))"
    by (metis append.assoc append_Cons append_Nil rev.simps(2) rev_append rev_rev_ident)
  then show ?thesis by (auto simp: before_last_dot_def d)
qed

text \<open>The user part and the host part of a mask, against the ident and the host.\<close>

lemma mask_username_matches:
  assumes "mask_username u = Some uname" "length u < 63" "ascii_str u" "plain_mask u"
    "match m t = Matched"
  shows "match (uname @ m) (u @ t) = Matched"
proof (cases u)
  case Nil
  then show ?thesis
    using assms by (auto simp: mask_username_def USERNAMELEN_def safe_strcpy_ascii mask_star [of m t "[]", simplified])
next
  case (Cons c v)
  have copy: "safe_strcpy v 63 = Some v" "safe_strcpy u 63 = Some u" "safe_strcpy u 64 = Some u"
    using assms(2,3) by (simp_all add: safe_strcpy_ascii Cons)
  have "uname \<in> {CHR ''*'' # v, CHR ''*'' # u, u}"
    using assms(1) copy by (auto simp: mask_username_def Cons split: if_splits)
  then show ?thesis
    using mask_star [OF mask_plain [of v m t], of "[c]"] mask_star [OF mask_plain [of u m t], of "[]"]
      mask_plain [of u m t] assms(4,5)
    by (auto simp: Cons)
qed

lemma host_part_matches:
  assumes "plain_mask h" "ip \<Longrightarrow> CHR ''.'' \<in> set h"
    "domain = (case strchr h (CHR ''.'') of None \<Rightarrow> h | Some d \<Rightarrow> d)"
  shows "match (if ip then before_last_dot h @ ''.*'' else CHR ''*'' # domain) h = Matched"
proof (cases ip)
  case True
  then obtain r where r: "h = before_last_dot h @ CHR ''.'' # r"
    using before_last_dot_split assms(2) by blast
  have "plain_mask (before_last_dot h @ ''.'')" using assms(1) by (subst (asm) r) simp
  from mask_plain [OF this mask_star [OF mask_whole [of "[]"], of r]]
  show ?thesis using True by (subst (2) r) simp
next
  case False
  have "\<exists>p. h = p @ domain"
    using strchr_Some_split [of "CHR ''.''" h] assms(3) by (auto split: option.split)
  then obtain p where p: "h = p @ domain" ..
  then show ?thesis using mask_star [OF mask_whole [of domain], of p] assms(1) False by simp
qed

text \<open>C24: The mask that \<open>/ban\<close>, \<open>/quiet\<close> and \<open>/kickban\<close> make for a user matches that user, for
  every type of mask: \<open>match\<close> accepts \<open>nick!ident@host\<close>, when the ident has less than 63 and
  the host less than 128 characters and neither holds a character with a meaning in masks.
\<close>

theorem ban_mask_matches:
  assumes "user_mask ip_test ty (u @ ''@'' @ h) = Some (Some m)" "length u < 63" "length h < 128"
    "ascii_str u" "ascii_str h" "plain_mask u" "plain_mask h" "CHR ''@'' \<notin> set u"
  shows "match m (nick @ ''!'' @ u @ ''@'' @ h) = Matched"
proof -
  have at: "strchr (u @ CHR ''@'' # h) (CHR ''@'') = Some (CHR ''@'' # h)" "upto_chr (u @ CHR ''@'' # h) (CHR ''@'') = u"
    using assms(8) by (induction u) (auto simp: upto_chr_def)
  obtain uname where uname: "mask_username u = Some uname"
    using assms(1) by (auto simp: user_mask_def at split: option.splits)
  have copy: "safe_strcpy h 128 = Some h" using assms(3,5) by (simp add: safe_strcpy_ascii)
  define domain where "domain = (case strchr h (CHR ''.'') of None \<Rightarrow> h | Some d \<Rightarrow> d)"
  let ?ip = "ip_test h"
  have ip: "?ip \<Longrightarrow> CHR ''.'' \<in> set h" and m: "m = host_mask ?ip ty uname h domain"
    using assms(1) by (auto simp: user_mask_def at uname copy domain_def Let_def split: if_splits)
  note host = host_part_matches [OF assms(7) ip domain_def] mask_whole [OF assms(7)]
  have user: "match (''*!'' @ un @ ''@'' @ hm) (nick @ ''!'' @ u @ ''@'' @ h) = Matched"
    if "match (un @ ''@'' @ hm) (u @ ''@'' @ h) = Matched" for un hm
    using mask_star [OF mask_plain [of "''!''", OF _ that], of nick] by simp
  have known: "match (uname @ ''@'' @ hm) (u @ ''@'' @ h) = Matched" if "match hm h = Matched" for hm
    by (rule mask_username_matches [OF uname assms(2,4,6) mask_plain [OF _ that]]) simp
  have any: "match (''*'' @ ''@'' @ hm) (u @ ''@'' @ h) = Matched" if "match hm h = Matched" for hm
    using mask_star [OF mask_plain [of "''@''", OF _ that], of u] by simp
  show ?thesis
    using user [OF any [OF host(1)]] user [OF any [OF host(2)]] user [OF known [OF host(1)]] user [OF known [OF host(2)]]
    by (auto simp: m host_mask_def)
qed

theorem ban_mask_matches_witness:
  "user_mask (\<lambda>_. False) 2 ''~joe@pc.example.org'' = Some (Some ''*!*joe@*.example.org'') \<and>
   match ''*!*joe@*.example.org'' ''nick!~joe@pc.example.org'' = Matched"
proof -
  have mask: "user_mask (\<lambda>_. False) 2 ''~joe@pc.example.org'' = Some (Some ''*!*joe@*.example.org'')"
    by code_simp
  show ?thesis
    using ban_mask_matches [of "\<lambda>_. False" 2 "''~joe''" "''pc.example.org''" "''*!*joe@*.example.org''" "''nick''"] mask
    by (simp add: ascii_def uchar_def)
qed

subsection \<open>Modes of many users\<close>

lemma foreach_snoc: "foreach_elems (\<lambda>a l. (a # l, True)) xs l = rev xs @ l"
  by (induction xs arbitrary: l) auto

lemma users_of_elems:
  assumes "ul_inv serv (w_mem (pr_w (cl_st c)), cl_sess c i)"
  shows "users_of c i = map (user_at (w_mem (pr_w (cl_st c)))) (sess_elems (cl_sess c i))"
  using assms
  by (auto simp: users_of_def tree_foreach_def sess_elems_def foreach_snoc ul_inv_def tree_wf_def split: option.splits)

lemma mass_modes_fits:
  assumes "ul_inv serv (w_mem (pr_w (cl_st c)), cl_sess c i)"
    and "int (length (filter sel (users_of c i))) \<le> room (cl_sess c i)"
  shows "mass_modes sel room sign mode e i word word_eol c =
    okc (send_modes i (map u_nick (filter sel (users_of c i))) sign mode c)"
  using assms(2) by (simp add: mass_modes_def Let_def)

lemma length_filter_conj: "length (filter (\<lambda>x. P x \<and> Q x) xs) \<le> length (filter P xs)"
  by (induction xs) auto

lemma length_filter_compl: "length (filter (\<lambda>x. \<not> P x) xs) + length (filter P xs) = length xs"
  by (induction xs) auto

text \<open>C25: The arrays of nicks that \<open>/mdeop\<close>, \<open>/mdehop\<close>, \<open>/mop\<close> and \<open>/mhop\<close> allocate from the
  counters of the channel are large enough, and the commands send the modes of exactly the
  users they are for: when the user list satisfies its invariant, none writes behind its array.
\<close>

theorem mass_modes_in_bounds:
  assumes "ul_inv serv (w_mem (pr_w (cl_st c)), cl_sess c i)"
  defines "users \<equiv> map (user_at (w_mem (pr_w (cl_st c)))) (sess_elems (cl_sess c i))"
  shows "cmd_mdeop e i word word_eol c =
      Some (send_modes i (map u_nick (filter (\<lambda>u. u_op u \<and> \<not> u_me u) users)) (CHR ''-'') (CHR ''o'') c, Cmd_True) \<and>
    cmd_mdehop e i word word_eol c =
      Some (send_modes i (map u_nick (filter (\<lambda>u. u_hop u \<and> \<not> u_me u) users)) (CHR ''-'') (CHR ''h'') c, Cmd_True) \<and>
    cmd_mop e i word word_eol c =
      Some (send_modes i (map u_nick (filter (\<lambda>u. \<not> u_op u) users)) (CHR ''+'') (CHR ''o'') c, Cmd_True) \<and>
    cmd_mhop e i word word_eol c =
      Some (send_modes i (map u_nick (filter (\<lambda>u. \<not> u_hop u) users)) (CHR ''+'') (CHR ''h'') c, Cmd_True)"
proof -
  have users: "users_of c i = users" using users_of_elems [OF assms(1)] by (simp add: users_def)
  have counts: "ops (cl_sess c i) = int (length (filter u_op users))"
      "hops (cl_sess c i) = int (length (filter u_hop users))" "total (cl_sess c i) = int (length users)"
    using assms(1) by (simp_all add: ul_inv_def counts_ok_def cnt_def users_def filter_map o_def)
  note fits = mass_modes_fits [OF assms(1), unfolded users okc_def]
  have not_ops: "int (length (filter (\<lambda>u. \<not> u_op u) users)) \<le> total (cl_sess c i) - ops (cl_sess c i)"
    and not_hops: "int (length (filter (\<lambda>u. \<not> u_hop u) users)) \<le> total (cl_sess c i) - hops (cl_sess c i)"
    using length_filter_compl [of u_op users] length_filter_compl [of u_hop users] by (simp_all add: counts)
  show ?thesis
    unfolding cmd_mdeop_def cmd_mdehop_def cmd_mop_def cmd_mhop_def
    by (intro conjI fits) (simp_all add: counts length_filter_conj not_ops [unfolded counts] not_hops [unfolded counts])
qed

lemma demo_client_inv: "ul_inv demo_server (w_mem (pr_w (cl_st demo_client)), cl_sess demo_client 0)"
  using demo_channel_inv
  by (simp add: demo_client_def demo_proto_def demo_world_def cl_sess_def sess_at_def)

theorem mass_modes_in_bounds_witness:
  "cmd_mdeop demo_ienv 0 demo_words demo_words demo_client =
     Some (send_modes 0 [''bob''] (CHR ''-'') (CHR ''o'') demo_client, Cmd_True)"
proof -
  have "map (user_at (w_mem (pr_w (cl_st demo_client)))) (sess_elems (cl_sess demo_client 0)) = [demo_bob]"
    by (simp add: demo_client_def demo_proto_def demo_world_def cl_sess_def sess_at_def demo_simps)
  with mass_modes_in_bounds [OF demo_client_inv, of demo_ienv demo_words demo_words] show ?thesis
    by (simp add: demo_bob_def new_user_def)
qed

subsection \<open>Ignoring and no longer ignoring\<close>

definition ignored :: "client \<Rightarrow> ignore list" where
  "ignored c = ignore_list (pr_ig (cl_st c))"

lemma pr_ig_frame [simp]: "pr_ig (cl_st (on_st (on_world f) c)) = pr_ig (cl_st c)"
  by (simp add: on_st_def on_world_def)

lemma ignored_frame [simp]:
  "ignored (on_st (on_world f) c) = ignored c"
  by (simp add: ignored_def)

lemma ig_words_frame [simp]:
  "pr_ig (cl_st (foldl (\<lambda>c w. case ignore_word w of Inl msg \<Rightarrow> print_text i msg c | Inr _ \<Rightarrow> c) c ws)) = pr_ig (cl_st c)"
  by (induction ws arbitrary: c) (auto simp: print_text_def split: sum.split)

lemma show_sent_frame [simp]: "pr_ig (cl_st (show_sent event nick t c)) = pr_ig (cl_st c)"
  by (simp add: show_sent_def)

lemma on_ig_state [simp]: "pr_ig (cl_st (fst (on_ig f c))) = fst (f (pr_ig (cl_st c)))"
  by (simp add: on_ig_def on_st_def split_beta Let_def)

lemma full_mask_nick:
  "set specials \<inter> set nick = {} \<Longrightarrow> full_mask specials nick = take 4095 (nick @ ''!*@*'')"
  by (auto simp: full_mask_def)

lemma ignore_add_del:
  assumes "ignore_exists ig msk = None" "\<forall>e \<in> set (ignore_list ig). ig_addr e < ig_next ig"
  shows "ignore_list (fst (ignore_del (fst (ignore_add ig msk ty ow)) (Inl msk))) = ignore_list ig"
proof -
  have "filter (\<lambda>e. ig_addr e \<noteq> ig_next ig) (ignore_list ig) = ignore_list ig"
    using assms(2) by (fastforce simp: filter_id_conv)
  then show ?thesis
    using assms(1) by (simp add: ignore_add_def ignore_del_def ignore_exists_def ig_emit_def)
qed

text \<open>\<open>/unignore\<close> takes back \<open>/ignore\<close> for a nick: when the mask of the nick was not on the list,
  the list after both is the one before.
\<close>

theorem unignore_undoes_ignore:
  assumes "word 2 = nick" "nick \<noteq> []" "set ''!@?*'' \<inter> set nick = {}" "word 3 \<noteq> []"
    and "ignore_type (word_args (\<lambda>k. word (k + 1))) \<noteq> 0" "word' 2 = nick"
    and "ig_inv (pr_ig (cl_st c))" "ignore_exists (pr_ig (cl_st c)) (take 4095 (nick @ ''!*@*'')) = None"
  shows "\<exists>d d'. cmd_ignore e i word eol c = Some (d, Cmd_True) \<and> cmd_unignore e i word' eol' d = Some (d', Cmd_True) \<and>
    ignored d' = ignored c"
proof -
  let ?msk = "take 4095 (nick @ ''!*@*'')"
  let ?ty = "ignore_type (word_args (\<lambda>k. word (k + 1)))"
  have masks: "full_mask ''!@?*'' nick = ?msk" "full_mask ''?*'' nick = ?msk"
    using assms(3) full_mask_nick [of "''!@?*''" nick] full_mask_nick [of "''?*''" nick] by auto
  obtain d where d: "cmd_ignore e i word eol c = Some (d, Cmd_True)"
      "pr_ig (cl_st d) = fst (ignore_add (pr_ig (cl_st c)) ?msk ?ty True)"
    using assms(1,2,4,5) that by (auto simp: cmd_ignore_def masks okc_def Let_def split_beta)
  have "\<exists>d'. cmd_unignore e i word' eol' d = Some (d', Cmd_True) \<and>
      pr_ig (cl_st d') = fst (ignore_del (pr_ig (cl_st d)) (Inl ?msk))"
    using assms(2,6) by (auto simp: cmd_unignore_def masks okc_def Let_def split_beta)
  then show ?thesis
    using d ignore_add_del [OF assms(8), of ?ty True] assms(7) by (auto simp: ignored_def ig_inv_def)
qed

theorem unignore_undoes_ignore_witness:
  "\<exists>d d'. cmd_ignore demo_ienv 0 (slot [''ignore'', ''troll'', ''PRIV'', ''CHAN'']) (slot []) demo_client = Some (d, Cmd_True) \<and>
     cmd_unignore demo_ienv 0 (slot [''unignore'', ''troll'']) (slot []) d = Some (d', Cmd_True) \<and>
     ignored d' = ignored demo_client"
proof (rule unignore_undoes_ignore)
  show "ignore_type (word_args (\<lambda>k. slot [''ignore'', ''troll'', ''PRIV'', ''CHAN''] (k + 1))) \<noteq> 0"
    by code_simp
  show "ig_inv (pr_ig (cl_st demo_client))"
    by (simp add: demo_client_def demo_proto_def ig_inv_def ig_init_def)
  show "ignore_exists (pr_ig (cl_st demo_client)) (take 4095 (''troll'' @ ''!*@*'')) = None"
    by (simp add: demo_client_def demo_proto_def ignore_exists_def ig_init_def)
qed (simp_all add: slot_def)

text \<open>
  For a full mask without wildcards it does not: \<open>/unignore\<close> does not take the \<open>!\<close> and the \<open>@\<close>
  for a sign of a mask, and looks for another one.
\<close>

lemma unignore_misses_full_mask:
  "full_mask ''!@?*'' ''a!b@c'' = ''a!b@c''" "full_mask ''?*'' ''a!b@c'' = ''a!b@c!*@*''"
  by code_simp+

subsection \<open>Lines that are not what they look like\<close>

text \<open>
  The codes of a line are replaced after it was split: every \<open>word_eol\<close> behind a code starts too
  late by the bytes the code has lost.
\<close>

lemma kick_reason_loses_a_character:
  "map_option (\<lambda>(new, word, word_eol). (new, word_eol 2, word_eol 3)) (command_words demo_ienv ''kick joe %Bout'' True) =
     Some (''kick joe '' @ CHR 0x02 # ''out'', ''joe '' @ CHR 0x02 # ''out'', CHR 0x02 # ''out'')"
  "map_option (\<lambda>(new, word, word_eol). (word_eol 3, word_eol 4)) (command_words demo_ienv ''kick joe %Bget out'' True) =
     Some (CHR 0x02 # ''get out'', ''ut'')"
  by code_simp+

text \<open>
  The variables of a user command: a \<open>&\<close> that begins none is copied without a look at the size of
  the buffer, here one of 5 bytes.
\<close>

lemma auto_insert_overflow:
  "auto_insert (\<lambda>_. None) 5 ''&&&&&&'' (Some (slot [], slot [])) (\<lambda>_. None) = None"
  "auto_insert (\<lambda>_. None) 5 ''aaaaaa'' (Some (slot [], slot [])) (\<lambda>_. None) = Some (Too_long ''aaa'' False)"
  by code_simp+

lemma text_lines_plain: "CHR 0x0A \<notin> set t \<Longrightarrow> CHR 0x0D \<notin> set t \<Longrightarrow> text_lines t = [t]"
  by (induction t) auto

text \<open>A text that begins with a line feed and has one line behind it is lost when the server
  takes multiline messages: \<open>handle_multiline\<close> counts one line, and sends the first one, which is
  empty.
\<close>

theorem multiline_paste_lost:
  assumes "have_multiline (pr_flags (cl_st c))" "multiline_max_lines (cl_serv c) > 1"
    "t \<noteq> []" "CHR 0x0A \<notin> set t" "CHR 0x0D \<notin> set t" "cur t \<noteq> command_char e"
  shows "handle_multiline e i (CHR 0x0A # t) hist nocommand c = Some c"
proof -
  have ls: "text_lines (CHR 0x0A # t) = [[], t]" using text_lines_plain assms(4,5) by simp
  have "all_text (command_char e) [[], t]" using assms(6) by (simp add: all_text_def)
  moreover have "length (plain_lines (command_char e) [[], t]) < 2"
    by (simp add: plain_lines_def)
  ultimately show ?thesis
    using assms(1,2) by (simp add: handle_multiline_def ls handle_user_input_def moved_def Let_def del: text_lines.simps)
qed

theorem multiline_paste_lost_witness:
  "handle_multiline demo_ienv 0 (CHR 0x0A # ''hello'') True False
     (on_st (\<lambda>st. st\<lparr>pr_flags := no_flags\<lparr>have_multiline := True\<rparr>,
        pr_w := (pr_w st)\<lparr>w_serv := demo_server\<lparr>multiline_max_lines := 24\<rparr>\<rparr>\<rparr>) demo_client) =
   Some (on_st (\<lambda>st. st\<lparr>pr_flags := no_flags\<lparr>have_multiline := True\<rparr>,
        pr_w := (pr_w st)\<lparr>w_serv := demo_server\<lparr>multiline_max_lines := 24\<rparr>\<rparr>\<rparr>) demo_client)"
  by (rule multiline_paste_lost) (simp_all add: demo_ienv_def on_st_def cl_serv_def pr_serv_def)

end
