(* ===== verification/ChanOpt.thy ===== *)
theory ChanOpt
  imports Words
begin

text \<open>
  The settings of single channels, \<open>src/common/chanopt.c\<close>: the \<open>/CHANOPT\<close> command, the list of
  the settings in memory, and the file \<open>chanopt.conf\<close>.

  A struct is seen through its first eight bytes, which the table \<open>chanopt\<close> names: the offset of
  an option is its position in the table, in \<open>struct session\<close> as in \<open>chanopt_in_memory\<close>. The
  file is a text, \<open>None\<close> when it cannot be opened. Results that are \<open>None\<close> are a failed
  assertion or a read behind a string.
\<close>

type_synonym opts = "8 word list"

definition SET_OFF :: "8 word" where "SET_OFF = 0"
definition SET_ON :: "8 word" where "SET_ON = 1"
definition SET_DEFAULT :: "8 word" where "SET_DEFAULT = 2"

lemmas set_defs = SET_OFF_def SET_ON_def SET_DEFAULT_def

definition chanopt :: "(string \<times> string option) list" where
  "chanopt =
     [(''alert_balloon'', None), (''alert_beep'', Some ''BEEP''), (''alert_taskbar'', None), (''alert_tray'', Some ''TRAY''),
      (''text_hidejoinpart'', Some ''CONFMODE''), (''text_logging'', None), (''text_scrollback'', None),
      (''text_strip'', None)]"

record chanopt_in_memory =
  co_opts :: opts
  co_network :: "string option"
  co_channel :: string

record chanopt_state =
  chanopt_list :: "chanopt_in_memory list"
  chanopt_open :: bool
  chanopt_changed :: bool
  chanopt_conf :: "string option"

text \<open>What these operations see of a session: \<open>o_network\<close> is \<open>server_get_network (serv, FALSE)\<close>.\<close>

record opt_session =
  o_opts :: opts
  session_name :: string
  o_network :: "string option"

definition chanopt_value :: "8 word \<Rightarrow> string option" where
  "chanopt_value v =
     (if v = SET_OFF then Some ''OFF'' else if v = SET_ON then Some ''ON''
      else if v = SET_DEFAULT then Some ''{unset}'' else None)"

definition str_to_chanopt :: "string \<Rightarrow> 8 word" where
  "str_to_chanopt s =
     (if g_ascii_strcasecmp s ''ON'' = 0 \<or> s = ''1'' then SET_ON
      else if g_ascii_strcasecmp s ''OFF'' = 0 \<or> s = ''0'' then SET_OFF
      else SET_DEFAULT)"

definition chanopt_is_set :: "32 word \<Rightarrow> 8 word \<Rightarrow> 32 word" where
  "chanopt_is_set global per_chan_setting =
     (if per_chan_setting = SET_ON \<or> per_chan_setting = SET_OFF then ucast per_chan_setting else global)"

subsection \<open>The command\<close>

text \<open>The line that shows an option, and whether a mask selects it.\<close>

definition option_line :: "string \<Rightarrow> string \<Rightarrow> string" where
  "option_line name val =
     name @ CHR 0x03 # ''2'' @ replicate (20 - length name) (CHR ''.'') @ CHR 0x03 # ''3:'' @ CHR 0x0F # '' '' @ val"

definition option_selected :: "string \<Rightarrow> string \<times> string option \<Rightarrow> bool option" where
  "option_selected msk entry =
     (if msk = [] then Some True
      else case match msk (fst entry) of
        Matched \<Rightarrow> Some True
      | Overread \<Rightarrow> None
      | Mismatch \<Rightarrow>
          (case snd entry of
             None \<Rightarrow> Some False
           | Some alias \<Rightarrow>
               (case match msk alias of Matched \<Rightarrow> Some True | Overread \<Rightarrow> None | Mismatch \<Rightarrow> Some False)))"

text \<open>The options from the \<open>i\<close>-th on, with the lines shown.\<close>

fun option_loop ::
    "string \<Rightarrow> 8 word option \<Rightarrow> bool \<Rightarrow> nat \<Rightarrow> (string \<times> string option) list \<Rightarrow> opts \<Rightarrow> (opts \<times> bool \<times> string list) option" where
  "option_loop msk newval quiet i [] opts = Some (opts, False, [])"
| "option_loop msk newval quiet i (entry # table) opts =
     (case option_selected msk entry of
        None \<Rightarrow> None
      | Some False \<Rightarrow> option_loop msk newval quiet (i + 1) table opts
      | Some True \<Rightarrow>
          let opts = (case newval of None \<Rightarrow> opts | Some v \<Rightarrow> opts[i := v]) in
          (case (if quiet then Some [] else map_option (\<lambda>v. [option_line (fst entry) v]) (chanopt_value (opts ! i))) of
             None \<Rightarrow> None
           | Some shown \<Rightarrow>
               map_option (\<lambda>(opts, changed, out). (opts, changed \<or> newval \<noteq> None, shown @ out))
                 (option_loop msk newval quiet (i + 1) table opts)))"

definition chanopt_command ::
    "opt_session \<Rightarrow> (nat \<Rightarrow> string) \<Rightarrow> string option \<Rightarrow> chanopt_state \<Rightarrow> (opt_session \<times> chanopt_state \<times> string list) option" where
  "chanopt_command sess word network_name st =
     (let quiet = (word 2 = ''-quiet''); offset = (if quiet then 3 else 2);
          newval = (if word (offset + 1) \<noteq> [] then Some (str_to_chanopt (word (offset + 1))) else None);
          header = (if quiet then []
                    else [[CHR 0x02] @ ''Network'' @ [CHR 0x02] @ '': '' @
                          (case network_name of None \<Rightarrow> ''<none>'' | Some n \<Rightarrow> n) @ '' '' @ [CHR 0x02] @ ''Channel'' @
                          [CHR 0x02] @ '': '' @ (if session_name sess \<noteq> [] then session_name sess else ''<none>'')])
      in map_option
           (\<lambda>(opts, changed, out). (sess\<lparr>o_opts := opts\<rparr>, st\<lparr>chanopt_changed := (chanopt_changed st \<or> changed)\<rparr>, header @ out))
           (option_loop (word offset) newval quiet 0 chanopt (o_opts sess)))"

subsection \<open>The list in memory\<close>

text \<open>\<open>g_ascii_strcasecmp\<close> of GLib returns 0 when one of its strings is NULL.\<close>

definition strcasecmp_null :: "string option \<Rightarrow> string option \<Rightarrow> int" where
  "strcasecmp_null a b = (case (a, b) of (Some s, Some t) \<Rightarrow> g_ascii_strcasecmp s t | _ \<Rightarrow> 0)"

definition same_channel :: "string option \<Rightarrow> string \<Rightarrow> chanopt_in_memory \<Rightarrow> bool" where
  "same_channel network chan co \<longleftrightarrow>
     g_ascii_strcasecmp (co_channel co) chan = 0 \<and> strcasecmp_null (co_network co) network = 0"

definition default_opts :: opts where
  "default_opts = replicate (length chanopt) SET_DEFAULT"

text \<open>
  An entry is known by the number of entries behind it, which stays when another is put in
  front.
\<close>

definition chanopt_find :: "string option \<Rightarrow> string \<Rightarrow> bool \<Rightarrow> chanopt_state \<Rightarrow> chanopt_state \<times> nat option" where
  "chanopt_find network chan add_new st =
     (let entries = chanopt_list st in
      case dropWhile (\<lambda>co. \<not> same_channel network chan co) entries of
        co # behind \<Rightarrow> (st, Some (length behind))
      | [] \<Rightarrow>
          if \<not> add_new then (st, None)
          else (st\<lparr>chanopt_list := \<lparr>co_opts = default_opts, co_network = network, co_channel = chan\<rparr> # entries,
                   chanopt_changed := True\<rparr>, Some (length entries)))"

definition upd_entry :: "nat \<Rightarrow> (opts \<Rightarrow> opts) \<Rightarrow> chanopt_state \<Rightarrow> chanopt_state" where
  "upd_entry k f st =
     (let entries = chanopt_list st; p = length entries - 1 - k; co = entries ! p
      in st\<lparr>chanopt_list := entries[p := co\<lparr>co_opts := f (co_opts co)\<rparr>]\<rparr>)"

definition entry_opts :: "chanopt_state \<Rightarrow> nat \<Rightarrow> opts" where
  "entry_opts st k = co_opts (chanopt_list st ! (length (chanopt_list st) - 1 - k))"

definition chanopt_add_opt :: "string \<Rightarrow> 8 word \<Rightarrow> opts \<Rightarrow> opts" where
  "chanopt_add_opt var new_value opts =
     map2 (\<lambda>entry v. if fst entry = var then new_value else v) chanopt opts"

subsection \<open>The file\<close>

text \<open>
  \<open>waitline\<close> of \<open>src/common/util.c\<close> on a file, with the file behind the line: a line ends at a
  line feed, which is dropped, or with the last byte of the buffer, which is dropped too; what
  is left of a file without a line feed is no line.
\<close>

fun waitline :: "nat \<Rightarrow> string \<Rightarrow> (string \<times> string) option" where
  "waitline bufsize [] = None"
| "waitline bufsize (ch # s) =
     (if ch = CHR 0x0A \<or> bufsize = 1 then Some ([], s)
      else map_option (\<lambda>(line, rest). (ch # line, rest)) (waitline (bufsize - 1) s))"

lemma waitline_shorter: "waitline n s = Some (l, r) \<Longrightarrow> length r < length s"
  by (induction n s arbitrary: l r rule: waitline.induct) (fastforce split: if_splits)+

function file_lines :: "nat \<Rightarrow> string \<Rightarrow> string list" where
  "file_lines bufsize s =
     (case waitline bufsize s of None \<Rightarrow> [] | Some (line, rest) \<Rightarrow> line # file_lines bufsize rest)"
  by pat_completeness auto
termination by (relation "measure (\<lambda>(n, s). length s)") (auto dest: waitline_shorter)

declare file_lines.simps [simp del]

text \<open>
  A line of the file: \<open>eq + 2\<close> skips the equals sign and one character, which must be there.
  The state is the list with \<open>network\<close> and \<open>current\<close>.
\<close>

type_synonym conf_state = "chanopt_state \<times> string option \<times> nat option"

definition conf_line :: "string \<Rightarrow> conf_state \<Rightarrow> conf_state option" where
  "conf_line line cs =
     (let (st, network, current) = cs; buf = upto_chr line NUL in
      case strchr buf (CHR ''='') of
        None \<Rightarrow> Some cs
      | Some eq \<Rightarrow>
          let name = upto_chr buf (CHR ''='');
              name = (if name \<noteq> [] \<and> last name = CHR '' '' then butlast name else name)
          in if name = ''network'' then if length eq < 2 then None else Some (st, Some (drop 2 eq), current)
             else if name = ''channel'' then
               if length eq < 2 then None
               else let (st, k) = chanopt_find network (drop 2 eq) True st in Some (st\<lparr>chanopt_changed := False\<rparr>, network, k)
             else
               (case current of
                  None \<Rightarrow> Some cs
                | Some k \<Rightarrow>
                    if length eq < 2 then None
                    else Some (upd_entry k (chanopt_add_opt name (str_to_chanopt (drop 2 eq))) st, network, current)))"

fun conf_lines :: "string list \<Rightarrow> conf_state \<Rightarrow> conf_state option" where
  "conf_lines [] cs = Some cs"
| "conf_lines (l # ls) cs = (case conf_line l cs of None \<Rightarrow> None | Some cs \<Rightarrow> conf_lines ls cs)"

definition chanopt_load_all :: "chanopt_state \<Rightarrow> chanopt_state option" where
  "chanopt_load_all st =
     (case chanopt_conf st of
        None \<Rightarrow> Some st
      | Some file \<Rightarrow> map_option fst (conf_lines (file_lines 256 file) (st, None, None)))"

definition chanopt_load :: "opt_session \<Rightarrow> chanopt_state \<Rightarrow> (opt_session \<times> chanopt_state) option" where
  "chanopt_load sess st =
     (if session_name sess = [] then Some (sess, st)
      else case o_network sess of
        None \<Rightarrow> Some (sess, st)
      | Some network \<Rightarrow>
          (case (if chanopt_open st then Some st else chanopt_load_all (st\<lparr>chanopt_open := True\<rparr>)) of
             None \<Rightarrow> None
           | Some st \<Rightarrow>
               let (st, k) = chanopt_find (Some network) (session_name sess) False st
               in Some (case k of None \<Rightarrow> sess | Some k \<Rightarrow> sess\<lparr>o_opts := entry_opts st k\<rparr>, st)))"

definition chanopt_save :: "opt_session \<Rightarrow> chanopt_state \<Rightarrow> chanopt_state" where
  "chanopt_save sess st =
     (if session_name sess = [] then st
      else case o_network sess of
        None \<Rightarrow> st
      | Some network \<Rightarrow>
          (case chanopt_find (Some network) (session_name sess) True st of
             (st, Some k) \<Rightarrow>
               if entry_opts st k \<noteq> o_opts sess
               then (upd_entry k (\<lambda>_. o_opts sess) st)\<lparr>chanopt_changed := True\<rparr> else st
           | (st, None) \<Rightarrow> st))"

definition chanopt_save_one_channel :: "chanopt_in_memory \<Rightarrow> string" where
  "chanopt_save_one_channel co =
     take 255 (''network = '' @ (case co_network co of None \<Rightarrow> ''(null)'' | Some n \<Rightarrow> n) @ [CHR 0x0A]) @
     take 255 (''channel = '' @ co_channel co @ [CHR 0x0A]) @
     concat (map2 (\<lambda>entry val. if val \<noteq> SET_DEFAULT
                               then take 255 (fst entry @ '' = '' @ show_nat (unat val) @ [CHR 0x0A]) else [])
               chanopt (co_opts co))"

definition must_save :: "chanopt_in_memory \<Rightarrow> bool" where
  "must_save co \<longleftrightarrow> (\<exists>v \<in> set (co_opts co). v \<noteq> SET_DEFAULT)"

text \<open>The file, with an empty line between two channels; \<open>can_write\<close>: it can be opened.\<close>

definition chanopt_file :: "chanopt_in_memory list \<Rightarrow> string" where
  "chanopt_file entries = join_with (CHR 0x0A) (map chanopt_save_one_channel (filter must_save entries))"

definition chanopt_save_all :: "bool \<Rightarrow> bool \<Rightarrow> chanopt_state \<Rightarrow> chanopt_state" where
  "chanopt_save_all can_write flush st =
     (if chanopt_list st = [] \<or> \<not> chanopt_changed st \<or> \<not> can_write then st
      else st\<lparr>chanopt_conf := Some (chanopt_file (chanopt_list st)),
              chanopt_list := (if flush then [] else chanopt_list st), chanopt_open := False, chanopt_changed := False\<rparr>)"

text \<open>\<open>/CHANOPT\<close> as \<open>cmd_chanopt\<close> of \<open>src/common/outbound.c\<close> runs it.\<close>

definition cmd_chanopt ::
    "bool \<Rightarrow> opt_session \<Rightarrow> (nat \<Rightarrow> string) \<Rightarrow> string option \<Rightarrow> chanopt_state \<Rightarrow> (opt_session \<times> chanopt_state \<times> string list) option" where
  "cmd_chanopt can_write sess word network_name st =
     map_option (\<lambda>(sess, st, out). (sess, chanopt_save_all can_write False st, out))
       (chanopt_command sess word network_name st)"

end
