(* ===== verification/TextEvents.thy ===== *)
theory TextEvents
  imports InputText ChanOpt
begin

text \<open>
  The texts of events, \<open>src/common/text.c\<close>: \<open>pevt_build_string\<close> compiles a text the user can
  edit to a string of codes, and \<open>format_event\<close> runs the codes on the arguments of an event.
  \<open>None\<close> is a write behind a buffer or a read behind the codes.

  A code is 0 with the length of a literal (an \<open>int\<close>, lowest byte first) and its bytes, 1 with
  the number of an argument, 2 for the end, or 3 for a tab.
\<close>

subsection \<open>Compiling a text\<close>

definition byte :: "nat \<Rightarrow> char" where
  "byte n = char_of (n mod 256)"

definition int_bytes :: "nat \<Rightarrow> string" where
  "int_bytes n = [byte n, byte (n div 256), byte (n div 65536), byte (n div 16777216)]"

definition int_of_bytes :: "string \<Rightarrow> nat" where
  "int_of_bytes s = uchar (s ! 0) + 256 * uchar (s ! 1) + 65536 * uchar (s ! 2) + 16777216 * uchar (s ! 3)"

datatype pevt_error = Ends_with_dollar | Ends_in_a | A_too_large | Invalid_argument char

text \<open>A literal that has been collected, as a code.\<close>

definition literal_code :: "string \<Rightarrow> string" where
  "literal_code t = (if t = [] then [] else NUL # int_bytes (length t) @ t)"

text \<open>\<open>d -= '0'\<close> in a \<open>char\<close>, and the value of three of them.\<close>

definition minus_0 :: "char \<Rightarrow> int" where
  "minus_0 d = sint (word_of_int (schar d - 48) :: 8 word)"

definition a_value :: "char \<Rightarrow> char \<Rightarrow> char \<Rightarrow> int" where
  "a_value x y z = minus_0 x * 100 + minus_0 y * 10 + minus_0 z"

text \<open>
  The loop over the text \<open>i\<close>, with the literal \<open>t\<close> in the buffer of 4096 bytes, the codes so
  far and the largest argument. The second \<open>$\<close> of a pair is not skipped.
\<close>

function pevt_loop :: "string \<Rightarrow> string \<Rightarrow> string \<Rightarrow> int \<Rightarrow> (pevt_error + string \<times> int) option" where
  "pevt_loop [] t code mx = Some (Inr (code @ literal_code t @ [CHR 0x02], mx))"
| "pevt_loop (d # i) t code mx =
     (if d \<noteq> CHR ''$'' then
        (if length t \<ge> 4096 then None else pevt_loop i (t @ [d]) code mx)
      else if cur i = CHR ''$'' then
        (if length t \<ge> 4096 then None else pevt_loop i (t @ [CHR ''$'']) code mx)
      else if i = [] then Some (Inl Ends_with_dollar)
      else if cur i = CHR ''a'' then
        (if length i < 4 then Some (Inl Ends_in_a)
         else
           let x = a_value (i ! 1) (i ! 2) (i ! 3) in
           if x > 255 then Some (Inl A_too_large)
           else pevt_loop (drop 4 i) [byte (nat (x mod 256))] (code @ literal_code t) mx)
      else if cur i = CHR ''t'' then pevt_loop (drop 1 i) [] (code @ literal_code t @ [CHR 0x03]) mx
      else if schar (cur i) < 49 \<or> schar (cur i) > 57 then Some (Inl (Invalid_argument (cur i)))
      else
        let n = minus_0 (cur i) in
        pevt_loop (drop 1 i) [] (code @ literal_code t @ [CHR 0x01, byte (nat (n - 1))]) (max mx n))"
  by pat_completeness auto
termination by (relation "measure (\<lambda>(i, t, c, m). length i)") auto

declare pevt_loop.simps(2) [simp del]

definition pevt_build_string :: "to_utf8 \<Rightarrow> string \<Rightarrow> (pevt_error + string \<times> int) option" where
  "pevt_build_string u input = pevt_loop (check_special_chars u True input) [] [] (- 1)"

subsection \<open>Running the codes\<close>

text \<open>
  The arguments are strings of the caller, which a cut shortens for good. \<open>strip n\<close>: are the
  colours of argument \<open>n\<close> to be stripped? The room is computed in an unsigned type.
\<close>

definition arg_text :: "bool \<Rightarrow> string \<Rightarrow> string" where
  "arg_text strip ar = (if strip then strip_loop STRIP_ALL (length ar) ar 0 False else strip_hidden_attribute ar)"

definition cut_arg :: "nat \<Rightarrow> nat \<Rightarrow> string \<Rightarrow> string" where
  "cut_arg bufsize oi ar = (if oi + 4 \<le> bufsize then take (bufsize - oi - 4) ar else ar)"

text \<open>What the buffer holds at the end, as a C string.\<close>

definition event_text :: "string \<Rightarrow> string" where
  "event_text out = (let s = upto_chr (out @ [CHR 0x0A]) NUL in if cur s = CHR 0x0A then [] else s)"

function fe_loop ::
    "nat \<Rightarrow> int \<Rightarrow> (nat \<Rightarrow> bool) \<Rightarrow> (nat \<Rightarrow> string option) \<Rightarrow> string \<Rightarrow> string \<Rightarrow> string option" where
  "fe_loop bufsize numargs strip args out [] = None"
| "fe_loop bufsize numargs strip args out (d # i) =
     (if d = CHR 0x00 then
        (if length i < 4 then None
         else
           let len = int_of_bytes (take 4 i); i = drop 4 i in
           if len \<ge> 2 ^ 31 then None
           else if length out + len > bufsize then Some []
           else if length i < len then None
           else fe_loop bufsize numargs strip args (out @ take len i) (drop len i))
      else if d = CHR 0x01 then
        (case i of
           [] \<Rightarrow> None
         | a # i \<Rightarrow>
             if schar a > numargs then fe_loop bufsize numargs strip args out i
             else if schar a < 0 then None
             else
               let n = uchar a + 1 in
               (case args n of
                  None \<Rightarrow> fe_loop bufsize numargs strip args out i
                | Some ar \<Rightarrow>
                    let ar = cut_arg bufsize (length out) ar; t = arg_text (strip n) ar in
                    if length out + length t \<ge> bufsize then None
                    else fe_loop bufsize numargs strip (args(n := Some ar)) (out @ t) i))
      else if d = CHR 0x02 then (if length out + 3 > bufsize then None else Some (event_text out))
      else if d = CHR 0x03 then
        (if length out \<ge> bufsize then None else fe_loop bufsize numargs strip args (out @ [CHR 0x09]) i)
      else fe_loop bufsize numargs strip args out i)"
  by pat_completeness auto
termination by (relation "measure (\<lambda>(s, n, st, a, t, i). length i)") auto

declare fe_loop.simps(2) [simp del]

definition format_event ::
    "nat \<Rightarrow> int \<Rightarrow> (nat \<Rightarrow> bool) \<Rightarrow> (nat \<Rightarrow> string option) \<Rightarrow> string option \<Rightarrow> string option" where
  "format_event bufsize numargs strip args code =
     (case code of None \<Rightarrow> Some [] | Some i \<Rightarrow> fe_loop bufsize numargs strip args [] i)"

subsection \<open>The table of events\<close>

text \<open>
  An entry of the generated table \<open>te\<close>: its name, its \<open>XP_TE\<close> symbol, \<open>num_args\<close> (without the
  flag 128, which is \<open>te_plain\<close>: the default is not translated) and its default. \<open>gettext\<close>
  is a parameter, and \<open>None\<close> is \<open>g_error\<close>, which ends the program.
\<close>

record te_entry =
  te_name :: string
  te_symbol :: string
  te_args :: int
  te_plain :: bool
  te_def :: string

type_synonym event_texts = "string option list"

definition default_text :: "(string \<Rightarrow> string) \<Rightarrow> te_entry \<Rightarrow> string" where
  "default_text gettext e = (if te_plain e then te_def e else gettext (te_def e))"

definition pevent_load_defaults :: "(string \<Rightarrow> string) \<Rightarrow> te_entry list \<Rightarrow> event_texts" where
  "pevent_load_defaults gettext te = map (\<lambda>e. Some (default_text gettext e)) te"

definition pevent_check_all_loaded :: "(string \<Rightarrow> string) \<Rightarrow> te_entry list \<Rightarrow> event_texts \<Rightarrow> event_texts" where
  "pevent_check_all_loaded gettext te texts =
     map2 (\<lambda>e t. case t of None \<Rightarrow> Some (default_text gettext e) | Some _ \<Rightarrow> t) te texts"

text \<open>
  One event of \<open>pevent_make_pntevts\<close>: its text and its codes. When the text is wrong, the default
  is tried, and unless that fails for an event that is not translated, the default in the
  source is taken in any case.
\<close>

definition make_event :: "to_utf8 \<Rightarrow> (string \<Rightarrow> string) \<Rightarrow> te_entry \<Rightarrow> string \<Rightarrow> (string \<times> string) option" where
  "make_event u gettext e t =
     (case pevt_build_string u t of
        None \<Rightarrow> None
      | Some (Inr (code, _)) \<Rightarrow> Some (t, code)
      | Some (Inl _) \<Rightarrow>
          (case pevt_build_string u (default_text gettext e) of
             None \<Rightarrow> None
           | Some r \<Rightarrow>
               if (case r of Inl _ \<Rightarrow> True | Inr _ \<Rightarrow> False) \<and> te_plain e then None
               else
                 (case pevt_build_string u (te_def e) of
                    Some (Inr (code, _)) \<Rightarrow> Some (te_def e, code)
                  | _ \<Rightarrow> None)))"

text \<open>\<open>pevent_find\<close> goes around the table, from the entry behind \<open>i\<close> to \<open>i\<close> itself.\<close>

definition pevent_find :: "te_entry list \<Rightarrow> string \<Rightarrow> nat \<Rightarrow> nat option" where
  "pevent_find te name i =
     find (\<lambda>j. te_name (te ! j) = name) ([i + 1..<length te] @ [0..<min (i + 1) (length te)])"

subsection \<open>The file of the texts\<close>

text \<open>
  \<open>penum\<close> is \<open>None\<close> for -1. What is found between two names is given to the first of them, when it
  is known; the text of an unknown event stays for the next.
\<close>

record pevent_state =
  pe_texts :: event_texts
  pe_penum :: "nat option"
  pe_i :: nat
  pe_text :: "string option"

definition pevent_trigger_load :: "pevent_state \<Rightarrow> pevent_state" where
  "pevent_trigger_load st =
     (let texts = (case (pe_penum st, pe_text st) of
                     (Some p, Some t) \<Rightarrow> (pe_texts st)[p := Some t]
                   | _ \<Rightarrow> pe_texts st)
      in st\<lparr>pe_texts := texts, pe_text := None, pe_penum := Some 0\<rparr>)"

definition pevent_line :: "te_entry list \<Rightarrow> string \<Rightarrow> pevent_state \<Rightarrow> pevent_state" where
  "pevent_line te line st =
     (let buf = upto_chr line NUL in
      if cur buf = CHR ''#'' \<or> buf = [] then st
      else
        (case strchr buf (CHR ''='') of
           None \<Rightarrow> st
         | Some eq \<Rightarrow>
             let name = upto_chr buf (CHR ''=''); ofs = tl eq in
             if name = ''event_name'' then
               let st = (if pe_penum st \<noteq> None then pevent_trigger_load st else st) in
               (case pevent_find te ofs (pe_i st) of
                  None \<Rightarrow> st\<lparr>pe_penum := None\<rparr>
                | Some j \<Rightarrow> st\<lparr>pe_penum := Some j, pe_i := j\<rparr>)
             else if name = ''event_text'' then st\<lparr>pe_text := Some ofs\<rparr>
             else st))"

text \<open>The lines \<open>buf_get_line\<close> gives out from a position on.\<close>

function lines_from :: "string \<Rightarrow> nat \<Rightarrow> string list" where
  "lines_from ibuf pos =
     (case buf_get_line ibuf pos (length ibuf) of None \<Rightarrow> [] | Some (line, pos') \<Rightarrow> line # lines_from ibuf pos')"
  by pat_completeness auto
termination
  by (relation "measure (\<lambda>(b, pos). length b - pos)")
    (auto simp: buf_get_line_def dest!: line_end_Some split: if_splits option.splits)

declare lines_from.simps [simp del]

definition pevent_load :: "te_entry list \<Rightarrow> string \<Rightarrow> event_texts \<Rightarrow> event_texts" where
  "pevent_load te file texts =
     pe_texts (pevent_trigger_load
       (foldl (\<lambda>st l. pevent_line te l st) \<lparr>pe_texts = texts, pe_penum = Some 0, pe_i = 0, pe_text = None\<rparr> (lines_from file 0)))"

text \<open>
  \<open>write (fd, buf, g_snprintf (buf, 1024, ...))\<close>: the length is that of the whole text, and what
  is behind the buffer is written for a longer one.
\<close>

definition snprintf_write :: "string \<Rightarrow> string option" where
  "snprintf_write t = (if length t < 1024 then Some t else None)"

fun pevent_save :: "te_entry list \<Rightarrow> string list \<Rightarrow> string option" where
  "pevent_save (e # te) (t # texts) =
     (case (snprintf_write (''event_name='' @ te_name e @ [CHR 0x0A]),
            snprintf_write (''event_text='' @ t @ [CHR 0x0A, CHR 0x0A]), pevent_save te texts) of
        (Some a, Some b, Some r) \<Rightarrow> Some (a @ b @ r)
      | _ \<Rightarrow> None)"
| "pevent_save _ _ = Some []"

subsection \<open>Showing an event\<close>

definition rcolors :: "nat list" where
  "rcolors = [19, 20, 22, 24, 25, 26, 27, 28, 29]"

text \<open>The sum of the signed bytes, taken modulo the unsigned size of the table.\<close>

definition text_color_of :: "string \<Rightarrow> nat" where
  "text_color_of name = rcolors ! nat ((sum_list (map schar name) mod 2 ^ 64) mod 9)"

datatype emit_effect = Beep | Flash_window | Tray_message | Sound nat | Display string

record emit_prefs =
  text_color_nicks :: bool
  text_stripcolor_msg :: "32 word"
  irc_conf_mode :: "32 word"
  irc_hide_nickchange :: bool
  away_omit_alerts :: bool
  input_beep_priv :: "32 word"
  input_flash_priv :: "32 word"
  input_beep_hilight :: "32 word"
  input_flash_hilight :: "32 word"
  input_beep_chans :: "32 word"
  input_flash_chans :: "32 word"

text \<open>The alerts of a message: \<open>beep\<close> and \<open>flash\<close> are the global settings of its kind.\<close>

definition alerts :: "emit_prefs \<Rightarrow> bool \<Rightarrow> opts \<Rightarrow> 32 word \<Rightarrow> 32 word \<Rightarrow> emit_effect list" where
  "alerts p away opts beep flash =
     (let heard = (\<not> away_omit_alerts p \<or> \<not> away) in
      (if chanopt_is_set beep (opts ! 1) \<noteq> 0 \<and> heard then [Beep] else []) @
      (if chanopt_is_set flash (opts ! 2) \<noteq> 0 \<and> heard then [Flash_window] else []) @
      (if opts ! 3 = SET_ON then [Tray_message] else []))"

text \<open>
  \<open>text_emit\<close>, when no plugin eats the event (\<open>eaten\<close>) and the front end does not claim it: what
  it does besides its changes of the tab state, and \<open>None\<close> when \<open>format_event\<close> overflows.
  \<open>opts\<close> are the settings of the session, \<open>code\<close> the codes of the event.
\<close>

definition text_emit ::
    "emit_prefs \<Rightarrow> bool \<Rightarrow> bool \<Rightarrow> bool \<Rightarrow> opts \<Rightarrow> nat \<Rightarrow> te_entry \<Rightarrow> string option \<Rightarrow> string option list \<Rightarrow>
     emit_effect list option" where
  "text_emit p away eaten claimed opts index e code args =
     (let sym = te_symbol e;
          strip = (chanopt_is_set (text_stripcolor_msg p) (opts ! 7) \<noteq> 0);
          a = args ! 0;
          colour = (a \<noteq> None \<and> text_color_nicks p \<and> sym \<in> {''XP_TE_CHANACTION'', ''XP_TE_CHANMSG''});
          a = (if colour then Some (take (NICKLEN + 3) (CHR 0x03 # show_nat (text_color_of (the a)) @ the a)) else a);
          word = (\<lambda>n. if n = 0 then Some (te_name e)
                      else if n < 32 then Some (case (if n = 1 then a else if n \<le> 4 then args ! (n - 1) else None) of
                                                  None \<Rightarrow> [] | Some t \<Rightarrow> t)
                      else None);
          show_it = (\<lambda>before.
            case format_event 4096 (te_args e) (\<lambda>n. strip \<and> \<not> (colour \<and> n = 1)) word code of
              None \<Rightarrow> None
            | Some t \<Rightarrow>
                Some (before @ (if \<not> away_omit_alerts p \<or> \<not> away then [Sound index] else []) @
                      (if t \<noteq> [] then [Display t] else [])))
      in if eaten \<or> claimed then Some []
         else if sym \<in> {''XP_TE_JOIN'', ''XP_TE_PART'', ''XP_TE_PARTREASON'', ''XP_TE_QUIT''} then
           (if chanopt_is_set (irc_conf_mode p) (opts ! 4) \<noteq> 0 then Some [] else show_it [])
         else if sym \<in> {''XP_TE_PRIVMSG'', ''XP_TE_DPRIVMSG'', ''XP_TE_PRIVACTION'', ''XP_TE_DPRIVACTION''} then
           show_it (alerts p away opts (input_beep_priv p) (input_flash_priv p))
         else if sym \<in> {''XP_TE_HCHANACTION'', ''XP_TE_HCHANMSG''} then
           show_it (alerts p away opts (input_beep_hilight p) (input_flash_hilight p))
         else if sym \<in> {''XP_TE_CHANACTION'', ''XP_TE_CHANMSG''} then
           show_it (alerts p away opts (input_beep_chans p) (input_flash_chans p))
         else if sym = ''XP_TE_CHANGENICK'' \<and> irc_hide_nickchange p then Some []
         else show_it [])"

end
