(* ===== verification/ChanOptProofs.thy ===== *)
theory ChanOptProofs
  imports ChanOpt
begin

text \<open>
  The settings of channels stay in their type, the list in memory has no channel twice, and the
  file gives back what was saved.
\<close>

subsection \<open>The type of the settings\<close>

definition opts_ok :: "opts \<Rightarrow> bool" where
  "opts_ok opts \<longleftrightarrow> length opts = length chanopt \<and> (\<forall>v \<in> set opts. v \<in> {SET_OFF, SET_ON, SET_DEFAULT})"

text \<open>No channel of a network is in the list twice.\<close>

definition apart :: "chanopt_in_memory \<Rightarrow> chanopt_in_memory \<Rightarrow> bool" where
  "apart a b \<longleftrightarrow> \<not> same_channel (co_network a) (co_channel a) b"

definition chanopt_ok :: "chanopt_state \<Rightarrow> bool" where
  "chanopt_ok st \<longleftrightarrow> (\<forall>co \<in> set (chanopt_list st). opts_ok (co_opts co)) \<and> sorted_wrt apart (chanopt_list st)"

lemma apart_opts [simp]: "apart (a\<lparr>co_opts := v\<rparr>) b = apart a b" "apart a (b\<lparr>co_opts := v\<rparr>) = apart a b"
  by (simp_all add: apart_def same_channel_def)

lemma apart_update: "sorted_wrt apart xs \<Longrightarrow> sorted_wrt apart (xs[p := (xs ! p)\<lparr>co_opts := v\<rparr>])"
proof -
  assume sorted: "sorted_wrt apart xs"
  have nth: "xs[p := (xs ! p)\<lparr>co_opts := v\<rparr>] ! i = (if i = p then (xs ! i)\<lparr>co_opts := v\<rparr> else xs ! i)" if "i < length xs" for i
    using that by simp
  show ?thesis
    unfolding sorted_wrt_iff_nth_less
  proof (intro allI impI)
    fix i j assume ij: "i < j" "j < length (xs[p := (xs ! p)\<lparr>co_opts := v\<rparr>])"
    then have il: "i < length xs" "j < length xs" by simp_all
    have "apart (xs ! i) (xs ! j)" using sorted ij by (simp add: sorted_wrt_iff_nth_less)
    then show "apart (xs[p := (xs ! p)\<lparr>co_opts := v\<rparr>] ! i) (xs[p := (xs ! p)\<lparr>co_opts := v\<rparr>] ! j)"
      unfolding nth [OF il(1)] nth [OF il(2)] using ij by auto
  qed
qed

lemma str_to_chanopt_ok: "str_to_chanopt s \<in> {SET_OFF, SET_ON, SET_DEFAULT}"
  by (simp add: str_to_chanopt_def)

lemma default_opts_ok [simp]: "opts_ok default_opts"
  by (simp add: opts_ok_def default_opts_def)

lemma opts_ok_update: "opts_ok opts \<Longrightarrow> v \<in> {SET_OFF, SET_ON, SET_DEFAULT} \<Longrightarrow> opts_ok (opts[i := v])"
  using set_update_subset_insert [of opts i v] by (auto simp: opts_ok_def)

lemma add_opt_ok: "opts_ok opts \<Longrightarrow> opts_ok (chanopt_add_opt var (str_to_chanopt s) opts)"
  using str_to_chanopt_ok [of s] by (auto simp: opts_ok_def chanopt_add_opt_def set_zip dest: nth_mem)

lemma chanopt_value_ok: "opts_ok opts \<Longrightarrow> i < length chanopt \<Longrightarrow> chanopt_value (opts ! i) \<noteq> None"
  by (force simp: opts_ok_def chanopt_value_def dest: nth_mem)

lemma option_loop_ok:
  "opts_ok opts \<Longrightarrow> i + length table \<le> length chanopt \<Longrightarrow>
   (\<forall>v. newval = Some v \<longrightarrow> v \<in> {SET_OFF, SET_ON, SET_DEFAULT}) \<Longrightarrow>
   (\<forall>e \<in> set table. option_selected msk e \<noteq> None) \<Longrightarrow>
   \<exists>opts' changed out. option_loop msk newval quiet i table opts = Some (opts', changed, out) \<and> opts_ok opts'"
proof (induction table arbitrary: i opts)
  case (Cons entry table)
  obtain b where b: "option_selected msk entry = Some b" using Cons.prems(4) by auto
  show ?case
  proof (cases b)
    case False
    then show ?thesis using Cons.IH [of opts "i + 1"] Cons.prems b by auto
  next
    case True
    define o1 where "o1 = (case newval of None \<Rightarrow> opts | Some v \<Rightarrow> opts[i := v])"
    have o1: "opts_ok o1" using Cons.prems(1,3) opts_ok_update by (auto simp: o1_def split: option.split)
    obtain v where v: "chanopt_value (o1 ! i) = Some v" using chanopt_value_ok [OF o1, of i] Cons.prems(2) by auto
    obtain opts' changed out where
      "option_loop msk newval quiet (i + 1) table o1 = Some (opts', changed, out)" "opts_ok opts'"
      using Cons.IH [of o1 "i + 1"] o1 Cons.prems by auto
    then show ?thesis using b True v by (auto simp: o1_def [symmetric] Let_def)
  qed
qed auto

text \<open>Looking an entry up, or adding it, and changing one keep the settings in their type.\<close>

lemma chanopt_find_ok: "chanopt_ok st \<Longrightarrow> chanopt_ok (fst (chanopt_find n c add st))"
  by (auto simp: chanopt_find_def chanopt_ok_def apart_def Let_def dropWhile_eq_Nil_conv split: list.split)

lemma upd_entry_ok: "chanopt_ok st \<Longrightarrow> (\<And>v. opts_ok v \<Longrightarrow> opts_ok (f v)) \<Longrightarrow> chanopt_ok (upd_entry k f st)"
proof -
  assume a: "chanopt_ok st" "\<And>v. opts_ok v \<Longrightarrow> opts_ok (f v)"
  have "co \<in> set (chanopt_list (upd_entry k f st)) \<Longrightarrow> opts_ok (co_opts co)" for co
  proof -
    let ?l = "chanopt_list st" and ?p = "length (chanopt_list st) - 1 - k"
    assume "co \<in> set (chanopt_list (upd_entry k f st))"
    then have "co \<in> set ?l \<or> ?l \<noteq> [] \<and> co = (?l ! ?p)\<lparr>co_opts := f (co_opts (?l ! ?p))\<rparr>"
      using set_update_subset_insert [of ?l ?p] by (cases ?l) (auto simp: upd_entry_def Let_def)
    moreover have "?l \<noteq> [] \<Longrightarrow> ?l ! ?p \<in> set ?l" by (rule nth_mem) (cases ?l; simp)
    ultimately show ?thesis using a by (auto simp: chanopt_ok_def)
  qed
  moreover have "sorted_wrt apart (chanopt_list (upd_entry k f st))"
    using a(1) by (simp add: chanopt_ok_def upd_entry_def Let_def apart_update)
  ultimately show ?thesis by (simp add: chanopt_ok_def)
qed

lemma conf_line_ok: "chanopt_ok st \<Longrightarrow> conf_line line (st, net, k) = Some (st', net', k') \<Longrightarrow> chanopt_ok st'"
  using chanopt_find_ok [of st] add_opt_ok
  by (auto simp: conf_line_def Let_def split_beta intro!: upd_entry_ok split: option.splits if_splits)
     (auto simp: chanopt_ok_def)

lemma conf_lines_ok: "chanopt_ok (fst cs) \<Longrightarrow> conf_lines ls cs = Some cs' \<Longrightarrow> chanopt_ok (fst cs')"
proof (induction ls cs rule: conf_lines.induct)
  case (2 l ls cs)
  obtain st net k where cs: "cs = (st, net, k)" by (cases cs)
  with 2(2,3) obtain st' net' k' where c: "conf_line l (st, net, k) = Some (st', net', k')"
    by (auto split: option.splits)
  show ?case using 2(1) [OF c [folded cs]] 2(2,3) conf_line_ok [OF _ c] by (simp add: cs c)
qed simp

lemma load_all_ok: "chanopt_ok st \<Longrightarrow> chanopt_load_all st = Some st' \<Longrightarrow> chanopt_ok st'"
  using conf_lines_ok by (fastforce simp: chanopt_load_all_def split: option.splits)

lemma entry_opts_ok: "chanopt_ok st \<Longrightarrow> chanopt_list st \<noteq> [] \<Longrightarrow> opts_ok (entry_opts st k)"
  unfolding chanopt_ok_def entry_opts_def by (metis diff_less diff_diff_left length_greater_0_conv nth_mem zero_less_Suc plus_1_eq_Suc)

lemma find_Some_nonempty: "chanopt_find n c add st = (st', Some k) \<Longrightarrow> chanopt_list st' \<noteq> []"
  by (auto simp: chanopt_find_def Let_def split: list.splits if_splits)

lemma load_ok:
  assumes "chanopt_load sess st = Some (sess', st')" "chanopt_ok st" "opts_ok (o_opts sess)"
  shows "opts_ok (o_opts sess') \<and> chanopt_ok st'"
proof (cases "session_name sess = [] \<or> o_network sess = None")
  case False
  then obtain n where n: "session_name sess \<noteq> []" "o_network sess = Some n" by auto
  obtain st1 where st1: "(if chanopt_open st then Some st else chanopt_load_all (st\<lparr>chanopt_open := True\<rparr>)) = Some st1"
    using assms(1) n by (auto simp: chanopt_load_def split: option.splits)
  have ok: "chanopt_ok st1"
    using st1 assms(2) load_all_ok [of "st\<lparr>chanopt_open := True\<rparr>" st1] by (auto simp: chanopt_ok_def split: if_splits)
  obtain st2 k where f: "chanopt_find (Some n) (session_name sess) False st1 = (st2, k)" by fastforce
  have "chanopt_ok st2" using chanopt_find_ok [OF ok, of "Some n" "session_name sess" False] f by simp
  then show ?thesis
    using assms(1,3) n st1 f entry_opts_ok find_Some_nonempty
    by (auto simp: chanopt_load_def split: option.splits)
qed (use assms in \<open>auto simp: chanopt_load_def split: option.splits\<close>)

lemma save_ok:
  assumes "chanopt_ok st" "opts_ok (o_opts sess)" shows "chanopt_ok (chanopt_save sess st)"
proof (cases "session_name sess = [] \<or> o_network sess = None")
  case False
  then obtain n where n: "session_name sess \<noteq> []" "o_network sess = Some n" by auto
  obtain st2 k where f: "chanopt_find (Some n) (session_name sess) True st = (st2, k)" by fastforce
  have "chanopt_ok st2" using chanopt_find_ok [OF assms(1), of "Some n" "session_name sess" True] f by simp
  moreover from this have "chanopt_ok (upd_entry j (\<lambda>_. o_opts sess) st2)" for j
    by (rule upd_entry_ok) (rule assms(2))
  ultimately show ?thesis
    using n f by (auto simp: chanopt_save_def chanopt_ok_def split: option.split)
qed (use assms in \<open>auto simp: chanopt_save_def split: option.splits\<close>)

lemma save_all_ok: "chanopt_ok st \<Longrightarrow> chanopt_ok (chanopt_save_all can_write flush st)"
  by (simp add: chanopt_save_all_def chanopt_ok_def)

lemma cmd_ok:
  assumes "chanopt_ok st" "opts_ok (o_opts sess)"
    "\<forall>e \<in> set chanopt. option_selected (word (if word 2 = ''-quiet'' then 3 else 2)) e \<noteq> None"
  shows "\<exists>sess' st' out. cmd_chanopt can_write sess word net st = Some (sess', st', out) \<and> opts_ok (o_opts sess') \<and> chanopt_ok st'"
proof -
  let ?offset = "if word 2 = ''-quiet'' then 3 else 2 :: nat"
  let ?newval = "if word (?offset + 1) \<noteq> [] then Some (str_to_chanopt (word (?offset + 1))) else None"
  have "\<forall>v. ?newval = Some v \<longrightarrow> v \<in> {SET_OFF, SET_ON, SET_DEFAULT}" using str_to_chanopt_ok by auto
  from option_loop_ok [OF assms(2) _ this assms(3), of 0 "word 2 = ''-quiet''"]
  obtain opts changed out where
    "option_loop (word ?offset) ?newval (word 2 = ''-quiet'') 0 chanopt (o_opts sess) = Some (opts, changed, out)" "opts_ok opts"
    by auto
  moreover have "chanopt_ok (chanopt_save_all can_write False (st\<lparr>chanopt_changed := b\<rparr>))" for b
    by (rule save_all_ok) (use assms(1) in \<open>simp add: chanopt_ok_def\<close>)
  ultimately show ?thesis by (auto simp: cmd_chanopt_def chanopt_command_def Let_def)
qed

text \<open>Every setting, in the sessions and in the list, is one of the three values a setting has,
  whatever the file holds: \<open>chanopt_load\<close>, \<open>chanopt_save\<close>, \<open>chanopt_save_all\<close> and \<open>/CHANOPT\<close> keep
  the type, and \<open>/CHANOPT\<close> returns: the assertion in \<open>chanopt_value\<close> never fails.
\<close>

theorem chanopt_typed:
  assumes "chanopt_ok st" "opts_ok (o_opts sess)"
    "\<forall>e \<in> set chanopt. option_selected (word (if word 2 = ''-quiet'' then 3 else 2)) e \<noteq> None"
  shows "(\<forall>sess' st'. chanopt_load sess st = Some (sess', st') \<longrightarrow> opts_ok (o_opts sess') \<and> chanopt_ok st') \<and>
    chanopt_ok (chanopt_save sess st) \<and> chanopt_ok (chanopt_save_all can_write flush st) \<and>
    (\<exists>sess' st' out. cmd_chanopt can_write sess word net st = Some (sess', st', out) \<and> opts_ok (o_opts sess') \<and> chanopt_ok st')"
  using load_ok [OF _ assms(1,2)] save_ok [OF assms(1,2)] save_all_ok [OF assms(1)]
    cmd_ok [where word = word, OF assms] by blast

definition demo_chan_session :: opt_session where
  "demo_chan_session = \<lparr>o_opts = default_opts, session_name = ''#c'', o_network = Some ''net''\<rparr>"

definition demo_opts :: chanopt_state where
  "demo_opts = \<lparr>chanopt_list = [], chanopt_open = False, chanopt_changed = False,
     chanopt_conf = Some (''network = net'' @ CHR 0x0A # ''channel = #c'' @ CHR 0x0A # ''alert_beep = 7'' @ [CHR 0x0A])\<rparr>"

theorem chanopt_typed_witness:
  "\<exists>sess' st' out. cmd_chanopt True demo_chan_session (slot [''chanopt'', ''*'', ''on'']) None demo_opts =
     Some (sess', st', out) \<and> opts_ok (o_opts sess') \<and> chanopt_ok st'"
proof -
  have ok: "chanopt_ok demo_opts" "opts_ok (o_opts demo_chan_session)"
    by (simp_all add: chanopt_ok_def demo_opts_def demo_chan_session_def)
  have "list_all (\<lambda>e. option_selected (slot [''chanopt'', ''*'', ''on''] 2) e \<noteq> None) chanopt"
    by code_simp
  then have "\<forall>e \<in> set chanopt. option_selected (slot [''chanopt'', ''*'', ''on'']
      (if slot [''chanopt'', ''*'', ''on''] 2 = ''-quiet'' then 3 else 2)) e \<noteq> None"
    by (simp add: list_all_iff slot_def)
  from chanopt_typed [where word = "slot [''chanopt'', ''*'', ''on'']" and can_write = True and net = None and flush = False, OF ok this]
  show ?thesis by (elim conjE)
qed

subsection \<open>The file gives back the list\<close>

lemma waitline_line:
  "CHR 0x0A \<notin> set l \<Longrightarrow> length l < n - 1 \<Longrightarrow> waitline n (l @ CHR 0x0A # r) = Some (l, r)"
proof (induction l arbitrary: n)
  case (Cons c l)
  then show ?case using Cons.IH [of "n - 1"] by auto
qed simp

lemma file_lines_line:
  "CHR 0x0A \<notin> set l \<Longrightarrow> length l < 255 \<Longrightarrow> file_lines 256 (l @ CHR 0x0A # r) = l # file_lines 256 r"
  by (subst file_lines.simps) (simp add: waitline_line)

lemma conf_lines_append:
  "conf_lines (ls @ ls') cs = (case conf_lines ls cs of None \<Rightarrow> None | Some cs \<Rightarrow> conf_lines ls' cs)"
  by (induction ls cs rule: conf_lines.induct) (auto split: option.splits)

text \<open>A name that can be written in a line of the file.\<close>

definition line_ok :: "string \<Rightarrow> bool" where
  "line_ok s \<longleftrightarrow> CHR 0x0A \<notin> set s \<and> no_nul s \<and> length s \<le> 244"

definition entry_saved :: "chanopt_in_memory \<Rightarrow> bool" where
  "entry_saved co \<longleftrightarrow> (\<exists>n. co_network co = Some n \<and> line_ok n) \<and> line_ok (co_channel co) \<and> opts_ok (co_opts co)"

text \<open>The lines of an entry.\<close>

definition option_lines :: "opts \<Rightarrow> string list" where
  "option_lines opts =
     concat (map2 (\<lambda>entry v. if v \<noteq> SET_DEFAULT then [fst entry @ '' = '' @ show_nat (unat v)] else []) chanopt opts)"

definition entry_lines :: "chanopt_in_memory \<Rightarrow> string list" where
  "entry_lines co = (''network = '' @ the (co_network co)) # (''channel = '' @ co_channel co) # option_lines (co_opts co)"

definition with_ends :: "string list \<Rightarrow> string" where
  "with_ends ls = concat (map (\<lambda>l. l @ [CHR 0x0A]) ls)"

lemma file_lines_ends:
  "\<forall>l \<in> set ls. CHR 0x0A \<notin> set l \<and> length l < 255 \<Longrightarrow> file_lines 256 (with_ends ls @ r) = ls @ file_lines 256 r"
  by (induction ls) (auto simp: with_ends_def file_lines_line)

definition name_fits :: "string \<times> string option \<Rightarrow> bool" where
  "name_fits entry \<longleftrightarrow> fst entry \<noteq> [] \<and> length (fst entry) < 200 \<and> CHR 0x0A \<notin> set (fst entry) \<and> CHR ''='' \<notin> set (fst entry) \<and>
     no_nul (fst entry) \<and> fst entry \<noteq> ''network'' \<and> fst entry \<noteq> ''channel''"

lemma names_fit: "\<forall>entry \<in> set chanopt. name_fits entry"
  by (simp add: chanopt_def name_fits_def)

lemma show_digits: "show_nat 0 = ''0''" "show_nat (Suc 0) = ''1''"
  by code_simp+

lemma show_opt: "v \<in> {SET_OFF, SET_ON, SET_DEFAULT} \<Longrightarrow> v \<noteq> SET_DEFAULT \<Longrightarrow>
    show_nat (unat v) = (if v = SET_ON then ''1'' else ''0'')"
  by (auto simp: set_defs show_digits)

lemma option_lines_fit:
  assumes "opts_ok opts" "l \<in> set (option_lines opts)"
  shows "CHR 0x0A \<notin> set l \<and> length l < 255"
proof -
  obtain entry v where e: "(entry, v) \<in> set (zip chanopt opts)" "l = fst entry @ '' = '' @ show_nat (unat v)" "v \<noteq> SET_DEFAULT"
    using assms(2) by (auto simp: option_lines_def split: if_splits)
  have "v \<in> set opts" "entry \<in> set chanopt" using e(1) by (auto dest: set_zip_leftD set_zip_rightD)
  then have "show_nat (unat v) \<in> {''0'', ''1''}" "name_fits entry"
    using show_opt [of v] e(3) assms(1) names_fit by (cases "v = SET_ON"; auto simp: opts_ok_def)+
  then show ?thesis by (auto simp: e(2) name_fits_def)
qed

lemma save_one_lines: "entry_saved co \<Longrightarrow> chanopt_save_one_channel co = with_ends (entry_lines co)"
proof -
  assume a: "entry_saved co"
  then obtain n where n: "co_network co = Some n" "length n \<le> 244" "length (co_channel co) \<le> 244"
    by (auto simp: entry_saved_def line_ok_def)
  let ?f = "\<lambda>entry val. if val \<noteq> SET_DEFAULT then take 255 (fst entry @ '' = '' @ show_nat (unat val) @ [CHR 0x0A]) else []"
  let ?g = "\<lambda>entry v. if v \<noteq> SET_DEFAULT then [fst entry @ '' = '' @ show_nat (unat v)] else []"
  have "concat (map2 ?f table opts) = with_ends (concat (map2 ?g table opts))"
    if "set table \<subseteq> set chanopt" "set opts \<subseteq> {SET_OFF, SET_ON, SET_DEFAULT}" for table opts
    using that
  proof (induction table opts rule: list_induct2')
    case (4 entry table v opts)
    have "length (fst entry) < 200" using names_fit 4(2) by (auto simp: name_fits_def)
    moreover have "length (show_nat (unat v)) \<le> 1" if "v \<noteq> SET_DEFAULT" using show_opt [of v] 4(3) that by auto
    ultimately show ?case using 4 by (auto simp: with_ends_def)
  qed (simp_all add: with_ends_def)
  from this [of chanopt "co_opts co"] a show ?thesis
    using n by (simp add: chanopt_save_one_channel_def entry_lines_def option_lines_def with_ends_def entry_saved_def opts_ok_def subset_iff)
qed

lemma entry_lines_fit:
  "entry_saved co \<Longrightarrow> \<forall>l \<in> set (entry_lines co). CHR 0x0A \<notin> set l \<and> length l < 255"
  using option_lines_fit by (auto simp: entry_lines_def entry_saved_def line_ok_def)

text \<open>Reading the lines of one entry.\<close>

lemma upto_eq: "CHR ''='' \<notin> set name \<Longrightarrow> upto_chr (name @ CHR ''='' # r) (CHR ''='') = name"
  by (induction name) (auto simp: upto_chr_def)

lemma strchr_eq: "CHR ''='' \<notin> set name \<Longrightarrow> strchr (name @ CHR ''='' # r) (CHR ''='') = Some (CHR ''='' # r)"
  by (induction name) auto

lemma upto_nul: "no_nul s \<Longrightarrow> upto_chr s NUL = s"
  by (auto simp: upto_chr_def no_nul_def takeWhile_eq_all_conv)

lemma conf_line_eq:
  assumes "no_nul name" "CHR ''='' \<notin> set name" "no_nul v" "cs = (st, net, k)"
  shows "conf_line (name @ '' = '' @ v) cs =
    (if name = ''network'' then Some (st, Some v, k)
     else if name = ''channel'' then
       (let (st, k) = chanopt_find net v True st in Some (st\<lparr>chanopt_changed := False\<rparr>, net, k))
     else (case k of None \<Rightarrow> Some cs
           | Some k' \<Rightarrow> Some (upd_entry k' (chanopt_add_opt name (str_to_chanopt v)) st, net, k)))"
proof -
  have eq: "name @ '' = '' @ v = (name @ '' '') @ CHR ''='' # CHR '' '' # v" by simp
  have b: "upto_chr ((name @ '' '') @ CHR ''='' # CHR '' '' # v) NUL = (name @ '' '') @ CHR ''='' # CHR '' '' # v"
    by (rule upto_nul) (use assms(1,3) in simp)
  have "CHR ''='' \<notin> set (name @ '' '')" using assms(2) by simp
  note u = upto_eq [OF this, of "CHR '' '' # v"] strchr_eq [OF this, of "CHR '' '' # v"]
  have d: "drop 2 (CHR ''='' # CHR '' '' # v) = v" by (simp add: numeral_2_eq_2)
  have nm: "(if name @ '' '' \<noteq> [] \<and> last (name @ '' '') = CHR '' '' then butlast (name @ '' '') else name @ '' '') = name"
    by simp
  show ?thesis
    unfolding eq conf_line_def assms(4) Let_def prod.case b u option.case nm d
    by (auto split: option.split)
qed

lemma upd_head:
  "chanopt_list st = co # es \<Longrightarrow> upd_entry (length es) f st = st\<lparr>chanopt_list := co\<lparr>co_opts := f (co_opts co)\<rparr> # es\<rparr>"
  by (simp add: upd_entry_def Let_def)

lemma names_distinct: "distinct (map fst chanopt)"
  by (simp add: chanopt_def)

lemma add_opt_nth:
  assumes "i < length chanopt" "length o1 = length chanopt"
  shows "chanopt_add_opt (fst (chanopt ! i)) v o1 = o1[i := v]"
proof (rule nth_equalityI)
  fix j assume j: "j < length (chanopt_add_opt (fst (chanopt ! i)) v o1)"
  then have "fst (chanopt ! j) = fst (chanopt ! i) \<longleftrightarrow> j = i"
    using nth_eq_iff_index_eq [OF names_distinct, of j i] assms by (simp add: chanopt_add_opt_def)
  then show "chanopt_add_opt (fst (chanopt ! i)) v o1 ! j = o1[i := v] ! j"
    using j assms by (auto simp: chanopt_add_opt_def)
qed (use assms in \<open>simp add: chanopt_add_opt_def\<close>)

definition opt_line :: "opts \<Rightarrow> nat \<Rightarrow> string list" where
  "opt_line opts i = (if opts ! i \<noteq> SET_DEFAULT then [fst (chanopt ! i) @ '' = '' @ show_nat (unat (opts ! i))] else [])"

lemma option_lines_nth:
  "length opts = length chanopt \<Longrightarrow> option_lines opts = concat (map (opt_line opts) [0..<length chanopt])"
proof -
  assume "length opts = length chanopt"
  then have "map2 (\<lambda>entry v. if v \<noteq> SET_DEFAULT then [fst entry @ '' = '' @ show_nat (unat v)] else []) chanopt opts =
      map (opt_line opts) [0..<length chanopt]"
    by (intro nth_equalityI) (auto simp: opt_line_def)
  then show ?thesis by (simp add: option_lines_def)
qed

lemma str_to_show:
  "v \<in> {SET_OFF, SET_ON, SET_DEFAULT} \<Longrightarrow> v \<noteq> SET_DEFAULT \<Longrightarrow> str_to_chanopt (show_nat (unat v)) = v"
  using show_opt [of v] by (auto simp: str_to_chanopt_def set_defs ascii_tolower_def uchar_def)

lemma load_option_lines:
  assumes "opts_ok opts" "a \<le> length chanopt" "length o1 = length chanopt" "chanopt_list st = co\<lparr>co_opts := o1\<rparr> # es"
    "\<forall>i < length chanopt. o1 ! i = (if i < a then opts ! i else SET_DEFAULT)"
  shows "conf_lines (concat (map (opt_line opts) [a..<length chanopt])) (st, net, Some (length es)) =
    Some (st\<lparr>chanopt_list := co\<lparr>co_opts := opts\<rparr> # es\<rparr>, net, Some (length es))"
  using assms(2-)
proof (induction "length chanopt - a" arbitrary: a o1 st)
  case 0
  then have "o1 = opts" using assms(1) by (intro nth_equalityI) (auto simp: opts_ok_def)
  then show ?case using 0 by simp
next
  case (Suc d)
  then have a: "a < length chanopt" by simp
  let ?v = "opts ! a" and ?e = "chanopt ! a"
  have v: "?v \<in> {SET_OFF, SET_ON, SET_DEFAULT}" using assms(1) a by (auto simp: opts_ok_def)
  have upt: "[a..<length chanopt] = a # [a + 1..<length chanopt]" using a by (simp add: upt_conv_Cons)
  show ?case
  proof (cases "?v = SET_DEFAULT")
    case True
    have "\<forall>i < length chanopt. o1 ! i = (if i < a + 1 then opts ! i else SET_DEFAULT)"
      using Suc.prems(4) True by (auto simp: less_Suc_eq)
    then show ?thesis
      using Suc.hyps(1) [of "a + 1" o1 st] Suc.hyps(2) Suc.prems a True by (simp add: upt opt_line_def)
  next
    case False
    have fits: "name_fits ?e" using names_fit a by simp
    have "no_nul (show_nat (unat ?v))" using show_opt [OF v False] by simp
    then have "conf_line (fst ?e @ '' = '' @ show_nat (unat ?v)) (st, net, Some (length es)) =
        Some (upd_entry (length es) (chanopt_add_opt (fst ?e) ?v) st, net, Some (length es))"
      using conf_line_eq [of "fst ?e" "show_nat (unat ?v)" "(st, net, Some (length es))"] fits str_to_show [OF v False]
      by (simp add: name_fits_def)
    also have "upd_entry (length es) (chanopt_add_opt (fst ?e) ?v) st = st\<lparr>chanopt_list := co\<lparr>co_opts := o1[a := ?v]\<rparr> # es\<rparr>"
      by (simp add: upd_head [OF Suc.prems(3)] add_opt_nth [OF a Suc.prems(2)])
    finally have step: "conf_line (fst ?e @ '' = '' @ show_nat (unat ?v)) (st, net, Some (length es)) =
        Some (st\<lparr>chanopt_list := co\<lparr>co_opts := o1[a := ?v]\<rparr> # es\<rparr>, net, Some (length es))" .
    have "\<forall>i < length chanopt. o1[a := ?v] ! i = (if i < a + 1 then opts ! i else SET_DEFAULT)"
      using Suc.prems(2,4) a by (auto simp: nth_list_update less_Suc_eq)
    then show ?thesis
      using Suc.hyps(1) [of "a + 1" "o1[a := ?v]" "st\<lparr>chanopt_list := co\<lparr>co_opts := o1[a := ?v]\<rparr> # es\<rparr>"]
        Suc.hyps(2) Suc.prems(2) a False step
      by (simp add: upt opt_line_def)
  qed
qed

lemma load_entry:
  assumes "entry_saved co" "\<forall>e \<in> set (chanopt_list st). apart co e"
  shows "conf_lines (entry_lines co) (st, net, k) =
    Some (st\<lparr>chanopt_list := co # chanopt_list st, chanopt_changed := False\<rparr>, co_network co, Some (length (chanopt_list st)))"
proof -
  obtain n where n: "co_network co = Some n" "no_nul n" using assms(1) by (auto simp: entry_saved_def line_ok_def)
  have c: "no_nul (co_channel co)" and opts: "opts_ok (co_opts co)"
    using assms(1) by (auto simp: entry_saved_def line_ok_def)
  let ?new = "\<lparr>co_opts = default_opts, co_network = Some n, co_channel = co_channel co\<rparr>"
  let ?st = "st\<lparr>chanopt_list := ?new # chanopt_list st, chanopt_changed := False\<rparr>"
  have new: "?new = co\<lparr>co_opts := default_opts\<rparr>" using n by simp
  have l1: "conf_line (''network = '' @ n) (st, net, k) = Some (st, Some n, k)"
    using conf_line_eq [of "''network''" n] n(2) by simp
  have "dropWhile (\<lambda>e. \<not> same_channel (Some n) (co_channel co) e) (chanopt_list st) = []"
    using assms(2) n(1) by (simp add: apart_def dropWhile_eq_Nil_conv)
  then have find: "chanopt_find (Some n) (co_channel co) True st =
      (st\<lparr>chanopt_list := ?new # chanopt_list st, chanopt_changed := True\<rparr>, Some (length (chanopt_list st)))"
    by (simp add: chanopt_find_def Let_def del: dropWhile_eq_Nil_conv)
  have l2: "conf_line (''channel = '' @ co_channel co) (st, Some n, k) = Some (?st, Some n, Some (length (chanopt_list st)))"
    using conf_line_eq [of "''channel''" "co_channel co" "(st, Some n, k)"] c by (simp add: find)
  have "conf_lines (option_lines (co_opts co)) (?st, Some n, Some (length (chanopt_list st))) =
      Some (?st\<lparr>chanopt_list := co\<lparr>co_opts := co_opts co\<rparr> # chanopt_list st\<rparr>, Some n, Some (length (chanopt_list st)))"
    unfolding option_lines_nth [OF opts [unfolded opts_ok_def, THEN conjunct1]]
    by (rule load_option_lines [of "co_opts co" 0 default_opts, OF opts])
      (simp_all add: new, simp_all add: default_opts_def)
  then show ?thesis using l1 l2 n(1) by (simp add: entry_lines_def)
qed

lemma strcasecmp_sym: "g_ascii_strcasecmp a b = - g_ascii_strcasecmp b a"
  by (induction a b rule: g_ascii_strcasecmp.induct) (auto simp: Let_def)

lemma apart_sym: "apart a b \<Longrightarrow> apart b a"
  unfolding apart_def same_channel_def strcasecmp_null_def
  by (auto split: option.splits) (metis neg_equal_0_iff_equal strcasecmp_sym)+

lemma conf_line_empty: "conf_line [] cs = Some cs"
  by (simp add: conf_line_def upto_chr_def split: prod.split)

lemma load_entries:
  assumes "\<forall>co \<in> set es. entry_saved co" "sorted_wrt apart es" "\<forall>co \<in> set es. \<forall>e \<in> set (chanopt_list st). apart co e" "es \<noteq> []"
  shows "\<exists>net k. conf_lines (file_lines 256 (join_with (CHR 0x0A) (map chanopt_save_one_channel es))) (st, net0, k0) =
    Some (st\<lparr>chanopt_list := rev es @ chanopt_list st, chanopt_changed := False\<rparr>, net, k)"
  using assms
proof (induction es arbitrary: st net0 k0)
  case (Cons co es)
  let ?st = "st\<lparr>chanopt_list := co # chanopt_list st, chanopt_changed := False\<rparr>"
  let ?k = "Some (length (chanopt_list st))"
  have co: "entry_saved co" "\<forall>e \<in> set (chanopt_list st). apart co e" using Cons.prems by auto
  note entry = load_entry [OF co, of net0 k0] and fit = file_lines_ends [OF entry_lines_fit [OF co(1)]]
  show ?case
  proof (cases "es = []")
    case True
    have "file_lines 256 [] = []" by (simp add: file_lines.simps [of _ "[]"])
    then show ?thesis using entry fit [of "[]"] True by (simp add: save_one_lines [OF co(1)])
  next
    case False
    have "\<forall>c \<in> set es. \<forall>e \<in> set (chanopt_list ?st). apart c e" using Cons.prems(2,3) apart_sym by auto
    then obtain net k where IH: "conf_lines (file_lines 256 (join_with (CHR 0x0A) (map chanopt_save_one_channel es)))
        (?st, co_network co, ?k) = Some (?st\<lparr>chanopt_list := rev es @ chanopt_list ?st, chanopt_changed := False\<rparr>, net, k)"
      using Cons.IH [of ?st "co_network co" ?k] Cons.prems False by auto
    have "file_lines 256 (join_with (CHR 0x0A) (map chanopt_save_one_channel (co # es))) =
        entry_lines co @ [] # file_lines 256 (join_with (CHR 0x0A) (map chanopt_save_one_channel es))"
      using fit [of "CHR 0x0A # join_with (CHR 0x0A) (map chanopt_save_one_channel es)"]
        file_lines_line [of "[]" "join_with (CHR 0x0A) (map chanopt_save_one_channel es)"] False
      by (simp add: join_with_Cons save_one_lines [OF co(1)])
    then show ?thesis using IH entry by (simp add: conf_lines_append conf_line_empty)
  qed
qed simp

text \<open>C27: What \<open>chanopt_save_all\<close> writes is what \<open>chanopt_load_all\<close> reads in the next session: the
  channels that have a setting of their own, in the opposite order, with all their settings, for
  names without line feeds that fit into a line of the file.
\<close>

theorem chanopt_file_roundtrip:
  assumes "chanopt_ok st" "chanopt_changed st" "\<forall>co \<in> set (filter must_save (chanopt_list st)). entry_saved co"
    "filter must_save (chanopt_list st) \<noteq> []"
  shows "chanopt_load_all (chanopt_save_all True True st) =
    Some (st\<lparr>chanopt_list := rev (filter must_save (chanopt_list st)), chanopt_open := False, chanopt_changed := False,
             chanopt_conf := Some (chanopt_file (chanopt_list st))\<rparr>)"
proof -
  have "chanopt_list st \<noteq> []" using assms(4) by auto
  moreover have "sorted_wrt apart (filter must_save (chanopt_list st))"
    using assms(1) by (simp add: chanopt_ok_def sorted_wrt_filter)
  ultimately show ?thesis
    using load_entries [of "filter must_save (chanopt_list st)" "chanopt_save_all True True st" None None] assms(2-4)
    by (auto simp: chanopt_save_all_def chanopt_load_all_def chanopt_file_def)
qed

theorem chanopt_file_roundtrip_witness:
  "let co = \<lparr>co_opts = default_opts[1 := SET_ON, 4 := SET_OFF], co_network = Some ''net'', co_channel = ''#c''\<rparr>;
       st = demo_opts\<lparr>chanopt_list := [co], chanopt_changed := True\<rparr>
   in map_option chanopt_list (chanopt_load_all (chanopt_save_all True True st)) = Some [co]"
proof -
  let ?co = "\<lparr>co_opts = default_opts[1 := SET_ON, 4 := SET_OFF], co_network = Some ''net'', co_channel = ''#c''\<rparr>"
  have ok: "opts_ok (default_opts[1 := SET_ON, 4 := SET_OFF])" by (intro opts_ok_update) simp_all
  moreover have "must_save ?co" by (simp add: must_save_def default_opts_def chanopt_def set_defs)
  ultimately show ?thesis
    using chanopt_file_roundtrip [of "demo_opts\<lparr>chanopt_list := [?co], chanopt_changed := True\<rparr>"]
    by (simp add: chanopt_ok_def entry_saved_def line_ok_def)
qed

text \<open>
  \<open>/CHANOPT\<close> writes the file before the new value of the session is in the list: the value is not
  saved before the window is closed.
\<close>

lemma chanopt_command_not_saved:
  assumes "cmd_chanopt True sess word net st = Some (sess', st', out)"
  shows "chanopt_list st' = chanopt_list st"
  using assms by (auto simp: cmd_chanopt_def chanopt_command_def chanopt_save_all_def Let_def split: if_splits)

text \<open>
  After a save that keeps the list, the next \<open>chanopt_load\<close> reads the file again, over what was
  changed in the meantime, and forgets that there was a change.
\<close>

lemma chanopt_change_lost:
  "let co = \<lambda>v. \<lparr>co_opts = default_opts[1 := v], co_network = Some ''net'', co_channel = ''#c''\<rparr>;
       st = demo_opts\<lparr>chanopt_list := [co SET_OFF], chanopt_changed := True\<rparr>;
       sess = demo_chan_session\<lparr>o_opts := default_opts[1 := SET_ON]\<rparr>;
       changed = chanopt_save sess (chanopt_save_all True False st)
   in chanopt_list changed = [co SET_ON] \<and>
      map_option (\<lambda>(s, st). (chanopt_list st, chanopt_changed st))
        (chanopt_load (demo_chan_session\<lparr>session_name := ''#d''\<rparr>) changed) = Some ([co SET_OFF], False)"
  by code_simp

end
