(* ===== verification/TextEventsProofs.thy ===== *)
theory TextEventsProofs
  imports TextEvents ChanOptProofs
begin

text \<open>
  The codes of an event text do what the text says, and the file of the texts gives back what was
  written.
\<close>

subsection \<open>What an event text says\<close>

text \<open>
  The text read directly, with the texts of the arguments. A \<open>$\<close> before another one stands for
  itself and does not take the other with it.
\<close>

function render_event :: "(nat \<Rightarrow> string) \<Rightarrow> string \<Rightarrow> string" where
  "render_event args [] = []"
| "render_event args (d # i) =
     (if d \<noteq> CHR ''$'' \<or> cur i = CHR ''$'' then d # render_event args i
      else if cur i = CHR ''a'' then byte (nat (a_value (i ! 1) (i ! 2) (i ! 3) mod 256)) # render_event args (drop 4 i)
      else if cur i = CHR ''t'' then CHR 0x09 # render_event args (drop 1 i)
      else args (nat (minus_0 (cur i))) @ render_event args (drop 1 i))"
  by pat_completeness auto
termination by (relation "measure (\<lambda>(a, i). length i)") auto

declare render_event.simps(2) [simp del]

lemma uchar_byte [simp]: "uchar (byte n) = n mod 256"
  by (simp add: uchar_def byte_def)

lemma byte_simps [simp]: "byte 0 = NUL" "byte (Suc 0) = CHR 0x01"
  by code_simp+

lemma literal_code_Nil [simp]: "literal_code [] = []"
  by (simp add: literal_code_def)

lemma int_of_int_bytes: "n < 2 ^ 32 \<Longrightarrow> int_of_bytes (int_bytes n @ r) = n"
proof -
  assume n: "n < 2 ^ 32"
  have div: "n div 256 div 256 = n div 65536" "n div 65536 div 256 = n div 16777216"
    by (simp_all flip: div_mult2_eq)
  have e: "n mod 256 + 256 * (n div 256) = n" "n div 256 mod 256 + 256 * (n div 65536) = n div 256"
    "n div 65536 mod 256 + 256 * (n div 16777216) = n div 65536"
    using mod_mult_div_eq [of "n div 256" 256] mod_mult_div_eq [of "n div 65536" 256] by (simp_all add: div)
  have m: "n div 16777216 mod 256 = n div 16777216" using n by (simp add: less_mult_imp_div_less)
  then have "n mod 256 + 256 * (n div 256 mod 256) + 65536 * (n div 65536 mod 256) + 16777216 * (n div 16777216 mod 256) = n"
    using e by linarith
  then show ?thesis by (simp add: int_of_bytes_def int_bytes_def m)
qed

lemma fe_literal:
  assumes "length out + length t \<le> bufsize" "length t < 2 ^ 31"
  shows "fe_loop bufsize numargs strip args out (literal_code t @ r) = fe_loop bufsize numargs strip args (out @ t) r"
proof (cases "t = []")
  case False
  have "int_of_bytes (take 4 (int_bytes (length t) @ t @ r)) = length t"
    using int_of_int_bytes [of "length t" "[]"] assms(2) by (simp add: int_bytes_def)
  moreover have "drop 4 (int_bytes (length t) @ t @ r) = t @ r" by (simp add: int_bytes_def)
  moreover have "4 \<le> length (int_bytes (length t) @ t @ r)" by (simp add: int_bytes_def)
  ultimately show ?thesis
    using assms False by (simp add: literal_code_def fe_loop.simps(2) Let_def not_less)
qed (simp add: literal_code_def)

lemma fe_tab:
  "length out < bufsize \<Longrightarrow>
   fe_loop bufsize numargs strip args out (CHR 0x03 # r) = fe_loop bufsize numargs strip args (out @ [CHR 0x09]) r"
  by (simp add: fe_loop.simps(2))

lemma fe_end:
  "length out + 3 \<le> bufsize \<Longrightarrow> fe_loop bufsize numargs strip args out [CHR 0x02] = Some (event_text out)"
  by (simp add: fe_loop.simps(2))

lemma length_arg_text: "length (arg_text strip ar) \<le> length ar"
  using strip_loop_length [of STRIP_ALL "length ar" ar 0 False] length_filter_le [of "\<lambda>c. c \<noteq> HIDDEN_CHAR" ar]
  by (simp add: arg_text_def strip_hidden_attribute_def)

lemma fe_arg:
  assumes "args n = Some ar" "1 \<le> n" "n \<le> 9" "int n \<le> numargs + 1" "length out + length ar + 4 \<le> bufsize"
  shows "fe_loop bufsize numargs strip args out (CHR 0x01 # byte (n - 1) # r) =
    fe_loop bufsize numargs strip args (out @ arg_text (strip n) ar) r"
proof -
  have u: "uchar (byte (n - Suc 0)) = n - Suc 0" using assms(3) by simp
  then have s: "schar (byte (n - Suc 0)) = int n - 1" using assms(2,3) by (simp add: schar_def of_nat_diff)
  have "cut_arg bufsize (length out) ar = ar" using assms(5) by (simp add: cut_arg_def)
  moreover have "args(n \<mapsto> ar) = args" using assms(1) by (simp add: fun_upd_idem)
  moreover have "length out + length (arg_text (strip n) ar) < bufsize"
    using length_arg_text [of "strip n" ar] assms(5) by linarith
  ultimately show ?thesis
    using assms(1,2,4) by (simp add: fe_loop.simps(2) u s Let_def del: uchar_byte)
qed

lemma digit_minus_0:
  "\<not> (schar c < 49 \<or> schar c > 57) \<Longrightarrow> \<exists>n. minus_0 c = int n \<and> 1 \<le> n \<and> n \<le> 9"
proof -
  assume "\<not> (schar c < 49 \<or> schar c > 57)"
  then obtain n where n: "schar c - 48 = int n" "1 \<le> n" "n \<le> 9"
    using zero_le_imp_eq_int [of "schar c - 48"] by auto
  then have "n \<in> {1..9}" by simp
  then have "n = 1 \<or> n = 2 \<or> n = 3 \<or> n = 4 \<or> n = 5 \<or> n = 6 \<or> n = 7 \<or> n = 8 \<or> n = 9" by auto
  then have "minus_0 c = int n" by (auto simp: minus_0_def n(1))
  then show ?thesis using n by blast
qed

text \<open>The codes the loop adds, run behind what is there already.\<close>

lemma pevt_loop_runs:
  assumes "pevt_loop i t code mx = Some (Inr (c, m))" "m \<le> numargs + 1"
    and "\<And>n. 1 \<le> n \<Longrightarrow> n \<le> 9 \<Longrightarrow> args n \<noteq> None"
  shows "mx \<le> m \<and> (\<exists>c'. c = code @ c' \<and>
    (\<forall>out. length out + length t + length (render_event (\<lambda>n. the (args n)) i) + 4 \<le> bufsize \<and> length t \<le> 4096 \<longrightarrow>
       fe_loop bufsize numargs strip args out c' =
         Some (event_text (out @ t @ render_event (\<lambda>n. arg_text (strip n) (the (args n))) i))))"
  using assms(1)
proof (induction i t code mx rule: pevt_loop.induct)
  case (1 t code mx)
  then show ?case by (auto simp: fe_literal fe_end intro!: exI [of _ "literal_code t @ [CHR 0x02]"])
next
  case (2 d i t code mx)
  let ?raw = "\<lambda>n. the (args n)" and ?txt = "\<lambda>n. arg_text (strip n) (the (args n))"
  consider (plain) "d \<noteq> CHR ''$''" | (dollar) "d = CHR ''$''" "cur i = CHR ''$''"
    | (a) "d = CHR ''$''" "cur i = CHR ''a''" | (t) "d = CHR ''$''" "cur i = CHR ''t''"
    | (arg) "d = CHR ''$''" "cur i \<noteq> CHR ''$''" "cur i \<noteq> CHR ''a''" "cur i \<noteq> CHR ''t''"
    by blast
  then show ?case
  proof cases
    case plain
    with "2.prems" have p: "pevt_loop i (t @ [d]) code mx = Some (Inr (c, m))" "length t < 4096"
      by (auto simp: pevt_loop.simps(2) split: if_splits)
    from "2.IH"(1) [OF _ _ p(1)] plain p(2) show ?thesis
      by (auto simp: render_event.simps(2))
  next
    case dollar
    with "2.prems" have p: "pevt_loop i (t @ [CHR ''$'']) code mx = Some (Inr (c, m))" "length t < 4096"
      by (auto simp: pevt_loop.simps(2) split: if_splits)
    from "2.IH"(2) [OF _ _ _ p(1)] dollar p(2) show ?thesis
      by (auto simp: render_event.simps(2))
  next
    case a
    let ?x = "a_value (i ! 1) (i ! 2) (i ! 3)"
    from a "2.prems" have p: "pevt_loop (drop 4 i) [byte (nat (?x mod 256))] (code @ literal_code t) mx = Some (Inr (c, m))"
        "i \<noteq> []" "\<not> length i < 4" "\<not> ?x > 255"
      by (auto simp: pevt_loop.simps(2) Let_def split: if_splits)
    obtain c' where c': "mx \<le> m" "c = (code @ literal_code t) @ c'"
      "\<And>out. length out + 1 + length (render_event ?raw (drop 4 i)) + 4 \<le> bufsize \<Longrightarrow>
         fe_loop bufsize numargs strip args out c' = Some (event_text (out @ byte (nat (?x mod 256)) # render_event ?txt (drop 4 i)))"
      using "2.IH"(3) [OF _ _ _ _ _ _ _ p(1)] a p by auto
    show ?thesis
      using c' a fe_literal [of _ t bufsize numargs strip args c']
      by (auto simp: render_event.simps(2) intro!: exI [of _ "literal_code t @ c'"])
  next
    case t
    from t "2.prems" have p: "pevt_loop (drop 1 i) [] (code @ literal_code t @ [CHR 0x03]) mx = Some (Inr (c, m))" "i \<noteq> []"
      by (auto simp: pevt_loop.simps(2) split: if_splits)
    obtain c' where c': "mx \<le> m" "c = (code @ literal_code t @ [CHR 0x03]) @ c'"
      "\<And>out. length out + length (render_event ?raw (drop 1 i)) + 4 \<le> bufsize \<Longrightarrow>
         fe_loop bufsize numargs strip args out c' = Some (event_text (out @ render_event ?txt (drop 1 i)))"
      using "2.IH"(4) [OF _ _ _ _ _ p(1)] t p by auto
    show ?thesis
      using c' t fe_literal [of _ t bufsize numargs strip args "CHR 0x03 # c'"] fe_tab [of _ bufsize numargs strip args c']
      by (auto simp: render_event.simps(2) intro!: exI [of _ "literal_code t @ CHR 0x03 # c'"])
  next
    case arg
    from arg "2.prems" have i: "i \<noteq> []" "\<not> (schar (cur i) < 49 \<or> schar (cur i) > 57)"
      by (auto simp: pevt_loop.simps(2) split: if_splits)
    obtain n where n: "minus_0 (cur i) = int n" "1 \<le> n" "n \<le> 9" using digit_minus_0 [OF i(2)] by blast
    have nat1: "nat (int n - 1) = n - Suc 0" using n(2) by simp
    from arg i n "2.prems" have p: "pevt_loop (drop 1 i) [] (code @ literal_code t @ [CHR 0x01, byte (n - 1)]) (max mx (int n)) = Some (Inr (c, m))"
      by (auto simp: pevt_loop.simps(2) Let_def nat1 split: if_splits)
    obtain c' where c': "max mx (int n) \<le> m" "c = (code @ literal_code t @ [CHR 0x01, byte (n - 1)]) @ c'"
      "\<And>out. length out + length (render_event ?raw (drop 1 i)) + 4 \<le> bufsize \<Longrightarrow>
         fe_loop bufsize numargs strip args out c' = Some (event_text (out @ render_event ?txt (drop 1 i)))"
      using "2.IH"(5) [OF _ _ _ _ _ _ refl] arg i n p by (auto simp: nat1)
    obtain ar where ar: "args n = Some ar" using assms(3) n by blast
    have len: "length (arg_text (strip n) ar) \<le> length ar" by (rule length_arg_text)
    show ?thesis
      using c' arg n ar len assms(2) fe_literal [of _ t bufsize numargs strip args "CHR 0x01 # byte (n - 1) # c'"]
        fe_arg [where args = args and n = n and strip = strip and numargs = numargs and bufsize = bufsize and r = c', OF ar n(2,3)]
      by (auto simp: render_event.simps(2) intro!: exI [of _ "literal_code t @ CHR 0x01 # byte (n - 1) # c'"])
  qed
qed

text \<open>C28: An event is shown as its text says: when \<open>pevt_build_string\<close> accepts a text, running its
  codes on the arguments gives the text with every \<open>$n\<close> replaced by the argument, without its
  formatting, and every \<open>$t\<close> by a tab, provided the whole fits into the buffer.
\<close>

theorem event_text_correct:
  assumes "pevt_build_string u input = Some (Inr (code, m))" "m \<le> numargs + 1"
    and "\<And>n. 1 \<le> n \<Longrightarrow> n \<le> 9 \<Longrightarrow> args n \<noteq> None"
    and "length (render_event (\<lambda>n. the (args n)) (check_special_chars u True input)) + 4 \<le> bufsize"
  shows "format_event bufsize numargs strip args (Some code) =
    Some (event_text (render_event (\<lambda>n. arg_text (strip n) (the (args n))) (check_special_chars u True input)))"
proof -
  obtain c' where c': "code = [] @ c'"
    "\<And>out. length out + length (render_event (\<lambda>n. the (args n)) (check_special_chars u True input)) + 4 \<le> bufsize \<Longrightarrow>
       fe_loop bufsize numargs strip args out c' =
         Some (event_text (out @ render_event (\<lambda>n. arg_text (strip n) (the (args n))) (check_special_chars u True input)))"
    using pevt_loop_runs [OF assms(1) [unfolded pevt_build_string_def] assms(2,3), where bufsize = bufsize and strip = strip] by auto
  then show ?thesis using assms(4) c'(2) [of "[]"] by (simp add: format_event_def)
qed

definition demo_args :: "nat \<Rightarrow> string option" where
  "demo_args n = (if n = 1 then Some ''bob'' else if n = 2 then Some (CHR 0x02 # ''hi'') else Some [])"

lemma demo_special_chars: "check_special_chars (\<lambda>_. None) True ''<$1>$t$2'' = ''<$1>$t$2''"
  by (simp add: check_special_chars_plain)

lemma demo_event_codes:
  "pevt_build_string (\<lambda>_. None) ''<$1>$t$2'' =
     Some (Inr (literal_code ''<'' @ [CHR 0x01, CHR 0x00] @ literal_code ''>'' @ [CHR 0x03] @ [CHR 0x01, CHR 0x01, CHR 0x02], 2))"
  by (simp add: pevt_build_string_def demo_special_chars pevt_loop.simps(2) schar_def uchar_def minus_0_def)

theorem event_text_correct_witness:
  "format_event 4096 2 (\<lambda>_. True) demo_args
     (Some (literal_code ''<'' @ [CHR 0x01, CHR 0x00] @ literal_code ''>'' @ [CHR 0x03] @ [CHR 0x01, CHR 0x01, CHR 0x02])) =
   Some (event_text (render_event (\<lambda>n. arg_text True (the (demo_args n))) ''<$1>$t$2''))"
proof -
  have "length (render_event (\<lambda>n. the (demo_args n)) ''<$1>$t$2'') = 9"
    by (simp add: render_event.simps(2) demo_args_def minus_0_def schar_def uchar_def)
  moreover have "demo_args n \<noteq> None" for n by (simp add: demo_args_def)
  ultimately show ?thesis
    using event_text_correct [OF demo_event_codes, of 2 demo_args 4096 "\<lambda>_. True"] by (simp add: demo_special_chars)
qed

text \<open>
  A pair of dollars is not a dollar: the second one begins a variable. And the room for an
  argument is not kept for the literal behind it, whose end may be written behind the buffer.
\<close>

lemma dollars_are_no_dollar:
  "pevt_build_string (\<lambda>_. None) ''$$'' = Some (Inl Ends_with_dollar)"
  "pevt_build_string (\<lambda>_. None) ''$$x'' = Some (Inl (Invalid_argument (CHR ''x'')))"
  "render_event (\<lambda>_. ''arg'') ''$$1'' = ''$arg''"
  by (simp_all add: pevt_build_string_def check_special_chars_plain pevt_loop.simps(2) render_event.simps(2)
      schar_def uchar_def minus_0_def)

lemma format_event_overflows:
  "format_event 16 1 (\<lambda>_. False) (\<lambda>_. Some (replicate 20 (CHR ''x''))) (Some ([CHR 0x01, CHR 0x00] @ literal_code ''abc'' @ [CHR 0x02])) = None"
proof -
  have "fe_loop 16 1 (\<lambda>_. False) args (replicate 12 (CHR ''x'')) (literal_code ''abc'' @ [CHR 0x02]) = None" for args
    using fe_literal [of "replicate 12 (CHR ''x'')" "''abc''" 16 1] by (simp add: fe_loop.simps(2))
  then show ?thesis
    by (simp add: format_event_def fe_loop.simps(2) schar_def uchar_def cut_arg_def arg_text_def strip_hidden_attribute_def
        HIDDEN_CHAR_def Let_def)
qed

text \<open>A translated default that is right is not used: the one in the source replaces it.\<close>

lemma translated_default_dropped:
  "make_event (\<lambda>_. None) (\<lambda>_. ''hallo'') \<lparr>te_name = ''X'', te_symbol = ''X'', te_args = 0, te_plain = False, te_def = ''hello''\<rparr> ''$'' =
     Some (''hello'', literal_code ''hello'' @ [CHR 0x02])"
  by (simp add: make_event_def default_text_def pevt_build_string_def check_special_chars_plain pevt_loop.simps(2))

subsection \<open>The file of the texts\<close>

fun buf_lines :: "string \<Rightarrow> string list" where
  "buf_lines [] = []"
| "buf_lines (ch # s) =
     (if ch = CHR 0x0A then [] # buf_lines s
      else case buf_lines s of [] \<Rightarrow> [] | l # ls \<Rightarrow> (ch # l) # ls)"

lemma lines_from_line:
  assumes "CHR 0x0A \<notin> set l"
  shows "lines_from (p @ l @ CHR 0x0A # r) (length p) = l # lines_from (p @ l @ CHR 0x0A # r) (length p + length l + 1)"
proof -
  have "line_end (p @ l @ CHR 0x0A # r) (length p) (length (p @ l @ CHR 0x0A # r)) = Some (length p + length l)"
    using assms
  proof (induction l arbitrary: p)
    case Nil
    then show ?case by (subst line_end.simps) simp
  next
    case (Cons c l)
    then show ?case using Cons.IH [of "p @ [c]"] by (subst line_end.simps) auto
  qed
  then show ?thesis by (subst lines_from.simps) (simp add: buf_get_line_def)
qed

lemma lines_from_end: "lines_from s (length s) = []"
  by (subst lines_from.simps) (simp add: buf_get_line_def)

text \<open>The lines of a file that ends with a line feed.\<close>

lemma lines_from_ends:
  "\<forall>l \<in> set ls. CHR 0x0A \<notin> set l \<Longrightarrow> lines_from (p @ concat (map (\<lambda>l. l @ [CHR 0x0A]) ls)) (length p) = ls"
proof (induction ls arbitrary: p)
  case Nil
  then show ?case using lines_from_end [of p] by simp
next
  case (Cons l ls)
  then show ?case
    using lines_from_line [of l p "concat (map (\<lambda>l. l @ [CHR 0x0A]) ls)"] Cons.IH [of "p @ l @ [CHR 0x0A]"] by simp
qed

definition event_lines :: "te_entry \<Rightarrow> string \<Rightarrow> string list" where
  "event_lines e t = [''event_name='' @ te_name e, ''event_text='' @ t, []]"

definition saved_text :: "te_entry \<Rightarrow> string \<Rightarrow> bool" where
  "saved_text e t \<longleftrightarrow> CHR 0x0A \<notin> set (te_name e) \<and> CHR 0x0A \<notin> set t \<and> no_nul (te_name e) \<and> no_nul t \<and>
     length (te_name e) < 1000 \<and> length t < 1000"

lemma pevent_save_lines:
  "list_all2 saved_text te texts \<Longrightarrow>
   pevent_save te texts = Some (concat (map (\<lambda>l. l @ [CHR 0x0A]) (concat (map2 event_lines te texts))))"
  by (induction te texts rule: list_all2_induct) (auto simp: snprintf_write_def saved_text_def event_lines_def)

text \<open>Reading the lines of one event: the one before is stored, and this one is pending.\<close>

lemma pevent_line_eq:
  assumes "no_nul name" "name \<noteq> []" "cur name \<noteq> CHR ''#''" "CHR ''='' \<notin> set name" "no_nul v"
  shows "pevent_line te (name @ CHR ''='' # v) st =
    (if name = ''event_name'' then
       (let st = (if pe_penum st \<noteq> None then pevent_trigger_load st else st) in
        case pevent_find te v (pe_i st) of
          None \<Rightarrow> st\<lparr>pe_penum := None\<rparr>
        | Some j \<Rightarrow> st\<lparr>pe_penum := Some j, pe_i := j\<rparr>)
     else if name = ''event_text'' then st\<lparr>pe_text := Some v\<rparr>
     else st)"
proof -
  have buf: "upto_chr (name @ CHR ''='' # v) NUL = name @ CHR ''='' # v"
    by (rule upto_nul) (use assms in simp)
  have c: "cur (name @ CHR ''='' # v) \<noteq> CHR ''#''" using assms(2,3) by (cases name) auto
  show ?thesis
    unfolding pevent_line_def Let_def buf upto_eq [OF assms(4)] strchr_eq [OF assms(4)] option.case list.sel
    using c by auto
qed

lemmas pevent_line_name = pevent_line_eq [of "''event_name''", simplified]
lemmas pevent_line_text = pevent_line_eq [of "''event_text''", simplified]

lemma pevent_line_empty: "pevent_line te [] st = st"
  by (simp add: pevent_line_def upto_chr_def)

lemma find_unique: "P x \<Longrightarrow> x \<in> set xs \<Longrightarrow> \<forall>y \<in> set xs. P y \<longrightarrow> y = x \<Longrightarrow> find P xs = Some x"
proof -
  assume a: "P x" "x \<in> set xs" "\<forall>y \<in> set xs. P y \<longrightarrow> y = x"
  then obtain z where z: "find P xs = Some z" by (metis find_None_iff option.exhaust)
  then have "z \<in> set xs" "P z" by (auto simp: find_Some_iff)
  then have "z = x" using a(3) by blast
  then show ?thesis using z by (rule subst)
qed

lemma pevent_find_unique:
  assumes "distinct (map te_name te)" "j < length te"
  shows "pevent_find te (te_name (te ! j)) i = Some j"
  unfolding pevent_find_def
proof (rule find_unique)
  show "j \<in> set ([i + 1..<length te] @ [0..<min (i + 1) (length te)])" using assms(2) by auto
next
  show "\<forall>k \<in> set ([i + 1..<length te] @ [0..<min (i + 1) (length te)]). te_name (te ! k) = te_name (te ! j) \<longrightarrow> k = j"
    using nth_eq_iff_index_eq [OF assms(1), of _ j] assms(2) by auto
qed simp

text \<open>The first \<open>j\<close> texts have been read, and the last of them is pending.\<close>

definition loaded :: "string list \<Rightarrow> nat \<Rightarrow> pevent_state \<Rightarrow> bool" where
  "loaded texts j st \<longleftrightarrow>
     length (pe_texts st) = length texts \<and> (\<forall>k. k + 1 < j \<longrightarrow> pe_texts st ! k = Some (texts ! k)) \<and>
     (if j = 0 then pe_text st = None else pe_text st = Some (texts ! (j - 1))) \<and> pe_penum st = Some (j - 1)"

lemma loaded_trigger:
  assumes "loaded texts j st" "j \<le> length texts"
  shows "length (pe_texts (pevent_trigger_load st)) = length texts \<and>
    (\<forall>k < j. pe_texts (pevent_trigger_load st) ! k = Some (texts ! k))"
proof (cases "j = 0")
  case False
  then show ?thesis
    using assms by (auto simp: loaded_def pevent_trigger_load_def nth_list_update less_Suc_eq)
qed (use assms in \<open>simp add: loaded_def pevent_trigger_load_def\<close>)

lemma loaded_step:
  assumes "loaded texts j st" "distinct (map te_name te)" "length te = length texts" "j < length te"
    "saved_text (te ! j) (texts ! j)"
  shows "loaded texts (j + 1) (foldl (\<lambda>st l. pevent_line te l st) st (event_lines (te ! j) (texts ! j)))"
proof -
  have "pe_penum st = Some (j - 1)" using assms(1) by (simp add: loaded_def)
  then have "foldl (\<lambda>st l. pevent_line te l st) st (event_lines (te ! j) (texts ! j)) =
      (pevent_trigger_load st)\<lparr>pe_penum := Some j, pe_i := j, pe_text := Some (texts ! j)\<rparr>"
    using assms(5) pevent_find_unique [OF assms(2,4)]
    by (simp add: event_lines_def pevent_line_name pevent_line_text pevent_line_empty saved_text_def Let_def)
  then show ?thesis using loaded_trigger [OF assms(1)] assms(3,4) by (simp add: loaded_def)
qed

lemma loaded_all:
  assumes "distinct (map te_name te)" "list_all2 saved_text te texts" "loaded texts j st" "j \<le> length te"
  shows "loaded texts (length te) (foldl (\<lambda>st l. pevent_line te l st) st (concat (map2 event_lines (drop j te) (drop j texts))))"
  using assms(3,4)
proof (induction "length te - j" arbitrary: j st)
  case (Suc d)
  have len: "length te = length texts" and j: "j < length te"
    using assms(2) Suc.hyps(2) by (auto dest: list_all2_lengthD)
  have "saved_text (te ! j) (texts ! j)" using assms(2) j by (simp add: list_all2_conv_all_nth)
  from Suc.hyps(1) [OF _ loaded_step [OF Suc.prems(1) assms(1) len j this]] Suc.hyps(2) j len show ?case
    by (simp flip: Cons_nth_drop_Suc)
qed simp

text \<open>\<open>pevents.conf\<close> as \<open>pevent_save\<close> writes it gives back the text of every event, whatever the
  texts in memory were, when no text has a line feed or more than 999 bytes.
\<close>

theorem pevents_file_roundtrip:
  assumes "distinct (map te_name te)" "list_all2 saved_text te texts" "length old = length te"
  shows "map_option (\<lambda>file. pevent_load te file old) (pevent_save te texts) = Some (map Some texts)"
proof -
  let ?st = "\<lparr>pe_texts = old, pe_penum = Some 0, pe_i = 0, pe_text = None\<rparr>"
  let ?ls = "concat (map2 event_lines te texts)"
  have len: "length te = length texts" using assms(2) by (rule list_all2_lengthD)
  have "loaded texts 0 ?st" using assms(3) len by (simp add: loaded_def)
  from loaded_all [OF assms(1,2) this]
  have all: "loaded texts (length texts) (foldl (\<lambda>st l. pevent_line te l st) ?st ?ls)" by (simp add: len)
  have "\<forall>l \<in> set ?ls. CHR 0x0A \<notin> set l"
    using assms(2) by (auto simp: event_lines_def list_all2_conv_all_nth saved_text_def set_zip)
  then have "pevent_load te (concat (map (\<lambda>l. l @ [CHR 0x0A]) ?ls)) old =
      pe_texts (pevent_trigger_load (foldl (\<lambda>st l. pevent_line te l st) ?st ?ls))"
    using lines_from_ends [of ?ls "[]"] by (simp add: pevent_load_def)
  also have "\<dots> = map Some texts" using loaded_trigger [OF all] by (intro nth_equalityI) auto
  finally show ?thesis by (simp add: pevent_save_lines [OF assms(2)])
qed

definition demo_te :: "te_entry list" where
  "demo_te = [\<lparr>te_name = ''Join'', te_symbol = ''XP_TE_JOIN'', te_args = 4, te_plain = False, te_def = ''$1''\<rparr>,
     \<lparr>te_name = ''Beep'', te_symbol = ''XP_TE_BEEP'', te_args = 0, te_plain = True, te_def = []\<rparr>]"

theorem pevents_file_roundtrip_witness:
  "map_option (\<lambda>file. pevent_load demo_te file [None, Some ''old'']) (pevent_save demo_te [''$t$1 = joined'', ''x'']) =
     Some [Some ''$t$1 = joined'', Some ''x'']"
  using pevents_file_roundtrip [of demo_te "[''$t$1 = joined'', ''x'']" "[None, Some ''old'']"]
  by (simp add: demo_te_def saved_text_def)

end
