(* ===== verification/LogFile.thy ===== *)
theory LogFile
  imports TextEvents
begin

text \<open>
  The log files, \<open>src/common/text.c\<close>: the name of the file of a channel, made from the mask of the
  user, and the lines written to it. \<open>None\<close> is a write behind a buffer or a read behind a string.
  The file system and \<open>strftime\<close> are parameters.
\<close>

definition LOG_NAME :: nat where "LOG_NAME = 384"

text \<open>The name of a channel as a name of a file; a sequence of bytes is stepped over as a whole.\<close>

function log_create_filename :: "string \<Rightarrow> string option" where
  "log_create_filename [] = Some []"
| "log_create_filename (ch # s) =
     (let mbl = g_utf8_skip ch in
      if mbl = 1 then
        (let lower = rfc_tolower ch
         in map_option (Cons (if lower = CHR ''/'' then CHR ''_'' else lower)) (log_create_filename s))
      else if length s + 1 < mbl then None
      else map_option (append (take mbl (ch # s))) (log_create_filename (drop (mbl - 1) s)))"
  by pat_completeness auto
termination by (relation "measure length") auto

text \<open>
  Strings are copied to a buffer of \<open>cap\<close> bytes that holds \<open>out\<close>. The last byte is for the
  terminator. A \<open>%\<close> is doubled, unless it is the first character.
\<close>

fun log_escape_strcpy :: "nat \<Rightarrow> string \<Rightarrow> string \<Rightarrow> string" where
  "log_escape_strcpy cap out [] = out"
| "log_escape_strcpy cap out (ch # src) =
     (if length out + 1 = cap then out
      else
        let out = out @ [ch] in
        if cur src = CHR ''%'' then
          (if length out + 1 = cap then out else log_escape_strcpy cap (out @ ''%'') src)
        else log_escape_strcpy cap out src)"

text \<open>The loop over the mask, whose end is tested after each step only.\<close>

fun log_insert_loop :: "nat \<Rightarrow> string \<Rightarrow> string \<Rightarrow> string \<Rightarrow> string \<Rightarrow> string \<Rightarrow> string option" where
  "log_insert_loop cap c n s out [] = Some out"
| "log_insert_loop cap c n s out (f # fmt) =
     (if f = CHR ''%'' then
        (case fmt of
           [] \<Rightarrow> None
         | x # fmt \<Rightarrow>
             if x = CHR ''c'' then log_insert_loop cap c n s (log_escape_strcpy cap out c) fmt
             else if x = CHR ''n'' then log_insert_loop cap c n s (log_escape_strcpy cap out n) fmt
             else if x = CHR ''s'' then log_insert_loop cap c n s (log_escape_strcpy cap out s) fmt
             else if length out + 2 > cap then None
             else if length out + 2 = cap then Some (out @ ''%'')
             else log_insert_loop cap c n s (out @ [CHR ''%'', x]) fmt)
      else if length out + 1 = cap then Some out
      else log_insert_loop cap c n s (out @ [f]) fmt)"

definition log_insert_vars :: "nat \<Rightarrow> string \<Rightarrow> string \<Rightarrow> string \<Rightarrow> string \<Rightarrow> string option" where
  "log_insert_vars bufsize fmt c n s = log_insert_loop bufsize c n s [] fmt"

record log_env =
  irc_logmask :: string
  get_xdir :: string
  strftime_utf8 :: "string \<Rightarrow> string"
  is_absolute :: "string \<Rightarrow> bool"

definition log_create_pathname :: "log_env \<Rightarrow> string \<Rightarrow> string \<Rightarrow> string option \<Rightarrow> string option" where
  "log_create_pathname e servname channame netname =
     (case ((case netname of None \<Rightarrow> Some ''NETWORK'' | Some n \<Rightarrow> log_create_filename n),
            (if rfc_casecmp channame servname = 0 then Some ''server'' else log_create_filename channame),
            log_create_filename servname) of
        (Some n, Some c, Some s) \<Rightarrow>
          map_option
            (\<lambda>fname. let fnametime = strftime_utf8 e fname in
               take (LOG_NAME - 1)
                 (if is_absolute e (irc_logmask e) then fnametime else get_xdir e @ ''/logs/'' @ fnametime))
            (log_insert_vars LOG_NAME (irc_logmask e) c n s)
      | _ \<Rightarrow> None)"

text \<open>
  \<open>log_write\<close>: what is written to the file, and whether it is open behind it. \<open>opened\<close> is what
  \<open>log_open\<close> returns, \<open>exists\<close> whether the file the name stands for now is there. A text that
  consists of formatting codes is empty when they are gone, and the byte before it is read.
\<close>

definition log_write ::
    "bool \<Rightarrow> 8 word \<Rightarrow> bool \<Rightarrow> bool \<Rightarrow> string option \<Rightarrow> bool \<Rightarrow> string \<Rightarrow> (bool \<times> string) option" where
  "log_write irc_logging text_logging opened exists stamp logfd txt =
     (if (if text_logging = SET_DEFAULT then \<not> irc_logging else text_logging \<noteq> SET_ON) then Some (logfd, [])
      else
        let logfd = (if \<not> logfd then opened else logfd); logfd = (if \<not> exists then opened else logfd) in
        if \<not> logfd then Some (False, [])
        else
          let temp = strip_loop STRIP_ALL (length txt) txt 0 False in
          if temp = [] then None
          else Some (True, (case stamp of None \<Rightarrow> [] | Some t \<Rightarrow> t) @ temp @
                           (if last temp \<noteq> CHR 0x0A then [CHR 0x0A] else [])))"

definition log_open_or_close :: "bool \<Rightarrow> 8 word \<Rightarrow> bool \<Rightarrow> bool" where
  "log_open_or_close irc_logging text_logging opened =
     (if (if text_logging = SET_DEFAULT then irc_logging else text_logging \<noteq> 0) then opened else False)"

subsection \<open>The mask stays in its buffer\<close>

text \<open>A mask whose only variables are \<open>%c\<close>, \<open>%n\<close> and \<open>%s\<close>.\<close>

fun only_vars :: "string \<Rightarrow> bool" where
  "only_vars [] = True"
| "only_vars (f # fmt) =
     (if f = CHR ''%'' then (case fmt of [] \<Rightarrow> False | x # fmt \<Rightarrow> x \<in> set ''cns'' \<and> only_vars fmt) else only_vars fmt)"

lemma log_escape_fits: "length out < cap \<Longrightarrow> length (log_escape_strcpy cap out src) < cap"
  by (induction cap out src rule: log_escape_strcpy.induct) (auto simp: Let_def)

lemma log_escape_prefix: "\<exists>t. log_escape_strcpy cap out src = out @ t"
  by (induction cap out src rule: log_escape_strcpy.induct) (auto simp: Let_def)

lemma log_insert_fits:
  "only_vars fmt \<Longrightarrow> length out < cap \<Longrightarrow> \<exists>t. log_insert_loop cap c n s out fmt = Some t \<and> length t < cap"
proof (induction "length fmt" arbitrary: fmt out rule: less_induct)
  case less
  show ?case
  proof (cases fmt)
    case (Cons f rest)
    show ?thesis
    proof (cases "f = CHR ''%''")
      case True
      then obtain x r where x: "rest = x # r" "x = CHR ''c'' \<or> x = CHR ''n'' \<or> x = CHR ''s''" "only_vars r"
        using less.prems(1) Cons by (auto split: list.splits)
      have "\<exists>t. log_insert_loop cap c n s (log_escape_strcpy cap out v) r = Some t \<and> length t < cap" for v
        using less.hyps [of r "log_escape_strcpy cap out v"] log_escape_fits [OF less.prems(2)] x Cons by simp
      then show ?thesis using x(1,2) True Cons by (elim disjE) simp_all
    next
      case False
      then show ?thesis using less.hyps [of rest "out @ [f]"] less.prems Cons by simp
    qed
  qed (use less.prems in simp)
qed

text \<open>What the variables stand for, doubled percent signs included.\<close>

fun log_escape :: "string \<Rightarrow> string" where
  "log_escape [] = []"
| "log_escape (ch # src) = ch # (if cur src = CHR ''%'' then CHR ''%'' # log_escape src else log_escape src)"

fun log_expand :: "string \<Rightarrow> string \<Rightarrow> string \<Rightarrow> string \<Rightarrow> string" where
  "log_expand c n s [] = []"
| "log_expand c n s (f # fmt) =
     (if f = CHR ''%'' then
        (case fmt of
           [] \<Rightarrow> []
         | x # fmt \<Rightarrow>
             (if x = CHR ''c'' then log_escape c else if x = CHR ''n'' then log_escape n
              else if x = CHR ''s'' then log_escape s else [CHR ''%'', x]) @ log_expand c n s fmt)
      else f # log_expand c n s fmt)"

lemma log_escape_copy: "length out + length (log_escape src) < cap \<Longrightarrow> log_escape_strcpy cap out src = out @ log_escape src"
  by (induction cap out src rule: log_escape_strcpy.induct) (auto simp: Let_def)

lemma log_insert_expand:
  "(\<forall>p. fmt \<noteq> p @ ''%'') \<Longrightarrow> length out + length (log_expand c n s fmt) < cap \<Longrightarrow>
   log_insert_loop cap c n s out fmt = Some (out @ log_expand c n s fmt)"
proof (induction "length fmt" arbitrary: fmt out rule: less_induct)
  case less
  show ?case
  proof (cases fmt)
    case (Cons f rest)
    have tails: "\<forall>p. rest \<noteq> p @ ''%''" using less.prems(1) Cons by (metis append_Cons)
    show ?thesis
    proof (cases "f = CHR ''%''")
      case True
      then obtain x r where x: "rest = x # r" using less.prems(1) Cons by (cases rest) (auto dest: spec [of _ "[]"])
      have r: "\<forall>p. r \<noteq> p @ ''%''" using tails x by (metis append_Cons)
      have var: "log_insert_loop cap c n s (log_escape_strcpy cap out v) r = Some (out @ log_escape v @ log_expand c n s r)"
        if "length out + (length (log_escape v) + length (log_expand c n s r)) < cap" for v
        using less.hyps [of r "out @ log_escape v"] log_escape_copy [of out v cap] that r x Cons by simp
      have other: "log_insert_loop cap c n s (out @ [CHR ''%'', x]) r = Some (out @ [CHR ''%'', x] @ log_expand c n s r)"
        if "length out + 2 + length (log_expand c n s r) < cap"
        using less.hyps [of r "out @ [CHR ''%'', x]"] that r x Cons by simp
      consider "x = CHR ''c''" | "x = CHR ''n''" | "x = CHR ''s''" | "x \<noteq> CHR ''c''" "x \<noteq> CHR ''n''" "x \<noteq> CHR ''s''" by blast
      then show ?thesis
        by cases (use var other less.prems(2) True Cons x in simp_all)
    next
      case False
      then show ?thesis using less.hyps [of rest "out @ [f]"] less.prems tails Cons by simp
    qed
  qed simp
qed

text \<open>The name of a log file never overflows its buffer when the mask has no variables but
  \<open>%c\<close>, \<open>%n\<close> and \<open>%s\<close>, however long the names are; and any mask that does not end in a \<open>%\<close> is
  expanded in full when the result fits.
\<close>

theorem log_mask_safe:
  assumes "0 < bufsize"
  shows "(only_vars fmt \<longrightarrow> (\<exists>t. log_insert_vars bufsize fmt c n s = Some t \<and> length t < bufsize)) \<and>
    ((\<forall>p. fmt \<noteq> p @ ''%'') \<and> length (log_expand c n s fmt) < bufsize \<longrightarrow>
       log_insert_vars bufsize fmt c n s = Some (log_expand c n s fmt))"
  using log_insert_fits [of fmt "[]" bufsize c n s] log_insert_expand [of fmt "[]" c n s bufsize] assms
  by (simp add: log_insert_vars_def)

theorem log_mask_safe_witness:
  "log_insert_vars 8 ''%n/%c.log'' ''#c'' ''net'' ''srv'' = Some ''net/#c.'' \<and>
   log_insert_vars 384 ''%n/%c.log'' ''#c'' ''net'' ''srv'' = Some ''net/#c.log''"
  using log_mask_safe [of 384 "''%n/%c.log''" "''#c''" "''net''" "''srv''"] log_mask_safe [of 8 "''%n/%c.log''" "''#c''" "''net''" "''srv''"]
  by (simp add: log_insert_vars_def)

text \<open>A \<open>%\<close> that meets the end of the buffer, and one that ends the mask.\<close>

lemma log_mask_overflow:
  "log_insert_vars 8 ''%c%Y'' ''#channel'' ''net'' ''srv'' = None"
  "log_insert_vars 384 ''log%'' ''#c'' ''net'' ''srv'' = None"
  by (simp_all add: log_insert_vars_def)

lemma log_first_percent: "log_escape ''%a%b'' = ''%a%%b''"
  by simp

end

