(* ===== verification/Notify.thy ===== *)
theory Notify
  imports Session IrcOut
begin

text \<open>
  The friends list, \<open>src/common/notify.c\<close>: nicks and accounts whose presence is tracked on each
  server by WATCH, MONITOR, ISON or the accounts that are seen, and the file \<open>notify.conf\<close>.

  An entry keeps its \<open>server_list\<close>, at most one record for a server. A loop over the list whose
  body touches only its own entry is \<open>on_entries\<close>, with the calls of each turn. \<open>serv_list\<close> and
  the users of all sessions are part of the state, as the C code reads them. \<open>None\<close> is a write
  behind a buffer or a read of \<open>word[PDIWORDS]\<close>.
\<close>

record notify_per_server =
  ps_server :: addr
  laston :: int
  lastseen :: int
  lastoff :: int
  ison :: bool

record notify =
  n_name :: "string option"
  n_account :: "string option"
  n_networks :: "string option"
  server_list :: "notify_per_server list"

text \<open>A server; \<open>nv_network\<close> is what \<open>server_get_network (serv, TRUE)\<close> answers.\<close>

record nserver =
  nv_serv :: server
  nv_connected :: bool
  nv_end_of_motd :: bool
  nv_network :: string
  nv_servername :: string

datatype notify_call =
    N_send addr "string list"
  | N_emit string "string list"
  | N_print string
  | N_whois addr string
  | Fe_notify_update "string option"
  | Fe_notify_friends_changed
  | Fe_notify_ask string

record notify_state =
  notify_list :: "notify list"
  serv_list :: "nserver list"
  sess_users :: "(addr \<times> user list) list"
  nt_now :: int
  whois_online :: bool
  nt_calls :: "notify_call list"

definition nv_addr :: "nserver \<Rightarrow> addr" where
  "nv_addr serv = serv_addr (nv_serv serv)"

definition nt_call :: "notify_call list \<Rightarrow> notify_state \<Rightarrow> notify_state" where
  "nt_call cs st = st\<lparr>nt_calls := nt_calls st @ cs\<rparr>"

subsection \<open>The networks of an entry\<close>

text \<open>\<open>despacify_dup\<close>: a copy without the blanks.\<close>

fun despacify_dup :: "string \<Rightarrow> string" where
  "despacify_dup [] = []"
| "despacify_dup (c # str) = (if c \<noteq> CHR '' '' then c # despacify_dup str else despacify_dup str)"

definition notify_netcmp :: "string \<Rightarrow> nserver \<Rightarrow> int" where
  "notify_netcmp str serv = (if rfc_casecmp str (despacify_dup (nv_network serv)) = 0 then 0 else 1)"

definition notify_do_network :: "notify \<Rightarrow> nserver \<Rightarrow> bool" where
  "notify_do_network notify serv =
     (case n_networks notify of
        None \<Rightarrow> True
      | Some networks \<Rightarrow> \<not> fst (token_foreach networks (CHR '','') (\<lambda>w u. (notify_netcmp w serv, u)) ()))"

subsection \<open>The record of an entry for a server\<close>

definition new_per_server :: "nserver \<Rightarrow> notify_per_server" where
  "new_per_server serv = \<lparr>ps_server = nv_addr serv, laston = 0, lastseen = 0, lastoff = 0, ison = False\<rparr>"

definition per_server :: "notify \<Rightarrow> nserver \<Rightarrow> notify_per_server option" where
  "per_server notify serv = find (\<lambda>s. ps_server s = nv_addr serv) (server_list notify)"

text \<open>\<open>notify_find_server_entry\<close>: the entry, perhaps with a new record, and the record.\<close>

definition notify_find_server_entry :: "notify \<Rightarrow> nserver \<Rightarrow> notify \<times> notify_per_server option" where
  "notify_find_server_entry notify serv =
     (case per_server notify serv of
        Some servnot \<Rightarrow> (notify, Some servnot)
      | None \<Rightarrow>
          if \<not> notify_do_network notify serv then (notify, None)
          else (notify\<lparr>server_list := new_per_server serv # server_list notify\<rparr>, Some (new_per_server serv)))"

text \<open>A change of the record for a server, through the pointer that was found.\<close>

fun update_first :: "('a \<Rightarrow> bool) \<Rightarrow> ('a \<Rightarrow> 'a) \<Rightarrow> 'a list \<Rightarrow> 'a list" where
  "update_first P f [] = []"
| "update_first P f (x # xs) = (if P x then f x # xs else x # update_first P f xs)"

definition upd_per_server ::
    "nserver \<Rightarrow> (notify_per_server \<Rightarrow> notify_per_server) \<Rightarrow> notify \<Rightarrow> notify" where
  "upd_per_server serv f notify =
     notify\<lparr>server_list := update_first (\<lambda>s. ps_server s = nv_addr serv) f (server_list notify)\<rparr>"

definition notify_announce_offline ::
    "notify_state \<Rightarrow> nserver \<Rightarrow> string \<Rightarrow> bool \<Rightarrow> notify \<Rightarrow> notify \<times> notify_call list" where
  "notify_announce_offline st serv nick quiet notify =
     (upd_per_server serv (\<lambda>s. s\<lparr>ison := False, lastoff := nt_now st\<rparr>) notify,
      (if quiet then [] else [N_emit ''NOTIFYOFFLINE'' [nick, nv_servername serv, nv_network serv]]) @
      [Fe_notify_update (Some nick), Fe_notify_update None])"

definition notify_announce_online ::
    "notify_state \<Rightarrow> nserver \<Rightarrow> notify_per_server \<Rightarrow> string \<Rightarrow> notify \<Rightarrow> notify \<times> notify_call list" where
  "notify_announce_online st serv servnot nick notify =
     (let notify = upd_per_server serv (\<lambda>s. s\<lparr>lastseen := nt_now st\<rparr>) notify in
      if ison servnot then (notify, [])
      else
        (upd_per_server serv (\<lambda>s. s\<lparr>ison := True, laston := nt_now st\<rparr>) notify,
         [N_emit ''NOTIFYONLINE'' [nick, nv_servername serv, nv_network serv],
          Fe_notify_update (Some nick), Fe_notify_update None] @
         (if whois_online st then [N_whois (nv_addr serv) (nick @ '' '' @ nick)] else [])))"

subsection \<open>Loops over the list\<close>

definition on_entries ::
    "(notify \<Rightarrow> notify \<times> notify_call list) \<Rightarrow> notify_state \<Rightarrow> notify_state" where
  "on_entries body st =
     (let rs = map body (notify_list st) in
      nt_call (concat (map snd rs)) (st\<lparr>notify_list := map fst rs\<rparr>))"

text \<open>
  \<open>notify_find (serv, nick)\<close>, with what the caller does to the record found: the entries up to
  the found one may get a record for the server.
\<close>

fun notify_find ::
    "nserver \<Rightarrow> string \<Rightarrow> (notify_per_server \<Rightarrow> notify \<Rightarrow> notify \<times> notify_call list) \<Rightarrow> notify list
       \<Rightarrow> notify list \<times> notify_call list" where
  "notify_find serv nick found [] = ([], [])"
| "notify_find serv nick found (notify # list) =
     (let rest = (\<lambda>n. let (l, cs) = notify_find serv nick found list in (n # l, cs)) in
      case n_name notify of
        None \<Rightarrow> rest notify
      | Some name \<Rightarrow>
          (case notify_find_server_entry notify serv of
             (notify, None) \<Rightarrow> rest notify
           | (notify, Some servnot) \<Rightarrow>
               if p_cmp (nv_serv serv) name nick = 0
               then (let (n, cs) = found servnot notify in (n # list, cs))
               else rest notify))"

definition find_and ::
    "nserver \<Rightarrow> string \<Rightarrow> (notify_per_server \<Rightarrow> notify \<Rightarrow> notify \<times> notify_call list)
       \<Rightarrow> notify_state \<Rightarrow> notify_state" where
  "find_and serv nick found st =
     (let (l, cs) = notify_find serv nick found (notify_list st) in nt_call cs (st\<lparr>notify_list := l\<rparr>))"

definition notify_set_offline :: "nserver \<Rightarrow> string \<Rightarrow> bool \<Rightarrow> notify_state \<Rightarrow> notify_state" where
  "notify_set_offline serv nick quiet st =
     find_and serv nick (\<lambda>_. notify_announce_offline st serv nick quiet) st"

definition notify_set_online :: "nserver \<Rightarrow> string \<Rightarrow> notify_state \<Rightarrow> notify_state" where
  "notify_set_online serv nick st =
     find_and serv nick (\<lambda>servnot. notify_announce_online st serv servnot nick) st"

text \<open>
  The lists of numerics 730 and 731: \<open>strtok\<close> skips empty tokens; the nick ends at a \<open>!\<close> and is
  cut to its buffer.
\<close>

definition list_nicks :: "string \<Rightarrow> string list" where
  "list_nicks users =
     map (\<lambda>token. take (NICKLEN - 1) (upto_chr token (CHR ''!''))) (filter (\<lambda>t. t \<noteq> []) (split_at (CHR '','') users))"

definition notify_set_offline_list :: "nserver \<Rightarrow> string \<Rightarrow> bool \<Rightarrow> notify_state \<Rightarrow> notify_state" where
  "notify_set_offline_list serv users quiet st =
     foldl (\<lambda>st nick. notify_set_offline serv nick quiet st) st (list_nicks users)"

definition notify_set_online_list :: "nserver \<Rightarrow> string \<Rightarrow> notify_state \<Rightarrow> notify_state" where
  "notify_set_online_list serv users st =
     foldl (\<lambda>st nick. notify_set_online serv nick st) st (list_nicks users)"

subsection \<open>WATCH, MONITOR and ISON\<close>

definition notify_watch :: "nserver \<Rightarrow> string \<Rightarrow> bool \<Rightarrow> notify_state \<Rightarrow> notify_state" where
  "notify_watch serv nick add st =
     (let addchar = (if add then CHR ''+'' else CHR ''-'');
          send = (\<lambda>tbuf. nt_call [N_send (nv_addr serv) (irc_raw (take 255 tbuf))] st) in
      if supports_monitor (nv_serv serv) then send (''MONITOR '' @ addchar # '' '' @ nick)
      else if supports_watch (nv_serv serv) then send (''WATCH '' @ addchar # nick)
      else st)"

definition notify_watch_all :: "notify \<Rightarrow> bool \<Rightarrow> notify_state \<Rightarrow> notify_state" where
  "notify_watch_all notify add st =
     (case n_name notify of
        None \<Rightarrow> st
      | Some name \<Rightarrow>
          foldl (\<lambda>st serv.
              if nv_connected serv \<and> nv_end_of_motd serv \<and> notify_do_network notify serv
              then notify_watch serv name add st else st)
            st (serv_list st))"

text \<open>\<open>g_strlcat (tbuf, s, size)\<close>\<close>

definition g_strlcat :: "nat \<Rightarrow> string \<Rightarrow> string \<Rightarrow> string" where
  "g_strlcat n tbuf s = tbuf @ take (n - 1 - length tbuf) s"

text \<open>\<open>notify_flush_watches\<close>: the line for the nicks \<open>names\<close>, from \<open>from\<close> up to \<open>end\<close>.\<close>

definition notify_flush_watches :: "nserver \<Rightarrow> string list \<Rightarrow> string" where
  "notify_flush_watches serv names =
     (let monitor = supports_monitor (nv_serv serv) in
      foldl (\<lambda>tbuf name. g_strlcat 512 (g_strlcat 512 tbuf (if monitor then '','' else '' +'')) name)
        (if monitor then ''MONITOR + '' else ''WATCH'') names)"

text \<open>
  The loop of \<open>notify_send_watches\<close>: \<open>batch\<close> are the nicks from \<open>point\<close> up to the current one.
\<close>

fun send_watches_loop :: "nserver \<Rightarrow> string list \<Rightarrow> nat \<Rightarrow> string list \<Rightarrow> string list" where
  "send_watches_loop serv batch len [] = (if len \<noteq> 0 then [notify_flush_watches serv batch] else [])"
| "send_watches_loop serv batch len (name # list) =
     (let format_len = (if supports_monitor (nv_serv serv) then 1 else 2);
          len = len + (length name + format_len) in
      if len > 500
      then notify_flush_watches serv batch # send_watches_loop serv [name] (length name + format_len) list
      else send_watches_loop serv (batch @ [name]) len list)"

text \<open>The nicks of the list that are tracked on a server.\<close>

definition tracked_names :: "nserver \<Rightarrow> notify list \<Rightarrow> string list" where
  "tracked_names serv list =
     List.map_filter (\<lambda>n. if notify_do_network n serv then n_name n else None) list"

definition notify_send_watches :: "nserver \<Rightarrow> notify_state \<Rightarrow> notify_state" where
  "notify_send_watches serv st =
     nt_call (map (\<lambda>l. N_send (nv_addr serv) (irc_raw l))
       (send_watches_loop serv [] 0 (tracked_names serv (notify_list st)))) st"

text \<open>
  The scan of the words of an ISON answer, from \<open>word[i]\<close> on: whether the nick is among them.
\<close>

function ison_seen :: "nserver \<Rightarrow> string \<Rightarrow> (nat \<Rightarrow> string) \<Rightarrow> nat \<Rightarrow> bool" where
  "ison_seen serv name word i =
     (if word i = [] then False
      else if p_cmp (nv_serv serv) name (word i) = 0 then True
      else if i + 1 > PDIWORDS - 5 then False
      else ison_seen serv name word (i + 1))"
  by pat_completeness auto
termination
  by (relation "measure (\<lambda>(s, n, w, i). PDIWORDS - i)") (auto simp: PDIWORDS_def)

declare ison_seen.simps [simp del]

definition markonline_entry ::
    "notify_state \<Rightarrow> nserver \<Rightarrow> (nat \<Rightarrow> string) \<Rightarrow> notify \<Rightarrow> notify \<times> notify_call list" where
  "markonline_entry st serv word notify =
     (case n_name notify of
        None \<Rightarrow> (notify, [])
      | Some name \<Rightarrow>
          (case notify_find_server_entry notify serv of
             (notify, None) \<Rightarrow> (notify, [])
           | (notify, Some servnot) \<Rightarrow>
               if ison_seen serv name word 4 then notify_announce_online st serv servnot name notify
               else if ison servnot then notify_announce_offline st serv name False notify
               else (notify, [])))"

definition notify_markonline :: "nserver \<Rightarrow> (nat \<Rightarrow> string) \<Rightarrow> notify_state \<Rightarrow> notify_state" where
  "notify_markonline serv word st =
     nt_call [Fe_notify_update None] (on_entries (markonline_entry st serv word) st)"

text \<open>
  \<open>strcat\<close> into the 512 bytes of \<open>outbuf\<close>: the loop stops behind 460 characters, but a nick is
  appended before the test.
\<close>

definition strcat_512 :: "string \<Rightarrow> string \<Rightarrow> string option" where
  "strcat_512 outbuf s = (if length outbuf + length s < 512 then Some (outbuf @ s) else None)"

fun checklist_loop :: "string \<Rightarrow> string list \<Rightarrow> string option" where
  "checklist_loop outbuf [] = Some outbuf"
| "checklist_loop outbuf (name # list) =
     Option.bind (strcat_512 outbuf name) (\<lambda>outbuf.
       Option.bind (strcat_512 outbuf '' '') (\<lambda>outbuf.
         if length outbuf > 460 then Some outbuf else checklist_loop outbuf list))"

definition notify_checklist_for_server :: "nserver \<Rightarrow> notify_state \<Rightarrow> notify_state option" where
  "notify_checklist_for_server serv st =
     (let names = tracked_names serv (notify_list st) in
      map_option (\<lambda>outbuf. if names \<noteq> [] then nt_call [N_send (nv_addr serv) (irc_raw outbuf)] st else st)
        (checklist_loop ''ISON '' names))"

definition notify_checklist :: "notify_state \<Rightarrow> notify_state option" where
  "notify_checklist st =
     foldl (\<lambda>r serv. Option.bind r (\<lambda>st.
         if nv_connected serv \<and> nv_end_of_motd serv \<and>
            \<not> supports_watch (nv_serv serv) \<and> \<not> supports_monitor (nv_serv serv)
         then notify_checklist_for_server serv st else Some st))
       (Some st) (serv_list st)"

subsection \<open>Adding and deleting\<close>

fun notify_deluser_loop :: "string \<Rightarrow> notify list \<Rightarrow> (notify \<times> notify list) option" where
  "notify_deluser_loop name [] = None"
| "notify_deluser_loop name (notify # list) =
     (if (case n_name notify of Some n \<Rightarrow> rfc_casecmp n name = 0 | None \<Rightarrow> False) \<or>
         (case n_account notify of Some a \<Rightarrow> a = name | None \<Rightarrow> False)
      then Some (notify, list)
      else map_option (\<lambda>(n, l). (n, notify # l)) (notify_deluser_loop name list))"

definition notify_deluser :: "string \<Rightarrow> notify_state \<Rightarrow> bool \<times> notify_state" where
  "notify_deluser name st =
     (case notify_deluser_loop name (notify_list st) of
        None \<Rightarrow> (False, st)
      | Some (notify, list) \<Rightarrow>
          let st = nt_call [Fe_notify_update (n_name notify)] st;
              st = notify_watch_all (notify\<lparr>server_list := []\<rparr>) False (st\<lparr>notify_list := list\<rparr>)
          in (True, nt_call [Fe_notify_update None, Fe_notify_friends_changed] st))"

definition new_notify :: "string option \<Rightarrow> string option \<Rightarrow> string option \<Rightarrow> notify" where
  "new_notify name account networks =
     \<lparr>n_name = (case name of Some (c # s) \<Rightarrow> Some (take (NICKLEN - 1) (c # s)) | _ \<Rightarrow> None),
      n_account = (case account of Some (c # s) \<Rightarrow> Some (c # s) | _ \<Rightarrow> None),
      n_networks = map_option despacify_dup networks,
      server_list = []\<rparr>"

definition notify_adduser ::
    "string option \<Rightarrow> string option \<Rightarrow> string option \<Rightarrow> notify_state \<Rightarrow> notify_state option" where
  "notify_adduser name account networks st =
     (let notify = new_notify name account networks in
      map_option (\<lambda>st.
          notify_watch_all notify True
            (nt_call [Fe_notify_update (n_name notify), Fe_notify_update None, Fe_notify_friends_changed] st))
        (notify_checklist (st\<lparr>notify_list := notify # notify_list st\<rparr>)))"

text \<open>The command \<open>/NOTIFY\<close> (\<open>outbound.c\<close>): its loop over the words from \<open>word[i]\<close> on.\<close>

function cmd_notify_loop :: "string option \<Rightarrow> (nat \<Rightarrow> string) \<Rightarrow> nat \<Rightarrow> notify_state \<Rightarrow> notify_state option" where
  "cmd_notify_loop net word i st =
     (if i \<ge> PDIWORDS then None
      else if word i = [] then Some st
      else
        (case notify_deluser (word i) st of
           (True, st) \<Rightarrow> Some (nt_call [N_emit ''DELNOTIFY'' [word i]] st)
         | (False, st) \<Rightarrow>
             if net = Some ''ASK'' then cmd_notify_loop net word (i + 1) (nt_call [Fe_notify_ask (word i)] st)
             else Option.bind (notify_adduser (Some (word i)) None net st) (\<lambda>st.
               cmd_notify_loop net word (i + 1) (nt_call [N_emit ''ADDNOTIFY'' [word i]] st))))"
  by pat_completeness auto
termination
  by (relation "measure (\<lambda>(n, w, i, s). PDIWORDS - i)") auto

declare cmd_notify_loop.simps [simp del]

subsection \<open>Showing the list\<close>

definition pad20 :: "string \<Rightarrow> string" where
  "pad20 s = s @ replicate (20 - length s) (CHR '' '')"

definition showlist_entry :: "nserver \<Rightarrow> notify \<Rightarrow> notify \<times> notify_call list" where
  "showlist_entry serv notify =
     (case (case n_name notify of Some n \<Rightarrow> Some n | None \<Rightarrow> n_account notify) of
        None \<Rightarrow> (notify, [])
      | Some display \<Rightarrow>
          let (notify, servnot) = notify_find_server_entry notify serv;
              on = (case servnot of Some s \<Rightarrow> ison s | None \<Rightarrow> False) in
          (notify, [N_print (take 255 (''  '' @ pad20 display @ (if on then '' online'' else '' offline'') @ [CHR 0x0A]))]))"

definition notify_showlist :: "nserver \<Rightarrow> notify_state \<Rightarrow> notify_state" where
  "notify_showlist serv st =
     (let i = length (notify_list st);
          st = on_entries (showlist_entry serv) (nt_call [N_emit ''NOTIFYHEAD'' []] st) in
      nt_call [if i \<noteq> 0 then N_emit ''NOTIFYNUMBER'' [show_nat i] else N_emit ''NOTIFYEMPTY'' []] st)"

definition cmd_notify :: "nserver \<Rightarrow> (nat \<Rightarrow> string) \<Rightarrow> notify_state \<Rightarrow> notify_state option" where
  "cmd_notify serv word st =
     (if word 2 = [] then Some (notify_showlist serv st)
      else if word 2 = ''-n'' then cmd_notify_loop (Some (word 3)) word 4 st
      else cmd_notify_loop None word 2 st)"

subsection \<open>Accounts\<close>

text \<open>The values that stand for no account.\<close>

definition is_account :: "string option \<Rightarrow> bool" where
  "is_account account \<longleftrightarrow> account \<noteq> None \<and> account \<noteq> Some [] \<and> account \<noteq> Some ''*'' \<and> account \<noteq> Some ''0''"

definition notify_account_still_present :: "nserver \<Rightarrow> string \<Rightarrow> notify_state \<Rightarrow> bool" where
  "notify_account_still_present serv account st \<longleftrightarrow>
     list_ex (\<lambda>(srv, users). srv = nv_addr serv \<and> list_ex (\<lambda>u. u_account u = Some account) users) (sess_users st)"

definition cleared_entry ::
    "notify_state \<Rightarrow> nserver \<Rightarrow> string option \<Rightarrow> notify \<Rightarrow> notify \<times> notify_call list" where
  "cleared_entry st serv was_account notify =
     (if n_account notify = None \<or> n_account notify \<noteq> was_account then (notify, [])
      else
        (case notify_find_server_entry notify serv of
           (notify, Some servnot) \<Rightarrow>
             if ison servnot then
               notify_announce_offline st serv
                 (case n_name notify of Some n \<Rightarrow> n | None \<Rightarrow> the (n_account notify)) False notify
             else (notify, [])
         | (notify, None) \<Rightarrow> (notify, [])))"

definition has_account :: "string option \<Rightarrow> notify_state \<Rightarrow> bool" where
  "has_account account st \<longleftrightarrow> list_ex (\<lambda>n. n_account n \<noteq> None \<and> n_account n = account) (notify_list st)"

definition friends_changed :: "bool \<Rightarrow> notify_state \<Rightarrow> notify_state" where
  "friends_changed had_match st = (if had_match then nt_call [Fe_notify_friends_changed] st else st)"

definition notify_account_cleared :: "nserver \<Rightarrow> string option \<Rightarrow> notify_state \<Rightarrow> notify_state" where
  "notify_account_cleared serv was_account st =
     (if \<not> is_account was_account \<or> notify_account_still_present serv (the was_account) st then st
      else friends_changed (has_account was_account st) (on_entries (cleared_entry st serv was_account) st))"

definition observed_entry ::
    "notify_state \<Rightarrow> nserver \<Rightarrow> string option \<Rightarrow> string option \<Rightarrow> notify \<Rightarrow> notify \<times> notify_call list" where
  "observed_entry st serv nick account notify =
     (if n_account notify = None \<or> n_account notify \<noteq> account then (notify, [])
      else
        (case notify_find_server_entry notify serv of
           (notify, None) \<Rightarrow> (notify, [])
         | (notify, Some servnot) \<Rightarrow>
             notify_announce_online st serv servnot
               (case nick of Some (c # s) \<Rightarrow> c # s | _ \<Rightarrow> the (n_account notify)) notify))"

definition notify_account_observed ::
    "nserver \<Rightarrow> string option \<Rightarrow> string option \<Rightarrow> notify_state \<Rightarrow> notify_state" where
  "notify_account_observed serv nick account st =
     (if \<not> is_account account then st
      else friends_changed (has_account account st) (on_entries (observed_entry st serv nick account) st))"

definition notify_is_in_list :: "nserver \<Rightarrow> string option \<Rightarrow> string option \<Rightarrow> notify_state \<Rightarrow> bool" where
  "notify_is_in_list serv name account st =
     list_ex (\<lambda>n.
         (case (name, n_name n) of (Some a, Some b) \<Rightarrow> p_cmp (nv_serv serv) b a = 0 | _ \<Rightarrow> False) \<or>
         (account \<noteq> None \<and> n_account n = account))
       (notify_list st)"

text \<open>\<open>notify_isnotify\<close>: whether a nick is on the list and online; records may be added.\<close>

fun notify_isnotify_loop :: "nserver \<Rightarrow> string \<Rightarrow> notify list \<Rightarrow> bool \<times> notify list" where
  "notify_isnotify_loop serv name [] = (False, [])"
| "notify_isnotify_loop serv name (notify # list) =
     (let rest = (\<lambda>n. let (r, l) = notify_isnotify_loop serv name list in (r, n # l)) in
      case n_name notify of
        None \<Rightarrow> rest notify
      | Some nm \<Rightarrow>
          if p_cmp (nv_serv serv) nm name = 0 then
            (case notify_find_server_entry notify serv of
               (notify, Some servnot) \<Rightarrow> if ison servnot then (True, notify # list) else rest notify
             | (notify, None) \<Rightarrow> rest notify)
          else rest notify)"

definition notify_isnotify :: "nserver \<Rightarrow> string \<Rightarrow> notify_state \<Rightarrow> bool \<times> notify_state" where
  "notify_isnotify serv name st =
     (let (r, l) = notify_isnotify_loop serv name (notify_list st) in (r, st\<lparr>notify_list := l\<rparr>))"

subsection \<open>Servers that are gone\<close>

definition valid_server :: "nserver list \<Rightarrow> notify_per_server \<Rightarrow> bool" where
  "valid_server servs servnot =
     (case find (\<lambda>serv. nv_addr serv = ps_server servnot) servs of
        Some serv \<Rightarrow> nv_connected serv
      | None \<Rightarrow> False)"

text \<open>
  The inner loop of \<open>notify_cleanup\<close>: \<open>pre\<close> are the records before \<open>nslist\<close>. A record that is
  removed sends the loop back to the first one.
\<close>

function cleanup_loop ::
    "nserver list \<Rightarrow> notify_per_server list \<Rightarrow> notify_per_server list \<Rightarrow> notify_per_server list" where
  "cleanup_loop servs pre [] = pre"
| "cleanup_loop servs pre (servnot # nslist) =
     (if valid_server servs servnot then cleanup_loop servs (pre @ [servnot]) nslist
      else cleanup_loop servs [] (pre @ nslist))"
  by pat_completeness auto
termination
  by (relation "measures [\<lambda>(s, pre, l). length pre + length l, \<lambda>(s, pre, l). length l]") auto

definition notify_cleanup :: "notify_state \<Rightarrow> notify_state" where
  "notify_cleanup st =
     nt_call [Fe_notify_update None]
       (st\<lparr>notify_list := map (\<lambda>n. n\<lparr>server_list := cleanup_loop (serv_list st) [] (server_list n)\<rparr>) (notify_list st)\<rparr>)"

subsection \<open>The file\<close>

definition save_line :: "notify \<Rightarrow> string" where
  "save_line notify =
     (case n_name notify of Some n \<Rightarrow> n | None \<Rightarrow> []) @
     (case n_account notify of
        None \<Rightarrow> []
      | Some a \<Rightarrow> (if n_name notify \<noteq> None then '' '' else []) @ ''account='' @ a) @
     (case n_networks notify of
        None \<Rightarrow> []
      | Some nets \<Rightarrow> '' '' @ (if n_account notify \<noteq> None then ''networks='' @ nets else nets)) @
     [CHR 0x0A]"

definition notify_save :: "notify_state \<Rightarrow> string" where
  "notify_save st = concat (map save_line (rev (notify_list st)))"

definition rstrip_cr :: "string \<Rightarrow> string" where
  "rstrip_cr s = (if s \<noteq> [] \<and> last s = CHR 0x0D then butlast s else s)"

definition is_blank :: "char \<Rightarrow> bool" where
  "is_blank c \<longleftrightarrow> c = CHR '' '' \<or> c = CHR 0x09"

text \<open>
  \<open>strpbrk (s, " \t")\<close> with what the code does next: the token before the blank, and the rest of
  the line behind the blanks, if there is one.
\<close>

definition cut_blank :: "string \<Rightarrow> string \<times> string option" where
  "cut_blank s =
     (takeWhile (\<lambda>c. \<not> is_blank c) s,
      (case dropWhile (\<lambda>c. \<not> is_blank c) s of [] \<Rightarrow> None | _ # t \<Rightarrow> Some (dropWhile is_blank t)))"

definition networks_key :: "string option \<Rightarrow> string option" where
  "networks_key sep =
     (case sep of Some s \<Rightarrow> if has_prefix s ''networks='' then Some (drop 9 s) else None | None \<Rightarrow> None)"

definition parse_line :: "string \<Rightarrow> string option \<times> string option \<times> string option" where
  "parse_line line =
     (if has_prefix line ''account='' then
        (let (account, sep) = cut_blank (drop 8 line) in (None, Some account, networks_key sep))
      else
        (case cut_blank line of
           (name, None) \<Rightarrow> (Some name, None, None)
         | (name, Some sep) \<Rightarrow>
             if has_prefix sep ''account='' then
               (let (account, sep2) = cut_blank (drop 8 sep) in (Some name, Some account, networks_key sep2))
             else if sep \<noteq> [] then (Some name, None, Some sep)
             else (Some name, None, None)))"

definition notify_load_line :: "string \<Rightarrow> notify_state \<Rightarrow> notify_state option" where
  "notify_load_line line st =
     (let (name, account, networks) = parse_line (rstrip_cr line) in
      if (name \<noteq> None \<and> name \<noteq> Some []) \<or> (account \<noteq> None \<and> account \<noteq> Some [])
      then notify_adduser name account networks st else Some st)"

text \<open>A line is kept in 256 bytes; it is a string that a 0 byte of the file ends.\<close>

definition load_buf :: "string \<Rightarrow> notify_state \<Rightarrow> notify_state option" where
  "load_buf buf st =
     (let line = upto_chr buf NUL in
      if cur line \<noteq> CHR ''#'' \<and> cur line \<noteq> NUL then notify_load_line line st else Some st)"

function notify_load_loop :: "string \<Rightarrow> string \<Rightarrow> notify_state \<Rightarrow> notify_state option" where
  "notify_load_loop buf [] st = (if buf \<noteq> [] then load_buf buf st else Some st)"
| "notify_load_loop buf (c # file) st =
     (if c = CHR 0x0A \<or> length buf + 1 \<ge> 256 then
        Option.bind (load_buf buf st) (\<lambda>st.
          notify_load_loop []
            (if c \<noteq> CHR 0x0A then tl (dropWhile (\<lambda>c. c \<noteq> CHR 0x0A) file) else file) st)
      else notify_load_loop (buf @ [c]) file st)"
  by pat_completeness auto
termination
  by (relation "measure (\<lambda>(b, f, s). length f)") (auto simp: less_Suc_eq_le intro: order_trans [OF diff_le_self length_dropWhile_le])

definition notify_load :: "string option \<Rightarrow> notify_state \<Rightarrow> notify_state option" where
  "notify_load file st = (case file of None \<Rightarrow> Some st | Some f \<Rightarrow> notify_load_loop [] f st)"

end
