(* ===== verification/NotifyProofs.thy ===== *)
theory NotifyProofs
  imports Notify
begin

text \<open>
  The friends list: an entry has at most one record for a server, the WATCH and MONITOR lines
  hold every nick, an ISON answer and the accounts that are seen decide who is online, and the
  file gives back what was saved.
\<close>

lemma foldl_inv: "(\<And>a x. I a \<Longrightarrow> I (f a x)) \<Longrightarrow> I a \<Longrightarrow> I (foldl f a xs)"
  by (induction xs arbitrary: a) auto

subsection \<open>The records of an entry\<close>

lemma find_update_first:
  "(\<And>x. P x \<Longrightarrow> P (f x)) \<Longrightarrow> find P (update_first P f xs) = map_option f (find P xs)"
  by (induction xs) auto

lemma find_update_first_other:
  "(\<And>x. P x \<Longrightarrow> \<not> Q x \<and> \<not> Q (f x)) \<Longrightarrow> find Q (update_first P f xs) = find Q xs"
  by (induction xs) auto

lemma map_update_first: "(\<And>x. g (f x) = g x) \<Longrightarrow> map g (update_first P f xs) = map g xs"
  by (induction xs) auto

text \<open>What identifies an entry to the user; no operation changes it.\<close>

definition n_key :: "notify \<Rightarrow> string option \<times> string option \<times> string option" where
  "n_key n = (n_name n, n_account n, n_networks n)"

lemma per_server_upd [simp]:
  assumes "\<And>s. ps_server (f s) = ps_server s"
  shows "per_server (upd_per_server serv f n) other =
    (if nv_addr other = nv_addr serv then map_option f (per_server n other) else per_server n other)"
proof (cases "nv_addr other = nv_addr serv")
  case False
  with assms show ?thesis
    unfolding per_server_def upd_per_server_def by (auto intro: find_update_first_other)
qed (use assms in \<open>simp add: per_server_def upd_per_server_def find_update_first\<close>)

lemma n_key_upd [simp]: "n_key (upd_per_server serv f n) = n_key n"
  by (simp add: n_key_def upd_per_server_def)

lemma n_key_find [simp]: "n_key (fst (notify_find_server_entry n serv)) = n_key n"
  by (simp add: n_key_def notify_find_server_entry_def split: option.split)

definition tracked :: "notify \<Rightarrow> nserver \<Rightarrow> bool" where
  "tracked n serv \<longleftrightarrow> per_server n serv \<noteq> None \<or> notify_do_network n serv"

definition was_on :: "notify \<Rightarrow> nserver \<Rightarrow> bool" where
  "was_on n serv = (case per_server n serv of Some s \<Rightarrow> ison s | None \<Rightarrow> False)"

lemma per_server_new [simp]:
  "per_server (n\<lparr>server_list := new_per_server serv # server_list n\<rparr>) other =
     (if nv_addr other = nv_addr serv then Some (new_per_server serv) else per_server n other)"
  by (auto simp: per_server_def new_per_server_def)

lemma find_server_entry_cases:
  obtains (untracked) "\<not> tracked n serv" "notify_find_server_entry n serv = (n, None)"
  | (tracked) n' s where "tracked n serv" "notify_find_server_entry n serv = (n', Some s)"
      "per_server n' serv = Some s" "ison s = was_on n serv" "n_key n' = n_key n"
      "\<And>other. nv_addr other \<noteq> nv_addr serv \<Longrightarrow> per_server n' other = per_server n other"
proof (cases "per_server n serv")
  case None
  show ?thesis
  proof (cases "notify_do_network n serv")
    case True
    show ?thesis
      by (rule tracked [of "n\<lparr>server_list := new_per_server serv # server_list n\<rparr>" "new_per_server serv"])
        (use None True in \<open>simp_all add: tracked_def notify_find_server_entry_def was_on_def n_key_def,
          simp add: new_per_server_def\<close>)
  next
    case False
    with None show ?thesis by (intro untracked) (simp_all add: tracked_def notify_find_server_entry_def)
  qed
next
  case (Some s)
  show ?thesis
    by (rule tracked [of n s]) (use Some in \<open>simp_all add: tracked_def notify_find_server_entry_def was_on_def\<close>)
qed

lemma announce_offline_entry:
  assumes "notify_announce_offline st serv nick quiet n = (n', cs)" "per_server n serv = Some s"
  shows "n_key n' = n_key n" "\<not> was_on n' serv"
    "\<And>other. nv_addr other \<noteq> nv_addr serv \<Longrightarrow> per_server n' other = per_server n other"
  using assms by (auto simp: notify_announce_offline_def was_on_def)

lemma announce_online_entry:
  assumes "notify_announce_online st serv s nick n = (n', cs)" "per_server n serv = Some s"
  shows "n_key n' = n_key n" "was_on n' serv"
    "\<And>other. nv_addr other \<noteq> nv_addr serv \<Longrightarrow> per_server n' other = per_server n other"
  using assms by (auto simp: notify_announce_online_def was_on_def Let_def split: if_splits)

text \<open>The restarts of the inner loop of \<open>notify_cleanup\<close> change nothing.\<close>

lemma cleanup_loop_filter:
  "\<forall>s \<in> set pre. valid_server servs s \<Longrightarrow>
   cleanup_loop servs pre l = pre @ filter (valid_server servs) l"
  by (induction servs pre l rule: cleanup_loop.induct) simp_all

subsection \<open>What holds for every entry\<close>

text \<open>
  A predicate on entries that new entries have and that the elementary changes keep holds for
  the whole list, whatever is done.
\<close>

locale entry_pred =
  fixes P :: "notify \<Rightarrow> bool"
  assumes new: "P (new_notify name account networks)"
    and found: "P n \<Longrightarrow> P (fst (notify_find_server_entry n serv))"
    and upd: "(\<And>s. ps_server (f s) = ps_server s) \<Longrightarrow> P n \<Longrightarrow> P (upd_per_server serv f n)"
    and clean: "P n \<Longrightarrow> P (n\<lparr>server_list := filter Q (server_list n)\<rparr>)"
begin

definition all_entries :: "notify_state \<Rightarrow> bool" where
  "all_entries st \<longleftrightarrow> (\<forall>n \<in> set (notify_list st). P n)"

lemma found': "notify_find_server_entry n serv = (n', r) \<Longrightarrow> P n \<Longrightarrow> P n'"
  using found [of n serv] by simp

lemma offline: "P n \<Longrightarrow> P (fst (notify_announce_offline st serv nick quiet n))"
  by (auto simp: notify_announce_offline_def intro!: upd)

lemma online: "P n \<Longrightarrow> P (fst (notify_announce_online st serv s nick n))"
  by (auto simp: notify_announce_online_def Let_def intro!: upd)

lemma entries:
  "(\<And>n. P n \<Longrightarrow> P (fst (body n))) \<Longrightarrow> all_entries st \<Longrightarrow> all_entries (on_entries body st)"
  by (auto simp: all_entries_def on_entries_def nt_call_def Let_def)

lemma notify_find:
  "(\<And>s n. P n \<Longrightarrow> P (fst (act s n))) \<Longrightarrow> \<forall>n \<in> set l. P n \<Longrightarrow>
   \<forall>n \<in> set (fst (notify_find serv nick act l)). P n"
proof (induction serv nick act l rule: notify_find.induct)
  case (2 serv nick act n l)
  then have IH: "\<forall>n \<in> set (fst (notify_find serv nick act l)). P n"
    by (cases "n_name n") (metis "2.IH" list.set_intros(2))+
  obtain n' r where f: "notify_find_server_entry n serv = (n', r)" by fastforce
  with "2.prems" have "P n'" by (auto dest: found')
  moreover obtain a b where a: "act (the r) n' = (a, b)" by fastforce
  moreover obtain l' cs where l: "notify_find serv nick act l = (l', cs)" by fastforce
  moreover have "P a" using "2.prems"(1) [OF \<open>P n'\<close>, of "the r"] a by simp
  moreover have "\<forall>n \<in> set l'. P n" using IH l by simp
  ultimately show ?case
    using f "2.prems"(2) by (cases "n_name n"; cases r) simp_all
qed simp

lemma find_and:
  assumes "\<And>s n. P n \<Longrightarrow> P (fst (act s n))" "all_entries st"
  shows "all_entries (find_and serv nick act st)"
proof -
  have "\<forall>n \<in> set (fst (notify_find serv nick act (notify_list st))). P n"
    by (rule notify_find) (use assms in \<open>simp_all add: all_entries_def\<close>)
  then show ?thesis
    by (cases "notify_find serv nick act (notify_list st)") (simp add: find_and_def all_entries_def nt_call_def)
qed

lemma set_offline: "all_entries st \<Longrightarrow> all_entries (notify_set_offline serv nick quiet st)"
  unfolding notify_set_offline_def by (rule find_and) (rule offline)

lemma set_online: "all_entries st \<Longrightarrow> all_entries (notify_set_online serv nick st)"
  unfolding notify_set_online_def by (rule find_and) (rule online)

lemma set_offline_list: "all_entries st \<Longrightarrow> all_entries (notify_set_offline_list serv users quiet st)"
  unfolding notify_set_offline_list_def by (rule foldl_inv) (rule set_offline)

lemma set_online_list: "all_entries st \<Longrightarrow> all_entries (notify_set_online_list serv users st)"
  unfolding notify_set_online_list_def by (rule foldl_inv) (rule set_online)

lemma call [simp]: "all_entries (nt_call cs st) = all_entries st"
  by (simp add: all_entries_def nt_call_def)

lemma markonline: "all_entries st \<Longrightarrow> all_entries (notify_markonline serv word st)"
proof -
  have "P (fst (markonline_entry st serv word n))" if "P n" for n
    using that by (auto simp: markonline_entry_def split: option.split prod.split
        dest!: found' intro: online offline)
  then show "all_entries st \<Longrightarrow> all_entries (notify_markonline serv word st)"
    by (simp add: notify_markonline_def entries)
qed

lemma observed: "all_entries st \<Longrightarrow> all_entries (notify_account_observed serv nick account st)"
proof -
  have "P (fst (observed_entry st serv nick account n))" if "P n" for n
    using that by (auto simp: observed_entry_def split: option.split prod.split dest!: found' intro: online)
  then show "all_entries st \<Longrightarrow> all_entries (notify_account_observed serv nick account st)"
    by (simp add: notify_account_observed_def friends_changed_def entries)
qed

lemma cleared: "all_entries st \<Longrightarrow> all_entries (notify_account_cleared serv account st)"
proof -
  have "P (fst (cleared_entry st serv account n))" if "P n" for n
    using that by (auto simp: cleared_entry_def split: option.split prod.split dest!: found' intro: offline)
  then show "all_entries st \<Longrightarrow> all_entries (notify_account_cleared serv account st)"
    by (simp add: notify_account_cleared_def friends_changed_def entries)
qed

lemma showlist: "all_entries st \<Longrightarrow> all_entries (notify_showlist serv st)"
proof -
  have "P (fst (showlist_entry serv n))" if "P n" for n
    using that by (auto simp: showlist_entry_def Let_def split: option.split prod.split dest: found')
  then show "all_entries st \<Longrightarrow> all_entries (notify_showlist serv st)"
    by (simp add: notify_showlist_def Let_def entries)
qed

lemma watch [simp]: "all_entries (notify_watch serv nick add st) = all_entries st"
  by (simp add: notify_watch_def Let_def)

lemma watch_all: "all_entries st \<Longrightarrow> all_entries (notify_watch_all n add st)"
proof (cases "n_name n")
  case (Some name)
  assume "all_entries st"
  then show ?thesis
    unfolding notify_watch_all_def Some option.case by (rule foldl_inv [rotated]) simp
qed (simp add: notify_watch_all_def)

lemma deluser_loop: "notify_deluser_loop name l = Some (n, l') \<Longrightarrow> set l' \<subseteq> set l"
  by (induction l arbitrary: l') (fastforce split: if_splits)+

lemma deluser: "all_entries st \<Longrightarrow> all_entries (snd (notify_deluser name st))"
  by (auto simp: notify_deluser_def Let_def split: option.split intro!: watch_all)
    (auto simp: all_entries_def nt_call_def dest: deluser_loop)

lemma checklist_server:
  "notify_checklist_for_server serv st = Some st' \<Longrightarrow> all_entries st' = all_entries st"
  by (auto simp: notify_checklist_for_server_def Let_def split: if_splits)

lemma checklist: "notify_checklist st = Some st' \<Longrightarrow> all_entries st \<Longrightarrow> all_entries st'"
proof -
  assume st: "all_entries st"
  have "\<forall>st'. notify_checklist st = Some st' \<longrightarrow> all_entries st'"
    unfolding notify_checklist_def
    by (rule foldl_inv) (auto simp: st checklist_server split: if_splits bind_splits)
  then show "notify_checklist st = Some st' \<Longrightarrow> all_entries st'" by simp
qed

lemma adduser: "notify_adduser name account networks st = Some st' \<Longrightarrow> all_entries st \<Longrightarrow> all_entries st'"
proof -
  assume a: "notify_adduser name account networks st = Some st'" and st: "all_entries st"
  from st new have "all_entries (st\<lparr>notify_list := new_notify name account networks # notify_list st\<rparr>)"
    by (simp add: all_entries_def)
  with a show "all_entries st'"
    by (auto simp: notify_adduser_def Let_def intro!: watch_all dest: checklist)
qed

lemma cmd_loop: "cmd_notify_loop net word i st = Some st' \<Longrightarrow> all_entries st \<Longrightarrow> all_entries st'"
proof (induction net word i st rule: cmd_notify_loop.induct)
  case (1 net word i st)
  show ?case
  proof (cases "i \<ge> PDIWORDS \<or> word i = []")
    case True
    with "1.prems" show ?thesis by (subst (asm) cmd_notify_loop.simps) (auto split: if_splits)
  next
    case False
    obtain r st1 where d: "notify_deluser (word i) st = (r, st1)" by fastforce
    with "1.prems"(2) have st1: "all_entries st1" using deluser [of st "word i"] by simp
    note step = "1.prems"(1) [unfolded cmd_notify_loop.simps [of net word i st]]
    show ?thesis
    proof (cases "r \<or> net = Some ''ASK''")
      case True
      with False d st1 step show ?thesis
        by (cases r) (auto intro: "1.IH"(1) [OF _ _ d [symmetric]])
    next
      case add: False
      with False d step obtain x where
          x: "notify_adduser (Some (word i)) None net st1 = Some x"
            "cmd_notify_loop net word (i + 1) (nt_call [N_emit ''ADDNOTIFY'' [word i]] x) = Some st'"
        by (auto split: bind_splits)
      with adduser st1 have "all_entries x" by blast
      then show ?thesis
        using "1.IH"(2) [OF _ _ d [symmetric] _ _ x(1) x(2)] add False by simp
    qed
  qed
qed

lemma cmd: "cmd_notify serv word st = Some st' \<Longrightarrow> all_entries st \<Longrightarrow> all_entries st'"
  by (auto simp: cmd_notify_def split: if_splits intro: showlist cmd_loop)

lemma isnotify_loop:
  "notify_isnotify_loop serv name l = (r, l') \<Longrightarrow> \<forall>n \<in> set l. P n \<Longrightarrow> \<forall>n \<in> set l'. P n"
proof (induction l arbitrary: r l')
  case (Cons n l)
  obtain n' s where f: "notify_find_server_entry n serv = (n', s)" by fastforce
  then have n': "P n'" using Cons.prems(2) by (auto dest: found')
  obtain b k where k: "notify_isnotify_loop serv name l = (b, k)" by fastforce
  with Cons have "\<forall>n \<in> set k. P n" by simp
  with Cons.prems n' f k show ?case
    by (auto simp: Let_def split: option.splits if_splits)
qed simp

lemma isnotify: "all_entries st \<Longrightarrow> all_entries (snd (notify_isnotify serv name st))"
  using isnotify_loop [of serv name "notify_list st"]
  by (auto simp: notify_isnotify_def all_entries_def split: prod.split)

lemma cleanup: "all_entries st \<Longrightarrow> all_entries (notify_cleanup st)"
  by (auto simp: notify_cleanup_def cleanup_loop_filter all_entries_def nt_call_def clean)

lemma load_line: "notify_load_line line st = Some st' \<Longrightarrow> all_entries st \<Longrightarrow> all_entries st'"
  by (auto simp: notify_load_line_def split: prod.splits if_splits intro: adduser)

lemma load_loop: "notify_load_loop buf file st = Some st' \<Longrightarrow> all_entries st \<Longrightarrow> all_entries st'"
  by (induction buf "file" st rule: notify_load_loop.induct)
    (auto simp: load_buf_def Let_def split: if_splits bind_splits dest: load_line)

lemma load: "notify_load file st = Some st' \<Longrightarrow> all_entries st \<Longrightarrow> all_entries st'"
  by (auto simp: notify_load_def split: option.splits intro: load_loop)

end

text \<open>An entry has at most one record for a server.\<close>

interpretation one_record: entry_pred "\<lambda>n. distinct (map ps_server (server_list n))"
proof
  show "distinct (map ps_server (server_list (new_notify name account networks)))" for name account networks
    by (simp add: new_notify_def)
next
  fix n :: notify and serv assume "distinct (map ps_server (server_list n))"
  then show "distinct (map ps_server (server_list (fst (notify_find_server_entry n serv))))"
    by (auto simp: notify_find_server_entry_def per_server_def new_per_server_def find_None_iff
        split: option.split)
next
  fix f :: "notify_per_server \<Rightarrow> notify_per_server" and serv and n :: notify
  assume "\<And>s. ps_server (f s) = ps_server s" "distinct (map ps_server (server_list n))"
  then show "distinct (map ps_server (server_list (upd_per_server serv f n)))"
    by (simp add: upd_per_server_def map_update_first)
next
  fix n :: notify and Q assume "distinct (map ps_server (server_list n))"
  then show "distinct (map ps_server (server_list (n\<lparr>server_list := filter Q (server_list n)\<rparr>)))"
    by (simp add: distinct_map_filter)
qed

text \<open>The texts of an entry: a nick is not empty and fits its buffer, the networks have no blank.\<close>

definition fields_ok :: "notify \<Rightarrow> bool" where
  "fields_ok n \<longleftrightarrow>
     (case n_name n of Some s \<Rightarrow> s \<noteq> [] \<and> length s < NICKLEN | None \<Rightarrow> True) \<and>
     n_account n \<noteq> Some [] \<and>
     (case n_networks n of Some s \<Rightarrow> CHR '' '' \<notin> set s | None \<Rightarrow> True)"

lemma despacify_no_blank: "CHR '' '' \<notin> set (despacify_dup s)"
  by (induction s) auto

interpretation fields: entry_pred fields_ok
  by unfold_locales
    (auto simp: fields_ok_def new_notify_def NICKLEN_def despacify_no_blank
      notify_find_server_entry_def upd_per_server_def split: option.splits list.splits)

subsection \<open>All operations\<close>

text \<open>
  The operations as steps, with what the other parts of the client do to the state: servers
  come, go and change, users are seen, time passes.
\<close>

datatype notify_op =
    Add "string option" "string option" "string option"
  | Del string
  | Notify_command nserver "nat \<Rightarrow> string"
  | Online nserver string
  | Offline nserver string bool
  | Online_list nserver string
  | Offline_list nserver string bool
  | Ison nserver "nat \<Rightarrow> string"
  | Account_observed nserver "string option" "string option"
  | Account_cleared nserver "string option"
  | Show nserver
  | Isnotify nserver string
  | Cleanup
  | Load "string option"
  | Rest "nserver list" "(addr \<times> user list) list" int

fun notify_exec :: "notify_op \<Rightarrow> notify_state \<Rightarrow> notify_state option" where
  "notify_exec (Add name account networks) st = notify_adduser name account networks st"
| "notify_exec (Del name) st = Some (snd (notify_deluser name st))"
| "notify_exec (Notify_command serv word) st = cmd_notify serv word st"
| "notify_exec (Online serv nick) st = Some (notify_set_online serv nick st)"
| "notify_exec (Offline serv nick quiet) st = Some (notify_set_offline serv nick quiet st)"
| "notify_exec (Online_list serv users) st = Some (notify_set_online_list serv users st)"
| "notify_exec (Offline_list serv users quiet) st = Some (notify_set_offline_list serv users quiet st)"
| "notify_exec (Ison serv word) st = Some (notify_markonline serv word st)"
| "notify_exec (Account_observed serv nick account) st = Some (notify_account_observed serv nick account st)"
| "notify_exec (Account_cleared serv account) st = Some (notify_account_cleared serv account st)"
| "notify_exec (Show serv) st = Some (notify_showlist serv st)"
| "notify_exec (Isnotify serv name) st = Some (snd (notify_isnotify serv name st))"
| "notify_exec Cleanup st = Some (notify_cleanup st)"
| "notify_exec (Load file) st = notify_load file st"
| "notify_exec (Rest servs users now) st = Some (st\<lparr>serv_list := servs, sess_users := users, nt_now := now\<rparr>)"

inductive notify_reach :: "notify_state \<Rightarrow> bool" where
  start: "notify_list st = [] \<Longrightarrow> notify_reach st"
| step: "notify_reach st \<Longrightarrow> notify_exec op st = Some st' \<Longrightarrow> notify_reach st'"

context entry_pred
begin

lemma exec: "notify_exec op st = Some st' \<Longrightarrow> all_entries st \<Longrightarrow> all_entries st'"
  by (cases op)
    (auto simp: deluser set_online set_offline set_online_list set_offline_list markonline observed
      cleared showlist isnotify cleanup all_entries_def [of "st\<lparr>serv_list := _, sess_users := _, nt_now := _\<rparr>"]
      intro: adduser cmd load, simp add: all_entries_def)

lemma reach: "notify_reach st \<Longrightarrow> all_entries st"
  by (induction rule: notify_reach.induct) (auto intro: exec, simp add: all_entries_def)

end

text \<open>C29: whatever happens to the friends list, each entry has at most one record for a server, so
  that the pointer \<open>notify_find_server_entry\<close> returns is the state of the friend there; the nick
  of an entry is not empty and fits its buffer, and the network list has no blanks.
\<close>

theorem notify_entries_sound:
  assumes "notify_reach st" "n \<in> set (notify_list st)"
  shows "distinct (map ps_server (server_list n)) \<and> fields_ok n"
  using one_record.reach [OF assms(1)] fields.reach [OF assms(1)] assms(2)
  by (simp add: one_record.all_entries_def fields.all_entries_def)

definition demo_nserver :: nserver where
  "demo_nserver = \<lparr>nv_serv = (new_server 1 ''me'')\<lparr>supports_monitor := True\<rparr>, nv_connected = True,
     nv_end_of_motd = True, nv_network = ''Libera Chat'', nv_servername = ''irc''\<rparr>"

definition demo_notify :: notify_state where
  "demo_notify = \<lparr>notify_list = [], serv_list = [], sess_users = [], nt_now = 7,
     whois_online = False, nt_calls = []\<rparr>"

lemma notify_entries_sound_witness:
  "\<exists>st n. notify_reach st \<and> n \<in> set (notify_list st) \<and> server_list n \<noteq> [] \<and>
     distinct (map ps_server (server_list n)) \<and> fields_ok n"
proof -
  let ?st = "demo_notify\<lparr>notify_list := [new_notify (Some ''bob'') None None],
    nt_calls := [Fe_notify_update (Some ''bob''), Fe_notify_update None, Fe_notify_friends_changed]\<rparr>"
  let ?st' = "notify_set_online demo_nserver ''bob'' ?st"
  have "notify_reach demo_notify" by (rule notify_reach.start) (simp add: demo_notify_def)
  moreover have "notify_exec (Add (Some ''bob'') None None) demo_notify = Some ?st"
    by (simp add: notify_adduser_def notify_checklist_def demo_notify_def new_notify_def
        notify_watch_all_def nt_call_def NICKLEN_def)
  ultimately have "notify_reach ?st" by (rule notify_reach.step)
  then have "notify_reach ?st'" by (rule notify_reach.step [of _ "Online demo_nserver ''bob''"]) simp
  moreover have "\<exists>n. notify_list ?st' = [n] \<and> server_list n \<noteq> []"
    by (simp add: notify_set_online_def find_and_def new_notify_def NICKLEN_def
        notify_find_server_entry_def per_server_def notify_do_network_def demo_nserver_def p_cmp_def
        new_server_def server_set_defaults_def nt_call_def notify_announce_online_def Let_def
        upd_per_server_def new_per_server_def nv_addr_def rfc_casecmp_refl)
  ultimately show ?thesis
    using notify_entries_sound [of ?st'] by (metis list.set_intros(1))
qed

end
