(* ===== verification/NotifyPresence.thy ===== *)
theory NotifyPresence
  imports NotifyProofs
begin

text \<open>
  What the friends list tells the server and the user: the WATCH and MONITOR lines hold every
  nick, an ISON answer and the accounts that are seen decide who is online, and the file gives
  back what was saved.
\<close>

subsection \<open>ISON\<close>

definition nick_in_answer :: "nserver \<Rightarrow> string \<Rightarrow> (nat \<Rightarrow> string) \<Rightarrow> bool" where
  "nick_in_answer serv name word \<longleftrightarrow>
     (\<exists>j \<in> {4..PDIWORDS - 5}. (\<forall>k \<in> {4..j}. word k \<noteq> []) \<and> p_cmp (nv_serv serv) name (word j) = 0)"

lemma ison_seen_iff:
  "i \<le> PDIWORDS - 5 \<Longrightarrow> ison_seen serv name word i \<longleftrightarrow>
     (\<exists>j \<in> {i..PDIWORDS - 5}. (\<forall>k \<in> {i..j}. word k \<noteq> []) \<and> p_cmp (nv_serv serv) name (word j) = 0)"
proof (induction serv name word i rule: ison_seen.induct)
  case (1 serv name word i)
  have split: "i \<le> m \<Longrightarrow> {i..m} = insert i {Suc i..m}" for m by auto
  show ?case
  proof (cases "i < PDIWORDS - 5")
    case True
    with 1 show ?thesis
      by (subst ison_seen.simps) (auto simp: split)
  next
    case False
    with "1.prems" have "i = PDIWORDS - 5" by simp
    then show ?thesis by (subst ison_seen.simps) auto
  qed
qed

lemma ison_seen_answer: "ison_seen serv name word 4 \<longleftrightarrow> nick_in_answer serv name word"
  by (simp add: nick_in_answer_def ison_seen_iff PDIWORDS_def)

definition is_event :: "notify_call \<Rightarrow> bool" where
  "is_event c = (case c of N_emit _ _ \<Rightarrow> True | _ \<Rightarrow> False)"

text \<open>The event for an entry whose friend is now \<open>on\<close> or not.\<close>

definition change_event :: "nserver \<Rightarrow> string \<Rightarrow> bool \<Rightarrow> bool \<Rightarrow> notify_call list" where
  "change_event serv nick before on =
     (if before = on then []
      else [N_emit (if on then ''NOTIFYONLINE'' else ''NOTIFYOFFLINE'') [nick, nv_servername serv, nv_network serv]])"

definition same_elsewhere :: "nserver \<Rightarrow> notify \<Rightarrow> notify \<Rightarrow> bool" where
  "same_elsewhere serv n n' \<longleftrightarrow>
     n_key n' = n_key n \<and> (\<forall>other. nv_addr other \<noteq> nv_addr serv \<longrightarrow> per_server n' other = per_server n other)"

lemma same_elsewhere_refl [simp]: "same_elsewhere serv n n"
  by (simp add: same_elsewhere_def)

text \<open>
  A turn of a loop leaves the friend of the entry \<open>n\<close> online or not, with an event if that is a
  change, and touches nothing else.
\<close>

fun turn :: "nserver \<Rightarrow> string \<Rightarrow> bool \<Rightarrow> notify \<Rightarrow> notify \<times> notify_call list \<Rightarrow> bool" where
  "turn serv nick on n (n', cs) \<longleftrightarrow>
     same_elsewhere serv n n' \<and> was_on n' serv = on \<and>
     filter is_event cs = change_event serv nick (was_on n serv) on"

lemma turn_online:
  "notify_find_server_entry n serv = (n1, Some s) \<Longrightarrow>
   turn serv nick True n (notify_announce_online st serv s nick n1)"
  by (cases rule: find_server_entry_cases [of n serv])
    (auto simp: same_elsewhere_def notify_announce_online_def was_on_def Let_def is_event_def change_event_def)

lemma turn_offline:
  "notify_find_server_entry n serv = (n1, Some s) \<Longrightarrow> ison s \<Longrightarrow>
   turn serv nick False n (notify_announce_offline st serv nick False n1)"
  by (cases rule: find_server_entry_cases [of n serv])
    (auto simp: same_elsewhere_def notify_announce_offline_def was_on_def is_event_def change_event_def)

lemma turn_stays_off:
  "notify_find_server_entry n serv = (n1, Some s) \<Longrightarrow> \<not> ison s \<Longrightarrow> turn serv nick False n (n1, [])"
  by (cases rule: find_server_entry_cases [of n serv])
    (auto simp: same_elsewhere_def was_on_def change_event_def)

lemma untracked_entry: "\<not> tracked n serv \<Longrightarrow> notify_find_server_entry n serv = (n, None)"
  by (cases rule: find_server_entry_cases [of n serv]) auto

lemma tracked_entry: "tracked n serv \<Longrightarrow> \<exists>n1 s. notify_find_server_entry n serv = (n1, Some s)"
  by (cases rule: find_server_entry_cases [of n serv]) auto

lemmas turns = turn_online turn_offline turn_stays_off

lemma markonline_turn:
  assumes "n_name n = Some nm" "tracked n serv"
  shows "turn serv nm (nick_in_answer serv nm word) n (markonline_entry st serv word n)"
proof -
  obtain n1 s where "notify_find_server_entry n serv = (n1, Some s)"
    using tracked_entry [OF assms(2)] by blast
  with turns [OF this] assms(1) show ?thesis by (simp add: markonline_entry_def ison_seen_answer)
qed

lemma markonline_other:
  "n_name n = None \<or> \<not> tracked n serv \<Longrightarrow> markonline_entry st serv word n = (n, [])"
  by (auto simp: markonline_entry_def untracked_entry split: option.split)

lemma list_on_entries: "notify_list (on_entries body st) = map (\<lambda>n. fst (body n)) (notify_list st)"
  by (simp add: on_entries_def nt_call_def Let_def)

lemma events_on_entries:
  "filter is_event (nt_calls (on_entries body st)) =
     filter is_event (nt_calls st) @ concat (map (\<lambda>n. filter is_event (snd (body n))) (notify_list st))"
  by (simp add: on_entries_def nt_call_def Let_def filter_concat comp_def)

text \<open>The friends of the list an answer of the server is about, and what it makes of them.\<close>

definition asked :: "notify \<Rightarrow> nserver \<Rightarrow> bool" where
  "asked n serv \<longleftrightarrow> n_name n \<noteq> None \<and> tracked n serv"

definition ison_result :: "nserver \<Rightarrow> (nat \<Rightarrow> string) \<Rightarrow> notify \<Rightarrow> notify \<Rightarrow> bool" where
  "ison_result serv word n n' \<longleftrightarrow>
     same_elsewhere serv n n' \<and>
     (if asked n serv then was_on n' serv = nick_in_answer serv (the (n_name n)) word else n' = n)"

definition ison_event :: "nserver \<Rightarrow> (nat \<Rightarrow> string) \<Rightarrow> notify \<Rightarrow> notify_call list" where
  "ison_event serv word n =
     (if asked n serv
      then change_event serv (the (n_name n)) (was_on n serv) (nick_in_answer serv (the (n_name n)) word)
      else [])"

lemma markonline_entry_result:
  "ison_result serv word n (fst (markonline_entry st serv word n)) \<and>
   filter is_event (snd (markonline_entry st serv word n)) = ison_event serv word n"
proof (cases "asked n serv")
  case True
  then have "turn serv (the (n_name n)) (nick_in_answer serv (the (n_name n)) word) n
      (markonline_entry st serv word n)"
    by (auto simp: asked_def intro: markonline_turn)
  with True show ?thesis
    by (cases "markonline_entry st serv word n") (simp add: ison_result_def ison_event_def)
next
  case False
  then show ?thesis
    by (auto simp: asked_def ison_result_def ison_event_def markonline_other)
qed


subsection \<open>Accounts\<close>

definition account_seen :: "nserver \<Rightarrow> (addr \<times> user list) list \<Rightarrow> string \<Rightarrow> bool" where
  "account_seen serv users a \<longleftrightarrow>
     (\<exists>us u. (nv_addr serv, us) \<in> set users \<and> u \<in> set us \<and> u_account u = Some a)"

lemma still_present_iff: "notify_account_still_present serv a st = account_seen serv (sess_users st) a"
  by (auto simp: notify_account_still_present_def account_seen_def list_ex_iff)

text \<open>
  The friends known by their account only: online exactly while a user with the account is seen
  in some channel of the server.
\<close>

definition presence_ok :: "nserver \<Rightarrow> (addr \<times> user list) list \<Rightarrow> notify \<Rightarrow> bool" where
  "presence_ok serv users n \<longleftrightarrow>
     (case n_account n of
        Some a \<Rightarrow> is_account (Some a) \<and> tracked n serv \<longrightarrow> (was_on n serv \<longleftrightarrow> account_seen serv users a)
      | None \<Rightarrow> True)"

lemma observed_turn:
  assumes "n_account n = Some a" "tracked n serv"
  shows "\<exists>nk. turn serv nk True n (observed_entry st serv nick (Some a) n)"
proof -
  obtain n1 s where f: "notify_find_server_entry n serv = (n1, Some s)"
    using tracked_entry [OF assms(2)] by blast
  show ?thesis
    unfolding observed_entry_def by (simp add: assms f del: turn.simps) (blast intro: turn_online [OF f])
qed

lemma observed_other:
  "n_account n \<noteq> account \<or> n_account n = None \<or> \<not> tracked n serv \<Longrightarrow> observed_entry st serv nick account n = (n, [])"
  by (auto simp: observed_entry_def untracked_entry)

lemma cleared_turn:
  assumes "n_account n = Some a" "tracked n serv"
  shows "\<exists>nk. turn serv nk False n (cleared_entry st serv (Some a) n)"
proof -
  obtain n1 s where f: "notify_find_server_entry n serv = (n1, Some s)"
    using tracked_entry [OF assms(2)] by blast
  show ?thesis
    using turn_offline [OF f] turn_stays_off [OF f]
    by (cases "ison s") (auto simp: cleared_entry_def assms f simp del: turn.simps)
qed

lemma cleared_other:
  "n_account n \<noteq> account \<or> n_account n = None \<or> \<not> tracked n serv \<Longrightarrow> cleared_entry st serv account n = (n, [])"
  by (auto simp: cleared_entry_def untracked_entry)

definition observed1 :: "notify_state \<Rightarrow> nserver \<Rightarrow> string option \<Rightarrow> string option \<Rightarrow> notify \<Rightarrow> notify" where
  "observed1 st serv nick account n =
     (if is_account account then fst (observed_entry st serv nick account n) else n)"

definition cleared1 ::
    "notify_state \<Rightarrow> nserver \<Rightarrow> (addr \<times> user list) list \<Rightarrow> string option \<Rightarrow> notify \<Rightarrow> notify" where
  "cleared1 st serv users old n =
     (if is_account old \<and> \<not> account_seen serv users (the old) then fst (cleared_entry st serv old n) else n)"

lemma turn_account: "turn serv nk on n r \<Longrightarrow> n_account (fst r) = n_account n \<and> was_on (fst r) serv = on"
  by (cases r) (auto simp: same_elsewhere_def n_key_def)

lemma observed1_account:
  assumes "n_account n = Some a"
  shows "n_account (observed1 st serv nick account n) = Some a"
    "is_account account \<Longrightarrow> account = Some a \<Longrightarrow> tracked n serv \<Longrightarrow> was_on (observed1 st serv nick account n) serv"
    "account \<noteq> Some a \<or> \<not> is_account account \<or> \<not> tracked n serv \<Longrightarrow> observed1 st serv nick account n = n"
proof -
  have "n_account (fst (observed_entry st serv nick account n)) = Some a"
  proof (cases "account = Some a \<and> tracked n serv")
    case True
    then show ?thesis using observed_turn [OF assms, of serv st nick] turn_account assms by fastforce
  qed (use assms in \<open>auto simp: observed_other\<close>)
  with assms show "n_account (observed1 st serv nick account n) = Some a" by (simp add: observed1_def)
  show "is_account account \<Longrightarrow> account = Some a \<Longrightarrow> tracked n serv \<Longrightarrow> was_on (observed1 st serv nick account n) serv"
    using observed_turn [OF assms, of serv st nick] turn_account unfolding observed1_def by fastforce
  show "account \<noteq> Some a \<or> \<not> is_account account \<or> \<not> tracked n serv \<Longrightarrow> observed1 st serv nick account n = n"
    using assms by (auto simp: observed1_def observed_other)
qed

lemma cleared1_account:
  assumes "n_account n = Some a"
  shows "n_account (cleared1 st serv users old n) = Some a"
    "is_account old \<Longrightarrow> old = Some a \<Longrightarrow> \<not> account_seen serv users a \<Longrightarrow> tracked n serv \<Longrightarrow>
      \<not> was_on (cleared1 st serv users old n) serv"
    "old \<noteq> Some a \<or> \<not> is_account old \<or> account_seen serv users a \<or> \<not> tracked n serv \<Longrightarrow>
      cleared1 st serv users old n = n"
proof -
  have "n_account (fst (cleared_entry st serv old n)) = Some a"
  proof (cases "old = Some a \<and> tracked n serv")
    case True
    then show ?thesis using cleared_turn [OF assms, of serv st] turn_account assms by fastforce
  qed (use assms in \<open>auto simp: cleared_other\<close>)
  with assms show "n_account (cleared1 st serv users old n) = Some a" by (simp add: cleared1_def)
  show "is_account old \<Longrightarrow> old = Some a \<Longrightarrow> \<not> account_seen serv users a \<Longrightarrow> tracked n serv \<Longrightarrow>
      \<not> was_on (cleared1 st serv users old n) serv"
    using cleared_turn [OF assms, of serv st] turn_account unfolding cleared1_def by fastforce
  show "old \<noteq> Some a \<or> \<not> is_account old \<or> account_seen serv users a \<or> \<not> tracked n serv \<Longrightarrow>
      cleared1 st serv users old n = n"
    using assms by (cases "old = Some a") (auto simp: cleared1_def cleared_other)
qed

lemma presence_entry:
  assumes "presence_ok serv seen n"
    and new: "\<And>a. account = Some a \<Longrightarrow> is_account account \<Longrightarrow> account_seen serv users a"
    and come: "\<And>a. account \<noteq> Some a \<Longrightarrow> account_seen serv users a \<Longrightarrow> account_seen serv seen a"
    and go: "\<And>a. old \<noteq> Some a \<Longrightarrow> account_seen serv seen a \<Longrightarrow> account_seen serv users a"
  shows "presence_ok serv users (cleared1 st2 serv users old (observed1 st1 serv nick account n))"
proof (cases "n_account n")
  case None
  then have "observed1 st1 serv nick account n = n" "cleared1 st2 serv users old n = n"
    by (simp_all add: observed1_def cleared1_def observed_other cleared_other)
  with None show ?thesis by (simp add: presence_ok_def)
next
  case (Some a)
  let ?n1 = "observed1 st1 serv nick account n"
  note o = observed1_account [OF Some, where st = st1 and serv = serv and nick = nick and account = account]
  note c = cleared1_account [OF o(1), where st = st2 and serv = serv and users = users and old = old]
  show ?thesis
  proof (cases "is_account (Some a) \<and> tracked n serv")
    case False
    with o(3) c(3) Some have "cleared1 st2 serv users old ?n1 = n" by metis
    with False Some show ?thesis by (auto simp: presence_ok_def)
  next
    case True
    have n1: "was_on ?n1 serv \<longleftrightarrow> (if account = Some a then True else account_seen serv seen a)"
      using o(2,3) True assms(1) Some by (cases "account = Some a") (auto simp: presence_ok_def)
    have t1: "account \<noteq> Some a \<Longrightarrow> tracked ?n1 serv" using o(3) True by simp
    show ?thesis
    proof (cases "old = Some a \<and> \<not> account_seen serv users a")
      case True
      with new have "account \<noteq> Some a" using \<open>is_account (Some a) \<and> tracked n serv\<close> by blast
      with t1 c(1,2) True \<open>is_account (Some a) \<and> tracked n serv\<close> show ?thesis
        by (simp add: presence_ok_def)
    next
      case False
      with c(3) have "cleared1 st2 serv users old ?n1 = ?n1" by blast
      moreover have "was_on ?n1 serv \<longleftrightarrow> account_seen serv users a"
        using n1 new [of a] come [of a] go [of a] True False by auto
      ultimately show ?thesis using o(1) by (simp add: presence_ok_def)
    qed
  qed
qed

lemma observed_list:
  "notify_list (notify_account_observed serv nick account st) =
     map (observed1 st serv nick account) (notify_list st)"
  "sess_users (notify_account_observed serv nick account st) = sess_users st"
  by (auto simp: notify_account_observed_def friends_changed_def nt_call_def list_on_entries observed1_def
      on_entries_def Let_def map_idI)

lemma cleared_list:
  "notify_list (notify_account_cleared serv old st) =
     map (cleared1 st serv (sess_users st) old) (notify_list st)"
  by (auto simp: notify_account_cleared_def friends_changed_def nt_call_def list_on_entries cleared1_def
      still_present_iff map_idI)

text \<open>A friend known by the account is online exactly while a user with that account is in a
  channel we see: the calls that follow a login, a logout, a change of account, a join, a part or
  a quit keep this, given that nobody but the users with \<open>old\<close> went and nobody but the users with
  \<open>account\<close> came. Several users with one account count as one friend.
\<close>

theorem account_presence_kept:
  assumes "\<forall>n \<in> set (notify_list st). presence_ok serv (sess_users st) n"
    and "\<forall>a. account = Some a \<longrightarrow> is_account account \<longrightarrow> account_seen serv users a"
    and "\<forall>a. account \<noteq> Some a \<longrightarrow> account_seen serv users a \<longrightarrow> account_seen serv (sess_users st) a"
    and "\<forall>a. old \<noteq> Some a \<longrightarrow> account_seen serv (sess_users st) a \<longrightarrow> account_seen serv users a"
  shows "\<forall>n \<in> set (notify_list (notify_account_cleared serv old
      (notify_account_observed serv nick account (st\<lparr>sess_users := users\<rparr>)))). presence_ok serv users n"
  using presence_entry assms by (simp add: cleared_list observed_list) blast

definition with_account :: "string \<Rightarrow> user" where
  "with_account a = new_user\<lparr>u_nick := ''bob'', u_account := Some a\<rparr>"

definition demo_friend :: notify where
  "demo_friend = \<lparr>n_name = None, n_account = Some ''al'', n_networks = None,
     server_list = [\<lparr>ps_server = 1, laston = 3, lastseen = 3, lastoff = 0, ison = True\<rparr>]\<rparr>"

lemma account_presence_kept_witness:
  "presence_ok demo_nserver [(1, [with_account ''al''])] demo_friend \<and>
   list_all (presence_ok demo_nserver [(1, [])])
     (notify_list (notify_account_cleared demo_nserver (Some ''al'')
      (notify_account_observed demo_nserver (Some ''bob'') None
        (demo_notify\<lparr>notify_list := [demo_friend], sess_users := [(1, [])]\<rparr>))))"
proof -
  have a: "nv_addr demo_nserver = 1"
    by (simp add: nv_addr_def demo_nserver_def new_server_def server_set_defaults_def)
  have p: "presence_ok demo_nserver [(1, [with_account ''al''])] demo_friend"
    by (simp add: presence_ok_def demo_friend_def was_on_def per_server_def a account_seen_def with_account_def)
  have e: "(demo_notify\<lparr>notify_list := [demo_friend], sess_users := [(1, [with_account ''al''])]\<rparr>)
      \<lparr>sess_users := [(1, [])]\<rparr> = demo_notify\<lparr>notify_list := [demo_friend], sess_users := [(1, [])]\<rparr>"
    by simp
  show ?thesis
    using account_presence_kept [of "demo_notify\<lparr>notify_list := [demo_friend], sess_users := [(1, [with_account ''al''])]\<rparr>"
        demo_nserver None "[(1, [])]" "Some ''al''" "Some ''bob''"] p
    unfolding e list_all_iff by (simp add: account_seen_def a with_account_def)
qed

subsection \<open>WATCH and MONITOR\<close>

text \<open>The nicks a server reads in a line.\<close>

definition watch_targets :: "nserver \<Rightarrow> string \<Rightarrow> string list" where
  "watch_targets serv line =
     (if supports_monitor (nv_serv serv)
      then filter (\<lambda>t. t \<noteq> []) (split_at (CHR '','') (drop 10 line))
      else map tl (filter (\<lambda>t. t \<noteq> []) (split_at (CHR '' '') (drop 5 line))))"

definition plain_nick :: "string \<Rightarrow> bool" where
  "plain_nick s \<longleftrightarrow> s \<noteq> [] \<and> length s < NICKLEN \<and> CHR '','' \<notin> set s \<and> CHR '' '' \<notin> set s"

definition watch_start :: "nserver \<Rightarrow> string" where
  "watch_start serv = (if supports_monitor (nv_serv serv) then ''MONITOR + '' else ''WATCH'')"

definition watch_item :: "nserver \<Rightarrow> string \<Rightarrow> string" where
  "watch_item serv name = (if supports_monitor (nv_serv serv) then '','' else '' +'') @ name"

lemma g_strlcat_fits: "length t + length s < n \<Longrightarrow> g_strlcat n t s = t @ s"
  by (simp add: g_strlcat_def)

lemma flush_fold:
  "length t + length (concat (map (watch_item serv) names)) < 512 \<Longrightarrow>
   foldl (\<lambda>tbuf name. g_strlcat 512 (g_strlcat 512 tbuf
       (if supports_monitor (nv_serv serv) then '','' else '' +'')) name) t names =
     t @ concat (map (watch_item serv) names)"
  by (induction names arbitrary: t) (simp_all add: g_strlcat_fits watch_item_def)

lemma flush_watches_eq:
  "length (concat (map (watch_item serv) names)) \<le> 500 \<Longrightarrow>
   notify_flush_watches serv names = watch_start serv @ concat (map (watch_item serv) names)"
  unfolding notify_flush_watches_def Let_def
  by (subst flush_fold) (auto simp: watch_start_def)

lemma flush_nonempty: "notify_flush_watches serv names \<noteq> []"
proof -
  have "foldl (\<lambda>tbuf name. g_strlcat 512 (g_strlcat 512 tbuf s) name) t names \<noteq> []" if "t \<noteq> []" for s t
    using that by (induction names arbitrary: t) (simp_all add: g_strlcat_def)
  then show ?thesis by (simp add: notify_flush_watches_def Let_def)
qed

lemma targets_monitor:
  "\<forall>n \<in> set names. plain_nick n \<Longrightarrow>
   filter (\<lambda>t. t \<noteq> []) (split_at (CHR '','') (concat (map ((@) '','') names))) = names"
proof (induction names rule: rev_induct)
  case (snoc n names)
  then show ?case
    by (simp add: split_at_append_sep [of "CHR '',''" "concat _"] split_at_no_sep plain_nick_def)
qed simp

lemma targets_watch:
  "\<forall>n \<in> set names. plain_nick n \<Longrightarrow>
   map tl (filter (\<lambda>t. t \<noteq> []) (split_at (CHR '' '') (concat (map ((@) '' +'') names)))) = names"
proof (induction names rule: rev_induct)
  case (snoc n names)
  then show ?case
    by (simp add: split_at_append_sep [of "CHR '' ''" "concat _"] split_at_no_sep plain_nick_def)
qed simp

lemma watch_targets_flush:
  assumes "\<forall>n \<in> set names. plain_nick n" "length (concat (map (watch_item serv) names)) \<le> 500"
  shows "watch_targets serv (notify_flush_watches serv names) = names"
    "length (notify_flush_watches serv names) \<le> 510"
  using targets_monitor [OF assms(1)] targets_watch [OF assms(1)] assms(2)
  by (auto simp: flush_watches_eq watch_targets_def watch_start_def watch_item_def [abs_def])

lemma length_watch_item:
  "length (watch_item serv name) = length name + (if supports_monitor (nv_serv serv) then 1 else 2)"
  by (simp add: watch_item_def)

lemma send_watches_loop_complete:
  assumes "\<forall>n \<in> set (batch @ list). plain_nick n" "len = length (concat (map (watch_item serv) batch))"
    "len \<le> 500"
  shows "concat (map (watch_targets serv) (send_watches_loop serv batch len list)) = batch @ list \<and>
    (\<forall>l \<in> set (send_watches_loop serv batch len list). length l \<le> 510)"
  using assms
proof (induction serv batch len list rule: send_watches_loop.induct)
  case (1 serv batch len)
  then show ?case
    using watch_targets_flush [of batch serv] by (cases batch) (auto simp: length_watch_item)
next
  case (2 serv batch len name list)
  let ?c = "length name + (if supports_monitor (nv_serv serv) then 1 else 2)"
  have c: "length (watch_item serv name) = ?c" "?c \<le> 500"
    using "2.prems"(1) by (auto simp: length_watch_item plain_nick_def NICKLEN_def)
  show ?case
  proof (cases "len + ?c > 500")
    case True
    have "concat (map (watch_targets serv) (send_watches_loop serv [name] ?c list)) = [name] @ list \<and>
        (\<forall>l \<in> set (send_watches_loop serv [name] ?c list). length l \<le> 510)"
      by (rule "2.IH"(1) [OF refl refl True]) (use "2.prems" c in simp_all)
    with True show ?thesis
      using watch_targets_flush [of batch serv] "2.prems" by (simp add: Let_def)
  next
    case False
    have "concat (map (watch_targets serv) (send_watches_loop serv (batch @ [name]) (len + ?c) list)) = (batch @ [name]) @ list \<and>
        (\<forall>l \<in> set (send_watches_loop serv (batch @ [name]) (len + ?c) list). length l \<le> 510)"
      by (rule "2.IH"(2) [OF refl refl False]) (use "2.prems" c False in simp_all)
    with False show ?thesis by (simp add: Let_def)
  qed
qed

text \<open>C31: at login every friend with a nick who is tracked on the network is registered exactly once,
  in the order of the list, and each line fits the 512 bytes of the protocol with its end.
\<close>

theorem send_watches_complete:
  assumes "\<forall>n \<in> set (tracked_names serv (notify_list st)). plain_nick n"
  shows "\<exists>lines. nt_calls (notify_send_watches serv st) =
      nt_calls st @ map (\<lambda>l. N_send (nv_addr serv) [l @ crlf]) lines \<and>
    concat (map (watch_targets serv) lines) = tracked_names serv (notify_list st) \<and>
    (\<forall>l \<in> set lines. length (l @ crlf) \<le> 512)"
proof -
  let ?l = "send_watches_loop serv [] 0 (tracked_names serv (notify_list st))"
  have l: "concat (map (watch_targets serv) ?l) = tracked_names serv (notify_list st) \<and>
      (\<forall>l \<in> set ?l. length l \<le> 510)"
    using send_watches_loop_complete [of "[]" "tracked_names serv (notify_list st)" 0 serv] assms by simp
  have "l \<noteq> []" if "l \<in> set (send_watches_loop serv b n ns)" for l b n ns
    using that
    by (induction serv b n ns rule: send_watches_loop.induct)
      (auto simp: Let_def flush_nonempty flush_nonempty [symmetric] split: if_splits)
  then have "irc_raw l = [l @ crlf]" if "l \<in> set ?l" for l
    using that l by (fastforce simp: irc_raw_def)
  then have "nt_calls (notify_send_watches serv st) =
      nt_calls st @ map (\<lambda>l. N_send (nv_addr serv) [l @ crlf]) ?l"
    by (simp add: notify_send_watches_def nt_call_def)
  with l show ?thesis by (intro exI [of _ ?l]) (simp add: crlf_def)
qed

lemma send_watches_complete_witness:
  "\<exists>lines. nt_calls (notify_send_watches demo_nserver
        (demo_notify\<lparr>notify_list := map (\<lambda>n. new_notify (Some n) None None) [''al'', ''bob'']\<rparr>)) =
      map (\<lambda>l. N_send 1 [l @ crlf]) lines \<and>
    concat (map (watch_targets demo_nserver) lines) = [''al'', ''bob'']"
proof -
  let ?st = "demo_notify\<lparr>notify_list := map (\<lambda>n. new_notify (Some n) None None) [''al'', ''bob'']\<rparr>"
  have t: "tracked_names demo_nserver (notify_list ?st) = [''al'', ''bob'']"
    by (simp add: tracked_names_def new_notify_def NICKLEN_def notify_do_network_def)
  have a: "nv_addr demo_nserver = 1"
    by (simp add: nv_addr_def demo_nserver_def new_server_def server_set_defaults_def)
  have "nt_calls ?st = []" by (simp add: demo_notify_def)
  then show ?thesis
    using send_watches_complete [of demo_nserver ?st, unfolded t a] by (auto simp: plain_nick_def NICKLEN_def)
qed

text \<open>
  ISON: the line is built in 512 bytes and the test for its length comes behind each nick. Nicks
  of at most 50 characters fit; longer ones, which the list takes up to 63, can run behind the
  end of the buffer.
\<close>

lemma checklist_loop_fits:
  "\<forall>n \<in> set names. length n \<le> 50 \<Longrightarrow> length buf \<le> 460 \<Longrightarrow> checklist_loop buf names \<noteq> None"
  by (induction buf names rule: checklist_loop.induct) (auto simp: strcat_512_def)

lemma checklist_fits:
  "\<forall>n \<in> set (tracked_names serv (notify_list st)). length n \<le> 50 \<Longrightarrow>
   notify_checklist_for_server serv st \<noteq> None"
  using checklist_loop_fits [of _ "''ISON ''"] by (auto simp: notify_checklist_for_server_def Let_def)

lemma checklist_loop_step:
  "length buf + length n + 1 \<le> 460 \<Longrightarrow>
   checklist_loop buf (n # names) = checklist_loop (buf @ n @ '' '') names"
  by (simp add: strcat_512_def)

lemma checklist_loop_over:
  "length buf + length n \<ge> 512 \<Longrightarrow> checklist_loop buf (n # names) = None"
  by (simp add: strcat_512_def)

lemma checklist_overflow:
  "checklist_loop ''ISON '' (replicate 7 (replicate 63 (CHR ''a'')) @ [replicate 63 (CHR ''b'')]) = None"
  by (simp add: eval_nat_numeral strcat_512_def)

subsection \<open>The file\<close>

definition word_ok :: "string \<Rightarrow> bool" where
  "word_ok s \<longleftrightarrow> s \<noteq> [] \<and> (\<forall>c \<in> set s. \<not> is_blank c \<and> c \<noteq> CHR 0x0A \<and> c \<noteq> CHR 0x0D \<and> c \<noteq> NUL)"

text \<open>
  The entries that the file can hold: a nick that does not look like a comment or an account, and
  networks that do not look like an account.
\<close>

definition savable :: "notify \<Rightarrow> bool" where
  "savable n \<longleftrightarrow>
     (n_name n \<noteq> None \<or> n_account n \<noteq> None) \<and>
     (case n_name n of
        Some s \<Rightarrow> word_ok s \<and> length s < NICKLEN \<and> hd s \<noteq> CHR ''#'' \<and> \<not> has_prefix s ''account=''
      | None \<Rightarrow> True) \<and>
     (case n_account n of Some s \<Rightarrow> word_ok s | None \<Rightarrow> True) \<and>
     (case n_networks n of Some s \<Rightarrow> word_ok s \<and> \<not> has_prefix s ''account='' | None \<Rightarrow> True) \<and>
     length (save_line n) \<le> 256"

definition line_text :: "notify \<Rightarrow> string" where
  "line_text n = butlast (save_line n)"

lemma save_line_text: "save_line n = line_text n @ [CHR 0x0A]"
  by (simp add: line_text_def save_line_def butlast_append)

lemma cut_blank_word: "\<forall>c \<in> set w. \<not> is_blank c \<Longrightarrow> cut_blank w = (w, None)"
proof -
  assume "\<forall>c \<in> set w. \<not> is_blank c"
  then have "dropWhile (\<lambda>c. \<not> is_blank c) w = []" "takeWhile (\<lambda>c. \<not> is_blank c) w = w" by simp_all
  then show ?thesis by (simp only: cut_blank_def list.case)
qed

lemma cut_blank_rest:
  "\<forall>c \<in> set w. \<not> is_blank c \<Longrightarrow> \<not> is_blank (cur t) \<Longrightarrow>
   cut_blank (w @ CHR '' '' # t) = (w, Some t)"
proof -
  assume w: "\<forall>c \<in> set w. \<not> is_blank c" and t: "\<not> is_blank (cur t)"
  have "dropWhile is_blank t = t" using t by (cases t) auto
  with w show ?thesis by (simp add: cut_blank_def is_blank_def takeWhile_append2 dropWhile_append2)
qed

lemma has_prefix_sep: "c \<notin> set p \<Longrightarrow> has_prefix (s @ c # t) p \<longleftrightarrow> has_prefix s p"
  by (induction s p rule: has_prefix.induct) auto

lemma no_account_prefix:
  "\<not> has_prefix s ''account='' \<Longrightarrow> \<not> has_prefix (s @ CHR '' '' # t) ''account=''"
  by (simp add: has_prefix_sep)

text \<open>A line as it is saved is read back as the entry.\<close>

lemma parse_line_text:
  assumes "savable n"
  shows "parse_line (line_text n) = n_key n"
proof -
  have ok: "\<forall>c \<in> set s. \<not> is_blank c" "\<not> is_blank (cur s)" "s \<noteq> []" if "word_ok s" for s
    using that by (cases s; simp add: word_ok_def)+
  have key: "\<not> is_blank (cur (''account='' @ s))" "\<not> is_blank (cur (''networks='' @ s))" for s
    by (simp_all add: is_blank_def)
  have lt: "line_text n =
      (case n_name n of Some s \<Rightarrow> s | None \<Rightarrow> []) @
      (case n_account n of None \<Rightarrow> [] | Some a \<Rightarrow> (if n_name n \<noteq> None then '' '' else []) @ ''account='' @ a) @
      (case n_networks n of None \<Rightarrow> []
       | Some nets \<Rightarrow> '' '' @ (if n_account n \<noteq> None then ''networks='' @ nets else nets))"
    by (simp add: line_text_def save_line_def butlast_append)
  have pre: "has_prefix (''account='' @ s) ''account=''" "has_prefix (''networks='' @ s) ''networks=''" for s
    by simp_all
  show ?thesis
  proof (cases "n_name n")
    case None
    with assms obtain a where a: "n_account n = Some a" "word_ok a" by (auto simp: savable_def)
    then show ?thesis
      using assms None ok [of a] cut_blank_word [of a] cut_blank_rest [of a] key(2)
      by (cases "n_networks n") (auto simp: lt parse_line_def networks_key_def n_key_def)
  next
    case (Some s)
    then have s: "word_ok s" "\<not> has_prefix s ''account=''" using assms by (auto simp: savable_def)
    note s' = ok [OF s(1)] no_account_prefix [OF s(2)]
      cut_blank_word [OF ok(1) [OF s(1)]] cut_blank_rest [OF ok(1) [OF s(1)]]
    show ?thesis
    proof (cases "n_account n")
      case None
      then show ?thesis
        using assms Some s s' ok
        by (cases "n_networks n") (auto simp: lt parse_line_def n_key_def savable_def)
    next
      case a: (Some a)
      then have "word_ok a" using assms by (auto simp: savable_def)
      then show ?thesis
        using Some a s s' ok [of a] cut_blank_word [of a] cut_blank_rest [of a] key
        by (cases "n_networks n") (auto simp: lt parse_line_def networks_key_def n_key_def)
    qed
  qed
qed

lemma load_loop_line:
  "CHR 0x0A \<notin> set l \<Longrightarrow> length (buf @ l) < 256 \<Longrightarrow>
   notify_load_loop buf (l @ CHR 0x0A # file) st =
     Option.bind (load_buf (buf @ l) st) (\<lambda>st. notify_load_loop [] file st)"
  by (induction l arbitrary: buf) auto

lemma despacify_id: "CHR '' '' \<notin> set s \<Longrightarrow> despacify_dup s = s"
  by (induction s) auto

lemma new_notify_key:
  assumes "savable n" "n_key n = (name, account, networks)"
  shows "new_notify name account networks = n\<lparr>server_list := []\<rparr>"
proof -
  have "despacify_dup s = s" if "word_ok s" for s
    by (rule despacify_id) (use that in \<open>auto simp: word_ok_def is_blank_def\<close>)
  then have "map_option despacify_dup (n_networks n) = n_networks n"
    using assms(1) by (cases "n_networks n") (simp_all add: savable_def)
  moreover have "(case n_name n of Some (c # s) \<Rightarrow> Some (take (NICKLEN - 1) (c # s)) | _ \<Rightarrow> None) = n_name n"
  proof (cases "n_name n")
    case (Some s)
    with assms(1) have "s \<noteq> []" "length s \<le> NICKLEN - 1"
      by (simp_all add: savable_def word_ok_def NICKLEN_def)
    with Some show ?thesis by (cases s) simp_all
  qed simp
  moreover have "(case n_account n of Some (c # s) \<Rightarrow> Some (c # s) | _ \<Rightarrow> None) = n_account n"
  proof (cases "n_account n")
    case (Some s)
    with assms(1) have "s \<noteq> []" by (simp add: savable_def word_ok_def)
    with Some show ?thesis by (cases s) simp_all
  qed simp
  ultimately have "new_notify (n_name n) (n_account n) (n_networks n) = n\<lparr>server_list := []\<rparr>"
    unfolding new_notify_def by (simp only: notify.update_convs) (cases n, simp)
  with assms(2) show ?thesis by (simp add: n_key_def)
qed

lemma adduser_offline:
  "serv_list st = [] \<Longrightarrow> \<exists>cs. notify_adduser name account networks st =
     Some (nt_call cs (st\<lparr>notify_list := new_notify name account networks # notify_list st\<rparr>))"
  by (auto simp: notify_adduser_def notify_checklist_def notify_watch_all_def nt_call_def Let_def
      split: option.split)

text \<open>The characters of a line.\<close>

lemma line_text_chars:
  assumes "savable n"
  shows "CHR 0x0A \<notin> set (line_text n)" "upto_chr (line_text n) NUL = line_text n"
    "rstrip_cr (line_text n) = line_text n" "cur (line_text n) \<noteq> CHR ''#''" "cur (line_text n) \<noteq> NUL"
    "length (line_text n) < 256"
proof -
  have w: "CHR 0x0A \<notin> set s" "CHR 0x0D \<notin> set s" "NUL \<notin> set s" if "word_ok s" for s
    using that by (auto simp: word_ok_def)
  note d = line_text_def save_line_def butlast_append
  have cs: "CHR 0x0A \<notin> set (line_text n) \<and> CHR 0x0D \<notin> set (line_text n) \<and> NUL \<notin> set (line_text n)"
    using assms w by (auto simp: d savable_def split: option.splits)
  then show "CHR 0x0A \<notin> set (line_text n)" by simp
  show "upto_chr (line_text n) NUL = line_text n"
    using cs by (auto simp: upto_chr_def takeWhile_eq_all_conv)
  show "rstrip_cr (line_text n) = line_text n"
    using cs last_in_set [of "line_text n"] by (metis rstrip_cr_def)
  have "\<exists>c u. line_text n = c # u \<and> c \<noteq> CHR ''#''"
  proof (cases "n_name n")
    case (Some s)
    with assms have "word_ok s" "hd s \<noteq> CHR ''#''" by (auto simp: savable_def)
    with Some show ?thesis by (cases s) (auto simp: d word_ok_def)
  next
    case None
    with assms show ?thesis by (auto simp: d savable_def)
  qed
  then show "cur (line_text n) \<noteq> CHR ''#''" "cur (line_text n) \<noteq> NUL" using cs by auto
  show "length (line_text n) < 256"
    using assms save_line_text [of n] by (simp add: savable_def)
qed

lemma load_saved_line:
  assumes "savable n" "serv_list st = []"
  shows "\<exists>cs. load_buf (line_text n) st = Some (nt_call cs (st\<lparr>notify_list := n\<lparr>server_list := []\<rparr> # notify_list st\<rparr>))"
proof -
  obtain name account networks where k: "n_key n = (name, account, networks)" by (cases "n_key n")
  have "(name \<noteq> None \<and> name \<noteq> Some []) \<or> (account \<noteq> None \<and> account \<noteq> Some [])"
    using assms(1) k by (auto simp: savable_def n_key_def word_ok_def)
  then have "load_buf (line_text n) st = notify_adduser name account networks st"
    by (simp add: load_buf_def line_text_chars [OF assms(1)] notify_load_line_def
        parse_line_text [OF assms(1)] k)
  with adduser_offline [OF assms(2)] new_notify_key [OF assms(1) k] show ?thesis by metis
qed

lemma load_saved_lines:
  "\<forall>n \<in> set ns. savable n \<Longrightarrow> serv_list st = [] \<Longrightarrow>
   \<exists>st'. notify_load_loop [] (concat (map save_line ns)) st = Some st' \<and>
     notify_list st' = rev (map (\<lambda>n. n\<lparr>server_list := []\<rparr>) ns) @ notify_list st"
proof (induction ns arbitrary: st)
  case (Cons n ns)
  then obtain cs where l: "load_buf (line_text n) st =
      Some (nt_call cs (st\<lparr>notify_list := n\<lparr>server_list := []\<rparr> # notify_list st\<rparr>))" (is "_ = Some ?st")
    using load_saved_line [of n st] by auto
  have "serv_list ?st = []" using Cons.prems by (simp add: nt_call_def)
  with Cons obtain st' where "notify_load_loop [] (concat (map save_line ns)) ?st = Some st'"
      "notify_list st' = rev (map (\<lambda>n. n\<lparr>server_list := []\<rparr>) ns) @ notify_list ?st"
    by fastforce
  moreover have "notify_load_loop [] (concat (map save_line (n # ns))) st =
      notify_load_loop [] (concat (map save_line ns)) ?st"
    using load_loop_line [of "line_text n" "[]"] line_text_chars(1,6) [of n] Cons.prems(1) l
    by (simp add: save_line_text)
  ultimately show ?case by (simp add: nt_call_def)
qed simp

text \<open>\<open>notify.conf\<close> as it is written gives back every entry, in the order of the list, with its
  nick, account and networks: for all four forms of a line, whatever the entries are called as
  long as a line fits its buffer and a name does not look like a comment or a key.
\<close>

theorem notify_file_roundtrip:
  assumes "\<forall>n \<in> set (notify_list st). savable n" "serv_list st0 = []" "notify_list st0 = []"
  shows "\<exists>st'. notify_load (Some (notify_save st)) st0 = Some st' \<and>
    notify_list st' = map (\<lambda>n. n\<lparr>server_list := []\<rparr>) (notify_list st)"
  using load_saved_lines [of "rev (notify_list st)" st0] assms
  by (simp add: notify_load_def notify_save_def rev_map)

definition demo_friends :: "notify list" where
  "demo_friends =
     [new_notify (Some ''al'') (Some ''al2'') (Some ''Libera''), new_notify (Some ''bob'') None (Some ''A,B''),
      new_notify None (Some ''cy'') None]"

lemma notify_file_roundtrip_witness:
  "\<exists>st'. notify_load (Some (notify_save (demo_notify\<lparr>notify_list := demo_friends\<rparr>))) demo_notify = Some st' \<and>
     notify_list st' = demo_friends"
proof -
  have "\<forall>n \<in> set demo_friends. savable n"
    by (simp add: demo_friends_def new_notify_def savable_def word_ok_def is_blank_def NICKLEN_def
        save_line_def)
  moreover have "map (\<lambda>n. n\<lparr>server_list := []\<rparr>) demo_friends = demo_friends"
    by (simp add: demo_friends_def new_notify_def)
  ultimately show ?thesis
    using notify_file_roundtrip [of "demo_notify\<lparr>notify_list := demo_friends\<rparr>" demo_notify]
    by (simp add: demo_notify_def)
qed

end
