(* ===== verification/Alert.thy ===== *)
theory Alert
  imports Glob StringUtil
begin

text \<open>
  The words that highlight a message, \<open>alert_match_word\<close> and \<open>alert_match_text\<close> of
  \<open>src/common/inbound.c\<close>. The code overwrites the separator behind a word by 0 and restores it;
  here the word is the text read since the last separator. \<open>alpha\<close> is \<open>g_unichar_isalpha\<close> of the
  character at a position. The result is that of \<open>match\<close>, with \<open>Overread\<close> also for a truncated
  UTF-8 sequence at the end of the text.
\<close>

definition g_ascii_isspace :: "char \<Rightarrow> bool" where
  "g_ascii_isspace c \<longleftrightarrow> uchar c \<in> {32, 9, 10, 12, 13}"

definition mask_end :: "char \<Rightarrow> bool" where
  "mask_end c \<longleftrightarrow> c = CHR '' '' \<or> c = CHR '',''"

fun alert_word_loop :: "string \<Rightarrow> string \<Rightarrow> string \<Rightarrow> match_result" where
  "alert_word_loop wd masks [] = match (dropWhile g_ascii_isspace masks) wd"
| "alert_word_loop wd masks (c # p) =
     (if mask_end c then
        (case match (dropWhile g_ascii_isspace masks) wd of
           Mismatch \<Rightarrow> alert_word_loop wd [] p
         | r \<Rightarrow> r)
      else alert_word_loop wd (masks @ [c]) p)"

definition alert_match_word :: "string \<Rightarrow> string \<Rightarrow> match_result" where
  "alert_match_word wd masks = (if masks = [] then Mismatch else alert_word_loop wd [] masks)"

text \<open>A digit or an RFC 1459 special character: these are skipped byte by byte.\<close>

definition inside_word :: "char \<Rightarrow> bool" where
  "inside_word c \<longleftrightarrow> is_digit c \<or> c \<in> set (BACKSLASH # ''-[]`^{}_|'')"

definition word_ends :: "(string \<Rightarrow> bool) \<Rightarrow> string \<Rightarrow> bool" where
  "word_ends alpha p \<longleftrightarrow> p = [] \<or> mask_end (hd p) \<or> \<not> alpha p"

function alert_text_loop :: "(string \<Rightarrow> bool) \<Rightarrow> string \<Rightarrow> string \<Rightarrow> string \<Rightarrow> match_result" where
  "alert_text_loop alpha masks tx p =
     (if p \<noteq> [] \<and> inside_word (hd p) then alert_text_loop alpha masks (tx @ [hd p]) (tl p)
      else if word_ends alpha p then
        (case alert_match_word tx masks of
           Mismatch \<Rightarrow>
             if p = [] then Mismatch
             else if g_utf8_skip (hd p) > length p then Overread
             else alert_text_loop alpha masks [] (drop (g_utf8_skip (hd p)) p)
         | r \<Rightarrow> r)
      else if g_utf8_skip (hd p) > length p then Overread
      else alert_text_loop alpha masks (tx @ take (g_utf8_skip (hd p)) p) (drop (g_utf8_skip (hd p)) p))"
  by pat_completeness auto
termination
  by (relation "measure (\<lambda>(a, m, t, p). length p)") (auto simp: g_utf8_skip_pos word_ends_def)

declare alert_text_loop.simps [simp del]

definition alert_match_text :: "(string \<Rightarrow> bool) \<Rightarrow> string \<Rightarrow> string \<Rightarrow> match_result" where
  "alert_match_text alpha tx masks = (if masks = [] then Mismatch else alert_text_loop alpha masks [] tx)"

subsection \<open>What they decide\<close>

text \<open>The masks of a list, and the words of a text: both are what stands between two separators.\<close>

definition mask_list :: "string \<Rightarrow> string list" where
  "mask_list masks =
     (if masks = [] then [] else
        map (dropWhile g_ascii_isspace)
          (split_at (CHR '' '') (map (\<lambda>c. if c = CHR '','' then CHR '' '' else c) masks)))"

function text_words :: "(string \<Rightarrow> bool) \<Rightarrow> string \<Rightarrow> string \<Rightarrow> string list" where
  "text_words alpha tx p =
     (if p = [] then [tx]
      else if inside_word (hd p) then text_words alpha (tx @ [hd p]) (tl p)
      else if word_ends alpha p then tx # text_words alpha [] (drop (g_utf8_skip (hd p)) p)
      else text_words alpha (tx @ take (g_utf8_skip (hd p)) p) (drop (g_utf8_skip (hd p)) p))"
  by pat_completeness auto
termination
  by (relation "measure (\<lambda>(a, t, p). length p)") (auto simp: g_utf8_skip_pos)

declare text_words.simps [simp del]

definition hits :: "string list \<Rightarrow> string \<Rightarrow> bool" where
  "hits masks wd \<longleftrightarrow> (\<exists>m \<in> set masks. glob (mask_tokens m) wd)"

lemma alert_word_loop_hits:
  assumes "alert_word_loop wd m p \<noteq> Overread" "CHR '' '' \<notin> set m"
  shows "alert_word_loop wd m p = Matched \<longleftrightarrow>
    hits (map (dropWhile g_ascii_isspace)
      (split_at (CHR '' '') (m @ map (\<lambda>c. if c = CHR '','' then CHR '' '' else c) p))) wd"
  using assms
proof (induction wd m p rule: alert_word_loop.induct)
  case (1 wd m)
  then show ?case by (simp add: hits_def split_at_no_sep match_glob)
next
  case (2 wd m c p)
  let ?f = "\<lambda>c. if c = CHR '','' then CHR '' '' else c"
  let ?d = "dropWhile g_ascii_isspace"
  show ?case
  proof (cases "mask_end c")
    case True
    then have "split_at (CHR '' '') (m @ map ?f (c # p)) = m # split_at (CHR '' '') (map ?f p)"
      using "2.prems"(2) by (auto simp: mask_end_def split_at_append_sep split_at_no_sep)
    moreover have "match (?d m) wd \<noteq> Overread" using "2.prems"(1) True by auto
    ultimately show ?thesis
      using 2 True match_glob [of "?d m" wd] by (cases "match (?d m) wd") (auto simp: hits_def)
  next
    case False
    with 2 show ?thesis by (auto simp: mask_end_def)
  qed
qed

lemma alert_match_word_hits:
  "alert_match_word wd masks \<noteq> Overread \<Longrightarrow>
   alert_match_word wd masks = Matched \<longleftrightarrow> hits (mask_list masks) wd"
  using alert_word_loop_hits [of wd "[]" masks]
  by (cases "masks = []") (simp_all add: alert_match_word_def mask_list_def hits_def)

lemma alert_text_loop_hits:
  "masks \<noteq> [] \<Longrightarrow> alert_text_loop alpha masks tx p \<noteq> Overread \<Longrightarrow>
   alert_text_loop alpha masks tx p = Matched \<longleftrightarrow> (\<exists>w \<in> set (text_words alpha tx p). hits (mask_list masks) w)"
proof (induction alpha masks tx p rule: alert_text_loop.induct)
  case (1 alpha masks tx p)
  show ?case
  proof (cases "p \<noteq> [] \<and> inside_word (hd p)")
    case True
    with 1 show ?thesis by (simp add: alert_text_loop.simps [of _ _ _ p] text_words.simps [of _ _ p])
  next
    case inside: False
    show ?thesis
    proof (cases "word_ends alpha p")
      case True
      then have m: "alert_match_word tx masks \<noteq> Overread"
        using "1.prems"(2) inside by (auto simp: alert_text_loop.simps [of _ _ _ p])
      show ?thesis
      proof (cases "alert_match_word tx masks = Matched \<or> p = []")
        case True
        with inside \<open>word_ends alpha p\<close> m alert_match_word_hits [OF m] show ?thesis
          by (cases "alert_match_word tx masks")
            (auto simp: alert_text_loop.simps [of _ _ _ p] text_words.simps [of _ _ p]
              alert_text_loop.simps [of _ _ _ "[]"] text_words.simps [of _ _ "[]"])
      next
        case False
        with m have "alert_match_word tx masks = Mismatch" by (cases "alert_match_word tx masks") auto
        with 1 inside \<open>word_ends alpha p\<close> False alert_match_word_hits [OF m] show ?thesis
          by (auto simp: alert_text_loop.simps [of _ _ _ p] text_words.simps [of _ _ p] split: if_splits)
      qed
    next
      case False
      then have "p \<noteq> []" by (simp add: word_ends_def)
      with 1 inside False show ?thesis
        by (auto simp: alert_text_loop.simps [of _ _ _ p] text_words.simps [of _ _ p] split: if_splits)
    qed
  qed
qed


text \<open>
  A list written with a comma and a blank, as a user would, has the empty mask in it, and a text
  with two separators in a row or with a separator at its end has the empty word: the two match,
  and every such message is highlighted, whoever it is for.
\<close>

definition ascii_alpha :: "string \<Rightarrow> bool" where
  "ascii_alpha p = (65 \<le> uchar (hd p) \<and> uchar (hd p) \<le> 90 \<or> 97 \<le> uchar (hd p) \<and> uchar (hd p) \<le> 122)"

lemma empty_mask_matches: "[] \<in> set (mask_list masks) \<Longrightarrow> hits (mask_list masks) []"
  by (auto simp: hits_def intro!: bexI [of _ "[]"])

lemma alert_needless:
  assumes "[] \<in> set (mask_list masks)" "[] \<in> set (text_words alpha [] tx)"
    "alert_match_text alpha tx masks \<noteq> Overread"
  shows "alert_match_text alpha tx masks = Matched"
  using assms alert_text_loop_hits [of masks alpha "[]" tx] empty_mask_matches [OF assms(1)]
  by (auto simp: alert_match_text_def mask_list_def split: if_splits)

text \<open>Masks without a star on an ASCII text are decided.\<close>

lemma match_head_decides: "CHR ''*'' \<notin> set m \<Longrightarrow> match_head m s \<in> {Head_done Matched, Head_done Mismatch}"
proof (induction m s rule: match_head.induct)
  case (2 c m s)
  moreover have "set (lit_rest c m) \<subseteq> set m" by (cases m) (auto simp: lit_rest_def)
  ultimately show ?case by auto
qed simp

lemma match_decides: "CHR ''*'' \<notin> set m \<Longrightarrow> match m s \<noteq> Overread"
  using match_head_decides [of m s] by (auto simp: match_def)

lemma alert_word_decides: "CHR ''*'' \<notin> set m \<Longrightarrow> CHR ''*'' \<notin> set p \<Longrightarrow> alert_word_loop wd m p \<noteq> Overread"
proof (induction wd m p rule: alert_word_loop.induct)
  case (1 wd m)
  then show ?case by (auto intro!: match_decides dest: set_dropWhileD)
next
  case (2 wd m c p)
  have "match (dropWhile g_ascii_isspace m) wd \<noteq> Overread"
    using "2.prems" by (auto intro!: match_decides dest: set_dropWhileD)
  with 2 show ?case by (auto split: match_result.splits)
qed

lemma alert_text_decides: "CHR ''*'' \<notin> set masks \<Longrightarrow> ascii_str p \<Longrightarrow> alert_text_loop alpha masks tx p \<noteq> Overread"
proof (induction alpha masks tx p rule: alert_text_loop.induct)
  case (1 alpha masks tx p)
  have w: "alert_match_word tx masks \<noteq> Overread"
    using alert_word_decides [of "[]" masks] "1.prems" by (simp add: alert_match_word_def)
  show ?case
  proof (cases p)
    case Nil
    with w show ?thesis
      by (subst alert_text_loop.simps) (simp add: word_ends_def split: match_result.splits)
  next
    case (Cons c q)
    then have c: "ascii_str q" "g_utf8_skip c = 1" using "1.prems" by (simp_all add: g_utf8_skip_ascii)
    show ?thesis
      using "1.IH" "1.prems"(1) w c unfolding Cons
      by (subst alert_text_loop.simps) (simp split: match_result.splits)
  qed
qed

lemma demo_words: "text_words ascii_alpha [] ''hi!'' = [''hi'', []]"
  by (simp add: text_words.simps [of _ _ "_ # _"] text_words.simps [of _ _ "[]"] inside_word_def is_digit_def
      uchar_def word_ends_def mask_end_def ascii_alpha_def g_utf8_skip_def)

lemma demo_masks: "mask_list ''al, bob'' = [''al'', [], ''bob'']"
  by (simp add: mask_list_def g_ascii_isspace_def uchar_def)

lemma demo_needless_alert: "alert_match_text ascii_alpha ''hi!'' ''al, bob'' = Matched"
  by (rule alert_needless)
    (simp_all add: demo_masks demo_words alert_match_text_def alert_text_decides ascii_def uchar_def)


end
