(* ===== verification/Display.thy ===== *)
theory Display
  imports Command Alert
begin

text \<open>
  Messages that come in: where they are shown and how, in \<open>src/common/inbound.c\<close>, and the CTCP
  requests of \<open>src/common/ctcp.c\<close>. The state is \<open>Say.client\<close>: a CTCP may run a command of the
  user. A window is the number of its session; one that is opened becomes number 0.

  \<open>denv\<close> adds the preferences and answers these handlers need. \<open>is_tab\<close> says which window is
  \<open>current_tab\<close>, \<open>takes_msgid\<close> whether the front end takes \<open>current_msgid\<close> when it prints.
  \<open>lasttalk\<close> of a user and the state of a tab are calls in the trace. \<open>None\<close> is a read behind a
  string, or undefined behaviour of a command.
\<close>

record denv =
  de_i :: ienv
  no_hilight :: string
  extra_hilight :: string
  nick_hilight :: string
  id_ytext :: string
  id_ntext :: string
  alpha :: "string \<Rightarrow> bool"
  is_tab :: "nat \<Rightarrow> bool"
  takes_msgid :: bool
  away_auto_unmark :: bool
  hide_version :: bool
  version_text :: string
  ctcp_list :: "(string \<times> string) list"
  network_name :: string
  notice_pos :: int

abbreviation de_env :: "denv \<Rightarrow> env" where
  "de_env de \<equiv> ie_env (de_i de)"

abbreviation cl_world :: "client \<Rightarrow> world" where
  "cl_world c \<equiv> pr_w (cl_st c)"

subsection \<open>Parts of every handler\<close>

text \<open>A text event for a message, in window \<open>i\<close>.\<close>

definition show_event :: "denv \<Rightarrow> nat \<Rightarrow> string \<Rightarrow> string list \<Rightarrow> client \<Rightarrow> client" where
  "show_event de i event args c =
     (let c = on_st (ev_in i event args) c in
      if takes_msgid de then on_ui i (\<lambda>u. u\<lparr>current_msgid := None\<rparr>) c else c)"

definition new_activity :: "denv \<Rightarrow> nat \<Rightarrow> string \<Rightarrow> client \<Rightarrow> client" where
  "new_activity de i flag c = (if is_tab de i then c else on_st (fn ''tab_state'' [show_nat i, flag]) c)"

definition take_msgid :: "nat \<Rightarrow> message_tags_data \<Rightarrow> client \<Rightarrow> client" where
  "take_msgid i td c =
     (case t_msgid td of
        None \<Rightarrow> c
      | Some m \<Rightarrow>
          on_st (fn ''chathistory_track_msgid_ts'' [show_nat i, m]) (on_ui i (\<lambda>u. u\<lparr>current_msgid := Some m\<rparr>) c))"

text \<open>
  The message that this one answers. \<open>current_msgid\<close>, which the front end looks at, is put back
  for the call.
\<close>

definition check_reply :: "denv \<Rightarrow> nat \<Rightarrow> message_tags_data \<Rightarrow> client \<Rightarrow> client" where
  "check_reply de i td c =
     (case (if env_reply_show (de_env de) then t_all_tags td else None) of
        None \<Rightarrow> c
      | Some tags \<Rightarrow>
          (case tags ''+draft/reply'' of
             None \<Rightarrow> c
           | Some r \<Rightarrow>
               let set_context = (\<lambda>mid. on_st (fn ''fe_reply_context_set'' ([show_nat i, r] @ opt_args mid))) in
               if t_msgid td \<noteq> None \<and> current_msgid (cl_ui c i) = None
               then set_context (t_msgid td) c
               else set_context (current_msgid (cl_ui c i)) c))"

definition inbound_make_idtext :: "denv \<Rightarrow> bool \<Rightarrow> client \<Rightarrow> string option" where
  "inbound_make_idtext de ident c =
     (if have_idmsg (pr_caps (cl_st c)) \<or> have_accnotify (pr_flags (cl_st c))
      then map_option (check_special_chars (ie_utf8 (de_i de)) True)
             (safe_strcpy (if ident then id_ytext de else id_ntext de) 64)
      else Some [])"

text \<open>What is known of the speaker in window \<open>i\<close>: identified, ourselves, and the prefix.\<close>

definition speaker :: "nat \<Rightarrow> string \<Rightarrow> bool \<Rightarrow> bool \<Rightarrow> client \<Rightarrow> bool \<times> bool \<times> string \<times> client" where
  "speaker i from ident fromme c =
     (case find_user (cl_world c) i from of
        None \<Rightarrow> (ident, fromme, [], c)
      | Some a \<Rightarrow>
          let u = user_at (w_mem (cl_world c)) a in
          (ident \<or> u_account u \<noteq> None, fromme \<or> u_me u, (if u_prefix u = NUL then [] else [u_prefix u]),
           on_st (fn ''lasttalk'' [show_nat i, from]) c))"

fun first_match :: "match_result list \<Rightarrow> bool option" where
  "first_match [] = Some False"
| "first_match (r # rs) = (case r of Matched \<Rightarrow> Some True | Overread \<Rightarrow> None | Mismatch \<Rightarrow> first_match rs)"

definition is_hilight :: "denv \<Rightarrow> string \<Rightarrow> string \<Rightarrow> nat \<Rightarrow> client \<Rightarrow> (client \<times> bool) option" where
  "is_hilight de from text i c =
     (case alert_match_word from (no_hilight de) of
        Overread \<Rightarrow> None
      | Matched \<Rightarrow> Some (c, False)
      | Mismatch \<Rightarrow>
          (case strip_color2 text (-1) STRIP_ALL of
             None \<Rightarrow> None
           | Some plain \<Rightarrow>
               (case first_match [alert_match_text (alpha de) plain (serv_nick (cl_serv c)),
                                  alert_match_text (alpha de) plain (extra_hilight de),
                                  alert_match_word from (nick_hilight de)] of
                  None \<Rightarrow> None
                | Some hit \<Rightarrow> Some (if hit then new_activity de i ''hilight'' c else c, hit))))"

definition open_dialog :: "string \<Rightarrow> client \<Rightarrow> client option" where
  "open_dialog from c = map_option (on_st (ev_in 0 ''OPENDIALOG'' [])) (new_window from c)"

text \<open>\<open>flood_check\<close> of a private message; false when it is part of a flood.\<close>

definition msg_flood_check :: "denv \<Rightarrow> string \<Rightarrow> string \<Rightarrow> client \<Rightarrow> client \<times> bool" where
  "msg_flood_check de from ip c =
     (let st = cl_st c;
          ((fl, ig, ao), ok) =
            flood_check (env_flood (de_env de)) (env_now (de_env de)) from ip False
              (fst (pr_flood st), pr_ig st, snd (pr_flood st))
      in (on_st (\<lambda>st. st\<lparr>pr_flood := (fl, ao), pr_ig := ig\<rparr>) c, ok))"

abbreviation autoopen_dialog :: "client \<Rightarrow> bool" where
  "autoopen_dialog c \<equiv> snd (pr_flood (cl_st c))"

subsection \<open>Messages of a channel or a dialog\<close>

definition chanmsg_window :: "nat option \<Rightarrow> string option \<Rightarrow> string \<Rightarrow> client \<Rightarrow> nat option" where
  "chanmsg_window sess chan from c =
     (case sess of
        Some i \<Rightarrow> Some i
      | None \<Rightarrow>
          (case chan of
             Some ch \<Rightarrow>
               (case find_channel (cl_world c) ch of
                  Some i \<Rightarrow> Some i
                | None \<Rightarrow> if is_channel (cl_serv c) ch then None else find_dialog (cl_world c) ch)
           | None \<Rightarrow> find_dialog (cl_world c) from))"

definition show_chanmsg ::
    "denv \<Rightarrow> nat \<Rightarrow> string \<Rightarrow> string \<Rightarrow> bool \<Rightarrow> string \<Rightarrow> client \<Rightarrow> client option" where
  "show_chanmsg de i from text ident nickchar c =
     (case inbound_make_idtext de ident c of
        None \<Rightarrow> None
      | Some idtext \<Rightarrow>
          map_option
            (\<lambda>(c, hilight).
               if sess_type (cl_sess c i) = SESS_DIALOG then show_event de i ''DPRIVMSG'' [from, text, idtext] c
               else show_event de i (if hilight then ''HCHANMSG'' else ''CHANMSG'') [from, text, nickchar, idtext] c)
            (is_hilight de from text i c))"

definition inbound_chanmsg ::
    "denv \<Rightarrow> nat option \<Rightarrow> string option \<Rightarrow> string \<Rightarrow> string \<Rightarrow> bool \<Rightarrow> bool \<Rightarrow> message_tags_data \<Rightarrow>
     client \<Rightarrow> client option" where
  "inbound_chanmsg de sess chan from text fromme ident td c =
     (case chanmsg_window sess chan from c of
        None \<Rightarrow> Some c
      | Some i \<Rightarrow>
          let c = new_activity de i ''msg'' (take_msgid i td c);
              (ident, fromme, nickchar, c) = speaker i from ident fromme c
          in map_option (check_reply de i td)
               (if fromme then
                  Some (show_event de i ''UCHANMSG'' [from, text, nickchar]
                    (if away_auto_unmark de \<and> is_away (cl_serv c) \<and> t_timestamp td = 0
                     then send_raw ''AWAY'' c else c))
                else show_chanmsg de i from text ident nickchar c))"

definition inbound_privmsg ::
    "denv \<Rightarrow> string \<Rightarrow> string \<Rightarrow> string \<Rightarrow> bool \<Rightarrow> message_tags_data \<Rightarrow> client \<Rightarrow> client option" where
  "inbound_privmsg de from ip text ident td c =
     (let sess = find_dialog (cl_world c) from in
      if sess \<noteq> None \<or> autoopen_dialog c then
        (case (case sess of
                 Some i \<Rightarrow> Some (c, i)
               | None \<Rightarrow>
                   (case msg_flood_check de from ip c of
                      (c, True) \<Rightarrow> map_option (\<lambda>c. (c, 0)) (open_dialog from c)
                    | (c, False) \<Rightarrow> Some (c, w_server_sess (cl_world c)))) of
           None \<Rightarrow> None
         | Some (c, i) \<Rightarrow>
             inbound_chanmsg de None None from text False (t_identified td) td
               (if ip \<noteq> [] then on_st (on_world (set_topic i ip ip)) c else c))
      else
        let (i, nodiag) =
              (case find_session_from_nick from (cl_world c) of
                 Some i \<Rightarrow> (i, False) | None \<Rightarrow> (w_front (cl_world c), True));
            (ident, _, _, c) = speaker i from ident False c
        in map_option
             (\<lambda>idtext.
                show_event de i (if sess_type (cl_sess c i) = SESS_DIALOG \<and> \<not> nodiag then ''DPRIVMSG'' else ''PRIVMSG'')
                  [from, text, idtext] c)
             (inbound_make_idtext de ident c))"

subsection \<open>Actions\<close>

text \<open>The window of an action: of its channel, of the dialog, or the one it was received in.\<close>

definition action_window ::
    "denv \<Rightarrow> nat \<Rightarrow> string \<Rightarrow> string \<Rightarrow> string \<Rightarrow> client \<Rightarrow> (client \<times> nat) option" where
  "action_window de i chan from ip c =
     (if is_channel (cl_serv c) chan then
        Some (c, (case find_channel (cl_world c) chan of Some j \<Rightarrow> j | None \<Rightarrow> i))
      else
        (case find_dialog (cl_world c) from of
           Some j \<Rightarrow> Some (c, j)
         | None \<Rightarrow>
             if autoopen_dialog c then
               (case msg_flood_check de from ip c of
                  (c, True) \<Rightarrow> map_option (\<lambda>c. (c, 0)) (open_dialog from c)
                | (c, False) \<Rightarrow> Some (c, w_server_sess (cl_world c)))
             else
               Some (c, (case find_session_from_nick from (cl_world c) of
                           Some j \<Rightarrow> j | None \<Rightarrow> w_front (cl_world c)))))"

definition show_action ::
    "denv \<Rightarrow> nat \<Rightarrow> string \<Rightarrow> string \<Rightarrow> bool \<Rightarrow> bool \<Rightarrow> string \<Rightarrow> string \<Rightarrow> client \<Rightarrow> client option" where
  "show_action de i from text fromme privaction nickchar idtext c =
     map_option
       (\<lambda>(c, hilight).
          if hilight then show_event de i ''HCHANACTION'' [from, text, nickchar, idtext] c
          else if fromme then show_event de i ''UACTION'' [from, text, nickchar, idtext] c
          else if \<not> privaction then show_event de i ''CHANACTION'' [from, text, nickchar, idtext] c
          else show_event de i (if sess_type (cl_sess c i) = SESS_DIALOG then ''DPRIVACTION'' else ''PRIVACTION'')
                 [from, text, idtext] c)
       (if \<not> fromme \<and> \<not> privaction then is_hilight de from text i c else Some (c, False))"

definition inbound_action ::
    "denv \<Rightarrow> nat \<Rightarrow> string \<Rightarrow> string \<Rightarrow> string \<Rightarrow> string \<Rightarrow> bool \<Rightarrow> bool \<Rightarrow> message_tags_data \<Rightarrow>
     client \<Rightarrow> client option" where
  "inbound_action de i chan from ip text fromme ident td c =
     (case (if fromme then Some (c, i) else action_window de i chan from ip c) of
        None \<Rightarrow> None
      | Some (c, i) \<Rightarrow>
          let privaction = (\<not> fromme \<and> \<not> is_channel (cl_serv c) chan);
              c = new_activity de i (if fromme then ''data'' else ''msg'') c;
              (ident, fromme, nickchar, c) = speaker i from ident fromme c
          in (case inbound_make_idtext de ident c of
                None \<Rightarrow> None
              | Some idtext \<Rightarrow>
                  map_option (check_reply de i td)
                    (show_action de i from text fromme privaction nickchar idtext (take_msgid i td c))))"

subsection \<open>Notices\<close>

text \<open>A channel in brackets, by which ChanServ says what its notice is about.\<close>

definition bracketed :: "string \<Rightarrow> string option" where
  "bracketed msg =
     (case msg of
        c # dest \<Rightarrow> if c = CHR ''['' \<and> CHR '']'' \<in> set dest then Some (upto_chr dest (CHR '']'')) else None
      | [] \<Rightarrow> None)"

definition chanserv_window :: "string \<Rightarrow> string \<Rightarrow> bool \<Rightarrow> client \<Rightarrow> nat option" where
  "chanserv_window nick msg ident c =
     (if (\<not> have_idmsg (pr_caps (cl_st c)) \<or> ident) \<and> g_ascii_strcasecmp nick ''ChanServ'' = 0 \<and>
         find_dialog (cl_world c) nick = None
      then Option.bind (bracketed msg) (find_channel (cl_world c)) else None)"

text \<open>The window for notices of the server or of users; it is opened if there is none.\<close>

definition notices_window :: "bool \<Rightarrow> client \<Rightarrow> (client \<times> nat) option" where
  "notices_window server_notice c =
     (let ty = (if server_notice then SESS_SNOTICES else SESS_NOTICES) in
      case find_session (\<lambda>s. sess_type s = ty) (cl_world c) of
        Some j \<Rightarrow> Some (c, j)
      | None \<Rightarrow>
          map_option
            (\<lambda>w. let c = c\<lparr>cl_st := (cl_st c)\<lparr>pr_w := w\<rparr>,
                           cl_ui := (\<lambda>j. case j of 0 \<Rightarrow> new_ui | Suc k \<Rightarrow> cl_ui c k)\<rparr>
                 in (on_st (fn ''log_open_or_close'' [show_nat 0])
                       (on_st (on_world (on_list 0 userlist_clear))
                          (on_st (fn ''fe_set_channel'' [show_nat 0]) c)), 0))
            (new_ircwindow (if server_notice then ''(snotices)'' else ''(notices)'') ty (cl_world c)))"

text \<open>The window, whether the notice is to a channel, and the text that is left of it.\<close>

definition notice_channel :: "string \<Rightarrow> client \<Rightarrow> nat option" where
  "notice_channel to c =
     (case (if is_channel (cl_serv c) to then find_channel (cl_world c) to else None) of
        Some j \<Rightarrow> Some j
      | None \<Rightarrow>
          (case to of
             ch # chan \<Rightarrow> if strchr (nick_prefixes (cl_serv c)) ch \<noteq> None then find_channel (cl_world c) chan else None
           | [] \<Rightarrow> None))"

definition notice_window ::
    "denv \<Rightarrow> string \<Rightarrow> string \<Rightarrow> bool \<Rightarrow> bool \<Rightarrow> client \<Rightarrow> (client \<times> nat \<times> string) option" where
  "notice_window de nick msg ident server_notice c =
     (let other = (if server_notice then w_server_sess (cl_world c) else w_front (cl_world c)) in
      if notice_pos de = 0 then
        Some (c, (case chanserv_window nick msg ident c of
                    Some j \<Rightarrow> j
                  | None \<Rightarrow> (case find_session_from_nick nick (cl_world c) of Some j \<Rightarrow> j | None \<Rightarrow> other)), msg)
      else if notice_pos de = 1 then
        map_option (\<lambda>(c, j). (c, j, if has_prefix msg ''*** Notice -- '' then drop 14 msg else msg))
          (notices_window server_notice c)
      else Some (c, w_front (cl_world c), msg))"

definition show_notice ::
    "denv \<Rightarrow> nat \<Rightarrow> bool \<Rightarrow> bool \<Rightarrow> string \<Rightarrow> string \<Rightarrow> string \<Rightarrow> client \<Rightarrow> client" where
  "show_notice de i to_channel server_notice to nick msg c =
     (if have_echo_message (pr_flags (cl_st c)) \<and> p_cmp (cl_serv c) nick (serv_nick (cl_serv c)) = 0
      then show_event de i ''NOTICESEND'' [to, msg] c
      else if server_notice then show_event de i ''SERVNOTICE'' [msg, nick] c
      else if to_channel then show_event de i ''CHANNOTICE'' [nick, to, msg] c
      else show_event de i ''NOTICE'' [nick, msg] c)"

text \<open>
  A CTCP answer begins with \<open>\001\<close>; one to a PING is timed. Its argument is behind the blank
  after the word, which the code does not test for.
\<close>

definition inbound_notice ::
    "denv \<Rightarrow> string \<Rightarrow> string \<Rightarrow> string \<Rightarrow> string \<Rightarrow> bool \<Rightarrow> message_tags_data \<Rightarrow> client \<Rightarrow> client option" where
  "inbound_notice de to nick msg ip ident td c =
     (let server_notice = (nick = ip); chan = notice_channel to c in
      case (case chan of Some j \<Rightarrow> Some (c, j, msg) | None \<Rightarrow> notice_window de nick msg ident server_notice c) of
        None \<Rightarrow> None
      | Some (c, i, msg) \<Rightarrow>
          let ctcp = (cur msg = CHR 0x01); body = (if ctcp then tl msg else msg) in
          if ctcp \<and> has_prefix body ''PING'' then
            (if length body < 5 then None
             else Some (on_st (fn ''inbound_ping_reply'' [show_nat i, drop 5 body, nick]) c))
          else
            Some (show_notice de i (chan \<noteq> None) server_notice to nick
              (if ctcp \<and> body \<noteq> [] \<and> last body = CHR 0x01 then butlast body else body)
              (take_msgid i td c)))"

end
