(* ===== verification/Ctcp.thy ===== *)
theory Ctcp
  imports Display
begin

text \<open>
  CTCP requests, \<open>src/common/ctcp.c\<close>: the user's own answers, VERSION, SOUND, ACTION and DCC, and
  the event for the rest. \<open>word\<close> and \<open>word_eol\<close> are those of the line; \<open>msg\<close> is its text behind
  the first \<open>\001\<close>. A session is a window number. \<open>None\<close> is undefined behaviour.
\<close>

definition with_ignored :: "string \<Rightarrow> uint \<Rightarrow> (bool \<Rightarrow> client \<Rightarrow> client option) \<Rightarrow> client \<Rightarrow> client option" where
  "with_ignored host ty k c =
     (case ignore_check (pr_ig (cl_st c)) host ty of
        None \<Rightarrow> None
      | Some (ig, ignored) \<Rightarrow> k ignored (on_st (\<lambda>st. st\<lparr>pr_ig := ig\<rparr>) c))"

text \<open>The variables of an answer.\<close>

definition ctcp_vars :: "denv \<Rightarrow> string \<Rightarrow> words \<Rightarrow> char \<Rightarrow> string option" where
  "ctcp_vars de nick word_eol ch =
     (if ch \<in> set ''achnu'' then Some []
      else if ch = CHR ''d'' then Some (word_eol 5)
      else if ch = CHR ''e'' then Some (network_name de)
      else if ch = CHR ''s'' then Some nick
      else auto_vars (de_i de) ch)"

text \<open>
  The answer is run as a command. The result of \<open>auto_insert\<close> is not looked at: when it stops
  because a word is missing its buffer is not a string, and when it is full only if the last
  piece was one.
\<close>

definition ctcp_reply ::
    "denv \<Rightarrow> nat \<Rightarrow> string \<Rightarrow> words \<Rightarrow> words \<Rightarrow> string \<Rightarrow> client \<Rightarrow> client option" where
  "ctcp_reply de i nick word word_eol conf c =
     (case auto_insert (ie_utf8 (de_i de)) 4096 (check_special_chars (ie_utf8 (de_i de)) True conf)
             (Some (word, word_eol)) (ctcp_vars de nick word_eol) of
        Some (Inserted t) \<Rightarrow> map_option fst (handle_command 0 (de_i de) i t False c)
      | Some (Too_long t True) \<Rightarrow> map_option fst (handle_command 0 (de_i de) i t False c)
      | _ \<Rightarrow> None)"

text \<open>
  \<open>ctcp_check\<close> ends the name of the request and \<open>word_eol[5]\<close> at their \<open>\001\<close>; the latter ends
  all \<open>word_eol\<close> that begin before it.
\<close>

definition cut_eols :: "words \<Rightarrow> words" where
  "cut_eols word_eol =
     (let n = length (word_eol 5) - length (upto_chr (word_eol 5) (CHR 0x01)) in
      (\<lambda>k. if n \<le> length (word_eol k) then take (length (word_eol k) - n) (word_eol k) else word_eol k))"

fun ctcp_check_loop ::
    "denv \<Rightarrow> nat \<Rightarrow> string \<Rightarrow> words \<Rightarrow> words \<Rightarrow> string \<Rightarrow> (string \<times> string) list \<Rightarrow> client \<times> bool \<Rightarrow>
     (client \<times> bool) option" where
  "ctcp_check_loop de i nick word word_eol ctcp [] r = Some r"
| "ctcp_check_loop de i nick word word_eol ctcp ((name, cmd) # list) (c, ret) =
     (if g_ascii_strcasecmp ctcp name = 0 then
        (case ctcp_reply de i nick word word_eol cmd c of
           None \<Rightarrow> None
         | Some d \<Rightarrow> ctcp_check_loop de (moved i c d) nick word word_eol ctcp list (d, True))
      else ctcp_check_loop de i nick word word_eol ctcp list (c, ret))"

definition ctcp_check ::
    "denv \<Rightarrow> nat \<Rightarrow> string \<Rightarrow> words \<Rightarrow> words \<Rightarrow> client \<Rightarrow> (client \<times> bool) option" where
  "ctcp_check de i nick word word_eol c =
     (if length (word 4) < 2 then None
      else
        let ctcp = upto_chr (drop 2 (word 4)) (CHR 0x01) in
        ctcp_check_loop de i nick (word(4 := take 2 (word 4) @ ctcp)) (cut_eols word_eol) ctcp (ctcp_list de) (c, False))"

text \<open>The window of an event for a channel, which may be gone; events for us are in the front.\<close>

definition target_window :: "nat \<Rightarrow> string \<Rightarrow> client \<Rightarrow> nat" where
  "target_window i to c =
     (if is_channel (cl_serv c) to
      then (case find_channel (cl_world c) to of Some j \<Rightarrow> j | None \<Rightarrow> i) else w_front (cl_world c))"

definition ctcp_generic :: "nat \<Rightarrow> string \<Rightarrow> string \<Rightarrow> string \<Rightarrow> client \<Rightarrow> client" where
  "ctcp_generic i to nick msg c =
     (let m = upto_chr msg (CHR 0x01); j = target_window i to c in
      if is_channel (cl_serv c) to then on_st (ev_in j ''CTCPGENC'' [m, nick, to]) c
      else on_st (ev_in j ''CTCPGEN'' [m, nick]) c)"

definition ctcp_sound :: "nat \<Rightarrow> string \<Rightarrow> string \<Rightarrow> string \<Rightarrow> client \<Rightarrow> client" where
  "ctcp_sound i to nick name c =
     (let m = upto_chr name (CHR 0x01); j = target_window i to c;
          c = (if is_channel (cl_serv c) to then on_st (ev_in j ''CTCPSNDC'' [m, nick, to]) c
               else on_st (ev_in j ''CTCPSND'' [m, nick]) c)
      in if CHR ''/'' \<in> set m then c else on_st (fn ''sound_play'' [m]) c)"

definition ctcp_dcc ::
    "denv \<Rightarrow> nat \<Rightarrow> string \<Rightarrow> words \<Rightarrow> words \<Rightarrow> client \<Rightarrow> client option" where
  "ctcp_dcc de i nick word word_eol c =
     (case ctcp_check de i nick word word_eol c of
        None \<Rightarrow> None
      | Some (c, True) \<Rightarrow> Some c
      | Some (c, False) \<Rightarrow>
          with_ignored (word 1) IG_DCC
            (\<lambda>ignored c. Some (if ignored then c else on_st (fn ''handle_dcc'' [show_nat i, nick, word_eol 5]) c)) c)"

definition ctcp_action ::
    "denv \<Rightarrow> nat \<Rightarrow> string \<Rightarrow> string \<Rightarrow> string \<Rightarrow> string \<Rightarrow> words \<Rightarrow> words \<Rightarrow> message_tags_data \<Rightarrow>
     client \<Rightarrow> client option" where
  "ctcp_action de i to nick ip msg word word_eol td c =
     with_ignored (word 1) (if is_channel (cl_serv c) to then IG_CHAN else IG_PRIV)
       (\<lambda>ignored c.
          if ignored then Some c
          else
            (case ctcp_check de i nick word word_eol c of
               None \<Rightarrow> None
             | Some (d, True) \<Rightarrow> Some (ctcp_generic (moved i c d) to nick msg d)
             | Some (d, False) \<Rightarrow> inbound_action de i to nick ip (drop 7 msg) False (t_identified td) td d)) c"

definition ctcp_other ::
    "denv \<Rightarrow> nat \<Rightarrow> string \<Rightarrow> string \<Rightarrow> string \<Rightarrow> words \<Rightarrow> words \<Rightarrow> client \<Rightarrow> client option" where
  "ctcp_other de i to nick msg word word_eol c =
     with_ignored (word 1) IG_CTCP
       (\<lambda>ignored c.
          if ignored then Some c
          else
            let c = (if g_ascii_strcasecmp msg ''VERSION'' = 0 \<and> \<not> hide_version de
                     then send_raw (irc_nctcp nick (take 1023 (''VERSION HexChat '' @ version_text de))) c else c)
            in if length (word 4) = 1 then Some c
               else
                 (case ctcp_check de i nick word word_eol c of
                    None \<Rightarrow> None
                  | Some (d, ret) \<Rightarrow>
                      if \<not> ret \<and> ci_prefix ''SOUND'' msg
                      then Some (ctcp_sound (moved i c d) to nick (word 5) d)
                      else Some (ctcp_generic (moved i c d) to nick msg d))) c"

definition ctcp_handle ::
    "denv \<Rightarrow> nat \<Rightarrow> string \<Rightarrow> string \<Rightarrow> string \<Rightarrow> string \<Rightarrow> words \<Rightarrow> words \<Rightarrow> message_tags_data \<Rightarrow>
     client \<Rightarrow> client option" where
  "ctcp_handle de i to nick ip msg word word_eol td c =
     (if ci_prefix ''DCC'' msg then ctcp_dcc de i nick word word_eol c
      else if ci_prefix ''ACTION '' msg then ctcp_action de i to nick ip msg word word_eol td c
      else ctcp_other de i to nick msg word word_eol c)"

end
