(* ===== verification/DisplayProofs.thy ===== *)
theory DisplayProofs
  imports Ctcp CommandProofs
begin

text \<open>
  What happens to a message that comes in: it is shown once, in the right window, by one event
  that carries the sender and the text; the exception is the message that sets off the flood
  protection, which is lost. The windows and user lists stay intact.
\<close>

subsection \<open>The events of a client\<close>

fun is_emit :: "call \<Rightarrow> bool" where
  "is_emit (Emit _ _) = True"
| "is_emit _ = False"

definition events :: "client \<Rightarrow> call list" where
  "events c = filter is_emit (trace (w_mem (cl_world c)))"

named_theorems event_simps \<open>the events a step of a handler adds\<close>

lemma events_trace [event_simps]:
  "events (on_st (fn f args) c) = events c"
  "events (on_st (ev f args) c) = events c @ [Emit f args]"
  "events (send_raw t c) = events c"
  "events (on_ui i g c) = events c"
  "events (on_st (\<lambda>st. st\<lparr>pr_flood := fl, pr_ig := ig\<rparr>) c) = events c"
  "events (on_st (\<lambda>st. st\<lparr>pr_ig := ig\<rparr>) c) = events c"
  by (simp_all add: events_def on_st_def on_world_def call_def signal_def send_line_def w_emit_def
      send_raw_def on_ui_def)

lemma events_parts [event_simps]:
  "events (new_activity de i flag c) = events c"
  "events (take_msgid i td c) = events c"
  "events (check_reply de i td c) = events c"
  "events (show_event de i f args c) = events c @ [Emit f (show_nat i # args)]"
  "events (on_st (on_world (set_topic i t1 t2)) c) = events c"
  by (simp_all add: new_activity_def take_msgid_def check_reply_def show_event_def event_simps Let_def
      events_def [of "on_st (on_world (set_topic i t1 t2)) c"] split: option.split)
    (simp add: events_def on_st_def on_world_def set_topic_def upd_session_def put_session_def call_def w_emit_def)

lemma speaker_frame [event_simps]:
  "speaker i from ident fromme c = (ident', fromme', nc, c') \<Longrightarrow> events c' = events c"
  by (auto simp: speaker_def Let_def event_simps split: option.splits)

lemma is_hilight_frame [event_simps]:
  "is_hilight de from t i c = Some (c', h) \<Longrightarrow> events c' = events c"
  by (auto simp: is_hilight_def event_simps split: match_result.splits option.splits if_splits)

lemma msg_flood_frame [event_simps]:
  "msg_flood_check de from ip c = (c', ok) \<Longrightarrow> events c' = events c"
  by (auto simp: msg_flood_check_def Let_def event_simps split: prod.splits)

text \<open>The event of a message: in window \<open>i\<close>, with its sender and its text.\<close>

definition shows_message :: "client \<Rightarrow> client \<Rightarrow> nat \<Rightarrow> string \<Rightarrow> string \<Rightarrow> bool" where
  "shows_message c c' i from t \<longleftrightarrow>
     (\<exists>name rest. events c' = events c @ [Emit name (show_nat i # from # t # rest)])"

lemma show_chanmsg_shows:
  "show_chanmsg de i from t ident nc c = Some c' \<Longrightarrow> shows_message c c' i from t"
  by (auto simp: show_chanmsg_def shows_message_def event_simps split: option.splits)

lemma inbound_chanmsg_shows:
  assumes "inbound_chanmsg de sess chan from t fromme ident td c = Some c'"
    "chanmsg_window sess chan from c = Some i"
  shows "shows_message c c' i from t"
proof -
  define c1 where "c1 = new_activity de i ''msg'' (take_msgid i td c)"
  obtain id2 me2 nc c2 where s: "speaker i from ident fromme c1 = (id2, me2, nc, c2)" by (metis prod.collapse)
  have e: "events c2 = events c" using speaker_frame [OF s] by (simp add: c1_def event_simps)
  have sh: "shows_message c (check_reply de i td c3) i from t" if "shows_message c2 c3 i from t" for c3
    using that e by (simp add: shows_message_def event_simps)
  obtain c3 where c3: "c' = check_reply de i td c3"
      "(if me2 then Some (show_event de i ''UCHANMSG'' [from, t, nc]
          (if away_auto_unmark de \<and> is_away (cl_serv c2) \<and> t_timestamp td = 0 then send_raw ''AWAY'' c2 else c2))
        else show_chanmsg de i from t id2 nc c2) = Some c3"
    using assms s by (auto simp: inbound_chanmsg_def c1_def [symmetric] Let_def)
  have "shows_message c2 c3 i from t"
  proof (cases me2)
    case True
    with c3(2) show ?thesis by (auto simp: shows_message_def event_simps)
  qed (use c3(2) show_chanmsg_shows in auto)
  with sh c3(1) show ?thesis by simp
qed

lemma show_action_shows:
  "show_action de i from t fromme priv nc idt c = Some c' \<Longrightarrow> shows_message c c' i from t"
  by (auto simp: show_action_def shows_message_def event_simps split: if_splits)

lemma inbound_action_shows:
  assumes "inbound_action de i chan from ip t fromme ident td c = Some c'"
    "(if fromme then Some (c, i) else action_window de i chan from ip c) = Some (c1, j)"
  shows "shows_message c1 c' j from t"
proof -
  define c2 where "c2 = new_activity de j (if fromme then ''data'' else ''msg'') c1"
  obtain id2 me2 nc c3 where s: "speaker j from ident fromme c2 = (id2, me2, nc, c3)" by (metis prod.collapse)
  have e: "events c3 = events c1" using speaker_frame [OF s] by (simp add: c2_def event_simps)
  obtain idt c4 where c4: "c' = check_reply de j td c4"
      "show_action de j from t me2 (\<not> fromme \<and> \<not> is_channel (cl_serv c1) chan) nc idt (take_msgid j td c3) = Some c4"
    using assms s by (auto simp: inbound_action_def c2_def [symmetric] Let_def split: option.splits)
  from show_action_shows [OF c4(2)] c4(1) e show ?thesis
    by (auto simp: shows_message_def event_simps)
qed

text \<open>A private message without a dialog: in the window of the channel we share, or the one in front.\<close>

definition no_dialog_window :: "string \<Rightarrow> client \<Rightarrow> nat" where
  "no_dialog_window from c =
     (case find_session_from_nick from (cl_world c) of Some i \<Rightarrow> i | None \<Rightarrow> w_front (cl_world c))"

lemma inbound_privmsg_no_dialog_shows:
  assumes "inbound_privmsg de from ip t ident td c = Some c'"
    "find_dialog (cl_world c) from = None" "\<not> autoopen_dialog c"
  shows "shows_message c c' (no_dialog_window from c) from t"
proof -
  obtain i nd where w: "(case find_session_from_nick from (cl_world c) of
        Some i \<Rightarrow> (i, False) | None \<Rightarrow> (w_front (cl_world c), True)) = (i, nd)" by fastforce
  obtain id2 me2 nc c2 where s: "speaker i from ident False c = (id2, me2, nc, c2)" by (metis prod.collapse)
  have "shows_message c2 c' i from t"
    using assms w s by (auto simp: inbound_privmsg_def Let_def shows_message_def event_simps)
  with speaker_frame [OF s] w show ?thesis
    by (auto simp: shows_message_def no_dialog_window_def split: option.splits)
qed

subsection \<open>Private messages\<close>

lemma p_cmp_refl [simp]: "p_cmp serv s s = 0"
proof -
  have "g_ascii_strcasecmp s s = 0" by (induction s) simp_all
  then show ?thesis by (cases "p_cmp_fn serv") (simp_all add: p_cmp_def)
qed

lemma find_session_cong:
  "w_serv w' = w_serv w \<Longrightarrow> length (w_sessions w') = length (w_sessions w) \<Longrightarrow>
   (\<And>i. i < length (w_sessions w) \<Longrightarrow> is_serv w' i = is_serv w i \<and> P (sess_at w' i) = P (sess_at w i)) \<Longrightarrow>
   find_session P w' = find_session P w"
proof -
  assume a: "w_serv w' = w_serv w" "length (w_sessions w') = length (w_sessions w)"
    "\<And>i. i < length (w_sessions w) \<Longrightarrow> is_serv w' i = is_serv w i \<and> P (sess_at w' i) = P (sess_at w i)"
  then have "filter (\<lambda>i. is_serv w' i \<and> P (sess_at w' i)) [0..<length (w_sessions w')] =
      filter (\<lambda>i. is_serv w i \<and> P (sess_at w i)) [0..<length (w_sessions w)]"
    by (intro filter_cong) auto
  then show ?thesis by (simp add: find_session_def)
qed

lemma sess_at_topic:
  "j < length (w_sessions w) \<Longrightarrow> sess_at (set_topic i a b w) j = (if j = i then (sess_at w j)\<lparr>topic := Some b\<rparr> else sess_at w j)"
  by (simp add: set_topic_def upd_session_def put_session_def sess_at_def call_def w_emit_def)

lemma find_dialog_topic [simp]: "find_dialog (set_topic i a b w) nick = find_dialog w nick"
  unfolding find_dialog_def by (simp, rule find_session_cong) (simp_all add: sess_at_topic)

lemma find_dialog_call [simp]:
  "find_dialog (call f args w) nick = find_dialog w nick" "find_dialog (signal f args w) nick = find_dialog w nick"
  by (simp_all add: find_dialog_def find_session_def)

lemma find_session_0:
  "0 < length (w_sessions w) \<Longrightarrow> is_serv w 0 \<Longrightarrow> P (sess_at w 0) \<Longrightarrow> find_session P w = Some 0"
  by (simp add: find_session_def upt_conv_Cons)

lemma find_dialog_first:
  assumes "new_ircwindow name SESS_DIALOG w = Some w'" "safe_strcpy name CHANLEN = Some name"
  shows "find_dialog w' name = Some 0"
proof -
  obtain v where v: "session_new name SESS_DIALOG w = Some v" using assms(2) by (simp add: session_new_def)
  have "find_dialog v name = Some 0"
    unfolding find_dialog_def
    by (rule find_session_0) (use v assms(2) in \<open>auto simp: session_new_def is_serv_def sess_at_def
        call_def w_emit_def new_session_def\<close>)
  then show ?thesis
    using assms(1) v by (auto simp: new_ircwindow_def Let_def split: option.splits)
qed

lemma open_dialog_result:
  assumes "open_dialog from c = Some c'" "ascii_str from" "length from < CHANLEN"
  shows "find_dialog (cl_world c') from = Some 0"
    "events c' = events c @ [Emit ''OPENDIALOG'' [show_nat 0]]"
proof -
  have copy: "safe_strcpy from CHANLEN = Some from"
    using assms(2,3) by (simp add: safe_strcpy_ascii)
  obtain w where w: "new_ircwindow from SESS_DIALOG (cl_world c) = Some w"
      "cl_world c' = signal ''OPENDIALOG'' [show_nat 0] w"
    using assms(1) by (auto simp: open_dialog_def new_window_def on_st_def on_world_def)
  show "find_dialog (cl_world c') from = Some 0" using find_dialog_first [OF w(1) copy] w(2) by simp
  have "filter is_emit (trace (w_mem w)) = filter is_emit (trace (w_mem (cl_world c)))"
    using w(1) copy by (auto simp: new_ircwindow_def session_new_def Let_def call_def w_emit_def
        set_topic_def upd_session_def put_session_def split: option.splits)
  then show "events c' = events c @ [Emit ''OPENDIALOG'' [show_nat 0]]"
    using w(2) by (simp add: events_def signal_def w_emit_def)
qed

text \<open>
  The window of a private message, and the event that a new dialog was opened for it.
\<close>

definition opens_dialog :: "string \<Rightarrow> client \<Rightarrow> bool" where
  "opens_dialog from c \<longleftrightarrow> find_dialog (cl_world c) from = None \<and> autoopen_dialog c"

definition privmsg_window :: "string \<Rightarrow> client \<Rightarrow> nat" where
  "privmsg_window from c =
     (case find_dialog (cl_world c) from of
        Some i \<Rightarrow> i
      | None \<Rightarrow> if autoopen_dialog c then 0 else no_dialog_window from c)"

text \<open>C33: a private message is shown exactly once, with its sender and its text: in the dialog with
  the sender, in a dialog opened for it, or, when dialogs are not opened, in the window the sender
  is known from. This fails only for the message that sets off the flood protection.
\<close>

theorem private_message_shown:
  assumes "inbound_privmsg de from ip t ident td c = Some c'"
    and "ascii_str from" "length from < CHANLEN"
    and "opens_dialog from c \<longrightarrow> snd (msg_flood_check de from ip c)"
  shows "\<exists>name rest. events c' = events c @
    (if opens_dialog from c then [Emit ''OPENDIALOG'' [show_nat 0]] else []) @
    [Emit name (show_nat (privmsg_window from c) # from # t # rest)]"
proof (cases "find_dialog (cl_world c) from")
  case dialog: (Some i)
  define c1 where "c1 = (if ip \<noteq> [] then on_st (on_world (set_topic i ip ip)) c else c)"
  have "chanmsg_window None None from c1 = Some i"
    using dialog by (simp add: c1_def chanmsg_window_def on_st_def on_world_def)
  moreover have "events c1 = events c" by (simp add: c1_def event_simps)
  moreover have "inbound_chanmsg de None None from t False (t_identified td) td c1 = Some c'"
    using assms(1) dialog by (simp add: inbound_privmsg_def c1_def)
  ultimately have "shows_message c1 c' i from t" by (auto intro: inbound_chanmsg_shows)
  with dialog \<open>events c1 = events c\<close> show ?thesis
    by (simp add: shows_message_def opens_dialog_def privmsg_window_def)
next
  case none: None
  show ?thesis
  proof (cases "autoopen_dialog c")
    case True
    with none assms(4) obtain c0 where f: "msg_flood_check de from ip c = (c0, True)"
      by (metis opens_dialog_def prod.collapse)
    obtain c1 where o: "open_dialog from c0 = Some c1"
        "inbound_chanmsg de None None from t False (t_identified td) td
          (if ip \<noteq> [] then on_st (on_world (set_topic 0 ip ip)) c1 else c1) = Some c'"
      using assms(1) none True f by (auto simp: inbound_privmsg_def split: option.splits)
    define c2 where "c2 = (if ip \<noteq> [] then on_st (on_world (set_topic 0 ip ip)) c1 else c1)"
    note r = open_dialog_result [OF o(1) assms(2,3)]
    have "chanmsg_window None None from c2 = Some 0"
      using r(1) by (simp add: c2_def chanmsg_window_def on_st_def on_world_def)
    moreover have "events c2 = events c1" by (simp add: c2_def event_simps)
    ultimately have "shows_message c2 c' 0 from t"
      using o(2) by (auto simp: c2_def [symmetric] intro: inbound_chanmsg_shows)
    with r(2) msg_flood_frame [OF f] \<open>events c2 = events c1\<close> none True show ?thesis
      by (simp add: shows_message_def opens_dialog_def privmsg_window_def)
  next
    case False
    with inbound_privmsg_no_dialog_shows [OF assms(1) none False] none show ?thesis
      by (simp add: shows_message_def opens_dialog_def privmsg_window_def)
  qed
qed

text \<open>
  The flood protection turns dialogs off and hands the message to the window of the server, but
  the message is then looked for in a dialog again: it is not shown at all, and the topic of the
  server's window is the address of the sender.
\<close>

lemma flood_message_lost:
  assumes "opens_dialog from c" "\<not> snd (msg_flood_check de from ip c)" "ip \<noteq> []"
  shows "\<exists>c'. inbound_privmsg de from ip t ident td c = Some c' \<and> events c' = events c \<and>
    cl_world c' = set_topic (w_server_sess (cl_world c)) ip ip (cl_world c)"
proof -
  obtain c0 where f: "msg_flood_check de from ip c = (c0, False)" using assms(2) by (metis prod.collapse)
  then have w: "cl_world c0 = cl_world c"
    by (auto simp: msg_flood_check_def Let_def on_st_def split: prod.splits)
  let ?c = "on_st (on_world (set_topic (w_server_sess (cl_world c0)) ip ip)) c0"
  have "chanmsg_window None None from ?c = None"
    using assms(1) w by (simp add: chanmsg_window_def opens_dialog_def on_st_def on_world_def)
  then have "inbound_privmsg de from ip t ident td c = Some ?c"
    using assms(1,3) f by (simp add: inbound_privmsg_def inbound_chanmsg_def opens_dialog_def)
  moreover have "events ?c = events c" using msg_flood_frame [OF f] by (simp add: event_simps)
  ultimately show ?thesis using w by (simp add: on_st_def on_world_def)
qed

subsection \<open>The handlers return, and keep the user lists\<close>

text \<open>The steps of a handler that change neither the lists nor the server.\<close>

definition same_lists :: "client \<Rightarrow> client \<Rightarrow> bool" where
  "same_lists c c' \<longleftrightarrow> (world_inv (cl_world c) \<longrightarrow> world_inv (cl_world c')) \<and> cl_serv c' = cl_serv c"

named_theorems same_intros \<open>steps that change neither the lists nor the server\<close>

lemma same_lists_refl [same_intros]: "same_lists c c"
  by (simp add: same_lists_def)

lemma same_lists_trans: "same_lists c d \<Longrightarrow> same_lists d e \<Longrightarrow> same_lists c e"
  by (auto simp: same_lists_def)

lemma same_lists_steps [same_intros]:
  "same_lists c (on_st (fn f args) c)" "same_lists c (on_st (ev f args) c)" "same_lists c (send_raw t c)"
  "same_lists c (on_ui i g c)" "same_lists c (on_st (\<lambda>st. st\<lparr>pr_flood := fl, pr_ig := ig\<rparr>) c)"
  by (simp_all add: same_lists_def on_st_def on_world_def send_raw_def on_ui_def cl_serv_def pr_serv_def)

lemma same_lists_parts [same_intros]:
  "same_lists c (show_event de i f args c)" "same_lists c (new_activity de i flag c)"
  "same_lists c (take_msgid i td c)" "same_lists c (check_reply de i td c)"
  unfolding show_event_def new_activity_def take_msgid_def check_reply_def Let_def
  by (auto intro: same_intros same_lists_trans split: option.split)

lemma world_inv_topic: "world_inv w \<Longrightarrow> world_inv (set_topic i a b w)"
proof (cases "i < length (w_sessions w)")
  case False
  then have "set_topic i a b w = call ''fe_set_topic'' [a, b] w"
    by (simp add: set_topic_def upd_session_def put_session_def list_update_beyond)
  then show "world_inv w \<Longrightarrow> world_inv (set_topic i a b w)" by simp
qed simp

lemma same_lists_topic [same_intros]: "same_lists c (on_st (on_world (set_topic i a b)) c)"
  by (simp add: same_lists_def on_st_def on_world_def world_inv_topic cl_serv_def pr_serv_def)

lemmas same_lists_after = same_lists_steps [THEN same_lists_trans [rotated]]
  same_lists_parts [THEN same_lists_trans [rotated]] same_lists_topic [THEN same_lists_trans [rotated]]

lemma same_lists_speaker: "speaker i from ident fromme c = (a, b, nc, c') \<Longrightarrow> same_lists c c'"
  by (auto simp: speaker_def Let_def intro: same_intros split: option.splits)

lemma same_lists_flood: "msg_flood_check de from ip c = (c', ok) \<Longrightarrow> same_lists c c'"
  by (auto simp: msg_flood_check_def Let_def intro: same_intros split: prod.splits)

definition okd :: "client \<Rightarrow> client option \<Rightarrow> bool" where
  "okd c r \<longleftrightarrow> (\<exists>c'. r = Some c' \<and> same_lists c c')"

text \<open>
  The words that highlight have no \<open>*\<close>, for behind one \<open>match\<close> may read too far; texts are ASCII.
\<close>

definition plain_alerts :: "denv \<Rightarrow> client \<Rightarrow> bool" where
  "plain_alerts de c \<longleftrightarrow>
     CHR ''*'' \<notin> set (no_hilight de @ extra_hilight de @ nick_hilight de @ serv_nick (cl_serv c)) \<and>
     ascii_str (id_ytext de) \<and> ascii_str (id_ntext de)"

lemma strip_loop_set: "n \<le> length src \<Longrightarrow> set (strip_loop flags n src rcol bg) \<subseteq> set src"
proof (induction n arbitrary: src rcol bg)
  case (Suc n)
  then obtain x s where src: "src = x # s" by (cases src) auto
  with Suc have "set (strip_loop flags n s rcol bg) \<subseteq> insert x (set s)" for rcol bg by fastforce
  then show ?case by (auto simp: src Let_def)
qed simp

lemma first_match_decides: "Overread \<notin> set rs \<Longrightarrow> first_match rs \<noteq> None"
  by (induction rs) (auto split: match_result.splits)

lemma is_hilight_ok:
  assumes "plain_alerts de c" "ascii_str t"
  shows "\<exists>c' h. is_hilight de from t i c = Some (c', h) \<and> same_lists c c'"
proof -
  have w: "alert_match_word from (no_hilight de) \<noteq> Overread" "alert_match_word from (nick_hilight de) \<noteq> Overread"
    using assms(1) by (simp_all add: alert_match_word_def alert_word_decides plain_alerts_def)
  let ?p = "strip_loop STRIP_ALL (length t) t 0 False"
  have "ascii_str ?p"
    using assms(2) strip_loop_set [of "length t" t STRIP_ALL 0 False] by (auto simp: ascii_str_def list_all_iff)
  then have "alert_match_text (alpha de) ?p (serv_nick (cl_serv c)) \<noteq> Overread"
      "alert_match_text (alpha de) ?p (extra_hilight de) \<noteq> Overread"
    using assms(1) by (simp_all add: alert_match_text_def alert_text_decides plain_alerts_def)
  with w(2) have "first_match [alert_match_text (alpha de) ?p (serv_nick (cl_serv c)),
      alert_match_text (alpha de) ?p (extra_hilight de), alert_match_word from (nick_hilight de)] \<noteq> None"
    by (intro first_match_decides) auto
  with w(1) show ?thesis
    by (auto simp: is_hilight_def strip_color2_def intro: same_intros split: match_result.split)
qed

lemma idtext_ok: "plain_alerts de c \<Longrightarrow> \<exists>s. inbound_make_idtext de ident c = Some s"
  by (simp add: inbound_make_idtext_def plain_alerts_def safe_strcpy_ascii)

lemma plain_alerts_same: "same_lists c c' \<Longrightarrow> plain_alerts de c' = plain_alerts de c"
  by (simp add: same_lists_def plain_alerts_def)

lemma show_chanmsg_ok: "plain_alerts de c \<Longrightarrow> ascii_str t \<Longrightarrow> okd c (show_chanmsg de i from t ident nc c)"
  using idtext_ok [of de c ident] is_hilight_ok [of de c t "from" i]
  by (auto simp: show_chanmsg_def okd_def intro: same_lists_after)

lemma okd_trans: "same_lists c d \<Longrightarrow> okd d r \<Longrightarrow> okd c r"
  by (auto simp: okd_def intro: same_lists_trans)

lemma okd_map: "okd c r \<Longrightarrow> (\<And>d. same_lists d (f d)) \<Longrightarrow> okd c (map_option f r)"
  by (auto simp: okd_def intro: same_lists_trans)

lemma inbound_chanmsg_ok:
  assumes "plain_alerts de c" "ascii_str t"
  shows "okd c (inbound_chanmsg de sess chan from t fromme ident td c)"
proof (cases "chanmsg_window sess chan from c")
  case None
  then show ?thesis by (simp add: inbound_chanmsg_def okd_def same_lists_refl)
next
  case (Some i)
  define c1 where "c1 = new_activity de i ''msg'' (take_msgid i td c)"
  have c1: "same_lists c c1" by (auto simp: c1_def intro: same_intros same_lists_trans)
  obtain id2 me2 nc c2 where s: "speaker i from ident fromme c1 = (id2, me2, nc, c2)" by (metis prod.collapse)
  have c2: "same_lists c c2" using same_lists_trans [OF c1 same_lists_speaker [OF s]] .
  then have "okd c2 (show_chanmsg de i from t id2 nc c2)"
    using assms by (intro show_chanmsg_ok) (simp_all add: plain_alerts_same)
  moreover have "okd c2 (Some (show_event de i ev args (if b then send_raw ''AWAY'' c2 else c2)))" for ev args b
    by (cases b) (auto simp: okd_def intro: same_intros same_lists_trans)
  ultimately have "okd c2 (map_option (check_reply de i td)
      (if me2 then Some (show_event de i ''UCHANMSG'' [from, t, nc]
          (if away_auto_unmark de \<and> is_away (cl_serv c2) \<and> t_timestamp td = 0 then send_raw ''AWAY'' c2 else c2))
       else show_chanmsg de i from t id2 nc c2))"
    by (intro okd_map same_intros) simp
  with Some s show ?thesis
    by (simp add: inbound_chanmsg_def c1_def [symmetric] Let_def okd_trans [OF c2])
qed

lemma open_dialog_ok:
  assumes "world_inv (cl_world c)" "ascii_str from"
  shows "okd c (open_dialog from c)"
proof -
  have "safe_strcpy from CHANLEN \<noteq> None" using assms(2) by (simp add: safe_strcpy_ascii)
  from new_ircwindow_ok [OF assms(1) this, of SESS_DIALOG] show ?thesis
    by (auto simp: open_dialog_def new_window_def okd_def same_lists_def on_st_def on_world_def cl_serv_def
        pr_serv_def)
qed

text \<open>A window for a private message or action: opened unless it is part of a flood.\<close>

lemma flood_or_open_ok:
  assumes "world_inv (cl_world c)" "ascii_str from"
  shows "\<exists>c' j. (case msg_flood_check de from ip c of
      (c, True) \<Rightarrow> map_option (\<lambda>c. (c, 0)) (open_dialog from c)
    | (c, False) \<Rightarrow> Some (c, w_server_sess (cl_world c))) = Some (c', j) \<and> same_lists c c'"
proof -
  obtain c0 ok where f: "msg_flood_check de from ip c = (c0, ok)" by fastforce
  note s = same_lists_flood [OF f]
  with assms have "okd c0 (open_dialog from c0)" by (intro open_dialog_ok) (simp_all add: same_lists_def)
  with f s show ?thesis
    by (cases ok) (auto simp: okd_def intro: same_lists_trans)
qed

lemma inbound_privmsg_ok:
  assumes "world_inv (cl_world c)" "plain_alerts de c" "ascii_str from" "ascii_str t"
  shows "okd c (inbound_privmsg de from ip t ident td c)"
proof (cases "find_dialog (cl_world c) from \<noteq> None \<or> autoopen_dialog c")
  case True
  have "\<exists>c' j. (case find_dialog (cl_world c) from of
        Some i \<Rightarrow> Some (c, i)
      | None \<Rightarrow>
          (case msg_flood_check de from ip c of
             (c, True) \<Rightarrow> map_option (\<lambda>c. (c, 0)) (open_dialog from c)
           | (c, False) \<Rightarrow> Some (c, w_server_sess (cl_world c)))) = Some (c', j) \<and> same_lists c c'"
    using flood_or_open_ok [OF assms(1,3)] by (cases "find_dialog (cl_world c) from") (simp_all add: same_lists_refl)
  then obtain c' j where w: "(case find_dialog (cl_world c) from of
        Some i \<Rightarrow> Some (c, i)
      | None \<Rightarrow>
          (case msg_flood_check de from ip c of
             (c, True) \<Rightarrow> map_option (\<lambda>c. (c, 0)) (open_dialog from c)
           | (c, False) \<Rightarrow> Some (c, w_server_sess (cl_world c)))) = Some (c', j)" "same_lists c c'"
    by blast
  let ?d = "if ip \<noteq> [] then on_st (on_world (set_topic j ip ip)) c' else c'"
  have d: "same_lists c ?d" using w(2) by (auto intro: same_lists_after)
  then have "okd ?d (inbound_chanmsg de None None from t False (t_identified td) td ?d)"
    using assms by (intro inbound_chanmsg_ok) (simp_all add: plain_alerts_same)
  with True w(1) show ?thesis by (simp add: inbound_privmsg_def okd_trans [OF d])
next
  case False
  obtain i nd where w: "(case find_session_from_nick from (cl_world c) of
        Some i \<Rightarrow> (i, False) | None \<Rightarrow> (w_front (cl_world c), True)) = (i, nd)" by fastforce
  obtain id2 me2 nc c2 where s: "speaker i from ident False c = (id2, me2, nc, c2)" by (metis prod.collapse)
  have c2: "same_lists c c2" by (rule same_lists_speaker [OF s])
  with assms(2) have "plain_alerts de c2" by (simp add: plain_alerts_same)
  from idtext_ok [OF this, of id2] False w s c2 show ?thesis
    by (auto simp: inbound_privmsg_def Let_def okd_def intro: same_lists_after)
qed

lemma show_action_ok:
  assumes "plain_alerts de c" "ascii_str t"
  shows "okd c (show_action de i from t fromme priv nc idt c)"
proof -
  obtain c' h where "(if \<not> fromme \<and> \<not> priv then is_hilight de from t i c else Some (c, False)) = Some (c', h)"
      "same_lists c c'"
    using is_hilight_ok [OF assms, of "from" i] same_lists_refl [of c] by (cases "\<not> fromme \<and> \<not> priv") auto
  then show ?thesis
    unfolding show_action_def okd_def by (simp only: option.map case_prod_conv) (auto intro: same_lists_after)
qed

lemma inbound_action_ok:
  assumes "world_inv (cl_world c)" "plain_alerts de c" "ascii_str from" "ascii_str t"
  shows "okd c (inbound_action de i chan from ip t fromme ident td c)"
proof -
  have "\<exists>c1 j. (if fromme then Some (c, i) else action_window de i chan from ip c) = Some (c1, j) \<and> same_lists c c1"
    using flood_or_open_ok [OF assms(1,3), of de ip]
    by (auto simp: action_window_def same_lists_refl split: option.split)
  then obtain c1 j where c1: "(if fromme then Some (c, i) else action_window de i chan from ip c) = Some (c1, j)"
      "same_lists c c1" by blast
  define c2 where "c2 = new_activity de j (if fromme then ''data'' else ''msg'') c1"
  obtain id2 me2 nc c3 where s: "speaker j from ident fromme c2 = (id2, me2, nc, c3)" by (metis prod.collapse)
  have "same_lists c c2" using c1(2) by (auto simp: c2_def intro: same_lists_after)
  then have c3: "same_lists c c3" using same_lists_speaker [OF s] by (rule same_lists_trans)
  then have c4: "same_lists c (take_msgid j td c3)" by (rule same_lists_after)
  have p: "plain_alerts de c3" "plain_alerts de (take_msgid j td c3)"
    using assms(2) plain_alerts_same [OF c3] plain_alerts_same [OF c4] by simp_all
  obtain idt where "inbound_make_idtext de id2 c3 = Some idt" using idtext_ok [OF p(1)] by blast
  moreover have "okd c (map_option (check_reply de j td)
      (show_action de j from t me2 (\<not> fromme \<and> \<not> is_channel (cl_serv c1) chan) nc idt (take_msgid j td c3)))"
    by (intro okd_trans [OF c4] okd_map show_action_ok p assms(4) same_intros)
  ultimately show ?thesis
    using c1(1) s by (simp add: inbound_action_def c2_def [symmetric] Let_def)
qed

text \<open>Every ASCII message, private or of a channel, and every action is handled to its end, without
  a read outside a string, and the user lists of all windows keep their invariant; the words that
  highlight must not contain a \<open>*\<close>.
\<close>

theorem messages_safe:
  assumes "world_inv (cl_world c)" "plain_alerts de c" "ascii_str nick" "ascii_str t"
    and "r \<in> {inbound_privmsg de nick ip t ident td c, inbound_chanmsg de sess chan nick t fromme ident td c,
      inbound_action de i to nick ip t fromme ident td c}"
  shows "\<exists>c'. r = Some c' \<and> world_inv (cl_world c')"
proof -
  have "okd c r"
    using assms(5) inbound_privmsg_ok [OF assms(1-4)] inbound_chanmsg_ok [OF assms(2,4)]
      inbound_action_ok [OF assms(1-4)] by (elim insertE) simp_all
  with assms(1) show ?thesis by (auto simp: okd_def same_lists_def)
qed

subsection \<open>Examples\<close>

definition demo_denv :: denv where
  "demo_denv = \<lparr>de_i = demo_ienv, no_hilight = [], extra_hilight = ''al,bob'', nick_hilight = [],
     id_ytext = [], id_ntext = ''-'', alpha = ascii_alpha, is_tab = (\<lambda>i. i = 0), takes_msgid = True,
     away_auto_unmark = False, hide_version = False, version_text = ''2'', ctcp_list = [],
     network_name = ''Net'', notice_pos = 0\<rparr>"

lemma demo_world_of_client: "cl_world demo_client = demo_world"
  by (simp add: demo_client_def demo_proto_def)

lemma demo_plain_alerts: "plain_alerts demo_denv demo_client"
  by (simp add: plain_alerts_def demo_denv_def cl_serv_def pr_serv_def demo_world_of_client demo_world_def
      demo_server_def new_server_def server_set_defaults_def ascii_def uchar_def)

lemma messages_safe_witness:
  "\<exists>c'. inbound_privmsg demo_denv ''bob'' ''b@x'' ''hi, al!'' False MESSAGE_TAGS_DATA_INIT demo_client = Some c' \<and>
     world_inv (cl_world c')"
  by (rule messages_safe [where chan = None and sess = None and fromme = False and i = 0 and to = "[]"
        and ip = "''b@x''" and ident = False and td = MESSAGE_TAGS_DATA_INIT
        and t = "''hi, al!''" and nick = "''bob''" and de = demo_denv and c = demo_client])
    (simp_all add: demo_plain_alerts demo_world_of_client demo_world_inv ascii_def uchar_def)

lemma private_message_shown_witness:
  "\<exists>c' name rest. inbound_privmsg demo_denv ''bob'' ''b@x'' ''hi, al!'' False MESSAGE_TAGS_DATA_INIT demo_client = Some c' \<and>
     events c' = events demo_client @
       (if opens_dialog ''bob'' demo_client then [Emit ''OPENDIALOG'' [show_nat 0]] else []) @
       [Emit name (show_nat (privmsg_window ''bob'' demo_client) # ''bob'' # ''hi, al!'' # rest)]"
proof -
  have a: "ascii_str ''bob''" "ascii_str ''hi, al!''" by (simp_all add: ascii_def uchar_def)
  have i: "world_inv (cl_world demo_client)" by (simp add: demo_world_of_client demo_world_inv)
  obtain c' where c': "inbound_privmsg demo_denv ''bob'' ''b@x'' ''hi, al!'' False MESSAGE_TAGS_DATA_INIT demo_client = Some c'"
    using inbound_privmsg_ok [OF i demo_plain_alerts a] unfolding okd_def by blast
  have "snd (msg_flood_check demo_denv ''bob'' ''b@x'' demo_client)"
    by (simp add: msg_flood_check_def flood_check_def demo_client_def demo_proto_def no_flood_def Let_def)
  with c' private_message_shown [OF c' a(1)] show ?thesis by (fastforce simp: CHANLEN_def)
qed

end
