(* ===== verification/Plugin.thy ===== *)
theory Plugin
  imports CaseFold StringUtil Session "HOL-Library.Monad_Syntax"
begin

text \<open>
  The hooks of plugins, \<open>src/common/plugin.c\<close>: commands, lines of a server, text events, timers
  and file descriptors a plugin wants to see, in one list ordered by priority.

  Hooks are heap objects, and \<open>hook_list\<close> holds their addresses in order; a node of the list is
  identified by the address it holds. Addresses are never used again, so that a pointer to a
  node or a hook that was freed is known by its address. A callback of a plugin is a parameter:
  it gets the hook and its arguments and changes the state as it likes. \<open>None\<close> is the use of
  freed memory, or a loop that does not end.
\<close>

subsection \<open>The data\<close>

datatype hook_type = HOOK_COMMAND | HOOK_SERVER | HOOK_SERVER_ATTRS | HOOK_PRINT | HOOK_PRINT_ATTRS
  | HOOK_TIMER | HOOK_FD | HOOK_DELETED

text \<open>\<open>hk_pri\<close> is the priority, or the descriptor of a \<open>HOOK_FD\<close>; a name that was freed is \<open>None\<close>.\<close>

record hook =
  hk_pl :: nat
  hk_name :: "string option"
  hk_callback :: nat
  hk_help :: "string option"
  hk_data :: nat
  hk_tag :: nat
  hk_type :: hook_type
  hk_pri :: int

record plugin =
  pg_addr :: nat
  pg_name :: string
  pg_filename :: "string option"
  pg_context :: nat
  pg_deinit :: bool
  pg_fake :: bool

record plugins =
  plugin_list :: "plugin list"
  hook_list :: "nat list"
  hook_mem :: "nat \<Rightarrow> hook option"
  hook_next :: nat
  plugin_next :: nat
  plugin_trace :: "call list"

text \<open>What a callback gets; \<open>attrs\<close> is \<open>server_time_utc\<close>, or NULL.\<close>

datatype callback_args =
    Command_args "string list" "string list"
  | Server_args "string list" "string list"
  | Server_attrs_args "string list" "string list" "int option"
  | Print_args "string list"
  | Print_attrs_args "string list" "int option"
  | Timer_args
  | Fd_args int nat

type_synonym callback = "hook \<Rightarrow> callback_args \<Rightarrow> plugins \<Rightarrow> (plugins \<times> nat) option"

definition HEXCHAT_EAT_HEXCHAT :: nat where "HEXCHAT_EAT_HEXCHAT = 1"
definition HEXCHAT_EAT_PLUGIN :: nat where "HEXCHAT_EAT_PLUGIN = 2"

definition eats_hexchat :: "nat \<Rightarrow> bool" where "eats_hexchat ret \<longleftrightarrow> odd ret"
definition eats_plugin :: "nat \<Rightarrow> bool" where "eats_plugin ret \<longleftrightarrow> odd (ret div 2)"

definition plugins_init :: plugins where
  "plugins_init = \<lparr>plugin_list = [], hook_list = [], hook_mem = (\<lambda>_. None), hook_next = 0,
     plugin_next = 0, plugin_trace = []\<rparr>"

definition plugin_call :: "string \<Rightarrow> string list \<Rightarrow> plugins \<Rightarrow> plugins" where
  "plugin_call name args st = st\<lparr>plugin_trace := plugin_trace st @ [Call name args]\<rparr>"

definition hook_at :: "plugins \<Rightarrow> nat \<Rightarrow> hook" where
  "hook_at st a = (case hook_mem st a of Some h \<Rightarrow> h
     | None \<Rightarrow> \<lparr>hk_pl = 0, hk_name = None, hk_callback = 0, hk_help = None, hk_data = 0, hk_tag = 0,
                hk_type = HOOK_DELETED, hk_pri = 0\<rparr>)"

definition set_hook :: "nat \<Rightarrow> hook \<Rightarrow> plugins \<Rightarrow> plugins" where
  "set_hook a h st = st\<lparr>hook_mem := (hook_mem st)(a \<mapsto> h)\<rparr>"

text \<open>\<open>hook->pl->context = sess\<close>\<close>

definition set_context :: "nat \<Rightarrow> nat \<Rightarrow> plugins \<Rightarrow> plugins option" where
  "set_context pl sess st =
     (if pl \<in> pg_addr ` set (plugin_list st)
      then Some (st\<lparr>plugin_list := map (\<lambda>p. if pg_addr p = pl then p\<lparr>pg_context := sess\<rparr> else p) (plugin_list st)\<rparr>)
      else None)"

subsection \<open>Adding and removing hooks\<close>

text \<open>The types a new hook is ordered among, \<open>new_hook_type\<close>.\<close>

fun new_hook_type :: "hook_type \<Rightarrow> hook_type list" where
  "new_hook_type HOOK_PRINT = [HOOK_PRINT, HOOK_PRINT_ATTRS]"
| "new_hook_type HOOK_PRINT_ATTRS = [HOOK_PRINT, HOOK_PRINT_ATTRS]"
| "new_hook_type HOOK_SERVER = [HOOK_SERVER, HOOK_PRINT_ATTRS]"
| "new_hook_type HOOK_SERVER_ATTRS = [HOOK_SERVER, HOOK_PRINT_ATTRS]"
| "new_hook_type ty = [ty]"

fun insert_hook :: "(nat \<Rightarrow> hook) \<Rightarrow> nat \<Rightarrow> nat list \<Rightarrow> nat list" where
  "insert_hook hk a [] = [a]"
| "insert_hook hk a (b # bs) =
     (if hk_type (hk b) \<in> set (new_hook_type (hk_type (hk a))) \<and> hk_pri (hk b) \<le> hk_pri (hk a)
      then a # b # bs
      else b # insert_hook hk a bs)"

definition plugin_insert_hook :: "nat \<Rightarrow> plugins \<Rightarrow> plugins" where
  "plugin_insert_hook a st = st\<lparr>hook_list := insert_hook (hook_at st) a (hook_list st)\<rparr>"

text \<open>\<open>tag\<close> is what \<open>fe_timeout_add\<close> or \<open>fe_input_add\<close> answers.\<close>

definition plugin_add_hook ::
    "nat \<Rightarrow> hook_type \<Rightarrow> int \<Rightarrow> string option \<Rightarrow> string option \<Rightarrow> nat \<Rightarrow> nat \<Rightarrow> nat \<Rightarrow> plugins \<Rightarrow> plugins \<times> nat" where
  "plugin_add_hook pl ty pri name help callb data tag st =
     (let a = hook_next st;
          h = \<lparr>hk_pl = pl, hk_name = name, hk_callback = callb, hk_help = help, hk_data = data,
               hk_tag = 0, hk_type = ty, hk_pri = pri\<rparr>;
          st = plugin_insert_hook a (set_hook a h (st\<lparr>hook_next := a + 1\<rparr>));
          st = (if ty = HOOK_TIMER then set_hook a (h\<lparr>hk_tag := tag\<rparr>) st else st)
      in (st, a))"

definition hexchat_hook_command :: "nat \<Rightarrow> string \<Rightarrow> int \<Rightarrow> nat \<Rightarrow> string option \<Rightarrow> nat \<Rightarrow> plugins \<Rightarrow> plugins \<times> nat" where
  "hexchat_hook_command ph name pri callb help data = plugin_add_hook ph HOOK_COMMAND pri (Some name) help callb data 0"

definition hexchat_hook_server :: "nat \<Rightarrow> string \<Rightarrow> int \<Rightarrow> nat \<Rightarrow> nat \<Rightarrow> plugins \<Rightarrow> plugins \<times> nat" where
  "hexchat_hook_server ph name pri callb data = plugin_add_hook ph HOOK_SERVER pri (Some name) None callb data 0"

definition hexchat_hook_server_attrs :: "nat \<Rightarrow> string \<Rightarrow> int \<Rightarrow> nat \<Rightarrow> nat \<Rightarrow> plugins \<Rightarrow> plugins \<times> nat" where
  "hexchat_hook_server_attrs ph name pri callb data = plugin_add_hook ph HOOK_SERVER_ATTRS pri (Some name) None callb data 0"

definition hexchat_hook_print :: "nat \<Rightarrow> string \<Rightarrow> int \<Rightarrow> nat \<Rightarrow> nat \<Rightarrow> plugins \<Rightarrow> plugins \<times> nat" where
  "hexchat_hook_print ph name pri callb data = plugin_add_hook ph HOOK_PRINT pri (Some name) None callb data 0"

definition hexchat_hook_print_attrs :: "nat \<Rightarrow> string \<Rightarrow> int \<Rightarrow> nat \<Rightarrow> nat \<Rightarrow> plugins \<Rightarrow> plugins \<times> nat" where
  "hexchat_hook_print_attrs ph name pri callb data = plugin_add_hook ph HOOK_PRINT_ATTRS pri (Some name) None callb data 0"

definition hexchat_hook_timer :: "nat \<Rightarrow> nat \<Rightarrow> nat \<Rightarrow> nat \<Rightarrow> plugins \<Rightarrow> plugins \<times> nat" where
  "hexchat_hook_timer ph tag callb data = plugin_add_hook ph HOOK_TIMER 0 None None callb data tag"

definition hexchat_hook_fd :: "nat \<Rightarrow> int \<Rightarrow> nat \<Rightarrow> nat \<Rightarrow> nat \<Rightarrow> plugins \<Rightarrow> plugins \<times> nat" where
  "hexchat_hook_fd ph fd tag callb data st =
     (let (st, a) = plugin_add_hook ph HOOK_FD 0 None None callb data 0 st
      in (set_hook a ((hook_at st a)\<lparr>hk_pri := fd, hk_tag := tag\<rparr>) st, a))"

text \<open>The answer is the \<open>userdata\<close>, or NULL.\<close>

definition hexchat_unhook :: "nat \<Rightarrow> plugins \<Rightarrow> plugins \<times> nat option" where
  "hexchat_unhook a st =
     (let h = hook_at st a in
      if a \<notin> set (hook_list st) \<or> hk_type h = HOOK_DELETED then (st, None)
      else
        let st = (if hk_type h = HOOK_TIMER \<and> hk_tag h \<noteq> 0 then plugin_call ''fe_timeout_remove'' [] st else st);
            st = (if hk_type h = HOOK_FD \<and> hk_tag h \<noteq> 0 then plugin_call ''fe_input_remove'' [] st else st)
        in (set_hook a (h\<lparr>hk_type := HOOK_DELETED, hk_name := None, hk_help := None\<rparr>) st, Some (hk_data h)))"

subsection \<open>Running hooks\<close>

text \<open>\<open>plugin_hook_find\<close>: the rest of the list from the first hook for the event; \<open>None\<close> is a name
  that is NULL.\<close>

fun plugin_hook_find :: "(nat \<Rightarrow> hook) \<Rightarrow> hook_type list \<Rightarrow> string \<Rightarrow> nat list \<Rightarrow> nat list option" where
  "plugin_hook_find hk types name [] = Some []"
| "plugin_hook_find hk types name (a # xs) =
     (if hk_type (hk a) \<in> set types then
        (case hk_name (hk a) of
           None \<Rightarrow> None
         | Some n \<Rightarrow>
             if g_ascii_strcasecmp n name = 0 then Some (a # xs)
             else if HOOK_SERVER \<in> set types \<and> g_ascii_strcasecmp n ''RAW LINE'' = 0 then Some (a # xs)
             else plugin_hook_find hk types name xs)
      else plugin_hook_find hk types name xs)"

text \<open>The \<open>switch (hook->type)\<close>.\<close>

fun hook_args :: "hook_type \<Rightarrow> string list \<Rightarrow> string list \<Rightarrow> int option \<Rightarrow> callback_args" where
  "hook_args HOOK_COMMAND word eol attrs = Command_args word eol"
| "hook_args HOOK_PRINT_ATTRS word eol attrs = Print_attrs_args word attrs"
| "hook_args HOOK_SERVER word eol attrs = Server_args word eol"
| "hook_args HOOK_SERVER_ATTRS word eol attrs = Server_attrs_args word eol attrs"
| "hook_args _ word eol attrs = Print_args word"

text \<open>\<open>xit\<close>: really remove the deleted hooks.\<close>

definition hook_deleted :: "plugins \<Rightarrow> nat \<Rightarrow> bool" where
  "hook_deleted st a \<longleftrightarrow> hk_type (hook_at st a) = HOOK_DELETED"

definition remove_deleted :: "plugins \<Rightarrow> plugins" where
  "remove_deleted st =
     st\<lparr>hook_list := filter (\<lambda>a. \<not> hook_deleted st a) (hook_list st),
        hook_mem := (\<lambda>a. if a \<in> set (hook_list st) \<and> hook_deleted st a then None else hook_mem st a)\<rparr>"

text \<open>
  The loop of \<open>plugin_hook_run\<close> from the node \<open>pos\<close>; the node behind the hook is looked up before
  the callback runs. \<open>word_eol\<close> is empty where the code has NULL.
\<close>

definition node_behind :: "nat list \<Rightarrow> nat option" where
  "node_behind xs = (case xs of [] \<Rightarrow> None | a # _ \<Rightarrow> Some a)"

definition call_hook ::
    "callback \<Rightarrow> nat \<Rightarrow> string list \<Rightarrow> string list \<Rightarrow> int option \<Rightarrow> nat \<Rightarrow> plugins \<Rightarrow> (plugins \<times> nat) option" where
  "call_hook call sess word eol attrs a st =
     (let h = hook_at st a in
      Option.bind (set_context (hk_pl h) sess st) (call h (hook_args (hk_type h) word eol attrs)))"

partial_function (option) hook_loop ::
    "callback \<Rightarrow> nat \<Rightarrow> string \<Rightarrow> string list \<Rightarrow> string list \<Rightarrow> int option \<Rightarrow> hook_type list \<Rightarrow> nat option \<Rightarrow> bool \<Rightarrow>
     plugins \<Rightarrow> (plugins \<times> bool) option" where
  "hook_loop call sess name word eol attrs types pos eat st =
     (case pos of
        None \<Rightarrow> Some (st, eat)
      | Some n \<Rightarrow>
          if n \<notin> set (hook_list st) then None
          else
            Option.bind (plugin_hook_find (hook_at st) types name (dropWhile (\<lambda>b. b \<noteq> n) (hook_list st)))
             (\<lambda>xs. case xs of
                [] \<Rightarrow> Some (st, eat)
              | a # rest \<Rightarrow>
                  Option.bind (call_hook call sess word eol attrs a st)
                   (\<lambda>(st, ret).
                      if eats_hexchat ret \<and> eats_plugin ret then Some (st, True)
                      else if eats_plugin ret then Some (st, eat)
                      else hook_loop call sess name word eol attrs types (node_behind rest)
                             (eat \<or> eats_hexchat ret) st)))"

definition plugin_hook_run ::
    "callback \<Rightarrow> nat \<Rightarrow> string \<Rightarrow> string list \<Rightarrow> string list \<Rightarrow> int option \<Rightarrow> hook_type list \<Rightarrow> plugins \<Rightarrow>
     (plugins \<times> bool) option" where
  "plugin_hook_run call sess name word eol attrs types st =
     map_option (\<lambda>(st, eat). (remove_deleted st, eat))
       (hook_loop call sess name word eol attrs types (node_behind (hook_list st)) False st)"

definition plugin_emit_command ::
    "callback \<Rightarrow> nat \<Rightarrow> string \<Rightarrow> string list \<Rightarrow> string list \<Rightarrow> plugins \<Rightarrow> (plugins \<times> bool) option" where
  "plugin_emit_command call sess name word eol = plugin_hook_run call sess name word eol None [HOOK_COMMAND]"

definition plugin_emit_server ::
    "callback \<Rightarrow> nat \<Rightarrow> string \<Rightarrow> string list \<Rightarrow> string list \<Rightarrow> int \<Rightarrow> plugins \<Rightarrow> (plugins \<times> bool) option" where
  "plugin_emit_server call sess name word eol server_time =
     plugin_hook_run call sess name word eol (Some server_time) [HOOK_SERVER, HOOK_SERVER_ATTRS]"

definition plugin_emit_print :: "callback \<Rightarrow> nat \<Rightarrow> string list \<Rightarrow> int \<Rightarrow> plugins \<Rightarrow> (plugins \<times> bool) option" where
  "plugin_emit_print call sess word server_time =
     plugin_hook_run call sess (hd word) word [] (Some server_time) [HOOK_PRINT, HOOK_PRINT_ATTRS]"

definition plugin_emit_dummy_print :: "callback \<Rightarrow> nat \<Rightarrow> string \<Rightarrow> plugins \<Rightarrow> (plugins \<times> bool) option" where
  "plugin_emit_dummy_print call sess name =
     plugin_hook_run call sess name (name # replicate 31 []) [] None [HOOK_PRINT]"

text \<open>The numbers and the key are given as texts.\<close>

definition plugin_emit_keypress ::
    "callback \<Rightarrow> nat \<Rightarrow> string \<Rightarrow> string \<Rightarrow> string \<Rightarrow> string \<Rightarrow> plugins \<Rightarrow> (plugins \<times> bool) option" where
  "plugin_emit_keypress call sess keyval state key len st =
     (if hook_list st = [] then Some (st, False)
      else plugin_hook_run call sess ''Key Press''
             ([''Key Press'', keyval, state, key, len] @ replicate 27 []) [] None [HOOK_PRINT] st)"

subsection \<open>Timers and descriptors\<close>

text \<open>What follows the callback: one that answers 0 is unhooked.\<close>

definition callback_done :: "nat \<Rightarrow> nat \<Rightarrow> plugins \<Rightarrow> plugins \<times> nat" where
  "callback_done a ret st =
     (if a \<notin> set (hook_list st) \<or> hook_deleted st a then (st, 0)
      else if ret = 0 then (fst (hexchat_unhook a (set_hook a ((hook_at st a)\<lparr>hk_tag := 0\<rparr>) st)), ret)
      else (st, ret))"

definition plugin_timeout_cb :: "callback \<Rightarrow> nat \<Rightarrow> nat \<Rightarrow> plugins \<Rightarrow> (plugins \<times> nat) option" where
  "plugin_timeout_cb call sess a st =
     (case hook_mem st a of
        None \<Rightarrow> None
      | Some h \<Rightarrow>
          map_option (\<lambda>(st, ret). callback_done a ret st)
            (Option.bind (set_context (hk_pl h) sess st) (call h Timer_args)))"

definition plugin_fd_cb :: "callback \<Rightarrow> bool \<Rightarrow> bool \<Rightarrow> bool \<Rightarrow> nat \<Rightarrow> plugins \<Rightarrow> (plugins \<times> nat) option" where
  "plugin_fd_cb call io_in io_out io_pri a st =
     (case hook_mem st a of
        None \<Rightarrow> None
      | Some h \<Rightarrow>
          map_option (\<lambda>(st, ret). callback_done a ret st)
            (call h (Fd_args (hk_pri h)
               ((if io_in then 1 else 0) + (if io_out then 2 else 0) + (if io_pri then 4 else 0))) st))"

subsection \<open>Commands of plugins\<close>

definition plugin_command_list :: "plugins \<Rightarrow> string option list \<Rightarrow> string option list" where
  "plugin_command_list st tmp_list =
     rev (map (\<lambda>a. hk_name (hook_at st a)) (filter (\<lambda>a. hk_type (hook_at st a) = HOOK_COMMAND) (hook_list st))) @ tmp_list"

definition plugin_show_help :: "string \<Rightarrow> plugins \<Rightarrow> (plugins \<times> bool) option" where
  "plugin_show_help cmd st =
     map_option
       (\<lambda>xs. case xs of
          [] \<Rightarrow> (st, False)
        | a # _ \<Rightarrow>
            (case hk_help (hook_at st a) of
               None \<Rightarrow> (st, False)
             | Some help \<Rightarrow> (plugin_call ''PrintText'' [help] st, True)))
       (plugin_hook_find (hook_at st) [HOOK_COMMAND] cmd (hook_list st))"

subsection \<open>Loading and unloading\<close>

text \<open>\<open>deinit\<close> is the \<open>deinit_callback\<close> of a plugin; it may refuse.\<close>

definition unhook_all :: "nat \<Rightarrow> plugins \<Rightarrow> plugins" where
  "unhook_all pl st =
     fold (\<lambda>a st. if hk_pl (hook_at st a) = pl then fst (hexchat_unhook a st) else st) (hook_list st) st"

definition plugin_unlink :: "nat \<Rightarrow> plugins \<Rightarrow> plugins" where
  "plugin_unlink pl st =
     plugin_call ''fe_pluginlist_update'' []
       (st\<lparr>plugin_list := filter (\<lambda>p. pg_addr p \<noteq> pl) (plugin_list st)\<rparr>)"

definition plugin_free ::
    "(plugin \<Rightarrow> plugins \<Rightarrow> (plugins \<times> bool) option) \<Rightarrow> plugin \<Rightarrow> bool \<Rightarrow> bool \<Rightarrow> plugins \<Rightarrow> (plugins \<times> bool) option" where
  "plugin_free deinit pl do_deinit allow_refuse st =
     (if pg_fake pl then Some (plugin_unlink (pg_addr pl) st, True)
      else
        Option.bind (if do_deinit \<and> pg_deinit pl then deinit pl st else Some (st, True))
          (\<lambda>(st, ok).
             if \<not> ok \<and> allow_refuse then Some (st, False)
             else if pg_addr pl \<notin> pg_addr ` set (plugin_list st) then None
             else Some (plugin_unlink (pg_addr pl) (unhook_all (pg_addr pl) st), True)))"

definition plugin_list_add :: "nat \<Rightarrow> string option \<Rightarrow> string \<Rightarrow> bool \<Rightarrow> bool \<Rightarrow> plugins \<Rightarrow> plugins \<times> plugin" where
  "plugin_list_add ctx filename name deinit fake st =
     (let pl = \<lparr>pg_addr = plugin_next st, pg_name = name, pg_filename = filename, pg_context = ctx,
                pg_deinit = deinit, pg_fake = fake\<rparr>
      in (st\<lparr>plugin_list := pl # plugin_list st, plugin_next := plugin_next st + 1\<rparr>, pl))"

text \<open>\<open>init\<close> is the \<open>init_func\<close>: it may add hooks, and names the plugin.\<close>

definition plugin_add ::
    "(plugin \<Rightarrow> plugins \<Rightarrow> (plugins \<times> string \<times> bool) option) \<Rightarrow> nat \<Rightarrow> string option \<Rightarrow> bool \<Rightarrow> bool \<Rightarrow>
     plugins \<Rightarrow> plugins option" where
  "plugin_add init sess filename deinit fake st =
     (let (st, pl) = plugin_list_add sess filename (case filename of None \<Rightarrow> [] | Some f \<Rightarrow> f) deinit fake st in
      if fake then Some (plugin_call ''fe_pluginlist_update'' [] st)
      else
        Option.bind (init pl st)
          (\<lambda>(st, name, ok).
             let st = st\<lparr>plugin_list := map (\<lambda>p. if pg_addr p = pg_addr pl then p\<lparr>pg_name := name\<rparr> else p) (plugin_list st)\<rparr>
             in if ok then Some (plugin_call ''fe_pluginlist_update'' [] st)
                else map_option fst (plugin_free (\<lambda>_ st. Some (st, True)) pl False False st)))"

text \<open>The answer of \<open>plugin_kill\<close> is 1, 2 when the plugin refuses, 0 when there is none.\<close>

definition killed_by :: "string \<Rightarrow> bool \<Rightarrow> plugin \<Rightarrow> bool" where
  "killed_by name by_filename pl \<longleftrightarrow>
     (if by_filename
      then pg_filename pl \<noteq> None \<and>
           (g_ascii_strcasecmp name (the (pg_filename pl)) = 0 \<or>
            g_ascii_strcasecmp name (file_part (pg_filename pl)) = 0)
      else g_ascii_strcasecmp name (pg_name pl) = 0) \<and>
     pg_filename pl \<noteq> None \<and> \<not> pg_fake pl"

definition plugin_kill ::
    "(plugin \<Rightarrow> plugins \<Rightarrow> (plugins \<times> bool) option) \<Rightarrow> string \<Rightarrow> bool \<Rightarrow> plugins \<Rightarrow> (plugins \<times> nat) option" where
  "plugin_kill deinit name by_filename st =
     (case filter (killed_by name by_filename) (plugin_list st) of
        [] \<Rightarrow> Some (st, 0)
      | pl # _ \<Rightarrow> map_option (\<lambda>(st, ok). (st, if ok then 1 else 2)) (plugin_free deinit pl True True st))"

subsection \<open>Contexts\<close>

text \<open>What \<open>plugin_find_context\<close> reads of a server and of a session.\<close>

record ctx_server =
  cs_addr :: nat
  cs_servername :: string
  cs_hostname :: string
  cs_network :: string
  cs_front :: nat

record ctx_session =
  cx_addr :: nat
  cx_server :: nat
  cx_channel :: string

definition server_named :: "string option \<Rightarrow> ctx_server \<Rightarrow> bool" where
  "server_named servname serv =
     (case servname of
        None \<Rightarrow> True
      | Some n \<Rightarrow> rfc_casecmp n (cs_servername serv) = 0 \<or> g_ascii_strcasecmp n (cs_hostname serv) = 0 \<or>
                  g_ascii_strcasecmp n (cs_network serv) = 0)"

text \<open>The sessions found so far are \<open>sessions\<close>; the answer is a session to return at once, or they.\<close>

fun find_on_server :: "string \<Rightarrow> nat \<Rightarrow> nat option \<Rightarrow> ctx_session list \<Rightarrow> nat list \<Rightarrow> nat + nat list" where
  "find_on_server chan serv current_server [] sessions = Inr sessions"
| "find_on_server chan serv current_server (s # ss) sessions =
     (if cx_server s = serv \<and> rfc_casecmp chan (cx_channel s) = 0 then
        (if Some (cx_server s) = current_server then Inl (cx_addr s)
         else find_on_server chan serv current_server ss (cx_addr s # sessions))
      else find_on_server chan serv current_server ss sessions)"

fun find_context_loop ::
    "string option \<Rightarrow> string option \<Rightarrow> nat option \<Rightarrow> ctx_session list \<Rightarrow> ctx_server list \<Rightarrow> nat list \<Rightarrow> nat option" where
  "find_context_loop servname chan current_server sess_list [] sessions =
     (case rev sessions of [] \<Rightarrow> None | s # _ \<Rightarrow> Some s)"
| "find_context_loop servname chan current_server sess_list (serv # servs) sessions =
     (if server_named servname serv then
        (case chan of
           None \<Rightarrow> Some (cs_front serv)
         | Some ch \<Rightarrow>
             (case find_on_server ch (cs_addr serv) current_server sess_list sessions of
                Inl s \<Rightarrow> Some s
              | Inr sessions \<Rightarrow> find_context_loop servname chan current_server sess_list servs sessions))
      else find_context_loop servname chan current_server sess_list servs sessions)"

definition plugin_find_context ::
    "nat option \<Rightarrow> ctx_server list \<Rightarrow> ctx_session list \<Rightarrow> string option \<Rightarrow> string option \<Rightarrow> nat option \<Rightarrow> nat option" where
  "plugin_find_context current_sess serv_list sess_list servname chan current_server =
     (if servname = None \<and> chan = None then current_sess
      else find_context_loop servname chan current_server sess_list serv_list [])"

end
