(* ===== verification/PluginProofs.thy ===== *)
theory PluginProofs
  imports Plugin
begin

text \<open>
  Hooks of plugins: the list stays in the order of the priorities, for commands and text events;
  an event runs the hooks for it in that order when no callback adds hooks or sends events of
  its own; what goes wrong otherwise, and for hooks on the lines of a server.
\<close>

subsection \<open>What a plugin may do\<close>

definition named_type :: "hook_type \<Rightarrow> bool" where
  "named_type ty \<longleftrightarrow> ty \<notin> {HOOK_TIMER, HOOK_FD, HOOK_DELETED}"

text \<open>The calls of the interface that change hooks and plugins, as the functions of \<open>plugin.c\<close>.\<close>

inductive plug_step :: "plugins \<Rightarrow> plugins \<Rightarrow> bool" where
  new_plugin: "plug_step st (fst (plugin_list_add ctx filename name deinit fake st))"
| add_hook: "pl \<in> pg_addr ` set (plugin_list st) \<Longrightarrow> named_type ty \<Longrightarrow>
    plug_step st (fst (plugin_add_hook pl ty pri (Some name) help callb data 0 st))"
| add_timer: "pl \<in> pg_addr ` set (plugin_list st) \<Longrightarrow>
    plug_step st (fst (hexchat_hook_timer pl tag callb data st))"
| add_fd: "pl \<in> pg_addr ` set (plugin_list st) \<Longrightarrow>
    plug_step st (fst (hexchat_hook_fd pl fd tag callb data st))"
| unhook: "plug_step st (fst (hexchat_unhook a st))"
| set_ctx: "set_context pl sess st = Some st' \<Longrightarrow> plug_step st st'"
| tell: "plug_step st (plugin_call name args st)"
| unload: "plug_step st (plugin_unlink pl (unhook_all pl st))"
| xit: "plug_step st (remove_deleted st)"

text \<open>\<open>a\<close> may stand before \<open>b\<close>. Hooks on lines of a server are left out.\<close>

definition ordered_class :: "hook_type \<Rightarrow> hook_type \<Rightarrow> bool" where
  "ordered_class t u \<longleftrightarrow>
     (t = HOOK_COMMAND \<and> u = HOOK_COMMAND) \<or>
     (t \<in> {HOOK_PRINT, HOOK_PRINT_ATTRS} \<and> u \<in> {HOOK_PRINT, HOOK_PRINT_ATTRS})"

definition runs_before :: "hook \<Rightarrow> hook \<Rightarrow> bool" where
  "runs_before h k \<longleftrightarrow> (ordered_class (hk_type h) (hk_type k) \<longrightarrow> hk_pri k \<le> hk_pri h)"

definition hooks_ordered :: "plugins \<Rightarrow> bool" where
  "hooks_ordered st \<longleftrightarrow> sorted_wrt runs_before (map (hook_at st) (hook_list st))"

definition hook_ok :: "plugins \<Rightarrow> nat \<Rightarrow> bool" where
  "hook_ok st a \<longleftrightarrow> a < hook_next st \<and> hook_mem st a \<noteq> None \<and>
     (\<not> hook_deleted st a \<longrightarrow> hk_pl (hook_at st a) \<in> pg_addr ` set (plugin_list st)) \<and>
     (named_type (hk_type (hook_at st a)) \<longrightarrow> hk_name (hook_at st a) \<noteq> None)"

definition hooks_ok :: "plugins \<Rightarrow> bool" where
  "hooks_ok st \<longleftrightarrow> distinct (hook_list st) \<and> (\<forall>a \<in> set (hook_list st). hook_ok st a)"

subsection \<open>Facts on the operations\<close>

lemma set_insert_hook [simp]: "set (insert_hook hk a xs) = insert a (set xs)"
  by (induction xs) auto

lemma distinct_insert_hook: "distinct xs \<Longrightarrow> a \<notin> set xs \<Longrightarrow> distinct (insert_hook hk a xs)"
  by (induction xs) auto

lemma class_new_hook_type:
  "ordered_class t u \<Longrightarrow> u \<in> set (new_hook_type t)"
  "ordered_class t u \<longleftrightarrow> ordered_class u t"
  "u \<in> set (new_hook_type t) \<Longrightarrow> ordered_class t v \<Longrightarrow> ordered_class u v"
  by (cases t; auto simp: ordered_class_def)+

lemma sorted_insert_hook:
  "sorted_wrt (\<lambda>a b. runs_before (hk a) (hk b)) xs \<Longrightarrow>
   sorted_wrt (\<lambda>a b. runs_before (hk a) (hk b)) (insert_hook hk a xs)"
proof (induction xs)
  case Nil
  then show ?case by simp
next
  case (Cons b bs)
  show ?case
  proof (cases "hk_type (hk b) \<in> set (new_hook_type (hk_type (hk a))) \<and> hk_pri (hk b) \<le> hk_pri (hk a)")
    case True
    then have "runs_before (hk a) (hk c)" if "c \<in> set (b # bs)" for c
      using that Cons.prems class_new_hook_type(3) unfolding runs_before_def by fastforce
    then show ?thesis using True Cons.prems by simp
  next
    case False
    then have "runs_before (hk b) (hk a)"
      using class_new_hook_type(1,2) unfolding runs_before_def by fastforce
    then show ?thesis using False Cons by auto
  qed
qed

lemma hook_at_set [simp]: "hook_at (set_hook a h st) = (hook_at st)(a := h)"
  by (auto simp: hook_at_def set_hook_def fun_eq_iff)

lemma set_hook_simps [simp]:
  "hook_list (set_hook a h st) = hook_list st"
  "plugin_list (set_hook a h st) = plugin_list st"
  "hook_next (set_hook a h st) = hook_next st"
  "hook_mem (set_hook a h st) = (hook_mem st)(a \<mapsto> h)"
  by (simp_all add: set_hook_def)

lemma plugin_call_simps [simp]:
  "hook_list (plugin_call n as st) = hook_list st"
  "plugin_list (plugin_call n as st) = plugin_list st"
  "hook_next (plugin_call n as st) = hook_next st"
  "hook_mem (plugin_call n as st) = hook_mem st"
  "hook_at (plugin_call n as st) = hook_at st"
  by (simp_all add: plugin_call_def hook_at_def fun_eq_iff)

definition gone :: "hook \<Rightarrow> hook" where
  "gone h = h\<lparr>hk_type := HOOK_DELETED, hk_name := None, hk_help := None\<rparr>"

lemma unhook_eq:
  "fst (hexchat_unhook a st) = st \<or>
   (a \<in> set (hook_list st) \<and> (\<exists>tr. fst (hexchat_unhook a st) = set_hook a (gone (hook_at st a)) (st\<lparr>plugin_trace := tr\<rparr>)))"
proof -
  have *: "plugin_call n as st = st\<lparr>plugin_trace := plugin_trace st @ [Call n as]\<rparr>" for n as st
    by (simp add: plugin_call_def)
  have "st = st\<lparr>plugin_trace := plugin_trace st\<rparr>" by simp
  then show ?thesis
    unfolding hexchat_unhook_def Let_def gone_def * by (auto intro: exI [of _ "plugin_trace st"])
qed

lemma ordered_set_hook:
  assumes "hooks_ordered st" "hook_mem st' = hook_mem st" "hook_list st' = hook_list st"
    and "hk_type h = HOOK_DELETED \<or> \<not> named_type (hk_type h)"
  shows "hooks_ordered (set_hook a h st')"
proof -
  have e: "hook_at st' = hook_at st" by (simp add: hook_at_def assms fun_eq_iff)
  have n: "\<not> ordered_class (hk_type h) t" "\<not> ordered_class t (hk_type h)" for t
    using assms(4) by (auto simp: ordered_class_def named_type_def)
  show ?thesis
    using assms(1) n unfolding hooks_ordered_def sorted_wrt_map hook_at_set set_hook_simps assms(3) e
    by (auto elim!: sorted_wrt_mono_rel [rotated] simp: runs_before_def)
qed

subsection \<open>Every step keeps the list in order\<close>

definition plug_inv :: "plugins \<Rightarrow> bool" where
  "plug_inv st \<longleftrightarrow> hooks_ok st \<and> hooks_ordered st"

lemma hook_at_cong: "hook_mem st' = hook_mem st \<Longrightarrow> hook_at st' = hook_at st"
  by (simp add: hook_at_def fun_eq_iff)

lemma inv_cong:
  assumes "plug_inv st" "hook_mem st' = hook_mem st" "hook_list st' = hook_list st" "hook_next st' = hook_next st"
    and "pg_addr ` set (plugin_list st) \<subseteq> pg_addr ` set (plugin_list st')"
  shows "plug_inv st'"
  using assms hook_at_cong [OF assms(2)]
  by (auto simp: plug_inv_def hooks_ok_def hook_ok_def hook_deleted_def hooks_ordered_def)

lemma inv_gone:
  assumes "plug_inv st" "a \<in> set (hook_list st)"
  shows "plug_inv (set_hook a (gone (hook_at st a)) (st\<lparr>plugin_trace := tr\<rparr>))"
proof -
  have "plug_inv (st\<lparr>plugin_trace := tr\<rparr>)" by (rule inv_cong [OF assms(1)]) simp_all
  then show ?thesis
    using assms(2) ordered_set_hook [of st "st\<lparr>plugin_trace := tr\<rparr>" "gone (hook_at st a)" a] assms(1)
    by (auto simp: plug_inv_def hooks_ok_def hook_ok_def hook_deleted_def gone_def named_type_def hook_at_def)
qed

lemma inv_unhook: "plug_inv st \<Longrightarrow> plug_inv (fst (hexchat_unhook a st))"
  using unhook_eq [of a st] inv_gone [of st a] by auto

lemma inv_add:
  assumes inv: "plug_inv st" and pl: "pl \<in> pg_addr ` set (plugin_list st)"
    and ty: "ty \<noteq> HOOK_DELETED" "named_type ty \<longrightarrow> name \<noteq> None"
  shows "plug_inv (fst (plugin_add_hook pl ty pri name help callb data tag st))"
proof -
  let ?a = "hook_next st"
  define h where "h = \<lparr>hk_pl = pl, hk_name = name, hk_callback = callb, hk_help = help, hk_data = data,
      hk_tag = 0, hk_type = ty, hk_pri = pri\<rparr>"
  define s1 where "s1 = set_hook ?a h (st\<lparr>hook_next := ?a + 1\<rparr>)"
  define s2 where "s2 = plugin_insert_hook ?a s1"
  have fresh: "?a \<notin> set (hook_list st)"
    using inv by (auto simp: plug_inv_def hooks_ok_def hook_ok_def)
  have e0: "hook_at (st\<lparr>hook_next := n\<rparr>) = hook_at st" for n by (rule hook_at_cong) simp
  have e: "hook_at s1 = (hook_at st)(?a := h)" unfolding s1_def hook_at_set e0 ..
  have l: "hook_at (s1\<lparr>hook_list := xs\<rparr>) = hook_at s1" for xs by (rule hook_at_cong) simp
  have ls: "hook_list s1 = hook_list st" by (simp add: s1_def)
  have at: "hook_at s2 = (hook_at st)(?a := h)" "hook_list s2 = insert_hook ((hook_at st)(?a := h)) ?a (hook_list st)"
    by (simp_all add: s2_def plugin_insert_hook_def l e ls)
  have s2: "hook_next s2 = ?a + 1" "hook_mem s2 = (hook_mem st)(?a \<mapsto> h)" "plugin_list s2 = plugin_list st"
    by (simp_all add: s2_def s1_def plugin_insert_hook_def)
  have "sorted_wrt (\<lambda>a b. runs_before (((hook_at st)(?a := h)) a) (((hook_at st)(?a := h)) b)) (hook_list st)"
    using inv fresh unfolding plug_inv_def hooks_ordered_def sorted_wrt_map
    by (auto elim!: sorted_wrt_mono_rel [rotated])
  then have "hooks_ordered s2"
    unfolding hooks_ordered_def sorted_wrt_map at by (rule sorted_insert_hook)
  moreover have "hooks_ok s2"
    using inv fresh pl ty unfolding plug_inv_def hooks_ok_def hook_ok_def hook_deleted_def at s2
    by (auto simp: distinct_insert_hook h_def less_Suc_eq)
  ultimately have inv2: "plug_inv s2" by (simp add: plug_inv_def)
  show ?thesis
  proof (cases "ty = HOOK_TIMER")
    case False
    then show ?thesis using inv2 by (simp add: plugin_add_hook_def Let_def s2_def s1_def h_def)
  next
    case True
    have "hooks_ordered (set_hook ?a (h\<lparr>hk_tag := tag\<rparr>) s2)"
      using inv2 True by (intro ordered_set_hook) (auto simp: plug_inv_def h_def named_type_def)
    then have "plug_inv (set_hook ?a (h\<lparr>hk_tag := tag\<rparr>) s2)"
      using inv2 True pl s2 by (auto simp: plug_inv_def hooks_ok_def hook_ok_def hook_deleted_def h_def named_type_def)
    then show ?thesis using True by (simp add: plugin_add_hook_def Let_def s2_def s1_def h_def)
  qed
qed

lemma add_hook_at:
  "ty \<noteq> HOOK_TIMER \<Longrightarrow> hook_at (fst (plugin_add_hook pl ty pri name help callb data tag st)) (hook_next st) =
     \<lparr>hk_pl = pl, hk_name = name, hk_callback = callb, hk_help = help, hk_data = data, hk_tag = 0,
      hk_type = ty, hk_pri = pri\<rparr>"
  by (simp add: plugin_add_hook_def Let_def plugin_insert_hook_def hook_at_def)

lemma inv_fd:
  assumes "plug_inv st" "pl \<in> pg_addr ` set (plugin_list st)"
  shows "plug_inv (fst (hexchat_hook_fd pl fd tag callb data st))"
proof -
  define st1 where "st1 = fst (plugin_add_hook pl HOOK_FD 0 None None callb data 0 st)"
  have inv: "plug_inv st1"
    unfolding st1_def using assms by (intro inv_add) (auto simp: named_type_def)
  have snd: "snd (plugin_add_hook pl HOOK_FD 0 None None callb data 0 st) = hook_next st"
    and lst: "plugin_list st1 = plugin_list st" "hook_next st1 = hook_next st + 1"
    by (simp_all add: st1_def plugin_add_hook_def Let_def plugin_insert_hook_def)
  let ?h = "(hook_at st1 (hook_next st))\<lparr>hk_pri := fd, hk_tag := tag\<rparr>"
  have h: "hk_type ?h = HOOK_FD" "hk_pl ?h = pl"
    by (simp_all add: st1_def add_hook_at)
  have "hooks_ordered (set_hook (hook_next st) ?h st1)"
    using inv h by (intro ordered_set_hook) (auto simp: plug_inv_def named_type_def)
  then have "plug_inv (set_hook (hook_next st) ?h st1)"
    using inv assms(2) lst h by (auto simp: plug_inv_def hooks_ok_def hook_ok_def hook_deleted_def named_type_def)
  then show ?thesis
    by (simp add: hexchat_hook_fd_def Let_def case_prod_beta snd st1_def [symmetric])
qed

lemma unhook_simps [simp]:
  "hook_list (fst (hexchat_unhook a st)) = hook_list st"
  "plugin_list (fst (hexchat_unhook a st)) = plugin_list st"
  "hook_next (fst (hexchat_unhook a st)) = hook_next st"
  using unhook_eq [of a st] by auto

lemma unhook_at:
  "hook_at (fst (hexchat_unhook a st)) b =
     (if b = a \<and> a \<in> set (hook_list st) \<and> \<not> hook_deleted st a then gone (hook_at st a) else hook_at st b)"
  by (simp add: hexchat_unhook_def Let_def gone_def hook_deleted_def)

text \<open>Unhooking all of a plugin, from any part of the list.\<close>

definition unhook_of :: "nat \<Rightarrow> nat \<Rightarrow> plugins \<Rightarrow> plugins" where
  "unhook_of pl a st = (if hk_pl (hook_at st a) = pl then fst (hexchat_unhook a st) else st)"

lemma unhook_of_simps [simp]:
  "hook_list (unhook_of pl a st) = hook_list st"
  "plugin_list (unhook_of pl a st) = plugin_list st"
  by (simp_all add: unhook_of_def)

lemma unhook_fold:
  "plug_inv st \<Longrightarrow> plug_inv (fold (unhook_of pl) xs st) \<and>
     hook_list (fold (unhook_of pl) xs st) = hook_list st \<and>
     plugin_list (fold (unhook_of pl) xs st) = plugin_list st \<and>
     (\<forall>a. hk_pl (hook_at (fold (unhook_of pl) xs st) a) = hk_pl (hook_at st a)) \<and>
     (\<forall>a. hook_deleted st a \<longrightarrow> hook_deleted (fold (unhook_of pl) xs st) a)"
proof (induction xs arbitrary: st)
  case Nil
  then show ?case by simp
next
  case (Cons x xs)
  have "plug_inv (unhook_of pl x st)"
    using Cons.prems by (simp add: unhook_of_def inv_unhook)
  moreover have "hk_pl (hook_at (unhook_of pl x st) a) = hk_pl (hook_at st a)"
    "hook_deleted st a \<Longrightarrow> hook_deleted (unhook_of pl x st) a" for a
    by (auto simp: unhook_of_def unhook_at gone_def hook_deleted_def)
  ultimately show ?case using Cons.IH [of "unhook_of pl x st"] by auto
qed

lemma unhook_fold_deleted:
  "plug_inv st \<Longrightarrow> set xs \<subseteq> set (hook_list st) \<Longrightarrow> a \<in> set xs \<Longrightarrow> hk_pl (hook_at st a) = pl \<Longrightarrow>
   hook_deleted (fold (unhook_of pl) xs st) a"
proof (induction xs arbitrary: st)
  case Nil
  then show ?case by simp
next
  case (Cons x xs)
  have inv: "plug_inv (unhook_of pl x st)"
    using Cons.prems by (simp add: unhook_of_def inv_unhook)
  have pl: "hk_pl (hook_at (unhook_of pl x st) a) = pl"
    using Cons.prems by (simp add: unhook_of_def unhook_at gone_def)
  show ?case
  proof (cases "a = x")
    case True
    then have "hook_deleted (unhook_of pl x st) a"
      using Cons.prems by (auto simp: unhook_of_def unhook_at gone_def hook_deleted_def)
    then show ?thesis using unhook_fold [OF inv] by simp
  next
    case False
    then show ?thesis using Cons inv pl by simp
  qed
qed

lemma unhook_all_eq: "unhook_all pl st = fold (unhook_of pl) (hook_list st) st"
  unfolding unhook_all_def unhook_of_def by (rule fold_cong) (simp_all add: fun_eq_iff)

lemma inv_unload:
  assumes "plug_inv st"
  shows "plug_inv (plugin_unlink pl (unhook_all pl st))"
proof -
  let ?s = "unhook_all pl st" and ?t = "plugin_unlink pl (unhook_all pl st)"
  have s: "plug_inv ?s" "hook_list ?s = hook_list st" "plugin_list ?s = plugin_list st"
    "\<And>a. hk_pl (hook_at ?s a) = hk_pl (hook_at st a)"
    using unhook_fold [OF assms] by (simp_all add: unhook_all_eq)
  have t: "hook_list ?t = hook_list ?s" "hook_mem ?t = hook_mem ?s" "hook_next ?t = hook_next ?s"
    "plugin_list ?t = filter (\<lambda>p. pg_addr p \<noteq> pl) (plugin_list ?s)"
    by (simp_all add: plugin_unlink_def)
  have at: "hook_at ?t = hook_at ?s" using t(2) by (rule hook_at_cong)
  have "hook_deleted ?s a" if "a \<in> set (hook_list st)" "hk_pl (hook_at st a) = pl" for a
    using that unhook_fold_deleted [OF assms, of "hook_list st" a pl] by (simp add: unhook_all_eq)
  then have "hk_pl (hook_at ?s a) \<noteq> pl" if "a \<in> set (hook_list st)" "\<not> hook_deleted ?s a" for a
    using that s(4) by metis
  then show ?thesis
    using s(1) unfolding plug_inv_def hooks_ok_def hook_ok_def hook_deleted_def hooks_ordered_def t at s(2)
    by (auto simp: image_iff)
qed

lemma inv_xit: "plug_inv st \<Longrightarrow> plug_inv (remove_deleted st)"
proof -
  assume inv: "plug_inv st"
  let ?t = "remove_deleted st"
  have at: "hook_at ?t a = hook_at st a" if "a \<in> set (hook_list ?t)" for a
    using that by (simp add: remove_deleted_def hook_at_def)
  have lst: "hook_list ?t = filter (\<lambda>a. \<not> hook_deleted st a) (hook_list st)" "hook_next ?t = hook_next st"
    "plugin_list ?t = plugin_list st"
    by (simp_all add: remove_deleted_def)
  have "sorted_wrt (\<lambda>a b. runs_before (hook_at st a) (hook_at st b)) (hook_list ?t)"
    using inv by (simp add: plug_inv_def hooks_ordered_def sorted_wrt_map lst(1) sorted_wrt_filter)
  then have "hooks_ordered ?t"
    unfolding hooks_ordered_def sorted_wrt_map by (rule sorted_wrt_mono_rel [rotated]) (simp add: at)
  moreover have "hook_mem ?t a = hook_mem st a" if "a \<in> set (hook_list ?t)" for a
    using that by (simp add: remove_deleted_def)
  ultimately show "plug_inv ?t"
    using inv at lst by (auto simp: plug_inv_def hooks_ok_def hook_ok_def hook_deleted_def)
qed

lemma set_context_addrs:
  "set_context pl sess st = Some st' \<Longrightarrow>
     map pg_addr (plugin_list st') = map pg_addr (plugin_list st) \<and> hook_mem st' = hook_mem st \<and>
     hook_list st' = hook_list st \<and> hook_next st' = hook_next st"
  by (auto simp: set_context_def split: if_splits)

lemma step_keeps: "plug_step st st' \<Longrightarrow> plug_inv st \<Longrightarrow> plug_inv st'"
proof (induction rule: plug_step.induct)
  case (new_plugin st ctx filename name deinit fake)
  then show ?case by (rule inv_cong) (auto simp: plugin_list_add_def Let_def)
next
  case (add_hook pl st ty pri name hlp callb data)
  then show ?case by (intro inv_add) (auto simp: named_type_def)
next
  case (add_timer pl st tag callb data)
  then show ?case unfolding hexchat_hook_timer_def by (intro inv_add) (auto simp: named_type_def)
next
  case (set_ctx pl sess st st')
  note s = set_context_addrs [OF set_ctx(1)]
  then have "pg_addr ` set (plugin_list st') = pg_addr ` set (plugin_list st)"
    by (metis list.set_map)
  then show ?case
    using inv_cong [OF set_ctx(2), of st'] s by (simp del: set_map list.set_map image_set)
next
  case (tell st name args)
  then show ?case by (rule inv_cong) simp_all
qed (simp_all add: inv_fd inv_unhook inv_unload inv_xit)

lemma steps_keep: "plug_step\<^sup>*\<^sup>* st st' \<Longrightarrow> plug_inv st \<Longrightarrow> plug_inv st'"
  by (induction rule: rtranclp_induct) (auto intro: step_keeps)

lemma inv_init: "plug_inv plugins_init"
  by (simp add: plug_inv_def hooks_ok_def hooks_ordered_def plugins_init_def)

subsection \<open>Running hooks\<close>

text \<open>Callbacks that only use the interface.\<close>

definition plain_calls :: "callback \<Rightarrow> bool" where
  "plain_calls call \<longleftrightarrow> (\<forall>h args s s' r. call h args s = Some (s', r) \<longrightarrow> plug_step\<^sup>*\<^sup>* s s')"

lemma call_hook_steps:
  assumes "plain_calls call" "call_hook call sess word eol attrs a st = Some (s', r)"
  shows "plug_step\<^sup>*\<^sup>* st s'"
proof -
  from assms(2) obtain s1 where s1: "set_context (hk_pl (hook_at st a)) sess st = Some s1"
    "call (hook_at st a) (hook_args (hk_type (hook_at st a)) word eol attrs) s1 = Some (s', r)"
    by (auto simp: call_hook_def Let_def split: bind_splits)
  from set_ctx [OF s1(1)] have "plug_step\<^sup>*\<^sup>* st s1" by (rule r_into_rtranclp)
  also have "plug_step\<^sup>*\<^sup>* s1 s'" using assms(1) s1(2) unfolding plain_calls_def by blast
  finally show ?thesis .
qed

lemma hook_loop_steps:
  "hook_loop call sess name word eol attrs types pos eat st = Some res \<Longrightarrow>
   plain_calls call \<longrightarrow> plug_step\<^sup>*\<^sup>* st (fst res)"
proof (erule hook_loop.raw_induct [where P = "\<lambda>call sess name word eol attrs types pos eat st res.
    plain_calls call \<longrightarrow> plug_step\<^sup>*\<^sup>* st (fst res)", rotated], goal_cases)
  case (1 loop call sess name word eol attrs types pos eat st res)
  have "plug_step\<^sup>*\<^sup>* st (fst res)" if "plain_calls call"
    "call_hook call sess word eol attrs a st = Some (s', r)"
    "loop call sess name word eol attrs types pos' eat' s' = Some res" for a s' r pos' eat'
    using call_hook_steps [OF that(1,2)] 1(1) [OF that(3)] that(1) by (blast intro: rtranclp_trans)
  moreover note call_hook_steps [of call sess word eol attrs _ st]
  ultimately show ?case
    using 1(2) by (auto split: option.splits if_splits bind_splits list.splits)
qed

text \<open>The reference: one pass over the list as it was, asking of each hook when its turn comes.\<close>

definition event_hook :: "plugins \<Rightarrow> hook_type list \<Rightarrow> string \<Rightarrow> nat \<Rightarrow> bool" where
  "event_hook st types name a \<longleftrightarrow>
     hk_type (hook_at st a) \<in> set types \<and>
     (case hk_name (hook_at st a) of
        None \<Rightarrow> False
      | Some n \<Rightarrow> g_ascii_strcasecmp n name = 0 \<or> (HOOK_SERVER \<in> set types \<and> g_ascii_strcasecmp n ''RAW LINE'' = 0))"

fun run_snapshot ::
    "callback \<Rightarrow> nat \<Rightarrow> string \<Rightarrow> string list \<Rightarrow> string list \<Rightarrow> int option \<Rightarrow> hook_type list \<Rightarrow> nat list \<Rightarrow> bool \<Rightarrow>
     plugins \<Rightarrow> (plugins \<times> bool) option" where
  "run_snapshot call sess name word eol attrs types [] eat st = Some (st, eat)"
| "run_snapshot call sess name word eol attrs types (a # as) eat st =
     (if event_hook st types name a then
        (case call_hook call sess word eol attrs a st of
           None \<Rightarrow> None
         | Some (st, ret) \<Rightarrow>
             if eats_plugin ret then Some (st, eat \<or> eats_hexchat ret)
             else run_snapshot call sess name word eol attrs types as (eat \<or> eats_hexchat ret) st)
      else run_snapshot call sess name word eol attrs types as eat st)"

text \<open>Callbacks that may unhook, but add no hook and send no event.\<close>

definition unhook_these :: "nat list \<Rightarrow> plugins \<Rightarrow> plugins" where
  "unhook_these = fold (\<lambda>a st. fst (hexchat_unhook a st))"

definition only_unhooks :: "callback \<Rightarrow> bool" where
  "only_unhooks call \<longleftrightarrow> (\<forall>h args s. \<exists>as r. call h args s = Some (unhook_these as s, r))"

lemma unhook_these_steps: "plug_step\<^sup>*\<^sup>* st (unhook_these as st)"
  unfolding unhook_these_def
proof (induction as arbitrary: st)
  case Nil
  then show ?case by simp
next
  case (Cons a as)
  have "plug_step st (fst (hexchat_unhook a st))" by (rule plug_step.unhook)
  with Cons [of "fst (hexchat_unhook a st)"] show ?case
    by (simp add: converse_rtranclp_into_rtranclp)
qed

lemma unhook_these_list [simp]: "hook_list (unhook_these as st) = hook_list st"
  unfolding unhook_these_def by (induction as arbitrary: st) simp_all

lemma only_unhooks_plain: "only_unhooks call \<Longrightarrow> plain_calls call"
  unfolding only_unhooks_def plain_calls_def using unhook_these_steps by (metis option.inject prod.inject)

lemma unhook_call:
  assumes "only_unhooks call" "plug_inv st" "a \<in> set (hook_list st)" "\<not> hook_deleted st a"
  obtains s r where "call_hook call sess word eol attrs a st = Some (s, r)" "plug_inv s" "hook_list s = hook_list st"
proof -
  have "hk_pl (hook_at st a) \<in> pg_addr ` set (plugin_list st)"
    using assms by (auto simp: plug_inv_def hooks_ok_def hook_ok_def)
  then obtain s1 where s1: "set_context (hk_pl (hook_at st a)) sess st = Some s1" "hook_list s1 = hook_list st"
    by (simp add: set_context_def)
  obtain as r where r: "call (hook_at st a) (hook_args (hk_type (hook_at st a)) word eol attrs) s1 = Some (unhook_these as s1, r)"
    using assms(1) unfolding only_unhooks_def by blast
  have c: "call_hook call sess word eol attrs a st = Some (unhook_these as s1, r)"
    by (simp add: call_hook_def Let_def s1 r)
  from call_hook_steps [OF only_unhooks_plain [OF assms(1)] c] steps_keep assms(2)
  have "plug_inv (unhook_these as s1)" by blast
  with c s1(2) that show thesis by simp
qed

lemma hook_find_eq:
  "\<forall>a \<in> set xs. named_type (hk_type (hook_at st a)) \<longrightarrow> hk_name (hook_at st a) \<noteq> None \<Longrightarrow>
   \<forall>t \<in> set types. named_type t \<Longrightarrow>
   plugin_hook_find (hook_at st) types name xs = Some (dropWhile (\<lambda>a. \<not> event_hook st types name a) xs)"
  by (induction xs) (auto simp: event_hook_def split: option.split)

lemma snapshot_skip:
  "run_snapshot call sess name word eol attrs types (dropWhile (\<lambda>a. \<not> event_hook st types name a) xs) eat st =
   run_snapshot call sess name word eol attrs types xs eat st"
  by (induction xs) simp_all

lemma dropWhile_distinct: "distinct (pre @ n # xs) \<Longrightarrow> dropWhile (\<lambda>b. b \<noteq> n) (pre @ n # xs) = n # xs"
  by (induction pre) auto

lemma hook_loop_snapshot:
  assumes "only_unhooks call" "\<forall>t \<in> set types. named_type t"
  shows "plug_inv st \<Longrightarrow> hook_list st = pre @ xs \<Longrightarrow>
    hook_loop call sess name word eol attrs types (node_behind xs) eat st =
      run_snapshot call sess name word eol attrs types xs eat st \<and>
    run_snapshot call sess name word eol attrs types xs eat st \<noteq> None"
proof (induction "length xs" arbitrary: pre xs st eat rule: less_induct)
  case less
  show ?case
  proof (cases xs)
    case Nil
    then show ?thesis by (simp add: hook_loop.simps [of _ _ _ _ _ _ _ None] node_behind_def)
  next
    case (Cons n ns)
    let ?ys = "dropWhile (\<lambda>a. \<not> event_hook st types name a) xs"
    have names: "\<forall>a \<in> set (hook_list st). named_type (hk_type (hook_at st a)) \<longrightarrow> hk_name (hook_at st a) \<noteq> None"
      and dist: "distinct (hook_list st)"
      using less.prems(1) by (auto simp: plug_inv_def hooks_ok_def hook_ok_def)
    have "dropWhile (\<lambda>b. b \<noteq> n) (hook_list st) = xs"
      using less.prems(2) dist Cons by (simp add: dropWhile_distinct)
    moreover have "plugin_hook_find (hook_at st) types name xs = Some ?ys"
      using names assms(2) less.prems(2) by (intro hook_find_eq) auto
    ultimately have loop: "hook_loop call sess name word eol attrs types (node_behind xs) eat st =
        (case ?ys of [] \<Rightarrow> Some (st, eat)
         | a # rest \<Rightarrow>
             Option.bind (call_hook call sess word eol attrs a st)
              (\<lambda>(st, ret). if eats_hexchat ret \<and> eats_plugin ret then Some (st, True)
                 else if eats_plugin ret then Some (st, eat)
                 else hook_loop call sess name word eol attrs types (node_behind rest) (eat \<or> eats_hexchat ret) st))"
      using Cons less.prems(2) by (simp add: hook_loop.simps [of _ _ _ _ _ _ _ "Some n"] node_behind_def)
    note skip = snapshot_skip [of call sess name word eol attrs types st xs eat, symmetric]
    show ?thesis
    proof (cases ?ys)
      case Nil
      show ?thesis unfolding loop skip unfolding Nil by simp
    next
      case (Cons a rest)
      have "a \<in> set xs" using Cons by (metis list.set_intros(1) set_dropWhileD)
      then have mem: "a \<in> set (hook_list st)" using less.prems(2) by simp
      have ev: "event_hook st types name a" using Cons by (metis dropWhile_eq_Cons_conv)
      then have "\<not> hook_deleted st a"
        using assms(2) by (auto simp: event_hook_def hook_deleted_def named_type_def)
      then obtain s r where c: "call_hook call sess word eol attrs a st = Some (s, r)" "plug_inv s"
        "hook_list s = hook_list st"
        by (rule unhook_call [OF assms(1) less.prems(1) mem])
      have split: "xs = takeWhile (\<lambda>a. \<not> event_hook st types name a) xs @ [a] @ rest"
        using Cons takeWhile_dropWhile_id [of "\<lambda>a. \<not> event_hook st types name a" xs] by simp
      then have "length rest < length xs"
        by (metis Cons length_Cons length_dropWhile_le less_eq_Suc_le)
      from less.hyps [OF this c(2), of "pre @ takeWhile (\<lambda>a. \<not> event_hook st types name a) xs @ [a]"
          "eat \<or> eats_hexchat r"]
      have "hook_loop call sess name word eol attrs types (node_behind rest) (eat \<or> eats_hexchat r) s =
          run_snapshot call sess name word eol attrs types rest (eat \<or> eats_hexchat r) s \<and>
        run_snapshot call sess name word eol attrs types rest (eat \<or> eats_hexchat r) s \<noteq> None"
        using c(3) less.prems(2) split by simp
      then show ?thesis
        unfolding loop skip unfolding Cons using ev c(1) by auto
    qed
  qed
qed

lemma hooks_sorted:
  assumes "hooks_ordered st" "\<forall>t \<in> set types. \<forall>u \<in> set types. ordered_class t u"
  shows "sorted (map (\<lambda>a. - hk_pri (hook_at st a)) (filter (\<lambda>a. hk_type (hook_at st a) \<in> set types) (hook_list st)))"
proof -
  let ?xs = "filter (\<lambda>a. hk_type (hook_at st a) \<in> set types) (hook_list st)"
  have "sorted_wrt (\<lambda>a b. runs_before (hook_at st a) (hook_at st b)) ?xs"
    using assms(1) by (simp add: hooks_ordered_def sorted_wrt_map sorted_wrt_filter)
  then have "sorted_wrt (\<lambda>a b. - hk_pri (hook_at st a) \<le> - hk_pri (hook_at st b)) ?xs"
    by (rule sorted_wrt_mono_rel [rotated]) (use assms(2) in \<open>auto simp: runs_before_def\<close>)
  then show ?thesis by (simp add: sorted_map)
qed

lemma hook_run_steps:
  assumes "plain_calls call" "plugin_hook_run call sess name word eol attrs types st = Some (st', eat)"
  shows "plug_step\<^sup>*\<^sup>* st st'"
proof -
  from assms(2) obtain s where s: "hook_loop call sess name word eol attrs types (node_behind (hook_list st)) False st = Some (s, eat)"
    and st': "st' = remove_deleted s"
    by (auto simp: plugin_hook_run_def)
  from hook_loop_steps [OF s] assms(1) have "plug_step\<^sup>*\<^sup>* st s" by simp
  also have "plug_step s st'" unfolding st' by (rule xit)
  finally show ?thesis .
qed

lemma callback_done_steps:
  assumes "plug_inv st"
  shows "plug_inv (fst (callback_done a ret st))"
proof (cases "a \<notin> set (hook_list st) \<or> hook_deleted st a \<or> ret \<noteq> 0")
  case True
  then show ?thesis using assms by (auto simp: callback_done_def)
next
  case False
  let ?s = "set_hook a ((hook_at st a)\<lparr>hk_tag := 0\<rparr>) st"
  have "runs_before (h\<lparr>hk_tag := n\<rparr>) k = runs_before h k" "runs_before h (k\<lparr>hk_tag := n\<rparr>) = runs_before h k"
    for h k :: hook and n by (simp_all add: runs_before_def)
  then have "hooks_ordered ?s"
    using assms by (auto simp: plug_inv_def hooks_ordered_def sorted_wrt_map elim!: sorted_wrt_mono_rel [rotated])
  then have "plug_inv ?s"
    using assms False by (auto simp: plug_inv_def hooks_ok_def hook_ok_def hook_deleted_def)
  then show ?thesis using False by (simp add: callback_done_def inv_unhook)
qed

lemma plugin_free_inv:
  assumes "plug_inv st" "plugin_free deinit pl do_deinit allow_refuse st = Some (st', ok)"
    and "\<And>s r. deinit pl st = Some (s, r) \<Longrightarrow> plug_step\<^sup>*\<^sup>* st s"
    and "\<not> pg_fake pl"
  shows "plug_inv st'"
proof -
  from assms(2,4) obtain s r where s: "(if do_deinit \<and> pg_deinit pl then deinit pl st else Some (st, True)) = Some (s, r)"
    "st' = s \<or> st' = plugin_unlink (pg_addr pl) (unhook_all (pg_addr pl) s)"
    by (auto simp: plugin_free_def split: bind_splits if_splits)
  then have "plug_inv s" using assms(1,3) steps_keep by (auto split: if_splits)
  then show ?thesis using s(2) inv_unload by auto
qed

subsection \<open>The properties\<close>

text \<open>C34: Whatever plugins do in the callbacks of an event through the interface for hooks, after the
  event the list of hooks is in order: among the commands and among the text events a hook of a
  higher priority stands before one of a lower; every hook is allocated, listed once, and belongs
  to a loaded plugin, and none that was removed is left.
\<close>

theorem hook_order_kept:
  assumes "plug_step\<^sup>*\<^sup>* plugins_init st" "plain_calls call"
    and "plugin_hook_run call sess name word eol attrs types st = Some (st', eat)"
  shows "hooks_ordered st' \<and> hooks_ok st' \<and> (\<forall>a \<in> set (hook_list st'). \<not> hook_deleted st' a)"
proof -
  have "plug_inv st'"
    using hook_run_steps [OF assms(2,3)] assms(1) inv_init steps_keep by blast
  moreover have "\<not> hook_deleted st' a" if "a \<in> set (hook_list st')" for a
    using that assms(3) by (auto simp: plugin_hook_run_def remove_deleted_def hook_deleted_def hook_at_def)
  ultimately show ?thesis by (simp add: plug_inv_def)
qed

definition demo_plugin :: plugins where
  "demo_plugin = fst (plugin_list_add 0 None ''demo'' False False plugins_init)"

definition demo_prints :: plugins where
  "demo_prints = fst (hexchat_hook_print 0 ''Join'' 64 2 0
     (fst (hexchat_hook_print_attrs 0 ''Part'' 0 1 0 (fst (hexchat_hook_print 0 ''Join'' 0 0 0 demo_plugin)))))"

text \<open>The callback of the first hook to run takes away the hook with address 0.\<close>

definition demo_callback :: callback where
  "demo_callback h args st = Some (unhook_these (if hk_callback h = 2 then [0] else []) st, 1)"

lemmas demo_plugin_defs = demo_plugin_def demo_prints_def plugin_list_add_def plugins_init_def
  hexchat_hook_print_def hexchat_hook_print_attrs_def hexchat_hook_server_def hexchat_hook_server_attrs_def
  hexchat_hook_command_def plugin_add_hook_def Let_def set_hook_def plugin_insert_hook_def hook_at_def

lemma demo_callback_unhooks: "only_unhooks demo_callback"
  unfolding only_unhooks_def demo_callback_def by blast

lemma demo_prints_reach: "plug_step\<^sup>*\<^sup>* plugins_init demo_prints"
proof -
  have 1: "plug_step plugins_init demo_plugin" unfolding demo_plugin_def by (rule new_plugin)
  have h: "plug_step s (fst (hexchat_hook_print 0 n pri cb d s))"
    "plug_step s (fst (hexchat_hook_print_attrs 0 n pri cb d s))" if "0 \<in> pg_addr ` set (plugin_list s)" for s n pri cb d
    using that unfolding hexchat_hook_print_def hexchat_hook_print_attrs_def
    by (intro add_hook; simp add: named_type_def)+
  let ?a = "fst (hexchat_hook_print 0 ''Join'' 0 0 0 demo_plugin)"
  let ?b = "fst (hexchat_hook_print_attrs 0 ''Part'' 0 1 0 ?a)"
  have "plug_step demo_plugin ?a" by (rule h) (simp add: demo_plugin_defs)
  moreover have "plug_step ?a ?b" by (rule h) (simp add: demo_plugin_defs)
  moreover have "plug_step ?b demo_prints" unfolding demo_prints_def by (rule h) (simp add: demo_plugin_defs)
  ultimately show ?thesis using 1 by (meson rtranclp.rtrancl_into_rtrancl rtranclp.rtrancl_refl)
qed

lemma demo_run_eq:
  "plugin_emit_print demo_callback 5 [''join'', ''bob''] 0 demo_prints =
     map_option (\<lambda>(st, eat). (remove_deleted st, eat))
       (run_snapshot demo_callback 5 ''join'' [''join'', ''bob''] [] (Some 0) [HOOK_PRINT, HOOK_PRINT_ATTRS] [2, 1, 0] False demo_prints)"
proof -
  have "plug_inv demo_prints" using demo_prints_reach inv_init steps_keep by blast
  moreover have "hook_list demo_prints = [] @ [2, 1, 0]" by (simp add: demo_plugin_defs)
  ultimately show ?thesis
    using hook_loop_snapshot [OF demo_callback_unhooks, of "[HOOK_PRINT, HOOK_PRINT_ATTRS]" demo_prints "[]" "[2, 1, 0]"]
    by (simp add: plugin_emit_print_def plugin_hook_run_def named_type_def)
qed

lemma demo_snapshot:
  "map_option (\<lambda>(st, eat). (hook_list (remove_deleted st), eat))
     (run_snapshot demo_callback 5 ''join'' [''join'', ''bob''] [] (Some 0) [HOOK_PRINT, HOOK_PRINT_ATTRS] [2, 1, 0] False demo_prints)
   = Some ([2, 1], True)"
  by (simp add: demo_plugin_defs event_hook_def call_hook_def set_context_def demo_callback_def unhook_these_def
      hexchat_unhook_def eats_plugin_def eats_hexchat_def remove_deleted_def hook_deleted_def ascii_tolower_def uchar_def)

lemma hook_order_kept_witness:
  "\<exists>st. plugin_emit_print demo_callback 5 [''join'', ''bob''] 0 demo_prints = Some (st, True) \<and>
     hook_list st = [2, 1] \<and> hooks_ordered st"
proof -
  obtain st where st: "plugin_emit_print demo_callback 5 [''join'', ''bob''] 0 demo_prints = Some (st, True)"
    "hook_list st = [2, 1]"
    using demo_snapshot unfolding demo_run_eq by auto
  from st(1) have "plugin_hook_run demo_callback 5 ''join'' [''join'', ''bob''] [] (Some 0)
      [HOOK_PRINT, HOOK_PRINT_ATTRS] demo_prints = Some (st, True)"
    by (simp add: plugin_emit_print_def)
  from hook_order_kept [OF demo_prints_reach only_unhooks_plain [OF demo_callback_unhooks] this] st
  show ?thesis by blast
qed

text \<open>C35: When the callbacks of an event only remove hooks, and send no event of their own, the run
  ends, uses no freed memory, and is one pass over the list as it was: each hook for the event
  is called once unless it was removed before its turn, until one eats the event for the other
  plugins, and the event is eaten when one of them says so. For commands and text events the
  pass goes from the highest priority to the lowest.
\<close>

theorem hook_run_correct:
  assumes "plug_step\<^sup>*\<^sup>* plugins_init st" "only_unhooks call" "list_all named_type types"
  shows "\<exists>st' eat.
    run_snapshot call sess name word eol attrs types (hook_list st) False st = Some (st', eat) \<and>
    plugin_hook_run call sess name word eol attrs types st = Some (remove_deleted st', eat) \<and>
    (types \<in> {[HOOK_COMMAND], [HOOK_PRINT], [HOOK_PRINT, HOOK_PRINT_ATTRS]} \<longrightarrow>
     sorted (map (\<lambda>a. - hk_pri (hook_at st a)) (filter (\<lambda>a. hk_type (hook_at st a) \<in> set types) (hook_list st))))"
proof -
  have inv: "plug_inv st" using assms(1) inv_init steps_keep by blast
  have "\<forall>t \<in> set types. named_type t" using assms(3) by (simp add: list_all_iff)
  from hook_loop_snapshot [OF assms(2) this inv, of "[]" "hook_list st" sess name word eol attrs False]
  obtain st' eat where "run_snapshot call sess name word eol attrs types (hook_list st) False st = Some (st', eat)"
    "plugin_hook_run call sess name word eol attrs types st = Some (remove_deleted st', eat)"
    by (auto simp: plugin_hook_run_def)
  moreover have "sorted (map (\<lambda>a. - hk_pri (hook_at st a)) (filter (\<lambda>a. hk_type (hook_at st a) \<in> set types) (hook_list st)))"
    if "types \<in> {[HOOK_COMMAND], [HOOK_PRINT], [HOOK_PRINT, HOOK_PRINT_ATTRS]}"
    using that inv by (intro hooks_sorted) (auto simp: plug_inv_def ordered_class_def)
  ultimately show ?thesis by blast
qed

lemma hook_run_correct_witness:
  "map_option (\<lambda>(st, eat). (hook_list st, eat))
     (plugin_hook_run demo_callback 5 ''join'' [''join'', ''bob''] [] (Some 0) [HOOK_PRINT, HOOK_PRINT_ATTRS] demo_prints)
   = Some ([2, 1], True)"
proof -
  have l: "hook_list demo_prints = [2, 1, 0]" by (simp add: demo_plugin_defs)
  show ?thesis
    using hook_run_correct [OF demo_prints_reach demo_callback_unhooks, of "[HOOK_PRINT, HOOK_PRINT_ATTRS]" 5 "''join''"
        "[''join'', ''bob'']" "[]" "Some 0"] demo_snapshot
    unfolding l by (auto simp: named_type_def)
qed

subsection \<open>Where it goes wrong\<close>

text \<open>
  A hook on the lines of a server is ordered among \<open>HOOK_PRINT_ATTRS\<close> instead of
  \<open>HOOK_SERVER_ATTRS\<close>: here the one of the highest priority runs last.
\<close>

lemma server_hooks_unordered:
  "let st = fst (hexchat_hook_server 0 ''PRIVMSG'' 127 1 0 (fst (hexchat_hook_server_attrs 0 ''PRIVMSG'' (-128) 0 0 demo_plugin)))
   in map (\<lambda>a. (hk_type (hook_at st a), hk_pri (hook_at st a))) (hook_list st) =
        [(HOOK_SERVER_ATTRS, -128), (HOOK_SERVER, 127)]"
  by (simp add: demo_plugin_defs)

text \<open>
  A callback that unhooks the next hook and then runs a command (or prints a text) frees the node
  the outer loop goes on with.
\<close>

definition demo_commands :: plugins where
  "demo_commands = fst (hexchat_hook_command 0 ''foo'' 64 2 None 0 (fst (hexchat_hook_command 0 ''foo'' 0 1 None 0 demo_plugin)))"

definition nested_callback :: callback where
  "nested_callback h args st =
     (if hk_callback h = 2
      then map_option (\<lambda>(st, eat). (st, 0))
             (plugin_emit_command (\<lambda>h args st. Some (st, 0)) 0 ''bar'' [] [] (fst (hexchat_unhook 0 st)))
      else Some (st, 0))"

lemma nested_run_use_after_free:
  "plugin_emit_command nested_callback 0 ''foo'' [''foo''] [''foo''] demo_commands = None"
proof -
  note [simp] = plugin_emit_command_def plugin_hook_run_def node_behind_def call_hook_def set_context_def
    eats_plugin_def eats_hexchat_def hexchat_unhook_def demo_commands_def demo_plugin_defs ascii_tolower_def uchar_def
    remove_deleted_def hook_deleted_def
  show ?thesis
    by (simp add: hook_loop.simps [of _ _ _ _ _ _ _ "Some (Suc 0)"] hook_loop.simps [of _ _ _ _ _ _ _ "Some 0"]
        nested_callback_def)
qed

subsection \<open>Contexts\<close>

text \<open>The sessions with the name, by server and then in the order of \<open>sess_list\<close>.\<close>

definition named_sessions :: "string option \<Rightarrow> string \<Rightarrow> ctx_server list \<Rightarrow> ctx_session list \<Rightarrow> ctx_session list" where
  "named_sessions servname chan servs sess_list =
     concat (map (\<lambda>serv. filter (\<lambda>s. cx_server s = cs_addr serv \<and> rfc_casecmp chan (cx_channel s) = 0) sess_list)
       (filter (server_named servname) servs))"

definition preferred :: "nat option \<Rightarrow> ctx_session list \<Rightarrow> nat option" where
  "preferred current_server ss =
     (case find (\<lambda>s. Some (cx_server s) = current_server) ss of
        Some s \<Rightarrow> Some (cx_addr s)
      | None \<Rightarrow> (case ss of [] \<Rightarrow> None | s # _ \<Rightarrow> Some (cx_addr s)))"

lemma find_on_server_eq:
  "find_on_server chan serv cur_serv sess_list acc =
     (let ss = filter (\<lambda>s. cx_server s = serv \<and> rfc_casecmp chan (cx_channel s) = 0) sess_list in
      case find (\<lambda>s. Some (cx_server s) = cur_serv) ss of
        Some s \<Rightarrow> Inl (cx_addr s)
      | None \<Rightarrow> Inr (rev (map cx_addr ss) @ acc))"
  by (induction sess_list arbitrary: acc) (auto simp: Let_def split: option.splits)

lemma find_append: "find P (xs @ ys) = (case find P xs of Some x \<Rightarrow> Some x | None \<Rightarrow> find P ys)"
  by (induction xs) auto

lemma find_context_loop_eq:
  "find_context_loop servname (Some chan) cur_serv sess_list servs acc =
     (let ss = named_sessions servname chan servs sess_list in
      case find (\<lambda>s. Some (cx_server s) = cur_serv) ss of
        Some s \<Rightarrow> Some (cx_addr s)
      | None \<Rightarrow> (case rev acc @ map cx_addr ss of [] \<Rightarrow> None | s # _ \<Rightarrow> Some s))"
proof (induction servs arbitrary: acc)
  case Nil
  then show ?case by (simp add: named_sessions_def)
next
  case (Cons serv servs)
  then show ?case
    by (auto simp: named_sessions_def find_on_server_eq find_append Let_def split: option.splits)
qed

text \<open>Looking a context up by the name of a channel answers the session of that name on the server
  of the caller if there is one, else the first one in the order of the servers and the sessions,
  and none exactly when no session on a server of the given name has it.
\<close>

theorem find_context_correct:
  "plugin_find_context current_sess serv_list sess_list servname (Some chan) current_server =
     preferred current_server (named_sessions servname chan serv_list sess_list)"
  by (simp add: plugin_find_context_def find_context_loop_eq preferred_def Let_def split: option.split list.split)

end
