(* ===== verification/PluginTimer.thy ===== *)
theory PluginTimer
  imports PluginProofs Complex_Main
begin

text \<open>
  The \<open>/TIMER\<close> command, \<open>src/common/plugin-timer.c\<close>: a plugin that is part of the program, over the
  hooks of \<open>Plugin\<close>. A timer is a heap object with an address. The command of a timer is run by
  a parameter, which may do anything to the state; \<open>None\<close> is the use of a freed timer.
  \<open>g_ascii_strtod\<close> is a parameter too. The context of the plugin, which a timeout sets before its
  command, is not kept.
\<close>

record timer =
  tim_addr :: nat
  tim_hook :: nat
  tim_context :: nat
  tim_command :: string
  tim_ref :: int
  tim_repeat :: int
  tim_timeout :: int
  tim_forever :: bool

record timers =
  tm_plugins :: plugins
  timer_list :: "timer list"
  timer_next :: nat

definition on_plugins :: "(plugins \<Rightarrow> plugins) \<Rightarrow> timers \<Rightarrow> timers" where
  "on_plugins f st = st\<lparr>tm_plugins := f (tm_plugins st)\<rparr>"

definition timer_print :: "string \<Rightarrow> string list \<Rightarrow> timers \<Rightarrow> timers" where
  "timer_print msg args = on_plugins (plugin_call ''hexchat_printf'' (msg # args))"

definition timer_del :: "timer \<Rightarrow> timers \<Rightarrow> timers" where
  "timer_del tim st =
     on_plugins (\<lambda>p. fst (hexchat_unhook (tim_hook tim) p))
       (st\<lparr>timer_list := filter (\<lambda>t. tim_addr t \<noteq> tim_addr tim) (timer_list st)\<rparr>)"

definition timer_del_ref :: "int \<Rightarrow> bool \<Rightarrow> timers \<Rightarrow> timers" where
  "timer_del_ref ref quiet st =
     (case find (\<lambda>t. tim_ref t = ref) (timer_list st) of
        Some tim \<Rightarrow> (if quiet then timer_del tim st else timer_print ''Timer %d deleted.'' [] (timer_del tim st))
      | None \<Rightarrow> (if quiet then st else timer_print ''No such ref number found.'' [] st))"

text \<open>
  \<open>timeout_cb\<close>: \<open>is_context\<close> says whether \<open>hexchat_set_context\<close> accepts the context, \<open>cmd\<close> is
  \<open>hexchat_command\<close>. The timer is read again after its command.
\<close>

definition set_timer :: "timer \<Rightarrow> timers \<Rightarrow> timers" where
  "set_timer tim st = st\<lparr>timer_list := map (\<lambda>t. if tim_addr t = tim_addr tim then tim else t) (timer_list st)\<rparr>"

definition timer_at :: "nat \<Rightarrow> timers \<Rightarrow> timer option" where
  "timer_at a st = find (\<lambda>t. tim_addr t = a) (timer_list st)"

definition timeout_cb ::
    "(nat \<Rightarrow> timers \<Rightarrow> bool) \<Rightarrow> (string \<Rightarrow> timers \<Rightarrow> timers option) \<Rightarrow> nat \<Rightarrow> timers \<Rightarrow> (timers \<times> nat) option" where
  "timeout_cb is_context cmd a st =
     (case timer_at a st of
        None \<Rightarrow> None
      | Some tim \<Rightarrow>
          if is_context (tim_context tim) st then
            Option.bind (cmd (tim_command tim) st)
             (\<lambda>st. case timer_at a st of
                None \<Rightarrow> None
              | Some tim \<Rightarrow>
                  if tim_forever tim then Some (st, 1)
                  else
                    let tim = tim\<lparr>tim_repeat := tim_repeat tim - 1\<rparr>; st = set_timer tim st
                    in if 0 < tim_repeat tim then Some (st, 1) else Some (timer_del tim st, 0))
          else Some (timer_del tim st, 0))"

text \<open>A timeout of the hook of a timer: \<open>plugin_timeout_cb\<close> with this callback.\<close>

definition timer_fires ::
    "(nat \<Rightarrow> timers \<Rightarrow> bool) \<Rightarrow> (string \<Rightarrow> timers \<Rightarrow> timers option) \<Rightarrow> nat \<Rightarrow> nat \<Rightarrow> timers \<Rightarrow> (timers \<times> nat) option" where
  "timer_fires is_context cmd h a st =
     map_option (\<lambda>(st, ret). let (p, r) = callback_done h ret (tm_plugins st) in (st\<lparr>tm_plugins := p\<rparr>, r))
       (timeout_cb is_context cmd a st)"

text \<open>\<open>context\<close> is that of the plugin, \<open>tag\<close> the answer of \<open>fe_timeout_add\<close>.\<close>

fun next_ref :: "int \<Rightarrow> timer list \<Rightarrow> int" where
  "next_ref ref [] = ref"
| "next_ref ref (tim # list) = next_ref (if tim_ref tim \<ge> ref then tim_ref tim + 1 else ref) list"

definition timer_add ::
    "nat \<Rightarrow> nat \<Rightarrow> nat \<Rightarrow> int \<Rightarrow> int \<Rightarrow> int \<Rightarrow> string \<Rightarrow> timers \<Rightarrow> timers" where
  "timer_add ph ctx tag ref timeout repeat command st =
     (let ref = (if ref = 0 then next_ref 1 (timer_list st) else ref);
          a = timer_next st;
          (p, h) = hexchat_hook_timer ph tag 0 a (plugin_call ''fe_timeout_add'' [] (tm_plugins st));
          tim = \<lparr>tim_addr = a, tim_hook = h, tim_context = ctx, tim_command = command, tim_ref = ref,
                 tim_repeat = repeat, tim_timeout = timeout, tim_forever = (repeat = 0)\<rparr>
      in st\<lparr>tm_plugins := p, timer_list := timer_list st @ [tim], timer_next := a + 1\<rparr>)"

definition timer_showlist :: "timers \<Rightarrow> timers" where
  "timer_showlist st =
     (if timer_list st = [] then timer_print ''HELP'' [] (timer_print ''No timers installed.'' [] st)
      else fold (\<lambda>tim. timer_print ''%5d %8.1f %7d  %s'' [tim_command tim]) (timer_list st)
             (timer_print ''Ref#  Seconds  Repeat  Command'' [] st))"

text \<open>\<open>(int) timeout * 1000\<close>: the cast binds tighter.\<close>

definition milliseconds :: "rat \<Rightarrow> int" where
  "milliseconds timeout = \<lfloor>timeout\<rfloor> * 1000"

definition INT_MAX :: int where "INT_MAX = 2147483647"

text \<open>Word arrays are functions from the index, with empty words behind the last.\<close>

definition timer_cb ::
    "(string \<Rightarrow> rat) \<Rightarrow> nat \<Rightarrow> nat \<Rightarrow> nat \<Rightarrow> (nat \<Rightarrow> string) \<Rightarrow> (nat \<Rightarrow> string) \<Rightarrow> timers \<Rightarrow> timers" where
  "timer_cb strtod ph ctx tag word word_eol st =
     (if word 2 = [] then timer_showlist st
      else
        let quiet = (g_ascii_strcasecmp (word 2) ''-quiet'' = 0);
            off = (if quiet then 1 else 0)
        in if g_ascii_strcasecmp (word (2 + off)) ''-delete'' = 0
           then timer_del_ref (atoi (word (3 + off))) quiet st
           else
             let (ref, off) = (if g_ascii_strcasecmp (word (2 + off)) ''-refnum'' = 0
                               then (atoi (word (3 + off)), off + 2) else (0, off));
                 (repeat, off) = (if g_ascii_strcasecmp (word (2 + off)) ''-repeat'' = 0
                                  then (atoi (word (3 + off)), off + 2) else (1, off));
                 timeout = strtod (word (2 + off));
                 command = word_eol (3 + off)
             in if timeout < 1 / 10 \<or> timeout * 1000 > of_int INT_MAX \<or> command = []
                then timer_print ''HELP'' [] st
                else timer_add ph ctx tag ref (milliseconds timeout) repeat command st)"

subsection \<open>How often a timer runs\<close>

fun fire_times ::
    "(nat \<Rightarrow> timers \<Rightarrow> bool) \<Rightarrow> (string \<Rightarrow> timers \<Rightarrow> timers option) \<Rightarrow> nat \<Rightarrow> nat \<Rightarrow> nat \<Rightarrow> timers \<Rightarrow> (timers \<times> nat list) option" where
  "fire_times is_context cmd h a 0 st = Some (st, [])"
| "fire_times is_context cmd h a (Suc n) st =
     (case timer_fires is_context cmd h a st of
        None \<Rightarrow> None
      | Some (st, r) \<Rightarrow>
          if r = 0 then Some (st, [0])
          else map_option (\<lambda>(st, rs). (st, r # rs)) (fire_times is_context cmd h a n st))"

text \<open>A command that leaves the timers and their hooks alone.\<close>

definition spares_timers :: "(string \<Rightarrow> timers \<Rightarrow> timers option) \<Rightarrow> bool" where
  "spares_timers cmd \<longleftrightarrow>
     (\<forall>c st. \<exists>st'. cmd c st = Some st' \<and> timer_list st' = timer_list st \<and>
        hook_list (tm_plugins st') = hook_list (tm_plugins st) \<and> hook_mem (tm_plugins st') = hook_mem (tm_plugins st))"

text \<open>A window that is never closed.\<close>

definition stays_open :: "(nat \<Rightarrow> timers \<Rightarrow> bool) \<Rightarrow> nat \<Rightarrow> bool" where
  "stays_open is_context ctx \<longleftrightarrow> (\<forall>st. is_context ctx st)"

definition timer_hooked :: "timers \<Rightarrow> timer \<Rightarrow> bool" where
  "timer_hooked st tim \<longleftrightarrow>
     tim_hook tim \<in> set (hook_list (tm_plugins st)) \<and> \<not> hook_deleted (tm_plugins st) (tim_hook tim) \<and>
     timer_at (tim_addr tim) st = Some tim"

lemma find_map_upd:
  "find (\<lambda>t. tim_addr t = a) xs = Some t \<Longrightarrow> tim_addr t' = a \<Longrightarrow>
   find (\<lambda>t. tim_addr t = a) (map (\<lambda>t. if tim_addr t = a then t' else t) xs) = Some t'"
  by (induction xs) (auto split: if_splits)

lemma find_addr: "find (\<lambda>t. tim_addr t = a) xs = Some t \<Longrightarrow> tim_addr t = a"
  by (induction xs) (auto split: if_splits)

lemma find_filtered: "find (\<lambda>t. tim_addr t = a) (filter (\<lambda>t. tim_addr t \<noteq> a) xs) = None"
  by (induction xs) auto

lemma hook_deleted_cong: "hook_mem p' = hook_mem p \<Longrightarrow> hook_deleted p' a = hook_deleted p a"
  unfolding hook_deleted_def using hook_at_cong [of p' p] by simp

lemma fires_on:
  assumes cmd: "spares_timers cmd" and ctx: "stays_open is_context (tim_context tim)" and h: "timer_hooked st tim"
    and go: "\<not> tim_forever tim"
  shows "\<exists>st'. timer_fires is_context cmd (tim_hook tim) (tim_addr tim) st =
      Some (st', if 1 < tim_repeat tim then 1 else 0) \<and>
    (if 1 < tim_repeat tim then timer_hooked st' (tim\<lparr>tim_repeat := tim_repeat tim - 1\<rparr>)
     else timer_at (tim_addr tim) st' = None \<and> hook_deleted (tm_plugins st') (tim_hook tim))"
proof -
  obtain s1 where s1: "cmd (tim_command tim) st = Some s1" "timer_list s1 = timer_list st"
    "hook_list (tm_plugins s1) = hook_list (tm_plugins st)" "hook_mem (tm_plugins s1) = hook_mem (tm_plugins st)"
    using cmd unfolding spares_timers_def by blast
  have at: "timer_at (tim_addr tim) s1 = Some tim"
    using h s1(2) by (simp add: timer_hooked_def timer_at_def)
  let ?t = "tim\<lparr>tim_repeat := tim_repeat tim - 1\<rparr>"
  let ?s = "set_timer ?t s1"
  have del: "\<not> hook_deleted (tm_plugins s1) (tim_hook tim)" "tim_hook tim \<in> set (hook_list (tm_plugins s1))"
    using h s1(3,4) by (simp_all add: timer_hooked_def hook_deleted_cong [OF s1(4)])
  have cb: "timeout_cb is_context cmd (tim_addr tim) st =
      (if 1 < tim_repeat tim then Some (?s, 1) else Some (timer_del ?t ?s, 0))"
    using h ctx go s1(1) at by (simp add: timeout_cb_def stays_open_def timer_hooked_def Let_def)
  show ?thesis
  proof (cases "1 < tim_repeat tim")
    case True
    have "timer_at (tim_addr tim) ?s = Some ?t"
      using at find_map_upd [of "tim_addr tim" "timer_list s1" tim ?t] by (simp add: timer_at_def set_timer_def)
    then show ?thesis
      using True cb del by (simp add: timer_fires_def callback_done_def timer_hooked_def set_timer_def Let_def)
  next
    case False
    have "hook_deleted (fst (hexchat_unhook (tim_hook tim) (tm_plugins s1))) (tim_hook tim)"
      using del by (simp add: hook_deleted_def unhook_at gone_def)
    moreover have "timer_at (tim_addr tim) (timer_del ?t ?s) = None"
      by (simp add: timer_at_def timer_del_def on_plugins_def find_filtered)
    ultimately show ?thesis
      using False cb
      by (simp add: timer_fires_def callback_done_def timer_del_def on_plugins_def set_timer_def Let_def timer_at_def)
  qed
qed

lemma fire_times_repeat:
  assumes "spares_timers cmd" "stays_open is_context (tim_context tim)"
  shows "timer_hooked st tim \<Longrightarrow> \<not> tim_forever tim \<Longrightarrow> tim_repeat tim = int (Suc n) \<Longrightarrow> n < m \<Longrightarrow>
    \<exists>st'. fire_times is_context cmd (tim_hook tim) (tim_addr tim) m st = Some (st', replicate n 1 @ [0]) \<and>
      timer_at (tim_addr tim) st' = None \<and> hook_deleted (tm_plugins st') (tim_hook tim)"
  using assms
proof (induction n arbitrary: tim st m)
  case 0
  then show ?case using fires_on [of cmd is_context tim st] by (cases m) auto
next
  case (Suc n)
  obtain k where m: "m = Suc k" "n < k" using Suc.prems(4) by (cases m) auto
  let ?t = "tim\<lparr>tim_repeat := tim_repeat tim - 1\<rparr>"
  obtain s1 where s1: "timer_fires is_context cmd (tim_hook tim) (tim_addr tim) st = Some (s1, 1)" "timer_hooked s1 ?t"
    using fires_on [OF Suc.prems(5,6,1,2)] Suc.prems(3) by auto
  obtain st' where "fire_times is_context cmd (tim_hook ?t) (tim_addr ?t) k s1 = Some (st', replicate n 1 @ [0])"
    "timer_at (tim_addr ?t) st' = None" "hook_deleted (tm_plugins st') (tim_hook ?t)"
    using Suc.IH [of s1 ?t k] s1(2) Suc.prems m(2) by auto
  then show ?case using s1(1) m(1) by auto
qed


definition demo_timers :: timers where
  "demo_timers = \<lparr>tm_plugins = demo_plugin, timer_list = [], timer_next = 0\<rparr>"


text \<open>A timeout between 0.1 and 1 second is taken for 0, the timer runs without a pause.\<close>

lemma timer_sub_second: "1 / 10 \<le> t \<Longrightarrow> t < 1 \<Longrightarrow> milliseconds t = 0"
  by (simp add: milliseconds_def floor_eq_iff)

text \<open>A timer whose command deletes it is read again after it was freed.\<close>

lemma timer_deletes_itself:
  "timeout_cb (\<lambda>_ _. True) (\<lambda>c st. Some (timer_del_ref 1 True st)) 0
     (timer_add 0 7 3 0 1000 0 ''timer -delete 1'' demo_timers) = None"
  by (simp add: timeout_cb_def timer_del_ref_def timer_del_def on_plugins_def timer_add_def Let_def case_prod_beta
      demo_timers_def timer_at_def)

end
