(* ===== verification/PluginPref.thy ===== *)
theory PluginPref
  imports IgnoreProofs Alert Notify
begin

text \<open>
  The preferences of plugins, \<open>src/common/plugin.c\<close>: each plugin has a file of lines
  \<open>var = value\<close>, rewritten by \<open>pluginpref_set_str\<close> and read by \<open>cfg_get_str\<close>. A file is its
  text, \<open>None\<close> when there is none; whether the new file can be opened and renamed are
  parameters. \<open>g_strescape\<close> and \<open>g_strcompress\<close> are those of GLib.
\<close>

subsection \<open>Escaping\<close>

definition octal_digit :: "nat \<Rightarrow> char" where
  "octal_digit n = char_of (48 + n mod 8)"

definition escape_letters :: "(char \<times> char) list" where
  "escape_letters = [(CHR 0x08, CHR ''b''), (CHR 0x0C, CHR ''f''), (CHR 0x0A, CHR ''n''), (CHR 0x0D, CHR ''r''),
     (CHR 0x09, CHR ''t''), (CHR 0x0B, CHR ''v''), (CHR 0x5C, CHR 0x5C), (CHR 0x22, CHR 0x22)]"

definition escape_char :: "char \<Rightarrow> string" where
  "escape_char c =
     (case map_of escape_letters c of
        Some d \<Rightarrow> [CHR 0x5C, d]
      | None \<Rightarrow>
          if uchar c < 32 \<or> 127 \<le> uchar c
          then [CHR 0x5C, octal_digit (uchar c div 64), octal_digit (uchar c div 8), octal_digit (uchar c)]
          else [c])"

definition g_strescape :: "string \<Rightarrow> string" where
  "g_strescape s = concat (map escape_char s)"

definition is_octal :: "char \<Rightarrow> bool" where
  "is_octal c \<longleftrightarrow> 48 \<le> uchar c \<and> uchar c \<le> 55"

definition octal_value :: "string \<Rightarrow> nat" where
  "octal_value = foldl (\<lambda>n c. n * 8 + (uchar c - 48)) 0"

definition unescape_letter :: "char \<Rightarrow> char" where
  "unescape_letter d = (case map_of (map (\<lambda>(c, d). (d, c)) escape_letters) d of Some c \<Rightarrow> c | None \<Rightarrow> d)"

function g_strcompress :: "string \<Rightarrow> string" where
  "g_strcompress [] = []"
| "g_strcompress (c # s) =
     (if c \<noteq> CHR 0x5C then c # g_strcompress s
      else
        case s of
          [] \<Rightarrow> []
        | d # t \<Rightarrow>
            if is_octal d then
              let ds = takeWhile is_octal (take 3 s)
              in char_of (octal_value ds mod 256) # g_strcompress (drop (length ds) s)
            else unescape_letter d # g_strcompress t)"
  by pat_completeness auto
termination by (relation "measure length") auto

subsection \<open>The file\<close>

text \<open>\<open>canonalize_key\<close>\<close>

definition canonalize_key :: "string \<Rightarrow> string" where
  "canonalize_key key =
     map (\<lambda>c. if c = CHR ''_'' \<or> (48 \<le> uchar c \<and> uchar c \<le> 57) \<or> (65 \<le> uchar c \<and> uchar c \<le> 90) \<or>
                 (97 \<le> uchar c \<and> uchar c \<le> 122)
              then ascii_tolower c else CHR ''_'') key"

definition pref_confname :: "string \<Rightarrow> string" where
  "pref_confname name = ''addon_'' @ canonalize_key name @ ''.conf''"

text \<open>\<open>fscanf (fpIn, " %511[^\n]", buffer)\<close> until the end of the file.\<close>

function scan_lines :: "string \<Rightarrow> string list" where
  "scan_lines s =
     (case dropWhile is_space s of
        [] \<Rightarrow> []
      | c # t \<Rightarrow>
          let line = take 511 (takeWhile (\<lambda>c. c \<noteq> CHR 0x0A) (c # t))
          in line # scan_lines (drop (length line) (c # t)))"
  by pat_completeness auto
termination
proof (relation "measure length")
  fix s c t line
  assume s: "dropWhile is_space s = c # t" and "line = take 511 (takeWhile (\<lambda>c. c \<noteq> CHR 0x0A) (c # t))"
  moreover have "c \<noteq> CHR 0x0A" using s by (auto simp: dropWhile_eq_Cons_conv is_space_def uchar_def)
  ultimately have "0 < length line" by simp
  moreover have "length (c # t) \<le> length s" using s by (metis length_dropWhile_le)
  ultimately show "(drop (length line) (c # t), s) \<in> measure length" by (cases line) auto
qed simp

declare scan_lines.simps [simp del]

definition pref_line :: "string \<Rightarrow> string \<Rightarrow> string" where
  "pref_line var val = var @ '' = '' @ g_strescape val @ [CHR 0x0A]"

text \<open>The line written for a line that was read, and whether it held the variable.\<close>

definition holds_var :: "string \<Rightarrow> string \<Rightarrow> bool" where
  "holds_var var line \<longleftrightarrow> take (length var + 1) line = var @ '' ''"

definition rewrite_line :: "string \<Rightarrow> string option \<Rightarrow> string \<Rightarrow> string" where
  "rewrite_line var val line =
     (if holds_var var line then (case val of Some v \<Rightarrow> pref_line var v | None \<Rightarrow> []) else line @ [CHR 0x0A])"

text \<open>
  \<open>hexchat_pluginpref_set_str_real\<close> with the value for mode 1 and \<open>None\<close> for mode 0: the file it
  leaves, and its answer.
\<close>

definition hexchat_pluginpref_set_str_real ::
    "bool \<Rightarrow> bool \<Rightarrow> string option \<Rightarrow> string \<Rightarrow> string option \<Rightarrow> string option \<times> nat" where
  "hexchat_pluginpref_set_str_real can_open can_rename conf var val =
     (if \<not> can_open then (conf, 0)
      else
        case conf of
          None \<Rightarrow>
            (case val of
               Some v \<Rightarrow> (if can_rename then (Some (pref_line var v), 1) else (None, 0))
             | None \<Rightarrow> (None, 1))
        | Some text \<Rightarrow>
            let ls = scan_lines text;
                out = concat (map (rewrite_line var val) ls) @
                      (case val of
                         Some v \<Rightarrow> (if list_ex (holds_var var) ls then [] else pref_line var v)
                       | None \<Rightarrow> [])
            in if can_rename then (Some out, 1) else (conf, 0))"

definition hexchat_pluginpref_set_str :: "string option \<Rightarrow> string \<Rightarrow> string \<Rightarrow> string option \<times> nat" where
  "hexchat_pluginpref_set_str conf var val = hexchat_pluginpref_set_str_real True True conf var (Some val)"

definition hexchat_pluginpref_delete :: "string option \<Rightarrow> string \<Rightarrow> string option \<times> nat" where
  "hexchat_pluginpref_delete conf var = hexchat_pluginpref_set_str_real True True conf var None"

definition hexchat_pluginpref_set_int :: "string option \<Rightarrow> string \<Rightarrow> int \<Rightarrow> string option \<times> nat" where
  "hexchat_pluginpref_set_int conf var val = hexchat_pluginpref_set_str conf var (take 11 (show_int val))"

text \<open>The answer 0 is \<open>Some None\<close>; \<open>None\<close> is a read behind the file.\<close>

definition hexchat_pluginpref_get_str_real :: "string option \<Rightarrow> string \<Rightarrow> nat \<Rightarrow> string option option" where
  "hexchat_pluginpref_get_str_real conf var dest_len =
     (case conf of
        None \<Rightarrow> Some None
      | Some cfg \<Rightarrow>
          map_option (map_option (\<lambda>(buf, rest). take (dest_len - 1) (g_strcompress buf))) (cfg_get_str cfg var 512))"

definition hexchat_pluginpref_get_str :: "string option \<Rightarrow> string \<Rightarrow> string option option" where
  "hexchat_pluginpref_get_str conf var = hexchat_pluginpref_get_str_real conf var 512"

definition hexchat_pluginpref_get_int :: "string option \<Rightarrow> string \<Rightarrow> int option" where
  "hexchat_pluginpref_get_int conf var =
     map_option
       (\<lambda>r. case r of
          None \<Rightarrow> - 1
        | Some buffer \<Rightarrow> let ret = atoi buffer in if ret = 0 \<and> cur buffer \<noteq> CHR ''0'' then - 1 else ret)
       (hexchat_pluginpref_get_str_real conf var 12)"

text \<open>\<open>pluginpref_list\<close>: \<open>strtok (line, "=")\<close> is NULL for a line of \<open>=\<close> only.\<close>

definition line_var :: "string \<Rightarrow> string option" where
  "line_var line =
     (case dropWhile (\<lambda>c. c = CHR ''='') line of
        [] \<Rightarrow> None
      | s \<Rightarrow> Some (rev (dropWhile g_ascii_isspace (rev (takeWhile (\<lambda>c. c \<noteq> CHR ''='') s)))))"

fun list_vars :: "string list \<Rightarrow> string \<Rightarrow> string option" where
  "list_vars [] dest = Some dest"
| "list_vars (l # ls) dest =
     (case line_var l of
        None \<Rightarrow> None
      | Some v \<Rightarrow> list_vars ls (g_strlcat 4096 (g_strlcat 4096 dest v) '',''))"

definition hexchat_pluginpref_list :: "string \<Rightarrow> string option \<Rightarrow> (nat \<times> string) option" where
  "hexchat_pluginpref_list name conf =
     (if 64 \<le> length (pref_confname name) then None
      else
        case conf of
          None \<Rightarrow> Some (0, [])
        | Some text \<Rightarrow> map_option (\<lambda>dest. (1, dest)) (list_vars (scan_lines text) []))"

subsection \<open>Escaping is undone\<close>

lemma octal_digits:
  "is_octal (octal_digit n)" "uchar (octal_digit n) = 48 + n mod 8"
proof -
  have "n mod 8 < 8" by simp
  then show "uchar (octal_digit n) = 48 + n mod 8" by (simp add: octal_digit_def uchar_def)
  then show "is_octal (octal_digit n)" using \<open>n mod 8 < 8\<close> by (simp add: is_octal_def)
qed

lemma octal_round: "n < 256 \<Longrightarrow> octal_value [octal_digit (n div 64), octal_digit (n div 8), octal_digit n] = n"
proof -
  assume n: "n < 256"
  have "n div 64 = n div 8 div 8" by (simp add: div_mult2_eq [symmetric])
  moreover have "n div 8 div 8 < 8" using n by simp
  ultimately have "n div 64 mod 8 * 8 + n div 8 mod 8 = n div 8" by (metis div_mult_mod_eq mod_less)
  moreover have "n div 8 * 8 + n mod 8 = n" by simp
  ultimately have "(n div 64 mod 8 * 8 + n div 8 mod 8) * 8 + n mod 8 = n" by (simp only:)
  then show ?thesis
    unfolding octal_value_def by (simp only: foldl.simps octal_digits diff_add_inverse mult_0 add_0)
qed

lemma escape_letters_back:
  "map_of escape_letters c = Some d \<Longrightarrow> \<not> is_octal d \<and> unescape_letter d = c"
  by (auto simp: escape_letters_def unescape_letter_def is_octal_def uchar_def split: if_splits)

lemma compress_escape_char: "g_strcompress (escape_char c @ s) = c # g_strcompress s"
proof (cases "map_of escape_letters c")
  case (Some d)
  then show ?thesis using escape_letters_back [OF Some] by (simp add: escape_char_def)
next
  case None
  then have c: "c \<noteq> CHR 0x5C" by (auto simp: escape_letters_def)
  show ?thesis
  proof (cases "uchar c < 32 \<or> 127 \<le> uchar c")
    case True
    have "uchar c < 256" by (simp add: uchar_def)
    from octal_round [OF this] True None show ?thesis
      by (simp add: escape_char_def octal_digits Let_def) (simp add: uchar_def)
  next
    case False
    then show ?thesis using None c by (simp add: escape_char_def)
  qed
qed

lemma compress_escape: "g_strcompress (g_strescape s) = s"
proof -
  have "g_strcompress (g_strescape s @ []) = s"
    unfolding g_strescape_def
    by (induction s) (simp_all add: compress_escape_char del: append_Nil2)
  then show ?thesis by simp
qed

lemma escape_plain: "d \<in> set (escape_char c) \<Longrightarrow> 32 \<le> uchar d \<and> uchar d < 127"
proof (cases "map_of escape_letters c")
  case (Some e)
  then have "e \<in> {CHR ''b'', CHR ''f'', CHR ''n'', CHR ''r'', CHR ''t'', CHR ''v'', CHR 0x5C, CHR 0x22}"
    by (auto simp: escape_letters_def split: if_splits)
  moreover assume "d \<in> set (escape_char c)"
  ultimately show ?thesis using Some by (auto simp: escape_char_def uchar_def)
next
  case None
  assume d: "d \<in> set (escape_char c)"
  have o: "32 \<le> uchar (octal_digit n) \<and> uchar (octal_digit n) < 127" for n
    using mod_less_divisor [of 8 n] unfolding octal_digits(2) by linarith
  have "uchar (CHR 0x5C) = 92" by (simp add: uchar_def)
  then have "32 \<le> uchar (CHR 0x5C) \<and> uchar (CHR 0x5C) < 127" by simp
  note o = o this
  show ?thesis using d None o unfolding escape_char_def by (auto split: if_splits)
qed

lemma escape_ok:
  "\<forall>d \<in> set (g_strescape s). 32 \<le> uchar d \<and> uchar d < 127"
  by (auto simp: g_strescape_def dest: escape_plain)

lemma escape_facts: "CHR 0x0A \<notin> set (g_strescape s)" "ascii_str (g_strescape s)"
  using escape_ok [of s] by (auto simp: ascii_str_def list_all_iff ascii_def uchar_def)

lemma escape_start: "cur s \<noteq> CHR '' '' \<Longrightarrow> cur (g_strescape s) \<noteq> CHR '' ''"
proof (cases s)
  case (Cons c t)
  assume "cur s \<noteq> CHR '' ''"
  then have c: "c \<noteq> CHR '' ''" using Cons by simp
  obtain d ds where d: "escape_char c = d # ds"
    by (cases "escape_char c") (auto simp: escape_char_def split: option.splits if_splits)
  have "d \<noteq> CHR '' ''"
    using c d by (auto simp: escape_char_def split: option.splits if_splits)
  then show ?thesis by (simp add: Cons g_strescape_def d)
qed (simp add: g_strescape_def)

subsection \<open>The file is a map\<close>

definition pref_key :: "string \<Rightarrow> string" where
  "pref_key = map ascii_tolower"

definition pref_text :: "string \<Rightarrow> string \<Rightarrow> string" where
  "pref_text v val = v @ '' = '' @ g_strescape val"

text \<open>A setting that fits the buffer of a line, with a name without blanks and a value that does
  not begin with one.\<close>

definition pref_ok :: "string \<Rightarrow> string \<Rightarrow> bool" where
  "pref_ok v val \<longleftrightarrow> v \<noteq> [] \<and> (\<forall>c \<in> set v. \<not> is_space c) \<and> cur val \<noteq> CHR '' '' \<and> length (pref_text v val) \<le> 511"

definition pref_file :: "(string \<times> string) list \<Rightarrow> string" where
  "pref_file es = concat (map (\<lambda>(v, val). pref_line v val) es)"

definition prefs_ok :: "(string \<times> string) list \<Rightarrow> bool" where
  "prefs_ok es \<longleftrightarrow> distinct (map (pref_key \<circ> fst) es) \<and> (\<forall>(v, val) \<in> set es. pref_ok v val)"

definition represents :: "string option \<Rightarrow> (string \<Rightarrow> string option) \<Rightarrow> bool" where
  "represents conf m \<longleftrightarrow>
     (case conf of
        None \<Rightarrow> m = Map.empty
      | Some text \<Rightarrow> \<exists>es. prefs_ok es \<and> text = pref_file es \<and> m = map_of es)"

lemma representsI: "prefs_ok es \<Longrightarrow> text = pref_file es \<Longrightarrow> m = map_of es \<Longrightarrow> represents (Some text) m"
  by (auto simp: represents_def)

lemma pref_file_simps [simp]:
  "pref_file [] = []"
  "pref_file ((v, val) # es) = pref_text v val @ CHR 0x0A # pref_file es"
  "pref_file (es @ fs) = pref_file es @ pref_file fs"
  by (simp_all add: pref_file_def pref_line_def pref_text_def)

lemma pref_line_text: "pref_line v val = pref_text v val @ [CHR 0x0A]"
  by (simp add: pref_line_def pref_text_def)

lemma blank_not_name: "\<forall>c \<in> set v. \<not> is_space c \<Longrightarrow> CHR '' '' \<notin> set v \<and> CHR 0x0A \<notin> set v"
  by (auto simp: is_space_def uchar_def)

lemma pref_text_line: "pref_ok v val \<Longrightarrow> CHR 0x0A \<notin> set (pref_text v val)"
  using blank_not_name [of v] by (auto simp: pref_ok_def pref_text_def escape_facts)

lemma scan_newline: "scan_lines (CHR 0x0A # s) = scan_lines s"
  by (subst (1 2) scan_lines.simps) (simp add: is_space_def uchar_def)

lemma scan_line:
  assumes "pref_ok v val"
  shows "scan_lines (pref_text v val @ CHR 0x0A # s) = pref_text v val # scan_lines s"
proof -
  obtain c v' where v: "v = c # v'" "\<not> is_space c" using assms by (cases v) (auto simp: pref_ok_def)
  define t where "t = v' @ '' = '' @ g_strescape val"
  have t: "pref_text v val = c # t" by (simp add: pref_text_def v t_def)
  have "takeWhile (\<lambda>c. c \<noteq> CHR 0x0A) (c # t @ CHR 0x0A # s) = c # t"
    using takeWhile_line [OF pref_text_line [OF assms], of s] by (simp add: t)
  moreover have "take 511 (c # t) = c # t" using assms t by (simp add: pref_ok_def)
  ultimately show ?thesis
    unfolding t using v(2) by (subst scan_lines.simps) (simp add: Let_def scan_newline del: take_Suc_Cons)
qed

lemma scan_pref_file: "\<forall>(v, val) \<in> set es. pref_ok v val \<Longrightarrow> scan_lines (pref_file es) = map (\<lambda>(v, val). pref_text v val) es"
proof (induction es)
  case Nil
  then show ?case by (simp add: scan_lines.simps)
next
  case (Cons e es)
  then show ?case by (cases e) (simp add: scan_line)
qed

lemma prefix_blank:
  "CHR '' '' \<notin> set v \<Longrightarrow> CHR '' '' \<notin> set w \<Longrightarrow> take (length v + 1) (w @ CHR '' '' # s) = v @ '' '' \<longleftrightarrow> w = v"
proof (induction v arbitrary: w)
  case Nil
  then show ?case by (cases w) auto
next
  case (Cons c v)
  then show ?case by (cases w) auto
qed

lemma holds_var_text: "CHR '' '' \<notin> set v \<Longrightarrow> CHR '' '' \<notin> set w \<Longrightarrow> holds_var v (pref_text w x) \<longleftrightarrow> w = v"
  using prefix_blank [of v w "''= '' @ g_strescape x"] by (simp add: holds_var_def pref_text_def)

lemma tolower_blank: "ascii_tolower c = CHR '' '' \<longleftrightarrow> c = CHR '' ''"
proof
  assume e: "ascii_tolower c = CHR '' ''"
  show "c = CHR '' ''"
  proof (rule ccontr)
    assume "c \<noteq> CHR '' ''"
    with e have c: "65 \<le> uchar c \<and> uchar c \<le> 90" "char_of (uchar c + 32) = CHR '' ''"
      by (auto simp: ascii_tolower_def split: if_splits)
    from c(1) have "uchar (char_of (uchar c + 32)) = uchar c + 32" by (simp add: uchar_def)
    then have "uchar c + 32 = uchar (CHR '' '')" unfolding c(2) by (rule sym)
    also have "\<dots> = 32" by (simp add: uchar_def)
    finally show False using c(1) by simp
  qed
qed (simp add: ascii_tolower_def uchar_def)

lemma blank_tolower: "CHR '' '' = ascii_tolower c \<longleftrightarrow> c = CHR '' ''" "ascii_tolower CHR '' '' = CHR '' ''"
  using tolower_blank [of c] tolower_blank [of "CHR '' ''"] by auto

lemma ci_prefix_blank:
  "CHR '' '' \<notin> set v \<Longrightarrow> CHR '' '' \<notin> set w \<Longrightarrow> ci_prefix (v @ '' '') (w @ CHR '' '' # s) \<longleftrightarrow> pref_key w = pref_key v"
proof (induction v arbitrary: w)
  case Nil
  then show ?case by (cases w) (auto simp: pref_key_def blank_tolower)
next
  case (Cons c v)
  then show ?case by (cases w) (auto simp: pref_key_def tolower_blank blank_tolower)
qed

lemma ci_prefix_text: "CHR '' '' \<notin> set v \<Longrightarrow> CHR '' '' \<notin> set w \<Longrightarrow>
   ci_prefix (v @ '' '') (pref_text w x @ s) \<longleftrightarrow> pref_key w = pref_key v"
  using ci_prefix_blank [of v w "''= '' @ g_strescape x @ s"] by (simp add: pref_text_def)

lemma skip_line: "CHR 0x0A \<notin> set l \<Longrightarrow> dropWhile (\<lambda>c. c \<noteq> CHR 0x0A) (l @ CHR 0x0A # s) = CHR 0x0A # s"
  by (rule dropWhile_line)

lemma cfg_find_prefs:
  assumes v: "CHR '' '' \<notin> set v" "v \<noteq> []"
  shows "(\<forall>(w, x) \<in> set es. pref_ok w x) \<Longrightarrow> (\<forall>(w, x) \<in> set es. pref_key w = pref_key v \<longrightarrow> w = v) \<Longrightarrow>
    map_option fst (cfg_find (pref_file es) v) = map_option g_strescape (map_of es v)"
proof (induction es)
  case Nil
  show ?case using v by (cases v) (simp_all add: cfg_find.simps [of "[]"])
next
  case (Cons e es)
  obtain w x where e: "e = (w, x)" by (cases e)
  have w: "CHR '' '' \<notin> set w" "CHR 0x0A \<notin> set w" "pref_ok w x"
    using Cons.prems(1) e blank_not_name [of w] by (auto simp: pref_ok_def)
  show ?case
  proof (cases "pref_key w = pref_key v")
    case True
    then have "w = v" using Cons.prems(2) e by auto
    moreover have "cur (g_strescape x) \<noteq> CHR '' ''" using w(3) by (intro escape_start) (simp add: pref_ok_def)
    ultimately show ?thesis
      using cfg_find_here [of "g_strescape x" v "pref_file es"] by (simp add: e pref_text_def escape_facts)
  next
    case False
    then have "\<not> ci_prefix (v @ '' '') (pref_text w x @ CHR 0x0A # pref_file es)"
      using ci_prefix_text [OF v(1) w(1)] by simp
    then have "cfg_find (pref_file (e # es)) v = (if pref_file es = [] then None else cfg_find (pref_file es) v)"
      by (subst cfg_find.simps) (simp add: e dropWhile_line [OF pref_text_line [OF w(3)]])
    moreover have "cfg_find [] v = None" using v by (cases v) (simp_all add: cfg_find.simps [of "[]"])
    moreover have "map_of (e # es) v = map_of es v" using False e by auto
    ultimately show ?thesis using Cons by (auto split: if_splits)
  qed
qed

lemma cfg_get_short:
  assumes "map_option fst (cfg_find cfg v) = map_option g_strescape m"
    and "\<forall>x. m = Some x \<longrightarrow> length (g_strescape x) \<le> 511"
  shows "map_option (map_option fst) (cfg_get_str cfg v 512) = Some (map_option g_strescape m)"
proof (cases "cfg_find cfg v")
  case None
  then show ?thesis using assms(1) by (cases m) (auto simp: cfg_get_str_def)
next
  case (Some r)
  then obtain x where x: "m = Some x" "fst r = g_strescape x" using assms(1) by (cases m) auto
  then have "safe_strcpy (fst r) 512 = Some (g_strescape x)"
    using assms(2) by (simp add: safe_strcpy_ascii escape_facts)
  then show ?thesis using Some x by (cases r) (auto simp: cfg_get_str_def)
qed

lemma escape_longer: "length s \<le> length (g_strescape s)"
proof (induction s)
  case (Cons c s)
  have "1 \<le> length (escape_char c)" by (auto simp: escape_char_def split: option.split)
  with Cons show ?case by (simp add: g_strescape_def)
qed simp

lemma get_pref:
  assumes "prefs_ok es" "CHR '' '' \<notin> set v" "v \<noteq> []" "\<forall>(w, x) \<in> set es. pref_key w = pref_key v \<longrightarrow> w = v"
  shows "hexchat_pluginpref_get_str (Some (pref_file es)) v = Some (map_of es v)"
proof -
  have ok: "\<forall>(w, x) \<in> set es. pref_ok w x" using assms(1) by (simp add: prefs_ok_def)
  have short: "\<forall>x. map_of es v = Some x \<longrightarrow> length (g_strescape x) \<le> 511"
    using ok by (auto simp: pref_ok_def pref_text_def dest!: map_of_SomeD)
  from cfg_get_short [OF cfg_find_prefs [OF assms(2,3) ok assms(4)] short]
  obtain r where r: "cfg_get_str (pref_file es) v 512 = Some r" "map_option fst r = map_option g_strescape (map_of es v)"
    by auto
  show ?thesis
  proof (cases "map_of es v")
    case None
    then show ?thesis using r by (simp add: hexchat_pluginpref_get_str_def hexchat_pluginpref_get_str_real_def)
  next
    case (Some x)
    then obtain rest where "r = Some (g_strescape x, rest)" using r(2) by auto
    moreover have "length x \<le> 511" using short Some escape_longer [of x] by auto
    ultimately show ?thesis
      using r(1) Some by (simp add: hexchat_pluginpref_get_str_def hexchat_pluginpref_get_str_real_def compress_escape)
  qed
qed

definition upsert :: "string \<Rightarrow> string \<Rightarrow> (string \<times> string) list \<Rightarrow> (string \<times> string) list" where
  "upsert v val es =
     (if v \<in> fst ` set es then map (\<lambda>(w, x). (w, if w = v then val else x)) es else es @ [(v, val)])"

lemma rewritten:
  assumes "\<forall>(w, x) \<in> set es. CHR '' '' \<notin> set w" "CHR '' '' \<notin> set v"
  shows "concat (map (rewrite_line v (Some val)) (map (\<lambda>(w, x). pref_text w x) es)) =
      pref_file (map (\<lambda>(w, x). (w, if w = v then val else x)) es)"
    and "concat (map (rewrite_line v None) (map (\<lambda>(w, x). pref_text w x) es)) = pref_file (filter (\<lambda>(w, x). w \<noteq> v) es)"
    and "list_ex (holds_var v) (map (\<lambda>(w, x). pref_text w x) es) \<longleftrightarrow> v \<in> fst ` set es"
  using assms by (induction es) (auto simp: rewrite_line_def holds_var_text pref_line_text)

lemma map_of_replaced:
  "map_of (map (\<lambda>(w, x). (w, if w = v then val else x)) es) y =
     (if y = v then (if v \<in> fst ` set es then Some val else None) else map_of es y)"
  by (induction es) (auto simp: rev_image_eqI)

lemma map_of_upsert: "map_of (upsert v val es) = (map_of es)(v \<mapsto> val)"
proof (cases "v \<in> fst ` set es")
  case True
  then show ?thesis unfolding upsert_def by (auto simp: fun_eq_iff map_of_replaced)
next
  case False
  then have "map_of es v = None" by (simp add: map_of_eq_None_iff)
  then show ?thesis using False by (auto simp: upsert_def fun_eq_iff map_add_def split: option.split)
qed

lemma upsert_ok:
  assumes "prefs_ok es" "pref_ok v val" "\<forall>(w, x) \<in> set es. pref_key w = pref_key v \<longrightarrow> w = v"
  shows "prefs_ok (upsert v val es)"
proof (cases "v \<in> fst ` set es")
  case True
  let ?es = "map (\<lambda>(w, x). (w, if w = v then val else x)) es"
  have "map (pref_key \<circ> fst) ?es = map (pref_key \<circ> fst) es" by (induction es) auto
  moreover have "\<forall>(w, x) \<in> set ?es. pref_ok w x" using assms(1,2) by (auto simp: prefs_ok_def)
  moreover have "upsert v val es = ?es" using True by (simp add: upsert_def)
  ultimately show ?thesis using assms(1) unfolding prefs_ok_def by metis
next
  case False
  then have "pref_key v \<notin> set (map (pref_key \<circ> fst) es)" using assms(3) by (fastforce simp: image_iff)
  then have "distinct (map (pref_key \<circ> fst) (es @ [(v, val)]))" using assms(1) by (simp add: prefs_ok_def)
  moreover have "upsert v val es = es @ [(v, val)]" using False by (simp add: upsert_def)
  ultimately show ?thesis using assms(1,2) unfolding prefs_ok_def by auto
qed

lemma delete_ok: "prefs_ok es \<Longrightarrow> prefs_ok (filter (\<lambda>(w, x). w \<noteq> v) es)"
  unfolding prefs_ok_def by (induction es) auto

lemma map_of_deleted: "map_of (filter (\<lambda>(w, x). w \<noteq> v) es) = (map_of es)(v := None)"
  by (induction es) (auto simp: fun_eq_iff)


definition demo_prefs :: "(string \<times> string) list" where
  "demo_prefs = [(''away'', [CHR 0x09, CHR 0x22, CHR 0xE4]), (''x'', ''1'')]"

lemma demo_prefs_ok: "prefs_ok demo_prefs" "pref_ok ''x'' ''2''"
  by (simp_all add: prefs_ok_def demo_prefs_def pref_ok_def is_space_def uchar_def pref_key_def ascii_tolower_def
      pref_text_def g_strescape_def escape_char_def escape_letters_def)


text \<open>
  A setting is replaced by a comparison with case, but read by one without: with a file that has
  \<open>foo\<close>, a value stored for \<open>Foo\<close> is written and never read. A value loses the blanks it begins
  with.
\<close>

lemma pref_case_lost:
  "hexchat_pluginpref_get_str (Some (pref_file [(''foo'', ''0''), (''Foo'', ''1'')])) ''Foo'' = Some (Some ''0'')"
proof -
  let ?r = "pref_text ''Foo'' ''1'' @ [CHR 0x0A]"
  have "ci_prefix (''Foo'' @ '' '') (''foo'' @ '' = '' @ ''0'' @ CHR 0x0A # ?r)"
    by code_simp
  then have "cfg_find (''foo'' @ '' = '' @ ''0'' @ CHR 0x0A # ?r) ''Foo'' = Some (''0'', CHR 0x0A # ?r)"
    by (subst cfg_find.simps) (simp add: cfg_value_def skip_spaces_def)
  moreover have "safe_strcpy ''0'' 512 = Some ''0''" by (simp add: safe_strcpy_ascii ascii_str_def ascii_def uchar_def)
  ultimately show ?thesis
    by (simp add: hexchat_pluginpref_get_str_def hexchat_pluginpref_get_str_real_def cfg_get_str_def pref_text_def
        g_strescape_def escape_char_def escape_letters_def uchar_def)
qed

lemma pref_blank_lost:
  "hexchat_pluginpref_get_str (fst (hexchat_pluginpref_set_str None ''v'' '' a'')) ''v'' = Some (Some ''a'')"
proof -
  have "ci_prefix (''v'' @ '' '') (''v =  a'' @ [CHR 0x0A])" by (simp add: ascii_tolower_def uchar_def)
  then have "cfg_find (''v =  a'' @ [CHR 0x0A]) ''v'' = Some (''a'', [CHR 0x0A])"
    by (subst cfg_find.simps) (simp add: cfg_value_def skip_spaces_def)
  moreover have "safe_strcpy ''a'' 512 = Some ''a''" by (simp add: safe_strcpy_ascii ascii_str_def ascii_def uchar_def)
  ultimately show ?thesis
    by (simp add: hexchat_pluginpref_get_str_def hexchat_pluginpref_get_str_real_def cfg_get_str_def
        hexchat_pluginpref_set_str_def hexchat_pluginpref_set_str_real_def pref_line_def
        g_strescape_def escape_char_def escape_letters_def uchar_def)
qed

end
