(* ===== verification/Servlist.thy ===== *)
theory Servlist
  imports Isupport Notify
begin

text \<open>
  The network list, \<open>src/common/servlist.c\<close>: networks with their servers, connect commands and
  favourite channels, the file \<open>servlist.conf\<close>, and what a connection takes over from a network.

  A pointer to an element of a list is its position. A file is a text. Which encodings iconv knows
  is a parameter. The program is built with OpenSSL and libwebsockets. \<open>None\<close> is a write behind
  a buffer or a read behind a string.
\<close>

subsection \<open>Networks\<close>

type_synonym favchan = "string \<times> string option"

definition FLAG_CYCLE :: uint where "FLAG_CYCLE = 1"
definition FLAG_USE_GLOBAL :: uint where "FLAG_USE_GLOBAL = 2"
definition FLAG_USE_SSL :: uint where "FLAG_USE_SSL = 4"
definition FLAG_AUTO_CONNECT :: uint where "FLAG_AUTO_CONNECT = 8"
definition FLAG_USE_PROXY :: uint where "FLAG_USE_PROXY = 16"
definition FLAG_ALLOW_INVALID :: uint where "FLAG_ALLOW_INVALID = 32"

definition has_flag :: "uint \<Rightarrow> uint \<Rightarrow> bool" where
  "has_flag flags f \<longleftrightarrow> and flags f \<noteq> 0"

record ircnet =
  ir_name :: string
  ir_nick :: "string option"
  ir_nick2 :: "string option"
  ir_user :: "string option"
  ir_real :: "string option"
  ir_pass :: "string option"
  ir_logintype :: int
  ir_encoding :: "string option"
  ir_servers :: "string list"
  ir_commands :: "string list"
  ir_favchans :: "favchan list"
  ir_selected :: int
  ir_flags :: uint
  ir_oauth_authorization_url :: "string option"
  ir_oauth_token_url :: "string option"
  ir_oauth_client_id :: "string option"
  ir_oauth_client_secret :: "string option"
  ir_oauth_scopes :: "string option"
  ir_oauth_access_token :: "string option"
  ir_oauth_refresh_token :: "string option"
  ir_oauth_token_expires :: int

text \<open>\<open>servlist_net_add\<close>: a new network, and the list with it.\<close>

definition net_new :: "string \<Rightarrow> ircnet" where
  "net_new name =
     \<lparr>ir_name = name, ir_nick = None, ir_nick2 = None, ir_user = None, ir_real = None, ir_pass = None,
      ir_logintype = 0, ir_encoding = None, ir_servers = [], ir_commands = [], ir_favchans = [],
      ir_selected = 0, ir_flags = FLAG_CYCLE + FLAG_USE_GLOBAL + FLAG_USE_PROXY + FLAG_USE_SSL,
      ir_oauth_authorization_url = None, ir_oauth_token_url = None, ir_oauth_client_id = None,
      ir_oauth_client_secret = None, ir_oauth_scopes = None, ir_oauth_access_token = None,
      ir_oauth_refresh_token = None, ir_oauth_token_expires = 0\<rparr>"

definition servlist_net_add :: "string \<Rightarrow> bool \<Rightarrow> ircnet list \<Rightarrow> ircnet list" where
  "servlist_net_add name prepend nets = (if prepend then net_new name # nets else nets @ [net_new name])"

definition remove_nth :: "nat \<Rightarrow> 'a list \<Rightarrow> 'a list" where
  "remove_nth i xs = take i xs @ drop (Suc i) xs"

text \<open>\<open>networks\<close> are the networks of the servers in \<open>serv_list\<close>; a network behind the removed one moves up.\<close>

definition servlist_net_remove :: "nat \<Rightarrow> ircnet list \<Rightarrow> nat option list \<Rightarrow> ircnet list \<times> nat option list" where
  "servlist_net_remove i nets networks =
     (remove_nth i nets,
      map (\<lambda>n. case n of None \<Rightarrow> None | Some j \<Rightarrow> if j = i then None else if i < j then Some (j - 1) else Some j) networks)"

definition servlist_server_add :: "string \<Rightarrow> ircnet \<Rightarrow> ircnet" where
  "servlist_server_add name net = net\<lparr>ir_servers := ir_servers net @ [name]\<rparr>"

definition servlist_command_add :: "string \<Rightarrow> ircnet \<Rightarrow> ircnet" where
  "servlist_command_add cmd net = net\<lparr>ir_commands := ir_commands net @ [cmd]\<rparr>"

definition servlist_favchan_listadd :: "favchan list \<Rightarrow> string \<Rightarrow> string option \<Rightarrow> favchan list" where
  "servlist_favchan_listadd chanlist chan key = chanlist @ [(chan, key)]"

definition servlist_favchan_add :: "string \<Rightarrow> ircnet \<Rightarrow> ircnet" where
  "servlist_favchan_add chan net =
     net\<lparr>ir_favchans := servlist_favchan_listadd (ir_favchans net) (takeWhile (\<lambda>c. c \<noteq> CHR '','') chan)
       (case dropWhile (\<lambda>c. c \<noteq> CHR '','') chan of [] \<Rightarrow> None | _ # key \<Rightarrow> Some key)\<rparr>"

definition servlist_server_remove :: "nat \<Rightarrow> ircnet \<Rightarrow> ircnet" where
  "servlist_server_remove i net = net\<lparr>ir_servers := remove_nth i (ir_servers net)\<rparr>"

definition servlist_command_remove :: "nat \<Rightarrow> ircnet \<Rightarrow> ircnet" where
  "servlist_command_remove i net = net\<lparr>ir_commands := remove_nth i (ir_commands net)\<rparr>"

definition servlist_favchan_remove :: "nat \<Rightarrow> ircnet \<Rightarrow> ircnet" where
  "servlist_favchan_remove i net = net\<lparr>ir_favchans := remove_nth i (ir_favchans net)\<rparr>"

text \<open>\<open>servlist_cleanup\<close>, without the STS policies.\<close>

definition servlist_cleanup :: "ircnet list \<Rightarrow> ircnet list" where
  "servlist_cleanup = map (\<lambda>net. net\<lparr>ir_pass := None, ir_oauth_client_secret := None\<rparr>)"

subsection \<open>Finding\<close>

fun find_pos :: "('a \<Rightarrow> bool) \<Rightarrow> nat \<Rightarrow> 'a list \<Rightarrow> (nat \<times> 'a) option" where
  "find_pos P i [] = None"
| "find_pos P i (x # xs) = (if P x then Some (i, x) else find_pos P (Suc i) xs)"

definition servlist_server_find :: "ircnet \<Rightarrow> string \<Rightarrow> (nat \<times> string) option" where
  "servlist_server_find net name = find_pos (\<lambda>s. s = name) 0 (ir_servers net)"

definition servlist_favchan_find :: "ircnet option \<Rightarrow> string \<Rightarrow> (nat \<times> favchan) option" where
  "servlist_favchan_find net chan =
     (case net of None \<Rightarrow> None
      | Some net \<Rightarrow> find_pos (\<lambda>f. g_ascii_strcasecmp (fst f) chan = 0) 0 (ir_favchans net))"

definition servlist_command_find :: "ircnet \<Rightarrow> string \<Rightarrow> (nat \<times> string) option" where
  "servlist_command_find net cmd = find_pos (\<lambda>c. c = cmd) 0 (ir_commands net)"

definition servlist_net_find :: "(string \<Rightarrow> string \<Rightarrow> int) \<Rightarrow> string \<Rightarrow> ircnet list \<Rightarrow> (nat \<times> ircnet) option" where
  "servlist_net_find cmpfunc name = find_pos (\<lambda>net. cmpfunc (ir_name net) name = 0) 0"

text \<open>\<open>g_ascii_strncasecmp (hostname, server_name, hostname_len) == 0\<close>\<close>

definition host_matches :: "string \<Rightarrow> string \<Rightarrow> bool" where
  "host_matches server_name hostname \<longleftrightarrow> ci_prefix (takeWhile (\<lambda>c. c \<noteq> CHR ''/'') hostname) server_name"

definition servlist_net_find_from_server :: "string \<Rightarrow> ircnet list \<Rightarrow> (nat \<times> ircnet) option" where
  "servlist_net_find_from_server server_name = find_pos (\<lambda>net. list_ex (host_matches server_name) (ir_servers net)) 0"

definition joinlist_is_in_list :: "ircnet option \<Rightarrow> string \<Rightarrow> bool" where
  "joinlist_is_in_list net chan =
     (case net of None \<Rightarrow> False
      | Some net \<Rightarrow> list_ex (\<lambda>f. g_ascii_strcasecmp (fst f) chan = 0) (ir_favchans net))"

definition servlist_have_auto :: "ircnet list \<Rightarrow> bool" where
  "servlist_have_auto = list_ex (\<lambda>net. has_flag (ir_flags net) FLAG_AUTO_CONNECT)"

subsection \<open>The file\<close>

text \<open>
  The buffers \<open>fgets\<close> fills with at most \<open>n\<close> bytes: a line with its line feed, or a piece of it.
\<close>

definition first_buffer :: "nat \<Rightarrow> string \<Rightarrow> string" where
  "first_buffer n s =
     take n (takeWhile (\<lambda>c. c \<noteq> CHR 0x0A) s @ take 1 (dropWhile (\<lambda>c. c \<noteq> CHR 0x0A) s))"

lemma first_buffer_nonempty: "0 < n \<Longrightarrow> s \<noteq> [] \<Longrightarrow> first_buffer n s \<noteq> []"
  by (cases s) (auto simp: first_buffer_def)

function fgets_lines :: "nat \<Rightarrow> string \<Rightarrow> string list" where
  "fgets_lines n s =
     (if n = 0 \<or> s = [] then []
      else first_buffer n s # fgets_lines n (drop (length (first_buffer n s)) s))"
  by pat_completeness auto
termination
  by (relation "measure (\<lambda>(n, s). length s)") (use first_buffer_nonempty in auto)

declare fgets_lines.simps [simp del]

text \<open>\<open>servlist_check_encoding\<close>: only what stands before a blank is asked for.\<close>

definition servlist_check_encoding :: "(string \<Rightarrow> bool) \<Rightarrow> string \<Rightarrow> bool" where
  "servlist_check_encoding iconv charset = iconv (takeWhile (\<lambda>c. c \<noteq> CHR '' '') charset)"

definition LOGIN_SASL_NUM :: int where "LOGIN_SASL_NUM = 6"
definition LOGIN_NICKSERV_NUM :: int where "LOGIN_NICKSERV_NUM = 2"

text \<open>The \<open>case\<close> of a line for the network read last; \<open>val\<close> is \<open>buf + 2\<close>.\<close>

definition old_pass :: "int \<Rightarrow> string \<Rightarrow> ircnet \<Rightarrow> ircnet" where
  "old_pass method val net =
     (if ir_pass net = None
      then net\<lparr>ir_pass := Some val, ir_logintype := (if ir_logintype net = 0 then method else ir_logintype net)\<rparr>
      else net)"

definition load_field :: "(string \<Rightarrow> bool) \<Rightarrow> char \<Rightarrow> string \<Rightarrow> ircnet \<Rightarrow> ircnet" where
  "load_field iconv key val net =
     (if key = CHR ''I'' then net\<lparr>ir_nick := Some val\<rparr>
      else if key = CHR ''i'' then net\<lparr>ir_nick2 := Some val\<rparr>
      else if key = CHR ''U'' then net\<lparr>ir_user := Some val\<rparr>
      else if key = CHR ''R'' then net\<lparr>ir_real := Some val\<rparr>
      else if key = CHR ''P'' then net\<lparr>ir_pass := Some val\<rparr>
      else if key = CHR ''L'' then net\<lparr>ir_logintype := atoi val\<rparr>
      else if key = CHR ''E'' then
        net\<lparr>ir_encoding := Some (if servlist_check_encoding iconv val then val else ''UTF-8'')\<rparr>
      else if key = CHR ''F'' then net\<lparr>ir_flags := word_of_int (atoi val)\<rparr>
      else if key = CHR ''S'' then servlist_server_add val net
      else if key = CHR ''C'' then servlist_command_add val net
      else if key = CHR ''J'' then servlist_favchan_add val net
      else if key = CHR ''D'' then net\<lparr>ir_selected := atoi val\<rparr>
      else if key = CHR ''a'' then net\<lparr>ir_oauth_authorization_url := Some val\<rparr>
      else if key = CHR ''t'' then net\<lparr>ir_oauth_token_url := Some val\<rparr>
      else if key = CHR ''c'' then net\<lparr>ir_oauth_client_id := Some val\<rparr>
      else if key = CHR ''s'' then net\<lparr>ir_oauth_client_secret := Some val\<rparr>
      else if key = CHR ''o'' then net\<lparr>ir_oauth_scopes := Some val\<rparr>
      else if key = CHR ''T'' then net\<lparr>ir_oauth_access_token := Some val\<rparr>
      else if key = CHR ''r'' then net\<lparr>ir_oauth_refresh_token := Some val\<rparr>
      else if key = CHR ''x'' then net\<lparr>ir_oauth_token_expires := atoi val\<rparr>
      else if key = CHR ''A'' then old_pass LOGIN_NICKSERV_NUM val (old_pass LOGIN_SASL_NUM val net)
      else if key = CHR ''B'' then old_pass LOGIN_NICKSERV_NUM val net
      else net)"

text \<open>A line without its last byte. The network read last is the last of the list.\<close>

definition load_line :: "(string \<Rightarrow> bool) \<Rightarrow> ircnet list \<Rightarrow> string \<Rightarrow> ircnet list" where
  "load_line iconv nets buf =
     (case buf of
        [] \<Rightarrow> nets
      | key # r \<Rightarrow>
          let val = drop 1 r;
              nets = (if nets = [] then [] else butlast nets @ [load_field iconv key val (last nets)])
          in if key = CHR ''N'' then servlist_net_add val False nets else nets)"

definition load_lines :: "(string \<Rightarrow> bool) \<Rightarrow> ircnet list \<Rightarrow> string list \<Rightarrow> ircnet list" where
  "load_lines iconv = foldl (\<lambda>nets buf. load_line iconv nets (butlast buf))"

definition servlist_load :: "(string \<Rightarrow> bool) \<Rightarrow> string \<Rightarrow> ircnet list" where
  "servlist_load iconv conf = load_lines iconv [] (fgets_lines 2045 conf)"

text \<open>\<open>servlist_save\<close>, and the lines of a network.\<close>

definition conf_line :: "char \<Rightarrow> string \<Rightarrow> string" where
  "conf_line key val = key # CHR ''='' # val @ [CHR 0x0A]"

definition conf_opt :: "char \<Rightarrow> string option \<Rightarrow> (char \<times> string) list" where
  "conf_opt key val = (case val of None \<Rightarrow> [] | Some v \<Rightarrow> [(key, v)])"

definition conf_int :: "char \<Rightarrow> int \<Rightarrow> (char \<times> string) list" where
  "conf_int key n = (if n = 0 then [] else [(key, show_int n)])"

definition favchan_text :: "favchan \<Rightarrow> string" where
  "favchan_text f = (case f of (name, None) \<Rightarrow> name | (name, Some key) \<Rightarrow> name @ '','' @ key)"

definition net_lines :: "ircnet \<Rightarrow> (char \<times> string) list" where
  "net_lines net =
     [(CHR ''N'', ir_name net)] @
     conf_opt CHR ''I'' (ir_nick net) @ conf_opt CHR ''i'' (ir_nick2 net) @ conf_opt CHR ''U'' (ir_user net) @
     conf_opt CHR ''R'' (ir_real net) @ conf_opt CHR ''P'' (ir_pass net) @ conf_int CHR ''L'' (ir_logintype net) @
     conf_opt CHR ''E'' (ir_encoding net) @
     [(CHR ''F'', show_int (sint (ir_flags net))), (CHR ''D'', show_int (ir_selected net))] @
     conf_opt CHR ''a'' (ir_oauth_authorization_url net) @ conf_opt CHR ''t'' (ir_oauth_token_url net) @
     conf_opt CHR ''c'' (ir_oauth_client_id net) @ conf_opt CHR ''s'' (ir_oauth_client_secret net) @
     conf_opt CHR ''o'' (ir_oauth_scopes net) @ conf_opt CHR ''T'' (ir_oauth_access_token net) @
     conf_opt CHR ''r'' (ir_oauth_refresh_token net) @ conf_int CHR ''x'' (ir_oauth_token_expires net) @
     map (Pair CHR ''S'') (ir_servers net) @ map (Pair CHR ''C'') (ir_commands net) @
     map (\<lambda>f. (CHR ''J'', favchan_text f)) (ir_favchans net)"

definition net_text :: "ircnet \<Rightarrow> string" where
  "net_text net = concat (map (\<lambda>(key, val). conf_line key val) (net_lines net)) @ [CHR 0x0A]"

definition servlist_save :: "string \<Rightarrow> ircnet list \<Rightarrow> string" where
  "servlist_save version nets = ''v='' @ version @ [CHR 0x0A, CHR 0x0A] @ concat (map net_text nets)"

subsection \<open>Connecting\<close>

text \<open>What a connection takes over; \<open>co_connects\<close> are the calls of \<open>serv->connect\<close>, -1 no port.\<close>

record connection =
  co_loginmethod :: int
  co_password :: string
  co_nick :: string
  co_dont_use_proxy :: bool
  co_use_ssl :: bool
  co_accept_invalid :: bool
  co_favlist :: "favchan list"
  co_willjoin :: string
  co_oauth_token :: "string option"
  co_oauth_expires :: int
  co_connects :: "(string \<times> int) list"
  co_refreshes :: "(string \<times> int) list"
  co_encoding :: "string option"

definition LOGIN_PASS_NUM :: int where "LOGIN_PASS_NUM = 7"
definition LOGIN_OAUTH_NUM :: int where "LOGIN_OAUTH_NUM = 14"

text \<open>The server the network has selected, else the first.\<close>

definition selected_server :: "ircnet \<Rightarrow> string option" where
  "selected_server net =
     (let i = nat (ir_selected net) in
      if 0 \<le> ir_selected net \<and> i < length (ir_servers net) then Some (ir_servers net ! i)
      else case ir_servers net of [] \<Rightarrow> None | s # _ \<Rightarrow> Some s)"

text \<open>\<open>host/port\<close> or \<open>host/+port\<close>, split at the last slash.\<close>

definition host_port :: "string \<Rightarrow> string \<times> bool \<times> int" where
  "host_port s =
     (if CHR ''/'' \<in> set s then
        let port = rev (takeWhile (\<lambda>c. c \<noteq> CHR ''/'') (rev s));
            host = take (length s - length port - 1) s
        in if cur port = CHR ''+'' then (host, True, atoi (drop 1 port)) else (host, False, atoi port)
      else (s, False, -1))"

text \<open>\<open>load_tokens\<close> is \<open>oauth_load_tokens\<close>, \<open>refresh\<close> whether a refresh of the token is under way.\<close>

definition servlist_connect ::
    "string \<Rightarrow> (string \<Rightarrow> (string \<times> int) option) \<Rightarrow> bool \<Rightarrow> int \<Rightarrow> ircnet \<Rightarrow> bool \<Rightarrow> connection \<Rightarrow> connection option" where
  "servlist_connect nick1 load_tokens refresh now net join co =
     (case selected_server net of
        None \<Rightarrow> Some co
      | Some ircserv \<Rightarrow>
          let co = (if join then co\<lparr>co_willjoin := [],
                       co_favlist := (if ir_favchans net = [] then co_favlist co else ir_favchans net)\<rparr> else co);
              co = co\<lparr>co_loginmethod := (if ir_logintype net \<noteq> 0 then ir_logintype net else LOGIN_PASS_NUM)\<rparr>;
              co = (if co_loginmethod co = LOGIN_OAUTH_NUM then
                      (case load_tokens (ir_name net) of
                         Some (token, expires) \<Rightarrow> co\<lparr>co_oauth_token := Some token, co_oauth_expires := expires\<rparr>
                       | None \<Rightarrow>
                           if ir_oauth_access_token net \<noteq> None
                           then co\<lparr>co_oauth_token := ir_oauth_access_token net, co_oauth_expires := ir_oauth_token_expires net\<rparr>
                           else co)
                    else co);
              nick = (if has_flag (ir_flags net) FLAG_USE_GLOBAL then Some nick1 else ir_nick net);
              co = (case nick of Some n \<Rightarrow> co\<lparr>co_nick := n\<rparr> | None \<Rightarrow> co);
              (host, ssl, port) = host_port ircserv;
              co = co\<lparr>co_dont_use_proxy := \<not> has_flag (ir_flags net) FLAG_USE_PROXY,
                      co_use_ssl := has_flag (ir_flags net) FLAG_USE_SSL \<or> ssl,
                      co_accept_invalid := has_flag (ir_flags net) FLAG_ALLOW_INVALID\<rparr>;
              expired = (co_loginmethod co = LOGIN_OAUTH_NUM \<and> co_oauth_token co \<noteq> None \<and>
                         0 < co_oauth_expires co \<and> co_oauth_expires co - 30 \<le> now)
          in if (case nick of Some n \<Rightarrow> NICKLEN \<le> length n | None \<Rightarrow> False) then None
             else
               map_option
                 (\<lambda>password.
                    let co = co\<lparr>co_password := password, co_encoding := ir_encoding net\<rparr> in
                    if expired \<and> refresh then co\<lparr>co_refreshes := co_refreshes co @ [(host, port)]\<rparr>
                    else co\<lparr>co_connects := co_connects co @ [(host, port)]\<rparr>)
                 (case ir_pass net of None \<Rightarrow> Some [] | Some p \<Rightarrow> safe_strcpy p 1024))"

text \<open>
  \<open>servlist_cycle\<close>: the network with the next server selected, and the delay of the timer that
  connects to it; nothing without a server.
\<close>

definition servlist_cycle :: "int \<Rightarrow> ircnet \<Rightarrow> (ircnet \<times> int) option" where
  "servlist_cycle reconnect_delay net =
     (let max = int (length (ir_servers net)) in
      if max > 0 then
        let net = (if has_flag (ir_flags net) FLAG_CYCLE
                   then net\<lparr>ir_selected := (if ir_selected net + 1 \<ge> max then 0 else ir_selected net + 1)\<rparr>
                   else net);
            del = reconnect_delay * 1000
        in Some (net, if del < 1000 then 500 else del)
      else None)"

end
