(* ===== verification/ServlistProofs.thy ===== *)
theory ServlistProofs
  imports Servlist IgnoreProofs
begin

text \<open>
  The network list: the file gives back what was saved, and a client that cannot connect tries all
  servers of the network in turn.
\<close>

subsection \<open>Lines\<close>

lemma first_buffer_line:
  "CHR 0x0A \<notin> set l \<Longrightarrow> length l < n \<Longrightarrow> first_buffer n (l @ CHR 0x0A # s) = l @ [CHR 0x0A]"
  by (simp add: first_buffer_def takeWhile_line dropWhile_line)

lemma fgets_line:
  "CHR 0x0A \<notin> set l \<Longrightarrow> length l < n \<Longrightarrow> fgets_lines n (l @ CHR 0x0A # s) = (l @ [CHR 0x0A]) # fgets_lines n s"
  by (subst fgets_lines.simps) (simp add: first_buffer_line)

lemma fgets_concat:
  "\<forall>l \<in> set ls. CHR 0x0A \<notin> set l \<and> length l < n \<Longrightarrow>
   fgets_lines n (concat (map (\<lambda>l. l @ [CHR 0x0A]) ls)) = map (\<lambda>l. l @ [CHR 0x0A]) ls"
  by (induction ls) (simp_all add: fgets_line fgets_lines.simps [of _ "[]"])

lemma load_lines_fold:
  "load_lines iconv nets (map (\<lambda>l. l @ [CHR 0x0A]) ls) = foldl (load_line iconv) nets ls"
  by (induction ls arbitrary: nets) (simp_all add: load_lines_def)

subsection \<open>The file\<close>

definition text_ok :: "string \<Rightarrow> bool" where
  "text_ok s \<longleftrightarrow> CHR 0x0A \<notin> set s \<and> length s \<le> 2000"

definition net_ok :: "(string \<Rightarrow> bool) \<Rightarrow> ircnet \<Rightarrow> bool" where
  "net_ok iconv net \<longleftrightarrow>
     list_all (\<lambda>(key, val). text_ok val) (net_lines net) \<and>
     (case ir_encoding net of None \<Rightarrow> True | Some e \<Rightarrow> servlist_check_encoding iconv e) \<and>
     list_all (\<lambda>(name, key). CHR '','' \<notin> set name) (ir_favchans net)"

definition raw_line :: "char \<times> string \<Rightarrow> string" where
  "raw_line l = fst l # CHR ''='' # snd l"

definition field_line :: "(string \<Rightarrow> bool) \<Rightarrow> ircnet \<Rightarrow> char \<times> string \<Rightarrow> ircnet" where
  "field_line iconv net l = load_field iconv (fst l) (snd l) net"

lemma load_raw_line:
  "fst l \<noteq> CHR ''N'' \<Longrightarrow> load_line iconv (nets @ [net]) (raw_line l) = nets @ [field_line iconv net l]"
  by (simp add: load_line_def raw_line_def field_line_def)

lemma load_raw_lines:
  "\<forall>l \<in> set ls. fst l \<noteq> CHR ''N'' \<Longrightarrow>
   foldl (load_line iconv) (nets @ [net]) (map raw_line ls) = nets @ [foldl (field_line iconv) net ls]"
  by (induction ls arbitrary: net) (simp_all add: load_raw_line)

lemma load_name:
  "load_line iconv nets (raw_line (CHR ''N'', name)) = nets @ [net_new name]"
proof -
  have "load_field iconv CHR ''N'' name net = net" for net by (simp add: load_field_def)
  then show ?thesis by (simp add: load_line_def raw_line_def servlist_net_add_def)
qed

lemma fold_servers: "foldl (field_line iconv) net (map (Pair CHR ''S'') ss) = net\<lparr>ir_servers := ir_servers net @ ss\<rparr>"
  by (induction ss arbitrary: net) (simp_all add: field_line_def load_field_def servlist_server_add_def)

lemma fold_commands: "foldl (field_line iconv) net (map (Pair CHR ''C'') cs) = net\<lparr>ir_commands := ir_commands net @ cs\<rparr>"
  by (induction cs arbitrary: net) (simp_all add: field_line_def load_field_def servlist_command_add_def)

lemma comma_take: "CHR '','' \<notin> set a \<Longrightarrow> takeWhile (\<lambda>c. c \<noteq> CHR '','') (a @ CHR '','' # b) = a"
  by (induction a) auto

lemma comma_drop: "CHR '','' \<notin> set a \<Longrightarrow> dropWhile (\<lambda>c. c \<noteq> CHR '','') (a @ CHR '','' # b) = CHR '','' # b"
  by (induction a) auto

lemma no_comma:
  assumes "CHR '','' \<notin> set a"
  shows "takeWhile (\<lambda>c. c \<noteq> CHR '','') a = a" and "dropWhile (\<lambda>c. c \<noteq> CHR '','') a = []"
  using assms by (auto simp: takeWhile_eq_all_conv dropWhile_eq_Nil_conv)

lemma favchan_back:
  "CHR '','' \<notin> set name \<Longrightarrow>
   servlist_favchan_add (favchan_text (name, key)) net = net\<lparr>ir_favchans := ir_favchans net @ [(name, key)]\<rparr>"
  by (cases key) (simp_all add: servlist_favchan_add_def favchan_text_def servlist_favchan_listadd_def comma_take comma_drop no_comma)

lemma fold_favchans:
  "list_all (\<lambda>(name, key). CHR '','' \<notin> set name) fs \<Longrightarrow>
   foldl (field_line iconv) net (map (\<lambda>f. (CHR ''J'', favchan_text f)) fs) = net\<lparr>ir_favchans := ir_favchans net @ fs\<rparr>"
  by (induction fs arbitrary: net) (auto simp: field_line_def load_field_def favchan_back)

lemma atoi_show_int: "atoi (show_int n) = n"
proof (cases "n < 0")
  case True
  then show ?thesis using digits_acc_show_nat [of "nat (- n)"] by (simp add: show_int_def atoi_def is_space_def uchar_def)
qed (simp add: show_int_def atoi_show_nat)

text \<open>A field that is written when it is set, read into a network that has not got it.\<close>

lemma fold_opts:
  "ir_nick net = None \<Longrightarrow> foldl (field_line iconv) net (conf_opt CHR ''I'' v) = net\<lparr>ir_nick := v\<rparr>"
  "ir_nick2 net = None \<Longrightarrow> foldl (field_line iconv) net (conf_opt CHR ''i'' v) = net\<lparr>ir_nick2 := v\<rparr>"
  "ir_user net = None \<Longrightarrow> foldl (field_line iconv) net (conf_opt CHR ''U'' v) = net\<lparr>ir_user := v\<rparr>"
  "ir_real net = None \<Longrightarrow> foldl (field_line iconv) net (conf_opt CHR ''R'' v) = net\<lparr>ir_real := v\<rparr>"
  "ir_pass net = None \<Longrightarrow> foldl (field_line iconv) net (conf_opt CHR ''P'' v) = net\<lparr>ir_pass := v\<rparr>"
  "ir_oauth_authorization_url net = None \<Longrightarrow> foldl (field_line iconv) net (conf_opt CHR ''a'' v) = net\<lparr>ir_oauth_authorization_url := v\<rparr>"
  "ir_oauth_token_url net = None \<Longrightarrow> foldl (field_line iconv) net (conf_opt CHR ''t'' v) = net\<lparr>ir_oauth_token_url := v\<rparr>"
  "ir_oauth_client_id net = None \<Longrightarrow> foldl (field_line iconv) net (conf_opt CHR ''c'' v) = net\<lparr>ir_oauth_client_id := v\<rparr>"
  "ir_oauth_client_secret net = None \<Longrightarrow> foldl (field_line iconv) net (conf_opt CHR ''s'' v) = net\<lparr>ir_oauth_client_secret := v\<rparr>"
  "ir_oauth_scopes net = None \<Longrightarrow> foldl (field_line iconv) net (conf_opt CHR ''o'' v) = net\<lparr>ir_oauth_scopes := v\<rparr>"
  "ir_oauth_access_token net = None \<Longrightarrow> foldl (field_line iconv) net (conf_opt CHR ''T'' v) = net\<lparr>ir_oauth_access_token := v\<rparr>"
  "ir_oauth_refresh_token net = None \<Longrightarrow> foldl (field_line iconv) net (conf_opt CHR ''r'' v) = net\<lparr>ir_oauth_refresh_token := v\<rparr>"
  by (cases v; simp add: conf_opt_def field_line_def load_field_def)+

lemma fold_ints:
  "ir_logintype net = 0 \<Longrightarrow> foldl (field_line iconv) net (conf_int CHR ''L'' n) = net\<lparr>ir_logintype := n\<rparr>"
  "ir_oauth_token_expires net = 0 \<Longrightarrow> foldl (field_line iconv) net (conf_int CHR ''x'' n) = net\<lparr>ir_oauth_token_expires := n\<rparr>"
  by (simp add: conf_int_def field_line_def load_field_def atoi_show_int)+

lemma fold_encoding:
  "ir_encoding net = None \<Longrightarrow> (case e of None \<Rightarrow> True | Some e \<Rightarrow> servlist_check_encoding iconv e) \<Longrightarrow>
   foldl (field_line iconv) net (conf_opt CHR ''E'' e) = net\<lparr>ir_encoding := e\<rparr>"
  by (cases e) (simp_all add: conf_opt_def field_line_def load_field_def)

lemma fold_flags:
  "foldl (field_line iconv) net ((CHR ''F'', show_int (sint f)) # (CHR ''D'', show_int d) # ls) =
     foldl (field_line iconv) (net\<lparr>ir_flags := f, ir_selected := d\<rparr>) ls"
  by (simp add: field_line_def load_field_def atoi_show_int)

lemma net_new_fields:
  "ir_nick (net_new n) = None" "ir_nick2 (net_new n) = None" "ir_user (net_new n) = None" "ir_real (net_new n) = None"
  "ir_pass (net_new n) = None" "ir_logintype (net_new n) = 0" "ir_encoding (net_new n) = None"
  "ir_servers (net_new n) = []" "ir_commands (net_new n) = []" "ir_favchans (net_new n) = []"
  "ir_oauth_authorization_url (net_new n) = None" "ir_oauth_token_url (net_new n) = None"
  "ir_oauth_client_id (net_new n) = None" "ir_oauth_client_secret (net_new n) = None"
  "ir_oauth_scopes (net_new n) = None" "ir_oauth_access_token (net_new n) = None"
  "ir_oauth_refresh_token (net_new n) = None" "ir_oauth_token_expires (net_new n) = 0" "ir_name (net_new n) = n"
  by (simp_all add: net_new_def)

lemma load_net_lines:
  assumes "net_ok iconv net"
  shows "foldl (field_line iconv) (net_new (ir_name net)) (tl (net_lines net)) = net"
proof -
  have enc: "case ir_encoding net of None \<Rightarrow> True | Some e \<Rightarrow> servlist_check_encoding iconv e"
    and fav: "list_all (\<lambda>(name, key). CHR '','' \<notin> set name) (ir_favchans net)"
    using assms by (simp_all add: net_ok_def)
  show ?thesis
    unfolding net_lines_def append_Cons append_Nil list.sel foldl_append
    by (simp add: fold_opts fold_ints fold_flags fold_encoding [OF _ enc] fold_servers fold_commands
        fold_favchans [OF fav] net_new_fields del: foldl_Cons)
qed

definition save_lines :: "string \<Rightarrow> ircnet list \<Rightarrow> string list" where
  "save_lines version nets =
     [''v='' @ version, []] @ concat (map (\<lambda>net. map raw_line (net_lines net) @ [[]]) nets)"

lemma save_text: "servlist_save version nets = concat (map (\<lambda>l. l @ [CHR 0x0A]) (save_lines version nets))"
proof -
  have "net_text net = concat (map (\<lambda>l. l @ [CHR 0x0A]) (map raw_line (net_lines net) @ [[]]))" for net
    unfolding net_text_def by (simp add: comp_def raw_line_def conf_line_def case_prod_unfold)
  then have "concat (map net_text nets) =
      concat (map (\<lambda>l. l @ [CHR 0x0A]) (concat (map (\<lambda>net. map raw_line (net_lines net) @ [[]]) nets)))"
    by (induction nets) simp_all
  then show ?thesis by (simp add: servlist_save_def save_lines_def)
qed

lemma line_keys: "\<forall>l \<in> set (tl (net_lines net)). fst l \<noteq> CHR ''N''"
  by (auto simp: net_lines_def conf_opt_def conf_int_def split: option.splits if_splits)

lemma load_blank: "load_line iconv nets [] = nets"
  by (simp add: load_line_def)

lemma load_net:
  assumes "net_ok iconv net"
  shows "foldl (load_line iconv) nets (map raw_line (net_lines net) @ [[]]) = nets @ [net]"
proof -
  have "net_lines net = (CHR ''N'', ir_name net) # tl (net_lines net)" by (simp add: net_lines_def)
  then have "foldl (load_line iconv) nets (map raw_line (net_lines net)) =
      foldl (load_line iconv) (nets @ [net_new (ir_name net)]) (map raw_line (tl (net_lines net)))"
    by (metis foldl_Cons list.simps(9) load_name)
  also have "\<dots> = nets @ [net]"
    by (simp add: load_raw_lines [OF line_keys] load_net_lines [OF assms])
  finally show ?thesis by (simp add: load_blank)
qed

lemma load_nets:
  "\<forall>net \<in> set ns. net_ok iconv net \<Longrightarrow>
   foldl (load_line iconv) nets (concat (map (\<lambda>net. map raw_line (net_lines net) @ [[]]) ns)) = nets @ ns"
proof (induction ns arbitrary: nets)
  case (Cons net ns)
  then show ?case
    using load_net [of iconv net nets] by simp
qed simp

lemma net_line_short:
  "net_ok iconv net \<Longrightarrow> l \<in> set (net_lines net) \<Longrightarrow> CHR 0x0A \<notin> set (raw_line l) \<and> length (raw_line l) < 2045"
proof -
  assume "net_ok iconv net" "l \<in> set (net_lines net)"
  then have "text_ok (snd l)" by (auto simp: net_ok_def list_all_iff)
  moreover assume "l \<in> set (net_lines net)"
  then have "fst l \<noteq> CHR 0x0A"
    by (auto simp: net_lines_def conf_opt_def conf_int_def split: option.splits if_splits)
  ultimately show ?thesis by (simp add: text_ok_def raw_line_def)
qed

text \<open>C38: Reading \<open>servlist.conf\<close> gives back the networks that were saved, in their order, with all
  their fields: when texts have no line feed and fit the buffer, names of favourite channels have
  no comma, and encodings are known to iconv.
\<close>

theorem servlist_file_roundtrip:
  assumes "text_ok version" "\<forall>net \<in> set nets. net_ok iconv net"
  shows "servlist_load iconv (servlist_save version nets) = nets"
proof -
  have "\<forall>l \<in> set (save_lines version nets). CHR 0x0A \<notin> set l \<and> length l < 2045"
    using assms net_line_short by (auto simp: save_lines_def text_ok_def)
  from fgets_concat [OF this]
  have "servlist_load iconv (servlist_save version nets) = foldl (load_line iconv) [] (save_lines version nets)"
    by (simp add: servlist_load_def save_text load_lines_fold)
  also have "\<dots> = foldl (load_line iconv) [] (concat (map (\<lambda>net. map raw_line (net_lines net) @ [[]]) nets))"
    by (simp add: save_lines_def load_line_def)
  also have "\<dots> = nets" using load_nets [OF assms(2), of "[]"] by simp
  finally show ?thesis .
qed

definition demo_net :: ircnet where
  "demo_net = (net_new ''Libera'')\<lparr>ir_nick := Some ''bob'', ir_pass := Some [], ir_servers := [''irc.a/+6697'', ''irc.b''],
     ir_favchans := [(''#x'', None), (''#y'', Some ''k,ey'')], ir_selected := 1, ir_logintype := 6\<rparr>"

lemma servlist_file_roundtrip_witness:
  "servlist_load (\<lambda>_. True) (servlist_save ''2.17'' [demo_net, net_new ''Other'']) = [demo_net, net_new ''Other'']"
proof -
  have f: "sint (FLAG_CYCLE + FLAG_USE_GLOBAL + FLAG_USE_PROXY + FLAG_USE_SSL) = 23"
    by (simp add: FLAG_CYCLE_def FLAG_USE_GLOBAL_def FLAG_USE_PROXY_def FLAG_USE_SSL_def)
  have s: "show_nat 23 = ''23''" "show_nat 0 = ''0''" "show_nat (Suc 0) = ''1''" "show_nat 6 = ''6''"
    by (code_simp)+
  have "net_ok (\<lambda>_. True) demo_net" "net_ok (\<lambda>_. True) (net_new ''Other'')"
    by (simp_all add: net_ok_def net_lines_def demo_net_def net_new_def conf_opt_def conf_int_def text_ok_def
        favchan_text_def f show_int_def s servlist_check_encoding_def)
  then show ?thesis by (intro servlist_file_roundtrip) (simp_all add: text_ok_def)
qed

subsection \<open>Trying the servers\<close>

definition cycled :: "int \<Rightarrow> nat \<Rightarrow> ircnet \<Rightarrow> ircnet" where
  "cycled d k net = ((\<lambda>n. case servlist_cycle d n of None \<Rightarrow> n | Some (n, _) \<Rightarrow> n) ^^ k) net"

lemma cycled_selected:
  assumes "has_flag (ir_flags net) FLAG_CYCLE" "0 \<le> ir_selected net" "ir_selected net < int (length (ir_servers net))"
  shows "cycled d k net = net\<lparr>ir_selected := (ir_selected net + int k) mod int (length (ir_servers net))\<rparr>"
proof (induction k)
  case 0
  then show ?case using assms by (simp add: cycled_def)
next
  case (Suc k)
  let ?m = "int (length (ir_servers net))" and ?s = "ir_selected net"
  have m: "0 < ?m" using assms by linarith
  have e: "(if (?s + int k) mod ?m + 1 \<ge> ?m then 0 else (?s + int k) mod ?m + 1) = (?s + int (Suc k)) mod ?m"
  proof -
    have "(?s + int (Suc k)) mod ?m = ((?s + int k) mod ?m + 1) mod ?m" by (simp add: mod_add_right_eq ac_simps)
    moreover have "(?s + int k) mod ?m < ?m" "0 \<le> (?s + int k) mod ?m" using m by simp_all
    moreover have "(if x + 1 \<ge> m then 0 else x + 1) = (x + 1) mod m" if "x < m" "0 \<le> x" for x m :: int
      using that by (cases "x + 1 = m") auto
    ultimately show ?thesis by metis
  qed
  show ?case
    unfolding e [symmetric] using Suc m assms(1) by (simp add: cycled_def servlist_cycle_def Let_def)
qed

text \<open>C39: With the option to cycle, as many attempts to reconnect as the network has servers try
  every one of them.
\<close>

theorem servlist_cycle_tries_all:
  assumes "has_flag (ir_flags net) FLAG_CYCLE" "0 \<le> ir_selected net" "ir_selected net < int (length (ir_servers net))"
  shows "set (map (\<lambda>k. selected_server (cycled d k net)) [0..<length (ir_servers net)]) = Some ` set (ir_servers net)"
proof -
  let ?n = "length (ir_servers net)" and ?s = "nat (ir_selected net)"
  have s: "ir_selected net = int ?s" "?s < ?n" using assms by simp_all
  have sel: "selected_server (cycled d k net) = Some (ir_servers net ! ((?s + k) mod ?n))" for k
  proof -
    have "(ir_selected net + int k) mod int ?n = int ((?s + k) mod ?n)" using s(1) by (simp add: zmod_int)
    moreover have "(?s + k) mod ?n < ?n" by (rule mod_less_divisor) (use s(2) in linarith)
    ultimately show ?thesis by (simp add: cycled_selected [OF assms] selected_server_def Let_def)
  qed
  have "(\<lambda>k. (?s + k) mod ?n) ` {0..<?n} = {0..<?n}"
  proof
    have n: "0 < ?n" using s(2) by linarith
    show "(\<lambda>k. (?s + k) mod ?n) ` {0..<?n} \<subseteq> {0..<?n}" using mod_less_divisor [OF n] by auto
    show "{0..<?n} \<subseteq> (\<lambda>k. (?s + k) mod ?n) ` {0..<?n}"
    proof
      fix i assume i: "i \<in> {0..<?n}"
      have "i = (?s + (i + ?n - ?s) mod ?n) mod ?n" using i s(2) by (simp add: mod_add_right_eq)
      moreover have "(i + ?n - ?s) mod ?n \<in> {0..<?n}" using mod_less_divisor [OF n] by auto
      ultimately show "i \<in> (\<lambda>k. (?s + k) mod ?n) ` {0..<?n}" by blast
    qed
  qed
  moreover have "(\<lambda>k. Some (ir_servers net ! ((?s + k) mod ?n))) ` {0..<?n} =
      (\<lambda>i. Some (ir_servers net ! i)) ` ((\<lambda>k. (?s + k) mod ?n) ` {0..<?n})"
    by (simp add: image_image)
  ultimately have "(\<lambda>k. Some (ir_servers net ! ((?s + k) mod ?n))) ` {0..<?n} = (\<lambda>i. Some (ir_servers net ! i)) ` {0..<?n}"
    by simp
  also have "\<dots> = Some ` (nth (ir_servers net) ` {0..<?n})" by (simp add: image_image)
  also have "\<dots> = Some ` set (ir_servers net)" by (simp add: nth_image)
  finally show ?thesis by (simp add: sel)
qed

lemma servlist_cycle_tries_all_witness:
  "set (map (\<lambda>k. selected_server (cycled 10 k demo_net)) [0..<2]) = {Some ''irc.a/+6697'', Some ''irc.b''}"
proof -
  have f: "has_flag (ir_flags demo_net) FLAG_CYCLE"
    by (simp add: demo_net_def net_new_def has_flag_def FLAG_CYCLE_def FLAG_USE_GLOBAL_def FLAG_USE_PROXY_def FLAG_USE_SSL_def)
  have s: "ir_servers demo_net = [''irc.a/+6697'', ''irc.b'']" and l: "length (ir_servers demo_net) = 2"
    by (simp_all add: demo_net_def)
  have "0 \<le> ir_selected demo_net" "ir_selected demo_net < int (length (ir_servers demo_net))"
    by (simp_all add: demo_net_def)
  from servlist_cycle_tries_all [OF f this, of 10, unfolded l] show ?thesis by (simp only: s list.set image_insert image_empty)
qed

text \<open>A server is found under a name that only begins with it.\<close>

lemma found_by_prefix: "host_matches ''irc.net.evil'' ''irc.net/6667''"
  by (simp add: host_matches_def)

end
