(* ===== verification/Sts.thy ===== *)
theory Sts
  imports ServlistProofs CommandTable
begin

text \<open>
  Strict transport security, the policies of \<open>src/common/servlist.c\<close>: a host that announced one is
  connected to by TLS until the policy expires. \<open>now\<close> is \<open>time (NULL)\<close>; a file is a text.
\<close>

subsection \<open>The policies\<close>

record sts_record =
  sts_host :: string
  sts_port :: int
  sts_expires :: int

definition same_host :: "string \<Rightarrow> sts_record \<Rightarrow> bool" where
  "same_host host p \<longleftrightarrow> g_ascii_strcasecmp (sts_host p) host = 0"

text \<open>\<open>sts_policy_find\<close>: an expired policy is removed when it is found.\<close>

fun sts_find :: "string \<Rightarrow> int \<Rightarrow> sts_record list \<Rightarrow> sts_record list \<times> sts_record option" where
  "sts_find host now [] = ([], None)"
| "sts_find host now (p # ps) =
     (if same_host host p then
        (if 0 < sts_expires p \<and> sts_expires p < now then (ps, None) else (p # ps, Some p))
      else let (qs, r) = sts_find host now ps in (p # qs, r))"

definition sts_policy_find :: "string option \<Rightarrow> int \<Rightarrow> sts_record list \<Rightarrow> sts_record list \<times> sts_record option" where
  "sts_policy_find host now ps = (case host of None \<Rightarrow> (ps, None) | Some h \<Rightarrow> sts_find h now ps)"

text \<open>An assignment through the pointer that was found.\<close>

fun sts_change :: "(sts_record \<Rightarrow> sts_record) \<Rightarrow> string \<Rightarrow> sts_record list \<Rightarrow> sts_record list" where
  "sts_change f host [] = []"
| "sts_change f host (p # ps) = (if same_host host p then f p # ps else p # sts_change f host ps)"

definition sts_policy_add :: "string option \<Rightarrow> int \<Rightarrow> int \<Rightarrow> int \<Rightarrow> sts_record list \<Rightarrow> sts_record list" where
  "sts_policy_add host port duration now ps =
     (case host of
        None \<Rightarrow> ps
      | Some h \<Rightarrow>
          if port \<le> 0 then ps
          else
            case sts_find h now ps of
              (ps, Some _) \<Rightarrow>
                sts_change (\<lambda>p. p\<lparr>sts_port := port,
                    sts_expires := (if duration > 0 then now + duration else if duration = 0 then 0 else sts_expires p)\<rparr>) h ps
            | (ps, None) \<Rightarrow>
                \<lparr>sts_host = h, sts_port = port, sts_expires = (if duration > 0 then now + duration else 0)\<rparr> # ps)"

fun sts_drop :: "string \<Rightarrow> sts_record list \<Rightarrow> sts_record list" where
  "sts_drop host [] = []"
| "sts_drop host (p # ps) = (if same_host host p then ps else p # sts_drop host ps)"

definition sts_policy_remove :: "string option \<Rightarrow> int \<Rightarrow> sts_record list \<Rightarrow> sts_record list" where
  "sts_policy_remove host now ps =
     (case sts_policy_find host now ps of
        (ps, None) \<Rightarrow> ps
      | (ps, Some _) \<Rightarrow> sts_drop (the host) ps)"

text \<open>The port for TLS, when there is a policy.\<close>

definition sts_policy_check :: "string option \<Rightarrow> int \<Rightarrow> sts_record list \<Rightarrow> sts_record list \<times> int option" where
  "sts_policy_check host now ps = (case sts_policy_find host now ps of (ps, r) \<Rightarrow> (ps, map_option sts_port r))"

subsection \<open>The file\<close>

definition sts_line :: "sts_record \<Rightarrow> string" where
  "sts_line p = sts_host p @ '' '' @ show_int (sts_port p) @ '' '' @ show_int (sts_expires p) @ [CHR 0x0A]"

definition sts_policy_save :: "int \<Rightarrow> sts_record list \<Rightarrow> string" where
  "sts_policy_save now ps =
     concat (map sts_line (filter (\<lambda>p. sts_expires p \<noteq> 0 \<and> \<not> sts_expires p < now) ps))"

text \<open>The words of a line, as \<open>strtok (buf, " \t\n")\<close> gives them.\<close>

definition token_end :: "char \<Rightarrow> bool" where
  "token_end c \<longleftrightarrow> c = CHR '' '' \<or> c = CHR 0x09 \<or> c = CHR 0x0A"

function strtok_all :: "string \<Rightarrow> string list" where
  "strtok_all s =
     (case dropWhile token_end s of
        [] \<Rightarrow> []
      | c # t \<Rightarrow> (c # takeWhile (\<lambda>c. \<not> token_end c) t) # strtok_all (dropWhile (\<lambda>c. \<not> token_end c) t))"
  by pat_completeness auto
termination
proof (relation "measure length")
  fix s c t
  assume s: "dropWhile token_end s = c # t"
  have "length (dropWhile (\<lambda>c. \<not> token_end c) t) \<le> length t" by (rule length_dropWhile_le)
  moreover have "length (c # t) \<le> length s" using s by (metis length_dropWhile_le)
  ultimately show "(dropWhile (\<lambda>c. \<not> token_end c) t, s) \<in> measure length" by simp
qed simp

declare strtok_all.simps [simp del]

text \<open>A line of the file; the time of expiry is set in the first policy of the list.\<close>

definition sts_load_line :: "int \<Rightarrow> sts_record list \<Rightarrow> string \<Rightarrow> sts_record list" where
  "sts_load_line now ps buf =
     (case strtok_all buf of
        host # port # expires # _ \<Rightarrow>
          if 0 < atoi expires \<and> atoi expires < now then ps
          else
            (case sts_policy_add (Some host) (atoi port) 0 now ps of
               [] \<Rightarrow> []
             | p # ps \<Rightarrow> p\<lparr>sts_expires := atoi expires\<rparr> # ps)
      | _ \<Rightarrow> ps)"

definition sts_policy_init :: "int \<Rightarrow> string \<Rightarrow> sts_record list \<Rightarrow> sts_record list" where
  "sts_policy_init now conf ps = foldl (sts_load_line now) ps (fgets_lines 511 conf)"

subsection \<open>What happens to the policies\<close>

datatype sts_op =
    Sts_add "string option" int int
  | Sts_remove "string option"
  | Sts_check "string option"
  | Sts_restart int

text \<open>A restart saves at the time of the step and reads at its argument.\<close>

fun sts_step :: "int \<times> sts_op \<Rightarrow> sts_record list \<Rightarrow> sts_record list" where
  "sts_step (now, Sts_add host port duration) ps = sts_policy_add host port duration now ps"
| "sts_step (now, Sts_remove host) ps = sts_policy_remove host now ps"
| "sts_step (now, Sts_check host) ps = fst (sts_policy_check host now ps)"
| "sts_step (now, Sts_restart later) ps = sts_policy_init later (sts_policy_save now ps) []"

subsection \<open>The policy of a host\<close>

definition plain_host :: "string \<Rightarrow> bool" where
  "plain_host h \<longleftrightarrow> h \<noteq> [] \<and> length h \<le> 400 \<and> no_nul h \<and> (\<forall>c \<in> set h. \<not> token_end c)"

definition sts_ok :: "sts_record list \<Rightarrow> bool" where
  "sts_ok ps \<longleftrightarrow> distinct (map (name_key \<circ> sts_host) ps) \<and>
     (\<forall>p \<in> set ps. plain_host (sts_host p) \<and> 0 < sts_port p \<and> sts_port p < 2 ^ 31 \<and>
        0 \<le> sts_expires p \<and> sts_expires p < 2 ^ 63)"

lemma same_host_key: "plain_host h \<Longrightarrow> plain_host (sts_host p) \<Longrightarrow> same_host h p \<longleftrightarrow> name_key (sts_host p) = name_key h"
  using strcasecmp_key [of "sts_host p" h] by (simp add: same_host_def plain_host_def)

definition host_policy :: "string \<Rightarrow> sts_record list \<Rightarrow> sts_record option" where
  "host_policy h ps = find (\<lambda>p. name_key (sts_host p) = name_key h) ps"

lemma sts_find_list:
  "sts_ok ps \<Longrightarrow> plain_host h \<Longrightarrow>
   fst (sts_find h now ps) =
     filter (\<lambda>p. \<not> (name_key (sts_host p) = name_key h \<and> 0 < sts_expires p \<and> sts_expires p < now)) ps"
proof (induction ps)
  case (Cons p ps)
  have ok: "sts_ok ps" "plain_host (sts_host p)" "name_key (sts_host p) \<notin> (name_key \<circ> sts_host) ` set ps"
    using Cons.prems(1) by (auto simp: sts_ok_def)
  show ?case
  proof (cases "name_key (sts_host p) = name_key h")
    case True
    then have "filter (\<lambda>q. \<not> (name_key (sts_host q) = name_key h \<and> 0 < sts_expires q \<and> sts_expires q < now)) ps = ps"
      using ok(3) by (auto simp: filter_id_conv image_iff)
    then show ?thesis using True same_host_key [OF Cons.prems(2) ok(2)] by simp
  next
    case False
    then show ?thesis
      using Cons.IH [OF ok(1) Cons.prems(2)] same_host_key [OF Cons.prems(2) ok(2)] by (simp add: case_prod_beta Let_def)
  qed
qed simp

lemma sts_find_result:
  "sts_ok ps \<Longrightarrow> plain_host h \<Longrightarrow>
   snd (sts_find h now ps) =
     (case host_policy h ps of None \<Rightarrow> None | Some p \<Rightarrow> if 0 < sts_expires p \<and> sts_expires p < now then None else Some p)"
proof (induction ps)
  case (Cons p ps)
  have ok: "sts_ok ps" "plain_host (sts_host p)" using Cons.prems(1) by (auto simp: sts_ok_def)
  show ?case
    using Cons.IH [OF ok(1) Cons.prems(2)] same_host_key [OF Cons.prems(2) ok(2)]
    by (simp add: host_policy_def case_prod_beta Let_def)
qed (simp add: host_policy_def)

lemma sts_ok_filter: "sts_ok ps \<Longrightarrow> sts_ok (filter P ps)"
  by (auto simp: sts_ok_def distinct_map_filter)

lemma sts_change_map:
  "sts_ok ps \<Longrightarrow> plain_host h \<Longrightarrow>
   sts_change f h ps = map (\<lambda>p. if name_key (sts_host p) = name_key h then f p else p) ps"
proof (induction ps)
  case (Cons p ps)
  have ok: "sts_ok ps" "plain_host (sts_host p)" "name_key (sts_host p) \<notin> (name_key \<circ> sts_host) ` set ps"
    using Cons.prems(1) by (auto simp: sts_ok_def)
  have "map (\<lambda>q. if name_key (sts_host q) = name_key h then f q else q) ps = ps" if "name_key (sts_host p) = name_key h"
    using ok(3) that by (intro map_idI) (metis comp_apply image_eqI)
  then show ?case
    using Cons.IH [OF ok(1) Cons.prems(2)] same_host_key [OF Cons.prems(2) ok(2)] by simp
qed simp

lemma sts_drop_filter:
  "sts_ok ps \<Longrightarrow> plain_host h \<Longrightarrow> sts_drop h ps = filter (\<lambda>p. name_key (sts_host p) \<noteq> name_key h) ps"
proof (induction ps)
  case (Cons p ps)
  have ok: "sts_ok ps" "plain_host (sts_host p)" "name_key (sts_host p) \<notin> (name_key \<circ> sts_host) ` set ps"
    using Cons.prems(1) by (auto simp: sts_ok_def)
  have "filter (\<lambda>q. name_key (sts_host q) \<noteq> name_key h) ps = ps" if "name_key (sts_host p) = name_key h"
    using ok(3) that by (auto simp: filter_id_conv image_iff)
  then show ?case
    using Cons.IH [OF ok(1) Cons.prems(2)] same_host_key [OF Cons.prems(2) ok(2)] by auto
qed simp

subsection \<open>Every step keeps the policies in order\<close>

definition expired :: "int \<Rightarrow> sts_record \<Rightarrow> bool" where
  "expired now p \<longleftrightarrow> 0 < sts_expires p \<and> sts_expires p < now"

text \<open>What a step does to the list: \<open>sts_without\<close> is the list behind a search.\<close>

definition sts_without :: "string \<Rightarrow> int \<Rightarrow> sts_record list \<Rightarrow> sts_record list" where
  "sts_without h now ps = filter (\<lambda>p. \<not> (name_key (sts_host p) = name_key h \<and> expired now p)) ps"

lemma host_policy_filter:
  "host_policy h ps = Some p \<Longrightarrow> P p \<Longrightarrow> host_policy h (filter P ps) = Some p"
  by (induction ps) (auto simp: host_policy_def split: if_splits)

lemma host_policy_other:
  "name_key k \<noteq> name_key h \<Longrightarrow> host_policy h (filter (\<lambda>p. \<not> (name_key (sts_host p) = name_key k \<and> Q p)) ps) = host_policy h ps"
  by (induction ps) (auto simp: host_policy_def)

lemma host_policy_map:
  "name_key k \<noteq> name_key h \<Longrightarrow> (\<And>p. sts_host (f p) = sts_host p) \<Longrightarrow>
   host_policy h (map (\<lambda>p. if name_key (sts_host p) = name_key k then f p else p) ps) = host_policy h ps"
  by (induction ps) (auto simp: host_policy_def)

lemma host_policy_mem: "host_policy h ps = Some p \<Longrightarrow> p \<in> set ps \<and> name_key (sts_host p) = name_key h"
  unfolding host_policy_def by (induction ps) (auto split: if_splits)

lemma sts_find_eq:
  assumes "sts_ok ps" "plain_host h"
  shows "sts_find h now ps =
    (sts_without h now ps, case host_policy h ps of None \<Rightarrow> None | Some p \<Rightarrow> if expired now p then None else Some p)"
  using sts_find_list [OF assms] sts_find_result [OF assms]
  unfolding sts_without_def expired_def by (simp add: prod_eq_iff)

definition op_ok :: "int \<times> sts_op \<Rightarrow> bool" where
  "op_ok x \<longleftrightarrow>
     0 \<le> fst x \<and> fst x < 2 ^ 62 \<and>
     (case snd x of
        Sts_add host port duration \<Rightarrow> (\<forall>h. host = Some h \<longrightarrow> plain_host h) \<and> port < 2 ^ 31 \<and> duration < 2 ^ 31
      | Sts_remove host \<Rightarrow> (\<forall>h. host = Some h \<longrightarrow> plain_host h)
      | Sts_check host \<Rightarrow> (\<forall>h. host = Some h \<longrightarrow> plain_host h)
      | Sts_restart later \<Rightarrow> 0 \<le> later)"

lemma sts_ok_without: "sts_ok ps \<Longrightarrow> sts_ok (sts_without h now ps)"
  by (simp add: sts_without_def sts_ok_filter)

lemma sts_ok_add:
  assumes ps: "sts_ok ps" and op: "op_ok (now, Sts_add host port duration)"
  shows "sts_ok (sts_policy_add host port duration now ps)"
proof (cases "host = None \<or> port \<le> 0")
  case True
  then show ?thesis using ps by (auto simp: sts_policy_add_def split: option.split)
next
  case False
  then obtain h where h: "host = Some h" "plain_host h" "0 < port"
    using op by (auto simp: op_ok_def)
  have b: "0 \<le> now" "now < 2 ^ 62" "port < 2 ^ 31" "duration < 2 ^ 31" using op by (simp_all add: op_ok_def)
  let ?f = "\<lambda>p. p\<lparr>sts_port := port,
    sts_expires := (if duration > 0 then now + duration else if duration = 0 then 0 else sts_expires p)\<rparr>"
  have wo: "sts_ok (sts_without h now ps)" by (rule sts_ok_without [OF ps])
  show ?thesis
  proof (cases "case host_policy h ps of None \<Rightarrow> None | Some p \<Rightarrow> if expired now p then None else Some p")
    case (Some p)
    then have eq: "sts_policy_add host port duration now ps =
        map (\<lambda>p. if name_key (sts_host p) = name_key h then ?f p else p) (sts_without h now ps)"
      using h by (simp add: sts_policy_add_def sts_find_eq [OF ps h(2)] sts_change_map [OF wo h(2)])
    have keys: "map (name_key \<circ> sts_host) (map (\<lambda>p. if name_key (sts_host p) = name_key h then ?f p else p) qs) =
        map (name_key \<circ> sts_host) qs" for qs by (induction qs) auto
    show ?thesis unfolding eq sts_ok_def keys using wo h(3) b unfolding sts_ok_def by auto
  next
    case None
    then have new: "sts_policy_add host port duration now ps =
        \<lparr>sts_host = h, sts_port = port, sts_expires = (if duration > 0 then now + duration else 0)\<rparr> # sts_without h now ps"
      using h by (simp add: sts_policy_add_def sts_find_eq [OF ps h(2)])
    have "name_key (sts_host q) \<noteq> name_key h" if "q \<in> set (sts_without h now ps)" for q
    proof
      assume k: "name_key (sts_host q) = name_key h"
      from that have q: "q \<in> set ps" "\<not> expired now q" using k by (auto simp: sts_without_def)
      then have "host_policy h ps \<noteq> None" unfolding host_policy_def find_None_iff using k by blast
      then obtain p where p: "host_policy h ps = Some p" by auto
      have m: "p \<in> set ps" "name_key (sts_host p) = name_key h" using host_policy_mem [OF p] by simp_all
      have "inj_on (name_key \<circ> sts_host) (set ps)" using ps by (simp add: sts_ok_def distinct_map)
      from inj_onD [OF this _ m(1) q(1)] have "p = q" using m(2) k by simp
      then show False using None p q(2) by simp
    qed
    then have "name_key h \<notin> set (map (name_key \<circ> sts_host) (sts_without h now ps))" by force
    then show ?thesis using wo new h b by (simp add: sts_ok_def)
  qed
qed

lemma sts_ok_remove: "sts_ok ps \<Longrightarrow> plain_host h \<Longrightarrow>
  sts_policy_remove (Some h) now ps =
    (if snd (sts_find h now ps) = None then sts_without h now ps
     else filter (\<lambda>p. name_key (sts_host p) \<noteq> name_key h) (sts_without h now ps))"
  using sts_drop_filter [OF sts_ok_without]
  by (auto simp: sts_policy_remove_def sts_policy_find_def sts_find_eq split: option.splits)

lemma host_policy_iff:
  assumes "sts_ok ps"
  shows "host_policy h ps = Some p \<longleftrightarrow> p \<in> set ps \<and> name_key (sts_host p) = name_key h"
proof
  assume p: "p \<in> set ps \<and> name_key (sts_host p) = name_key h"
  then have "host_policy h ps \<noteq> None" unfolding host_policy_def find_None_iff by blast
  then obtain q where q: "host_policy h ps = Some q" by auto
  have "inj_on (name_key \<circ> sts_host) (set ps)" using assms by (simp add: sts_ok_def distinct_map)
  from inj_onD [OF this, of q p] have "q = p" using p host_policy_mem [OF q] by simp
  then show "host_policy h ps = Some p" using q by simp
qed (rule host_policy_mem)

subsection \<open>A restart\<close>

lemma strtok_word:
  "w \<noteq> [] \<Longrightarrow> \<forall>c \<in> set w. \<not> token_end c \<Longrightarrow> token_end d \<Longrightarrow> strtok_all (w @ d # s) = w # strtok_all (d # s)"
proof -
  assume w: "w \<noteq> []" "\<forall>c \<in> set w. \<not> token_end c" and d: "token_end d"
  obtain c t where ct: "w = c # t" using w by (cases w) auto
  have "takeWhile (\<lambda>c. \<not> token_end c) (t @ d # s) = t" "dropWhile (\<lambda>c. \<not> token_end c) (t @ d # s) = d # s"
    using w d ct by (simp_all add: takeWhile_append dropWhile_append)
  then show ?thesis using w ct by (subst strtok_all.simps) simp
qed

lemma strtok_end: "token_end d \<Longrightarrow> strtok_all (d # s) = strtok_all s"
  by (subst (1 2) strtok_all.simps) simp

lemma strtok_Nil: "strtok_all [] = []"
  by (simp add: strtok_all.simps)

lemma digits_plain: "\<forall>c \<in> set (show_nat n). \<not> token_end c"
proof
  fix c assume "c \<in> set (show_nat n)"
  then have "is_digit c" using show_nat_digits by blast
  from is_digit_not_space [OF this] show "\<not> token_end c" by (auto simp: token_end_def is_space_def uchar_def)
qed

lemma strtok_line:
  assumes "plain_host (sts_host p)" "0 \<le> sts_port p" "0 \<le> sts_expires p"
  shows "strtok_all (sts_line p) = [sts_host p, show_int (sts_port p), show_int (sts_expires p)]"
proof -
  have e: "token_end (CHR '' '')" "token_end (CHR 0x0A)" by (simp_all add: token_end_def)
  have i: "show_int (sts_port p) = show_nat (nat (sts_port p))" "show_int (sts_expires p) = show_nat (nat (sts_expires p))"
    using assms by (simp_all add: show_int_def)
  show ?thesis
    using assms(1) unfolding sts_line_def i append_Cons append_Nil
    by (simp add: plain_host_def strtok_word strtok_end digits_plain e strtok_Nil)
qed

definition sts_good :: "sts_record \<Rightarrow> bool" where
  "sts_good p \<longleftrightarrow> plain_host (sts_host p) \<and> 0 < sts_port p \<and> sts_port p < 2 ^ 31 \<and> 0 < sts_expires p \<and> sts_expires p < 2 ^ 63"

lemma sts_line_fits:
  assumes "sts_good p"
  shows "\<exists>l. sts_line p = l @ [CHR 0x0A] \<and> CHR 0x0A \<notin> set l \<and> length l < 511"
proof -
  let ?l = "sts_host p @ '' '' @ show_int (sts_port p) @ '' '' @ show_int (sts_expires p)"
  have i: "show_int (sts_port p) = show_nat (nat (sts_port p))" "show_int (sts_expires p) = show_nat (nat (sts_expires p))"
    using assms by (simp_all add: sts_good_def show_int_def)
  have "sts_port p < int (10 ^ Suc 9)" "sts_expires p < int (10 ^ Suc 18)" "0 < sts_port p" "0 < sts_expires p"
    using assms by (simp_all add: sts_good_def)
  then have "nat (sts_port p) < 10 ^ Suc 9" "nat (sts_expires p) < 10 ^ Suc 18" by linarith+
  from this [THEN length_show_nat] have "length ?l < 511" using assms by (simp add: i sts_good_def plain_host_def)
  moreover have "CHR 0x0A \<notin> set ?l"
  proof -
    have nl: "token_end (CHR 0x0A)" by (simp add: token_end_def)
    then have "CHR 0x0A \<notin> set (show_nat n)" for n using digits_plain by blast
    moreover have "CHR 0x0A \<notin> set (sts_host p)" using assms nl unfolding sts_good_def plain_host_def by blast
    ultimately show ?thesis by (simp add: i)
  qed
  moreover have "sts_line p = ?l @ [CHR 0x0A]" by (simp add: sts_line_def)
  ultimately show ?thesis by blast
qed

lemma fgets_sts: "\<forall>p \<in> set qs. sts_good p \<Longrightarrow> fgets_lines 511 (concat (map sts_line qs)) = map sts_line qs"
proof (induction qs)
  case (Cons p qs)
  obtain l where l: "sts_line p = l @ [CHR 0x0A]" "CHR 0x0A \<notin> set l" "length l < 511"
    using sts_line_fits Cons.prems by auto
  show ?case using Cons fgets_line [OF l(2,3)] by (simp add: l(1))
qed (simp add: fgets_lines.simps [of _ "[]"])

lemma sts_load_one:
  assumes "sts_good p" "sts_ok acc" "name_key (sts_host p) \<notin> (name_key \<circ> sts_host) ` set acc"
  shows "sts_load_line later acc (sts_line p) = (if expired later p then acc else p # acc)"
proof -
  have pl: "plain_host (sts_host p)" using assms(1) by (simp add: sts_good_def)
  have new: "name_key (sts_host q) \<noteq> name_key (sts_host p)" if "q \<in> set acc" for q
    using assms(3) that by (metis comp_apply image_eqI)
  then have "host_policy (sts_host p) acc = None"
    unfolding host_policy_def find_None_iff by blast
  moreover have "sts_without (sts_host p) later acc = acc"
    using new by (simp add: sts_without_def filter_id_conv)
  ultimately have "sts_policy_add (Some (sts_host p)) (sts_port p) 0 later acc =
      \<lparr>sts_host = sts_host p, sts_port = sts_port p, sts_expires = 0\<rparr> # acc"
    using assms(1) by (simp add: sts_policy_add_def sts_find_eq [OF assms(2) pl] sts_good_def)
  then show ?thesis
    using assms(1) strtok_line [of p]
    by (simp add: sts_load_line_def sts_good_def atoi_show_int expired_def)
qed

lemma sts_load_all:
  "\<forall>p \<in> set qs. sts_good p \<Longrightarrow> sts_ok (rev qs @ acc) \<Longrightarrow>
   foldl (sts_load_line later) acc (map sts_line qs) = rev (filter (\<lambda>p. \<not> expired later p) qs) @ acc"
proof (induction qs arbitrary: acc)
  case (Cons p qs)
  have ok: "sts_ok acc" "name_key (sts_host p) \<notin> (name_key \<circ> sts_host) ` set acc" "sts_ok (rev qs @ acc)" "sts_ok (rev qs @ p # acc)"
    using Cons.prems(2) by (auto simp: sts_ok_def)
  have "sts_load_line later acc (sts_line p) = (if expired later p then acc else p # acc)"
    using Cons.prems(1) ok(1,2) by (intro sts_load_one) auto
  then show ?case using Cons.IH [OF _ ok(3)] Cons.IH [OF _ ok(4)] Cons.prems(1) by simp
qed simp

lemma sts_restart:
  assumes "sts_ok ps"
  shows "sts_policy_init later (sts_policy_save now ps) [] =
    rev (filter (\<lambda>p. \<not> expired later p) (filter (\<lambda>p. sts_expires p \<noteq> 0 \<and> \<not> sts_expires p < now) ps))"
proof -
  let ?qs = "filter (\<lambda>p. sts_expires p \<noteq> 0 \<and> \<not> sts_expires p < now) ps"
  have good: "\<forall>p \<in> set ?qs. sts_good p" using assms by (fastforce simp: sts_ok_def sts_good_def)
  have "sts_ok (rev ?qs @ [])"
    using sts_ok_filter [OF assms, of "\<lambda>p. sts_expires p \<noteq> 0 \<and> \<not> sts_expires p < now"]
    by (simp add: sts_ok_def rev_map [symmetric])
  from sts_load_all [OF good this] show ?thesis
    by (simp add: sts_policy_init_def sts_policy_save_def fgets_sts [OF good])
qed

subsection \<open>A policy holds until it expires\<close>

text \<open>The host has the policy with this port and time of expiry.\<close>

definition sts_held :: "string \<Rightarrow> int \<Rightarrow> int \<Rightarrow> sts_record list \<Rightarrow> bool" where
  "sts_held h port e ps \<longleftrightarrow>
     sts_ok ps \<and> (\<exists>p \<in> set ps. name_key (sts_host p) = name_key h \<and> sts_port p = port \<and> sts_expires p = e)"

text \<open>A step that neither adds nor removes a policy of the host, and is not later than \<open>e\<close>.\<close>

definition op_apart :: "string \<Rightarrow> int \<Rightarrow> int \<times> sts_op \<Rightarrow> bool" where
  "op_apart h e x \<longleftrightarrow>
     fst x \<le> e \<and>
     (case snd x of
        Sts_add host port duration \<Rightarrow> (\<forall>k. host = Some k \<longrightarrow> name_key k \<noteq> name_key h)
      | Sts_remove host \<Rightarrow> (\<forall>k. host = Some k \<longrightarrow> name_key k \<noteq> name_key h)
      | Sts_check host \<Rightarrow> True
      | Sts_restart later \<Rightarrow> later \<le> e)"

lemma held_without: "sts_held h port e ps \<Longrightarrow> now \<le> e \<Longrightarrow> sts_held h port e (sts_without k now ps)"
  unfolding sts_held_def using sts_ok_without [of ps k now] by (fastforce simp: sts_without_def expired_def)

lemma held_add:
  assumes "sts_held h port e ps" "op_ok (now, Sts_add host p d)" "op_apart h e (now, Sts_add host p d)"
  shows "sts_held h port e (sts_policy_add host p d now ps)"
proof (cases "host = None \<or> p \<le> 0")
  case True
  then show ?thesis using assms(1) by (auto simp: sts_policy_add_def split: option.split)
next
  case False
  then obtain k where k: "host = Some k" "plain_host k" "name_key k \<noteq> name_key h" "0 < p"
    using assms(2,3) by (auto simp: op_ok_def op_apart_def)
  have ok: "sts_ok ps" using assms(1) by (simp add: sts_held_def)
  have w: "sts_held h port e (sts_without k now ps)"
    using held_without [OF assms(1)] assms(3) by (simp add: op_apart_def)
  then obtain q where q: "q \<in> set (sts_without k now ps)" "name_key (sts_host q) = name_key h" "sts_port q = port" "sts_expires q = e"
    by (auto simp: sts_held_def)
  have "\<exists>q' \<in> set (sts_policy_add host p d now ps). q' = q"
    using q k sts_change_map [OF sts_ok_without [OF ok] k(2)]
    by (auto simp: sts_policy_add_def sts_find_eq [OF ok k(2)] image_iff split: option.split)
  then show ?thesis using sts_ok_add [OF ok assms(2)] q by (auto simp: sts_held_def)
qed

lemma held_find: "sts_held h port e ps \<Longrightarrow> plain_host k \<Longrightarrow> now \<le> e \<Longrightarrow> sts_held h port e (fst (sts_find k now ps))"
  using held_without [of h port e ps now k] by (simp add: sts_held_def sts_find_eq)

lemma held_remove:
  assumes "sts_held h port e ps" "op_ok (now, Sts_remove host)" "op_apart h e (now, Sts_remove host)"
  shows "sts_held h port e (sts_policy_remove host now ps)"
proof (cases host)
  case None
  then show ?thesis using assms(1) by (simp add: sts_policy_remove_def sts_policy_find_def)
next
  case (Some k)
  have k: "plain_host k" "name_key k \<noteq> name_key h" "now \<le> e"
    using assms(2,3) Some by (simp_all add: op_ok_def op_apart_def)
  have ok: "sts_ok ps" using assms(1) by (simp add: sts_held_def)
  from held_without [OF assms(1) k(3)] have w: "sts_held h port e (sts_without k now ps)" .
  then have "sts_held h port e (filter (\<lambda>p. name_key (sts_host p) \<noteq> name_key k) (sts_without k now ps))"
    using k(2) sts_ok_filter unfolding sts_held_def by fastforce
  then show ?thesis using w by (simp add: Some sts_ok_remove [OF ok k(1)])
qed

lemma held_restart:
  assumes "sts_held h port e ps" "0 < e" "now \<le> e" "later \<le> e"
  shows "sts_held h port e (sts_policy_init later (sts_policy_save now ps) [])"
proof -
  have ok: "sts_ok ps" using assms(1) by (simp add: sts_held_def)
  have "sts_ok (rev qs) \<longleftrightarrow> sts_ok qs" for qs by (simp add: sts_ok_def rev_map [symmetric])
  then show ?thesis
    using assms sts_ok_filter [OF sts_ok_filter [OF ok]] unfolding sts_restart [OF ok]
    by (fastforce simp: sts_held_def expired_def)
qed

lemma held_step:
  assumes "sts_held h port e ps" "0 < e" "op_ok x" "op_apart h e x"
  shows "sts_held h port e (sts_step x ps)"
proof -
  obtain now op where x: "x = (now, op)" by (cases x)
  show ?thesis
  proof (cases op)
    case (Sts_add host p d)
    then show ?thesis using held_add assms x by simp
  next
    case (Sts_remove host)
    then show ?thesis using held_remove assms x by simp
  next
    case (Sts_check host)
    then show ?thesis
      using assms x held_find by (cases host) (auto simp: sts_policy_check_def sts_policy_find_def op_ok_def op_apart_def case_prod_beta)
  next
    case (Sts_restart later)
    then show ?thesis using held_restart assms x by (simp add: op_apart_def)
  qed
qed

lemma held_steps:
  "sts_held h port e ps \<Longrightarrow> 0 < e \<Longrightarrow> list_all op_ok xs \<Longrightarrow> list_all (op_apart h e) xs \<Longrightarrow>
   sts_held h port e (fold sts_step xs ps)"
  by (induction xs arbitrary: ps) (simp_all add: held_step)

lemma held_added:
  assumes "sts_ok ps" "plain_host h" "op_ok (now, Sts_add (Some h) port d)" "0 < port" "0 < d"
  shows "sts_held h port (now + d) (sts_policy_add (Some h) port d now ps)"
proof -
  have w: "sts_ok (sts_without h now ps)" by (rule sts_ok_without [OF assms(1)])
  have mem: "p \<in> set (sts_without h now ps)" if "host_policy h ps = Some p" "\<not> expired now p" for p
    using host_policy_mem [OF that(1)] that(2) by (auto simp: sts_without_def)
  have "\<exists>p \<in> set (sts_policy_add (Some h) port d now ps).
      name_key (sts_host p) = name_key h \<and> sts_port p = port \<and> sts_expires p = now + d"
  proof (cases "case host_policy h ps of None \<Rightarrow> None | Some p \<Rightarrow> if expired now p then None else Some p")
    case None
    then show ?thesis using assms(4,5) by (simp add: sts_policy_add_def sts_find_eq [OF assms(1,2)])
  next
    case (Some p)
    then have p: "host_policy h ps = Some p" "\<not> expired now p" by (auto split: option.splits if_splits)
    have "p \<in> set (sts_without h now ps)" by (rule mem [OF p])
    moreover have "name_key (sts_host p) = name_key h" using host_policy_mem [OF p(1)] by simp
    ultimately show ?thesis
      using assms(4,5) Some
      by (auto simp: sts_policy_add_def sts_find_eq [OF assms(1,2)] sts_change_map [OF w assms(2)] intro!: bexI [of _ "p\<lparr>sts_port := port, sts_expires := now + d\<rparr>"])
  qed
  then show ?thesis using sts_ok_add [OF assms(1,3)] by (simp add: sts_held_def)
qed

text \<open>C40: A policy that a host announced for some time is in force until that time: whatever happens to
  the policies of other hosts, however often it is looked up and the program is restarted, up to
  the time of expiry a connection to the host is told the port for TLS.
\<close>

theorem sts_policy_enforced:
  assumes "sts_ok ps" "plain_host h" "0 < port" "0 < d" "op_ok (now, Sts_add (Some h) port d)"
    and "list_all op_ok xs" "list_all (op_apart h (now + d)) xs" "later \<le> now + d"
  shows "snd (sts_policy_check (Some h) later (fold sts_step xs (sts_policy_add (Some h) port d now ps))) = Some port"
proof -
  let ?qs = "fold sts_step xs (sts_policy_add (Some h) port d now ps)"
  have e: "0 < now + d" using assms(4,5) by (simp add: op_ok_def)
  have held: "sts_held h port (now + d) ?qs"
    using held_added [OF assms(1,2,5,3,4)] held_steps e assms(6,7) by blast
  then have ok: "sts_ok ?qs" by (simp add: sts_held_def)
  from held obtain p where p: "p \<in> set ?qs" "name_key (sts_host p) = name_key h" "sts_port p = port" "sts_expires p = now + d"
    by (auto simp: sts_held_def)
  have "host_policy h ?qs = Some p" using host_policy_iff [OF ok] p(1,2) by blast
  moreover have "\<not> expired later p" using p(4) assms(8) by (simp add: expired_def)
  ultimately show ?thesis
    using p(3) by (simp add: sts_policy_check_def sts_policy_find_def sts_find_eq [OF ok assms(2)])
qed

definition demo_sts_ops :: "(int \<times> sts_op) list" where
  "demo_sts_ops = [(110, Sts_add (Some ''other'') 7000 0), (120, Sts_check (Some ''IRC.example'')),
     (130, Sts_restart 140), (150, Sts_remove (Some ''other''))]"

lemma sts_policy_enforced_witness:
  "snd (sts_policy_check (Some ''irc.Example'') 160
     (fold sts_step demo_sts_ops (sts_policy_add (Some ''irc.Example'') 6697 60 100 []))) = Some 6697"
proof (rule sts_policy_enforced)
  have k: "name_key ''other'' \<noteq> name_key ''irc.Example''" by (simp add: name_key_def)
  have p: "plain_host ''other''" "plain_host ''irc.Example''" "plain_host ''IRC.example''"
    by (simp_all add: plain_host_def token_end_def)
  show "plain_host ''irc.Example''" by (rule p)
  show "op_ok (100, Sts_add (Some ''irc.Example'') 6697 60)" by (simp add: op_ok_def p)
  show "list_all op_ok demo_sts_ops" by (simp add: demo_sts_ops_def op_ok_def p)
  show "list_all (op_apart ''irc.Example'' (100 + 60)) demo_sts_ops" using k by (simp add: demo_sts_ops_def op_apart_def)
qed (simp_all add: sts_ok_def)

text \<open>
  A duration of 0, with which a host withdraws its policy, makes the policy one for the session:
  it stays in force until the program ends.
\<close>

lemma sts_not_withdrawn:
  assumes "plain_host h" "0 < port"
  shows "snd (sts_policy_check (Some h) later (sts_policy_add (Some h) port 0 now [])) = Some port"
proof -
  have "g_ascii_strcasecmp h h = 0" by (induction h) simp_all
  then show ?thesis
    using assms by (simp add: sts_policy_add_def sts_policy_check_def sts_policy_find_def same_host_def)
qed

end
