(* ===== verification/Spec2Isabelle.thy ===== *)
theory Spec2Isabelle
  imports ModesProofs Isupport InputHistory IgnoreProofs SendQueueProofs Words MessageTags
    ProtoIrcProofs SayProofs CommandProofs TextEventsProofs LogFile NotifyPresence DisplayProofs
    PluginProofs PluginTimer PluginPref ServlistProofs Sts
begin

text \<open>
  A model of the core of the IRC client HexChat, the C code of \<open>src/common\<close> that both front
  ends share, with proofs of its correctness.

  The program. A line from a server arrives in pieces (\<open>server_read\<close>, \<open>server.c\<close>), is
  completed and handed to \<open>irc_inline\<close> (\<open>proto-irc.c\<close>), which takes off the IRCv3 tags and the
  label, splits the line (\<open>process_data_init\<close>, \<open>outbound.c\<close>) and dispatches it: numerics to
  \<open>process_numeric\<close>, named commands to \<open>process_named_msg\<close>. Their handlers (\<open>inbound.c\<close>,
  \<open>modes.c\<close>, \<open>ctcp.c\<close>, \<open>scram.c\<close>, \<open>notify.c\<close>) change the windows (\<open>struct session\<close>), their
  user lists (\<open>userlist.c\<close> over \<open>tree.c\<close>) and the connection (\<open>struct server\<close>), and emit text
  events, whose texts are compiled and filled in by \<open>text.c\<close>. A line the user types goes to
  \<open>handle_user_input\<close> (\<open>outbound.c\<close>): a command of the table, of the user or of a plugin, or
  a text to say. Both ways end in \<open>tcp_send_len\<close>, the throttled queue of \<open>server.c\<close>.

  Conventions. C strings are byte lists without the terminator (\<open>HexPrelude\<close>). A function
  that can read or write outside an object, use a NULL pointer or fail an assertion has an
  option as its result and \<open>None\<close> stands for that; theorems that say a result is \<open>Some\<close>
  exclude it. Calls into code that is not modelled, into the front end, and text events are
  recorded in a trace, in their order. Preferences, the clock, the file system and answers of
  libraries are parameters, collected in records (\<open>prefs\<close>, \<open>env\<close>, \<open>denv\<close>).

  Data. \<open>Session\<close> holds the structs of \<open>hexchat.h\<close> and \<open>userlist.h\<close>; \<open>Proto\<close> adds what the
  protocol code keeps for a server, \<open>Say\<close> what the input line keeps, \<open>Display\<close> the answers that
  the display of a message needs. \<open>SendQueue.sendq\<close> is the queue with labels and batches.

  Theories, by the file of \<open>src/common\<close>:

    \<^item> \<open>util.c\<close>: \<open>CaseFold\<close> (RFC 1459 folding), \<open>Glob\<close> (\<open>match\<close>), \<open>StringUtil\<close>.
    \<^item> \<open>tree.c\<close>: \<open>SortedTree\<close>; its interface \<open>key_order\<close> is interpreted in \<open>NickOrder\<close> for both
      case mappings a server can have.
    \<^item> \<open>userlist.c\<close>: \<open>UserList\<close>, \<open>UserListProofs\<close>.
    \<^item> \<open>modes.c\<close>: \<open>ChanModes\<close> (prefixes and classes), \<open>Modes\<close>, \<open>ModesProofs\<close>, \<open>Isupport\<close>.
    \<^item> \<open>history.c\<close>, \<open>ignore.c\<close>: \<open>InputHistory\<close>, \<open>Ignore\<close>, \<open>IgnoreProofs\<close>.
    \<^item> \<open>server.c\<close>: \<open>SendQueue\<close>, \<open>SendQueueProofs\<close>; defaults and resets of a connection in \<open>Login\<close>.
    \<^item> \<open>proto-irc.c\<close>: \<open>MessageTags\<close>, \<open>IrcOut\<close> (lines sent), \<open>ProtoIrc\<close> (named commands),
      \<open>Numerics\<close>, \<open>IrcInline\<close>, \<open>ProtoIrcProofs\<close>.
    \<^item> \<open>inbound.c\<close>: \<open>Inbound\<close>, \<open>InboundProofs\<close> (membership), \<open>Batch\<close>, \<open>BatchProofs\<close>, \<open>Login\<close>,
      \<open>LoginProofs\<close> (capabilities, SASL, automatic joins), \<open>Alert\<close> (highlighting), \<open>Display\<close>,
      \<open>DisplayProofs\<close> (messages and notices).
    \<^item> \<open>scram.c\<close>, \<open>ctcp.c\<close>, \<open>chanopt.c\<close>, \<open>notify.c\<close>: \<open>Scram\<close>, \<open>Ctcp\<close>, \<open>ChanOpt\<close>,
      \<open>ChanOptProofs\<close>, \<open>Notify\<close>, \<open>NotifyProofs\<close>, \<open>NotifyPresence\<close>.
    \<^item> \<open>outbound.c\<close>: \<open>Words\<close>, \<open>InputText\<close>, \<open>Say\<close>, \<open>SayProofs\<close>, \<open>Commands\<close>, \<open>CommandsIrcv3\<close>,
      \<open>Command\<close> (the dispatch), \<open>CommandTable\<close>, \<open>CommandProofs\<close>.
    \<^item> \<open>text.c\<close>: \<open>TextEvents\<close>, \<open>TextEventsProofs\<close>, \<open>LogFile\<close>.
    \<^item> \<open>plugin.c\<close>: \<open>Plugin\<close> (hooks, loading, contexts), \<open>PluginProofs\<close>, \<open>PluginPref\<close> (the files of
      plugins' preferences); \<open>plugin-timer.c\<close>: \<open>PluginTimer\<close>, over the hooks of \<open>Plugin\<close>.
    \<^item> \<open>servlist.c\<close>: \<open>Servlist\<close>, \<open>ServlistProofs\<close> (the network list and its file), \<open>Sts\<close> (transport
      security policies).

  Two levels of the same call. \<open>ProtoIrc\<close> and \<open>Batch\<close> record the display of a message, and
  \<open>Inbound\<close> the calls into the friends list, in the trace; what these calls do is modelled over
  its own state in \<open>Display\<close> and \<open>Notify\<close>. There a plugin enters as a parameter that may eat a line;
  how the hooks of plugins decide that is the subject of \<open>Plugin\<close>, where in turn the callbacks are a
  parameter.

  What is shown. The sorted array behind the user lists is searched, filled and emptied
  correctly for every order that obeys \<open>key_order\<close>; the user lists stay sorted, their counters
  and flags right, under every operation (\<open>UserListProofs\<close>), every MODE line (\<open>ModesProofs\<close>),
  every handler of a server command (\<open>InboundProofs\<close>, \<open>ProtoIrcProofs\<close>) and every message
  (\<open>DisplayProofs\<close>). Lines sent are neither lost nor reordered and fit the protocol
  (\<open>SendQueueProofs\<close>, \<open>ModesProofs\<close>, \<open>IrcOut\<close>, \<open>NotifyPresence\<close>); lines read do not depend on
  how the bytes arrived; the splitters of lines and messages agree with reference splits and
  lose nothing (\<open>Words\<close>, \<open>SayProofs\<close>). Tags, SASL payloads, texts of events and the files of
  the client round-trip or are maps (\<open>PluginPref\<close>). Hooks run in the order of their priorities, with
  the exceptions \<open>PluginProofs\<close> shows; a security policy holds until it expires (\<open>Sts\<close>). SCRAM accepts only the server that knows the password and agrees with
  it on the proof, under the laws \<open>crypto_ok\<close> of digest and base64. The handshake always ends
  in CAP END, unless SASL is under way.

  Loops and fuel. Loops are recursive functions over what is left to read, total in HOL. Those
  that need not end in C are \<open>partial_function (option)\<close>: the pieces of a long message
  (\<open>InputText.split_loop\<close>), for which termination is proved where a piece has room for one
  character, the run of an event over the hooks (\<open>Plugin.hook_loop\<close>), where it is proved for
  callbacks that add no hooks, and the search for a place in the array (\<open>SortedTree.insertion_loop\<close>), which ends
  on every sorted array.
  The recursion of user commands is the code's own limit of 100 levels, not a fuel of the
  model; the words of a line are at most \<open>PDIWORDS\<close>, 32.

  Not modelled: the front ends (GTK, curses) and the bindings of script languages are glue around
  libraries; \<open>zstd\<close> and the SQLite file system below the scrollback are third-party code; sockets,
  TLS, the OAuth web requests, icons, the ident server and the key store are calls into
  libraries, whose answers are parameters; \<open>url.c\<close> is regular expressions of GLib. Within reach but
  left out: DCC transfers, chat history and scrollback, the table of preferences, and the tags
  and typing notifications of others, which are recorded as calls. \<open>PROJECT.json\<close> lists all parts.
\<close>

end
